(* ===== verification/Prelude.thy ===== *)
theory Prelude
  imports Main "HOL-Library.Word" "HOL-Library.Sublist" "HOL-Library.List_Lexorder"
    "HOL-Library.Char_ord"
begin

text \<open>
  The shared vocabulary of the development: the part of Go's standard library that the
  modelled packages call (package \<^verbatim>\<open>strings\<close>, \<^verbatim>\<open>strconv\<close>, \<^verbatim>\<open>encoding/binary\<close>), the
  types that stand for Go's built-in types, and the generic lemmas on lists, strings and
  words that the component theories use.

  A Go string and a Go byte slice of text are a \<^typ>\<open>string\<close>: one \<^typ>\<open>char\<close> is one byte.
  Case mapping and white space are the ASCII ones: \<^verbatim>\<open>strings.ToLower\<close>, \<^verbatim>\<open>strings.ToUpper\<close>,
  \<^verbatim>\<open>strings.EqualFold\<close> and \<^verbatim>\<open>strings.TrimSpace\<close> agree with these definitions on ASCII text,
  which is what host names, header names, rule types and configuration keys are; the Unicode
  tables of Go are not modelled. Byte slices of binary protocols are lists of \<open>8 word\<close>.
  A Go \<^verbatim>\<open>error\<close> result is the left summand of a sum. A \<^verbatim>\<open>nil\<close> pointer is \<^const>\<open>None\<close>.
  \<^verbatim>\<open>time.Time\<close> is an integer count of nanoseconds in which \<open>0\<close> is Go's zero time.
\<close>

type_synonym byte = "8 word"
type_synonym uint16 = "16 word"
type_synonym uint32 = "32 word"
type_synonym uint64 = "64 word"
type_synonym time = int
type_synonym duration = int

text \<open>The collections of simplification rules the components fill.\<close>

named_theorems go_string_simps
named_theorems route_simps
named_theorems cache_simps

section \<open>Package strings\<close>

definition is_space :: "char \<Rightarrow> bool" where
  "is_space c \<longleftrightarrow> (let n = (of_char c :: nat) in (9 \<le> n \<and> n \<le> 13) \<or> n = 32)"

definition lower_char :: "char \<Rightarrow> char" where
  "lower_char c = (let n = (of_char c :: nat) in if 65 \<le> n \<and> n \<le> 90 then char_of (n + 32) else c)"

definition upper_char :: "char \<Rightarrow> char" where
  "upper_char c = (let n = (of_char c :: nat) in if 97 \<le> n \<and> n \<le> 122 then char_of (n - 32) else c)"

definition is_digit :: "char \<Rightarrow> bool" where
  "is_digit c \<longleftrightarrow> (let n = (of_char c :: nat) in 48 \<le> n \<and> n \<le> 57)"

definition ToLower :: "string \<Rightarrow> string" where
  "ToLower = map lower_char"

definition ToUpper :: "string \<Rightarrow> string" where
  "ToUpper = map upper_char"

definition trim_left :: "('a \<Rightarrow> bool) \<Rightarrow> 'a list \<Rightarrow> 'a list" where
  "trim_left P s = dropWhile P s"

definition trim_right :: "('a \<Rightarrow> bool) \<Rightarrow> 'a list \<Rightarrow> 'a list" where
  "trim_right P s = rev (dropWhile P (rev s))"

definition TrimFunc :: "('a \<Rightarrow> bool) \<Rightarrow> 'a list \<Rightarrow> 'a list" where
  "TrimFunc P s = trim_right P (trim_left P s)"

definition TrimSpace :: "string \<Rightarrow> string" where
  "TrimSpace = TrimFunc is_space"

text \<open>\<^verbatim>\<open>strings.ToLower(strings.TrimSpace(s))\<close>, the normalisation used all over the code.\<close>

definition lower_trim :: "string \<Rightarrow> string" where
  "lower_trim s = ToLower (TrimSpace s)"

definition EqualFold :: "string \<Rightarrow> string \<Rightarrow> bool" where
  "EqualFold a b \<longleftrightarrow> ToLower a = ToLower b"

definition HasPrefix :: "'a list \<Rightarrow> 'a list \<Rightarrow> bool" where
  "HasPrefix s p \<longleftrightarrow> take (length p) s = p"

definition HasSuffix :: "'a list \<Rightarrow> 'a list \<Rightarrow> bool" where
  "HasSuffix s p \<longleftrightarrow> length p \<le> length s \<and> drop (length s - length p) s = p"

definition TrimPrefix :: "'a list \<Rightarrow> 'a list \<Rightarrow> 'a list" where
  "TrimPrefix s p = (if HasPrefix s p then drop (length p) s else s)"

definition TrimSuffix :: "'a list \<Rightarrow> 'a list \<Rightarrow> 'a list" where
  "TrimSuffix s p = (if HasSuffix s p then take (length s - length p) s else s)"

text \<open>\<^verbatim>\<open>strings.Index\<close> and \<^verbatim>\<open>bytes.Index\<close>: \<^const>\<open>None\<close> stands for \<open>-1\<close>.\<close>

fun Index :: "'a list \<Rightarrow> 'a list \<Rightarrow> nat option" where
  "Index [] t = (if t = [] then Some 0 else None)"
| "Index (c # s) t = (if HasPrefix (c # s) t then Some 0 else map_option Suc (Index s t))"

definition Contains :: "'a list \<Rightarrow> 'a list \<Rightarrow> bool" where
  "Contains s t \<longleftrightarrow> Index s t \<noteq> None"

text \<open>\<^verbatim>\<open>strings.Split\<close> with a one-byte separator.\<close>

fun Split :: "'a list \<Rightarrow> 'a \<Rightarrow> 'a list list" where
  "Split [] c = [[]]"
| "Split (x # xs) c =
     (if x = c then [] # Split xs c
      else (case Split xs c of [] \<Rightarrow> [[x]] | y # ys \<Rightarrow> (x # y) # ys))"

text \<open>\<^verbatim>\<open>strings.Cut\<close> with a one-byte separator: the part before, the part after, found.\<close>

definition Cut :: "'a list \<Rightarrow> 'a \<Rightarrow> 'a list \<times> 'a list \<times> bool" where
  "Cut s c = (if c \<in> set s then (takeWhile (\<lambda>x. x \<noteq> c) s, tl (dropWhile (\<lambda>x. x \<noteq> c) s), True)
              else (s, [], False))"

text \<open>\<^verbatim>\<open>strings.Fields\<close>: the maximal runs of non-space characters.\<close>

function Fields :: "string \<Rightarrow> string list" where
  "Fields s =
     (let t = dropWhile is_space s in
      if t = [] then []
      else takeWhile (\<lambda>c. \<not> is_space c) t # Fields (dropWhile (\<lambda>c. \<not> is_space c) t))"
  by pat_completeness auto

text \<open>\<^verbatim>\<open>strings.ReplaceAll(s, "\r\n", "\n")\<close>.\<close>

fun crlf_to_lf :: "string \<Rightarrow> string" where
  "crlf_to_lf [] = []"
| "crlf_to_lf [x] = [x]"
| "crlf_to_lf (x # y # s) =
     (if x = CHR 0x0D \<and> y = CHR 0x0A then CHR 0x0A # crlf_to_lf s else x # crlf_to_lf (y # s))"

section \<open>Package strconv and fmt\<close>

text \<open>Decimal rendering, \<^verbatim>\<open>fmt.Sprintf("%d", n)\<close> of a non-negative number.\<close>

fun digits_of :: "nat \<Rightarrow> string" where
  "digits_of n = (if n < 10 then [char_of (48 + n)] else digits_of (n div 10) @ [char_of (48 + n mod 10)])"

declare digits_of.simps [simp del]

text \<open>The value of a string of decimal digits, read from the left.\<close>

fun dec_value :: "nat \<Rightarrow> string \<Rightarrow> nat" where
  "dec_value acc [] = acc"
| "dec_value acc (c # cs) = dec_value (10 * acc + ((of_char c :: nat) - 48)) cs"

definition all_digits :: "string \<Rightarrow> bool" where
  "all_digits s \<longleftrightarrow> s \<noteq> [] \<and> list_all is_digit s"

text \<open>\<^verbatim>\<open>strconv.Atoi\<close>: an optional sign, decimal digits, the range of a 64-bit \<^verbatim>\<open>int\<close>.\<close>

definition Atoi :: "string \<Rightarrow> int option" where
  "Atoi s =
     (let neg = HasPrefix s ''-'';
          d = (if HasPrefix s ''-'' \<or> HasPrefix s ''+'' then drop 1 s else s);
          v = (if neg then - int (dec_value 0 d) else int (dec_value 0 d)) in
      if all_digits d \<and> - (2 ^ 63) \<le> v \<and> v < 2 ^ 63 then Some v else None)"

section \<open>The de-duplication loop\<close>

text \<open>
  The loop that \<^verbatim>\<open>dedupeTrimmedDomains\<close> and \<^verbatim>\<open>dedupeNormalizedDomains\<close> share: normalise, skip
  the empty string, skip what the \<^verbatim>\<open>seen\<close> map holds, append the rest.
\<close>

fun dedupe_loop :: "string list \<Rightarrow> string list \<Rightarrow> string list" where
  "dedupe_loop seen [] = []"
| "dedupe_loop seen (raw # rest) =
     (let normalized = ToLower (TrimSpace raw) in
      if normalized = [] then dedupe_loop seen rest
      else if normalized \<in> set seen then dedupe_loop seen rest
      else normalized # dedupe_loop (normalized # seen) rest)"

section \<open>Package encoding/binary\<close>

text \<open>
  Indexing and slicing panic outside the slice. \<open>Inl ()\<close> is the panic; the models thread it
  so that the absence of panics is a theorem and not an assumption.
\<close>

definition byte_at :: "byte list \<Rightarrow> nat \<Rightarrow> unit + byte" where
  "byte_at b i = (if i < length b then Inr (b ! i) else Inl ())"

definition Uint16 :: "byte list \<Rightarrow> nat \<Rightarrow> unit + nat" where
  "Uint16 b i = (if i + 1 < length b then Inr (unat (b ! i) * 256 + unat (b ! (i + 1))) else Inl ())"

definition Uint32 :: "byte list \<Rightarrow> nat \<Rightarrow> unit + nat" where
  "Uint32 b i =
     (if i + 3 < length b
      then Inr (unat (b ! i) * 16777216 + unat (b ! (i + 1)) * 65536
                + unat (b ! (i + 2)) * 256 + unat (b ! (i + 3)))
      else Inl ())"

definition put_uint16 :: "nat \<Rightarrow> byte list" where
  "put_uint16 n = [word_of_nat (n div 256), word_of_nat n]"

definition string_of_bytes :: "byte list \<Rightarrow> string" where
  "string_of_bytes = map (\<lambda>b. char_of (unat b))"

definition bytes_of_string :: "string \<Rightarrow> byte list" where
  "bytes_of_string = map (\<lambda>c. word_of_nat (of_char c))"

termination Fields
proof (relation "measure length")
  fix s x assume "(x::string) = dropWhile is_space s" "x \<noteq> []"
  then have "\<not> is_space (hd x)" by (simp add: hd_dropWhile)
  with \<open>x \<noteq> []\<close> have "length (dropWhile (\<lambda>c. \<not> is_space c) x) < length x"
    by (cases x) (simp_all add: le_imp_less_Suc length_dropWhile_le)
  also have "length x \<le> length s" using \<open>x = dropWhile is_space s\<close> by (simp add: length_dropWhile_le)
  finally show "(dropWhile (\<lambda>c. \<not> is_space c) x, s) \<in> measure length" by simp
qed simp

declare Fields.simps [simp del]

section \<open>Lemmas on strings\<close>

lemma HasPrefix_iff: "HasPrefix s p \<longleftrightarrow> (\<exists>r. s = p @ r)"
  unfolding HasPrefix_def by (metis append_eq_conv_conj append_take_drop_id)

lemma HasPrefix_Cons [simp]: "HasPrefix (x # s) (y # p) \<longleftrightarrow> x = y \<and> HasPrefix s p"
  by (auto simp: HasPrefix_def)

lemma HasPrefix_Nil [simp]: "HasPrefix s []" "HasPrefix [] p \<longleftrightarrow> p = []"
  by (auto simp: HasPrefix_def)

lemma HasSuffix_iff: "HasSuffix s p \<longleftrightarrow> (\<exists>r. s = r @ p)"
proof
  assume "HasSuffix s p"
  then have "s = take (length s - length p) s @ p"
    unfolding HasSuffix_def by (metis append_take_drop_id)
  then show "\<exists>r. s = r @ p" by blast
qed (auto simp: HasSuffix_def)

lemma HasSuffix_append [simp]: "HasSuffix (r @ p) p"
  by (auto simp: HasSuffix_iff)

lemma TrimPrefix_append [simp]: "TrimPrefix (p @ r) p = r"
  by (simp add: TrimPrefix_def HasPrefix_def)

lemma TrimSuffix_append [simp]: "TrimSuffix (r @ p) p = r"
  by (simp add: TrimSuffix_def)

lemma length_ToLower [simp]: "length (ToLower s) = length s"
  by (simp add: ToLower_def)

lemma ToLower_append [simp]: "ToLower (s @ t) = ToLower s @ ToLower t"
  by (simp add: ToLower_def)

lemma ToLower_Nil_iff [simp]: "ToLower s = [] \<longleftrightarrow> s = []"
  by (simp add: ToLower_def)

lemma of_char_less: "(of_char c :: nat) < 256"
  using nat_of_char_less_256 [of c] by simp

lemma lower_char_idem [simp]: "lower_char (lower_char c) = lower_char c"
  by (auto simp: lower_char_def Let_def)

lemma ToLower_idem [simp]: "ToLower (ToLower s) = ToLower s"
  by (simp add: ToLower_def)

lemma is_space_lower_char [simp]: "is_space (lower_char c) = is_space c"
  by (auto simp: lower_char_def is_space_def Let_def)

lemma trim_right_Nil [simp]: "trim_right P [] = []"
  by (simp add: trim_right_def)

lemma TrimFunc_Nil [simp]: "TrimFunc P [] = []"
  by (simp add: TrimFunc_def trim_left_def)

lemma TrimSpace_Nil [simp]: "TrimSpace [] = []"
  by (simp add: TrimSpace_def)

lemma trim_right_idem [simp]: "trim_right P (trim_right P s) = trim_right P s"
  by (simp add: trim_right_def)

lemma trim_right_id: "s = [] \<or> \<not> P (last s) \<Longrightarrow> trim_right P s = s"
  by (cases "rev s") (auto simp: trim_right_def last_rev hd_rev)

lemma trim_left_id: "s = [] \<or> \<not> P (hd s) \<Longrightarrow> trim_left P s = s"
  by (cases s) (auto simp: trim_left_def)

lemma hd_trim_right: "trim_right P s \<noteq> [] \<Longrightarrow> hd (trim_right P s) = hd s"
proof -
  assume ne: "trim_right P s \<noteq> []"
  have "rev s = takeWhile P (rev s) @ dropWhile P (rev s)" by simp
  then have "s = trim_right P s @ rev (takeWhile P (rev s))"
    unfolding trim_right_def by (metis rev_append rev_rev_ident)
  with ne show ?thesis by (metis hd_append2)
qed

lemma TrimFunc_ends:
  assumes "TrimFunc P s \<noteq> []"
  shows "\<not> P (hd (TrimFunc P s)) \<and> \<not> P (last (TrimFunc P s))"
proof -
  let ?t = "trim_left P s"
  from assms have ne: "trim_right P ?t \<noteq> []" by (simp add: TrimFunc_def)
  then have "?t \<noteq> []" by auto
  then have "\<not> P (hd ?t)" by (simp add: trim_left_def hd_dropWhile)
  moreover from ne have "dropWhile P (rev ?t) \<noteq> []" by (simp add: trim_right_def)
  then have "\<not> P (last (trim_right P ?t))"
    by (simp add: trim_right_def last_rev hd_dropWhile)
  ultimately show ?thesis using hd_trim_right [OF ne] by (simp add: TrimFunc_def)
qed

lemma TrimFunc_id: "s = [] \<or> \<not> P (hd s) \<and> \<not> P (last s) \<Longrightarrow> TrimFunc P s = s"
  by (auto simp: TrimFunc_def trim_left_id trim_right_id)

lemma TrimFunc_idem [simp]: "TrimFunc P (TrimFunc P s) = TrimFunc P s"
  using TrimFunc_ends [of P s] by (intro TrimFunc_id) auto

lemma TrimSpace_idem [simp]: "TrimSpace (TrimSpace s) = TrimSpace s"
  by (simp add: TrimSpace_def)

lemma TrimSpace_ToLower: "TrimSpace (ToLower s) = ToLower (TrimSpace s)"
proof -
  have *: "dropWhile is_space (map lower_char t) = map lower_char (dropWhile is_space t)" for t
    by (induction t) auto
  show ?thesis
    by (simp add: TrimSpace_def TrimFunc_def trim_left_def trim_right_def ToLower_def * rev_map)
qed

lemma lower_trim_idem [simp]: "lower_trim (lower_trim s) = lower_trim s"
  by (simp add: lower_trim_def TrimSpace_ToLower)

lemma lower_trim_Nil [simp]: "lower_trim [] = []"
  by (simp add: lower_trim_def)

lemma Split_not_Nil [simp]: "Split s c \<noteq> []"
  by (induction s) (auto split: list.splits)

lemma length_Split: "length (Split s c) = Suc (count_list s c)"
proof (induction s)
  case (Cons x s)
  then show ?case by (cases "Split s c") auto
qed simp

lemma Split_no_sep: "x \<in> set (Split s c) \<Longrightarrow> c \<notin> set x"
proof (induction s arbitrary: x)
  case (Cons y s)
  then show ?case by (cases "Split s c") (auto split: if_splits)
qed simp

lemma Index_Some: "Index s t = Some i \<Longrightarrow> i + length t \<le> length s \<and> take (length t) (drop i s) = t"
proof (induction s t arbitrary: i rule: Index.induct)
  case (2 c s t)
  show ?case
  proof (cases "HasPrefix (c # s) t")
    case True
    with "2.prems" have i: "i = 0" by simp
    from True obtain r where "c # s = t @ r" by (auto simp: HasPrefix_iff)
    then have "length t \<le> length (c # s)" "take (length t) (c # s) = t" by simp_all
    with i show ?thesis by simp
  next
    case False
    with "2.prems" obtain j where "Index s t = Some j" "i = Suc j" by auto
    with "2.IH" [OF False] show ?thesis by simp
  qed
qed (auto split: if_splits)

section \<open>Lemmas on the de-duplication loop\<close>

lemma set_dedupe_loop: "set (dedupe_loop seen xs) = lower_trim ` set xs - {[]} - set seen"
  by (induction xs arbitrary: seen) (auto simp: lower_trim_def Let_def)

lemma distinct_dedupe_loop: "distinct (dedupe_loop seen xs)"
  by (induction xs arbitrary: seen) (auto simp: Let_def set_dedupe_loop)

lemma subseq_dedupe_loop: "subseq (dedupe_loop seen xs) (map lower_trim xs)"
  by (induction xs arbitrary: seen) (auto simp: lower_trim_def Let_def)

lemma Cut_append: "c \<notin> set x \<Longrightarrow> Cut (x @ c # y) c = (x, y, True)"
proof -
  assume "c \<notin> set x"
  then have "\<And>z. z \<in> set x \<Longrightarrow> z \<noteq> c" by blast
  then show ?thesis by (simp add: Cut_def takeWhile_append2 dropWhile_append2)
qed

lemma find_SomeD: "find P xs = Some x \<Longrightarrow> x \<in> set xs \<and> P x"
  by (induction xs) (auto split: if_splits)

section \<open>Lemmas on numbers and bytes\<close>

lemma unat_byte_less [simp]: "unat (b :: byte) < 256"
  using unsigned_less [of b] by simp

lemma put_uint16_length [simp]: "length (put_uint16 n) = 2"
  by (simp add: put_uint16_def)

lemma Uint16_put_uint16:
  assumes "n < 65536"
  shows "Uint16 (xs @ put_uint16 n @ ys) (length xs) = Inr n"
proof -
  have "unat (word_of_nat (n div 256) :: byte) = n div 256"
    using assms by (simp add: unsigned_of_nat take_bit_eq_mod)
  moreover have "unat (word_of_nat n :: byte) = n mod 256"
    by (simp add: unsigned_of_nat take_bit_eq_mod)
  ultimately show ?thesis
    by (simp add: Uint16_def put_uint16_def nth_append)
qed

lemma string_of_bytes_of_string [simp]: "string_of_bytes (bytes_of_string s) = s"
proof -
  have "char_of (unat (word_of_nat (of_char c) :: byte)) = c" for c
    using of_char_less [of c] by (simp add: unsigned_of_nat take_bit_eq_mod)
  then show ?thesis by (simp add: string_of_bytes_def bytes_of_string_def comp_def)
qed

lemma length_bytes_of_string [simp]: "length (bytes_of_string s) = length s"
  by (simp add: bytes_of_string_def)

end
