(* ===== verification/Netip.thy ===== *)
theory Netip
  imports Prelude
begin

unbundle bit_operations_syntax

text \<open>
  Package \<^verbatim>\<open>net/netip\<close> of Go's standard library, as far as the modelled packages call it:
  parsing of addresses and prefixes, the predicates on addresses, prefix containment and the
  textual form. An address is invalid (Go's zero \<^verbatim>\<open>Addr\<close>), a 32-bit IPv4 address or a
  128-bit IPv6 address with a zone. The theory also holds \<^verbatim>\<open>net.SplitHostPort\<close>.
\<close>

datatype Addr = AddrZero | Addr4 "32 word" | Addr6 "128 word" string

definition IsValid :: "Addr \<Rightarrow> bool" where
  "IsValid a \<longleftrightarrow> a \<noteq> AddrZero"

definition IsUnspecified :: "Addr \<Rightarrow> bool" where
  "IsUnspecified a \<longleftrightarrow> a = Addr4 0 \<or> a = Addr6 0 []"

text \<open>An IPv4-mapped IPv6 address \<^verbatim>\<open>::ffff:a.b.c.d\<close>, and its IPv4 address.\<close>

definition Is4In6 :: "Addr \<Rightarrow> bool" where
  "Is4In6 a = (case a of Addr6 w _ \<Rightarrow> drop_bit 32 w = 0xffff | _ \<Rightarrow> False)"

definition Unmap :: "Addr \<Rightarrow> Addr" where
  "Unmap a = (if Is4In6 a then (case a of Addr6 w _ \<Rightarrow> Addr4 (ucast w) | _ \<Rightarrow> a) else a)"

definition IsLoopback :: "Addr \<Rightarrow> bool" where
  "IsLoopback a = (case Unmap a of
       AddrZero \<Rightarrow> False
     | Addr4 w \<Rightarrow> drop_bit 24 w = 127
     | Addr6 w _ \<Rightarrow> w = 1)"

definition IsPrivate :: "Addr \<Rightarrow> bool" where
  "IsPrivate a = (case Unmap a of
       AddrZero \<Rightarrow> False
     | Addr4 w \<Rightarrow> drop_bit 24 w = 10 \<or> drop_bit 20 w = 0xac1 \<or> drop_bit 16 w = 0xc0a8
     | Addr6 w _ \<Rightarrow> drop_bit 121 w = 0x7e)"

section \<open>Parsing\<close>

text \<open>One octet of an IPv4 address: digits, no leading zero, at most 255.\<close>

definition parse_octet :: "string \<Rightarrow> nat option" where
  "parse_octet s =
     (if all_digits s \<and> (length s > 1 \<longrightarrow> hd s \<noteq> CHR ''0'') \<and> dec_value 0 s \<le> 255
      then Some (dec_value 0 s) else None)"

definition addr4_of_octets :: "nat \<Rightarrow> nat \<Rightarrow> nat \<Rightarrow> nat \<Rightarrow> 32 word" where
  "addr4_of_octets a b c d = word_of_nat (((a * 256 + b) * 256 + c) * 256 + d)"

definition parseIPv4 :: "string \<Rightarrow> (32 word) option" where
  "parseIPv4 s =
     (case Split s (CHR ''.'') of
        [a, b, c, d] \<Rightarrow>
          (case (parse_octet a, parse_octet b, parse_octet c, parse_octet d) of
             (Some w, Some x, Some y, Some z) \<Rightarrow> Some (addr4_of_octets w x y z)
           | _ \<Rightarrow> None)
      | _ \<Rightarrow> None)"

definition hex_digit :: "char \<Rightarrow> nat option" where
  "hex_digit c =
     (let n = (of_char c :: nat) in
      if 48 \<le> n \<and> n \<le> 57 then Some (n - 48)
      else if 97 \<le> n \<and> n \<le> 102 then Some (n - 87)
      else if 65 \<le> n \<and> n \<le> 70 then Some (n - 55)
      else None)"

definition is_hex :: "char \<Rightarrow> bool" where
  "is_hex c \<longleftrightarrow> hex_digit c \<noteq> None"

definition hex_value :: "string \<Rightarrow> nat" where
  "hex_value s = foldl (\<lambda>acc c. 16 * acc + the (hex_digit c)) 0 s"

text \<open>
  The loop of \<^verbatim>\<open>parseIPv6\<close>: the 16-bit groups read so far, the position of the ellipsis and
  the rest of the string. The fuel is the number of groups that still fit, as in the source's
  \<^verbatim>\<open>for i < 16\<close>.
\<close>

fun parse6_loop :: "nat \<Rightarrow> nat list \<Rightarrow> nat option \<Rightarrow> string \<Rightarrow> (nat list \<times> nat option \<times> string) option" where
  "parse6_loop 0 gs ell s = Some (gs, ell, s)"
| "parse6_loop (Suc room) gs ell s =
     (let h = takeWhile is_hex s; r = dropWhile is_hex s in
      if h = [] \<or> length h > 4 then None
      else if r \<noteq> [] \<and> hd r = CHR ''.'' then
        (if (ell = None \<and> length gs \<noteq> 6) \<or> length gs > 6 then None
         else (case parseIPv4 s of
                 None \<Rightarrow> None
               | Some w \<Rightarrow> Some (gs @ [unat (drop_bit 16 w), unat w mod 65536], ell, [])))
      else
        (let gs' = gs @ [hex_value h] in
         if r = [] then Some (gs', ell, [])
         else if hd r \<noteq> CHR '':'' then None
         else if length r = 1 then None
         else
           (let t = tl r in
            if hd t = CHR '':'' then
              (if ell \<noteq> None then None
               else if length t = 1 then Some (gs', Some (length gs'), [])
               else parse6_loop room gs' (Some (length gs')) (tl t))
            else parse6_loop room gs' ell t)))"

definition addr6_of_groups :: "nat list \<Rightarrow> 128 word" where
  "addr6_of_groups gs = word_of_nat (foldl (\<lambda>acc g. acc * 65536 + g) 0 gs)"

definition parseIPv6 :: "string \<Rightarrow> Addr option" where
  "parseIPv6 s0 =
     (let (s1, zone, hasZone) = Cut s0 (CHR ''%'') in
      if hasZone \<and> zone = [] then None
      else
        (let lead = HasPrefix s1 ''::''; s2 = TrimPrefix s1 ''::'' in
         if lead \<and> s2 = [] then Some (Addr6 0 zone)
         else
           (case parse6_loop 8 [] (if lead then Some 0 else None) s2 of
              None \<Rightarrow> None
            | Some (gs, ell, rest) \<Rightarrow>
                if rest \<noteq> [] then None
                else if length gs < 8 then
                  (case ell of
                     None \<Rightarrow> None
                   | Some e \<Rightarrow> Some (Addr6 (addr6_of_groups
                        (take e gs @ replicate (8 - length gs) 0 @ drop e gs)) zone))
                else if ell \<noteq> None then None
                else Some (Addr6 (addr6_of_groups gs) zone))))"

text \<open>\<^verbatim>\<open>netip.ParseAddr\<close>: the first of dot, colon and percent sign decides the family.\<close>

definition ParseAddr :: "string \<Rightarrow> Addr option" where
  "ParseAddr s =
     (case dropWhile (\<lambda>c. c \<notin> {CHR ''.'', CHR '':'', CHR ''%''}) s of
        [] \<Rightarrow> None
      | c # _ \<Rightarrow> if c = CHR ''.'' then map_option Addr4 (parseIPv4 s)
                 else if c = CHR '':'' then parseIPv6 s
                 else None)"

text \<open>A prefix: an address without zone and a number of leading bits.\<close>

datatype Prefix = Prefix Addr nat

definition ParsePrefix :: "string \<Rightarrow> Prefix option" where
  "ParsePrefix s =
     (if CHR ''/'' \<notin> set s then None
      else
        (let bitsStr = rev (takeWhile (\<lambda>c. c \<noteq> CHR ''/'') (rev s));
             ipStr = take (length s - length bitsStr - 1) s in
         case ParseAddr ipStr of
           None \<Rightarrow> None
         | Some ip \<Rightarrow>
             if (case ip of Addr6 _ z \<Rightarrow> z \<noteq> [] | _ \<Rightarrow> False) then None
             else if \<not> all_digits bitsStr then None
             else if length bitsStr > 1 \<and> hd bitsStr = CHR ''0'' then None
             else if dec_value 0 bitsStr > (case ip of Addr6 _ _ \<Rightarrow> 128 | _ \<Rightarrow> 32) then None
             else Some (Prefix ip (dec_value 0 bitsStr))))"

fun prefix_contains :: "Prefix \<Rightarrow> Addr \<Rightarrow> bool" where
  "prefix_contains (Prefix (Addr4 p) n) (Addr4 a) = (drop_bit (32 - n) (a XOR p) = 0)"
| "prefix_contains (Prefix (Addr6 p _) n) (Addr6 a z) = (z = [] \<and> drop_bit (128 - n) (a XOR p) = 0)"
| "prefix_contains _ _ = False"

section \<open>The textual form\<close>

definition octet :: "nat \<Rightarrow> 32 word \<Rightarrow> nat" where
  "octet i w = unat w div 256 ^ i mod 256"

definition string4 :: "32 word \<Rightarrow> string" where
  "string4 w = digits_of (octet 3 w) @ ''.'' @ digits_of (octet 2 w) @ ''.'' @
               digits_of (octet 1 w) @ ''.'' @ digits_of (octet 0 w)"

definition hex_char :: "nat \<Rightarrow> char" where
  "hex_char n = (if n < 10 then char_of (48 + n) else char_of (87 + n))"

fun hex_of :: "nat \<Rightarrow> string" where
  "hex_of n = (if n < 16 then [hex_char n] else hex_of (n div 16) @ [hex_char (n mod 16)])"

declare hex_of.simps [simp del]

definition groups6 :: "128 word \<Rightarrow> nat list" where
  "groups6 w = map (\<lambda>i. unat w div 65536 ^ i mod 65536) [7, 6, 5, 4, 3, 2, 1, 0]"

text \<open>The first longest run of at least two zero groups, as a start and a length.\<close>

definition zero_run :: "nat list \<Rightarrow> nat \<times> nat" where
  "zero_run gs =
     foldl (\<lambda>(st, ln) i.
        let l = length (takeWhile (\<lambda>g. g = 0) (drop i gs)) in
        if l \<ge> 2 \<and> l > ln then (i, l) else (st, ln)) (8, 0) [0, 1, 2, 3, 4, 5, 6, 7]"

fun join_colon :: "string list \<Rightarrow> string" where
  "join_colon [] = []"
| "join_colon [s] = s"
| "join_colon (s # ss) = s @ '':'' @ join_colon ss"

definition string6 :: "128 word \<Rightarrow> string" where
  "string6 w =
     (let gs = groups6 w; (st, ln) = zero_run gs in
      if ln = 0 then join_colon (map hex_of gs)
      else join_colon (map hex_of (take st gs)) @ ''::'' @ join_colon (map hex_of (drop (st + ln) gs)))"

definition addr_String :: "Addr \<Rightarrow> string" where
  "addr_String a = (case a of
       AddrZero \<Rightarrow> ''invalid IP''
     | Addr4 w \<Rightarrow> string4 w
     | Addr6 w z \<Rightarrow> (if Is4In6 a then ''::ffff:'' @ string4 (ucast w) else string6 w)
                    @ (if z = [] then [] else CHR ''%'' # z))"

section \<open>\<^verbatim>\<open>net.SplitHostPort\<close>\<close>

text \<open>
  The last colon separates host and port; a host in square brackets may hold colons.
  \<^const>\<open>None\<close> stands for every error (missing port, too many colons, stray brackets).
\<close>

definition SplitHostPort :: "string \<Rightarrow> (string \<times> string) option" where
  "SplitHostPort s =
     (if CHR '':'' \<notin> set s then None
      else
        (let port = rev (takeWhile (\<lambda>c. c \<noteq> CHR '':'') (rev s));
             i = length s - length port - 1 in
         if hd s = CHR ''['' then
           (case Index s '']'' of
              None \<Rightarrow> None
            | Some e \<Rightarrow>
                if e + 1 \<noteq> i then None
                else if CHR ''['' \<in> set (tl s) \<or> CHR '']'' \<in> set (drop (e + 1) s) then None
                else Some (take (e - 1) (tl s), port))
         else
           (let host = take i s in
            if CHR '':'' \<in> set host then None
            else if CHR ''['' \<in> set s \<or> CHR '']'' \<in> set s then None
            else Some (host, port))))"

section \<open>The IPv4 text round trip\<close>

lemma of_char_digit [simp]: "n < 10 \<Longrightarrow> (of_char (char_of (48 + n)) :: nat) = 48 + n"
  by simp

lemma digits_of_less: "n < 10 \<Longrightarrow> digits_of n = [char_of (48 + n)]"
  by (simp add: digits_of.simps [of n])

lemma digits_of_ge: "\<not> n < 10 \<Longrightarrow> digits_of n = digits_of (n div 10) @ [char_of (48 + n mod 10)]"
  by (simp add: digits_of.simps [of n])

lemma dec_value_append: "dec_value a (s @ t) = dec_value (dec_value a s) t"
  by (induction s arbitrary: a) auto

lemma all_digits_digits_of: "all_digits (digits_of n)"
proof (induction n rule: digits_of.induct)
  case (1 n)
  show ?case
  proof (cases "n < 10")
    case True
    then show ?thesis
      by (simp add: digits_of_less all_digits_def is_digit_def)
  next
    case False
    with 1 have "all_digits (digits_of (n div 10))" by simp
    moreover have "is_digit (char_of (48 + n mod 10))"
      using of_char_digit [of "n mod 10"] by (simp add: is_digit_def del: of_char_of)
    ultimately show ?thesis
      using False by (simp add: digits_of_ge all_digits_def)
  qed
qed

lemma dec_value_digits_of [simp]: "dec_value 0 (digits_of n) = n"
proof (induction n rule: digits_of.induct)
  case (1 n)
  show ?case
  proof (cases "n < 10")
    case True
    then show ?thesis by (simp add: digits_of_less)
  next
    case False
    with 1 have "dec_value 0 (digits_of (n div 10)) = n div 10" by simp
    moreover have "(of_char (char_of (48 + n mod 10)) :: nat) = 48 + n mod 10"
      by (rule of_char_digit) simp
    ultimately show ?thesis
      using False by (simp add: digits_of_ge dec_value_append del: of_char_of)
  qed
qed

lemma digits_of_not_Nil [simp]: "digits_of n \<noteq> []"
  using all_digits_digits_of [of n] by (simp add: all_digits_def)

lemma hd_digits_of: "length (digits_of n) > 1 \<Longrightarrow> hd (digits_of n) \<noteq> CHR ''0''"
proof (induction n rule: digits_of.induct)
  case (1 n)
  then have big: "\<not> n < 10" by (auto simp: digits_of_less)
  have hd_eq: "hd (digits_of n) = hd (digits_of (n div 10))"
    by (simp add: digits_of_ge [OF big])
  show ?case
  proof (cases "n div 10 < 10")
    case True
    have "n div 10 \<noteq> 0" using big by simp
    moreover have "(of_char (hd (digits_of n)) :: nat) = 48 + n div 10"
      using True by (simp add: hd_eq digits_of_less)
    moreover have "(of_char (CHR ''0'') :: nat) = 48" by simp
    ultimately show ?thesis by (metis add_cancel_right_right)
  next
    case False
    then have "length (digits_of (n div 10)) > 1" by (simp add: digits_of_ge)
    with 1 big hd_eq show ?thesis by simp
  qed
qed

lemma parse_octet_digits_of: "n < 256 \<Longrightarrow> parse_octet (digits_of n) = Some n"
  using hd_digits_of [of n] by (simp add: parse_octet_def all_digits_digits_of)

lemma digits_of_no_sep:
  assumes "\<not> is_digit c" shows "c \<notin> set (digits_of n)"
  using all_digits_digits_of [of n] assms by (auto simp: all_digits_def list_all_iff)

lemma Split_append_sep: "c \<notin> set x \<Longrightarrow> Split (x @ c # y) c = x # Split y c"
  by (induction x) auto

lemma Split_no_sep_id: "c \<notin> set x \<Longrightarrow> Split x c = [x]"
  by (induction x) auto

lemma octet_less [simp]: "octet i w < 256"
  by (simp add: octet_def)

lemma octets_value:
  fixes n :: nat
  assumes "n < 4294967296"
  shows "((n div 16777216 mod 256 * 256 + n div 65536 mod 256) * 256 + n div 256 mod 256) * 256
           + n mod 256 = n"
proof -
  have "n div 16777216 mod 256 = n div 65536 div 256"
    using assms by (simp add: div_mult2_eq [symmetric] less_mult_imp_div_less)
  then have "n div 16777216 mod 256 * 256 + n div 65536 mod 256 = n div 65536"
    by (simp only: div_mult_mod_eq)
  moreover have "n div 65536 * 256 + n div 256 mod 256 = n div 256"
    using div_mult_mod_eq [of "n div 256" 256] by (simp add: div_mult2_eq [symmetric])
  ultimately show ?thesis by simp
qed

lemma addr4_of_octets_octet: "addr4_of_octets (octet 3 w) (octet 2 w) (octet 1 w) (octet 0 w) = w"
proof -
  have "unat w < 4294967296" using unsigned_less [of w] by simp
  from octets_value [OF this]
  have "((octet 3 w * 256 + octet 2 w) * 256 + octet 1 w) * 256 + octet 0 w = unat w"
    unfolding octet_def by (simp del: mod_less)
  then show ?thesis
    by (simp add: addr4_of_octets_def del: of_nat_add of_nat_mult)
qed

lemma parseIPv4_string4 [simp]: "parseIPv4 (string4 w) = Some w"
proof -
  have nd: "CHR ''.'' \<notin> set (digits_of n)" for n
    by (rule digits_of_no_sep) (simp add: is_digit_def)
  have "Split (string4 w) (CHR ''.'') =
      [digits_of (octet 3 w), digits_of (octet 2 w), digits_of (octet 1 w), digits_of (octet 0 w)]"
    by (simp add: string4_def Split_append_sep Split_no_sep_id nd)
  then show ?thesis
    by (simp add: parseIPv4_def parse_octet_digits_of
      addr4_of_octets_octet [simplified])
qed

lemma ParseAddr_string4: "ParseAddr (string4 w) = Some (Addr4 w)"
proof -
  let ?P = "\<lambda>c. c \<notin> {CHR ''.'', CHR '':'', CHR ''%''}"
  have "list_all ?P (digits_of (octet 3 w))"
    using digits_of_no_sep [of _ "octet 3 w"] by (auto simp: list_all_iff is_digit_def)
  then have "dropWhile ?P (string4 w) =
      ''.'' @ digits_of (octet 2 w) @ ''.'' @ digits_of (octet 1 w) @ ''.'' @ digits_of (octet 0 w)"
    unfolding string4_def by (subst dropWhile_append2) (auto simp: list_all_iff)
  then show ?thesis
    by (simp add: ParseAddr_def)
qed

end
