(* ===== verification/Routing_Rules.thy ===== *)
theory Routing_Rules
  imports Netip
begin

text \<open>
  The routing rule sets of \<^verbatim>\<open>common/model/routing_config.go\<close>: the records, their validation and
  the empty configuration. \<^verbatim>\<open>RuleType\<close> and \<^verbatim>\<open>SetType\<close> are Go string types, so any string can
  occur in them and the models keep them as strings. The JSON conversions are Go's and are not
  modelled.
\<close>

section \<open>Rules\<close>

abbreviation RuleTypeDomain :: string where "RuleTypeDomain \<equiv> ''domain''"
abbreviation RuleTypeIP :: string where "RuleTypeIP \<equiv> ''ip''"
abbreviation RuleTypeGeoIP :: string where "RuleTypeGeoIP \<equiv> ''geoip''"

record RoutingRule =
  rr_ID :: string
  rr_Type :: string
  rr_Condition :: string
  rr_Enabled :: bool
  rr_CreatedAt :: time
  rr_UpdatedAt :: time
  rr_Description :: string

datatype rule_error =
    IdRequired | IdTooLong | InvalidRuleType | InvalidDomain | InvalidCIDR | InvalidCountry
  | DescriptionTooLong | InvalidSetType | TooManyRules | BadRule nat rule_error
  | InSet string rule_error | VersionTooSmall | UpdatedBeforeCreated

definition is_alnum :: "char \<Rightarrow> bool" where
  "is_alnum c \<longleftrightarrow> (let n = (of_char c :: nat) in
     (48 \<le> n \<and> n \<le> 57) \<or> (65 \<le> n \<and> n \<le> 90) \<or> (97 \<le> n \<and> n \<le> 122))"

text \<open>
  The regular expression of \<^verbatim>\<open>isValidDomain\<close>: labels separated by dots, each label beginning
  and ending with a letter or digit and holding letters, digits and hyphens.
\<close>

definition valid_label :: "string \<Rightarrow> bool" where
  "valid_label l \<longleftrightarrow> l \<noteq> [] \<and> is_alnum (hd l) \<and> is_alnum (last l)
     \<and> list_all (\<lambda>c. is_alnum c \<or> c = CHR ''-'') l"

definition isValidDomain :: "string \<Rightarrow> bool" where
  "isValidDomain domain0 =
     (let domain = (if HasPrefix domain0 ''*.'' then drop 2 domain0 else domain0)
      in list_all valid_label (Split domain (CHR ''.'')))"

text \<open>
  \<^verbatim>\<open>net.ParseCIDR\<close>: an address without zone, a slash and a decimal prefix length. Unlike
  \<^verbatim>\<open>netip.ParsePrefix\<close> it accepts leading zeros in the length.
\<close>

definition isValidCIDR :: "string \<Rightarrow> bool" where
  "isValidCIDR cidr =
     (let (addr, mask, found) = Cut cidr (CHR ''/'') in
      found \<and>
      (case ParseAddr addr of
         None \<Rightarrow> False
       | Some ip \<Rightarrow>
           (case ip of Addr6 _ z \<Rightarrow> z = [] | _ \<Rightarrow> True) \<and>
           all_digits mask \<and>
           dec_value 0 mask \<le> (case ip of Addr6 _ _ \<Rightarrow> 128 | _ \<Rightarrow> 32)))"

definition isValidCountryCode :: "string \<Rightarrow> bool" where
  "isValidCountryCode code \<longleftrightarrow> length code = 2 \<and>
     list_all (\<lambda>c. 65 \<le> (of_char c :: nat) \<and> (of_char c :: nat) \<le> 90) code"

definition RoutingRule_Validate :: "RoutingRule \<Rightarrow> rule_error option" where
  "RoutingRule_Validate r =
     (if rr_ID r = [] then Some IdRequired
      else if length (rr_ID r) > 128 then Some IdTooLong
      else if rr_Type r \<noteq> RuleTypeDomain \<and> rr_Type r \<noteq> RuleTypeIP \<and> rr_Type r \<noteq> RuleTypeGeoIP
        then Some InvalidRuleType
      else if rr_Type r = RuleTypeDomain \<and> \<not> isValidDomain (rr_Condition r) then Some InvalidDomain
      else if rr_Type r = RuleTypeIP \<and> \<not> isValidCIDR (rr_Condition r) then Some InvalidCIDR
      else if rr_Type r = RuleTypeGeoIP \<and> \<not> isValidCountryCode (rr_Condition r) then Some InvalidCountry
      else if length (rr_Description r) > 512 then Some DescriptionTooLong
      else None)"

section \<open>Rule sets and the whole configuration\<close>

abbreviation SetTypeToSocks :: string where "SetTypeToSocks \<equiv> ''to_socks''"
abbreviation SetTypeDirect :: string where "SetTypeDirect \<equiv> ''direct''"
abbreviation SetTypeAliang :: string where "SetTypeAliang \<equiv> ''aliang''"

record RoutingRuleSet =
  rs_SetType :: string
  rs_Rules :: "RoutingRule list"
  rs_Count :: int
  rs_UpdatedAt :: time

fun validate_rules :: "nat \<Rightarrow> RoutingRule list \<Rightarrow> rule_error option" where
  "validate_rules i [] = None"
| "validate_rules i (r # rs) =
     (case RoutingRule_Validate r of Some e \<Rightarrow> Some (BadRule i e) | None \<Rightarrow> validate_rules (Suc i) rs)"

text \<open>\<^verbatim>\<open>Validate\<close> has a pointer receiver: on success it overwrites \<^verbatim>\<open>Count\<close>.\<close>

definition RoutingRuleSet_Validate :: "RoutingRuleSet \<Rightarrow> rule_error + RoutingRuleSet" where
  "RoutingRuleSet_Validate rs =
     (if rs_SetType rs \<noteq> SetTypeToSocks \<and> rs_SetType rs \<noteq> SetTypeDirect \<and> rs_SetType rs \<noteq> SetTypeAliang
        then Inl InvalidSetType
      else if length (rs_Rules rs) > 10000 then Inl TooManyRules
      else (case validate_rules 0 (rs_Rules rs) of
              Some e \<Rightarrow> Inl e
            | None \<Rightarrow> Inr (rs\<lparr>rs_Count := int (length (rs_Rules rs))\<rparr>)))"

record RulesSettings =
  AliangEnabled :: bool
  SocksEnabled :: bool
  GeoIPEnabled :: bool
  AutoUpdate :: bool
  rset_UpdatedAt :: time
  LastNacosSync :: time

record RoutingRulesConfig =
  rc_ToSocks :: RoutingRuleSet
  rc_Direct :: RoutingRuleSet
  rc_Aliang :: RoutingRuleSet
  rc_Settings :: RulesSettings
  rc_Version :: int
  rc_CreatedAt :: time
  rc_UpdatedAt :: time

definition RoutingRulesConfig_Validate :: "RoutingRulesConfig \<Rightarrow> rule_error + RoutingRulesConfig" where
  "RoutingRulesConfig_Validate rc =
     (case RoutingRuleSet_Validate (rc_ToSocks rc) of
        Inl e \<Rightarrow> Inl (InSet ''to_socks'' e)
      | Inr ts \<Rightarrow>
     (case RoutingRuleSet_Validate (rc_Direct rc) of
        Inl e \<Rightarrow> Inl (InSet ''direct'' e)
      | Inr di \<Rightarrow>
     (case RoutingRuleSet_Validate (rc_Aliang rc) of
        Inl e \<Rightarrow> Inl (InSet ''aliang'' e)
      | Inr al \<Rightarrow>
          if rc_Version rc < 1 then Inl VersionTooSmall
          else if rc_UpdatedAt rc < rc_CreatedAt rc then Inl UpdatedBeforeCreated
          else Inr (rc\<lparr>rc_ToSocks := ts, rc_Direct := di, rc_Aliang := al\<rparr>))))"

definition NewRoutingRulesConfig :: "time \<Rightarrow> RoutingRulesConfig" where
  "NewRoutingRulesConfig now =
     \<lparr>rc_ToSocks = \<lparr>rs_SetType = SetTypeToSocks, rs_Rules = [], rs_Count = 0, rs_UpdatedAt = now\<rparr>,
      rc_Direct = \<lparr>rs_SetType = SetTypeDirect, rs_Rules = [], rs_Count = 0, rs_UpdatedAt = now\<rparr>,
      rc_Aliang = \<lparr>rs_SetType = SetTypeAliang, rs_Rules = [], rs_Count = 0, rs_UpdatedAt = now\<rparr>,
      rc_Settings = \<lparr>AliangEnabled = True, SocksEnabled = True, GeoIPEnabled = False,
         AutoUpdate = True, rset_UpdatedAt = now, LastNacosSync = 0\<rparr>,
      rc_Version = 1, rc_CreatedAt = now, rc_UpdatedAt = now\<rparr>"

section \<open>Properties\<close>

definition rule_ok :: "RoutingRule \<Rightarrow> bool" where
  "rule_ok r \<longleftrightarrow> RoutingRule_Validate r = None"

definition set_ok :: "RoutingRuleSet \<Rightarrow> bool" where
  "set_ok rs \<longleftrightarrow> rs_SetType rs \<in> {SetTypeToSocks, SetTypeDirect, SetTypeAliang}
     \<and> length (rs_Rules rs) \<le> 10000 \<and> list_all rule_ok (rs_Rules rs)"

lemma validate_rules_None: "validate_rules i rs = None \<longleftrightarrow> list_all rule_ok rs"
  by (induction rs arbitrary: i) (auto simp: rule_ok_def split: option.splits)

lemma validate_rules_Some:
  "validate_rules i rs = Some e \<Longrightarrow>
     \<exists>j e'. e = BadRule (i + j) e' \<and> j < length rs \<and> RoutingRule_Validate (rs ! j) = Some e'
          \<and> list_all rule_ok (take j rs)"
proof (induction rs arbitrary: i)
  case (Cons r rs)
  show ?case
  proof (cases "RoutingRule_Validate r")
    case None
    with Cons.prems have "validate_rules (Suc i) rs = Some e" by simp
    from Cons.IH [OF this] obtain j e' where
      "e = BadRule (Suc i + j) e'" "j < length rs" "RoutingRule_Validate (rs ! j) = Some e'"
      "list_all rule_ok (take j rs)" by blast
    with None show ?thesis by (intro exI [of _ "Suc j"] exI [of _ e']) (auto simp: rule_ok_def [of r])
  next
    case (Some e')
    with Cons.prems show ?thesis by (intro exI [of _ 0] exI [of _ e']) simp
  qed
qed simp

lemma RoutingRuleSet_Validate_Inr:
  "RoutingRuleSet_Validate rs = Inr rs' \<longleftrightarrow>
     set_ok rs \<and> rs' = rs\<lparr>rs_Count := int (length (rs_Rules rs))\<rparr>"
  by (auto simp: RoutingRuleSet_Validate_def set_ok_def
      validate_rules_None [of 0, symmetric] split: option.splits)

text \<open>
  A rule set is accepted exactly when its type is known, it holds at most 10000 rules and
  each of them is valid; a rejected rule set of known type and size names the first invalid
  rule; an accepted one has its stored count made equal to the number of rules.
\<close>

theorem rule_set_validation:
  "((\<exists>rs'. RoutingRuleSet_Validate rs = Inr rs') \<longleftrightarrow> set_ok rs)
   \<and> (\<forall>rs'. RoutingRuleSet_Validate rs = Inr rs' \<longrightarrow>
          rs_Count rs' = int (length (rs_Rules rs)) \<and> rs_Rules rs' = rs_Rules rs
        \<and> RoutingRuleSet_Validate rs' = Inr rs')
   \<and> (\<forall>i e. RoutingRuleSet_Validate rs = Inl (BadRule i e) \<longrightarrow>
          i < length (rs_Rules rs) \<and> RoutingRule_Validate (rs_Rules rs ! i) = Some e
        \<and> list_all rule_ok (take i (rs_Rules rs)))"
proof (intro conjI allI impI)
  fix i e assume "RoutingRuleSet_Validate rs = Inl (BadRule i e)"
  then have "validate_rules 0 (rs_Rules rs) = Some (BadRule i e)"
    by (auto simp: RoutingRuleSet_Validate_def split: if_splits option.splits)
  from validate_rules_Some [OF this]
  show "i < length (rs_Rules rs)" "RoutingRule_Validate (rs_Rules rs ! i) = Some e"
    "list_all rule_ok (take i (rs_Rules rs))" by auto
qed (auto simp: RoutingRuleSet_Validate_Inr set_ok_def)

theorem rule_set_validation_witness:
  "RoutingRuleSet_Validate \<lparr>rs_SetType = ''direct'',
      rs_Rules = [\<lparr>rr_ID = ''a'', rr_Type = ''domain'', rr_Condition = ''*.example.com'', rr_Enabled = True,
                   rr_CreatedAt = 1, rr_UpdatedAt = 1, rr_Description = []\<rparr>],
      rs_Count = 7, rs_UpdatedAt = 1\<rparr> =
   Inr \<lparr>rs_SetType = ''direct'',
      rs_Rules = [\<lparr>rr_ID = ''a'', rr_Type = ''domain'', rr_Condition = ''*.example.com'', rr_Enabled = True,
                   rr_CreatedAt = 1, rr_UpdatedAt = 1, rr_Description = []\<rparr>],
      rs_Count = 1, rs_UpdatedAt = 1\<rparr>"
  (is "RoutingRuleSet_Validate ?rs = Inr ?rs'")
proof -
  have "set_ok ?rs" by code_simp
  with rule_set_validation [of ?rs] obtain rs' where "RoutingRuleSet_Validate ?rs = Inr rs'" by blast
  then show ?thesis by (simp add: RoutingRuleSet_Validate_Inr)
qed

end
