(* ===== verification/Routing_Schema.thy ===== *)
theory Routing_Schema
  imports Routing_Rules
begin

text \<open>
  The canonical routing schema of \<^verbatim>\<open>processor/config/routing_schema.go\<close>: its records, its
  validation and the normalisation of a decoded payload. The strict JSON decoder of Go is not
  modelled: \<^verbatim>\<open>normalizeCanonicalPayload\<close> takes what it decoded, or its failure, as an argument.
\<close>

section \<open>The schema\<close>

definition CanonicalRoutingSchemaVersion :: int where
  "CanonicalRoutingSchemaVersion = 1"

record CanonicalRoutingRule =
  cr_ID :: string
  cr_Type :: string
  cr_Condition :: string
  cr_Enabled :: bool
  cr_Target :: string

record CanonicalEgressConfig =
  eg_Direct_Enabled :: bool
  eg_ToAliang_Enabled :: bool
  eg_ToSocks_Enabled :: bool
  eg_ToSocks_Upstream_Type :: string

record CanonicalRoutingSchema =
  cs_Version :: int
  cs_Ingress_Mode :: string
  cs_Egress :: CanonicalEgressConfig
  cs_Rules :: "CanonicalRoutingRule list"
  cs_DefaultEgress :: string

text \<open>\<^verbatim>\<open>RoutingSchemaValidationError\<close>: the code and the field; rule fields carry the index.\<close>

datatype schema_field =
    IngressMode | DirectEnabled | UpstreamType | RuleTarget nat | DefaultEgressField

datatype schema_error =
    invalid_enum schema_field
  | branch_required_enabled schema_field
  | disabled_target_branch schema_field
  | unknown_target schema_field string
  | unresolvable_default_egress schema_field
  | decode_failed
  | unsupported_version int
  | non_canonical_payload
  | nil_schema

section \<open>Validation\<close>

text \<open>The \<^verbatim>\<open>switch\<close> on one target; \<open>dis\<close> builds the error for a disabled branch.\<close>

definition check_target ::
  "CanonicalEgressConfig \<Rightarrow> schema_field \<Rightarrow> schema_error \<Rightarrow> string \<Rightarrow> schema_error option" where
  "check_target eg fld dis target =
     (if target = ''direct'' then (if \<not> eg_Direct_Enabled eg then Some dis else None)
      else if target = ''toAliang'' then (if \<not> eg_ToAliang_Enabled eg then Some dis else None)
      else if target = ''toSocks'' then (if \<not> eg_ToSocks_Enabled eg then Some dis else None)
      else Some (unknown_target fld target))"

fun check_rules :: "CanonicalEgressConfig \<Rightarrow> nat \<Rightarrow> CanonicalRoutingRule list \<Rightarrow> schema_error option" where
  "check_rules eg i [] = None"
| "check_rules eg i (r # rs) =
     (case check_target eg (RuleTarget i) (disabled_target_branch (RuleTarget i)) (cr_Target r) of
        Some e \<Rightarrow> Some e
      | None \<Rightarrow> check_rules eg (Suc i) rs)"

definition Schema_Validate :: "CanonicalRoutingSchema \<Rightarrow> schema_error option" where
  "Schema_Validate cfg =
     (let eg = cs_Egress cfg; up = eg_ToSocks_Upstream_Type eg in
      if cs_Ingress_Mode cfg \<noteq> ''tun'' \<and> cs_Ingress_Mode cfg \<noteq> ''http'' then Some (invalid_enum IngressMode)
      else if \<not> eg_Direct_Enabled eg then Some (branch_required_enabled DirectEnabled)
      else if eg_ToSocks_Enabled eg \<and> up \<noteq> ''socks'' \<and> up \<noteq> ''http'' then Some (invalid_enum UpstreamType)
      else if \<not> eg_ToSocks_Enabled eg \<and> up \<noteq> [] \<and> up \<noteq> ''socks'' \<and> up \<noteq> ''http''
        then Some (invalid_enum UpstreamType)
      else (case check_rules eg 0 (cs_Rules cfg) of
              Some e \<Rightarrow> Some e
            | None \<Rightarrow>
                if cs_DefaultEgress cfg \<noteq> [] then
                  check_target eg DefaultEgressField (unresolvable_default_egress DefaultEgressField)
                    (cs_DefaultEgress cfg)
                else None))"

section \<open>Normalisation of a payload\<close>

definition normalizeRuleTarget :: "string \<Rightarrow> string option" where
  "normalizeRuleTarget target =
     (if target = ''direct'' \<or> target = ''toAliang'' \<or> target = ''toSocks'' then Some target else None)"

fun normalize_targets :: "nat \<Rightarrow> CanonicalRoutingRule list \<Rightarrow> schema_error + CanonicalRoutingRule list" where
  "normalize_targets i [] = Inr []"
| "normalize_targets i (r # rs) =
     (case normalizeRuleTarget (cr_Target r) of
        None \<Rightarrow> Inl (unknown_target (RuleTarget i) (cr_Target r))
      | Some t \<Rightarrow> (case normalize_targets (Suc i) rs of
                     Inl e \<Rightarrow> Inl e
                   | Inr rs' \<Rightarrow> Inr (r\<lparr>cr_Target := t\<rparr> # rs')))"

definition normalizeCanonicalPayload ::
  "CanonicalRoutingSchema option \<Rightarrow> schema_error + CanonicalRoutingSchema" where
  "normalizeCanonicalPayload decoded =
     (case decoded of
        None \<Rightarrow> Inl decode_failed
      | Some cfg0 \<Rightarrow>
          let cfg1 = (if cs_Version cfg0 = 0 then cfg0\<lparr>cs_Version := CanonicalRoutingSchemaVersion\<rparr> else cfg0) in
          if cs_Version cfg1 \<noteq> CanonicalRoutingSchemaVersion then Inl (unsupported_version (cs_Version cfg1))
          else
            let cfg2 = (if cs_Ingress_Mode cfg1 = [] then cfg1\<lparr>cs_Ingress_Mode := ''tun''\<rparr> else cfg1) in
            (case normalize_targets 0 (cs_Rules cfg2) of
               Inl e \<Rightarrow> Inl e
             | Inr rs \<Rightarrow>
                 let cfg3 = cfg2\<lparr>cs_Rules := rs\<rparr> in
                 (case (if cs_DefaultEgress cfg3 = [] then Some (cs_DefaultEgress cfg3)
                        else normalizeRuleTarget (cs_DefaultEgress cfg3)) of
                    None \<Rightarrow> Inl (unknown_target DefaultEgressField (cs_DefaultEgress cfg3))
                  | Some d \<Rightarrow>
                      let cfg4 = cfg3\<lparr>cs_DefaultEgress := d\<rparr> in
                      (case Schema_Validate cfg4 of
                         Some e \<Rightarrow> Inl e
                       | None \<Rightarrow> Inr cfg4))))"

section \<open>What a valid schema promises\<close>

definition branch_enabled :: "CanonicalEgressConfig \<Rightarrow> string \<Rightarrow> bool" where
  "branch_enabled eg t \<longleftrightarrow>
     (t = ''direct'' \<and> eg_Direct_Enabled eg) \<or> (t = ''toAliang'' \<and> eg_ToAliang_Enabled eg)
     \<or> (t = ''toSocks'' \<and> eg_ToSocks_Enabled eg)"

definition schema_ok :: "CanonicalRoutingSchema \<Rightarrow> bool" where
  "schema_ok cfg \<longleftrightarrow>
     cs_Ingress_Mode cfg \<in> {''tun'', ''http''} \<and> eg_Direct_Enabled (cs_Egress cfg)
     \<and> (eg_ToSocks_Upstream_Type (cs_Egress cfg) \<in> {''socks'', ''http''}
        \<or> (\<not> eg_ToSocks_Enabled (cs_Egress cfg) \<and> eg_ToSocks_Upstream_Type (cs_Egress cfg) = []))
     \<and> list_all (\<lambda>r. branch_enabled (cs_Egress cfg) (cr_Target r)) (cs_Rules cfg)
     \<and> (cs_DefaultEgress cfg = [] \<or> branch_enabled (cs_Egress cfg) (cs_DefaultEgress cfg))"

lemma check_target_None: "check_target eg fld dis t = None \<longleftrightarrow> branch_enabled eg t"
  by (auto simp: check_target_def branch_enabled_def)

lemma check_rules_None:
  "check_rules eg i rs = None \<longleftrightarrow> list_all (\<lambda>r. branch_enabled eg (cr_Target r)) rs"
proof (induction rs arbitrary: i)
  case (Cons r rs)
  let ?c = "check_target eg (RuleTarget i) (disabled_target_branch (RuleTarget i)) (cr_Target r)"
  show ?case
    using Cons check_target_None [of eg "RuleTarget i" "disabled_target_branch (RuleTarget i)" "cr_Target r"]
    by (cases ?c) auto
qed simp

lemma Schema_Validate_None: "Schema_Validate cfg = None \<longleftrightarrow> schema_ok cfg"
proof (cases "check_rules (cs_Egress cfg) 0 (cs_Rules cfg)")
  case None
  then have rules: "list_all (\<lambda>r. branch_enabled (cs_Egress cfg) (cr_Target r)) (cs_Rules cfg)"
    by (simp add: check_rules_None)
  from None show ?thesis
    unfolding Schema_Validate_def schema_ok_def Let_def
    by (auto simp: rules check_target_None)
next
  case (Some e)
  then have "\<not> list_all (\<lambda>r. branch_enabled (cs_Egress cfg) (cr_Target r)) (cs_Rules cfg)"
    using check_rules_None [of "cs_Egress cfg" 0 "cs_Rules cfg"] by simp
  with Some show ?thesis
    by (simp add: Schema_Validate_def schema_ok_def Let_def)
qed

lemma normalizeRuleTarget_id: "normalizeRuleTarget t = Some u \<Longrightarrow> u = t"
  by (auto simp: normalizeRuleTarget_def split: if_splits)

lemma normalize_targets_id: "normalize_targets i rs = Inr rs' \<Longrightarrow> rs' = rs"
  by (induction rs arbitrary: i rs')
     (auto split: option.splits sum.splits dest: normalizeRuleTarget_id)

lemma normalize_targets_ok:
  "list_all (\<lambda>r. branch_enabled eg (cr_Target r)) rs \<Longrightarrow> normalize_targets i rs = Inr rs"
proof (induction rs arbitrary: i)
  case (Cons r rs)
  then have "normalizeRuleTarget (cr_Target r) = Some (cr_Target r)"
    by (auto simp: branch_enabled_def normalizeRuleTarget_def)
  with Cons show ?case by simp
qed simp

text \<open>The defaults that normalisation fills in.\<close>

definition with_defaults :: "CanonicalRoutingSchema \<Rightarrow> CanonicalRoutingSchema" where
  "with_defaults cfg = cfg\<lparr>
     cs_Version := (if cs_Version cfg = 0 then CanonicalRoutingSchemaVersion else cs_Version cfg),
     cs_Ingress_Mode := (if cs_Ingress_Mode cfg = [] then ''tun'' else cs_Ingress_Mode cfg)\<rparr>"

lemma normalize_Inr:
  "normalizeCanonicalPayload (Some cfg) = Inr cfg' \<longleftrightarrow>
     cs_Version cfg \<in> {0, CanonicalRoutingSchemaVersion}
     \<and> cfg' = with_defaults cfg \<and> schema_ok cfg'" (is "?L \<longleftrightarrow> ?R")
proof
  assume ?L
  then show ?R
    by (auto simp: normalizeCanonicalPayload_def with_defaults_def Let_def Schema_Validate_None
        CanonicalRoutingSchemaVersion_def
        split: if_splits sum.splits option.splits
        dest!: normalize_targets_id normalizeRuleTarget_id)
next
  assume R: ?R
  then have rules: "normalize_targets 0 (cs_Rules cfg) = Inr (cs_Rules cfg)"
    by (intro normalize_targets_ok [of "cs_Egress cfg"]) (auto simp: schema_ok_def with_defaults_def)
  have "cs_DefaultEgress cfg = [] \<or> normalizeRuleTarget (cs_DefaultEgress cfg) = Some (cs_DefaultEgress cfg)"
    using R by (auto simp: schema_ok_def with_defaults_def branch_enabled_def normalizeRuleTarget_def)
  with R rules show ?L
    by (cases cfg) (auto simp: normalizeCanonicalPayload_def with_defaults_def Let_def
        CanonicalRoutingSchemaVersion_def Schema_Validate_None [symmetric])
qed

section \<open>Properties\<close>

text \<open>
  The validation accepts exactly the schemas in which the ingress mode is known, the
  direct branch is on, the SOCKS upstream type fits the SOCKS switch, and every rule target
  and the default egress name an enabled branch.
\<close>

theorem schema_validation_correct:
  "Schema_Validate cfg = None \<longleftrightarrow>
     cs_Ingress_Mode cfg \<in> {''tun'', ''http''} \<and> eg_Direct_Enabled (cs_Egress cfg)
     \<and> (eg_ToSocks_Upstream_Type (cs_Egress cfg) \<in> {''socks'', ''http''}
        \<or> (\<not> eg_ToSocks_Enabled (cs_Egress cfg) \<and> eg_ToSocks_Upstream_Type (cs_Egress cfg) = []))
     \<and> list_all (\<lambda>r. branch_enabled (cs_Egress cfg) (cr_Target r)) (cs_Rules cfg)
     \<and> (cs_DefaultEgress cfg = [] \<or> branch_enabled (cs_Egress cfg) (cs_DefaultEgress cfg))"
  by (simp add: Schema_Validate_None schema_ok_def)

theorem schema_validation_correct_witness:
  "Schema_Validate \<lparr>cs_Version = 1, cs_Ingress_Mode = ''tun'',
      cs_Egress = \<lparr>eg_Direct_Enabled = True, eg_ToAliang_Enabled = False,
                   eg_ToSocks_Enabled = False, eg_ToSocks_Upstream_Type = []\<rparr>,
      cs_Rules = [], cs_DefaultEgress = ''direct''\<rparr> = None"
  by (subst schema_validation_correct) (simp add: branch_enabled_def)

text \<open>
  A payload is normalised to itself with the two defaults (version 1, TUN ingress) filled
  in, it is accepted exactly when its version is 0 or 1 and the completed schema is valid, and
  normalising an accepted schema again changes nothing.
\<close>

theorem normalize_payload_correct:
  "(normalizeCanonicalPayload (Some cfg) = Inr cfg' \<longleftrightarrow>
      cs_Version cfg \<in> {0, CanonicalRoutingSchemaVersion} \<and> cfg' = with_defaults cfg
      \<and> Schema_Validate cfg' = None)
   \<and> (normalizeCanonicalPayload (Some cfg) = Inr cfg' \<longrightarrow>
        normalizeCanonicalPayload (Some cfg') = Inr cfg')"
proof -
  have "with_defaults (with_defaults cfg) = with_defaults cfg"
    by (simp add: with_defaults_def CanonicalRoutingSchemaVersion_def)
  moreover have "cs_Version (with_defaults cfg) = CanonicalRoutingSchemaVersion"
    if "cs_Version cfg \<in> {0, CanonicalRoutingSchemaVersion}"
    using that by (auto simp: with_defaults_def CanonicalRoutingSchemaVersion_def)
  ultimately show ?thesis
    by (auto simp: normalize_Inr Schema_Validate_None)
qed

theorem normalize_payload_correct_witness:
  "normalizeCanonicalPayload (Some \<lparr>cs_Version = 0, cs_Ingress_Mode = [],
      cs_Egress = \<lparr>eg_Direct_Enabled = True, eg_ToAliang_Enabled = True,
                   eg_ToSocks_Enabled = False, eg_ToSocks_Upstream_Type = []\<rparr>,
      cs_Rules = [\<lparr>cr_ID = ''r'', cr_Type = ''domain'', cr_Condition = ''a.b'', cr_Enabled = True,
                   cr_Target = ''toAliang''\<rparr>], cs_DefaultEgress = []\<rparr>) =
   Inr \<lparr>cs_Version = 1, cs_Ingress_Mode = ''tun'',
      cs_Egress = \<lparr>eg_Direct_Enabled = True, eg_ToAliang_Enabled = True,
                   eg_ToSocks_Enabled = False, eg_ToSocks_Upstream_Type = []\<rparr>,
      cs_Rules = [\<lparr>cr_ID = ''r'', cr_Type = ''domain'', cr_Condition = ''a.b'', cr_Enabled = True,
                   cr_Target = ''toAliang''\<rparr>], cs_DefaultEgress = []\<rparr>"
  (is "normalizeCanonicalPayload (Some ?c) = Inr ?d")
proof -
  have "Schema_Validate ?d = None" "with_defaults ?c = ?d" by code_simp+
  then show ?thesis
    using normalize_payload_correct [of ?c ?d] by simp
qed

end
