(* ===== verification/Config_Types.thy ===== *)
theory Config_Types
  imports Netip "HOL-Library.Multiset" "HOL-Library.List_Lexorder" "HOL-Library.Char_ord"
begin

text \<open>
  The configuration of \<^verbatim>\<open>processor/config/types.go\<close>: the customer and core sections, the
  validation of what a customer may edit, and the effective values the routing core reads.
  A Go map is an association list in the order a \<^verbatim>\<open>range\<close> loop happens to visit it, its keys
  distinct; functions that sort the keys first are shown not to depend on that order.
  \<^verbatim>\<open>time.ParseDuration\<close> is the argument \<open>parse_duration\<close> of the definitions that use it.
\<close>

section \<open>Proxy protocol configurations\<close>

datatype config_error =
    ServerHostRequired | ServerPortRequired | CredentialsTogether
  | PluginOptsRequired | PluginHostRequired | PluginPasswordRequired | PluginPasswordShort
  | PluginVersionBad | MethodRequired | PasswordRequired | UnsupportedPlugin string
  | ProxyTypeRequired | UnsupportedProxyType string
  | ConcurrentLimitPositive | ConcurrentLimitTooBig | TimeoutRange
  | ProxyTypeInvalid string | ProviderKeyEmpty | ProviderNil string | EnbleRequired string
  | IncludeEmpty string nat | ProxyRuleEmpty nat
  | CustomerKeyForbidden string | AIRuleKeyForbidden string string
  | CustomerNotObject | AIRulesNotObject | ProviderNotObject string
  | NotHostPort | HostRequired | PortRequired | PortInvalid | PortRange
  | APIServerRequired | CustomerProxyServer config_error

record Socks5Config =
  s5_Server :: string
  s5_ServerPort :: uint16
  s5_Username :: string
  s5_Password :: string

definition Socks5Config_Validate :: "Socks5Config \<Rightarrow> config_error option" where
  "Socks5Config_Validate c =
     (if s5_Server c = [] then Some ServerHostRequired
      else if s5_ServerPort c = 0 then Some ServerPortRequired
      else if (s5_Username c = []) \<noteq> (s5_Password c = []) then Some CredentialsTogether
      else None)"

record ShadowTLSPluginOpts =
  st_Host :: string
  st_Password :: string
  st_Version :: int

definition ShadowTLSPluginOpts_Validate :: "ShadowTLSPluginOpts option \<Rightarrow> config_error option" where
  "ShadowTLSPluginOpts_Validate oo =
     (case oo of None \<Rightarrow> Some PluginOptsRequired
      | Some p \<Rightarrow>
          if st_Host p = [] then Some PluginHostRequired
          else if st_Password p = [] then Some PluginPasswordRequired
          else if length (st_Password p) < 8 then Some PluginPasswordShort
          else if st_Version p \<noteq> 1 \<and> st_Version p \<noteq> 2 \<and> st_Version p \<noteq> 3 then Some PluginVersionBad
          else None)"

record ShadowsocksConfig =
  ss_Server :: string
  ss_ServerPort :: uint16
  ss_Method :: string
  ss_Password :: string
  ss_Username :: string
  ss_ObfsMode :: string
  ss_ObfsHost :: string
  ss_Plugin :: string
  ss_PluginOpts :: "ShadowTLSPluginOpts option"

definition ShadowsocksConfig_Validate :: "ShadowsocksConfig \<Rightarrow> config_error option" where
  "ShadowsocksConfig_Validate c =
     (if ss_Server c = [] then Some ServerHostRequired
      else if ss_ServerPort c = 0 then Some ServerPortRequired
      else if ss_Method c = [] then Some MethodRequired
      else if ss_Password c = [] then Some PasswordRequired
      else if ss_Plugin c \<noteq> [] then
        (if ss_Plugin c = ''shadow-tls'' then
           (if ss_PluginOpts c = None then Some PluginOptsRequired
            else ShadowTLSPluginOpts_Validate (ss_PluginOpts c))
         else Some (UnsupportedPlugin (ss_Plugin c)))
      else None)"

record BaseProxyConfig =
  bp_Type :: string
  bp_CoreServer :: string

definition BaseProxyConfig_Validate :: "BaseProxyConfig \<Rightarrow> config_error option" where
  "BaseProxyConfig_Validate p =
     (if bp_Type p = [] then Some ProxyTypeRequired
      else if bp_Type p = ''direct'' then None
      else if bp_Type p = ''aliang'' then None
      else Some (UnsupportedProxyType (bp_Type p)))"

section \<open>DNS pre-resolution\<close>

record DNSPreResolutionConfig =
  dns_Enabled :: bool
  dns_Timeout :: string
  dns_ConcurrentLimit :: int
  dns_RetryOnFailure :: bool
  dns_CacheResults :: bool
  dns_PreferIPv4 :: bool
  dns_ForceResolve :: bool
  dns_MaxCacheTTL :: string
  dns_PrimaryDNS :: string
  dns_FallbackDNS :: string
  dns_SystemDNSFallback :: bool

definition GetDNSPreResolutionConfig :: DNSPreResolutionConfig where
  "GetDNSPreResolutionConfig =
     \<lparr>dns_Enabled = True, dns_Timeout = ''10s'', dns_ConcurrentLimit = 10,
      dns_RetryOnFailure = True, dns_CacheResults = True, dns_PreferIPv4 = True,
      dns_ForceResolve = False, dns_MaxCacheTTL = ''1h'', dns_PrimaryDNS = ''8.8.8.8:53'',
      dns_FallbackDNS = ''223.5.5.5:53'', dns_SystemDNSFallback = True\<rparr>"

definition second :: duration where "second = 1000000000"

definition GetTimeout :: "(string \<Rightarrow> duration option) \<Rightarrow> DNSPreResolutionConfig \<Rightarrow> duration" where
  "GetTimeout parse_duration c =
     (if dns_Timeout c = [] then 10 * second
      else (case parse_duration (dns_Timeout c) of Some d \<Rightarrow> d | None \<Rightarrow> 10 * second))"

definition GetMaxCacheTTL :: "(string \<Rightarrow> duration option) \<Rightarrow> DNSPreResolutionConfig \<Rightarrow> duration" where
  "GetMaxCacheTTL parse_duration c =
     (if dns_MaxCacheTTL c = [] then 3600 * second
      else (case parse_duration (dns_MaxCacheTTL c) of Some d \<Rightarrow> d | None \<Rightarrow> 3600 * second))"

definition GetPrimaryDNS :: "DNSPreResolutionConfig \<Rightarrow> string" where
  "GetPrimaryDNS c = (if dns_PrimaryDNS c = [] then ''8.8.8.8:53'' else dns_PrimaryDNS c)"

definition GetFallbackDNS :: "DNSPreResolutionConfig \<Rightarrow> string" where
  "GetFallbackDNS c = (if dns_FallbackDNS c = [] then ''223.5.5.5:53'' else dns_FallbackDNS c)"

definition DNSPreResolutionConfig_Validate ::
  "(string \<Rightarrow> duration option) \<Rightarrow> DNSPreResolutionConfig \<Rightarrow> config_error option" where
  "DNSPreResolutionConfig_Validate parse_duration c =
     (if dns_Enabled c then
        (if dns_ConcurrentLimit c \<le> 0 then Some ConcurrentLimitPositive
         else if dns_ConcurrentLimit c > 50 then Some ConcurrentLimitTooBig
         else if GetTimeout parse_duration c < 1 * second \<or> GetTimeout parse_duration c > 60 * second
           then Some TimeoutRange
         else None)
      else None)"

section \<open>The configuration\<close>

record CustomerProxyConfig =
  cp_Enable :: "bool option"
  cp_Type :: string
  cp_Server :: string
  cp_Username :: string
  cp_Password :: string

definition IsEnabled :: "CustomerProxyConfig option \<Rightarrow> bool" where
  "IsEnabled c = (case c of None \<Rightarrow> False
     | Some p \<Rightarrow> (case cp_Enable p of None \<Rightarrow> True | Some b \<Rightarrow> b))"

record CustomerAIRuleSetting =
  ai_Label :: string
  ai_Enble :: "bool option"
  ai_Include :: "string list"
  ai_Editable :: "bool option"

text \<open>
  \<^verbatim>\<open>CustomerAIRuleSetting.UnmarshalJSON\<close> after the generic decoding: the legacy spellings
  \<^verbatim>\<open>enable\<close> and \<^verbatim>\<open>exclude\<close> fill in for missing \<^verbatim>\<open>enble\<close> and \<^verbatim>\<open>include\<close>.
\<close>

record ai_rule_alias =
  al_Label :: string
  al_Enble :: "bool option"
  al_Enable :: "bool option"
  al_Include :: "string list"
  al_Exclude :: "string list"
  al_Editable :: "bool option"

definition ai_rule_of_alias :: "ai_rule_alias \<Rightarrow> CustomerAIRuleSetting" where
  "ai_rule_of_alias d =
     \<lparr>ai_Label = al_Label d,
      ai_Enble = (if al_Enble d = None then al_Enable d else al_Enble d),
      ai_Include = (if al_Include d = [] then al_Exclude d else al_Include d),
      ai_Editable = al_Editable d\<rparr>"

text \<open>\<^verbatim>\<open>MarshalJSON\<close> writes the current spellings only.\<close>

definition alias_of_ai_rule :: "CustomerAIRuleSetting \<Rightarrow> ai_rule_alias" where
  "alias_of_ai_rule c =
     \<lparr>al_Label = ai_Label c, al_Enble = ai_Enble c, al_Enable = None, al_Include = ai_Include c,
      al_Exclude = [], al_Editable = ai_Editable c\<rparr>"

type_synonym ai_rules = "(string \<times> CustomerAIRuleSetting option) list"

record CustomerConfig =
  cc_Proxy :: "CustomerProxyConfig option"
  cc_AIRules :: ai_rules
  cc_ProxyRules :: "string list"

record AliangServerConfig =
  as_Type :: string
  as_CoreServer :: string

record CoreEngineConfig =
  en_MTU :: int
  en_Mark :: int
  en_RestAPI :: string
  en_Device :: string
  en_LogLevel :: string
  en_Interface :: string
  en_TCPModerateReceiveBuffer :: bool
  en_TCPSendBufferSize :: string
  en_TCPReceiveBufferSize :: string
  en_MulticastGroups :: string
  en_TUNPreUp :: string
  en_TUNPostUp :: string
  en_UDPTimeout :: string

record CoreConfig =
  co_Engine :: "CoreEngineConfig option"
  co_AliangServer :: "AliangServerConfig option"
  co_APIServer :: string

record Config =
  cfg_Core :: "CoreConfig option"
  cfg_Customer :: "CustomerConfig option"
  customerUnknownFields :: "string list"
  aiRuleUnknownFields :: "(string \<times> string list) list"

section \<open>Effective values\<close>

definition parseHostPort :: "string \<Rightarrow> config_error + (string \<times> uint16)" where
  "parseHostPort server =
     (case SplitHostPort (TrimSpace server) of
        None \<Rightarrow> Inl NotHostPort
      | Some (host0, port0) \<Rightarrow>
          let host = TrimSpace host0; portRaw = TrimSpace port0 in
          if host = [] then Inl HostRequired
          else if portRaw = [] then Inl PortRequired
          else (case Atoi portRaw of
                  None \<Rightarrow> Inl PortInvalid
                | Some port \<Rightarrow>
                    if port < 1 \<or> port > 65535 then Inl PortRange
                    else Inr (host, word_of_int port)))"

definition APIBaseURL :: "Config option \<Rightarrow> string" where
  "APIBaseURL c = (case c of None \<Rightarrow> []
     | Some cfg \<Rightarrow> (case cfg_Core cfg of None \<Rightarrow> [] | Some core \<Rightarrow> TrimSpace (co_APIServer core)))"

definition EffectiveAliangCoreServer :: "Config option \<Rightarrow> string" where
  "EffectiveAliangCoreServer c =
     (case c of
        Some cfg \<Rightarrow>
          (case cfg_Core cfg of
             Some core \<Rightarrow>
               (case co_AliangServer core of
                  Some s \<Rightarrow> if TrimSpace (as_CoreServer s) \<noteq> [] then TrimSpace (as_CoreServer s)
                                      else ''ai-gateway.aliang.one:443''
                | None \<Rightarrow> ''ai-gateway.aliang.one:443'')
           | None \<Rightarrow> ''ai-gateway.aliang.one:443'')
      | None \<Rightarrow> ''ai-gateway.aliang.one:443'')"

definition EffectiveDefaultProxy :: "Config \<Rightarrow> string" where
  "EffectiveDefaultProxy c = ''direct''"

definition EffectiveSocksProxy :: "Config option \<Rightarrow> config_error + Socks5Config option" where
  "EffectiveSocksProxy c =
     (case c of None \<Rightarrow> Inr None
      | Some cfg \<Rightarrow>
     (case cfg_Customer cfg of None \<Rightarrow> Inr None
      | Some cust \<Rightarrow>
     (case cc_Proxy cust of None \<Rightarrow> Inr None
      | Some p \<Rightarrow>
          if \<not> IsEnabled (Some p) then Inr None
          else if ToLower (TrimSpace (cp_Type p)) \<noteq> ''socks5'' then Inr None
          else (case parseHostPort (cp_Server p) of
                  Inl e \<Rightarrow> Inl (CustomerProxyServer e)
                | Inr (host, port) \<Rightarrow>
                    Inr (Some \<lparr>s5_Server = host, s5_ServerPort = port,
                               s5_Username = cp_Username p, s5_Password = cp_Password p\<rparr>)))))"

definition sortedMapKeys :: "ai_rules \<Rightarrow> string list" where
  "sortedMapKeys values = sort (map fst values)"

definition dedupeTrimmedDomains :: "string list \<Rightarrow> string list" where
  "dedupeTrimmedDomains xs = dedupe_loop [] xs"

text \<open>The body of the provider loop: what an enabled provider contributes.\<close>

definition enabled_include :: "ai_rules \<Rightarrow> string \<Rightarrow> string list" where
  "enabled_include rules provider =
     (case map_of rules provider of
        Some (Some rule) \<Rightarrow> (if ai_Enble rule = Some True then ai_Include rule else [])
      | _ \<Rightarrow> [])"

definition EffectiveAIAllowlist :: "Config option \<Rightarrow> string list" where
  "EffectiveAIAllowlist c =
     (case c of None \<Rightarrow> []
      | Some cfg \<Rightarrow>
     (case cfg_Customer cfg of None \<Rightarrow> []
      | Some cust \<Rightarrow>
          if cc_AIRules cust = [] then []
          else dedupeTrimmedDomains
                 (concat (map (enabled_include (cc_AIRules cust)) (sortedMapKeys (cc_AIRules cust))))))"

section \<open>Unknown keys\<close>

text \<open>As much of a JSON value as \<^verbatim>\<open>extractCustomerUnknownFields\<close> looks at.\<close>

datatype json = JObject "(string \<times> json) list" | JNull | JOther

definition json_as_map :: "json \<Rightarrow> (string \<times> json) list option" where
  "json_as_map j = (case j of JObject m \<Rightarrow> Some m | JNull \<Rightarrow> Some [] | JOther \<Rightarrow> None)"

fun collect_ai_unknown ::
  "(string \<times> json) list \<Rightarrow> config_error + (string \<times> string list) list" where
  "collect_ai_unknown [] = Inr []"
| "collect_ai_unknown ((provider, raw) # rest) =
     (case json_as_map raw of
        None \<Rightarrow> Inl (ProviderNotObject provider)
      | Some fieldmap \<Rightarrow>
          (case collect_ai_unknown rest of
             Inl e \<Rightarrow> Inl e
           | Inr m \<Rightarrow>
               let unknown = filter (\<lambda>k. k \<notin> set [''enble'', ''enable'', ''include'', ''exclude'', ''editable'', ''label''])
                               (map fst fieldmap) in
               Inr (if unknown = [] then m else (provider, unknown) # m)))"

definition extractCustomerUnknownFields ::
  "(string \<times> json) list \<Rightarrow> config_error + (string list \<times> (string \<times> string list) list)" where
  "extractCustomerUnknownFields root =
     (case map_of root ''customer'' of
        None \<Rightarrow> Inr ([], [])
      | Some rawCustomer \<Rightarrow>
          (case json_as_map rawCustomer of
             None \<Rightarrow> Inl CustomerNotObject
           | Some customerRoot \<Rightarrow>
               let unknown = filter (\<lambda>k. k \<notin> set [''proxy'', ''ai_rules'', ''proxy_rules''])
                               (map fst customerRoot) in
               (case map_of customerRoot ''ai_rules'' of
                  None \<Rightarrow> Inr (unknown, [])
                | Some rawAI \<Rightarrow>
                    (case json_as_map rawAI of
                       None \<Rightarrow> Inl AIRulesNotObject
                     | Some aiRoot \<Rightarrow>
                         (case collect_ai_unknown aiRoot of
                            Inl e \<Rightarrow> Inl e
                          | Inr m \<Rightarrow> Inr (unknown, m))))))"

fun first_unknown :: "(string \<times> string list) list \<Rightarrow> string list \<Rightarrow> config_error option" where
  "first_unknown m [] = None"
| "first_unknown m (provider # ps) =
     (case map_of m provider of
        Some (u # us) \<Rightarrow> Some (AIRuleKeyForbidden provider (hd (sort (u # us))))
      | _ \<Rightarrow> first_unknown m ps)"

definition customerUnknownKeyErrors :: "Config \<Rightarrow> config_error option" where
  "customerUnknownKeyErrors c =
     (if customerUnknownFields c \<noteq> [] then
        Some (CustomerKeyForbidden (hd (sort (customerUnknownFields c))))
      else first_unknown (aiRuleUnknownFields c) (sort (map fst (aiRuleUnknownFields c))))"

section \<open>Validation of the editable surface\<close>

text \<open>
  The loops that trim a string list in place and stop at the first entry that trims to the
  empty string: the list as the loop leaves it, and the index it stopped at.
\<close>

fun trim_in_place :: "string list \<Rightarrow> string list \<times> nat option" where
  "trim_in_place [] = ([], None)"
| "trim_in_place (x # xs) =
     (let t = TrimSpace x in
      if t = [] then (t # xs, Some 0)
      else (case trim_in_place xs of (ys, r) \<Rightarrow> (t # ys, map_option Suc r)))"

fun check_ai_rules :: "ai_rules \<Rightarrow> ai_rules \<times> config_error option" where
  "check_ai_rules [] = ([], None)"
| "check_ai_rules ((provider, rule) # rest) =
     (if TrimSpace provider = [] then ((provider, rule) # rest, Some ProviderKeyEmpty)
      else (case rule of
              None \<Rightarrow> ((provider, rule) # rest, Some (ProviderNil provider))
            | Some r \<Rightarrow>
                if ai_Enble r = None then ((provider, rule) # rest, Some (EnbleRequired provider))
                else (case trim_in_place (ai_Include r) of
                        (inc, Some i) \<Rightarrow>
                          ((provider, Some (r\<lparr>ai_Include := inc\<rparr>)) # rest, Some (IncludeEmpty provider i))
                      | (inc, None) \<Rightarrow>
                          (case check_ai_rules rest of
                             (rest', e) \<Rightarrow> ((provider, Some (r\<lparr>ai_Include := inc\<rparr>)) # rest', e)))))"

text \<open>The configuration as the method leaves it, and its error.\<close>

definition validateCustomerEditableSurface :: "Config \<Rightarrow> Config \<times> config_error option" where
  "validateCustomerEditableSurface c =
     (case cfg_Customer c of
        None \<Rightarrow> (c, None)
      | Some cust \<Rightarrow>
          let perr =
            (case cc_Proxy cust of
               Some p \<Rightarrow> if cp_Type p = ''http'' \<or> cp_Type p = ''socks5'' then None
                         else Some (ProxyTypeInvalid (cp_Type p))
             | None \<Rightarrow> None) in
          (case perr of
             Some e \<Rightarrow> (c, Some e)
           | None \<Rightarrow>
               (case check_ai_rules (cc_AIRules cust) of
                  (ai, Some e) \<Rightarrow> (c\<lparr>cfg_Customer := Some (cust\<lparr>cc_AIRules := ai\<rparr>)\<rparr>, Some e)
                | (ai, None) \<Rightarrow>
                    (case trim_in_place (cc_ProxyRules cust) of
                       (pr, i) \<Rightarrow>
                         let c' = c\<lparr>cfg_Customer := Some (cust\<lparr>cc_AIRules := ai, cc_ProxyRules := pr\<rparr>)\<rparr> in
                         (case i of
                            Some k \<Rightarrow> (c', Some (ProxyRuleEmpty k))
                          | None \<Rightarrow> (c', customerUnknownKeyErrors c'))))))"

definition EffectiveDNSPreResolution :: "Config \<Rightarrow> DNSPreResolutionConfig" where
  "EffectiveDNSPreResolution c = GetDNSPreResolutionConfig"

definition Config_Validate ::
  "(string \<Rightarrow> duration option) \<Rightarrow> Config \<Rightarrow> Config \<times> config_error option" where
  "Config_Validate parse_duration c0 =
     (case validateCustomerEditableSurface c0 of
        (c, Some e) \<Rightarrow> (c, Some e)
      | (c, None) \<Rightarrow>
          if TrimSpace (APIBaseURL (Some c)) = [] then (c, Some APIServerRequired)
          else (case DNSPreResolutionConfig_Validate parse_duration (EffectiveDNSPreResolution c) of
                  Some e \<Rightarrow> (c, Some e)
                | None \<Rightarrow>
                    (case EffectiveSocksProxy (Some c) of
                       Inl e \<Rightarrow> (c, Some e)
                     | Inr None \<Rightarrow> (c, None)
                     | Inr (Some s) \<Rightarrow> (c, Socks5Config_Validate s))))"

section \<open>Lemmas\<close>

text \<open>What validation establishes of the editable surface.\<close>

definition trimmed :: "string \<Rightarrow> bool" where
  "trimmed x \<longleftrightarrow> x \<noteq> [] \<and> TrimSpace x = x"

definition ai_entry_ok :: "string \<times> CustomerAIRuleSetting option \<Rightarrow> bool" where
  "ai_entry_ok e \<longleftrightarrow> TrimSpace (fst e) \<noteq> [] \<and>
     (case snd e of None \<Rightarrow> False
      | Some r \<Rightarrow> ai_Enble r \<noteq> None \<and> list_all trimmed (ai_Include r))"

definition surface_ok :: "CustomerConfig \<Rightarrow> bool" where
  "surface_ok cust \<longleftrightarrow>
     (case cc_Proxy cust of None \<Rightarrow> True | Some p \<Rightarrow> cp_Type p = ''http'' \<or> cp_Type p = ''socks5'') \<and>
     list_all ai_entry_ok (cc_AIRules cust) \<and> list_all trimmed (cc_ProxyRules cust)"

lemma trim_in_place_ok: "trim_in_place xs = (ys, None) \<Longrightarrow> list_all trimmed ys"
  by (induction xs arbitrary: ys) (auto simp: trimmed_def Let_def split: if_splits prod.splits)

lemma trim_in_place_trimmed: "list_all trimmed xs \<Longrightarrow> trim_in_place xs = (xs, None)"
  by (induction xs) (auto simp: trimmed_def Let_def)

lemma check_ai_rules_ok: "check_ai_rules xs = (ys, None) \<Longrightarrow> list_all ai_entry_ok ys"
  by (induction xs arbitrary: ys rule: check_ai_rules.induct)
     (auto simp: ai_entry_ok_def dest: trim_in_place_ok split: if_splits option.splits prod.splits)

lemma check_ai_rules_checked: "list_all ai_entry_ok xs \<Longrightarrow> check_ai_rules xs = (xs, None)"
  by (induction xs rule: check_ai_rules.induct)
     (auto simp: ai_entry_ok_def trim_in_place_trimmed split: option.splits)

lemma validate_surface_cases:
  assumes "validateCustomerEditableSurface c = (c', None)" "cfg_Customer c = Some cust"
  obtains ai pr where "check_ai_rules (cc_AIRules cust) = (ai, None)"
    "trim_in_place (cc_ProxyRules cust) = (pr, None)"
    "c' = c\<lparr>cfg_Customer := Some (cust\<lparr>cc_AIRules := ai, cc_ProxyRules := pr\<rparr>)\<rparr>"
    "customerUnknownKeyErrors c' = None"
    "cc_Proxy cust = None \<or> cp_Type (the (cc_Proxy cust)) \<in> {''http'', ''socks5''}"
  using assms
  by (auto simp: validateCustomerEditableSurface_def Let_def
           split: option.splits prod.splits if_splits)

lemma uint_of_port: "0 \<le> port \<Longrightarrow> port \<le> 65535 \<Longrightarrow> uint (word_of_int port :: uint16) = port"
  by (simp add: uint_word_of_int)

lemma parseHostPort_Inr:
  assumes "parseHostPort server = Inr (host, port)"
  shows "trimmed host \<and> 1 \<le> uint port"
  using assms
  by (auto simp: parseHostPort_def Let_def trimmed_def uint_of_port
           split: option.splits prod.splits if_splits)

lemma EffectiveSocksProxy_Some:
  assumes "EffectiveSocksProxy c = Inr (Some s)"
  shows "trimmed (s5_Server s) \<and> 1 \<le> uint (s5_ServerPort s)"
  using assms
  by (auto simp: EffectiveSocksProxy_def split: option.splits sum.splits if_splits
           dest!: parseHostPort_Inr)

lemma enabled_include_set:
  assumes "distinct (map fst rules)" "(provider, rule) \<in> set rules"
  shows "enabled_include rules provider =
           (case rule of Some r \<Rightarrow> (if ai_Enble r = Some True then ai_Include r else []) | None \<Rightarrow> [])"
  using assms by (simp add: enabled_include_def map_of_is_SomeI split: option.splits)

lemma enabled_include_perm:
  assumes "distinct (map fst xs)" "mset xs = mset ys"
  shows "enabled_include xs = enabled_include ys"
proof -
  have "distinct (map fst ys)"
    using assms by (metis mset_eq_imp_distinct_iff mset_map)
  then have "map_of xs = map_of ys"
    using assms by (metis map_of_eqI set_mset_mset map_of_inject_set)
  then show ?thesis by (auto simp: enabled_include_def)
qed

lemma sortedMapKeys_perm: "mset xs = mset ys \<Longrightarrow> sortedMapKeys xs = sortedMapKeys ys"
  unfolding sortedMapKeys_def by (metis mset_map properties_for_sort sorted_sort mset_sort)

text \<open>A configuration on which the properties are exercised.\<close>

definition example_customer :: CustomerConfig where
  "example_customer =
     \<lparr>cc_Proxy = Some \<lparr>cp_Enable = None, cp_Type = ''socks5'', cp_Server = ''127.0.0.1:1080'',
                      cp_Username = [], cp_Password = []\<rparr>,
      cc_AIRules = [(''openai'', Some \<lparr>ai_Label = [], ai_Enble = Some True,
                                      ai_Include = ['' *.OpenAI.com''], ai_Editable = None\<rparr>)],
      cc_ProxyRules = [''x.org '']\<rparr>"

definition example_config :: Config where
  "example_config =
     \<lparr>cfg_Core = Some \<lparr>co_Engine = None, co_AliangServer = None, co_APIServer = ''https://api.example''\<rparr>,
      cfg_Customer = Some example_customer, customerUnknownFields = [], aiRuleUnknownFields = []\<rparr>"

section \<open>Properties\<close>

text \<open>
  Validation of the editable surface: when it accepts, the customer section it leaves behind
  has a permitted proxy type, providers with non-blank keys whose rules are present and have
  their switch set, and only trimmed, non-empty include entries and proxy rules; no unknown key
  was found; and validating the result again accepts it and changes nothing.
\<close>

theorem editable_surface_validated:
  assumes "validateCustomerEditableSurface c = (c', None)" "cfg_Customer c = Some cust"
  shows "(\<exists>cust'. cfg_Customer c' = Some cust' \<and> surface_ok cust' \<and> cc_Proxy cust' = cc_Proxy cust) \<and>
    customerUnknownFields c' = [] \<and>
    validateCustomerEditableSurface c' = (c', None)"
proof -
  obtain ai pr where ai: "check_ai_rules (cc_AIRules cust) = (ai, None)"
    and pr: "trim_in_place (cc_ProxyRules cust) = (pr, None)"
    and c': "c' = c\<lparr>cfg_Customer := Some (cust\<lparr>cc_AIRules := ai, cc_ProxyRules := pr\<rparr>)\<rparr>"
    and unk: "customerUnknownKeyErrors c' = None"
    and ty: "cc_Proxy cust = None \<or> cp_Type (the (cc_Proxy cust)) \<in> {''http'', ''socks5''}"
    by (rule validate_surface_cases [OF assms])
  have ok: "list_all ai_entry_ok ai" "list_all trimmed pr"
    using check_ai_rules_ok [OF ai] trim_in_place_ok [OF pr] .
  have "surface_ok (cust\<lparr>cc_AIRules := ai, cc_ProxyRules := pr\<rparr>)"
    using ok ty by (auto simp: surface_ok_def split: option.splits)
  moreover have "customerUnknownFields c' = []"
    using unk by (auto simp: customerUnknownKeyErrors_def split: if_splits)
  moreover have "validateCustomerEditableSurface c' = (c', None)"
    using ok ty unk
    by (auto simp: validateCustomerEditableSurface_def c' check_ai_rules_checked
          trim_in_place_trimmed split: option.splits)
  ultimately show ?thesis by (auto simp: c')
qed

theorem editable_surface_validated_witness:
  "validateCustomerEditableSurface (fst (validateCustomerEditableSurface example_config)) =
     (fst (validateCustomerEditableSurface example_config), None)"
proof -
  have ok: "snd (validateCustomerEditableSurface example_config) = None" by code_simp
  have cust: "cfg_Customer example_config = Some example_customer"
    by (simp add: example_config_def)
  show ?thesis
    using editable_surface_validated [OF _ cust] ok by (metis prod.collapse)
qed

text \<open>
  The AI allowlist: it lists, without duplicates, exactly the trimmed lower-cased non-empty
  include entries of the providers whose switch is on, and although it is read from a map it does
  not depend on the order in which the map is visited.
\<close>

theorem effective_allowlist_exact:
  assumes "distinct (map fst (cc_AIRules cust))" "cfg_Customer c = Some cust"
  shows "distinct (EffectiveAIAllowlist (Some c)) \<and>
    set (EffectiveAIAllowlist (Some c)) =
      {lower_trim d | d provider r. (provider, Some r) \<in> set (cc_AIRules cust) \<and>
          ai_Enble r = Some True \<and> d \<in> set (ai_Include r)} - {[]} \<and>
    (\<forall>rules. mset rules = mset (cc_AIRules cust) \<longrightarrow>
       EffectiveAIAllowlist (Some (c\<lparr>cfg_Customer := Some (cust\<lparr>cc_AIRules := rules\<rparr>)\<rparr>)) =
       EffectiveAIAllowlist (Some c))"
proof -
  let ?rules = "cc_AIRules cust"
  have eff: "EffectiveAIAllowlist (Some c) =
      dedupe_loop [] (concat (map (enabled_include ?rules) (sortedMapKeys ?rules)))"
    using assms(2) by (simp add: EffectiveAIAllowlist_def dedupeTrimmedDomains_def sortedMapKeys_def)
  have inc: "(\<Union>p\<in>fst ` set ?rules. set (enabled_include ?rules p)) =
      {d. \<exists>provider r. (provider, Some r) \<in> set ?rules \<and> ai_Enble r = Some True \<and> d \<in> set (ai_Include r)}"
    using enabled_include_set [OF assms(1)]
    by (fastforce split: option.splits if_splits)
  have "set (EffectiveAIAllowlist (Some c)) =
      lower_trim ` (\<Union>p\<in>fst ` set ?rules. set (enabled_include ?rules p)) - {[]}"
    by (simp add: eff set_dedupe_loop sortedMapKeys_def)
  then have "set (EffectiveAIAllowlist (Some c)) =
      {lower_trim d | d provider r. (provider, Some r) \<in> set ?rules \<and>
          ai_Enble r = Some True \<and> d \<in> set (ai_Include r)} - {[]}"
    unfolding inc by blast
  moreover have "EffectiveAIAllowlist (Some (c\<lparr>cfg_Customer := Some (cust\<lparr>cc_AIRules := rules\<rparr>)\<rparr>)) =
       EffectiveAIAllowlist (Some c)" if "mset rules = mset ?rules" for rules
    using that sortedMapKeys_perm [OF that] enabled_include_perm [OF assms(1) that [symmetric]]
    by (auto simp: eff EffectiveAIAllowlist_def assms(2) dedupeTrimmedDomains_def sortedMapKeys_def)
  moreover have "distinct (EffectiveAIAllowlist (Some c))"
    by (simp add: eff distinct_dedupe_loop)
  ultimately show ?thesis by blast
qed

theorem effective_allowlist_exact_witness:
  "distinct (EffectiveAIAllowlist (Some example_config)) \<and>
   EffectiveAIAllowlist (Some example_config) = [''*.openai.com'']"
proof -
  have "distinct (EffectiveAIAllowlist (Some example_config))"
    using effective_allowlist_exact [of example_customer example_config]
    by (simp add: example_customer_def example_config_def)
  moreover have "EffectiveAIAllowlist (Some example_config) = [''*.openai.com'']" by code_simp
  ultimately show ?thesis by blast
qed

text \<open>
  Validation of the whole configuration: an accepted configuration names an API server, its
  editable surface is accepted as it stands, and the SOCKS proxy the routing core derives from it
  either is absent or has a trimmed non-empty host, a port from 1 to 65535 and credentials that
  are both given or both missing. When the duration parser reads the built-in ten-second timeout
  as documented, the DNS check can never be what rejects a configuration.
\<close>

theorem config_validation_correct:
  assumes duration: "parse_duration ''10s'' = Some (10 * second)"
    and ok: "Config_Validate parse_duration c = (c', None)"
  shows "APIBaseURL (Some c') \<noteq> [] \<and>
    validateCustomerEditableSurface c = (c', None) \<and>
    (case EffectiveSocksProxy (Some c') of
       Inl e \<Rightarrow> False
     | Inr None \<Rightarrow> True
     | Inr (Some s) \<Rightarrow> trimmed (s5_Server s) \<and> 1 \<le> uint (s5_ServerPort s) \<and>
         (s5_Username s = [] \<longleftrightarrow> s5_Password s = [])) \<and>
    DNSPreResolutionConfig_Validate parse_duration (EffectiveDNSPreResolution c') = None"
proof -
  have surf: "validateCustomerEditableSurface c = (c', None)"
    and api: "TrimSpace (APIBaseURL (Some c')) \<noteq> []"
    and socks: "case EffectiveSocksProxy (Some c') of Inl e \<Rightarrow> False | Inr None \<Rightarrow> True
                | Inr (Some s) \<Rightarrow> Socks5Config_Validate s = None"
    using ok by (auto simp: Config_Validate_def split: prod.splits option.splits if_splits sum.splits)
  have "APIBaseURL (Some c') \<noteq> []"
    using api TrimSpace_Nil by metis
  moreover have "DNSPreResolutionConfig_Validate parse_duration (EffectiveDNSPreResolution c') = None"
    by (simp add: DNSPreResolutionConfig_Validate_def EffectiveDNSPreResolution_def
          GetDNSPreResolutionConfig_def GetTimeout_def duration second_def)
  moreover have "case EffectiveSocksProxy (Some c') of Inl e \<Rightarrow> False | Inr None \<Rightarrow> True
     | Inr (Some s) \<Rightarrow> trimmed (s5_Server s) \<and> 1 \<le> uint (s5_ServerPort s) \<and>
         (s5_Username s = [] \<longleftrightarrow> s5_Password s = [])"
    using socks EffectiveSocksProxy_Some [of "Some c'"]
    by (auto simp: Socks5Config_Validate_def split: sum.splits option.splits if_splits)
  ultimately show ?thesis using surf by blast
qed

theorem config_validation_correct_witness:
  "APIBaseURL (Some (fst (Config_Validate (\<lambda>s. if s = ''10s'' then Some (10 * second) else None)
      example_config))) \<noteq> [] \<and>
   snd (Config_Validate (\<lambda>s. if s = ''10s'' then Some (10 * second) else None) example_config) = None"
proof -
  let ?d = "\<lambda>s. if s = ''10s'' then Some (10 * second) else None"
  have ok: "snd (Config_Validate ?d example_config) = None" by code_simp
  then have "Config_Validate ?d example_config = (fst (Config_Validate ?d example_config), None)"
    by (simp add: prod_eq_iff)
  with ok show ?thesis
    using config_validation_correct [of ?d example_config "fst (Config_Validate ?d example_config)"]
    by simp
qed

end
