(* ===== verification/Snapshot.thy ===== *)
theory Snapshot
  imports Routing_Schema Config_Types
begin

text \<open>
  The runtime snapshot of \<^verbatim>\<open>processor/routing/snapshot.go\<close>: the immutable rule table that routing
  decisions are taken from, and its three compilers, from a canonical schema, from the legacy
  rule sets, and from the live configuration and switches. \<^verbatim>\<open>SnapshotAction\<close> is a Go string
  type and stays a string, because the compilers cast unchecked targets into it.
\<close>

section \<open>The snapshot\<close>

type_synonym SnapshotAction = string

definition SnapshotActionDirect :: SnapshotAction where "SnapshotActionDirect = ''direct''"
definition SnapshotActionToAliang :: SnapshotAction where "SnapshotActionToAliang = ''toAliang''"
definition SnapshotActionToSocks :: SnapshotAction where "SnapshotActionToSocks = ''toSocks''"
definition SnapshotActionDeny :: SnapshotAction where "SnapshotActionDeny = ''deny''"

lemmas action_defs [route_simps] =
  SnapshotActionDirect_def SnapshotActionToAliang_def SnapshotActionToSocks_def SnapshotActionDeny_def

record SnapshotBranchCapabilities =
  cap_direct :: bool
  cap_toAliang :: bool
  cap_toSocks :: bool

record SnapshotRule =
  sr_id :: string
  sr_ruleType :: string
  sr_condition :: string
  sr_enabled :: bool
  sr_target :: SnapshotAction

definition NewSnapshotRule :: "string \<Rightarrow> string \<Rightarrow> string \<Rightarrow> bool \<Rightarrow> SnapshotAction \<Rightarrow> SnapshotRule" where
  "NewSnapshotRule i ruleType condition enabled target =
     \<lparr>sr_id = i, sr_ruleType = ToLower (TrimSpace ruleType),
      sr_condition = ToLower (TrimSpace condition), sr_enabled = enabled, sr_target = target\<rparr>"

record RuntimeSnapshot =
  rs_ingressMode :: string
  rs_capabilities :: SnapshotBranchCapabilities
  rs_rules :: "SnapshotRule list"
  rs_defaultAction :: SnapshotAction
  rs_explicitDeny :: SnapshotAction
  rs_hasExplicitDeny :: bool
  rs_strictDeny :: bool

definition has_deny :: "SnapshotRule list \<Rightarrow> bool" where
  "has_deny rules = list_ex (\<lambda>r. sr_target r = SnapshotActionDeny) rules"

definition NewRuntimeSnapshotForDecision ::
  "SnapshotBranchCapabilities \<Rightarrow> SnapshotRule list \<Rightarrow> SnapshotAction \<Rightarrow> bool \<Rightarrow> RuntimeSnapshot" where
  "NewRuntimeSnapshotForDecision capabilities rules defaultAction strictDeny =
     \<lparr>rs_ingressMode = ''tun'', rs_capabilities = capabilities, rs_rules = rules,
      rs_defaultAction = defaultAction, rs_explicitDeny = SnapshotActionDeny,
      rs_hasExplicitDeny = has_deny rules, rs_strictDeny = strictDeny\<rparr>"

text \<open>The accessors, which tolerate a nil snapshot.\<close>

definition Snapshot_IngressMode :: "RuntimeSnapshot option \<Rightarrow> string" where
  "Snapshot_IngressMode s = (case s of None \<Rightarrow> ''tun'' | Some t \<Rightarrow> rs_ingressMode t)"

definition BranchCapabilities :: "RuntimeSnapshot option \<Rightarrow> SnapshotBranchCapabilities" where
  "BranchCapabilities s =
     (case s of None \<Rightarrow> \<lparr>cap_direct = True, cap_toAliang = False, cap_toSocks = False\<rparr>
      | Some t \<Rightarrow> rs_capabilities t)"

definition Rules :: "RuntimeSnapshot option \<Rightarrow> SnapshotRule list" where
  "Rules s = (case s of None \<Rightarrow> [] | Some t \<Rightarrow> rs_rules t)"

definition DefaultAction :: "RuntimeSnapshot option \<Rightarrow> SnapshotAction" where
  "DefaultAction s = (case s of None \<Rightarrow> SnapshotActionDirect | Some t \<Rightarrow> rs_defaultAction t)"

definition ExplicitDenyAction :: "RuntimeSnapshot option \<Rightarrow> SnapshotAction" where
  "ExplicitDenyAction s = (case s of None \<Rightarrow> SnapshotActionDeny | Some t \<Rightarrow> rs_explicitDeny t)"

definition HasExplicitDenyRule :: "RuntimeSnapshot option \<Rightarrow> bool" where
  "HasExplicitDenyRule s = (case s of None \<Rightarrow> False | Some t \<Rightarrow> rs_hasExplicitDeny t)"

definition StrictUnavailableBranchDeny :: "RuntimeSnapshot option \<Rightarrow> bool" where
  "StrictUnavailableBranchDeny s = (case s of None \<Rightarrow> False | Some t \<Rightarrow> rs_strictDeny t)"

section \<open>Compilation from the canonical schema and from the legacy rule sets\<close>

definition snapshot_rule_of :: "CanonicalRoutingRule \<Rightarrow> SnapshotRule" where
  "snapshot_rule_of r =
     \<lparr>sr_id = cr_ID r, sr_ruleType = ToLower (TrimSpace (cr_Type r)),
      sr_condition = ToLower (TrimSpace (cr_Condition r)), sr_enabled = cr_Enabled r,
      sr_target = cr_Target r\<rparr>"

definition CompileRuntimeSnapshot :: "CanonicalRoutingSchema option \<Rightarrow> schema_error + RuntimeSnapshot" where
  "CompileRuntimeSnapshot canonical =
     (case canonical of None \<Rightarrow> Inl nil_schema
      | Some c \<Rightarrow>
          (case Schema_Validate c of
             Some e \<Rightarrow> Inl e
           | None \<Rightarrow>
               let rules = map snapshot_rule_of (cs_Rules c);
                   defaultAction = (if cs_DefaultEgress c \<noteq> [] then cs_DefaultEgress c
                                    else SnapshotActionDirect) in
               Inr \<lparr>rs_ingressMode = ToLower (TrimSpace (cs_Ingress_Mode c)),
                    rs_capabilities = \<lparr>cap_direct = eg_Direct_Enabled (cs_Egress c),
                                       cap_toAliang = eg_ToAliang_Enabled (cs_Egress c),
                                       cap_toSocks = eg_ToSocks_Enabled (cs_Egress c)\<rparr>,
                    rs_rules = rules, rs_defaultAction = defaultAction,
                    rs_explicitDeny = SnapshotActionDeny, rs_hasExplicitDeny = has_deny rules,
                    rs_strictDeny = True\<rparr>))"

definition legacy_rule :: "SnapshotAction \<Rightarrow> RoutingRule \<Rightarrow> SnapshotRule" where
  "legacy_rule target r =
     \<lparr>sr_id = rr_ID r, sr_ruleType = ToLower (TrimSpace (rr_Type r)),
      sr_condition = ToLower (TrimSpace (rr_Condition r)), sr_enabled = rr_Enabled r,
      sr_target = target\<rparr>"

definition CompileRuntimeSnapshotFromLegacyConfig ::
  "RoutingRulesConfig option \<Rightarrow> schema_error + RuntimeSnapshot" where
  "CompileRuntimeSnapshotFromLegacyConfig cfg =
     (case cfg of None \<Rightarrow> Inl nil_schema
      | Some c \<Rightarrow>
          let rules = map (legacy_rule SnapshotActionToAliang) (rs_Rules (rc_Aliang c))
                    @ map (legacy_rule SnapshotActionToSocks) (rs_Rules (rc_ToSocks c))
                    @ map (legacy_rule SnapshotActionDirect) (rs_Rules (rc_Direct c)) in
          Inr \<lparr>rs_ingressMode = ''tun'',
               rs_capabilities = \<lparr>cap_direct = True,
                                  cap_toAliang = AliangEnabled (rc_Settings c),
                                  cap_toSocks = SocksEnabled (rc_Settings c)\<rparr>,
               rs_rules = rules, rs_defaultAction = SnapshotActionDirect,
               rs_explicitDeny = SnapshotActionDeny, rs_hasExplicitDeny = has_deny rules,
               rs_strictDeny = False\<rparr>)"

section \<open>Compilation from the live configuration\<close>

definition dedupeNormalizedDomains :: "string list \<Rightarrow> string list" where
  "dedupeNormalizedDomains xs = dedupe_loop [] xs"

definition collectAIDomains :: "Config option \<Rightarrow> string list" where
  "collectAIDomains cfg =
     (case cfg of None \<Rightarrow> []
      | Some c \<Rightarrow>
          let domains =
            (case cfg_Customer c of
               None \<Rightarrow> []
             | Some cust \<Rightarrow>
                 if cc_AIRules cust \<noteq> [] then
                   let providers = sort (map fst (cc_AIRules cust)) in
                   concat (map (enabled_include (cc_AIRules cust)) providers)
                 else []) in
          dedupeNormalizedDomains (domains @ EffectiveAIAllowlist (Some c)))"

definition parseProxyRuleDomain :: "string \<Rightarrow> string \<times> bool" where
  "parseProxyRuleDomain rawRule =
     (let rule = TrimSpace rawRule in
      if rule = [] then ([], False)
      else
        let parts0 = Split rule (CHR '','') in
        if length parts0 = 1 then
          (let normalized = ToLower (TrimSpace (parts0 ! 0)) in (normalized, normalized \<noteq> []))
        else
          let parts = map TrimSpace parts0 in
          if length parts < 2 then ([], False)
          else
            let first = ToLower (parts ! 0) in
            if first = ''domain'' \<or> first = ''domains'' then
              (let normalized = ToLower (parts ! 1) in (normalized, normalized \<noteq> []))
            else
              let last_part = ToLower (parts ! (length parts - 1));
                  normalized = (if EqualFold last_part ''proxy'' \<and> length parts \<ge> 2
                                then ToLower (parts ! (length parts - 2)) else last_part) in
              (normalized, normalized \<noteq> []))"

fun collect_proxy_loop :: "string list \<Rightarrow> string list" where
  "collect_proxy_loop [] = []"
| "collect_proxy_loop (rawRule # rest) =
     (case parseProxyRuleDomain rawRule of
        (domain, ok) \<Rightarrow> if \<not> ok then collect_proxy_loop rest else domain # collect_proxy_loop rest)"

definition collectProxyRuleDomains :: "Config option \<Rightarrow> string list" where
  "collectProxyRuleDomains cfg =
     (case cfg of None \<Rightarrow> []
      | Some c \<Rightarrow>
          (case cfg_Customer c of None \<Rightarrow> []
           | Some cust \<Rightarrow>
               if cc_ProxyRules cust = [] then []
               else dedupeNormalizedDomains (collect_proxy_loop (cc_ProxyRules cust))))"

definition resolveToSocksUpstreamType :: "Config option \<Rightarrow> string \<times> bool" where
  "resolveToSocksUpstreamType cfg =
     (case cfg of None \<Rightarrow> ([], False)
      | Some c \<Rightarrow>
     (case cfg_Customer c of None \<Rightarrow> ([], False)
      | Some cust \<Rightarrow>
     (case cc_Proxy cust of None \<Rightarrow> ([], False)
      | Some p \<Rightarrow>
          if \<not> IsEnabled (Some p) then ([], False)
          else let proxyType = ToLower (TrimSpace (cp_Type p)) in
               if proxyType = ''http'' then (''http'', True)
               else if proxyType = ''socks5'' then (''socks'', True)
               else ([], False))))"

definition resolveProxyRuleTarget :: "bool \<Rightarrow> SnapshotAction" where
  "resolveProxyRuleTarget toSocksEnabled =
     (if toSocksEnabled then SnapshotActionToSocks else SnapshotActionDirect)"

text \<open>The loops that number the domains of one source.\<close>

definition numbered_rules :: "string \<Rightarrow> string \<Rightarrow> string list \<Rightarrow> CanonicalRoutingRule list" where
  "numbered_rules pre target domains =
     map (\<lambda>(i, domain). \<lparr>cr_ID = pre @ digits_of i, cr_Type = ''domain'', cr_Condition = domain,
                          cr_Enabled = True, cr_Target = target\<rparr>)
       (enumerate 0 domains)"

definition compileCanonicalRoutingFromRuntimeInputs ::
  "Config option \<Rightarrow> RulesSettings \<Rightarrow> schema_error + CanonicalRoutingSchema" where
  "compileCanonicalRoutingFromRuntimeInputs cfg switches =
     (let aiDomains = collectAIDomains cfg;
          proxyRuleDomains = collectProxyRuleDomains cfg;
          (upstreamType, hasToSocks) = resolveToSocksUpstreamType cfg;
          toSocksEnabled = (SocksEnabled switches \<and> hasToSocks);
          canonical =
            \<lparr>cs_Version = CanonicalRoutingSchemaVersion, cs_Ingress_Mode = ''tun'',
             cs_Egress = \<lparr>eg_Direct_Enabled = True, eg_ToAliang_Enabled = AliangEnabled switches,
                          eg_ToSocks_Enabled = toSocksEnabled,
                          eg_ToSocks_Upstream_Type = (if toSocksEnabled then upstreamType else [])\<rparr>,
             cs_Rules = numbered_rules ''ai_allowlist_'' SnapshotActionToAliang aiDomains
                      @ numbered_rules ''proxy_rule_'' (resolveProxyRuleTarget toSocksEnabled) proxyRuleDomains,
             cs_DefaultEgress = SnapshotActionDirect\<rparr> in
      case Schema_Validate canonical of
        Some e \<Rightarrow> Inl e
      | None \<Rightarrow> Inr canonical)"

definition CompileRuntimeSnapshotFromRuntimeInputs ::
  "Config option \<Rightarrow> RulesSettings \<Rightarrow> schema_error + RuntimeSnapshot" where
  "CompileRuntimeSnapshotFromRuntimeInputs cfg switches =
     (case compileCanonicalRoutingFromRuntimeInputs cfg switches of
        Inl e \<Rightarrow> Inl e
      | Inr canonical \<Rightarrow> CompileRuntimeSnapshot (Some canonical))"

end
