(* ===== verification/Domain_Match.thy ===== *)
theory Domain_Match
  imports Prelude
begin

text \<open>
  The two host name matchers of the routing core: \<^verbatim>\<open>MatchDomain\<close> and \<^verbatim>\<open>IsDomainAllowed\<close> of
  \<^verbatim>\<open>processor/rules/allowlist.go\<close>, and \<^verbatim>\<open>matchDomain\<close> of
  \<^verbatim>\<open>processor/routing/decision_engine.go\<close>. What both promise, exact match and sub-domain
  wildcard up to a normalisation of the names, is the locale \<^verbatim>\<open>domain_matcher\<close>.
\<close>

section \<open>The matchers\<close>

definition MatchDomain :: "string \<Rightarrow> string \<Rightarrow> bool" where
  "MatchDomain pattern0 domain0 =
     (if pattern0 = [] \<or> domain0 = [] then False
      else
        (let pattern = ToLower (TrimSpace pattern0); domain = ToLower (TrimSpace domain0) in
         if pattern = domain then True
         else if HasPrefix pattern ''*.'' then
           (let suffix = TrimPrefix pattern ''*.'' in
            if suffix = [] then False else HasSuffix domain (''.'' @ suffix))
         else False))"

fun IsDomainAllowed :: "string \<Rightarrow> string list \<Rightarrow> bool" where
  "IsDomainAllowed domain [] = False"
| "IsDomainAllowed domain (pattern # allowlist) =
     (if domain = [] then False
      else if MatchDomain pattern domain then True
      else IsDomainAllowed domain allowlist)"

definition matchDomain :: "string \<Rightarrow> string \<Rightarrow> bool" where
  "matchDomain pattern domain =
     (if pattern = [] \<or> domain = [] then False
      else if pattern = domain then True
      else if length pattern > 2 \<and> pattern ! 0 = CHR ''*'' \<and> pattern ! 1 = CHR ''.'' then
        (let suffix = drop 1 pattern in
         length domain > length suffix \<and> drop (length domain - length suffix) domain = suffix)
      else False)"

section \<open>The contract\<close>

text \<open>
  A matcher compares names after a normalisation \<open>norm\<close>. A pattern covers its own name; a
  pattern \<open>*.s\<close> also covers what ends in \<open>.s\<close>; nothing else matches.
\<close>

definition wildcard_of :: "string \<Rightarrow> string \<Rightarrow> bool" where
  "wildcard_of p d \<longleftrightarrow> (\<exists>s pre. s \<noteq> [] \<and> p = ''*.'' @ s \<and> pre \<noteq> [] \<and> d = pre @ ''.'' @ s)"

locale domain_matcher =
  fixes matcher :: "string \<Rightarrow> string \<Rightarrow> bool"
    and norm :: "string \<Rightarrow> string"
  assumes matcher_empty: "\<not> matcher [] d" "\<not> matcher p []"
    and matcher_exact: "p \<noteq> [] \<Longrightarrow> d \<noteq> [] \<Longrightarrow> norm p = norm d \<Longrightarrow> matcher p d"
    and matcher_wild: "p \<noteq> [] \<Longrightarrow> d \<noteq> [] \<Longrightarrow> wildcard_of (norm p) (norm d) \<Longrightarrow> matcher p d"
    and matcher_sound: "matcher p d \<Longrightarrow> hd (norm d) \<noteq> CHR ''.'' \<Longrightarrow>
          norm p = norm d \<or> wildcard_of (norm p) (norm d)"
begin

lemma matcher_iff:
  assumes "hd (norm d) \<noteq> CHR ''.''"
  shows "matcher p d \<longleftrightarrow> p \<noteq> [] \<and> d \<noteq> [] \<and> (norm p = norm d \<or> wildcard_of (norm p) (norm d))"
  using assms matcher_empty matcher_exact matcher_wild matcher_sound by metis

lemma apex_not_covered:
  assumes "norm p = ''*.'' @ s" and "norm d = s" and "hd s \<noteq> CHR ''.''"
  shows "\<not> matcher p d"
proof
  assume "matcher p d"
  from matcher_sound [OF this] assms have "s = ''*.'' @ s \<or> wildcard_of (''*.'' @ s) s" by auto
  then show False by (auto simp: wildcard_of_def dest: arg_cong [where f = length])
qed

lemma matcher_norm_cong:
  assumes "norm p = norm q" "norm d = norm e" "p \<noteq> []" "q \<noteq> []" "d \<noteq> []" "e \<noteq> []"
    and "hd (norm d) \<noteq> CHR ''.''"
  shows "matcher p d = matcher q e"
  using assms by (simp add: matcher_iff)

end

section \<open>Both matchers satisfy the contract\<close>

lemma HasPrefix_star: "HasPrefix p ''*.'' \<longleftrightarrow> (\<exists>s. p = ''*.'' @ s)"
  by (simp add: HasPrefix_iff)

lemma MatchDomain_iff:
  "MatchDomain p d \<longleftrightarrow> p \<noteq> [] \<and> d \<noteq> [] \<and>
     (lower_trim p = lower_trim d \<or>
      (\<exists>s pre. s \<noteq> [] \<and> lower_trim p = ''*.'' @ s \<and> lower_trim d = pre @ ''.'' @ s))"
proof (cases "\<exists>s. lower_trim p = ''*.'' @ s")
  case True
  then obtain s where s: "lower_trim p = ''*.'' @ s" by blast
  moreover from s have "HasPrefix (lower_trim p) ''*.''" by (auto simp: HasPrefix_star)
  moreover from s have "TrimPrefix (lower_trim p) ''*.'' = s" by (simp only: TrimPrefix_append)
  ultimately show ?thesis
    by (auto simp: MatchDomain_def lower_trim_def [symmetric] Let_def HasSuffix_iff)
next
  case False
  then have "\<not> HasPrefix (lower_trim p) ''*.''" by (simp add: HasPrefix_star)
  with False show ?thesis
    by (auto simp: MatchDomain_def lower_trim_def [symmetric] Let_def)
qed

lemma matchDomain_iff:
  "matchDomain p d \<longleftrightarrow> p \<noteq> [] \<and> d \<noteq> [] \<and> (p = d \<or> wildcard_of p d)"
proof (cases "\<exists>s. s \<noteq> [] \<and> p = ''*.'' @ s")
  case True
  then obtain s where s: "s \<noteq> []" "p = ''*.'' @ s" by blast
  have "length d > length (''.'' @ s) \<and> drop (length d - length (''.'' @ s)) d = ''.'' @ s
      \<longleftrightarrow> (\<exists>pre. pre \<noteq> [] \<and> d = pre @ ''.'' @ s)" (is "?L \<longleftrightarrow> ?R")
  proof
    assume ?L
    then have "d = take (length d - length (''.'' @ s)) d @ ''.'' @ s"
      by (metis append_take_drop_id)
    moreover from \<open>?L\<close> have "take (length d - length (''.'' @ s)) d \<noteq> []" by auto
    ultimately show ?R by blast
  qed auto
  with s show ?thesis by (auto simp: matchDomain_def wildcard_of_def Let_def)
next
  case False
  have "\<not> (length p > 2 \<and> p ! 0 = CHR ''*'' \<and> p ! 1 = CHR ''.'')"
  proof
    assume "length p > 2 \<and> p ! 0 = CHR ''*'' \<and> p ! 1 = CHR ''.''"
    then have "p = ''*.'' @ drop 2 p \<and> drop 2 p \<noteq> []"
      by (cases p; cases "tl p") auto
    with False show False by blast
  qed
  with False show ?thesis by (auto simp: matchDomain_def wildcard_of_def)
qed

interpretation rules_match: domain_matcher MatchDomain lower_trim
proof unfold_locales
  fix p d
  assume "MatchDomain p d" and nd: "hd (lower_trim d) \<noteq> CHR ''.''"
  then consider "lower_trim p = lower_trim d"
    | s pre where "s \<noteq> []" "lower_trim p = ''*.'' @ s" "lower_trim d = pre @ ''.'' @ s"
    by (auto simp: MatchDomain_iff)
  then show "lower_trim p = lower_trim d \<or> wildcard_of (lower_trim p) (lower_trim d)"
    using nd by cases (auto simp: wildcard_of_def)
qed (auto simp: MatchDomain_iff wildcard_of_def)

interpretation routing_match: domain_matcher matchDomain "\<lambda>s. s"
  by unfold_locales (auto simp: matchDomain_iff)

lemma IsDomainAllowed_iff: "IsDomainAllowed d ps \<longleftrightarrow> (\<exists>p \<in> set ps. MatchDomain p d)"
  by (induction ps) (auto simp: MatchDomain_iff)

section \<open>Properties\<close>

text \<open>
  On names that do not begin with a dot, the allow list matcher of the rule engine is the
  matcher of the routing engine after trimming and lower-casing both arguments: the two
  packages route a name the same way, whatever its case and surrounding white space.
\<close>

theorem matchers_agree:
  assumes "lower_trim p \<noteq> []" and "lower_trim d \<noteq> []" and "hd (lower_trim d) \<noteq> CHR ''.''"
  shows "MatchDomain p d = matchDomain (lower_trim p) (lower_trim d)"
proof -
  have "p \<noteq> []" "d \<noteq> []" using assms by auto
  with assms show ?thesis
    by (simp add: rules_match.matcher_iff matchDomain_iff)
qed

theorem matchers_agree_witness:
  "MatchDomain '' *.OpenAI.com'' ''API.openai.com '' = matchDomain ''*.openai.com'' ''api.openai.com''
   \<and> MatchDomain '' *.OpenAI.com'' ''API.openai.com ''"
proof -
  have p: "lower_trim '' *.OpenAI.com'' = ''*.openai.com''"
    and d: "lower_trim ''API.openai.com '' = ''api.openai.com''" by code_simp+
  have "MatchDomain '' *.OpenAI.com'' ''API.openai.com ''
      = matchDomain (lower_trim '' *.OpenAI.com'') (lower_trim ''API.openai.com '')"
    by (rule matchers_agree) (simp_all add: p d)
  moreover have "matchDomain ''*.openai.com'' ''api.openai.com''" by code_simp
  ultimately show ?thesis by (simp add: p d)
qed

text \<open>
  An allow list admits exactly the names that one of its patterns covers, a wildcard
  pattern never admits the bare domain it is written for, and enlarging a list never revokes
  an admission.
\<close>

theorem allowlist_correct:
  assumes "hd (lower_trim d) \<noteq> CHR ''.''"
  shows "(IsDomainAllowed d ps \<longleftrightarrow>
            (\<exists>p \<in> set ps. p \<noteq> [] \<and> d \<noteq> [] \<and>
               (lower_trim p = lower_trim d \<or> wildcard_of (lower_trim p) (lower_trim d))))
       \<and> ((\<forall>p \<in> set ps. lower_trim p = ''*.'' @ lower_trim d) \<longrightarrow> \<not> IsDomainAllowed d ps)
       \<and> (IsDomainAllowed d ps \<longrightarrow> IsDomainAllowed d (ps @ qs))"
  using assms rules_match.apex_not_covered
  by (auto simp: IsDomainAllowed_iff rules_match.matcher_iff)

theorem allowlist_correct_witness:
  "\<not> IsDomainAllowed ''openai.com'' [''*.OpenAI.com''] \<and>
   IsDomainAllowed ''chat.openai.com'' ([''*.OpenAI.com''] @ [''x.org''])"
proof -
  have l: "lower_trim ''openai.com'' = ''openai.com''"
    and m: "lower_trim ''chat.openai.com'' = ''chat.openai.com''"
    and w: "lower_trim ''*.OpenAI.com'' = ''*.openai.com''"
    and a: "IsDomainAllowed ''chat.openai.com'' [''*.OpenAI.com'']" by code_simp+
  show ?thesis
    using allowlist_correct [of "''openai.com''" "[''*.OpenAI.com'']" "[]"]
      allowlist_correct [of "''chat.openai.com''" "[''*.OpenAI.com'']" "[''x.org'']"] a
    by (auto simp add: l m w simp del: IsDomainAllowed.simps)
qed

end
