(* ===== verification/Decision.thy ===== *)
theory Decision
  imports Snapshot Domain_Match
begin

text \<open>
  The decision engine of \<^verbatim>\<open>processor/routing/decision_engine.go\<close>: which egress a connection takes,
  from a snapshot and the connection's domain and address. The matching of domains is in
  \<open>Domain_Match\<close>, that of addresses uses the \<^verbatim>\<open>net/netip\<close> model of \<open>Netip\<close>.
\<close>

unbundle bit_operations_syntax

section \<open>Decisions\<close>

datatype RouteDecision = RouteToAliang | RouteToSocks | RouteDirect | RouteDeny

definition RouteDecision_String :: "RouteDecision \<Rightarrow> string" where
  "RouteDecision_String r =
     (case r of RouteToAliang \<Rightarrow> ''aliang'' | RouteToSocks \<Rightarrow> ''socks''
      | RouteDirect \<Rightarrow> ''direct'' | RouteDeny \<Rightarrow> ''deny'')"

text \<open>\<^verbatim>\<open>MatchContext\<close>, without its \<^verbatim>\<open>Request\<close> map, which no code reads.\<close>

record MatchContext =
  mc_Domain :: string
  mc_IP :: string

definition matchIP :: "string \<Rightarrow> string \<Rightarrow> bool" where
  "matchIP cidr ip =
     (if cidr = [] \<or> ip = [] then False
      else (case ParsePrefix cidr of
              None \<Rightarrow> False
            | Some pfx \<Rightarrow>
                (case ParseAddr ip of
                   None \<Rightarrow> False
                 | Some ipAddr \<Rightarrow> prefix_contains pfx ipAddr)))"

text \<open>A stub in the code: it always answers no.\<close>

definition matchGeoIP :: "string \<Rightarrow> string \<Rightarrow> bool" where
  "matchGeoIP countryCode ip = (if countryCode = [] \<or> ip = [] then False else False)"

definition checkRuleBySnapshot :: "SnapshotRule \<Rightarrow> MatchContext \<Rightarrow> bool" where
  "checkRuleBySnapshot rule ctx =
     (if sr_ruleType rule = RuleTypeDomain then matchDomain (sr_condition rule) (mc_Domain ctx)
      else if sr_ruleType rule = RuleTypeIP then matchIP (sr_condition rule) (mc_IP ctx)
      else if sr_ruleType rule = RuleTypeGeoIP then matchGeoIP (sr_condition rule) (mc_IP ctx)
      else False)"

definition checkRule :: "RoutingRule option \<Rightarrow> MatchContext \<Rightarrow> bool" where
  "checkRule rule ctx =
     (case rule of None \<Rightarrow> False
      | Some r \<Rightarrow>
          if rr_Condition r = [] then False
          else if rr_Type r = RuleTypeDomain then matchDomain (rr_Condition r) (mc_Domain ctx)
          else if rr_Type r = RuleTypeIP then matchIP (rr_Condition r) (mc_IP ctx)
          else if rr_Type r = RuleTypeGeoIP then matchGeoIP (rr_Condition r) (mc_IP ctx)
          else False)"

fun checkRuleSet_loop :: "RoutingRule list \<Rightarrow> MatchContext \<Rightarrow> RouteDecision \<Rightarrow> RouteDecision option" where
  "checkRuleSet_loop [] ctx d = None"
| "checkRuleSet_loop (rule # rules) ctx d =
     (if \<not> rr_Enabled rule then checkRuleSet_loop rules ctx d
      else if checkRule (Some rule) ctx then Some d
      else checkRuleSet_loop rules ctx d)"

definition checkRuleSet :: "RoutingRuleSet option \<Rightarrow> MatchContext \<Rightarrow> RouteDecision \<Rightarrow> RouteDecision option" where
  "checkRuleSet ruleSet ctx d =
     (case ruleSet of None \<Rightarrow> None
      | Some s \<Rightarrow> if rs_Rules s = [] then None else checkRuleSet_loop (rs_Rules s) ctx d)"

definition isSnapshotActionAvailable :: "SnapshotAction \<Rightarrow> SnapshotBranchCapabilities \<Rightarrow> bool" where
  "isSnapshotActionAvailable action caps =
     (if action = SnapshotActionToAliang then cap_toAliang caps
      else if action = SnapshotActionToSocks then cap_toSocks caps
      else if action = SnapshotActionDirect then cap_direct caps
      else if action = SnapshotActionDeny then True
      else False)"

definition resolveSnapshotAction :: "RuntimeSnapshot option \<Rightarrow> SnapshotAction \<Rightarrow> RouteDecision" where
  "resolveSnapshotAction snapshot action =
     (let caps = BranchCapabilities snapshot;
          fallback = (if StrictUnavailableBranchDeny snapshot then ExplicitDenyAction snapshot
                      else SnapshotActionDirect);
          resolved =
            (if action = SnapshotActionToAliang then (if \<not> cap_toAliang caps then fallback else action)
             else if action = SnapshotActionToSocks then (if \<not> cap_toSocks caps then fallback else action)
             else if action = SnapshotActionDirect then (if \<not> cap_direct caps then fallback else action)
             else action) in
      if resolved = SnapshotActionToAliang then RouteToAliang
      else if resolved = SnapshotActionToSocks then RouteToSocks
      else if resolved = SnapshotActionDeny then RouteDeny
      else RouteDirect)"

text \<open>The rule loop: the action after it, starting from \<open>action\<close>.\<close>

fun decide_loop :: "RuntimeSnapshot option \<Rightarrow> MatchContext \<Rightarrow> SnapshotAction \<Rightarrow> SnapshotRule list \<Rightarrow> SnapshotAction" where
  "decide_loop snapshot ctx action [] = action"
| "decide_loop snapshot ctx action (rule # rules) =
     (if \<not> sr_enabled rule then decide_loop snapshot ctx action rules
      else if checkRuleBySnapshot rule ctx then
        (if isSnapshotActionAvailable (sr_target rule) (BranchCapabilities snapshot) then sr_target rule
         else if StrictUnavailableBranchDeny snapshot then ExplicitDenyAction snapshot
         else decide_loop snapshot ctx action rules)
      else decide_loop snapshot ctx action rules)"

definition DecideRouteFromSnapshot ::
  "RuntimeSnapshot option \<Rightarrow> MatchContext option \<Rightarrow> RouteDecision \<times> schema_error option" where
  "DecideRouteFromSnapshot snapshot ctx =
     (case snapshot of None \<Rightarrow> (RouteDirect, None)
      | Some s \<Rightarrow>
     (case ctx of None \<Rightarrow> (RouteDirect, None)
      | Some c \<Rightarrow>
          (resolveSnapshotAction snapshot (decide_loop snapshot c (DefaultAction snapshot) (Rules snapshot)),
           None)))"

definition DecideRoute ::
  "RoutingRulesConfig option \<Rightarrow> MatchContext option \<Rightarrow> RouteDecision \<times> schema_error option" where
  "DecideRoute cfg ctx =
     (case cfg of None \<Rightarrow> (RouteDirect, None)
      | Some c \<Rightarrow>
     (case ctx of None \<Rightarrow> (RouteDirect, None)
      | Some _ \<Rightarrow>
     (case CompileRuntimeSnapshotFromLegacyConfig (Some c) of
        Inl e \<Rightarrow> (RouteDirect, Some e)
      | Inr snapshot \<Rightarrow> DecideRouteFromSnapshot (Some snapshot) ctx)))"

section \<open>First match\<close>

text \<open>
  The specification of the rule table: the first enabled rule that matches decides. With strict
  denial a match on an unavailable branch is final; without it such a rule is skipped.
\<close>

definition deciding_rule :: "RuntimeSnapshot \<Rightarrow> MatchContext \<Rightarrow> SnapshotRule option" where
  "deciding_rule s ctx =
     find (\<lambda>r. sr_enabled r \<and> checkRuleBySnapshot r ctx \<and>
               (rs_strictDeny s \<or> isSnapshotActionAvailable (sr_target r) (rs_capabilities s)))
       (rs_rules s)"

lemmas snapshot_accessors =
  BranchCapabilities_def Rules_def DefaultAction_def ExplicitDenyAction_def
  StrictUnavailableBranchDeny_def

lemma decide_loop_find:
  "decide_loop (Some s) ctx action rules =
     (case find (\<lambda>r. sr_enabled r \<and> checkRuleBySnapshot r ctx \<and>
               (rs_strictDeny s \<or> isSnapshotActionAvailable (sr_target r) (rs_capabilities s))) rules of
        None \<Rightarrow> action
      | Some r \<Rightarrow> if isSnapshotActionAvailable (sr_target r) (rs_capabilities s) then sr_target r
                  else rs_explicitDeny s)"
  by (induction rules) (auto simp: snapshot_accessors)

lemma resolve_available:
  assumes "isSnapshotActionAvailable a (rs_capabilities s)"
  shows "resolveSnapshotAction (Some s) a =
    (if a = ''toAliang'' then RouteToAliang else if a = ''toSocks'' then RouteToSocks
     else if a = ''deny'' then RouteDeny else RouteDirect)"
  using assms
  by (auto simp: resolveSnapshotAction_def isSnapshotActionAvailable_def snapshot_accessors
        route_simps Let_def split: if_splits)

section \<open>Compiled snapshots\<close>

lemma compile_Inr:
  assumes "CompileRuntimeSnapshot (Some c) = Inr s"
  shows "schema_ok c \<and> rs_rules s = map snapshot_rule_of (cs_Rules c) \<and>
    rs_defaultAction s = (if cs_DefaultEgress c \<noteq> [] then cs_DefaultEgress c else ''direct'') \<and>
    rs_capabilities s = \<lparr>cap_direct = True, cap_toAliang = eg_ToAliang_Enabled (cs_Egress c),
                         cap_toSocks = eg_ToSocks_Enabled (cs_Egress c)\<rparr> \<and>
    rs_strictDeny s \<and> rs_explicitDeny s = ''deny'' \<and> \<not> rs_hasExplicitDeny s"
proof -
  have v: "Schema_Validate c = None"
    using assms by (cases "Schema_Validate c") (auto simp: CompileRuntimeSnapshot_def)
  then have ok: "schema_ok c" by (simp add: Schema_Validate_None)
  then have "\<not> has_deny (map snapshot_rule_of (cs_Rules c))"
    by (auto simp: has_deny_def list_ex_iff schema_ok_def list_all_iff snapshot_rule_of_def
          branch_enabled_def route_simps)
  moreover have "eg_Direct_Enabled (cs_Egress c)" using ok by (simp add: schema_ok_def)
  ultimately show ?thesis
    using assms v ok by (auto simp: CompileRuntimeSnapshot_def route_simps)
qed

lemma branch_enabled_available:
  assumes "branch_enabled eg t"
  shows "isSnapshotActionAvailable t
    \<lparr>cap_direct = True, cap_toAliang = eg_ToAliang_Enabled eg, cap_toSocks = eg_ToSocks_Enabled eg\<rparr>"
  using assms by (auto simp: branch_enabled_def isSnapshotActionAvailable_def route_simps)

definition route_of_target :: "string \<Rightarrow> RouteDecision" where
  "route_of_target t = (if t = ''toAliang'' then RouteToAliang else if t = ''toSocks'' then RouteToSocks
                        else RouteDirect)"

lemma compiled_target_enabled:
  assumes "schema_ok c"
  shows "branch_enabled (cs_Egress c)
    (case find P (map snapshot_rule_of (cs_Rules c)) of Some r \<Rightarrow> sr_target r
     | None \<Rightarrow> (if cs_DefaultEgress c \<noteq> [] then cs_DefaultEgress c else ''direct''))"
proof (cases "find P (map snapshot_rule_of (cs_Rules c))")
  case None
  then show ?thesis using assms by (auto simp: schema_ok_def branch_enabled_def)
next
  case (Some r)
  from find_SomeD [OF Some] obtain x where "x \<in> set (cs_Rules c)" "r = snapshot_rule_of x" by auto
  with Some assms show ?thesis by (simp add: schema_ok_def list_all_iff snapshot_rule_of_def)
qed

lemma route_of_target_enabled:
  assumes "branch_enabled eg t"
  shows "route_of_target t \<noteq> RouteDeny \<and> (route_of_target t = RouteToAliang \<longrightarrow> eg_ToAliang_Enabled eg) \<and>
    (route_of_target t = RouteToSocks \<longrightarrow> eg_ToSocks_Enabled eg)"
  using assms by (auto simp: route_of_target_def branch_enabled_def)

lemma compiled_decision:
  assumes "CompileRuntimeSnapshot (Some c) = Inr s"
  shows "DecideRouteFromSnapshot (Some s) (Some ctx) =
    (route_of_target
       (case find (\<lambda>r. sr_enabled r \<and> checkRuleBySnapshot r ctx) (map snapshot_rule_of (cs_Rules c)) of
          Some r \<Rightarrow> sr_target r
        | None \<Rightarrow> (if cs_DefaultEgress c \<noteq> [] then cs_DefaultEgress c else ''direct'')), None)"
proof -
  note s = compile_Inr [OF assms]
  define act where "act = decide_loop (Some s) ctx (rs_defaultAction s) (rs_rules s)"
  let ?find = "find (\<lambda>r. sr_enabled r \<and> checkRuleBySnapshot r ctx) (map snapshot_rule_of (cs_Rules c))"
  have "schema_ok c" using s by blast
  then have targets: "branch_enabled (cs_Egress c) (sr_target r)"
    if "r \<in> set (map snapshot_rule_of (cs_Rules c))" for r
    using that by (auto simp: schema_ok_def list_all_iff snapshot_rule_of_def)
  have avail: "isSnapshotActionAvailable (sr_target r) (rs_capabilities s)" if "?find = Some r" for r
    using branch_enabled_available [OF targets] find_SomeD [OF that] s by metis
  have act: "act = (case ?find of Some r \<Rightarrow> sr_target r
      | None \<Rightarrow> (if cs_DefaultEgress c \<noteq> [] then cs_DefaultEgress c else ''direct''))"
    using s avail by (auto simp: act_def decide_loop_find split: option.splits)
  have "branch_enabled (cs_Egress c) act"
    unfolding act by (rule compiled_target_enabled [OF \<open>schema_ok c\<close>])
  then have "isSnapshotActionAvailable act (rs_capabilities s) \<and> act \<noteq> ''deny''"
    using s branch_enabled_available [of "cs_Egress c" act] by (auto simp: branch_enabled_def)
  then have "resolveSnapshotAction (Some s) act = route_of_target act"
    by (auto simp: resolve_available route_of_target_def)
  then show ?thesis
    by (simp add: DecideRouteFromSnapshot_def snapshot_accessors act_def act [symmetric, unfolded act_def])
qed

section \<open>Legacy snapshots\<close>

text \<open>What a legacy rule matches once it has been compiled, whatever its target.\<close>

definition legacy_rule_matches :: "RoutingRule \<Rightarrow> MatchContext \<Rightarrow> bool" where
  "legacy_rule_matches r ctx \<longleftrightarrow> rr_Enabled r \<and>
     (let condition = ToLower (TrimSpace (rr_Condition r)); ty = ToLower (TrimSpace (rr_Type r)) in
      (ty = ''domain'' \<and> matchDomain condition (mc_Domain ctx)) \<or>
      (ty = ''ip'' \<and> matchIP condition (mc_IP ctx)))"

definition legacy_match :: "RoutingRuleSet \<Rightarrow> MatchContext \<Rightarrow> bool" where
  "legacy_match rset ctx = list_ex (\<lambda>r. legacy_rule_matches r ctx) (rs_Rules rset)"

lemma legacy_rule_sel [simp]:
  "sr_target (legacy_rule t r) = t"
  "sr_enabled (legacy_rule t r) \<and> checkRuleBySnapshot (legacy_rule t r) ctx \<longleftrightarrow> legacy_rule_matches r ctx"
  by (auto simp: legacy_rule_def checkRuleBySnapshot_def legacy_rule_matches_def matchGeoIP_def Let_def)

lemma find_legacy:
  "find (\<lambda>r. sr_enabled r \<and> checkRuleBySnapshot r ctx \<and> isSnapshotActionAvailable (sr_target r) caps)
     (map (legacy_rule t) rules @ rest) =
   (if isSnapshotActionAvailable t caps \<and> list_ex (\<lambda>r. legacy_rule_matches r ctx) rules
    then map_option (legacy_rule t) (find (\<lambda>r. legacy_rule_matches r ctx) rules)
    else find (\<lambda>r. sr_enabled r \<and> checkRuleBySnapshot r ctx \<and> isSnapshotActionAvailable (sr_target r) caps) rest)"
  by (induction rules) (auto simp flip: conj_assoc)

lemma decide_loop_legacy:
  assumes "\<not> rs_strictDeny s"
  shows "decide_loop (Some s) ctx action (map (legacy_rule t) (rs_Rules rset) @ rest) =
    (if isSnapshotActionAvailable t (rs_capabilities s) \<and> legacy_match rset ctx then t
     else decide_loop (Some s) ctx action rest)"
proof -
  obtain r where "legacy_match rset ctx \<Longrightarrow> find (\<lambda>r. legacy_rule_matches r ctx) (rs_Rules rset) = Some r"
    by (metis find_None_iff legacy_match_def list_ex_iff option.exhaust)
  then show ?thesis
    using assms by (auto simp: decide_loop_find find_legacy legacy_match_def [symmetric])
qed

section \<open>Runtime inputs\<close>

lemma dedupe_loop_mem_idem: "x \<in> set (dedupe_loop seen xs) \<Longrightarrow> ToLower (TrimSpace x) = x"
  by (auto simp: set_dedupe_loop lower_trim_def [symmetric])

lemma dedupe_loop_covered:
  "lower_trim ` set ys - {[]} \<subseteq> set seen \<Longrightarrow> dedupe_loop seen ys = []"
  by (induction ys) (auto simp: lower_trim_def Let_def)

lemma dedupe_loop_append:
  "dedupe_loop seen (xs @ ys) = dedupe_loop seen xs @ dedupe_loop (rev (dedupe_loop seen xs) @ seen) ys"
  by (induction xs arbitrary: seen) (auto simp: Let_def)

lemma collectAIDomains_eq: "collectAIDomains cfg = EffectiveAIAllowlist cfg"
proof -
  have "dedupe_loop [] (xs @ dedupe_loop [] xs) = dedupe_loop [] xs" for xs
    by (simp add: dedupe_loop_append) (rule dedupe_loop_covered, auto simp: set_dedupe_loop)
  then show ?thesis
    by (auto simp: collectAIDomains_def EffectiveAIAllowlist_def dedupeNormalizedDomains_def
          dedupeTrimmedDomains_def sortedMapKeys_def split: option.splits)
qed

lemma list_all_numbered_rules:
  "list_all (\<lambda>r. P (cr_Target r)) (numbered_rules pre t ds) \<longleftrightarrow> ds = [] \<or> P t"
  by (cases ds) (auto simp: numbered_rules_def list_all_iff)

lemma find_numbered_aux:
  "(case find (\<lambda>r. sr_enabled r \<and> checkRuleBySnapshot r ctx)
        (map snapshot_rule_of
           (map (\<lambda>(i, domain). \<lparr>cr_ID = pre @ digits_of i, cr_Type = ''domain'', cr_Condition = domain,
                                cr_Enabled = True, cr_Target = t\<rparr>) (enumerate n ds)) @ rest) of
      Some r \<Rightarrow> sr_target r | None \<Rightarrow> d) =
   (if \<exists>p \<in> set ds. matchDomain (ToLower (TrimSpace p)) (mc_Domain ctx) then t
    else (case find (\<lambda>r. sr_enabled r \<and> checkRuleBySnapshot r ctx) rest of
            Some r \<Rightarrow> sr_target r | None \<Rightarrow> d))"
proof (induction ds arbitrary: n)
  case (Cons a ds)
  have ty: "ToLower (TrimSpace ''domain'') = ''domain''" by code_simp
  show ?case
    using Cons [of "Suc n"] by (simp add: snapshot_rule_of_def checkRuleBySnapshot_def ty)
qed simp

lemmas find_numbered = find_numbered_aux [where n = 0, folded numbered_rules_def]

lemma resolveToSocks_type: "resolveToSocksUpstreamType cfg = (t, True) \<Longrightarrow> t \<in> {''http'', ''socks''}"
  by (auto simp: resolveToSocksUpstreamType_def Let_def split: option.splits if_splits)

definition socks_available :: "Config option \<Rightarrow> RulesSettings \<Rightarrow> bool" where
  "socks_available cfg switches \<longleftrightarrow> SocksEnabled switches \<and> snd (resolveToSocksUpstreamType cfg)"

definition runtime_canonical :: "Config option \<Rightarrow> RulesSettings \<Rightarrow> CanonicalRoutingSchema" where
  "runtime_canonical cfg switches =
     \<lparr>cs_Version = CanonicalRoutingSchemaVersion, cs_Ingress_Mode = ''tun'',
      cs_Egress = \<lparr>eg_Direct_Enabled = True, eg_ToAliang_Enabled = AliangEnabled switches,
                   eg_ToSocks_Enabled = socks_available cfg switches,
                   eg_ToSocks_Upstream_Type =
                     (if socks_available cfg switches then fst (resolveToSocksUpstreamType cfg) else [])\<rparr>,
      cs_Rules = numbered_rules ''ai_allowlist_'' SnapshotActionToAliang (EffectiveAIAllowlist cfg)
               @ numbered_rules ''proxy_rule_'' (resolveProxyRuleTarget (socks_available cfg switches))
                   (collectProxyRuleDomains cfg),
      cs_DefaultEgress = SnapshotActionDirect\<rparr>"

lemma compileCanonical_eq:
  "compileCanonicalRoutingFromRuntimeInputs cfg switches =
     (case Schema_Validate (runtime_canonical cfg switches) of
        Some e \<Rightarrow> Inl e | None \<Rightarrow> Inr (runtime_canonical cfg switches))"
  unfolding compileCanonicalRoutingFromRuntimeInputs_def runtime_canonical_def Let_def
    collectAIDomains_eq socks_available_def case_prod_beta
  by (rule refl)

lemma runtime_canonical_ok:
  "schema_ok (runtime_canonical cfg switches) \<longleftrightarrow> AliangEnabled switches \<or> EffectiveAIAllowlist cfg = []"
    (is "?L \<longleftrightarrow> ?R")
proof -
  let ?eg = "cs_Egress (runtime_canonical cfg switches)"
  have up: "socks_available cfg switches \<Longrightarrow> fst (resolveToSocksUpstreamType cfg) \<in> {''http'', ''socks''}"
    using resolveToSocks_type [of cfg "fst (resolveToSocksUpstreamType cfg)"]
    by (auto simp: socks_available_def prod_eq_iff)
  have proxy: "branch_enabled ?eg (resolveProxyRuleTarget (socks_available cfg switches))"
    by (simp add: runtime_canonical_def branch_enabled_def resolveProxyRuleTarget_def route_simps)
  have ai: "branch_enabled ?eg ''toAliang'' \<longleftrightarrow> AliangEnabled switches"
    by (simp add: runtime_canonical_def branch_enabled_def)
  have "list_all (\<lambda>r. branch_enabled ?eg (cr_Target r)) (cs_Rules (runtime_canonical cfg switches)) \<longleftrightarrow> ?R"
    using proxy ai list_all_numbered_rules [where P = "branch_enabled ?eg"]
    by (auto simp: runtime_canonical_def route_simps)
  then show ?thesis
    using up by (auto simp: schema_ok_def runtime_canonical_def branch_enabled_def route_simps)
qed

section \<open>CIDR matching\<close>

lemma ParsePrefix_string4:
  assumes "n \<le> 32"
  shows "ParsePrefix (string4 w @ ''/'' @ digits_of n) = Some (Prefix (Addr4 w) n)"
proof -
  have nd: "\<forall>c \<in> set (digits_of n). c \<noteq> CHR ''/''"
    using digits_of_no_sep [of "CHR ''/''" n] by (auto simp: is_digit_def)
  have "takeWhile (\<lambda>c. c \<noteq> CHR ''/'') (rev (string4 w @ ''/'' @ digits_of n)) = rev (digits_of n)"
    using nd by (simp add: takeWhile_append)
  then show ?thesis
    using assms hd_digits_of [of n]
    by (auto simp: ParsePrefix_def ParseAddr_string4 all_digits_digits_of Let_def)
qed

lemma string4_not_Nil [simp]: "string4 w \<noteq> []"
  by (simp add: string4_def)

section \<open>Properties\<close>

text \<open>
  C1. The rule loop is first match: a decision is the target of the first enabled matching rule
  (of the first one whose branch is available, when strict denial is off), a strict snapshot
  answers an unavailable match with its deny action, and only without any deciding rule the
  default action is taken; no decision returns an error.
\<close>

theorem decision_first_match:
  "DecideRouteFromSnapshot (Some s) (Some ctx) =
     (resolveSnapshotAction (Some s)
        (case deciding_rule s ctx of
           None \<Rightarrow> rs_defaultAction s
         | Some r \<Rightarrow> if isSnapshotActionAvailable (sr_target r) (rs_capabilities s) then sr_target r
                     else rs_explicitDeny s), None)"
  by (simp add: DecideRouteFromSnapshot_def snapshot_accessors decide_loop_find deciding_rule_def)

text \<open>
  C2. A snapshot compiled from a canonical schema routes by plain first match: the first enabled
  matching rule of the schema decides, otherwise its default egress. It never denies, never picks
  a branch the schema has disabled, and carries no deny rule.
\<close>

theorem compiled_schema_decision:
  assumes "CompileRuntimeSnapshot (Some c) = Inr s"
  shows "DecideRouteFromSnapshot (Some s) (Some ctx) =
      (route_of_target
         (case find (\<lambda>r. sr_enabled r \<and> checkRuleBySnapshot r ctx) (map snapshot_rule_of (cs_Rules c)) of
            Some r \<Rightarrow> sr_target r
          | None \<Rightarrow> (if cs_DefaultEgress c \<noteq> [] then cs_DefaultEgress c else ''direct'')), None) \<and>
    fst (DecideRouteFromSnapshot (Some s) (Some ctx)) \<noteq> RouteDeny \<and>
    (fst (DecideRouteFromSnapshot (Some s) (Some ctx)) = RouteToAliang \<longrightarrow> eg_ToAliang_Enabled (cs_Egress c)) \<and>
    (fst (DecideRouteFromSnapshot (Some s) (Some ctx)) = RouteToSocks \<longrightarrow> eg_ToSocks_Enabled (cs_Egress c)) \<and>
    \<not> HasExplicitDenyRule (Some s)"
proof -
  let ?t = "case find (\<lambda>r. sr_enabled r \<and> checkRuleBySnapshot r ctx) (map snapshot_rule_of (cs_Rules c)) of
      Some r \<Rightarrow> sr_target r
    | None \<Rightarrow> (if cs_DefaultEgress c \<noteq> [] then cs_DefaultEgress c else ''direct'')"
  note d = compiled_decision [OF assms, of ctx]
  have "branch_enabled (cs_Egress c) ?t"
    using compile_Inr [OF assms] by (intro compiled_target_enabled) blast
  from route_of_target_enabled [OF this] have
    "route_of_target ?t \<noteq> RouteDeny" "route_of_target ?t = RouteToAliang \<longrightarrow> eg_ToAliang_Enabled (cs_Egress c)"
    "route_of_target ?t = RouteToSocks \<longrightarrow> eg_ToSocks_Enabled (cs_Egress c)" by blast+
  moreover have "\<not> HasExplicitDenyRule (Some s)"
    using compile_Inr [OF assms] by (simp add: HasExplicitDenyRule_def)
  ultimately show ?thesis
    unfolding d fst_conv by (intro conjI refl)
qed

lemma legacy_decision:
  "DecideRoute (Some cfg) (Some ctx) =
     (if AliangEnabled (rc_Settings cfg) \<and> legacy_match (rc_Aliang cfg) ctx then RouteToAliang
      else if SocksEnabled (rc_Settings cfg) \<and> legacy_match (rc_ToSocks cfg) ctx then RouteToSocks
      else RouteDirect, None)"
proof -
  have last: "decide_loop (Some s) ctx a (map (legacy_rule t) (rs_Rules rset)) =
      (if isSnapshotActionAvailable t (rs_capabilities s) \<and> legacy_match rset ctx then t else a)"
    if "\<not> rs_strictDeny s" for s a t rset
    using decide_loop_legacy [OF that, where rest = "[]"] by simp
  show ?thesis
    by (simp add: DecideRoute_def CompileRuntimeSnapshotFromLegacyConfig_def Let_def
        DecideRouteFromSnapshot_def Rules_def DefaultAction_def decide_loop_legacy last
        isSnapshotActionAvailable_def resolveSnapshotAction_def BranchCapabilities_def
        StrictUnavailableBranchDeny_def action_defs)
qed

text \<open>A configuration whose geoip rules are removed, with the GeoIP switch in any position.\<close>

definition drop_geoip :: "RoutingRuleSet \<Rightarrow> RoutingRuleSet" where
  "drop_geoip rset = rset\<lparr>rs_Rules := filter (\<lambda>r. ToLower (TrimSpace (rr_Type r)) \<noteq> ''geoip'') (rs_Rules rset)\<rparr>"

definition without_geoip :: "bool \<Rightarrow> RoutingRulesConfig \<Rightarrow> RoutingRulesConfig" where
  "without_geoip g cfg = cfg\<lparr>rc_Aliang := drop_geoip (rc_Aliang cfg), rc_ToSocks := drop_geoip (rc_ToSocks cfg),
     rc_Settings := (rc_Settings cfg)\<lparr>GeoIPEnabled := g\<rparr>\<rparr>"

lemma legacy_match_geoip: "legacy_match (drop_geoip rset) ctx = legacy_match rset ctx"
  by (auto simp: legacy_match_def drop_geoip_def legacy_rule_matches_def list_ex_iff Let_def)

text \<open>
  C4. The legacy rule sets as the code tries them: a connection goes to Aliang exactly when that
  switch is on and an enabled domain or IP rule of the Aliang set matches, otherwise to SOCKS exactly
  when that switch is on and an enabled domain or IP rule of the SOCKS set matches, and is direct in
  every other case. A set whose switch is off is skipped, not denied. Rules of type geoip, for
  which the comment on the function documents a level of their own, decide nothing: the
  decision is the same when all of them are removed, whatever the GeoIP switch.
\<close>

theorem legacy_priority:
  "DecideRoute (Some cfg) (Some ctx) =
     (if AliangEnabled (rc_Settings cfg) \<and> legacy_match (rc_Aliang cfg) ctx then RouteToAliang
      else if SocksEnabled (rc_Settings cfg) \<and> legacy_match (rc_ToSocks cfg) ctx then RouteToSocks
      else RouteDirect, None) \<and>
   DecideRoute (Some (without_geoip g cfg)) (Some ctx) = DecideRoute (Some cfg) (Some ctx)"
  unfolding legacy_decision by (simp add: without_geoip_def legacy_match_geoip)

lemma runtime_compile_fact:
  "(\<exists>e. CompileRuntimeSnapshotFromRuntimeInputs cfg switches = Inl e) \<longleftrightarrow>
     \<not> AliangEnabled switches \<and> EffectiveAIAllowlist cfg \<noteq> []"
  using runtime_canonical_ok [of cfg switches]
  by (auto simp: CompileRuntimeSnapshotFromRuntimeInputs_def compileCanonical_eq
      CompileRuntimeSnapshot_def Schema_Validate_None [symmetric] Let_def split: option.splits)

text \<open>
  C5. Compiling a snapshot from the live configuration fails in exactly one case: the Aliang
  switch is off while the effective allowlist, the domains of the enabled AI providers, is not
  empty.
\<close>

theorem runtime_compile_fails_iff:
  "(\<exists>e. CompileRuntimeSnapshotFromRuntimeInputs cfg switches = Inl e) \<longleftrightarrow>
     \<not> AliangEnabled switches \<and> EffectiveAIAllowlist cfg \<noteq> []"
  by (rule runtime_compile_fact)

lemma runtime_routing_fact:
  assumes "CompileRuntimeSnapshotFromRuntimeInputs cfg switches = Inr s"
  shows "DecideRouteFromSnapshot (Some s) (Some ctx) =
    (if \<exists>p \<in> set (EffectiveAIAllowlist cfg). matchDomain p (mc_Domain ctx) then RouteToAliang
     else if socks_available cfg switches \<and>
             (\<exists>p \<in> set (collectProxyRuleDomains cfg). matchDomain p (mc_Domain ctx)) then RouteToSocks
     else RouteDirect, None)"
proof -
  have comp: "CompileRuntimeSnapshot (Some (runtime_canonical cfg switches)) = Inr s"
    using assms
    by (auto simp: CompileRuntimeSnapshotFromRuntimeInputs_def compileCanonical_eq split: option.splits)
  have "ToLower (TrimSpace p) = p" if "p \<in> set (EffectiveAIAllowlist cfg) \<union> set (collectProxyRuleDomains cfg)" for p
    using that
    by (auto simp: EffectiveAIAllowlist_def dedupeTrimmedDomains_def collectProxyRuleDomains_def
        dedupeNormalizedDomains_def dedupe_loop_mem_idem split: option.splits if_splits)
  then have norm: "(\<exists>p \<in> set (EffectiveAIAllowlist cfg). matchDomain (ToLower (TrimSpace p)) d) \<longleftrightarrow>
        (\<exists>p \<in> set (EffectiveAIAllowlist cfg). matchDomain p d)"
      "(\<exists>p \<in> set (collectProxyRuleDomains cfg). matchDomain (ToLower (TrimSpace p)) d) \<longleftrightarrow>
        (\<exists>p \<in> set (collectProxyRuleDomains cfg). matchDomain p d)" for d
    by auto
  have last: "(case find (\<lambda>r. sr_enabled r \<and> checkRuleBySnapshot r ctx)
        (map snapshot_rule_of (numbered_rules pre t ds)) of Some r \<Rightarrow> sr_target r | None \<Rightarrow> d) =
     (if \<exists>p \<in> set ds. matchDomain (ToLower (TrimSpace p)) (mc_Domain ctx) then t else d)" for pre t ds d
    using find_numbered [where rest = "[]"] by simp
  show ?thesis
    unfolding compiled_decision [OF comp]
    by (auto simp: runtime_canonical_def find_numbered last norm action_defs
        resolveProxyRuleTarget_def route_of_target_def)
qed

text \<open>
  IPv4 rules: the text of a prefix \<open>p/n\<close> matches the text of an address exactly when the two
  agree in their first \<open>n\<close> bits.
\<close>

theorem cidr_match_exact:
  assumes "n \<le> 32"
  shows "matchIP (string4 p @ ''/'' @ digits_of n) (string4 a) \<longleftrightarrow> drop_bit (32 - n) a = drop_bit (32 - n) p"
proof -
  have "drop_bit (32 - n) (a XOR p) = 0 \<longleftrightarrow> drop_bit (32 - n) a = drop_bit (32 - n) p"
    by (auto simp: bit_eq_iff bit_xor_iff drop_bit_xor)
  then show ?thesis
    using ParsePrefix_string4 [OF assms, of p] by (simp add: matchIP_def ParseAddr_string4)
qed

theorem cidr_match_exact_witness:
  "(8::nat) \<le> 32 \<and> matchIP (string4 0x0A000000 @ ''/'' @ digits_of 8) (string4 0x0A010203)"
proof -
  have "drop_bit (32 - 8) (0x0A010203 :: 32 word) = drop_bit (32 - 8) 0x0A000000" by code_simp
  then show ?thesis using cidr_match_exact [of 8 "0x0A000000" "0x0A010203"] by simp
qed

text \<open>A configuration and switches on which the compilers are exercised.\<close>

definition example_switches :: RulesSettings where
  "example_switches = \<lparr>AliangEnabled = True, SocksEnabled = True, GeoIPEnabled = False,
     AutoUpdate = True, rset_UpdatedAt = 0, LastNacosSync = 0\<rparr>"

definition example_schema :: CanonicalRoutingSchema where
  "example_schema = runtime_canonical (Some example_config) example_switches"

theorem compiled_schema_decision_witness:
  "\<exists>s. CompileRuntimeSnapshot (Some example_schema) = Inr s \<and>
     fst (DecideRouteFromSnapshot (Some s) (Some \<lparr>mc_Domain = ''x.org'', mc_IP = []\<rparr>)) \<noteq> RouteDeny"
proof -
  have "\<not> isl (CompileRuntimeSnapshot (Some example_schema))" by code_simp
  then obtain s where s: "CompileRuntimeSnapshot (Some example_schema) = Inr s"
    by (metis sum.collapse(2))
  then show ?thesis using compiled_schema_decision [OF s] by blast
qed

section \<open>A rule that passes validation and never matches\<close>

text \<open>
  \<^verbatim>\<open>isValidCIDR\<close> accepts a prefix length with a leading zero, which \<^verbatim>\<open>netip.ParsePrefix\<close> rejects.
\<close>

lemma padded_cidr_never_matches:
  assumes "n \<le> 32"
  shows "isValidCIDR (string4 w @ ''/0'' @ digits_of n) \<and> \<not> matchIP (string4 w @ ''/0'' @ digits_of n) ip"
proof -
  have nd: "CHR ''/'' \<notin> set (digits_of k)" for k
    by (rule digits_of_no_sep) (simp add: is_digit_def)
  have "takeWhile (\<lambda>c. c \<noteq> CHR ''/'') (rev (string4 w @ ''/0'' @ digits_of n)) = rev (CHR ''0'' # digits_of n)"
    using nd [of n] by (subst rev_append) (auto simp: takeWhile_append)
  then have "ParsePrefix (string4 w @ ''/0'' @ digits_of n) = None"
    using all_digits_digits_of [of n]
    by (auto simp: ParsePrefix_def ParseAddr_string4 Let_def)
  moreover have "CHR ''/'' \<notin> set (string4 w)" using nd by (simp add: string4_def)
  then have "Cut (string4 w @ CHR ''/'' # CHR ''0'' # digits_of n) (CHR ''/'') =
      (string4 w, CHR ''0'' # digits_of n, True)"
    by (simp add: Cut_append)
  moreover have "all_digits (CHR ''0'' # digits_of n)" "dec_value 0 (CHR ''0'' # digits_of n) = n"
    using all_digits_digits_of [of n] by (simp_all add: all_digits_def is_digit_def)
  ultimately show ?thesis
    using assms by (simp add: matchIP_def isValidCIDR_def ParseAddr_string4)
qed

end
