(* ===== verification/IP_Domain_Cache.thy ===== *)
theory IP_Domain_Cache
  imports Decision "HOL-Library.AList"
begin

text \<open>
  The IP and domain cache of \<^verbatim>\<open>processor/cache/ipdomain.go\<close> and \<^verbatim>\<open>types.go\<close>. Cache entries are
  shared by pointer (the rule engine stores one entry under two keys), so they live in a heap, a
  list indexed by the pointer; the elements of \<^verbatim>\<open>container/list\<close> live in a second one, since an
  element keeps its value when it is taken off the list. A Go map is an association list with
  distinct keys. Each operation reads the clock once and takes that reading as \<open>now\<close>; every
  method holds the lock throughout, so a history of calls is a sequence of operations.
\<close>

section \<open>State\<close>

type_synonym ptr = nat
type_synonym elem = nat

record CacheEntry =
  ce_Domain :: string
  ce_IP :: Addr
  ce_Route :: RouteDecision
  ce_BindingSources :: "string list"
  ce_ExpiresAt :: time
  ce_CreatedAt :: time
  ce_HitCount :: uint64

record cacheItem =
  ci_key :: string
  ci_entry :: ptr

record IPDomainCache =
  ic_heap :: "CacheEntry list"
  ic_elems :: "cacheItem list"
  ic_entries :: "(string \<times> elem) list"
  ic_ipIndex :: "(string \<times> ptr list) list"
  ic_lru :: "elem list"
  ic_maxEntries :: int
  ic_defaultTTL :: duration
  ic_hits :: uint64
  ic_misses :: uint64
  ic_evictions :: uint64

abbreviation entry_at :: "IPDomainCache \<Rightarrow> ptr \<Rightarrow> CacheEntry" where
  "entry_at c p \<equiv> ic_heap c ! p"

abbreviation item_at :: "IPDomainCache \<Rightarrow> elem \<Rightarrow> cacheItem" where
  "item_at c e \<equiv> ic_elems c ! e"

definition IsExpired :: "time \<Rightarrow> CacheEntry \<Rightarrow> bool" where
  "IsExpired now e = (now > ce_ExpiresAt e)"

definition TimeToLive :: "time \<Rightarrow> CacheEntry \<Rightarrow> duration" where
  "TimeToLive now e = ce_ExpiresAt e - now"

definition NewIPDomainCache :: "int \<Rightarrow> duration \<Rightarrow> IPDomainCache" where
  "NewIPDomainCache maxEntries ttl =
     \<lparr>ic_heap = [], ic_elems = [], ic_entries = [], ic_ipIndex = [], ic_lru = [],
      ic_maxEntries = maxEntries, ic_defaultTTL = ttl, ic_hits = 0, ic_misses = 0, ic_evictions = 0\<rparr>"

text \<open>A caller's \<^verbatim>\<open>&CacheEntry{...}\<close>.\<close>

definition new_entry :: "CacheEntry \<Rightarrow> IPDomainCache \<Rightarrow> IPDomainCache \<times> ptr" where
  "new_entry e c = (c\<lparr>ic_heap := ic_heap c @ [e]\<rparr>, length (ic_heap c))"

text \<open>\<^verbatim>\<open>container/list\<close>: moving or removing an element that is not on the list does nothing.\<close>

definition MoveToFront :: "elem \<Rightarrow> elem list \<Rightarrow> elem list" where
  "MoveToFront e l = (if e \<in> set l then e # remove1 e l else l)"

section \<open>The reverse index\<close>

definition index_of :: "IPDomainCache \<Rightarrow> string \<Rightarrow> ptr list" where
  "index_of c ip = (case map_of (ic_ipIndex c) ip of None \<Rightarrow> [] | Some ps \<Rightarrow> ps)"

definition updateIPIndex :: "ptr \<Rightarrow> IPDomainCache \<Rightarrow> IPDomainCache" where
  "updateIPIndex p c =
     (let ipStr = addr_String (ce_IP (entry_at c p));
          newEntries = filter (\<lambda>q. ce_Domain (entry_at c q) \<noteq> ce_Domain (entry_at c p)) (index_of c ipStr) in
      c\<lparr>ic_ipIndex := AList.update ipStr (newEntries @ [p]) (ic_ipIndex c)\<rparr>)"

definition removeFromIPIndex :: "ptr \<Rightarrow> IPDomainCache \<Rightarrow> IPDomainCache" where
  "removeFromIPIndex p c =
     (let ipStr = addr_String (ce_IP (entry_at c p));
          newEntries = filter (\<lambda>q. ce_Domain (entry_at c q) \<noteq> ce_Domain (entry_at c p)) (index_of c ipStr) in
      c\<lparr>ic_ipIndex := (if newEntries = [] then AList.delete ipStr (ic_ipIndex c)
                       else AList.update ipStr newEntries (ic_ipIndex c))\<rparr>)"

section \<open>Operations\<close>

definition unlink :: "string \<Rightarrow> elem \<Rightarrow> IPDomainCache \<Rightarrow> IPDomainCache" where
  "unlink key e c = c\<lparr>ic_lru := remove1 e (ic_lru c), ic_entries := AList.delete key (ic_entries c)\<rparr>"

definition Get :: "time \<Rightarrow> string \<Rightarrow> IPDomainCache \<Rightarrow> IPDomainCache \<times> ptr option" where
  "Get now key c =
     (case map_of (ic_entries c) key of
        None \<Rightarrow> (c\<lparr>ic_misses := ic_misses c + 1\<rparr>, None)
      | Some elem \<Rightarrow>
          let p = ci_entry (item_at c elem) in
          if IsExpired now (entry_at c p) then
            ((unlink key elem c)\<lparr>ic_misses := ic_misses c + 1\<rparr>, None)
          else
            (c\<lparr>ic_lru := MoveToFront elem (ic_lru c), ic_hits := ic_hits c + 1,
               ic_heap := (ic_heap c)[p := (entry_at c p)\<lparr>ce_HitCount := ce_HitCount (entry_at c p) + 1\<rparr>]\<rparr>,
             Some p))"

definition evictOldest :: "IPDomainCache \<Rightarrow> IPDomainCache" where
  "evictOldest c =
     (if ic_lru c = [] then c
      else let e = last (ic_lru c); item = item_at c e in
           (removeFromIPIndex (ci_entry item) (unlink (ci_key item) e c))
             \<lparr>ic_evictions := ic_evictions c + 1\<rparr>)"

definition push_entry :: "string \<Rightarrow> ptr \<Rightarrow> IPDomainCache \<Rightarrow> IPDomainCache" where
  "push_entry key p c =
     (let item = \<lparr>ci_key = key, ci_entry = p\<rparr>; elem = length (ic_elems c) in
      c\<lparr>ic_elems := ic_elems c @ [item], ic_lru := elem # ic_lru c,
        ic_entries := AList.update key elem (ic_entries c)\<rparr>)"

definition stamp :: "time \<Rightarrow> duration \<Rightarrow> CacheEntry \<Rightarrow> CacheEntry" where
  "stamp now ttl e =
     e\<lparr>ce_ExpiresAt := (if ce_ExpiresAt e = 0 then now + ttl else ce_ExpiresAt e),
       ce_CreatedAt := (if ce_CreatedAt e = 0 then now else ce_CreatedAt e)\<rparr>"

definition Set :: "time \<Rightarrow> string \<Rightarrow> ptr \<Rightarrow> IPDomainCache \<Rightarrow> IPDomainCache" where
  "Set now key p c0 =
     (let c = c0\<lparr>ic_heap := (ic_heap c0)[p := stamp now (ic_defaultTTL c0) (entry_at c0 p)]\<rparr> in
      case map_of (ic_entries c) key of
        Some elem \<Rightarrow>
          updateIPIndex p
            (c\<lparr>ic_lru := MoveToFront elem (ic_lru c),
               ic_elems := (ic_elems c)[elem := (item_at c elem)\<lparr>ci_entry := p\<rparr>]\<rparr>)
      | None \<Rightarrow>
          let c1 = (if int (length (ic_lru c)) \<ge> ic_maxEntries c then evictOldest c else c) in
          updateIPIndex p (push_entry key p c1))"

definition SetWithTTL :: "time \<Rightarrow> string \<Rightarrow> ptr \<Rightarrow> duration \<Rightarrow> IPDomainCache \<Rightarrow> IPDomainCache" where
  "SetWithTTL now key p ttl c =
     Set now key p (c\<lparr>ic_heap := (ic_heap c)[p := (entry_at c p)\<lparr>ce_ExpiresAt := now + ttl\<rparr>]\<rparr>)"

definition Delete :: "string \<Rightarrow> IPDomainCache \<Rightarrow> IPDomainCache \<times> bool" where
  "Delete key c =
     (case map_of (ic_entries c) key of
        None \<Rightarrow> (c, False)
      | Some elem \<Rightarrow> (removeFromIPIndex (ci_entry (item_at c elem)) (unlink key elem c), True))"

text \<open>The second loop of \<^verbatim>\<open>cleanup\<close>: the collected keys, in the order they were collected.\<close>

fun cleanup_loop :: "string list \<Rightarrow> IPDomainCache \<Rightarrow> IPDomainCache" where
  "cleanup_loop [] c = c"
| "cleanup_loop (key # keys) c =
     (case map_of (ic_entries c) key of
        None \<Rightarrow> cleanup_loop keys c
      | Some elem \<Rightarrow> cleanup_loop keys (unlink key elem c))"

definition cleanup :: "time \<Rightarrow> IPDomainCache \<Rightarrow> IPDomainCache" where
  "cleanup now c =
     (let toDelete = map fst (filter (\<lambda>(key, elem). now > ce_ExpiresAt (entry_at c (ci_entry (item_at c elem))))
                       (ic_entries c)) in
      cleanup_loop toDelete c)"

definition GetByDomain :: "time \<Rightarrow> string \<Rightarrow> IPDomainCache \<Rightarrow> IPDomainCache \<times> ptr option" where
  "GetByDomain now domain c = Get now domain c"

definition GetByIP :: "time \<Rightarrow> Addr \<Rightarrow> IPDomainCache \<Rightarrow> ptr list" where
  "GetByIP now ip c =
     (case map_of (ic_ipIndex c) (addr_String ip) of
        None \<Rightarrow> []
      | Some ps \<Rightarrow> filter (\<lambda>p. \<not> IsExpired now (entry_at c p)) ps)"

definition Cache_Clear :: "IPDomainCache \<Rightarrow> IPDomainCache" where
  "Cache_Clear c = c\<lparr>ic_entries := [], ic_ipIndex := [], ic_lru := [], ic_hits := 0, ic_misses := 0,
     ic_evictions := 0\<rparr>"

definition Cache_Size :: "IPDomainCache \<Rightarrow> nat" where
  "Cache_Size c = length (ic_lru c)"

definition MaxSize :: "IPDomainCache \<Rightarrow> int" where
  "MaxSize c = ic_maxEntries c"

definition GetDefaultTTL :: "IPDomainCache \<Rightarrow> duration" where
  "GetDefaultTTL c = ic_defaultTTL c"

definition SetDefaultTTL :: "duration \<Rightarrow> IPDomainCache \<Rightarrow> IPDomainCache" where
  "SetDefaultTTL ttl c = c\<lparr>ic_defaultTTL := ttl\<rparr>"

section \<open>Statistics\<close>

record IPStatistics =
  is_IP :: Addr
  AssociatedDomains :: "string list"
  is_HitCount :: uint64
  SourceCount :: nat
  FirstSeen :: time
  LastSeen :: time
  IsHotspot :: bool

definition min_seen :: "time \<Rightarrow> time \<Rightarrow> time" where
  "min_seen acc t = (if acc = 0 \<or> t < acc then t else acc)"

definition max_seen :: "time \<Rightarrow> time \<Rightarrow> time" where
  "max_seen acc t = (if t > acc then t else acc)"

definition GetIPStatistics :: "time \<Rightarrow> Addr \<Rightarrow> IPDomainCache \<Rightarrow> IPStatistics option" where
  "GetIPStatistics now ip c =
     (let es = map (entry_at c) (index_of c (addr_String ip));
          live = filter (\<lambda>e. \<not> IsExpired now e) es;
          hitCount = sum_list (map ce_HitCount live) in
      if es = [] then None
      else Some \<lparr>is_IP = ip, AssociatedDomains = map ce_Domain live, is_HitCount = hitCount,
                 SourceCount = length (remdups (concat (map ce_BindingSources live))),
                 FirstSeen = fold (\<lambda>e acc. min_seen acc (ce_CreatedAt e)) live 0,
                 LastSeen = fold (\<lambda>e acc. max_seen acc (ce_CreatedAt e)) live 0,
                 IsHotspot = (hitCount > 100)\<rparr>)"

text \<open>One round of the exchange sort: the first slot against every later slot.\<close>

fun exchange_round :: "IPStatistics \<Rightarrow> IPStatistics list \<Rightarrow> IPStatistics \<times> IPStatistics list" where
  "exchange_round x [] = (x, [])"
| "exchange_round x (y # ys) =
     (if is_HitCount y > is_HitCount x
      then (case exchange_round y ys of (m, r) \<Rightarrow> (m, x # r))
      else (case exchange_round x ys of (m, r) \<Rightarrow> (m, y # r)))"

lemma exchange_round_length: "exchange_round x ys = (m, r) \<Longrightarrow> length r = length ys"
  by (induction ys arbitrary: x m r) (auto split: if_splits prod.splits)

function exchange_sort :: "IPStatistics list \<Rightarrow> IPStatistics list" where
  "exchange_sort [] = []"
| "exchange_sort (x # xs) = (case exchange_round x xs of (m, r) \<Rightarrow> m # exchange_sort r)"
  by pat_completeness auto
termination
  by (relation "measure length") (auto dest: exchange_round_length [OF sym])

definition hotspot_stat :: "time \<Rightarrow> IPDomainCache \<Rightarrow> string \<times> ptr list \<Rightarrow> IPStatistics option" where
  "hotspot_stat now c kv =
     (case kv of (ipStr, ps) \<Rightarrow>
        let live = filter (\<lambda>e. \<not> IsExpired now e) (map (entry_at c) ps);
            hitCount = sum_list (map ce_HitCount live) in
        if ps = [] then None
        else if hitCount > 100 then
          Some \<lparr>is_IP = (case ParseAddr ipStr of Some a \<Rightarrow> a | None \<Rightarrow> AddrZero),
                AssociatedDomains = map ce_Domain live, is_HitCount = hitCount, SourceCount = 0,
                FirstSeen = 0, LastSeen = 0, IsHotspot = True\<rparr>
        else None)"

text \<open>A negative limit makes the final slice expression panic: the result \<open>None\<close>.\<close>

definition GetHotspotIPs :: "time \<Rightarrow> int \<Rightarrow> IPDomainCache \<Rightarrow> IPStatistics list option" where
  "GetHotspotIPs now limit c =
     (let stats = exchange_sort (List.map_filter (hotspot_stat now c) (ic_ipIndex c)) in
      if int (length stats) > limit then
        (if limit < 0 then None else Some (take (nat limit) stats))
      else Some stats)"

text \<open>The \<open>seen\<close> set of \<^verbatim>\<open>GetAll\<close> holds keys of a map and never filters anything out.\<close>

definition GetAll :: "time \<Rightarrow> IPDomainCache \<Rightarrow> ptr list" where
  "GetAll now c =
     map (\<lambda>(key, elem). ci_entry (item_at c elem))
       (filter (\<lambda>(key, elem). \<not> now > ce_ExpiresAt (entry_at c (ci_entry (item_at c elem)))) (ic_entries c))"

record cache_stats =
  cs_size :: nat
  cs_maxEntries :: int
  cs_hits :: uint64
  cs_misses :: uint64
  cs_evictions :: uint64
  cs_totalLookups :: uint64
  cs_uniqueDomains :: nat
  cs_uniqueIPs :: nat

text \<open>\<^verbatim>\<open>Stats\<close> without the floating-point hit rate.\<close>

definition Stats :: "time \<Rightarrow> IPDomainCache \<Rightarrow> cache_stats" where
  "Stats now c =
     \<lparr>cs_size = length (ic_lru c), cs_maxEntries = ic_maxEntries c, cs_hits = ic_hits c,
      cs_misses = ic_misses c, cs_evictions = ic_evictions c,
      cs_totalLookups = ic_hits c + ic_misses c,
      cs_uniqueDomains =
        length (remdups (map ce_Domain
          (filter (\<lambda>e. \<not> IsExpired now e)
            (map (\<lambda>(key, elem). entry_at c (ci_entry (item_at c elem))) (ic_entries c))))),
      cs_uniqueIPs = length (ic_ipIndex c)\<rparr>"

end
