(* ===== verification/Cache_Invariant.thy ===== *)
theory Cache_Invariant
  imports IP_Domain_Cache
begin

text \<open>
  What the IP and domain cache promises: the map and the recency list describe the same bindings,
  the size stays within the bound, the recency list implements an abstract least-recently-used
  table, and the reverse index only lists entries of the address it is asked about.
\<close>

section \<open>The invariant\<close>

definition cache_inv :: "IPDomainCache \<Rightarrow> bool" where
  "cache_inv c \<longleftrightarrow>
     distinct (ic_lru c) \<and>
     (\<forall>e \<in> set (ic_lru c). e < length (ic_elems c) \<and> ci_entry (item_at c e) < length (ic_heap c)) \<and>
     distinct (map fst (ic_entries c)) \<and>
     set (ic_entries c) = (\<lambda>e. (ci_key (item_at c e), e)) ` set (ic_lru c) \<and>
     int (length (ic_lru c)) \<le> max 1 (ic_maxEntries c)"

definition index_inv :: "IPDomainCache \<Rightarrow> bool" where
  "index_inv c \<longleftrightarrow>
     distinct (map fst (ic_ipIndex c)) \<and>
     (\<forall>(ip, ps) \<in> set (ic_ipIndex c). ps \<noteq> [] \<and> distinct (map (\<lambda>p. ce_Domain (entry_at c p)) ps) \<and>
        (\<forall>p \<in> set ps. p < length (ic_heap c) \<and> addr_String (ce_IP (entry_at c p)) = ip))"

text \<open>The table the recency list stands for, most recent binding first.\<close>

definition table :: "IPDomainCache \<Rightarrow> (string \<times> ptr) list" where
  "table c = map (\<lambda>e. (ci_key (item_at c e), ci_entry (item_at c e))) (ic_lru c)"

lemma cache_lookup:
  assumes "cache_inv c"
  shows "map_of (ic_entries c) k = Some e \<longleftrightarrow> e \<in> set (ic_lru c) \<and> ci_key (item_at c e) = k"
proof -
  have "map_of (ic_entries c) k = Some e \<longleftrightarrow> (k, e) \<in> set (ic_entries c)"
    using assms by (simp add: cache_inv_def)
  also have "\<dots> \<longleftrightarrow> e \<in> set (ic_lru c) \<and> ci_key (item_at c e) = k"
    using assms by (auto simp: cache_inv_def)
  finally show ?thesis .
qed

lemma keys_inj:
  assumes "cache_inv c" "e \<in> set (ic_lru c)" "f \<in> set (ic_lru c)"
    "ci_key (item_at c e) = ci_key (item_at c f)"
  shows "e = f"
  using cache_lookup [OF assms(1), of "ci_key (item_at c f)"] assms by (metis option.inject)

lemma lookup_None:
  assumes "cache_inv c"
  shows "map_of (ic_entries c) k = None \<longleftrightarrow> (\<forall>e \<in> set (ic_lru c). ci_key (item_at c e) \<noteq> k)"
  using cache_lookup [OF assms, of k] by (cases "map_of (ic_entries c) k") auto

lemma distinct_keys:
  assumes "cache_inv c"
  shows "distinct (map fst (table c))"
proof -
  have "inj_on (\<lambda>e. ci_key (item_at c e)) (set (ic_lru c))"
    by (rule inj_onI) (rule keys_inj [OF assms])
  then show ?thesis
    using assms by (simp add: table_def cache_inv_def distinct_map comp_def)
qed

lemma table_lookup:
  assumes "cache_inv c"
  shows "map_of (table c) k = map_option (\<lambda>e. ci_entry (item_at c e)) (map_of (ic_entries c) k)"
proof (cases "map_of (ic_entries c) k")
  case None
  then have "k \<notin> fst ` set (table c)"
    using lookup_None [OF assms, of k] by (auto simp: table_def)
  with None show ?thesis by (simp add: map_of_eq_None_iff [symmetric])
next
  case (Some e)
  then have "(k, ci_entry (item_at c e)) \<in> set (table c)"
    using cache_lookup [OF assms, of k e] by (auto simp: table_def)
  with Some show ?thesis by (simp add: map_of_is_SomeI [OF distinct_keys [OF assms]])
qed

section \<open>The building blocks\<close>

lemma delete_filter: "AList.delete k xs = filter (\<lambda>x. fst x \<noteq> k) xs"
  by (induction xs) auto

lemma unlink_inv:
  assumes "cache_inv c" "map_of (ic_entries c) k = Some e"
  shows "cache_inv (unlink k e c)" and "table (unlink k e c) = AList.delete k (table c)"
proof -
  have e: "e \<in> set (ic_lru c)" "ci_key (item_at c e) = k"
    using assms cache_lookup [OF assms(1)] by auto
  have rest: "f = e \<longleftrightarrow> ci_key (item_at c f) = k" if "f \<in> set (ic_lru c)" for f
    using keys_inj [OF assms(1) that e(1)] e(2) by auto
  have d: "distinct (ic_lru c)" using assms(1) by (simp add: cache_inv_def)
  have "{x \<in> set (ic_entries c). fst x \<noteq> k} =
      (\<lambda>e. (ci_key (item_at c e), e)) ` (set (ic_lru c) - {e})"
    using assms(1) rest by (auto simp: cache_inv_def)
  then have "set (AList.delete k (ic_entries c)) =
      (\<lambda>e. (ci_key (item_at c e), e)) ` set (remove1 e (ic_lru c))"
    by (simp add: delete_filter set_remove1_eq [OF d])
  then show "cache_inv (unlink k e c)"
    using assms(1) d
    by (auto simp: cache_inv_def unlink_def distinct_delete length_remove1
        dest: notin_set_remove1 in_set_remove1 [THEN iffD1])
  have "filter (\<lambda>f. f \<noteq> e) (ic_lru c) = filter (\<lambda>f. ci_key (item_at c f) \<noteq> k) (ic_lru c)"
    by (rule filter_cong [OF refl]) (simp add: rest)
  then show "table (unlink k e c) = AList.delete k (table c)"
    using d by (simp add: table_def unlink_def delete_filter filter_map comp_def
        distinct_remove1_removeAll removeAll_filter_not_eq eq_commute)
qed

lemma index_ops_frame [simp]:
  "cache_inv (updateIPIndex p c) = cache_inv c" "table (updateIPIndex p c) = table c"
  "cache_inv (removeFromIPIndex p c) = cache_inv c" "table (removeFromIPIndex p c) = table c"
  by (simp_all add: updateIPIndex_def removeFromIPIndex_def cache_inv_def table_def Let_def)

lemma heap_frame:
  "length h = length (ic_heap c) \<Longrightarrow> cache_inv (c\<lparr>ic_heap := h\<rparr>) = cache_inv c"
  "table (c\<lparr>ic_heap := h\<rparr>) = table c"
  by (simp_all add: cache_inv_def table_def)

lemma counter_frame [simp]:
  "cache_inv (c\<lparr>ic_hits := x\<rparr>) = cache_inv c" "table (c\<lparr>ic_hits := x\<rparr>) = table c"
  "cache_inv (c\<lparr>ic_misses := x\<rparr>) = cache_inv c" "table (c\<lparr>ic_misses := x\<rparr>) = table c"
  "cache_inv (c\<lparr>ic_evictions := x\<rparr>) = cache_inv c" "table (c\<lparr>ic_evictions := x\<rparr>) = table c"
  "cache_inv (c\<lparr>ic_defaultTTL := ttl\<rparr>) = cache_inv c" "table (c\<lparr>ic_defaultTTL := ttl\<rparr>) = table c"
  by (simp_all add: cache_inv_def table_def)

lemma touch_inv:
  assumes "cache_inv c" "map_of (ic_entries c) k = Some e"
  shows "cache_inv (c\<lparr>ic_lru := MoveToFront e (ic_lru c)\<rparr>)"
    and "table (c\<lparr>ic_lru := MoveToFront e (ic_lru c)\<rparr>) =
           (k, ci_entry (item_at c e)) # AList.delete k (table c)"
proof -
  have e: "e \<in> set (ic_lru c)" "ci_key (item_at c e) = k"
    using assms cache_lookup [OF assms(1)] by auto
  have d: "distinct (ic_lru c)" using assms(1) by (simp add: cache_inv_def)
  have s: "set (e # remove1 e (ic_lru c)) = set (ic_lru c)" using e d by auto
  moreover have "length (e # remove1 e (ic_lru c)) = length (ic_lru c)"
    using e length_pos_if_in_set [OF e(1)] by (simp add: length_remove1)
  ultimately show "cache_inv (c\<lparr>ic_lru := MoveToFront e (ic_lru c)\<rparr>)"
    using assms(1) d e unfolding cache_inv_def MoveToFront_def
    by (simp del: set_simps list.set length_remove1 add: set_remove1_eq)
  show "table (c\<lparr>ic_lru := MoveToFront e (ic_lru c)\<rparr>) =
      (k, ci_entry (item_at c e)) # AList.delete k (table c)"
    using unlink_inv(2) [OF assms] e by (simp add: table_def unlink_def MoveToFront_def)
qed

lemma evict_inv:
  assumes "cache_inv c"
  shows "cache_inv (evictOldest c)" and "table (evictOldest c) = butlast (table c)"
    and "ic_lru (evictOldest c) = butlast (ic_lru c)"
proof -
  have goal: "cache_inv (evictOldest c) \<and> table (evictOldest c) = butlast (table c) \<and>
      ic_lru (evictOldest c) = butlast (ic_lru c)"
  proof (cases "ic_lru c = []")
    case True
    with assms show ?thesis by (simp add: evictOldest_def table_def)
  next
    case False
    define e where "e = last (ic_lru c)"
    define k where "k = ci_key (item_at c e)"
    have e: "e \<in> set (ic_lru c)" using False by (simp add: e_def)
    have look: "map_of (ic_entries c) k = Some e"
      using cache_lookup [OF assms] e by (simp add: k_def)
    have "ic_lru c = butlast (ic_lru c) @ [e]" using False by (simp add: e_def)
    moreover have "distinct (ic_lru c)" using assms by (simp add: cache_inv_def)
    ultimately have rm: "remove1 e (ic_lru c) = butlast (ic_lru c)"
      by (metis distinct_append remove1_append remove1.simps(2) append_Nil2 list.set_intros(1)
          disjoint_iff)
    have ev: "evictOldest c = (removeFromIPIndex (ci_entry (item_at c e)) (unlink k e c))
        \<lparr>ic_evictions := ic_evictions c + 1\<rparr>"
      using False by (simp add: evictOldest_def e_def k_def Let_def)
    have "table (unlink k e c) = butlast (table c)"
      by (simp add: table_def unlink_def rm map_butlast)
    moreover have "ic_lru (evictOldest c) = butlast (ic_lru c)"
      by (simp add: ev removeFromIPIndex_def unlink_def rm Let_def)
    ultimately show ?thesis using unlink_inv(1) [OF assms look] by (simp add: ev)
  qed
  then show "cache_inv (evictOldest c)" "table (evictOldest c) = butlast (table c)"
    "ic_lru (evictOldest c) = butlast (ic_lru c)" by auto
qed

section \<open>The operations\<close>

text \<open>The abstract table of bounded size: insertion evicts the last binding when a new key is added to a full table.\<close>

definition lru_put :: "int \<Rightarrow> string \<Rightarrow> ptr \<Rightarrow> (string \<times> ptr) list \<Rightarrow> (string \<times> ptr) list" where
  "lru_put n k p t =
     (k, p) # (if k \<in> fst ` set t then AList.delete k t
               else if int (length t) \<ge> n then butlast t else t)"

lemma table_keys: "fst ` set (table c) = (\<lambda>e. ci_key (item_at c e)) ` set (ic_lru c)"
  by (simp add: table_def image_image)

lemma lookup_mem:
  assumes "cache_inv c"
  shows "map_of (ic_entries c) k = None \<longleftrightarrow> k \<notin> fst ` set (table c)"
  using lookup_None [OF assms, of k] by (auto simp: table_keys)

lemma evict_frame [simp]:
  "ic_heap (evictOldest c) = ic_heap c" "ic_elems (evictOldest c) = ic_elems c"
  "ic_maxEntries (evictOldest c) = ic_maxEntries c"
  by (simp_all add: evictOldest_def removeFromIPIndex_def unlink_def Let_def)

lemma update_new: "k \<notin> fst ` set xs \<Longrightarrow> AList.update k v xs = xs @ [(k, v)]"
  by (induction xs) auto

lemma length_table [simp]: "length (table c) = length (ic_lru c)"
  by (simp add: table_def)

lemma push_inv:
  assumes "cache_inv c" "map_of (ic_entries c) k = None" "p < length (ic_heap c)"
    "int (length (ic_lru c)) < max 1 (ic_maxEntries c)"
  shows "cache_inv (push_entry k p c)" and "table (push_entry k p c) = (k, p) # table c"
proof -
  have old: "e < length (ic_elems c)" if "e \<in> set (ic_lru c)" for e
    using assms(1) that by (simp add: cache_inv_def)
  have "set (AList.update k (length (ic_elems c)) (ic_entries c)) =
      insert (k, length (ic_elems c)) (set (ic_entries c))"
    using assms(2) update_new [of k "ic_entries c" "length (ic_elems c)"] by (simp add: map_of_eq_None_iff)
  then show "cache_inv (push_entry k p c)"
    using assms old
    by (auto simp: push_entry_def Let_def cache_inv_def nth_append distinct_update
        dest: old intro!: image_eqI)
  show "table (push_entry k p c) = (k, p) # table c"
    using old by (auto simp: push_entry_def Let_def table_def nth_append)
qed

lemma Get_inv:
  assumes "cache_inv c"
  shows "cache_inv (fst (Get now k c))" (is ?inv)
    and "table (fst (Get now k c)) =
      (case map_of (table c) k of
         None \<Rightarrow> table c
       | Some p \<Rightarrow> if IsExpired now (entry_at c p) then AList.delete k (table c)
                   else (k, p) # AList.delete k (table c))" (is ?tab)
    and "snd (Get now k c) =
      (case map_of (table c) k of
         None \<Rightarrow> None | Some p \<Rightarrow> if IsExpired now (entry_at c p) then None else Some p)" (is ?res)
proof -
  have "?inv \<and> ?tab \<and> ?res"
  proof (cases "map_of (ic_entries c) k")
    case None
    then show ?thesis using assms by (simp add: Get_def table_lookup)
  next
    case (Some e)
    note t = touch_inv [OF assms Some]
    have h: "cache_inv (c\<lparr>ic_lru := l, ic_hits := x, ic_heap := h\<rparr>) = cache_inv (c\<lparr>ic_lru := l\<rparr>)"
      "table (c\<lparr>ic_lru := l, ic_hits := x, ic_heap := h\<rparr>) = table (c\<lparr>ic_lru := l\<rparr>)"
      if "length h = length (ic_heap c)" for l x h
      using that by (simp_all add: cache_inv_def table_def)
    show ?thesis
      using assms Some unlink_inv [OF assms Some] t
      by (simp add: Get_def table_lookup Let_def h)
  qed
  then show ?inv ?tab ?res by auto
qed

lemma Set_inv:
  assumes "cache_inv c" "p < length (ic_heap c)"
  shows "cache_inv (Set now k p c)" (is ?inv)
    and "table (Set now k p c) = lru_put (ic_maxEntries c) k p (table c)" (is ?tab)
proof -
  define c1 where "c1 = c\<lparr>ic_heap := (ic_heap c)[p := stamp now (ic_defaultTTL c) (entry_at c p)]\<rparr>"
  have c1: "cache_inv c1" "table c1 = table c" "ic_entries c1 = ic_entries c" "ic_lru c1 = ic_lru c"
    "length (ic_heap c1) = length (ic_heap c)" "ic_maxEntries c1 = ic_maxEntries c"
    using assms by (simp_all add: c1_def heap_frame)
  have "?inv \<and> ?tab"
  proof (cases "map_of (ic_entries c) k")
    case (Some e)
    define c2 where "c2 = c1\<lparr>ic_lru := MoveToFront e (ic_lru c1)\<rparr>"
    have look: "map_of (ic_entries c1) k = Some e" using Some c1 by simp
    note t = touch_inv [OF c1(1) look, folded c2_def]
    have e: "e \<in> set (ic_lru c2)" "e < length (ic_elems c2)" "ci_key (item_at c2 e) = k"
      using cache_lookup [OF c1(1)] look c1(1) by (auto simp: c2_def MoveToFront_def cache_inv_def)
    have "Set now k p c = updateIPIndex p (c2\<lparr>ic_elems := (ic_elems c2)[e := (item_at c2 e)\<lparr>ci_entry := p\<rparr>]\<rparr>)"
      using Some by (simp add: Set_def c1_def [symmetric] c1 c2_def)
    moreover have "cache_inv (c2\<lparr>ic_elems := (ic_elems c2)[e := (item_at c2 e)\<lparr>ci_entry := p\<rparr>]\<rparr>)"
      using t(1) e assms(2) c1
      by (auto simp: cache_inv_def nth_list_update c2_def intro!: image_cong)
    moreover have "table (c2\<lparr>ic_elems := (ic_elems c2)[e := (item_at c2 e)\<lparr>ci_entry := p\<rparr>]\<rparr>) =
        (k, p) # AList.delete k (table c)"
    proof -
      obtain r where r: "ic_lru c2 = e # r" "e \<notin> set r"
        using t(1) e cache_lookup [OF c1(1)] look by (auto simp: c2_def MoveToFront_def cache_inv_def)
      have "table (c2\<lparr>ic_elems := (ic_elems c2)[e := (item_at c2 e)\<lparr>ci_entry := p\<rparr>]\<rparr>) = (k, p) # tl (table c2)"
        using r e by (auto simp: table_def nth_list_update)
      with t(2) c1 show ?thesis by simp
    qed
    ultimately show ?thesis
      using Some lookup_mem [OF assms(1), of k] by (auto simp: lru_put_def)
  next
    case None
    define c2 where "c2 = (if int (length (ic_lru c1)) \<ge> ic_maxEntries c1 then evictOldest c1 else c1)"
    have c2: "cache_inv c2" "p < length (ic_heap c2)" "int (length (ic_lru c2)) < max 1 (ic_maxEntries c2)"
      using evict_inv [OF c1(1)] c1 assms by (auto simp: c2_def cache_inv_def)
    have tab: "table c2 = (if int (length (table c)) \<ge> ic_maxEntries c then butlast (table c) else table c)"
      using evict_inv(2) [OF c1(1)] c1 by (simp add: c2_def)
    have absent: "k \<notin> fst ` set (table c)" using None lookup_mem [OF assms(1)] by blast
    then have "map_of (ic_entries c2) k = None"
      using lookup_mem [OF c2(1), of k] tab by (auto dest: in_set_butlastD split: if_splits)
    moreover have "Set now k p c = updateIPIndex p (push_entry k p c2)"
      using None by (simp add: Set_def c1_def [symmetric] c1 c2_def)
    ultimately show ?thesis
      using push_inv [OF c2(1) _ c2(2,3)] absent by (simp add: lru_put_def tab)
  qed
  then show ?inv ?tab by auto
qed

lemma Delete_inv:
  assumes "cache_inv c"
  shows "cache_inv (fst (Delete k c))" and "table (fst (Delete k c)) = AList.delete k (table c)"
    and "snd (Delete k c) \<longleftrightarrow> k \<in> fst ` set (table c)"
proof -
  have "k \<notin> fst ` set (table c) \<Longrightarrow> AList.delete k (table c) = table c"
    by (simp add: delete_filter filter_id_conv) force
  then show "cache_inv (fst (Delete k c))" "table (fst (Delete k c)) = AList.delete k (table c)"
    "snd (Delete k c) \<longleftrightarrow> k \<in> fst ` set (table c)"
    using assms unlink_inv [OF assms] lookup_mem [OF assms, of k]
    by (auto simp: Delete_def split: option.splits)
qed

lemma cleanup_loop_inv:
  "cache_inv c \<Longrightarrow> cache_inv (cleanup_loop keys c) \<and>
     table (cleanup_loop keys c) = filter (\<lambda>x. fst x \<notin> set keys) (table c)"
proof (induction keys arbitrary: c)
  case (Cons k keys)
  show ?case
  proof (cases "map_of (ic_entries c) k")
    case None
    then have "k \<notin> fst ` set (table c)" using lookup_mem [OF Cons.prems] by blast
    then have "filter (\<lambda>x. fst x \<notin> set (k # keys)) (table c) = filter (\<lambda>x. fst x \<notin> set keys) (table c)"
      by (intro filter_cong) auto
    with None Cons show ?thesis by simp
  next
    case (Some e)
    note u = unlink_inv [OF Cons.prems Some]
    have "filter (\<lambda>x. fst x \<notin> set keys) (AList.delete k (table c)) = filter (\<lambda>x. fst x \<notin> set (k # keys)) (table c)"
      by (auto simp: delete_filter intro: filter_cong)
    with Cons.IH [OF u(1)] u(2) Some show ?thesis by simp
  qed
qed simp

lemma cleanup_inv:
  assumes "cache_inv c"
  shows "cache_inv (cleanup now c)"
    and "table (cleanup now c) = filter (\<lambda>(k, p). \<not> IsExpired now (entry_at c p)) (table c)"
proof -
  define dead where
    "dead = map fst (filter (\<lambda>(key, elem). now > ce_ExpiresAt (entry_at c (ci_entry (item_at c elem)))) (ic_entries c))"
  have "k \<in> set dead \<longleftrightarrow> IsExpired now (entry_at c p)" if "(k, p) \<in> set (table c)" for k p
  proof -
    from that obtain e where e: "e \<in> set (ic_lru c)" "ci_key (item_at c e) = k" "ci_entry (item_at c e) = p"
      by (auto simp: table_def)
    have "(k, f) \<in> set (ic_entries c) \<longleftrightarrow> f = e" for f
      using cache_lookup [OF assms, of k] e assms by (auto simp: cache_inv_def dest: keys_inj [OF assms])
    then show ?thesis using e by (force simp: IsExpired_def dead_def)
  qed
  then have "filter (\<lambda>x. fst x \<notin> set dead) (table c) =
      filter (\<lambda>(k, p). \<not> IsExpired now (entry_at c p)) (table c)"
    by (intro filter_cong) auto
  then show "cache_inv (cleanup now c)"
    "table (cleanup now c) = filter (\<lambda>(k, p). \<not> IsExpired now (entry_at c p)) (table c)"
    using cleanup_loop_inv [OF assms, of dead] by (simp_all add: cleanup_def Let_def dead_def)
qed

lemma SetWithTTL_inv:
  assumes "cache_inv c" "p < length (ic_heap c)"
  shows "cache_inv (SetWithTTL now k p ttl c)"
    and "table (SetWithTTL now k p ttl c) = lru_put (ic_maxEntries c) k p (table c)"
  using assms Set_inv [of "c\<lparr>ic_heap := (ic_heap c)[p := (entry_at c p)\<lparr>ce_ExpiresAt := now + ttl\<rparr>]\<rparr>" p now k]
  by (simp_all add: SetWithTTL_def heap_frame)

lemma new_entry_inv:
  assumes "cache_inv c"
  shows "cache_inv (fst (new_entry e c))" and "table (fst (new_entry e c)) = table c"
  using assms by (auto simp: new_entry_def cache_inv_def table_def)

section \<open>The reverse index\<close>

lemma index_of_ok:
  assumes "index_inv c" "p \<in> set (index_of c ip)"
  shows "p < length (ic_heap c) \<and> addr_String (ce_IP (entry_at c p)) = ip"
  using assms by (auto simp: index_of_def index_inv_def split: option.splits dest: map_of_SomeD)

lemma index_of_distinct:
  assumes "index_inv c"
  shows "distinct (map (\<lambda>p. ce_Domain (entry_at c p)) (index_of c ip))"
  using assms by (auto simp: index_of_def index_inv_def split: option.splits dest: map_of_SomeD)

lemma AList_update_in: "x \<in> set (AList.update k v al) \<Longrightarrow> x = (k, v) \<or> x \<in> set al"
  by (induction al) (auto split: if_splits)

lemma update_index_inv:
  assumes "index_inv c" "p < length (ic_heap c)"
  shows "index_inv (updateIPIndex p c)"
  using assms index_of_ok [OF assms(1)] index_of_distinct [OF assms(1)]
  by (auto simp: updateIPIndex_def Let_def index_inv_def distinct_update distinct_map_filter
      dest!: AList_update_in)

lemma remove_index_inv:
  assumes "index_inv c"
  shows "index_inv (removeFromIPIndex p c)"
  using assms index_of_ok [OF assms(1)] index_of_distinct [OF assms(1)]
  by (auto simp: removeFromIPIndex_def Let_def index_inv_def distinct_update distinct_map_filter
      distinct_delete delete_filter dest!: AList_update_in)

lemma index_heap_frame:
  assumes "length h = length (ic_heap c)"
    and "\<And>p. p < length (ic_heap c) \<Longrightarrow>
      ce_Domain (h ! p) = ce_Domain (entry_at c p) \<and> ce_IP (h ! p) = ce_IP (entry_at c p)"
    and "index_inv c"
  shows "index_inv (c\<lparr>ic_heap := h\<rparr>)"
proof -
  have "map (\<lambda>p. ce_Domain (h ! p)) ps = map (\<lambda>p. ce_Domain (entry_at c p)) ps"
    if "(ip, ps) \<in> set (ic_ipIndex c)" for ip ps
    using that assms by (auto simp: index_inv_def)
  with assms show ?thesis unfolding index_inv_def by (fastforce simp del: map_eq_conv)
qed

lemma index_update_frame:
  assumes "index_inv c" "ce_Domain e = ce_Domain (entry_at c p)" "ce_IP e = ce_IP (entry_at c p)"
  shows "index_inv (c\<lparr>ic_heap := (ic_heap c)[p := e]\<rparr>)"
proof (rule index_heap_frame)
  fix q
  assume "q < length (ic_heap c)"
  then show "ce_Domain ((ic_heap c)[p := e] ! q) = ce_Domain (entry_at c q) \<and>
      ce_IP ((ic_heap c)[p := e] ! q) = ce_IP (entry_at c q)"
    using assms by (cases "p = q") auto
qed (use assms in auto)

lemma index_frame [simp]:
  "index_inv (c\<lparr>ic_lru := l\<rparr>) = index_inv c" "index_inv (c\<lparr>ic_elems := es\<rparr>) = index_inv c"
  "index_inv (c\<lparr>ic_entries := en\<rparr>) = index_inv c" "index_inv (c\<lparr>ic_hits := x\<rparr>) = index_inv c"
  "index_inv (c\<lparr>ic_misses := x\<rparr>) = index_inv c" "index_inv (c\<lparr>ic_evictions := x\<rparr>) = index_inv c"
  "index_inv (c\<lparr>ic_defaultTTL := ttl\<rparr>) = index_inv c"
  by (simp_all add: index_inv_def)

lemma unlink_index [simp]: "index_inv (unlink k e c) = index_inv c"
  by (simp add: unlink_def)

lemma evict_index: "index_inv c \<Longrightarrow> index_inv (evictOldest c)"
  by (simp add: evictOldest_def remove_index_inv Let_def)

lemma push_frame [simp]:
  "index_inv (push_entry k p c) = index_inv c" "ic_heap (push_entry k p c) = ic_heap c"
  "ic_maxEntries (push_entry k p c) = ic_maxEntries c"
  by (simp_all add: push_entry_def Let_def)

lemma Get_index:
  assumes "index_inv c"
  shows "index_inv (fst (Get now k c))"
proof -
  have "index_inv (c\<lparr>ic_lru := l, ic_hits := x, ic_heap := h\<rparr>) = index_inv (c\<lparr>ic_heap := h\<rparr>)" for l x h
    by (simp add: index_inv_def)
  with assms show ?thesis
    by (auto simp: Get_def Let_def index_update_frame split: option.splits)
qed

lemma stamp_sel [simp]: "ce_Domain (stamp now ttl e) = ce_Domain e" "ce_IP (stamp now ttl e) = ce_IP e"
  by (simp_all add: stamp_def)

lemma Set_index:
  assumes "index_inv c" "p < length (ic_heap c)"
  shows "index_inv (Set now k p c)"
proof -
  have "index_inv (c\<lparr>ic_heap := (ic_heap c)[p := stamp now (ic_defaultTTL c) (entry_at c p)]\<rparr>)"
    by (rule index_update_frame) (use assms in auto)
  with assms(2) show ?thesis
    by (auto simp: Set_def Let_def intro!: update_index_inv evict_index split: option.splits)
qed

lemma SetWithTTL_index:
  assumes "index_inv c" "p < length (ic_heap c)"
  shows "index_inv (SetWithTTL now k p ttl c)"
  unfolding SetWithTTL_def
  by (rule Set_index) (use assms in \<open>auto intro: index_update_frame\<close>)

lemma cleanup_loop_index: "index_inv (cleanup_loop keys c) = index_inv c"
  by (induction keys arbitrary: c) (auto split: option.splits)

lemma new_entry_index:
  assumes "index_inv c"
  shows "index_inv (fst (new_entry e c))"
proof -
  have "map (\<lambda>p. ce_Domain ((ic_heap c @ [e]) ! p)) ps = map (\<lambda>p. ce_Domain (entry_at c p)) ps"
    if "(ip, ps) \<in> set (ic_ipIndex c)" for ip ps
    using that assms by (auto simp: index_inv_def nth_append)
  with assms show ?thesis
    unfolding index_inv_def new_entry_def by (fastforce simp: nth_append simp del: map_eq_conv)
qed

section \<open>Reachable caches\<close>

datatype cache_op =
    OpNew CacheEntry | OpGet time string | OpSet time string ptr | OpSetTTL time string ptr duration
  | OpDelete string | OpCleanup time | OpClear | OpDefaultTTL duration

fun apply_cache :: "cache_op \<Rightarrow> IPDomainCache \<Rightarrow> IPDomainCache" where
  "apply_cache (OpNew e) c = fst (new_entry e c)"
| "apply_cache (OpGet now k) c = fst (Get now k c)"
| "apply_cache (OpSet now k p) c = Set now k p c"
| "apply_cache (OpSetTTL now k p ttl) c = SetWithTTL now k p ttl c"
| "apply_cache (OpDelete k) c = fst (Delete k c)"
| "apply_cache (OpCleanup now) c = cleanup now c"
| "apply_cache OpClear c = Cache_Clear c"
| "apply_cache (OpDefaultTTL ttl) c = SetDefaultTTL ttl c"

text \<open>A caller passes pointers to entries it has allocated.\<close>

fun op_ok :: "cache_op \<Rightarrow> IPDomainCache \<Rightarrow> bool" where
  "op_ok (OpSet now k p) c = (p < length (ic_heap c))"
| "op_ok (OpSetTTL now k p ttl) c = (p < length (ic_heap c))"
| "op_ok _ c = True"

inductive cache_reach :: "int \<Rightarrow> duration \<Rightarrow> IPDomainCache \<Rightarrow> bool" for n ttl where
  init: "cache_reach n ttl (NewIPDomainCache n ttl)"
| step: "cache_reach n ttl c \<Longrightarrow> op_ok op c \<Longrightarrow> cache_reach n ttl (apply_cache op c)"

lemma bound_frame [simp]: "ic_maxEntries (apply_cache op c) = ic_maxEntries c"
proof -
  have "ic_maxEntries (cleanup_loop keys c) = ic_maxEntries c" for keys c
    by (induction keys arbitrary: c) (auto simp: unlink_def split: option.splits)
  then show ?thesis
    by (cases op)
       (auto simp: new_entry_def Get_def Set_def SetWithTTL_def Delete_def cleanup_def Cache_Clear_def
          SetDefaultTTL_def updateIPIndex_def removeFromIPIndex_def unlink_def push_entry_def Let_def
          split: option.splits)
qed

lemma Clear_inv: "cache_inv (Cache_Clear c)" "index_inv (Cache_Clear c)" "table (Cache_Clear c) = []"
  by (simp_all add: Cache_Clear_def cache_inv_def index_inv_def table_def)

lemma apply_cache_inv:
  assumes "cache_inv c" "op_ok op c"
  shows "cache_inv (apply_cache op c)"
  using assms
  by (cases op)
     (auto simp: new_entry_inv Get_inv Set_inv SetWithTTL_inv Delete_inv cleanup_inv SetDefaultTTL_def
       Clear_inv)

lemma apply_index_inv:
  assumes "index_inv c" "op_ok op c"
  shows "index_inv (apply_cache op c)"
  using assms
  by (cases op)
     (auto simp: new_entry_index Get_index Set_index SetWithTTL_index Delete_def remove_index_inv
       cleanup_def cleanup_loop_index SetDefaultTTL_def Clear_inv Let_def split: option.splits)

lemma cache_reach_inv:
  "cache_reach n ttl c \<Longrightarrow> cache_inv c \<and> index_inv c \<and> ic_maxEntries c = n"
proof (induction rule: cache_reach.induct)
  case init
  show ?case by (simp add: NewIPDomainCache_def cache_inv_def index_inv_def)
next
  case (step c op)
  then show ?case by (auto intro: apply_cache_inv apply_index_inv)
qed

section \<open>Retention\<close>

text \<open>
  The keys in front of \<open>k\<close> have all been used since \<open>k\<close> was last used, so \<open>k\<close> falls off the end
  only after as many other keys as the cache has room for.
\<close>

definition before :: "string \<Rightarrow> (string \<times> ptr) list \<Rightarrow> string set" where
  "before k t = fst ` set (takeWhile (\<lambda>x. fst x \<noteq> k) t)"

definition retained :: "string \<Rightarrow> ptr \<Rightarrow> string set \<Rightarrow> (string \<times> ptr) list \<Rightarrow> bool" where
  "retained k p U t \<longleftrightarrow> (k, p) \<in> set t \<and> distinct (map fst t) \<and> before k t \<subseteq> U"

lemma retainedE:
  assumes "retained k p U t"
  obtains xs ys where "t = xs @ (k, p) # ys" "fst ` set xs \<subseteq> U" "k \<notin> fst ` set xs" "k \<notin> fst ` set ys"
    "distinct (map fst t)"
proof -
  from assms obtain xs ys where t: "t = xs @ (k, p) # ys"
    by (auto simp: retained_def dest: split_list)
  with assms have "k \<notin> fst ` set xs" "k \<notin> fst ` set ys" by (auto simp: retained_def)
  moreover from this t have "takeWhile (\<lambda>x. fst x \<noteq> k) t = xs"
    by (auto simp: takeWhile_append2 takeWhile_tail)
  ultimately show thesis using that t assms by (auto simp: retained_def before_def)
qed

lemma retainedI:
  "t = xs @ (k, p) # ys \<Longrightarrow> fst ` set xs \<subseteq> U \<Longrightarrow> k \<notin> fst ` set xs \<Longrightarrow> distinct (map fst t) \<Longrightarrow>
   retained k p U t"
proof -
  assume t: "t = xs @ (k, p) # ys" and "fst ` set xs \<subseteq> U" "k \<notin> fst ` set xs" "distinct (map fst t)"
  moreover from this have "\<And>x. x \<in> set xs \<Longrightarrow> fst x \<noteq> k" by auto
  then have "takeWhile (\<lambda>x. fst x \<noteq> k) t = xs" by (simp add: t takeWhile_append2)
  ultimately show ?thesis by (auto simp: retained_def before_def)
qed

lemma retained_mono: "retained k p U t \<Longrightarrow> U \<subseteq> V \<Longrightarrow> retained k p V t"
  by (auto simp: retained_def)

lemma retained_delete:
  assumes "retained k p U t" "j \<noteq> k"
  shows "retained k p U (AList.delete j t)"
proof -
  from assms(1) obtain xs ys where t: "t = xs @ (k, p) # ys" "fst ` set xs \<subseteq> U" "k \<notin> fst ` set xs"
    "distinct (map fst t)" by (rule retainedE) 
  then have "AList.delete j t = filter (\<lambda>x. fst x \<noteq> j) xs @ (k, p) # filter (\<lambda>x. fst x \<noteq> j) ys"
    using assms(2) by (simp add: delete_filter)
  then show ?thesis
    by (rule retainedI) (use t in \<open>auto simp: delete_filter distinct_map_filter\<close>)
qed

lemma retained_cons:
  assumes "retained k p U t" "j \<noteq> k" "j \<notin> fst ` set t"
  shows "retained k p (insert j U) ((j, q) # t)"
proof -
  from assms(1) obtain xs ys where t: "t = xs @ (k, p) # ys" "fst ` set xs \<subseteq> U" "k \<notin> fst ` set xs"
    "distinct (map fst t)" by (rule retainedE)
  show ?thesis
    by (rule retainedI [where xs = "(j, q) # xs" and ys = ys]) (use t assms in auto)
qed

lemma retained_butlast:
  assumes "retained k p U t" "finite U" "j \<notin> fst ` set t" "card (insert j U) < length t"
  shows "retained k p U (butlast t)"
proof -
  from assms(1) obtain xs ys where t: "t = xs @ (k, p) # ys" "fst ` set xs \<subseteq> U" "k \<notin> fst ` set xs"
    "distinct (map fst t)" by (rule retainedE)
  have "length xs = card (fst ` set xs)"
    using t by (metis distinct_append distinct_card length_map list.set_map map_append)
  also have "\<dots> < card (insert j U)"
    by (rule psubset_card_mono) (use assms t in auto)
  finally have "ys \<noteq> []" using assms(4) t by auto
  then have "butlast t = xs @ (k, p) # butlast ys" using t by (simp add: butlast_append)
  then show ?thesis
    by (rule retainedI) (use t in \<open>auto simp: map_butlast distinct_butlast\<close>)
qed

lemma retained_put:
  assumes "retained k p U t" "finite U" "j \<noteq> k" "card (insert j U) < n"
  shows "retained k p (insert j U) (lru_put (int n) j q t)"
proof (cases "j \<in> fst ` set t")
  case True
  have "retained k p (insert j U) ((j, q) # AList.delete j t)"
    by (rule retained_cons) (use retained_delete assms in \<open>auto simp: delete_filter\<close>)
  with True show ?thesis by (simp add: lru_put_def)
next
  case False
  have "retained k p U (if int (length t) \<ge> int n then butlast t else t)"
    using retained_butlast [OF assms(1,2) False] assms by auto
  moreover have "j \<notin> fst ` set (if int (length t) \<ge> int n then butlast t else t)"
    using False by (auto dest: in_set_butlastD)
  ultimately have "retained k p (insert j U) ((j, q) # (if int (length t) \<ge> int n then butlast t else t))"
    using assms(3) by (intro retained_cons)
  with False show ?thesis by (simp add: lru_put_def)
qed

lemma retained_get:
  assumes "retained k p U t" "j \<noteq> k"
  shows "retained k p (insert j U)
    (case map_of t j of None \<Rightarrow> t | Some q \<Rightarrow> if ex q then AList.delete j t else (j, q) # AList.delete j t)"
proof -
  have "retained k p (insert j U) t" "retained k p (insert j U) (AList.delete j t)"
    using assms retained_delete [OF assms] by (auto simp: retained_def)
  moreover have "retained k p (insert j U) ((j, q) # AList.delete j t)" for q
    by (rule retained_cons) (use retained_delete [OF assms] assms in \<open>auto simp: delete_filter\<close>)
  ultimately show ?thesis by (auto split: option.splits)
qed

text \<open>The operations on other keys that may run between two uses of \<open>k\<close>, and the keys they use.\<close>

fun uses :: "cache_op \<Rightarrow> string option" where
  "uses (OpGet now j) = Some j"
| "uses (OpSet now j q) = Some j"
| "uses (OpSetTTL now j q ttl) = Some j"
| "uses (OpDelete j) = Some j"
| "uses _ = None"

definition used :: "cache_op list \<Rightarrow> string set" where
  "used ops = {j. \<exists>op \<in> set ops. uses op = Some j}"

lemma used_simps [simp]:
  "used [] = {}" "used (op # ops) = (case uses op of Some j \<Rightarrow> {j} | None \<Rightarrow> {}) \<union> used ops"
  by (auto simp: used_def split: option.splits)

lemma finite_used [simp]: "finite (used ops)"
  by (induction ops) (auto split: option.splits)

definition keeps :: "cache_op \<Rightarrow> bool" where
  "keeps op \<longleftrightarrow> (case op of OpClear \<Rightarrow> False | OpCleanup _ \<Rightarrow> False | _ \<Rightarrow> True)"

fun ops_ok :: "cache_op list \<Rightarrow> IPDomainCache \<Rightarrow> bool" where
  "ops_ok [] c = True"
| "ops_ok (op # ops) c = (op_ok op c \<and> ops_ok ops (apply_cache op c))"

lemma retained_step:
  assumes "cache_inv c" "op_ok op c" "keeps op" "uses op \<noteq> Some k" "finite U"
    and "retained k p U (table c)" "ic_maxEntries c = int n"
    and "card (U \<union> (case uses op of Some j \<Rightarrow> {j} | None \<Rightarrow> {})) < n"
  shows "retained k p (U \<union> (case uses op of Some j \<Rightarrow> {j} | None \<Rightarrow> {})) (table (apply_cache op c))"
proof (cases op)
  case (OpSet now j q)
  with assms show ?thesis using retained_put [OF assms(6,5), of j n q] by (simp add: Set_inv)
next
  case (OpSetTTL now j q ttl)
  with assms show ?thesis using retained_put [OF assms(6,5), of j n q] by (simp add: SetWithTTL_inv)
next
  case (OpGet now j)
  with assms show ?thesis
    using retained_get [OF assms(6), where ex = "\<lambda>q. IsExpired now (entry_at c q)"] by (simp add: Get_inv)
next
  case (OpDelete j)
  with assms show ?thesis
    using retained_mono [OF retained_delete [OF assms(6)]] by (simp add: Delete_inv subset_insertI)
qed (use assms in \<open>simp_all add: keeps_def new_entry_inv SetDefaultTTL_def\<close>)

lemma retained_run:
  "cache_inv c \<Longrightarrow> ops_ok ops c \<Longrightarrow> list_all keeps ops \<Longrightarrow> k \<notin> used ops \<Longrightarrow> finite U \<Longrightarrow>
   retained k p U (table c) \<Longrightarrow> ic_maxEntries c = int n \<Longrightarrow> card (U \<union> used ops) < n \<Longrightarrow>
   retained k p (U \<union> used ops) (table (fold apply_cache ops c))"
proof (induction ops arbitrary: c U)
  case (Cons op ops)
  let ?V = "U \<union> (case uses op of Some j \<Rightarrow> {j} | None \<Rightarrow> {})"
  have sub: "?V \<union> used ops = U \<union> used (op # ops)" by auto
  have "card ?V \<le> card (U \<union> used (op # ops))"
    by (rule card_mono) (use Cons.prems in \<open>auto split: option.splits\<close>)
  with Cons.prems have "retained k p ?V (table (apply_cache op c))"
    by (intro retained_step [where n = n]) (auto split: option.splits)
  from Cons.IH [OF _ _ _ _ _ this] Cons.prems show ?case
    unfolding sub by (auto intro: apply_cache_inv split: option.splits)
qed simp

lemma lru_retention_fact:
  assumes "cache_reach (int n) ttl c" "p < length (ic_heap c)"
    and "ops_ok ops (Set now k p c)" "list_all keeps ops" "k \<notin> used ops" "card (used ops) < n"
    and "\<not> IsExpired now' (entry_at (fold apply_cache ops (Set now k p c)) p)"
  shows "snd (Get now' k (fold apply_cache ops (Set now k p c))) = Some p"
proof -
  from cache_reach_inv [OF assms(1)] have inv: "cache_inv c" and n: "ic_maxEntries c = int n" by auto
  note s = Set_inv [OF inv assms(2), where now = now and k = k]
  have bound: "ic_maxEntries (Set now k p c) = int n"
    using bound_frame [of "OpSet now k p" c] n by simp
  have "retained k p {} (table (Set now k p c))"
    using distinct_keys [OF s(1)] unfolding s(2) lru_put_def by (simp add: retained_def before_def)
  from retained_run [OF s(1) assms(3,4,5) _ this bound] assms(6)
  have r: "retained k p (used ops) (table (fold apply_cache ops (Set now k p c)))" by simp
  have "cache_inv (fold apply_cache ops d)" if "cache_inv d" "ops_ok ops d" for d
    using that by (induction ops arbitrary: d) (auto intro: apply_cache_inv)
  from Get_inv(3) [OF this [OF s(1) assms(3)]] r assms(7) show ?thesis
    by (auto simp: retained_def)
qed

section \<open>The hotspot ranking\<close>

lemma exchange_round_max:
  "exchange_round x ys = (m, r) \<Longrightarrow> mset (m # r) = mset (x # ys) \<and>
     (\<forall>y \<in> set r. is_HitCount y \<le> is_HitCount m) \<and> is_HitCount x \<le> is_HitCount m"
proof (induction ys arbitrary: x m r)
  case (Cons y ys)
  show ?case
  proof (cases "is_HitCount y > is_HitCount x")
    case True
    then obtain r' where "exchange_round y ys = (m, r')" "r = x # r'"
      using Cons.prems by (auto split: prod.splits)
    with Cons.IH [of y m r'] True show ?thesis by auto
  next
    case False
    then obtain r' where "exchange_round x ys = (m, r')" "r = y # r'"
      using Cons.prems by (auto split: prod.splits)
    with Cons.IH [of x m r'] False show ?thesis by auto
  qed
qed simp

lemma mset_exchange_sort: "mset (exchange_sort xs) = mset xs"
proof (induction xs rule: exchange_sort.induct)
  case (2 x xs)
  obtain m r where mr: "exchange_round x xs = (m, r)" by fastforce
  with 2 exchange_round_max [OF mr] show ?case by simp
qed simp

lemma sorted_exchange_sort: "sorted_wrt (\<lambda>x y. is_HitCount x \<ge> is_HitCount y) (exchange_sort xs)"
proof (induction xs rule: exchange_sort.induct)
  case (2 x xs)
  obtain m r where mr: "exchange_round x xs = (m, r)" by fastforce
  have "set (exchange_sort r) = set r" by (metis mset_exchange_sort set_mset_mset)
  with 2 mr exchange_round_max [OF mr] show ?case by auto
qed simp

section \<open>Properties\<close>

text \<open>
  C19. Every cache state that any history of calls can reach is well formed: the key map and the
  recency list hold the same bindings, each key once, and the cache never holds more than
  \<open>max 1 maxEntries\<close> of them.
\<close>

theorem cache_wellformed:
  assumes "cache_reach n ttl c"
  shows "(map_of (ic_entries c) k = Some e \<longleftrightarrow> e \<in> set (ic_lru c) \<and> ci_key (item_at c e) = k) \<and>
    distinct (map fst (table c)) \<and> length (ic_entries c) = Cache_Size c \<and>
    int (Cache_Size c) \<le> max 1 (MaxSize c) \<and> MaxSize c = n"
proof -
  from cache_reach_inv [OF assms] have inv: "cache_inv c" and n: "ic_maxEntries c = n" by auto
  have "length (ic_entries c) = card (set (ic_entries c))"
    using inv by (metis cache_inv_def distinct_card distinct_map)
  also have "\<dots> = card (set (ic_lru c))"
    using inv unfolding cache_inv_def by (metis (no_types, lifting) card_image inj_onI prod.inject)
  also have "\<dots> = length (ic_lru c)" using inv by (simp add: cache_inv_def distinct_card)
  finally show ?thesis
    using inv n cache_lookup [OF inv] distinct_keys [OF inv]
    by (simp add: Cache_Size_def MaxSize_def cache_inv_def)
qed

text \<open>
  C20. The recency list refines the abstract least-recently-used table: a hit moves the binding to
  the front, an expired hit and a deletion remove exactly that key, an insertion puts the binding
  in front and evicts exactly the last binding when a new key meets a full table, and the
  clean-up keeps exactly the unexpired bindings.
\<close>

theorem lru_refinement:
  assumes "cache_reach n ttl c" "p < length (ic_heap c)"
  shows "table (Set now k p c) = lru_put n k p (table c) \<and>
    table (fst (Get now k c)) =
      (case map_of (table c) k of None \<Rightarrow> table c
       | Some q \<Rightarrow> if IsExpired now (entry_at c q) then AList.delete k (table c)
                   else (k, q) # AList.delete k (table c)) \<and>
    snd (Get now k c) =
      (case map_of (table c) k of None \<Rightarrow> None
       | Some q \<Rightarrow> if IsExpired now (entry_at c q) then None else Some q) \<and>
    table (fst (Delete k c)) = AList.delete k (table c) \<and>
    table (cleanup now c) = filter (\<lambda>(k, q). \<not> IsExpired now (entry_at c q)) (table c)"
proof -
  from cache_reach_inv [OF assms(1)] have inv: "cache_inv c" and n: "ic_maxEntries c = n" by auto
  show ?thesis
    using Set_inv [OF inv assms(2)] Get_inv [OF inv] Delete_inv [OF inv] cleanup_inv [OF inv] n by simp
qed

text \<open>
  A stored binding is found again: after it has been stored, any calls on other keys that use
  fewer than \<open>maxEntries\<close> distinct keys (short of a clean-up or a clear) leave it in place, and
  the next lookup of the key returns it, unless its entry has expired.
\<close>

theorem lru_retention:
  assumes "cache_reach (int n) ttl c" "p < length (ic_heap c)"
    and "ops_ok ops (Set now k p c)" "list_all keeps ops" "k \<notin> used ops" "card (used ops) < n"
    and "\<not> IsExpired now' (entry_at (fold apply_cache ops (Set now k p c)) p)"
  shows "snd (Get now' k (fold apply_cache ops (Set now k p c))) = Some p"
  using assms by (rule lru_retention_fact)

text \<open>
  C21. The reverse lookup: for a reachable cache, the entries it returns for an address all carry
  that address, are unexpired and name pairwise different domains; and a binding just stored is
  among them unless it has already expired.
\<close>

theorem reverse_lookup_sound:
  assumes "cache_reach n ttl c" "p < length (ic_heap c)"
  shows "(\<forall>q \<in> set (GetByIP now ip c). addr_String (ce_IP (entry_at c q)) = addr_String ip \<and>
       \<not> IsExpired now (entry_at c q)) \<and>
    distinct (map (\<lambda>q. ce_Domain (entry_at c q)) (GetByIP now ip c)) \<and>
    (\<not> IsExpired now' (entry_at (Set now k p c) p) \<longrightarrow>
       p \<in> set (GetByIP now' (ce_IP (entry_at c p)) (Set now k p c)))"
proof -
  from cache_reach_inv [OF assms(1)] have ix: "index_inv c" by auto
  have g: "GetByIP now ip c = filter (\<lambda>q. \<not> IsExpired now (entry_at c q)) (index_of c (addr_String ip))"
    by (simp add: GetByIP_def index_of_def split: option.splits)
  have up: "p \<in> set (GetByIP now' (ce_IP (entry_at d p)) (updateIPIndex p d))"
    if "\<not> IsExpired now' (entry_at (updateIPIndex p d) p)" for d
    using that by (simp add: GetByIP_def updateIPIndex_def Let_def update_conv' split: option.splits)
  have "\<exists>d. Set now k p c = updateIPIndex p d \<and> ce_IP (entry_at d p) = ce_IP (entry_at c p)"
    using assms(2) by (auto simp: Set_def Let_def split: option.splits)
  then have "\<not> IsExpired now' (entry_at (Set now k p c) p) \<longrightarrow>
       p \<in> set (GetByIP now' (ce_IP (entry_at c p)) (Set now k p c))"
    using up by metis
  then show ?thesis
    using g index_of_ok [OF ix] index_of_distinct [OF ix] by (auto simp: distinct_map_filter)
qed

text \<open>
  The hotspot report: for a non-negative limit it returns at most that many addresses, each
  with more than one hundred live hits, in descending order of hits, and a reported address never
  has fewer hits than an omitted one.
\<close>

theorem hotspot_report:
  assumes "0 \<le> limit"
  shows "\<exists>top rest. GetHotspotIPs now limit c = Some top \<and> int (length top) \<le> limit \<and>
    mset (top @ rest) = mset (List.map_filter (hotspot_stat now c) (ic_ipIndex c)) \<and>
    sorted_wrt (\<lambda>x y. is_HitCount x \<ge> is_HitCount y) (top @ rest) \<and>
    (\<forall>x \<in> set top. is_HitCount x > 100 \<and> IsHotspot x)"
proof -
  define stats where "stats = exchange_sort (List.map_filter (hotspot_stat now c) (ic_ipIndex c))"
  let ?top = "take (nat limit) stats" and ?rest = "drop (nat limit) stats"
  have res: "GetHotspotIPs now limit c = Some ?top"
    using assms by (simp add: GetHotspotIPs_def stats_def [symmetric] Let_def)
  have hot: "is_HitCount x > 100 \<and> IsHotspot x" if "x \<in> set stats" for x
  proof -
    have "x \<in> set (List.map_filter (hotspot_stat now c) (ic_ipIndex c))"
      using that by (metis mset_exchange_sort set_mset_mset stats_def)
    then obtain kv where "hotspot_stat now c kv = Some x" by (auto simp: List.map_filter_def)
    then show ?thesis by (auto simp: hotspot_stat_def Let_def split: if_splits prod.splits)
  qed
  have "mset (?top @ ?rest) = mset (List.map_filter (hotspot_stat now c) (ic_ipIndex c))"
    by (simp only: append_take_drop_id) (simp add: stats_def mset_exchange_sort)
  moreover have "sorted_wrt (\<lambda>x y. is_HitCount x \<ge> is_HitCount y) (?top @ ?rest)"
    by (simp only: append_take_drop_id) (simp add: stats_def sorted_exchange_sort)
  moreover have "int (length ?top) \<le> limit" using assms by simp
  ultimately show ?thesis using res hot by (meson in_set_takeD)
qed

text \<open>Entries and a cache on which the properties are exercised.\<close>

definition example_entry :: "string \<Rightarrow> CacheEntry" where
  "example_entry d = \<lparr>ce_Domain = d, ce_IP = Addr4 0x01020304, ce_Route = RouteToAliang,
     ce_BindingSources = [], ce_ExpiresAt = 0, ce_CreatedAt = 0, ce_HitCount = 0\<rparr>"

definition example_cache :: IPDomainCache where
  "example_cache = fold apply_cache [OpNew (example_entry ''a''), OpNew (example_entry ''b'')] (NewIPDomainCache 2 10)"

lemma example_cache_reach: "cache_reach 2 10 example_cache"
proof -
  have "cache_reach 2 10 (apply_cache (OpNew (example_entry ''b'')) (apply_cache (OpNew (example_entry ''a''))
      (NewIPDomainCache 2 10)))"
    by (intro cache_reach.intros) simp_all
  then show ?thesis by (simp add: example_cache_def)
qed

lemma example_cache_heap [simp]: "length (ic_heap example_cache) = 2"
  by (simp add: example_cache_def new_entry_def NewIPDomainCache_def)

lemmas cache_eval =
  example_cache_def example_entry_def new_entry_def NewIPDomainCache_def Set_def Get_def stamp_def
  push_entry_def updateIPIndex_def removeFromIPIndex_def unlink_def index_of_def MoveToFront_def
  IsExpired_def Let_def

theorem cache_wellformed_witness: "int (Cache_Size (Set 1 ''a'' 0 example_cache)) \<le> 2"
proof -
  have "cache_reach 2 10 (apply_cache (OpSet 1 ''a'' 0) example_cache)"
    by (rule cache_reach.step [OF example_cache_reach]) simp
  then show ?thesis
    using cache_wellformed [of 2 10 "Set 1 ''a'' 0 example_cache" "''a''" 0] by (auto simp: max_def)
qed

theorem lru_refinement_witness:
  "table (Set 1 ''a'' 0 example_cache) = lru_put 2 ''a'' 0 (table example_cache)"
  using lru_refinement [OF example_cache_reach, of 0 1 "''a''"] by simp

theorem lru_retention_witness:
  "snd (Get 5 ''a'' (Set 2 ''b'' 1 (Set 1 ''a'' 0 example_cache))) = Some 0"
proof -
  have "\<not> IsExpired 5 (entry_at (fold apply_cache [OpSet 2 ''b'' 1] (Set 1 ''a'' 0 example_cache)) 0)"
    by (simp add: cache_eval)
  moreover have "ops_ok [OpSet 2 ''b'' 1] (Set 1 ''a'' 0 example_cache)" by (simp add: cache_eval)
  ultimately show ?thesis
    using lru_retention [of 2 10 example_cache 0 "[OpSet 2 ''b'' 1]" 1 "''a''" 5] example_cache_reach
    by (simp add: keeps_def)
qed

theorem reverse_lookup_sound_witness:
  "0 \<in> set (GetByIP 5 (Addr4 0x01020304) (Set 1 ''a'' 0 example_cache))"
proof -
  have "\<not> IsExpired 5 (entry_at (Set 1 ''a'' 0 example_cache) 0)" by (simp add: cache_eval)
  moreover have "ce_IP (entry_at example_cache 0) = Addr4 0x01020304"
    by (simp add: example_cache_def new_entry_def NewIPDomainCache_def example_entry_def)
  ultimately show ?thesis
    using reverse_lookup_sound [OF example_cache_reach, where p = 0 and now' = 5 and now = 1 and k = "''a''"] by simp
qed

theorem hotspot_report_witness:
  "\<exists>top rest. GetHotspotIPs 5 3 example_cache = Some top \<and> int (length top) \<le> 3 \<and>
    mset (top @ rest) = mset (List.map_filter (hotspot_stat 5 example_cache) (ic_ipIndex example_cache)) \<and>
    sorted_wrt (\<lambda>x y. is_HitCount x \<ge> is_HitCount y) (top @ rest) \<and>
    list_all (\<lambda>x. is_HitCount x > 100 \<and> IsHotspot x) top"
  unfolding list_all_iff by (rule hotspot_report) simp

section \<open>Where the two indexes disagree\<close>

text \<open>
  An entry that expires under \<^verbatim>\<open>Get\<close> (or in the clean-up) leaves its address in the reverse
  index: the cache is empty and still reports one unique address.
\<close>

lemma stale_index_after_expiry:
  "let c = fst (Get 50 ''a'' (Set 1 ''a'' 0 example_cache)) in
   Cache_Size c = 0 \<and> cs_uniqueIPs (Stats 50 c) = 1"
  by (simp add: cache_eval Cache_Size_def Stats_def)

text \<open>
  One entry stored under two keys, as the rule engine does: deleting one key removes the reverse
  binding although the other key still holds the entry.
\<close>

lemma delete_drops_shared_binding:
  "let c = fst (Delete ''1.2.3.4'' (Set 1 ''1.2.3.4'' 0 (Set 1 ''a'' 0 example_cache))) in
   snd (Get 5 ''a'' c) = Some 0 \<and> GetByIP 5 (Addr4 0x01020304) c = []"
  by (simp add: cache_eval Delete_def GetByIP_def)

end
