(* ===== verification/Switch_Manager.thy ===== *)
theory Switch_Manager
  imports Decision
begin

text \<open>
  The global routing switches of \<^verbatim>\<open>processor/routing/switch_manager.go\<close>. Every method holds the
  manager's lock, so a history of calls is a sequence of operations on one state. The contract of
  a switch is a locale, interpreted for each of the three switches.
\<close>

section \<open>State and operations\<close>

record SwitchManager =
  sm_aliangEnabled :: bool
  sm_socksEnabled :: bool
  sm_geoIPEnabled :: bool
  sm_lastUpdatedAt :: int
  sm_enabledAt :: "(string \<times> int) list"

definition GetSwitchManager :: SwitchManager where
  "GetSwitchManager = \<lparr>sm_aliangEnabled = True, sm_socksEnabled = True, sm_geoIPEnabled = False,
     sm_lastUpdatedAt = 0, sm_enabledAt = []\<rparr>"

definition UpdateSwitches :: "RoutingRulesConfig option \<Rightarrow> SwitchManager \<Rightarrow> SwitchManager" where
  "UpdateSwitches cfg sm =
     (case cfg of None \<Rightarrow> sm
      | Some c \<Rightarrow>
          let settings = rc_Settings c;
              sm1 = (if sm_aliangEnabled sm \<noteq> AliangEnabled settings
                     then sm\<lparr>sm_aliangEnabled := AliangEnabled settings\<rparr> else sm);
              sm2 = (if sm_socksEnabled sm1 \<noteq> SocksEnabled settings
                     then sm1\<lparr>sm_socksEnabled := SocksEnabled settings\<rparr> else sm1) in
          if sm_geoIPEnabled sm2 \<noteq> GeoIPEnabled settings
          then sm2\<lparr>sm_geoIPEnabled := GeoIPEnabled settings\<rparr> else sm2)"

definition IsAliangEnabled :: "SwitchManager \<Rightarrow> bool" where
  "IsAliangEnabled sm = sm_aliangEnabled sm"

definition IsSocksEnabled :: "SwitchManager \<Rightarrow> bool" where
  "IsSocksEnabled sm = sm_socksEnabled sm"

definition IsGeoIPEnabled :: "SwitchManager \<Rightarrow> bool" where
  "IsGeoIPEnabled sm = sm_geoIPEnabled sm"

definition SetAliangEnabled :: "bool \<Rightarrow> SwitchManager \<Rightarrow> SwitchManager" where
  "SetAliangEnabled enabled sm =
     (if sm_aliangEnabled sm \<noteq> enabled then sm\<lparr>sm_aliangEnabled := enabled\<rparr> else sm)"

definition SetSocksEnabled :: "bool \<Rightarrow> SwitchManager \<Rightarrow> SwitchManager" where
  "SetSocksEnabled enabled sm =
     (if sm_socksEnabled sm \<noteq> enabled then sm\<lparr>sm_socksEnabled := enabled\<rparr> else sm)"

definition SetGeoIPEnabled :: "bool \<Rightarrow> SwitchManager \<Rightarrow> SwitchManager" where
  "SetGeoIPEnabled enabled sm =
     (if sm_geoIPEnabled sm \<noteq> enabled then sm\<lparr>sm_geoIPEnabled := enabled\<rparr> else sm)"

text \<open>The time stamps of the returned settings are left at Go's zero time.\<close>

definition GetStatus :: "SwitchManager \<Rightarrow> RulesSettings" where
  "GetStatus sm = \<lparr>AliangEnabled = sm_aliangEnabled sm, SocksEnabled = sm_socksEnabled sm,
     GeoIPEnabled = sm_geoIPEnabled sm, AutoUpdate = False, rset_UpdatedAt = 0, LastNacosSync = 0\<rparr>"

definition DisableAll :: "SwitchManager \<Rightarrow> SwitchManager" where
  "DisableAll sm = sm\<lparr>sm_aliangEnabled := False, sm_socksEnabled := False, sm_geoIPEnabled := False\<rparr>"

definition EnableAll :: "SwitchManager \<Rightarrow> SwitchManager" where
  "EnableAll sm = sm\<lparr>sm_aliangEnabled := True, sm_socksEnabled := True, sm_geoIPEnabled := True\<rparr>"

definition ResetToDefaults :: "SwitchManager \<Rightarrow> SwitchManager" where
  "ResetToDefaults sm = sm\<lparr>sm_aliangEnabled := True, sm_socksEnabled := True, sm_geoIPEnabled := False\<rparr>"

text \<open>A history of calls that change the switches.\<close>

datatype switch_op =
    OpUpdate "RoutingRulesConfig option" | OpAliang bool | OpSocks bool | OpGeoIP bool
  | OpDisableAll | OpEnableAll | OpReset

fun apply_switch :: "switch_op \<Rightarrow> SwitchManager \<Rightarrow> SwitchManager" where
  "apply_switch (OpUpdate cfg) sm = UpdateSwitches cfg sm"
| "apply_switch (OpAliang b) sm = SetAliangEnabled b sm"
| "apply_switch (OpSocks b) sm = SetSocksEnabled b sm"
| "apply_switch (OpGeoIP b) sm = SetGeoIPEnabled b sm"
| "apply_switch OpDisableAll sm = DisableAll sm"
| "apply_switch OpEnableAll sm = EnableAll sm"
| "apply_switch OpReset sm = ResetToDefaults sm"

section \<open>The contract of one switch\<close>

text \<open>
  A switch is read by \<open>get\<close>; an operation writes it (\<open>writes op = Some b\<close>) or leaves it alone.
  Then a history leaves the switch at the last value written.
\<close>

locale switch_cell =
  fixes get :: "'s \<Rightarrow> bool" and step :: "'o \<Rightarrow> 's \<Rightarrow> 's" and writes :: "'o \<Rightarrow> bool option"
  assumes get_step: "get (step op s) = (case writes op of Some b \<Rightarrow> b | None \<Rightarrow> get s)"
begin

definition last_write :: "'o list \<Rightarrow> bool \<Rightarrow> bool" where
  "last_write ops b0 = fold (\<lambda>op b. case writes op of Some c \<Rightarrow> c | None \<Rightarrow> b) ops b0"

lemma history: "get (fold step ops s) = last_write ops (get s)"
  by (induction ops arbitrary: s) (auto simp: last_write_def get_step)

lemma untouched: "(\<forall>op \<in> set ops. writes op = None) \<Longrightarrow> get (fold step ops s) = get s"
  by (induction ops arbitrary: s) (auto simp: get_step)

lemma written: "writes op = Some b \<Longrightarrow> \<forall>o' \<in> set later. writes o' = None \<Longrightarrow>
    get (fold step (earlier @ op # later) s) = b"
  by (simp add: untouched get_step)

end

fun writes_aliang :: "switch_op \<Rightarrow> bool option" where
  "writes_aliang (OpUpdate cfg) = map_option (\<lambda>c. AliangEnabled (rc_Settings c)) cfg"
| "writes_aliang (OpAliang b) = Some b"
| "writes_aliang OpDisableAll = Some False"
| "writes_aliang OpEnableAll = Some True"
| "writes_aliang OpReset = Some True"
| "writes_aliang _ = None"

fun writes_socks :: "switch_op \<Rightarrow> bool option" where
  "writes_socks (OpUpdate cfg) = map_option (\<lambda>c. SocksEnabled (rc_Settings c)) cfg"
| "writes_socks (OpSocks b) = Some b"
| "writes_socks OpDisableAll = Some False"
| "writes_socks OpEnableAll = Some True"
| "writes_socks OpReset = Some True"
| "writes_socks _ = None"

fun writes_geoip :: "switch_op \<Rightarrow> bool option" where
  "writes_geoip (OpUpdate cfg) = map_option (\<lambda>c. GeoIPEnabled (rc_Settings c)) cfg"
| "writes_geoip (OpGeoIP b) = Some b"
| "writes_geoip OpDisableAll = Some False"
| "writes_geoip OpEnableAll = Some True"
| "writes_geoip OpReset = Some False"
| "writes_geoip _ = None"

lemmas switch_defs =
  UpdateSwitches_def SetAliangEnabled_def SetSocksEnabled_def SetGeoIPEnabled_def
  DisableAll_def EnableAll_def ResetToDefaults_def IsAliangEnabled_def IsSocksEnabled_def
  IsGeoIPEnabled_def

interpretation aliang_switch: switch_cell IsAliangEnabled apply_switch writes_aliang
proof
  show "IsAliangEnabled (apply_switch op s) =
      (case writes_aliang op of Some b \<Rightarrow> b | None \<Rightarrow> IsAliangEnabled s)" for op s
    by (cases op) (auto simp: switch_defs Let_def split: option.splits)
qed

interpretation socks_switch: switch_cell IsSocksEnabled apply_switch writes_socks
proof
  show "IsSocksEnabled (apply_switch op s) =
      (case writes_socks op of Some b \<Rightarrow> b | None \<Rightarrow> IsSocksEnabled s)" for op s
    by (cases op) (auto simp: switch_defs Let_def split: option.splits)
qed

interpretation geoip_switch: switch_cell IsGeoIPEnabled apply_switch writes_geoip
proof
  show "IsGeoIPEnabled (apply_switch op s) =
      (case writes_geoip op of Some b \<Rightarrow> b | None \<Rightarrow> IsGeoIPEnabled s)" for op s
    by (cases op) (auto simp: switch_defs Let_def split: option.splits)
qed

text \<open>
  The times the manager declares for its switches, when each was last changed, are never written.
\<close>

lemma timestamps_constant:
  "sm_lastUpdatedAt (fold apply_switch ops sm) = sm_lastUpdatedAt sm \<and>
   sm_enabledAt (fold apply_switch ops sm) = sm_enabledAt sm"
proof (induction ops arbitrary: sm)
  case (Cons op ops)
  have "sm_lastUpdatedAt (apply_switch op sm) = sm_lastUpdatedAt sm \<and>
      sm_enabledAt (apply_switch op sm) = sm_enabledAt sm"
    by (cases op) (auto simp: switch_defs Let_def split: option.splits)
  with Cons show ?case by simp
qed simp

section \<open>Properties\<close>

text \<open>
  C6. After the routing rules configuration has been applied, and whatever other switches are set
  by hand afterwards, the status the routing core reads carries the Aliang setting of that
  configuration; and a snapshot compiled from that status routes a domain to Aliang only when
  the setting is on.
\<close>

theorem switch_history:
  assumes "\<forall>op \<in> set later. writes_aliang op = None"
  shows "AliangEnabled (GetStatus (fold apply_switch (earlier @ OpUpdate (Some cfg) # later) GetSwitchManager)) =
      AliangEnabled (rc_Settings cfg) \<and>
    (CompileRuntimeSnapshotFromRuntimeInputs conf
       (GetStatus (fold apply_switch (earlier @ OpUpdate (Some cfg) # later) GetSwitchManager)) = Inr s \<longrightarrow>
     fst (DecideRouteFromSnapshot (Some s) (Some ctx)) = RouteToAliang \<longrightarrow>
     AliangEnabled (rc_Settings cfg))"
proof -
  let ?sm = "fold apply_switch (earlier @ OpUpdate (Some cfg) # later) GetSwitchManager"
  have st: "AliangEnabled (GetStatus ?sm) = AliangEnabled (rc_Settings cfg)"
    using aliang_switch.written [of "OpUpdate (Some cfg)" _ later earlier GetSwitchManager] assms
    by (simp add: GetStatus_def IsAliangEnabled_def)
  have "AliangEnabled (rc_Settings cfg)"
    if comp: "CompileRuntimeSnapshotFromRuntimeInputs conf (GetStatus ?sm) = Inr s"
      and "fst (DecideRouteFromSnapshot (Some s) (Some ctx)) = RouteToAliang"
  proof -
    have c: "CompileRuntimeSnapshot (Some (runtime_canonical conf (GetStatus ?sm))) = Inr s"
      using comp
      by (auto simp: CompileRuntimeSnapshotFromRuntimeInputs_def compileCanonical_eq split: option.splits)
    have "schema_ok (runtime_canonical conf (GetStatus ?sm))" using compile_Inr [OF c] by blast
    from route_of_target_enabled [OF compiled_target_enabled [OF this]] that(2)
    have "eg_ToAliang_Enabled (cs_Egress (runtime_canonical conf (GetStatus ?sm)))"
      unfolding compiled_decision [OF c] fst_conv by blast
    with st show ?thesis by (simp add: runtime_canonical_def)
  qed
  then show ?thesis using st by blast
qed

theorem switch_history_witness:
  "list_all (\<lambda>op. writes_aliang op = None) [OpSocks False, OpGeoIP True] \<and>
   \<not> AliangEnabled (GetStatus (fold apply_switch ([OpEnableAll] @
       OpUpdate (Some (NewRoutingRulesConfig 0\<lparr>rc_Settings := example_switches\<lparr>AliangEnabled := False\<rparr>\<rparr>))
       # [OpSocks False, OpGeoIP True]) GetSwitchManager))"
  using switch_history [of "[OpSocks False, OpGeoIP True]" "[OpEnableAll]"
      "NewRoutingRulesConfig 0\<lparr>rc_Settings := example_switches\<lparr>AliangEnabled := False\<rparr>\<rparr>"]
  by simp

end
