(* ===== verification/Geoip.thy ===== *)
theory Geoip
  imports Netip "HOL-Library.AList"
begin

text \<open>
  The GeoIP service of \<^verbatim>\<open>processor/geoip/service.go\<close> and its cache \<^verbatim>\<open>processor/routing/cache.go\<close>.
  The MaxMind reader is third-party code: an opened database is a value of type \<open>'r\<close> and its
  country lookup is the argument \<open>country\<close>. The file system and the download are the fields of a
  \<open>load_env\<close>. \<^verbatim>\<open>Lookup\<close> takes its lock three times; each critical section is an operation of its
  own, so that invariants can be stated for every interleaving.
\<close>

section \<open>The service\<close>

record CountryInfo =
  ISOCode :: string
  Country_Name :: string

datatype geo_error =
    NotInitialized | LookupFailed | InvalidIP | NoDatabase | NoDefaultPath | ExpandFailed
  | MkdirFailed | DownloadFailed | OpenFailed | CloseFailed

text \<open>\<^verbatim>\<open>net.ParseIP\<close>: an address without zone in its 16-byte form.\<close>

definition ParseIP :: "string \<Rightarrow> 128 word option" where
  "ParseIP s =
     (case ParseAddr s of
        Some (Addr4 w) \<Rightarrow> Some (push_bit 32 0xFFFF + ucast w)
      | Some (Addr6 w z) \<Rightarrow> if z = [] then Some w else None
      | _ \<Rightarrow> None)"

record 'r Service =
  gs_reader :: "'r option"
  gs_enabled :: bool
  gs_dbPath :: string

definition GetService :: "'r Service" where
  "GetService = \<lparr>gs_reader = None, gs_enabled = False, gs_dbPath = []\<rparr>"

record 'r load_env =
  DefaultDatabasePath :: "string option"
  ExpandHomePath :: "string \<Rightarrow> string option"
  file_exists :: "string \<Rightarrow> bool"
  mkdir_ok :: "string \<Rightarrow> bool"
  download_ok :: "string \<Rightarrow> bool"
  geoip2_Open :: "string \<Rightarrow> 'r option"

definition LoadDatabase :: "'r load_env \<Rightarrow> string \<Rightarrow> 'r Service \<Rightarrow> 'r Service \<times> geo_error option" where
  "LoadDatabase env path s =
     (case (if path = [] then DefaultDatabasePath env else Some path) of
        None \<Rightarrow> (s, Some NoDefaultPath)
      | Some path1 \<Rightarrow>
          (case ExpandHomePath env path1 of
             None \<Rightarrow> (s, Some ExpandFailed)
           | Some expanded \<Rightarrow>
               if \<not> file_exists env expanded \<and> \<not> mkdir_ok env expanded then (s, Some MkdirFailed)
               else if \<not> file_exists env expanded \<and> \<not> download_ok env expanded then (s, Some DownloadFailed)
               else (case geoip2_Open env expanded of
                       None \<Rightarrow> (s, Some OpenFailed)
                     | Some reader \<Rightarrow>
                         (s\<lparr>gs_reader := Some reader, gs_dbPath := expanded, gs_enabled := True\<rparr>, None))))"

definition LookupCountry ::
  "('r \<Rightarrow> 128 word \<Rightarrow> CountryInfo option) \<Rightarrow> 'r Service \<Rightarrow> 128 word \<Rightarrow> geo_error + CountryInfo" where
  "LookupCountry country s ip =
     (if \<not> gs_enabled s then Inl NotInitialized
      else (case gs_reader s of
              None \<Rightarrow> Inl NotInitialized
            | Some r \<Rightarrow> (case country r ip of None \<Rightarrow> Inl LookupFailed | Some c \<Rightarrow> Inr c)))"

definition IsChina :: "('r \<Rightarrow> 128 word \<Rightarrow> CountryInfo option) \<Rightarrow> 'r Service \<Rightarrow> 128 word \<Rightarrow> bool" where
  "IsChina country s ip =
     (case LookupCountry country s ip of Inl _ \<Rightarrow> False | Inr c \<Rightarrow> ISOCode c = ''CN'')"

definition Service_IsEnabled :: "'r Service \<Rightarrow> bool" where
  "Service_IsEnabled s = gs_enabled s"

definition GetDatabasePath :: "'r Service \<Rightarrow> string" where
  "GetDatabasePath s = gs_dbPath s"

text \<open>\<open>close_ok\<close> is what closing the reader returns.\<close>

definition Service_Close :: "('r \<Rightarrow> bool) \<Rightarrow> 'r Service \<Rightarrow> 'r Service \<times> geo_error option" where
  "Service_Close close_ok s =
     (let s1 = s\<lparr>gs_enabled := False\<rparr> in
      case gs_reader s1 of
        Some r \<Rightarrow> (s1\<lparr>gs_reader := None\<rparr>, if close_ok r then None else Some CloseFailed)
      | None \<Rightarrow> (s1, None))"

definition Service_Disable :: "'r Service \<Rightarrow> 'r Service" where
  "Service_Disable s = s\<lparr>gs_enabled := False\<rparr>"

definition Service_Enable :: "'r Service \<Rightarrow> 'r Service \<times> geo_error option" where
  "Service_Enable s =
     (if gs_reader s = None then (s, Some NoDatabase) else (s\<lparr>gs_enabled := True\<rparr>, None))"

section \<open>The cache\<close>

record GeoIPCache =
  gc_cache :: "(string \<times> CountryInfo) list"
  gc_maxSize :: int
  gc_hitCount :: "64 word"
  gc_missCount :: "64 word"
  gc_lookupTime :: "64 word"

definition NewGeoIPCache :: "int \<Rightarrow> GeoIPCache" where
  "NewGeoIPCache maxSize = \<lparr>gc_cache = [], gc_maxSize = maxSize, gc_hitCount = 0, gc_missCount = 0,
     gc_lookupTime = 0\<rparr>"

definition GetDefaultCache :: GeoIPCache where
  "GetDefaultCache = NewGeoIPCache 10000"

text \<open>The three critical sections of \<^verbatim>\<open>Lookup\<close>.\<close>

definition lookup_probe :: "string \<Rightarrow> GeoIPCache \<Rightarrow> GeoIPCache \<times> CountryInfo option" where
  "lookup_probe ip gc =
     (case map_of (gc_cache gc) ip of
        Some cached \<Rightarrow> (gc\<lparr>gc_hitCount := gc_hitCount gc + 1\<rparr>, Some cached)
      | None \<Rightarrow> (gc, None))"

definition lookup_miss :: "GeoIPCache \<Rightarrow> GeoIPCache" where
  "lookup_miss gc = gc\<lparr>gc_missCount := gc_missCount gc + 1\<rparr>"

definition lookup_store :: "string \<Rightarrow> CountryInfo \<Rightarrow> GeoIPCache \<Rightarrow> GeoIPCache" where
  "lookup_store ip country gc =
     (let cache = (if int (length (gc_cache gc)) \<ge> gc_maxSize gc then [] else gc_cache gc) in
      gc\<lparr>gc_cache := AList.update ip country cache\<rparr>)"

definition Lookup ::
  "('r \<Rightarrow> 128 word \<Rightarrow> CountryInfo option) \<Rightarrow> 'r Service \<Rightarrow> string \<Rightarrow> GeoIPCache
    \<Rightarrow> GeoIPCache \<times> (geo_error + CountryInfo)" where
  "Lookup country s ip gc =
     (case ParseIP ip of
        None \<Rightarrow> (gc, Inl InvalidIP)
      | Some parsedIP \<Rightarrow>
          (case lookup_probe ip gc of
             (gc1, Some cached) \<Rightarrow> (gc1, Inr cached)
           | (gc1, None) \<Rightarrow>
               let gc2 = lookup_miss gc1 in
               (case LookupCountry country s parsedIP of
                  Inl e \<Rightarrow> (gc2, Inl e)
                | Inr c \<Rightarrow> (lookup_store ip c gc2, Inr c))))"

definition Clear :: "GeoIPCache \<Rightarrow> GeoIPCache" where
  "Clear gc = gc\<lparr>gc_cache := []\<rparr>"

definition ResetStats :: "GeoIPCache \<Rightarrow> GeoIPCache" where
  "ResetStats gc = gc\<lparr>gc_hitCount := 0, gc_missCount := 0, gc_lookupTime := 0\<rparr>"

definition Size :: "GeoIPCache \<Rightarrow> nat" where
  "Size gc = length (gc_cache gc)"

definition GeoIPCache_IsEnabled :: "'r Service \<Rightarrow> bool" where
  "GeoIPCache_IsEnabled s = Service_IsEnabled s"

text \<open>\<^verbatim>\<open>GetStats\<close> without the formatted hit rate: size, bound, hits, misses, total.\<close>

definition GetStats :: "GeoIPCache \<Rightarrow> nat \<times> int \<times> 64 word \<times> 64 word \<times> 64 word" where
  "GetStats gc = (length (gc_cache gc), gc_maxSize gc, gc_hitCount gc, gc_missCount gc,
                  gc_hitCount gc + gc_missCount gc)"

section \<open>Every interleaving\<close>

text \<open>
  The atomic steps of any number of concurrent callers. A store carries a country that some
  caller obtained from the service for the address it stores it under.
\<close>

inductive gc_step ::
  "('r \<Rightarrow> 128 word \<Rightarrow> CountryInfo option) \<Rightarrow> 'r Service \<Rightarrow> GeoIPCache \<Rightarrow> GeoIPCache \<Rightarrow> bool"
  for country s where
  probe: "gc_step country s gc (fst (lookup_probe ip gc))"
| miss: "gc_step country s gc (lookup_miss gc)"
| store: "ParseIP ip = Some a \<Longrightarrow> LookupCountry country s a = Inr c \<Longrightarrow>
    gc_step country s gc (lookup_store ip c gc)"
| clear: "gc_step country s gc (Clear gc)"
| reset: "gc_step country s gc (ResetStats gc)"

inductive_cases gc_stepE: "gc_step country s gc gc'"

definition gc_inv :: "('r \<Rightarrow> 128 word \<Rightarrow> CountryInfo option) \<Rightarrow> 'r Service \<Rightarrow> GeoIPCache \<Rightarrow> bool" where
  "gc_inv country s gc \<longleftrightarrow>
     distinct (map fst (gc_cache gc)) \<and> int (length (gc_cache gc)) \<le> max 1 (gc_maxSize gc) \<and>
     (\<forall>(ip, c) \<in> set (gc_cache gc). \<exists>a. ParseIP ip = Some a \<and> LookupCountry country s a = Inr c)"

lemma length_AList_update: "length (AList.update k v al) \<le> Suc (length al)"
  by (induction al) auto

lemma set_AList_update: "x \<in> set (AList.update k v al) \<Longrightarrow> x = (k, v) \<or> x \<in> set al"
  by (induction al) (auto split: if_splits)

lemma lookup_store_inv:
  assumes "gc_inv country s gc" "ParseIP ip = Some a" "LookupCountry country s a = Inr c"
  shows "gc_inv country s (lookup_store ip c gc)"
proof -
  define cache where "cache = (if int (length (gc_cache gc)) \<ge> gc_maxSize gc then [] else gc_cache gc)"
  have st: "gc_cache (lookup_store ip c gc) = AList.update ip c cache"
      "gc_maxSize (lookup_store ip c gc) = gc_maxSize gc"
    by (simp_all add: lookup_store_def cache_def Let_def)
  have "distinct (map fst cache)" using assms(1) by (simp add: gc_inv_def cache_def)
  moreover have "int (length (AList.update ip c cache)) \<le> max 1 (gc_maxSize gc)"
    using length_AList_update [of ip c cache] by (auto simp: cache_def split: if_splits)
  moreover have "set cache \<subseteq> set (gc_cache gc)" by (auto simp: cache_def)
  ultimately show ?thesis
    using assms unfolding gc_inv_def st
    by (auto simp: distinct_update dest!: set_AList_update)
qed

lemma gc_step_inv: "gc_step country s gc gc' \<Longrightarrow> gc_inv country s gc \<Longrightarrow> gc_inv country s gc'"
proof (erule gc_stepE)
  fix ip a c
  assume "gc_inv country s gc" "gc' = lookup_store ip c gc" "ParseIP ip = Some a"
    "LookupCountry country s a = Inr c"
  then show ?thesis using lookup_store_inv by simp
qed (auto simp: lookup_probe_def lookup_miss_def Clear_def ResetStats_def gc_inv_def split: option.splits)

lemma gc_reachable_inv:
  "(gc_step country s)\<^sup>*\<^sup>* (NewGeoIPCache n) gc \<Longrightarrow> gc_inv country s gc"
proof (induction rule: rtranclp_induct)
  case base
  show ?case by (simp add: gc_inv_def NewGeoIPCache_def)
next
  case (step y z)
  then show ?case using gc_step_inv by blast
qed

section \<open>Properties\<close>

text \<open>
  While the loaded database does not change, the cache is invisible: in every state that any
  interleaving of concurrent callers can reach, a lookup answers exactly what the service itself
  would answer (a rejected address aside), the cache holds at most \<open>max 1 maxSize\<close> entries,
  and each lookup of a valid address counts exactly one hit or one miss.
\<close>

theorem geoip_cache_transparent:
  assumes "(gc_step country s)\<^sup>*\<^sup>* (NewGeoIPCache n) gc"
  shows "snd (Lookup country s ip gc) =
      (case ParseIP ip of None \<Rightarrow> Inl InvalidIP | Some a \<Rightarrow> LookupCountry country s a) \<and>
    int (Size (fst (Lookup country s ip gc))) \<le> max 1 (gc_maxSize gc) \<and>
    (ParseIP ip \<noteq> None \<longrightarrow>
       gc_hitCount (fst (Lookup country s ip gc)) + gc_missCount (fst (Lookup country s ip gc)) =
       gc_hitCount gc + gc_missCount gc + 1)"
proof -
  have inv: "gc_inv country s gc" by (rule gc_reachable_inv [OF assms])
  have hit: "LookupCountry country s a = Inr c"
    if "map_of (gc_cache gc) ip = Some c" "ParseIP ip = Some a" for a c
    using inv map_of_SomeD [OF that(1)] that(2) by (auto simp: gc_inv_def)
  have miss_inv: "gc_inv country s (lookup_miss gc)"
    using gc_step_inv [OF gc_step.miss inv] .
  have "int (length (gc_cache (lookup_store ip c (lookup_miss gc)))) \<le> max 1 (gc_maxSize gc)"
    if "ParseIP ip = Some a" "LookupCountry country s a = Inr c" for a c
    using lookup_store_inv [OF miss_inv that]
    by (simp add: gc_inv_def lookup_store_def lookup_miss_def Let_def)
  with inv hit show ?thesis
    by (auto simp: Lookup_def lookup_probe_def Size_def gc_inv_def Let_def lookup_miss_def lookup_store_def
        split: option.splits sum.splits)
qed

theorem geoip_cache_transparent_witness:
  "snd (Lookup (\<lambda>r ip. Some \<lparr>ISOCode = ''CN'', Country_Name = ''China''\<rparr>)
      \<lparr>gs_reader = Some (), gs_enabled = True, gs_dbPath = ''db''\<rparr> (string4 0x01020304) (NewGeoIPCache 10)) =
   Inr \<lparr>ISOCode = ''CN'', Country_Name = ''China''\<rparr>"
  using geoip_cache_transparent [of "\<lambda>r ip. Some \<lparr>ISOCode = ''CN'', Country_Name = ''China''\<rparr>"
      "\<lparr>gs_reader = Some (), gs_enabled = True, gs_dbPath = ''db''\<rparr>" 10 "NewGeoIPCache 10" "string4 0x01020304"]
  by (simp add: ParseIP_def ParseAddr_string4 LookupCountry_def)

section \<open>Staleness\<close>

text \<open>The cache outlives the service: a cached country is still returned after the service is disabled.\<close>

lemma cached_after_disable:
  assumes "ParseIP ip \<noteq> None" "map_of (gc_cache gc) ip = Some c"
  shows "snd (Lookup country (Service_Disable s) ip gc) = Inr c"
  using assms by (auto simp: Lookup_def lookup_probe_def)

end
