(* ===== verification/Metadata.thy ===== *)
theory Metadata
  imports Netip
begin

text \<open>
  Connection metadata, \<^verbatim>\<open>inbound/tun/metadata\<close>: what is known of a connection, and where its
  host name was learned. The methods that build \<^verbatim>\<open>net\<close> address objects are left out.
\<close>

abbreviation BindingSourceSNI :: string where "BindingSourceSNI \<equiv> ''sni''"
abbreviation BindingSourceHTTP :: string where "BindingSourceHTTP \<equiv> ''http_host''"
abbreviation BindingSourceDNS :: string where "BindingSourceDNS \<equiv> ''dns''"
abbreviation BindingSourceCONNECT :: string where "BindingSourceCONNECT \<equiv> ''connect''"

text \<open>Durations are in nanoseconds.\<close>

definition minute :: duration where "minute = 60000000000"
definition DefaultSNITTL :: duration where "DefaultSNITTL = 5 * minute"
definition DefaultHTTPTTL :: duration where "DefaultHTTPTTL = 10 * minute"
definition DefaultCONNECTTTL :: duration where "DefaultCONNECTTTL = 10 * minute"
definition DefaultDNSTTL :: duration where "DefaultDNSTTL = 30 * minute"

record DNSInfo =
  di_BindingSource :: string
  di_BindingTime :: time
  di_CacheTTL :: duration
  di_ShouldCache :: bool

datatype Network = TCP | UDP | OtherNetwork nat

definition Network_String :: "Network \<Rightarrow> string" where
  "Network_String n = (case n of TCP \<Rightarrow> ''tcp'' | UDP \<Rightarrow> ''udp''
     | OtherNetwork k \<Rightarrow> ''network('' @ digits_of k @ '')'')"

record Metadata =
  md_Network :: Network
  md_ConnID :: string
  md_SrcIP :: Addr
  md_MidIP :: Addr
  md_DstIP :: Addr
  md_SrcPort :: uint16
  md_MidPort :: uint16
  md_DstPort :: uint16
  md_HostName :: string
  md_AppProto :: string
  md_DNSInfo :: "DNSInfo option"
  md_Route :: string

text \<open>\<^verbatim>\<open>AddrPort.String\<close>: IPv6 addresses are bracketed, an invalid address is reported as such.\<close>

definition addr_port_String :: "Addr \<Rightarrow> uint16 \<Rightarrow> string" where
  "addr_port_String a p =
     (case a of
        AddrZero \<Rightarrow> ''invalid AddrPort''
      | Addr4 w \<Rightarrow> string4 w @ '':'' @ digits_of (unat p)
      | Addr6 w z \<Rightarrow> ''['' @ addr_String a @ '']:'' @ digits_of (unat p))"

definition DestinationAddress :: "Metadata \<Rightarrow> string" where
  "DestinationAddress m = addr_port_String (md_DstIP m) (md_DstPort m)"

definition SourceAddress :: "Metadata \<Rightarrow> string" where
  "SourceAddress m = addr_port_String (md_SrcIP m) (md_SrcPort m)"

definition SetHostName :: "time \<Rightarrow> string \<Rightarrow> string \<Rightarrow> duration \<Rightarrow> Metadata \<Rightarrow> Metadata" where
  "SetHostName now hostname source cacheTTL m0 =
     (let m = m0\<lparr>md_HostName := hostname\<rparr> in
      if hostname \<noteq> [] \<and> source \<noteq> [] then
        m\<lparr>md_DNSInfo := Some \<lparr>di_BindingSource = source, di_BindingTime = now, di_CacheTTL = cacheTTL,
                             di_ShouldCache = True\<rparr>\<rparr>
      else m)"

definition SetHostNameFromCacheEntry :: "string \<Rightarrow> string \<Rightarrow> time \<Rightarrow> duration \<Rightarrow> Metadata \<Rightarrow> Metadata" where
  "SetHostNameFromCacheEntry domain source bindingTime cacheTTL m =
     (if domain = [] then m
      else let m1 = m\<lparr>md_HostName := domain\<rparr> in
           if source \<noteq> [] then
             m1\<lparr>md_DNSInfo := Some \<lparr>di_BindingSource = source, di_BindingTime = bindingTime,
                                   di_CacheTTL = cacheTTL, di_ShouldCache = True\<rparr>\<rparr>
           else m1)"

lemma SetHostName_HostName [simp]: "md_HostName (SetHostName now h s ttl m) = h"
  by (simp add: SetHostName_def Let_def)

lemma SetHostName_DstIP [simp]:
  "md_DstIP (SetHostName now h s ttl m) = md_DstIP m" "md_DstPort (SetHostName now h s ttl m) = md_DstPort m"
  "md_Route (SetHostName now h s ttl m) = md_Route m" "md_AppProto (SetHostName now h s ttl m) = md_AppProto m"
  by (simp_all add: SetHostName_def Let_def)

lemma SetHostNameFromCacheEntry_sel [simp]:
  "md_HostName (SetHostNameFromCacheEntry d s t ttl m) = (if d = [] then md_HostName m else d)"
  "md_DstIP (SetHostNameFromCacheEntry d s t ttl m) = md_DstIP m"
  "md_DstPort (SetHostNameFromCacheEntry d s t ttl m) = md_DstPort m"
  by (simp_all add: SetHostNameFromCacheEntry_def Let_def)

end
