(* ===== verification/Rule_Engine.thy ===== *)
theory Rule_Engine
  imports Cache_Invariant Switch_Manager Geoip Metadata
begin

text \<open>
  The rule engine of \<^verbatim>\<open>processor/rules/engine.go\<close>: routing decisions memoised in the IP and
  domain cache. The global configuration, the switches and the GeoIP service are read through an
  \<open>engine_env\<close>; the engine's pointer to the GeoIP singleton is the flag whether it is set. The
  engine state is passed explicitly. An evaluation reads the clock once.
\<close>

section \<open>State\<close>

record EvaluationContext =
  ctx_DstIP :: Addr
  ctx_DstPort :: uint16
  ctx_SrcIP :: Addr
  ctx_Domain :: string
  ctx_Protocol :: string

record RuleResult =
  rr_Route :: RouteDecision
  rr_MatchedRule :: string
  rr_RequiresSNI :: bool
  rr_Reason :: string

record RuleEngine =
  re_geoipService :: bool
  re_ipDomainCache :: "IPDomainCache option"
  re_chinaDirect :: bool
  re_enabled :: bool

record 'r engine_env =
  GetGlobalConfig :: "Config option"
  env_switches :: SwitchManager
  env_geoip :: "'r Service"
  env_country :: "'r \<Rightarrow> 128 word \<Rightarrow> CountryInfo option"

definition GetEngine :: "RuleEngine" where
  "GetEngine = \<lparr>re_geoipService = False, re_ipDomainCache = None, re_chinaDirect = False, re_enabled = False\<rparr>"

definition GetCache :: "RuleEngine \<Rightarrow> IPDomainCache option" where
  "GetCache e = re_ipDomainCache e"

definition Initialize :: "RuleEngine \<Rightarrow> RuleEngine" where
  "Initialize e =
     e\<lparr>re_geoipService := True,
       re_ipDomainCache := (case re_ipDomainCache e of
          None \<Rightarrow> Some (NewIPDomainCache 10000 (5 * minute)) | Some c \<Rightarrow> Some c),
       re_enabled := True\<rparr>"

section \<open>The stages of an evaluation\<close>

definition compileRuntimeSnapshot :: "'r engine_env \<Rightarrow> schema_error + RuntimeSnapshot" where
  "compileRuntimeSnapshot env =
     CompileRuntimeSnapshotFromRuntimeInputs (GetGlobalConfig env) (GetStatus (env_switches env))"

definition checkCache :: "time \<Rightarrow> EvaluationContext \<Rightarrow> RuleEngine \<Rightarrow> RuleEngine \<times> RuleResult option" where
  "checkCache now ctx e =
     (case re_ipDomainCache e of
        None \<Rightarrow> (e, None)
      | Some c0 \<Rightarrow>
          let (c1, byDomain) = (if ctx_Domain ctx \<noteq> [] then Get now (ctx_Domain ctx) c0 else (c0, None)) in
          (case byDomain of
             Some p \<Rightarrow>
               (e\<lparr>re_ipDomainCache := Some c1\<rparr>,
                Some \<lparr>rr_Route = ce_Route (entry_at c1 p), rr_MatchedRule = ''cache_domain'', rr_RequiresSNI = False,
                      rr_Reason = ''Cache hit for domain '' @ ctx_Domain ctx\<rparr>)
           | None \<Rightarrow>
               let ipKey = addr_String (ctx_DstIP ctx); (c2, byIP) = Get now ipKey c1 in
               (e\<lparr>re_ipDomainCache := Some c2\<rparr>,
                map_option (\<lambda>p. \<lparr>rr_Route = ce_Route (entry_at c2 p), rr_MatchedRule = ''cache_ip'',
                                 rr_RequiresSNI = False,
                                 rr_Reason = ''Cache hit for IP '' @ addr_String (ctx_DstIP ctx)\<rparr>) byIP)))"

definition checkAllowlist :: "'r engine_env \<Rightarrow> EvaluationContext \<Rightarrow> RuleResult option" where
  "checkAllowlist env ctx =
     (if ctx_Domain ctx = [] then None
      else (case compileRuntimeSnapshot env of
              Inl _ \<Rightarrow> None
            | Inr snapshot \<Rightarrow>
                if list_ex (\<lambda>rule. sr_enabled rule \<and> sr_ruleType rule = ''domain'' \<and>
                       sr_target rule = SnapshotActionToAliang \<and>
                       MatchDomain (sr_condition rule) (ctx_Domain ctx)) (Rules (Some snapshot))
                then Some \<lparr>rr_Route = RouteToAliang, rr_MatchedRule = ''snapshot_allowlist'', rr_RequiresSNI = False,
                           rr_Reason = ''Domain '' @ ctx_Domain ctx @ '' matched snapshot allowlist''\<rparr>
                else if cap_toSocks (BranchCapabilities (Some snapshot)) then
                  Some \<lparr>rr_Route = RouteToSocks, rr_MatchedRule = ''snapshot_default_socks'', rr_RequiresSNI = False,
                        rr_Reason = ''Default route to SOCKS proxy from snapshot''\<rparr>
                else None))"

text \<open>\<^verbatim>\<open>Addr.AsSlice\<close> as a 16-byte address; an invalid address gives no bytes, which no database knows.\<close>

definition as_ip :: "Addr \<Rightarrow> 128 word option" where
  "as_ip a = (case a of AddrZero \<Rightarrow> None | Addr4 w \<Rightarrow> Some (push_bit 32 0xFFFF + ucast w) | Addr6 w _ \<Rightarrow> Some w)"

definition checkGeoIP :: "'r engine_env \<Rightarrow> EvaluationContext \<Rightarrow> RuleEngine \<Rightarrow> RuleResult option" where
  "checkGeoIP env ctx e =
     (if \<not> re_geoipService e \<or> \<not> Service_IsEnabled (env_geoip env) then None
      else
            let isChina = (case as_ip (ctx_DstIP ctx) of
                    None \<Rightarrow> False | Some ip \<Rightarrow> IsChina (env_country env) (env_geoip env) ip);
                ipText = addr_String (ctx_DstIP ctx) in
            if isChina then
              (if re_chinaDirect e then
                 Some \<lparr>rr_Route = RouteDirect, rr_MatchedRule = ''geoip_china'', rr_RequiresSNI = False,
                       rr_Reason = ''IP '' @ ipText @ '' is in China (direct route)''\<rparr>
               else
                 Some \<lparr>rr_Route = RouteToSocks, rr_MatchedRule = ''geoip_china'', rr_RequiresSNI = False,
                       rr_Reason = ''IP '' @ ipText @ '' is in China (accelerated route)''\<rparr>)
            else Some \<lparr>rr_Route = RouteToSocks, rr_MatchedRule = ''geoip_foreign'', rr_RequiresSNI = False,
                       rr_Reason = ''IP '' @ ipText @ '' is outside China (accelerated)''\<rparr>)"

definition defaultRoute :: "EvaluationContext \<Rightarrow> RuleResult" where
  "defaultRoute ctx =
     \<lparr>rr_Route = RouteDirect, rr_MatchedRule = ''default'',
      rr_RequiresSNI = (ctx_DstPort ctx = 443 \<and> ctx_Domain ctx = []),
      rr_Reason = ''No rules matched, using default route''\<rparr>"

definition evaluateWithSnapshot :: "RuntimeSnapshot \<Rightarrow> EvaluationContext \<Rightarrow> RuleResult" where
  "evaluateWithSnapshot snapshot ctx =
     (let routeCtx = \<lparr>mc_Domain = ctx_Domain ctx,
                      mc_IP = (if IsValid (ctx_DstIP ctx) \<and> \<not> IsUnspecified (ctx_DstIP ctx)
                               then addr_String (ctx_DstIP ctx) else [])\<rparr>;
          requiresSNI = (ctx_DstPort ctx = 443 \<and> ctx_Domain ctx = []) in
      case DecideRouteFromSnapshot (Some snapshot) (Some routeCtx) of
        (_, Some _) \<Rightarrow> defaultRoute ctx
      | (decision, None) \<Rightarrow>
          (case decision of
             RouteToAliang \<Rightarrow> \<lparr>rr_Route = RouteToAliang, rr_MatchedRule = ''snapshot'',
               rr_RequiresSNI = requiresSNI, rr_Reason = ''snapshot decision: toAliang''\<rparr>
           | RouteToSocks \<Rightarrow> \<lparr>rr_Route = RouteToSocks, rr_MatchedRule = ''snapshot'',
               rr_RequiresSNI = requiresSNI, rr_Reason = ''snapshot decision: toSocks''\<rparr>
           | RouteDeny \<Rightarrow> \<lparr>rr_Route = RouteDeny, rr_MatchedRule = ''snapshot_deny'',
               rr_RequiresSNI = False, rr_Reason = ''snapshot decision: deny''\<rparr>
           | RouteDirect \<Rightarrow> \<lparr>rr_Route = RouteDirect, rr_MatchedRule = ''snapshot'',
               rr_RequiresSNI = requiresSNI, rr_Reason = ''snapshot decision: direct''\<rparr>))"

definition cacheResult :: "time \<Rightarrow> EvaluationContext \<Rightarrow> RuleResult \<Rightarrow> RuleEngine \<Rightarrow> RuleEngine" where
  "cacheResult now ctx result e =
     (case re_ipDomainCache e of
        None \<Rightarrow> e
      | Some c0 \<Rightarrow>
          let (c1, p) = new_entry \<lparr>ce_Domain = ctx_Domain ctx, ce_IP = ctx_DstIP ctx,
                                   ce_Route = rr_Route result, ce_BindingSources = [],
                                   ce_ExpiresAt = 0, ce_CreatedAt = 0, ce_HitCount = 0\<rparr> c0;
              c2 = (if ctx_Domain ctx \<noteq> [] then Set now (ctx_Domain ctx) p c1 else c1) in
          e\<lparr>re_ipDomainCache := Some (Set now (addr_String (ctx_DstIP ctx)) p c2)\<rparr>)"

definition EvaluateRoute ::
  "'r engine_env \<Rightarrow> time \<Rightarrow> EvaluationContext \<Rightarrow> RuleEngine
    \<Rightarrow> RuleEngine \<times> (schema_error + RuleResult)" where
  "EvaluateRoute env now ctx e =
     (if \<not> re_enabled e then
        (e, Inr \<lparr>rr_Route = RouteDirect, rr_MatchedRule = [], rr_RequiresSNI = (ctx_DstPort ctx = 443),
                 rr_Reason = ''rule engine disabled''\<rparr>)
      else
        (case compileRuntimeSnapshot env of
           Inl err \<Rightarrow> (e, Inl err)
         | Inr snapshot \<Rightarrow>
             (case checkCache now ctx e of
                (e1, Some result) \<Rightarrow> (e1, Inr result)
              | (e1, None) \<Rightarrow>
                  (case (if ctx_Domain ctx \<noteq> [] then checkAllowlist env ctx else None) of
                     Some result \<Rightarrow> (cacheResult now ctx result e1, Inr result)
                   | None \<Rightarrow>
                       (case checkGeoIP env ctx e1 of
                          Some result \<Rightarrow> (cacheResult now ctx result e1, Inr result)
                        | None \<Rightarrow>
                            let result = evaluateWithSnapshot snapshot ctx in
                            (cacheResult now ctx result e1, Inr result))))))"

section \<open>Bindings and administration\<close>

definition route_of_name :: "string \<Rightarrow> RouteDecision" where
  "route_of_name s =
     (if s = ''RouteToALiang'' then RouteToAliang
      else if s = ''RouteToSocks'' then RouteToSocks
      else if s = ''RouteDirect'' then RouteDirect
      else RouteDirect)"

definition StoreBinding :: "time \<Rightarrow> Metadata option \<Rightarrow> RuleEngine \<Rightarrow> RuleEngine" where
  "StoreBinding now metadata e =
     (case re_ipDomainCache e of None \<Rightarrow> e
      | Some c0 \<Rightarrow>
     (case metadata of None \<Rightarrow> e
      | Some m \<Rightarrow>
     (case md_DNSInfo m of None \<Rightarrow> e
      | Some di \<Rightarrow>
          if \<not> di_ShouldCache di then e
          else if md_HostName m = [] \<or> IsUnspecified (md_DstIP m) then e
          else
            let (c1, p) = new_entry
                  \<lparr>ce_Domain = md_HostName m, ce_IP = md_DstIP m, ce_Route = route_of_name (md_Route m),
                   ce_BindingSources = [di_BindingSource di],
                   ce_ExpiresAt = di_BindingTime di + di_CacheTTL di, ce_CreatedAt = di_BindingTime di,
                   ce_HitCount = 0\<rparr> c0 in
            e\<lparr>re_ipDomainCache := Some (SetWithTTL now (md_HostName m) p (di_CacheTTL di) c1)\<rparr>)))"

definition Engine_IsEnabled :: "RuleEngine \<Rightarrow> bool" where
  "Engine_IsEnabled e = re_enabled e"

definition GetCacheStats :: "time \<Rightarrow> RuleEngine \<Rightarrow> cache_stats option" where
  "GetCacheStats now e = map_option (Stats now) (re_ipDomainCache e)"

definition ClearCache :: "RuleEngine \<Rightarrow> RuleEngine" where
  "ClearCache e = (case re_ipDomainCache e of None \<Rightarrow> e
     | Some c \<Rightarrow> e\<lparr>re_ipDomainCache := Some (Cache_Clear c)\<rparr>)"

definition Engine_Disable :: "RuleEngine \<Rightarrow> RuleEngine" where
  "Engine_Disable e = e\<lparr>re_enabled := False\<rparr>"

definition Engine_Enable :: "RuleEngine \<Rightarrow> RuleEngine" where
  "Engine_Enable e = e\<lparr>re_enabled := True\<rparr>"

section \<open>Lemmas\<close>

lemma heap_index_ops [simp]:
  "ic_heap (updateIPIndex p c) = ic_heap c" "ic_defaultTTL (updateIPIndex p c) = ic_defaultTTL c"
  "ic_defaultTTL (evictOldest c) = ic_defaultTTL c" "ic_defaultTTL (push_entry k p c) = ic_defaultTTL c"
  by (simp_all add: updateIPIndex_def evictOldest_def removeFromIPIndex_def unlink_def push_entry_def Let_def)

lemma Set_heap: "ic_heap (Set now k p c) = (ic_heap c)[p := stamp now (ic_defaultTTL c) (entry_at c p)]"
  and Set_TTL: "ic_defaultTTL (Set now k p c) = ic_defaultTTL c"
  by (auto simp: Set_def Let_def split: option.splits)

lemma Get_TTL: "ic_defaultTTL (fst (Get now k c)) = ic_defaultTTL c"
  by (auto simp: Get_def Let_def unlink_def split: option.splits)

lemma Get_route: "snd (Get now k c) = Some p \<Longrightarrow> p < length (ic_heap c) \<Longrightarrow>
    ce_Route (entry_at (fst (Get now k c)) q) = ce_Route (entry_at c q)"
  by (cases "q = p")
     (auto simp: Get_def Let_def unlink_def nth_list_update split: option.splits if_splits)

lemma reach_Get: "cache_reach n ttl c \<Longrightarrow> cache_reach n ttl (fst (Get now k c))"
  using cache_reach.step [of n ttl c "OpGet now k"] by simp

lemma reach_new: "cache_reach n ttl c \<Longrightarrow> cache_reach n ttl (fst (new_entry e c))"
  using cache_reach.step [of n ttl c "OpNew e"] by simp

lemma reach_Set: "cache_reach n ttl c \<Longrightarrow> p < length (ic_heap c) \<Longrightarrow> cache_reach n ttl (Set now k p c)"
  using cache_reach.step [of n ttl c "OpSet now k p"] by simp

text \<open>Both keys of an entry stored twice are found again.\<close>

lemma stored_twice:
  assumes "cache_reach (int n) ttl c" "p < length (ic_heap c)" "2 \<le> n"
    and "\<not> IsExpired now' (entry_at (Set now j p (Set now k p c)) p)"
  shows "snd (Get now' k (Set now j p (Set now k p c))) = Some p"
    and "snd (Get now' j (Set now j p (Set now k p c))) = Some p"
proof -
  have r: "cache_reach (int n) ttl (Set now k p c)" and l: "p < length (ic_heap (Set now k p c))"
    using assms reach_Set by (auto simp: Set_heap)
  show j: "snd (Get now' j (Set now j p (Set now k p c))) = Some p"
    using lru_retention_fact [OF r l, of "[]" now j now'] assms by simp
  show "snd (Get now' k (Set now j p (Set now k p c))) = Some p"
    using lru_retention_fact [OF assms(1,2), of "[OpSet now j p]" now k now'] assms j l
    by (cases "j = k") (auto simp: keeps_def)
qed

lemma checkCache_miss:
  assumes "checkCache now ctx e = (e1, None)" "re_ipDomainCache e = Some c" "cache_reach (int n) ttl c"
  shows "\<exists>c1. e1 = e\<lparr>re_ipDomainCache := Some c1\<rparr> \<and> cache_reach (int n) ttl c1 \<and> ic_defaultTTL c1 = ic_defaultTTL c"
  using assms reach_Get [OF assms(3)] reach_Get [OF reach_Get [OF assms(3)]]
  by (auto simp: checkCache_def Let_def Get_TTL case_prod_beta split: option.splits if_splits)

text \<open>Where the answer did not come from the cache, it has been put there.\<close>

lemma evaluate_miss:
  assumes "EvaluateRoute env now ctx e = (e', Inr r)" "re_enabled e" "re_ipDomainCache e = Some c"
    and "cache_reach (int n) ttl c" "rr_MatchedRule r \<notin> {''cache_domain'', ''cache_ip''}"
  shows "\<exists>c1. e' = cacheResult now ctx r (e\<lparr>re_ipDomainCache := Some c1\<rparr>) \<and> cache_reach (int n) ttl c1 \<and>
    ic_defaultTTL c1 = ic_defaultTTL c"
proof -
  obtain e1 res where cc: "checkCache now ctx e = (e1, res)" by fastforce
  have "res = None"
  proof (rule ccontr)
    assume "res \<noteq> None"
    then obtain r1 where r1: "res = Some r1" by blast
    then have "rr_MatchedRule r1 \<in> {''cache_domain'', ''cache_ip''}"
      using cc by (auto simp: checkCache_def Let_def case_prod_beta split: option.splits if_splits)
    moreover have "r = r1"
      using assms(1,2) cc r1 by (auto simp: EvaluateRoute_def split: sum.splits)
    ultimately show False using assms(5) by blast
  qed
  moreover from this cc have "e' = cacheResult now ctx r e1"
    using assms(1,2) by (auto simp: EvaluateRoute_def Let_def split: sum.splits option.splits)
  ultimately show ?thesis
    using checkCache_miss [of now ctx e e1 c n ttl] cc assms(3,4) by blast
qed

lemma cacheResult_lookup:
  assumes "cache_reach (int n) ttl c" "2 \<le> n" "now' \<le> now + ic_defaultTTL c"
    and "re_ipDomainCache (cacheResult now ctx r (e\<lparr>re_ipDomainCache := Some c\<rparr>)) = Some c'"
  shows "\<exists>p. p < length (ic_heap c') \<and> ce_Route (entry_at c' p) = rr_Route r \<and>
    snd (Get now' (addr_String (ctx_DstIP ctx)) c') = Some p \<and>
    (ctx_Domain ctx \<noteq> [] \<longrightarrow> snd (Get now' (ctx_Domain ctx) c') = Some p)"
proof -
  let ?ent = "\<lparr>ce_Domain = ctx_Domain ctx, ce_IP = ctx_DstIP ctx, ce_Route = rr_Route r,
     ce_BindingSources = [], ce_ExpiresAt = 0, ce_CreatedAt = 0, ce_HitCount = 0\<rparr>"
  define c1 where "c1 = fst (new_entry ?ent c)"
  define p where "p = length (ic_heap c)"
  define k where "k = (if ctx_Domain ctx \<noteq> [] then ctx_Domain ctx else addr_String (ctx_DstIP ctx))"
  have c1: "cache_reach (int n) ttl c1" "p < length (ic_heap c1)" "entry_at c1 p = ?ent"
    "ic_defaultTTL c1 = ic_defaultTTL c"
    using reach_new [OF assms(1)] by (simp_all add: c1_def p_def new_entry_def nth_append)
  have c': "c' = Set now (addr_String (ctx_DstIP ctx)) p
      (if ctx_Domain ctx \<noteq> [] then Set now (ctx_Domain ctx) p c1 else c1)"
    using assms(4) by (auto simp: cacheResult_def Let_def new_entry_def c1_def p_def)
  have exp: "entry_at c' p = (entry_at c' p)\<lparr>ce_ExpiresAt := now + ic_defaultTTL c\<rparr>"
    "ce_Route (entry_at c' p) = rr_Route r" "p < length (ic_heap c')"
    using c1 by (auto simp: c' Set_heap Set_TTL stamp_def)
  then have live: "\<not> IsExpired now' (entry_at c' p)"
    using assms(3) by (metis IsExpired_def CacheEntry.select_convs(5) CacheEntry.surjective
        CacheEntry.update_convs(5) linorder_not_less)
  show ?thesis
  proof (cases "ctx_Domain ctx = []")
    case True
    then have "snd (Get now' (addr_String (ctx_DstIP ctx)) c') = Some p"
      using lru_retention_fact [OF c1(1,2), of "[]" now _ now'] live assms(2) by (simp add: c')
    with True exp show ?thesis by auto
  next
    case False
    with stored_twice [OF c1(1,2) assms(2), where now = now and now' = now' and k = "ctx_Domain ctx"
        and j = "addr_String (ctx_DstIP ctx)"] live
    have "snd (Get now' (addr_String (ctx_DstIP ctx)) c') = Some p"
      "snd (Get now' (ctx_Domain ctx) c') = Some p" by (auto simp: c')
    with exp show ?thesis by auto
  qed
qed

lemma cacheResult_frame [simp]:
  "re_enabled (cacheResult now ctx r e) = re_enabled e"
  "re_ipDomainCache e \<noteq> None \<Longrightarrow> re_ipDomainCache (cacheResult now ctx r e) \<noteq> None"
  by (auto simp: cacheResult_def Let_def split: option.splits prod.splits)

lemma checkCache_hit:
  assumes "re_ipDomainCache e = Some c" "p < length (ic_heap c)"
    and "ctx_Domain ctx \<noteq> [] \<Longrightarrow> snd (Get now (ctx_Domain ctx) c) = Some p"
    and "ctx_Domain ctx = [] \<Longrightarrow> snd (Get now (addr_String (ctx_DstIP ctx)) c) = Some p"
  shows "\<exists>e1 r. checkCache now ctx e = (e1, Some r) \<and> rr_Route r = ce_Route (entry_at c p) \<and>
    rr_MatchedRule r \<in> {''cache_domain'', ''cache_ip''}"
  using assms Get_route [of now _ c p p]
  by (cases "ctx_Domain ctx = []") (auto simp: checkCache_def Let_def case_prod_beta)

lemma allowlist_normal: "p \<in> set (EffectiveAIAllowlist cfg) \<Longrightarrow> ToLower (TrimSpace p) = p"
  by (auto simp: EffectiveAIAllowlist_def dedupeTrimmedDomains_def dedupe_loop_mem_idem
      split: option.splits if_splits)

lemma list_ex_numbered:
  "list_ex (\<lambda>rule. sr_enabled rule \<and> sr_ruleType rule = ''domain'' \<and> sr_target rule = T \<and>
       MatchDomain (sr_condition rule) d)
     (map snapshot_rule_of (numbered_rules pre t ds)) \<longleftrightarrow> t = T \<and> (\<exists>p \<in> set ds. MatchDomain (ToLower (TrimSpace p)) d)"
proof -
  have ty: "ToLower (TrimSpace ''domain'') = ''domain''" by code_simp
  have "snd ` set (enumerate 0 ds) = set ds" by (metis list.set_map map_snd_enumerate)
  then have "(\<exists>d \<in> set ds. Q d) \<longleftrightarrow> (\<exists>x \<in> set (enumerate 0 ds). Q (snd x))" for Q
    by (metis (no_types, lifting) image_iff)
  then show ?thesis
    by (auto simp: list_ex_iff numbered_rules_def snapshot_rule_of_def ty case_prod_beta)
qed

lemma engine_snapshot:
  assumes "compileRuntimeSnapshot env = Inr s"
  shows "list_ex (\<lambda>rule. sr_enabled rule \<and> sr_ruleType rule = ''domain'' \<and>
      sr_target rule = SnapshotActionToAliang \<and> MatchDomain (sr_condition rule) d) (rs_rules s) \<longleftrightarrow>
    (\<exists>p \<in> set (EffectiveAIAllowlist (GetGlobalConfig env)). MatchDomain p d)" (is ?ai)
    and "cap_toSocks (rs_capabilities s) = socks_available (GetGlobalConfig env) (GetStatus (env_switches env))"
proof -
  let ?can = "runtime_canonical (GetGlobalConfig env) (GetStatus (env_switches env))"
  have c: "CompileRuntimeSnapshot (Some ?can) = Inr s"
    using assms
    by (auto simp: compileRuntimeSnapshot_def CompileRuntimeSnapshotFromRuntimeInputs_def compileCanonical_eq
        split: option.splits)
  show ?ai
    using compile_Inr [OF c] allowlist_normal [of _ "GetGlobalConfig env"]
    by (auto simp: runtime_canonical_def list_ex_numbered resolveProxyRuleTarget_def action_defs)
  show "cap_toSocks (rs_capabilities s) = socks_available (GetGlobalConfig env) (GetStatus (env_switches env))"
    using compile_Inr [OF c] by (simp add: runtime_canonical_def)
qed

section \<open>Properties\<close>

text \<open>
  The order of an evaluation that the cache does not answer: a domain covered by an enabled
  AI rule goes to Aliang; any other domain goes to SOCKS whenever the SOCKS branch is usable;
  otherwise an enabled GeoIP database decides (SOCKS, or direct for a Chinese address when so
  configured); otherwise the snapshot decision is direct. A disabled engine answers direct, and
  an evaluation fails exactly when the snapshot cannot be compiled.
\<close>

theorem evaluation_order:
  "snd (EvaluateRoute env now ctx e) =
    (if \<not> re_enabled e then
       Inr \<lparr>rr_Route = RouteDirect, rr_MatchedRule = [], rr_RequiresSNI = (ctx_DstPort ctx = 443),
            rr_Reason = ''rule engine disabled''\<rparr>
     else (case compileRuntimeSnapshot env of
       Inl err \<Rightarrow> Inl err
     | Inr s \<Rightarrow>
       (case snd (checkCache now ctx e) of
          Some r \<Rightarrow> Inr r
        | None \<Rightarrow>
            Inr (if \<exists>p \<in> set (EffectiveAIAllowlist (GetGlobalConfig env)). MatchDomain p (ctx_Domain ctx) then
                   \<lparr>rr_Route = RouteToAliang, rr_MatchedRule = ''snapshot_allowlist'', rr_RequiresSNI = False,
                    rr_Reason = ''Domain '' @ ctx_Domain ctx @ '' matched snapshot allowlist''\<rparr>
                 else if ctx_Domain ctx \<noteq> [] \<and> socks_available (GetGlobalConfig env) (GetStatus (env_switches env)) then
                   \<lparr>rr_Route = RouteToSocks, rr_MatchedRule = ''snapshot_default_socks'', rr_RequiresSNI = False,
                    rr_Reason = ''Default route to SOCKS proxy from snapshot''\<rparr>
                 else (case checkGeoIP env ctx e of
                         Some r \<Rightarrow> r
                       | None \<Rightarrow> evaluateWithSnapshot s ctx)))))"
proof -
  have geo: "checkGeoIP env ctx e1 = checkGeoIP env ctx e" if "checkCache now ctx e = (e1, x)" for e1 x
    using that by (auto simp: checkCache_def checkGeoIP_def Let_def case_prod_beta split: option.splits if_splits)
  have allow: "checkAllowlist env ctx =
      (if \<exists>p \<in> set (EffectiveAIAllowlist (GetGlobalConfig env)). MatchDomain p (ctx_Domain ctx) then
         Some \<lparr>rr_Route = RouteToAliang, rr_MatchedRule = ''snapshot_allowlist'', rr_RequiresSNI = False,
           rr_Reason = ''Domain '' @ ctx_Domain ctx @ '' matched snapshot allowlist''\<rparr>
       else if socks_available (GetGlobalConfig env) (GetStatus (env_switches env)) then
         Some \<lparr>rr_Route = RouteToSocks, rr_MatchedRule = ''snapshot_default_socks'', rr_RequiresSNI = False,
           rr_Reason = ''Default route to SOCKS proxy from snapshot''\<rparr>
       else None)"
    if "compileRuntimeSnapshot env = Inr s" "ctx_Domain ctx \<noteq> []" for s
    using that engine_snapshot(1) [OF that(1), of "ctx_Domain ctx"] engine_snapshot(2) [OF that(1)]
    by (simp add: checkAllowlist_def Rules_def BranchCapabilities_def)
  have "\<not> MatchDomain p []" for p by (simp add: MatchDomain_iff)
  then show ?thesis
    using geo allow
    by (auto simp: EvaluateRoute_def Let_def split: sum.splits option.splits prod.splits)
qed

text \<open>
  Decisions are memoised: once a connection has been decided by the rules, evaluating the same
  destination and domain again before the entry expires returns the same route from the cache,
  whatever configuration or switches are then in force (as long as they still compile).
\<close>

theorem route_memoised:
  assumes "EvaluateRoute env now ctx e = (e', Inr r)" "re_enabled e" "re_ipDomainCache e = Some c"
    and "cache_reach (int n) ttl c" "2 \<le> n" "rr_MatchedRule r \<notin> {''cache_domain'', ''cache_ip''}"
    and "compileRuntimeSnapshot env' = Inr s'" "now' \<le> now + ic_defaultTTL c"
  shows "\<exists>e'' r'. EvaluateRoute env' now' ctx e' = (e'', Inr r') \<and> rr_Route r' = rr_Route r \<and>
    rr_MatchedRule r' \<in> {''cache_domain'', ''cache_ip''}"
proof -
  from evaluate_miss [OF assms(1-4,6)] obtain c1 where
    e': "e' = cacheResult now ctx r (e\<lparr>re_ipDomainCache := Some c1\<rparr>)"
    and c1: "cache_reach (int n) ttl c1" "ic_defaultTTL c1 = ic_defaultTTL c" by blast
  have "re_ipDomainCache e' \<noteq> None" unfolding e' by (rule cacheResult_frame(2)) simp
  then obtain c' where c': "re_ipDomainCache e' = Some c'" by blast
  from cacheResult_lookup [OF c1(1) assms(5), of now' now ctx r e c'] c' c1 assms(8) e'
  obtain p where p: "p < length (ic_heap c')" "ce_Route (entry_at c' p) = rr_Route r"
    "snd (Get now' (addr_String (ctx_DstIP ctx)) c') = Some p"
    "ctx_Domain ctx \<noteq> [] \<Longrightarrow> snd (Get now' (ctx_Domain ctx) c') = Some p" by auto
  from checkCache_hit [OF c' p(1), of ctx now'] p
  obtain e1 r1 where hit: "checkCache now' ctx e' = (e1, Some r1)" "rr_Route r1 = rr_Route r"
    "rr_MatchedRule r1 \<in> {''cache_domain'', ''cache_ip''}" by auto
  have "re_enabled e'" using assms(2) by (simp add: e')
  with hit assms(7) have "EvaluateRoute env' now' ctx e' = (e1, Inr r1)"
    by (simp add: EvaluateRoute_def)
  with hit show ?thesis by blast
qed

text \<open>
  A decision is shared by address: after one domain has been decided by the rules, a second
  domain on the same address that the cache does not know is answered with the first domain's
  route, without looking at the rules.
\<close>

theorem shared_address_route:
  assumes "EvaluateRoute env now ctx e = (e', Inr r)" "re_enabled e" "re_ipDomainCache e = Some c"
    and "cache_reach (int n) ttl c" "2 \<le> n" "rr_MatchedRule r \<notin> {''cache_domain'', ''cache_ip''}"
    and "compileRuntimeSnapshot env' = Inr s'" "now' \<le> now + ic_defaultTTL c"
    and "ctx_DstIP ctx2 = ctx_DstIP ctx" "re_ipDomainCache e' = Some c'"
    and "map_of (ic_entries c') (ctx_Domain ctx2) = None"
  shows "\<exists>e'' r'. EvaluateRoute env' now' ctx2 e' = (e'', Inr r') \<and> rr_Route r' = rr_Route r \<and>
    rr_MatchedRule r' = ''cache_ip''"
proof -
  from evaluate_miss [OF assms(1-4,6)] obtain c1 where
    e': "e' = cacheResult now ctx r (e\<lparr>re_ipDomainCache := Some c1\<rparr>)"
    and c1: "cache_reach (int n) ttl c1" "ic_defaultTTL c1 = ic_defaultTTL c" by blast
  from cacheResult_lookup [OF c1(1) assms(5), of now' now ctx r e c'] assms(10) c1 assms(8) e'
  obtain p where p: "p < length (ic_heap c')" "ce_Route (entry_at c' p) = rr_Route r"
    "snd (Get now' (addr_String (ctx_DstIP ctx)) c') = Some p" by auto
  define c2 where "c2 = (if ctx_Domain ctx2 \<noteq> [] then c'\<lparr>ic_misses := ic_misses c' + 1\<rparr> else c')"
  have miss: "(if ctx_Domain ctx2 \<noteq> [] then Get now' (ctx_Domain ctx2) c' else (c', None)) = (c2, None)"
    using assms(11) by (simp add: Get_def c2_def)
  have "snd (Get now' (addr_String (ctx_DstIP ctx)) c2) = Some p"
    using p(3) by (auto simp: c2_def Get_def Let_def split: option.splits)
  moreover from Get_route [OF this, of p] p(1,2)
  have "ce_Route (entry_at (fst (Get now' (addr_String (ctx_DstIP ctx)) c2)) p) = rr_Route r"
    by (simp add: c2_def split: if_splits)
  ultimately have "\<exists>e1 r1. checkCache now' ctx2 e' = (e1, Some r1) \<and> rr_Route r1 = rr_Route r \<and>
      rr_MatchedRule r1 = ''cache_ip''"
    using assms(9,10) by (auto simp: checkCache_def Let_def miss case_prod_beta)
  moreover have "re_enabled e'" using assms(2) by (simp add: e')
  ultimately show ?thesis using assms(7) by (auto simp: EvaluateRoute_def)
qed

text \<open>
  A stored binding is found by its host name for exactly its time to live: looking the host up
  until then returns an entry with that name, the destination address and the route recorded in
  the metadata; any recorded route other than the two proxy routes is stored as direct.
\<close>

theorem stored_binding_found:
  assumes "re_ipDomainCache e = Some c" "cache_reach (int n) ttl c"
    and "md_DNSInfo m = Some di" "di_ShouldCache di" "md_HostName m \<noteq> []" "\<not> IsUnspecified (md_DstIP m)"
    and "now' \<le> now + di_CacheTTL di" "now + di_CacheTTL di \<noteq> 0"
  shows "\<exists>c' p. re_ipDomainCache (StoreBinding now (Some m) e) = Some c' \<and>
    snd (Get now' (md_HostName m) c') = Some p \<and> ce_Domain (entry_at c' p) = md_HostName m \<and>
    ce_IP (entry_at c' p) = md_DstIP m \<and> ce_ExpiresAt (entry_at c' p) = now + di_CacheTTL di \<and>
    ce_Route (entry_at c' p) =
      (if md_Route m = ''RouteToALiang'' then RouteToAliang
       else if md_Route m = ''RouteToSocks'' then RouteToSocks else RouteDirect)"
proof -
  let ?ent = "\<lparr>ce_Domain = md_HostName m, ce_IP = md_DstIP m, ce_Route = route_of_name (md_Route m),
     ce_BindingSources = [di_BindingSource di], ce_ExpiresAt = di_BindingTime di + di_CacheTTL di,
     ce_CreatedAt = di_BindingTime di, ce_HitCount = 0\<rparr>"
  define c1 where "c1 = fst (new_entry ?ent c)"
  define p where "p = length (ic_heap c)"
  define c2 where "c2 = c1\<lparr>ic_heap := (ic_heap c1)[p := (entry_at c1 p)\<lparr>ce_ExpiresAt := now + di_CacheTTL di\<rparr>]\<rparr>"
  have c1: "p < length (ic_heap c1)" "entry_at c1 p = ?ent"
    by (simp_all add: c1_def p_def new_entry_def)
  have inv: "cache_inv c2"
    using cache_reach_inv [OF reach_new [OF assms(2)]] by (simp add: c2_def c1_def heap_frame)
  have res: "re_ipDomainCache (StoreBinding now (Some m) e) = Some (Set now (md_HostName m) p c2)"
    using assms(1,3-6)
    by (simp add: StoreBinding_def new_entry_def Let_def c2_def c1_def p_def SetWithTTL_def)
  have ent: "entry_at (Set now (md_HostName m) p c2) p =
      stamp now (ic_defaultTTL c2) (?ent\<lparr>ce_ExpiresAt := now + di_CacheTTL di\<rparr>)"
    using c1 by (simp add: Set_heap c2_def)
  have "p < length (ic_heap c2)" using c1 by (simp add: c2_def)
  note st = Set_inv [OF inv this, where now = now and k = "md_HostName m"]
  have "map_of (table (Set now (md_HostName m) p c2)) (md_HostName m) = Some p"
    by (simp add: st(2) lru_put_def)
  then have "snd (Get now' (md_HostName m) (Set now (md_HostName m) p c2)) = Some p"
    using assms(7,8) by (simp add: Get_inv(3) [OF st(1)] ent IsExpired_def stamp_def)
  with res ent assms(8) show ?thesis
    by (auto simp: stamp_def route_of_name_def)
qed

text \<open>An engine with its initial cache, the example configuration and a destination on which the properties are exercised.\<close>

definition example_env :: "unit engine_env" where
  "example_env = \<lparr>GetGlobalConfig = Some example_config, env_switches = GetSwitchManager,
     env_geoip = GetService, env_country = (\<lambda>r ip. None)\<rparr>"

definition example_ctx :: "string \<Rightarrow> EvaluationContext" where
  "example_ctx d = \<lparr>ctx_DstIP = AddrZero, ctx_DstPort = 443, ctx_SrcIP = AddrZero, ctx_Domain = d,
     ctx_Protocol = ''tcp''\<rparr>"

lemma example_engine:
  "re_enabled (Initialize GetEngine)"
  "re_ipDomainCache (Initialize GetEngine) = Some (NewIPDomainCache 10000 (5 * minute))"
  "cache_reach (int 10000) (5 * minute) (NewIPDomainCache 10000 (5 * minute))"
  "ic_defaultTTL (NewIPDomainCache 10000 (5 * minute)) = 5 * minute"
  using cache_reach.init [of "int 10000" "5 * minute"]
  by (simp_all add: Initialize_def GetEngine_def NewIPDomainCache_def)

lemma example_first:
  "\<exists>e' r. EvaluateRoute example_env 1 (example_ctx ''api.openai.com'') (Initialize GetEngine) = (e', Inr r) \<and>
     rr_Route r = RouteToAliang \<and> rr_MatchedRule r = ''snapshot_allowlist'' \<and>
     (\<exists>c'. re_ipDomainCache e' = Some c' \<and> map_of (ic_entries c') ''example.com'' = None)"
proof -
  have "case EvaluateRoute example_env 1 (example_ctx ''api.openai.com'') (Initialize GetEngine) of
      (e', Inr r) \<Rightarrow> rr_Route r = RouteToAliang \<and> rr_MatchedRule r = ''snapshot_allowlist'' \<and>
        (case re_ipDomainCache e' of Some c' \<Rightarrow> map_of (ic_entries c') ''example.com'' = None | None \<Rightarrow> False)
    | _ \<Rightarrow> False" by code_simp
  then show ?thesis by (auto split: prod.splits sum.splits option.splits)
qed

lemma example_compiles: "\<exists>s. compileRuntimeSnapshot example_env = Inr s"
proof -
  have "\<not> isl (compileRuntimeSnapshot example_env)" by code_simp
  then show ?thesis by (metis sum.collapse(2))
qed

theorem route_memoised_witness:
  "\<exists>e' r e'' r'. EvaluateRoute example_env 1 (example_ctx ''api.openai.com'') (Initialize GetEngine) = (e', Inr r) \<and>
     EvaluateRoute example_env 2 (example_ctx ''api.openai.com'') e' = (e'', Inr r') \<and>
     rr_Route r' = RouteToAliang \<and> rr_MatchedRule r' \<in> {''cache_domain'', ''cache_ip''}"
proof -
  obtain s where s: "compileRuntimeSnapshot example_env = Inr s" using example_compiles by blast
  obtain e' r where f: "EvaluateRoute example_env 1 (example_ctx ''api.openai.com'') (Initialize GetEngine) = (e', Inr r)"
    "rr_Route r = RouteToAliang" "rr_MatchedRule r = ''snapshot_allowlist''" using example_first by blast
  have "\<exists>e'' r'. EvaluateRoute example_env 2 (example_ctx ''api.openai.com'') e' = (e'', Inr r') \<and>
      rr_Route r' = rr_Route r \<and> rr_MatchedRule r' \<in> {''cache_domain'', ''cache_ip''}"
    by (rule route_memoised [OF f(1) example_engine(1-3) _ _ s])
       (use f example_engine(4) in \<open>simp_all add: minute_def\<close>)
  with f show ?thesis by auto
qed

theorem shared_address_route_witness:
  "\<exists>e' r e'' r'. EvaluateRoute example_env 1 (example_ctx ''api.openai.com'') (Initialize GetEngine) = (e', Inr r) \<and>
     EvaluateRoute example_env 2 (example_ctx ''example.com'') e' = (e'', Inr r') \<and>
     rr_Route r' = RouteToAliang \<and> rr_MatchedRule r' = ''cache_ip''"
proof -
  obtain s where s: "compileRuntimeSnapshot example_env = Inr s" using example_compiles by blast
  obtain e' r c' where f: "EvaluateRoute example_env 1 (example_ctx ''api.openai.com'') (Initialize GetEngine) = (e', Inr r)"
    "rr_Route r = RouteToAliang" "rr_MatchedRule r = ''snapshot_allowlist''"
    "re_ipDomainCache e' = Some c'" "map_of (ic_entries c') ''example.com'' = None" using example_first by blast
  have "\<exists>e'' r'. EvaluateRoute example_env 2 (example_ctx ''example.com'') e' = (e'', Inr r') \<and>
      rr_Route r' = rr_Route r \<and> rr_MatchedRule r' = ''cache_ip''"
    by (rule shared_address_route [OF f(1) example_engine(1-3) _ _ s _ _ f(4)])
       (use f example_engine(4) in \<open>simp_all add: minute_def example_ctx_def\<close>)
  with f show ?thesis by auto
qed

theorem stored_binding_found_witness:
  "\<exists>c' p. re_ipDomainCache (StoreBinding 1 (Some \<lparr>md_Network = TCP, md_ConnID = [], md_SrcIP = AddrZero,
      md_MidIP = AddrZero, md_DstIP = Addr4 1, md_SrcPort = 1, md_MidPort = 0, md_DstPort = 443,
      md_HostName = ''a.com'', md_AppProto = [], md_DNSInfo = Some \<lparr>di_BindingSource = ''sni'',
      di_BindingTime = 1, di_CacheTTL = 5, di_ShouldCache = True\<rparr>, md_Route = ''RouteToALiang''\<rparr>)
      (Initialize GetEngine)) = Some c' \<and>
    snd (Get 3 ''a.com'' c') = Some p \<and> ce_Route (entry_at c' p) = RouteToAliang"
proof -
  let ?di = "\<lparr>di_BindingSource = ''sni'', di_BindingTime = 1, di_CacheTTL = 5, di_ShouldCache = True\<rparr>"
  let ?m = "\<lparr>md_Network = TCP, md_ConnID = [], md_SrcIP = AddrZero,
      md_MidIP = AddrZero, md_DstIP = Addr4 1, md_SrcPort = 1, md_MidPort = 0, md_DstPort = 443,
      md_HostName = ''a.com'', md_AppProto = [], md_DNSInfo = Some ?di, md_Route = ''RouteToALiang''\<rparr>"
  show ?thesis
    using stored_binding_found [OF example_engine(2,3), of ?m ?di 3 1] by (auto simp: IsUnspecified_def)
qed

section \<open>Two defaults\<close>

text \<open>
  For a domain that no rule names, the rule engine answers SOCKS where the snapshot it compiled
  decides direct.
\<close>

lemma engine_default_differs:
  "\<exists>s r. compileRuntimeSnapshot example_env = Inr s \<and>
     fst (DecideRouteFromSnapshot (Some s) (Some \<lparr>mc_Domain = ''unlisted.net'', mc_IP = []\<rparr>)) = RouteDirect \<and>
     snd (EvaluateRoute example_env 1 (example_ctx ''unlisted.net'') (Initialize GetEngine)) = Inr r \<and>
     rr_Route r = RouteToSocks"
proof -
  have "case compileRuntimeSnapshot example_env of Inl _ \<Rightarrow> False
    | Inr s \<Rightarrow> fst (DecideRouteFromSnapshot (Some s) (Some \<lparr>mc_Domain = ''unlisted.net'', mc_IP = []\<rparr>)) = RouteDirect"
    by code_simp
  moreover have "case snd (EvaluateRoute example_env 1 (example_ctx ''unlisted.net'') (Initialize GetEngine)) of
      Inl _ \<Rightarrow> False | Inr r \<Rightarrow> rr_Route r = RouteToSocks" by code_simp
  ultimately show ?thesis by (auto split: sum.splits)
qed

end
