(* ===== verification/Tcp_Route.thy ===== *)
theory Tcp_Route
  imports Rule_Engine
begin

text \<open>
  Routing in the TCP handler, \<^verbatim>\<open>processor/tcp\<close>: the protocol of a port (\<^verbatim>\<open>protocol.go\<close>), the
  override for the local proxy (\<^verbatim>\<open>route_override.go\<close>), the DoH provider list and the route of a
  connection (\<^verbatim>\<open>tls.go\<close>), and the connection wrapper that replays prefetched bytes
  (\<^verbatim>\<open>types.go\<close>). The global configuration and the switch manager are arguments.
\<close>

section \<open>Protocols and routes\<close>

datatype Protocol = ProtocolTLS | ProtocolHTTP | ProtocolDirect

datatype ProxyRoute = RouteToALiang | RouteToLocalProxy | ProxyRouteDirect

definition Detect :: "uint16 \<Rightarrow> Protocol" where
  "Detect port = (if port = 443 then ProtocolTLS else if port = 80 then ProtocolHTTP else ProtocolDirect)"

definition PortRequiresSNI :: "uint16 \<Rightarrow> bool" where
  "PortRequiresSNI port \<longleftrightarrow> port = 443"

definition PortIsWebTraffic :: "uint16 \<Rightarrow> bool" where
  "PortIsWebTraffic port \<longleftrightarrow> port = 80 \<or> port = 443"

definition DefaultHTTPProxyPort :: uint16 where
  "DefaultHTTPProxyPort = 56432"

definition shouldForceAliangRoute :: "Metadata option \<Rightarrow> bool" where
  "shouldForceAliangRoute metadata =
     (case metadata of None \<Rightarrow> False
      | Some m \<Rightarrow>
          if md_DstPort m \<noteq> DefaultHTTPProxyPort then False
          else if IsValid (md_DstIP m) \<and> IsLoopback (md_DstIP m) then True
          else let host = ToLower (TrimSpace (md_HostName m)) in
               if host = [] then False
               else if host = ''localhost'' then True
               else (case ParseAddr host of Some ip \<Rightarrow> IsLoopback ip | None \<Rightarrow> False))"

definition dohProviders :: "string list" where
  "dohProviders = [''dns.google'', ''cloudflare-dns.com'', ''doh.opendns.com'', ''doh.quad9.net'',
     ''doh.cleanbrowsing.org'', ''8.8.8.8'', ''8.8.4.4'', ''1.1.1.1'', ''1.0.0.1'', ''9.9.9.9'']"

definition IsDoHProvider :: "string \<Rightarrow> bool" where
  "IsDoHProvider domain = (if domain = [] then False else list_ex (Contains (ToLower domain)) dohProviders)"

definition defaultFallbackRoute :: "Config option \<Rightarrow> SwitchManager \<Rightarrow> ProxyRoute" where
  "defaultFallbackRoute cfg sw =
     (case cfg of
        Some c \<Rightarrow> if EffectiveDefaultProxy c = ''socks'' \<and> SocksEnabled (GetStatus sw)
                  then RouteToLocalProxy else ProxyRouteDirect
      | None \<Rightarrow> ProxyRouteDirect)"

definition decideRouteWithRoutingEngine ::
  "Config option \<Rightarrow> SwitchManager \<Rightarrow> Metadata option \<Rightarrow> ProxyRoute" where
  "decideRouteWithRoutingEngine cfg sw metadata =
     (case metadata of None \<Rightarrow> defaultFallbackRoute cfg sw
      | Some m \<Rightarrow>
     (case cfg of None \<Rightarrow> defaultFallbackRoute cfg sw
      | Some c \<Rightarrow>
     (case CompileRuntimeSnapshotFromRuntimeInputs (Some c) (GetStatus sw) of
        Inl err \<Rightarrow> defaultFallbackRoute cfg sw
      | Inr snapshot \<Rightarrow>
          let routeCtx = \<lparr>mc_Domain = ToLower (TrimSpace (md_HostName m)),
                          mc_IP = (if IsValid (md_DstIP m) \<and> \<not> IsUnspecified (md_DstIP m)
                                   then addr_String (md_DstIP m) else [])\<rparr> in
          (case DecideRouteFromSnapshot (Some snapshot) (Some routeCtx) of
             (_, Some err) \<Rightarrow> defaultFallbackRoute cfg sw
           | (decision, None) \<Rightarrow>
               (case decision of
                  RouteToAliang \<Rightarrow> RouteToALiang
                | RouteToSocks \<Rightarrow> RouteToLocalProxy
                | _ \<Rightarrow> defaultFallbackRoute cfg sw)))))"

definition DetermineRouteWithContext ::
  "Config option \<Rightarrow> SwitchManager \<Rightarrow> Metadata option \<Rightarrow> ProxyRoute \<times> bool" where
  "DetermineRouteWithContext cfg sw metadata =
     (case metadata of None \<Rightarrow> (defaultFallbackRoute cfg sw, False)
      | Some m \<Rightarrow>
          if shouldForceAliangRoute metadata then (RouteToALiang, False)
          else (decideRouteWithRoutingEngine cfg sw metadata, md_DstPort m = 443 \<and> md_HostName m = []))"

definition DetermineRoute :: "Config option \<Rightarrow> SwitchManager \<Rightarrow> string \<Rightarrow> ProxyRoute" where
  "DetermineRoute cfg sw serverName =
     fst (DetermineRouteWithContext cfg sw
       (Some \<lparr>md_Network = TCP, md_ConnID = [], md_SrcIP = AddrZero, md_MidIP = AddrZero, md_DstIP = AddrZero,
              md_SrcPort = 0, md_MidPort = 0, md_DstPort = 443, md_HostName = serverName, md_AppProto = [],
              md_DNSInfo = None, md_Route = []\<rparr>))"

section \<open>Replaying prefetched bytes\<close>

text \<open>
  The underlying connection is a function from its state and the size of the caller's buffer to
  the bytes read, the error and the next state.
\<close>

type_synonym 'c reader = "'c \<Rightarrow> nat \<Rightarrow> 'c \<times> byte list \<times> bool"

record 'c WrappedConn =
  wc_Conn :: 'c
  wc_Buf :: "byte list"
  wc_readOffset :: nat

definition WrappedConn_Read :: "'c reader \<Rightarrow> 'c WrappedConn reader" where
  "WrappedConn_Read read w p =
     (if length (wc_Buf w) > wc_readOffset w then
        let chunk = take p (drop (wc_readOffset w) (wc_Buf w)) in
        (w\<lparr>wc_readOffset := wc_readOffset w + length chunk\<rparr>, chunk, False)
      else case read (wc_Conn w) p of
             (c, bytes, failed) \<Rightarrow> (w\<lparr>wc_Conn := c\<rparr>, bytes, failed))"

section \<open>Lemmas\<close>

lemma fallback_direct: "defaultFallbackRoute cfg sw = ProxyRouteDirect"
  by (simp add: defaultFallbackRoute_def EffectiveDefaultProxy_def split: option.splits)

lemma IsDoHProvider_iff:
  "IsDoHProvider domain \<longleftrightarrow> domain \<noteq> [] \<and> (\<exists>p \<in> set dohProviders. Contains (ToLower domain) p)"
  by (auto simp: IsDoHProvider_def list_ex_iff)

lemma determine_route_fact:
  "DetermineRouteWithContext cfg sw (Some m) =
    (if shouldForceAliangRoute (Some m) then (RouteToALiang, False)
     else (if \<not> AliangEnabled (GetStatus sw) \<and> EffectiveAIAllowlist cfg \<noteq> [] then ProxyRouteDirect
           else if \<exists>p \<in> set (EffectiveAIAllowlist cfg). matchDomain p (lower_trim (md_HostName m)) then RouteToALiang
           else if socks_available cfg (GetStatus sw) \<and>
                   (\<exists>p \<in> set (collectProxyRuleDomains cfg). matchDomain p (lower_trim (md_HostName m)))
           then RouteToLocalProxy else ProxyRouteDirect,
           md_DstPort m = 443 \<and> md_HostName m = []))"
proof (cases cfg)
  case None
  then show ?thesis
    by (auto simp: DetermineRouteWithContext_def decideRouteWithRoutingEngine_def fallback_direct
        EffectiveAIAllowlist_def collectProxyRuleDomains_def)
next
  case (Some c)
  show ?thesis
  proof (cases "CompileRuntimeSnapshotFromRuntimeInputs cfg (GetStatus sw)")
    case (Inl e)
    then have "\<not> AliangEnabled (GetStatus sw) \<and> EffectiveAIAllowlist cfg \<noteq> []"
      using runtime_compile_fact [of cfg "GetStatus sw"] by blast
    then show ?thesis
      using Inl Some by (simp add: DetermineRouteWithContext_def decideRouteWithRoutingEngine_def fallback_direct)
  next
    case (Inr s)
    then have "\<not> (\<not> AliangEnabled (GetStatus sw) \<and> EffectiveAIAllowlist cfg \<noteq> [])"
      using runtime_compile_fact [of cfg "GetStatus sw"] by auto
    then show ?thesis
      using Inr Some runtime_routing_fact [OF Inr]
      by (auto simp: DetermineRouteWithContext_def decideRouteWithRoutingEngine_def fallback_direct
          lower_trim_def Let_def)
  qed
qed

text \<open>The bytes that a sequence of reads with buffers of the given sizes delivers.\<close>

fun read_all :: "'s reader \<Rightarrow> nat list \<Rightarrow> 's \<Rightarrow> byte list" where
  "read_all read [] s = []"
| "read_all read (n # ns) s = (case read s n of (s', bytes, failed) \<Rightarrow> bytes @ read_all read ns s')"

text \<open>The reads that remain once \<open>k\<close> buffered bytes have been served.\<close>

fun reads_after :: "nat list \<Rightarrow> nat \<Rightarrow> nat list" where
  "reads_after ns 0 = ns"
| "reads_after [] k = []"
| "reads_after (n # ns) k = reads_after ns (k - n)"

lemma replay_fact:
  "read_all (WrappedConn_Read read) ns w =
     (let rest = drop (wc_readOffset w) (wc_Buf w) in
      take (sum_list ns) rest @ read_all read (reads_after ns (length rest)) (wc_Conn w))"
proof (induction ns arbitrary: w)
  case Nil
  show ?case by (cases "length (drop (wc_readOffset w) (wc_Buf w))") simp_all
next
  case (Cons n ns)
  show ?case
  proof (cases "wc_readOffset w < length (wc_Buf w)")
    case False
    then show ?thesis using Cons.IH
      by (simp add: WrappedConn_Read_def split: prod.splits)
  next
    case True
    then obtain k where k: "length (wc_Buf w) - wc_readOffset w = Suc k" by (metis Suc_diff_Suc)
    let ?rest = "drop (wc_readOffset w) (wc_Buf w)"
    let ?w = "w\<lparr>wc_readOffset := wc_readOffset w + min n (Suc k)\<rparr>"
    have "read_all (WrappedConn_Read read) (n # ns) w = take n ?rest @ read_all (WrappedConn_Read read) ns ?w"
      using True k by (simp add: WrappedConn_Read_def [of read w] Let_def min.commute)
    also have "drop (wc_readOffset ?w) (wc_Buf ?w) = drop n ?rest"
      using k by (cases "n \<le> Suc k") (auto simp: add.commute)
    then have "read_all (WrappedConn_Read read) ns ?w =
        take (sum_list ns) (drop n ?rest) @ read_all read (reads_after ns (Suc k - n)) (wc_Conn w)"
      using Cons.IH [of ?w] k [symmetric] by (simp add: Let_def add.commute)
    also have "take n ?rest @ take (sum_list ns) (drop n ?rest) @ read_all read (reads_after ns (Suc k - n)) (wc_Conn w)
        = take (n + sum_list ns) ?rest @ read_all read (reads_after ns (Suc k - n)) (wc_Conn w)"
      by (simp add: take_add)
    finally show ?thesis using k by (simp add: Let_def)
  qed
qed

section \<open>Properties\<close>

text \<open>
  C3. The route the TCP handler takes. Connections to the local proxy port on a loopback address
  or name are forced to Aliang. Otherwise a host covered by an enabled AI provider goes to Aliang,
  any other host covered by a proxy rule goes to the customer's proxy when that is usable and its
  switch is on, and everything else is direct; except that with the Aliang switch off and any AI
  domain configured, every connection is direct, those covered by proxy rules included.
\<close>

theorem tcp_route_correct:
  "DetermineRouteWithContext cfg sw (Some m) =
    (if shouldForceAliangRoute (Some m) then (RouteToALiang, False)
     else (if \<not> AliangEnabled (GetStatus sw) \<and> EffectiveAIAllowlist cfg \<noteq> [] then ProxyRouteDirect
           else if \<exists>p \<in> set (EffectiveAIAllowlist cfg). matchDomain p (lower_trim (md_HostName m)) then RouteToALiang
           else if socks_available cfg (GetStatus sw) \<and>
                   (\<exists>p \<in> set (collectProxyRuleDomains cfg). matchDomain p (lower_trim (md_HostName m)))
           then RouteToLocalProxy else ProxyRouteDirect,
           md_DstPort m = 443 \<and> md_HostName m = []))"
  by (rule determine_route_fact)

text \<open>
  The wrapper replays: whatever the sizes of the caller's buffers, the reads of a wrapped
  connection deliver the prefetched bytes, in order and once, and then exactly what the
  underlying connection delivers to the remaining reads.
\<close>

theorem wrapped_conn_replays:
  "read_all (WrappedConn_Read read) ns \<lparr>wc_Conn = c, wc_Buf = buf, wc_readOffset = 0\<rparr> =
     take (sum_list ns) buf @ read_all read (reads_after ns (length buf)) c"
  by (simp add: replay_fact)

end
