(* ===== verification/SNI.thy ===== *)
theory SNI
  imports Prelude
begin

text \<open>
  The server name in a TLS ClientHello, \<^verbatim>\<open>processor/tls/tls_sni_helper.go\<close>. Every read of the
  buffer is one that panics out of range (\<open>Inl ()\<close>), so that the absence of panics on hostile
  input is proved rather than assumed. A connection is the list of results of its \<^verbatim>\<open>Read\<close> calls.
\<close>

section \<open>Parsing\<close>

datatype sni_error =
    NotClientHello | IncompleteHandshake | InvalidHandshakeLength | InvalidHandshakeStructure
  | InvalidSessionID | InvalidCipherSuitesLength | InvalidCipherSuites | InvalidCompressionMethods
  | InvalidExtensionLength | InvalidExtensions | InvalidExtensionData | InvalidSNIListLength
  | InvalidSNIType | UnsupportedSNIType | InvalidSNIHostLength | InvalidSNIHostname | SNINotFound
  | NotHandshakeByte | EOFBeforeHello | ReadError

type_synonym sni_result = "sni_error + string"

definition reading :: "unit + 'a \<Rightarrow> ('a \<Rightarrow> unit + 'b) \<Rightarrow> unit + 'b" where
  "reading m f = (case m of Inl u \<Rightarrow> Inl u | Inr a \<Rightarrow> f a)"

text \<open>\<^verbatim>\<open>buf[pos:pos+n]\<close>.\<close>

definition slice :: "byte list \<Rightarrow> nat \<Rightarrow> nat \<Rightarrow> unit + byte list" where
  "slice buf i j = (if i \<le> j \<and> j \<le> length buf then Inr (take (j - i) (drop i buf)) else Inl ())"

definition parse_server_name :: "byte list \<Rightarrow> nat \<Rightarrow> unit + sni_result" where
  "parse_server_name buf pos0 =
     (if pos0 + 2 > length buf then Inr (Inl InvalidSNIListLength)
      else let pos1 = pos0 + 2 in
      if pos1 + 1 > length buf then Inr (Inl InvalidSNIType)
      else reading (byte_at buf pos1) (\<lambda>nameType.
        let pos2 = pos1 + 1 in
        if nameType \<noteq> 0 then Inr (Inl UnsupportedSNIType)
        else if pos2 + 2 > length buf then Inr (Inl InvalidSNIHostLength)
        else reading (Uint16 buf pos2) (\<lambda>nameLen.
          let pos3 = pos2 + 2 in
          if pos3 + nameLen > length buf then Inr (Inl InvalidSNIHostname)
          else reading (slice buf pos3 (pos3 + nameLen)) (\<lambda>name. Inr (Inr (string_of_bytes name))))))"

function extension_loop :: "byte list \<Rightarrow> nat \<Rightarrow> unit + sni_result" where
  "extension_loop buf pos =
     (if pos + 4 \<le> length buf then
        reading (Uint16 buf pos) (\<lambda>extType.
        reading (Uint16 buf (pos + 2)) (\<lambda>extLen.
          if pos + 4 + extLen > length buf then Inr (Inl InvalidExtensionData)
          else if extType = 0 then parse_server_name buf (pos + 4)
          else extension_loop buf (pos + 4 + extLen)))
      else Inr (Inl SNINotFound))"
  by pat_completeness auto
termination by (relation "measure (\<lambda>(buf, pos). length buf - pos)") auto

declare extension_loop.simps [simp del]

definition parseSNIFromBuffer :: "byte list \<Rightarrow> unit + sni_result" where
  "parseSNIFromBuffer buf =
     (if length buf < 5 then Inr (Inl NotClientHello)
      else reading (byte_at buf 0) (\<lambda>b0. reading (byte_at buf 1) (\<lambda>b1.
      if b0 \<noteq> 0x16 \<or> b1 \<noteq> 0x03 then Inr (Inl NotClientHello)
      else reading (Uint16 buf 3) (\<lambda>recordLen.
      if recordLen + 5 > length buf then Inr (Inl IncompleteHandshake)
      else if 6 \<ge> length buf then Inr (Inl InvalidHandshakeLength)
      else let pos = 6 + (3 + 2 + 32) in
      if pos \<ge> length buf then Inr (Inl InvalidHandshakeStructure)
      else reading (byte_at buf pos) (\<lambda>sessionIDLength.
      let pos = pos + 1 + unat sessionIDLength in
      if pos \<ge> length buf then Inr (Inl InvalidSessionID)
      else if pos + 2 > length buf then Inr (Inl InvalidCipherSuitesLength)
      else reading (Uint16 buf pos) (\<lambda>cipherSuitesLength.
      let pos = pos + 2 + cipherSuitesLength in
      if pos \<ge> length buf then Inr (Inl InvalidCipherSuites)
      else reading (byte_at buf pos) (\<lambda>compressionMethodsLength.
      let pos = pos + 1 + unat compressionMethodsLength in
      if pos \<ge> length buf then Inr (Inl InvalidCompressionMethods)
      else if pos + 2 > length buf then Inr (Inl InvalidExtensionLength)
      else reading (Uint16 buf pos) (\<lambda>extensionsLength.
      let pos = pos + 2 in
      if pos + extensionsLength > length buf then Inr (Inl InvalidExtensions)
      else extension_loop buf pos))))))))"

section \<open>Reading the ClientHello\<close>

text \<open>
  A \<^verbatim>\<open>Read\<close> returns bytes and possibly an error. The script of a connection ends with the error
  after which the loop cannot continue; an exhausted script is a peer that has gone silent and
  the read is then cut off by the deadline.
\<close>

datatype read_error = ReadEOF | ReadOther

record read_result =
  rd_data :: "byte list"
  rd_err :: "read_error option"

text \<open>The buffer when the loop breaks, or the values it returns.\<close>

datatype read_outcome = GotRecord "byte list" | Returned "byte list option" sni_error

text \<open>The check after each read: is this a handshake, and is its first record complete?\<close>

definition check_record :: "byte list \<Rightarrow> unit + read_outcome option" where
  "check_record buf =
     (if length buf \<ge> 5 then
        reading (byte_at buf 0) (\<lambda>b0.
          if b0 \<noteq> 0x16 then Inr (Some (Returned (Some buf) NotHandshakeByte))
          else reading (Uint16 buf 3) (\<lambda>recordLen.
            Inr (if length buf \<ge> recordLen + 5 then Some (GotRecord buf) else None)))
      else Inr None)"

fun read_loop :: "byte list \<Rightarrow> read_result list \<Rightarrow> unit + read_outcome \<times> read_result list" where
  "read_loop acc [] = Inr (Returned None ReadError, [])"
| "read_loop acc (r # rs) =
     (let buf = acc @ rd_data r in
      case check_record buf of
        Inl u \<Rightarrow> Inl u
      | Inr (Some out) \<Rightarrow> Inr (out, rs)
      | Inr None \<Rightarrow>
          (case rd_err r of
             None \<Rightarrow> read_loop buf rs
           | Some ReadEOF \<Rightarrow>
               if length buf < 5 then Inr (Returned None EOFBeforeHello, rs)
               else Inr (GotRecord buf, rs)
           | Some ReadOther \<Rightarrow> Inr (Returned None ReadError, rs)))"

text \<open>The server name or the error, the bytes kept for the caller, and what remains unread.\<close>

definition ExtractSNI :: "read_result list \<Rightarrow> unit + (sni_result \<times> byte list option \<times> read_result list)" where
  "ExtractSNI script =
     reading (read_loop [] script) (\<lambda>(out, rest).
       case out of
         Returned kept e \<Rightarrow> Inr (Inl e, kept, rest)
       | GotRecord buf \<Rightarrow>
           reading (parseSNIFromBuffer buf) (\<lambda>res. Inr (res, Some buf, rest)))"

section \<open>No panics\<close>

definition no_panic :: "unit + 'a \<Rightarrow> bool" where
  "no_panic m \<longleftrightarrow> \<not> isl m"

lemma no_panic_simps [simp]: "no_panic (Inr a)" "\<not> no_panic (Inl u)"
  by (simp_all add: no_panic_def)

lemma no_panic_reading:
  "no_panic m \<Longrightarrow> (\<And>a. m = Inr a \<Longrightarrow> no_panic (f a)) \<Longrightarrow> no_panic (reading m f)"
  by (cases m) (auto simp: reading_def)

lemma no_panic_access [simp]:
  "i < length buf \<Longrightarrow> no_panic (byte_at buf i)"
  "no_panic (byte_at buf 0) = (buf \<noteq> [])"
  "i + 2 \<le> length buf \<Longrightarrow> no_panic (Uint16 buf i)"
  "i \<le> j \<Longrightarrow> j \<le> length buf \<Longrightarrow> no_panic (slice buf i j)"
  by (simp_all add: byte_at_def Uint16_def slice_def)

lemma parse_server_name_no_panic: "no_panic (parse_server_name buf pos)"
  unfolding parse_server_name_def Let_def
  by (auto intro!: no_panic_reading)

lemma extension_loop_no_panic: "no_panic (extension_loop buf pos)"
proof (induction buf pos rule: extension_loop.induct)
  case (1 buf pos)
  then show ?case
    by (subst extension_loop.simps)
       (auto intro!: no_panic_reading parse_server_name_no_panic)
qed

lemma parse_no_panic: "no_panic (parseSNIFromBuffer buf)"
  unfolding parseSNIFromBuffer_def Let_def
  by (auto intro!: no_panic_reading extension_loop_no_panic)

lemma check_record_no_panic: "no_panic (check_record buf)"
  unfolding check_record_def by (auto intro!: no_panic_reading)

lemma check_record_kept:
  "check_record buf = Inr (Some out) \<Longrightarrow> out = GotRecord buf \<or> out = Returned (Some buf) NotHandshakeByte"
  by (auto simp: check_record_def reading_def split: if_splits sum.splits)

lemma read_loop_no_panic: "no_panic (read_loop acc rs)"
proof (induction rs arbitrary: acc)
  case (Cons r rs)
  then show ?case
    using check_record_no_panic [of "acc @ rd_data r"]
    by (auto simp: Let_def no_panic_def split: sum.splits option.splits read_error.splits)
qed simp

section \<open>Building a ClientHello\<close>

definition put_extension :: "nat \<times> byte list \<Rightarrow> byte list" where
  "put_extension e = put_uint16 (fst e) @ put_uint16 (length (snd e)) @ snd e"

definition put_server_name :: "string \<Rightarrow> byte list" where
  "put_server_name host =
     put_extension (0, put_uint16 (length host + 3) @ [0] @ put_uint16 (length host) @ bytes_of_string host)"

record hello =
  h_version :: byte
  h_fixed :: "byte list"
  h_session :: "byte list"
  h_ciphers :: "byte list"
  h_compression :: "byte list"
  h_before :: "(nat \<times> byte list) list"
  h_after :: "(nat \<times> byte list) list"

definition put_extensions :: "(nat \<times> byte list) list \<Rightarrow> byte list" where
  "put_extensions es = concat (map put_extension es)"

definition put_body :: "hello \<Rightarrow> string \<Rightarrow> byte list" where
  "put_body h host =
     (let exts = put_extensions (h_before h) @ put_server_name host @ put_extensions (h_after h) in
      h_fixed h @ [word_of_nat (length (h_session h))] @ h_session h @
      put_uint16 (length (h_ciphers h)) @ h_ciphers h @
      [word_of_nat (length (h_compression h))] @ h_compression h @
      put_uint16 (length exts) @ exts)"

definition put_hello :: "hello \<Rightarrow> string \<Rightarrow> byte list" where
  "put_hello h host = [0x16, 0x03, h_version h] @ put_uint16 (length (put_body h host)) @ put_body h host"

text \<open>
  A hello whose lengths fit their fields: \<open>h_fixed\<close> is the handshake type, its length, the
  version and the random bytes, 38 in all.
\<close>

definition hello_ok :: "hello \<Rightarrow> string \<Rightarrow> bool" where
  "hello_ok h host \<longleftrightarrow> length (h_fixed h) = 38 \<and> length (h_session h) < 256 \<and>
     length (h_ciphers h) < 65536 \<and> length (h_compression h) < 256 \<and>
     length (put_body h host) < 65536 \<and>
     (\<forall>e \<in> set (h_before h). 0 < fst e \<and> fst e < 65536)"

lemma drop_step: "drop pos buf = xs @ ys \<Longrightarrow> q = pos + length xs \<Longrightarrow> drop q buf = ys"
  by (metis add.commute append_eq_conv_conj drop_drop)

lemma drop_pos: "drop pos buf = x # xs \<Longrightarrow> pos < length buf"
  by (metis drop_all leI list.distinct(1))

lemma byte_at_drop: "drop pos buf = b # rest \<Longrightarrow> byte_at buf pos = Inr b"
  using drop_pos [of pos buf] by (auto simp: byte_at_def hd_drop_conv_nth [symmetric])

lemma Uint16_drop:
  assumes "drop pos buf = put_uint16 n @ rest" "n < 65536"
  shows "Uint16 buf pos = Inr n"
proof -
  have "pos < length buf" using assms(1) by (auto simp: put_uint16_def dest: drop_pos)
  then have "buf = take pos buf @ put_uint16 n @ rest" "length (take pos buf) = pos"
    using assms(1) by (metis append_take_drop_id, simp)
  then show ?thesis using Uint16_put_uint16 [OF assms(2), of "take pos buf" rest] by metis
qed

lemma drop_length: "pos \<le> length buf \<Longrightarrow> drop pos buf = xs \<Longrightarrow> length buf = pos + length xs"
  by auto

lemma parse_server_name_put:
  assumes "drop pos buf = put_uint16 k @ [0] @ put_uint16 (length host) @ bytes_of_string host @ rest"
    and "length host < 65536" "pos \<le> length buf"
  shows "parse_server_name buf pos = Inr (Inr host)"
proof -
  have d2: "drop (pos + 2) buf = [0] @ put_uint16 (length host) @ bytes_of_string host @ rest"
    by (rule drop_step [OF assms(1)]) simp
  have d3: "drop (pos + 3) buf = put_uint16 (length host) @ bytes_of_string host @ rest"
    by (rule drop_step [OF d2]) simp
  have d5: "drop (pos + 5) buf = bytes_of_string host @ rest"
    by (rule drop_step [OF d3]) simp
  have len: "length buf = pos + 5 + length host + length rest"
    using drop_length [OF assms(3,1)] by simp
  have "byte_at buf (pos + 2) = Inr 0" using byte_at_drop [of "pos + 2" buf] d2 by simp
  moreover have "Uint16 buf (pos + 2 + 1) = Inr (length host)"
    using Uint16_drop [OF d3 assms(2)] by (simp add: eval_nat_numeral)
  moreover have "slice buf (pos + 2 + 1 + 2) (pos + 2 + 1 + 2 + length host) = Inr (bytes_of_string host)"
    using d5 len by (simp add: slice_def eval_nat_numeral)
  ultimately show ?thesis
    using len unfolding parse_server_name_def Let_def
    by (simp add: reading_def del: One_nat_def add_2_eq_Suc')
qed

lemma extension_loop_put:
  assumes "drop pos buf = put_extensions before @ put_server_name host @ rest" "pos \<le> length buf"
    and "\<forall>e \<in> set before. 0 < fst e \<and> fst e < 65536 \<and> length (snd e) < 65536" "length host + 5 < 65536"
  shows "extension_loop buf pos = Inr (Inr host)"
  using assms
proof (induction before arbitrary: pos)
  case Nil
  let ?d = "put_uint16 (length host + 3) @ [0] @ put_uint16 (length host) @ bytes_of_string host"
  have d0: "drop pos buf = put_uint16 0 @ put_uint16 (length ?d) @ ?d @ rest"
    using Nil.prems(1) by (simp add: put_extensions_def put_server_name_def put_extension_def)
  have d2: "drop (pos + 2) buf = put_uint16 (length ?d) @ ?d @ rest" by (rule drop_step [OF d0]) simp
  have d4: "drop (pos + 4) buf = ?d @ rest" by (rule drop_step [OF d2]) simp
  have len: "length buf = pos + 4 + length ?d + length rest"
    using drop_length [OF Nil.prems(2) d0] by simp
  have "Uint16 buf pos = Inr 0" by (rule Uint16_drop [OF d0]) simp
  moreover have "Uint16 buf (pos + 2) = Inr (length ?d)"
    by (rule Uint16_drop [OF d2]) (use Nil.prems(4) in simp)
  moreover have "parse_server_name buf (pos + 4) = Inr (Inr host)"
    by (rule parse_server_name_put [where k = "length host + 3" and rest = rest])
       (use d4 len Nil.prems(4) in auto)
  ultimately show ?case
    using len by (subst extension_loop.simps) (simp add: reading_def)
next
  case (Cons e before)
  obtain t d where e: "e = (t, d)" by (cases e)
  let ?more = "put_extensions before @ put_server_name host @ rest"
  have d0: "drop pos buf = put_uint16 t @ put_uint16 (length d) @ d @ ?more"
    using Cons.prems(1) by (simp add: put_extensions_def put_extension_def e)
  have d2: "drop (pos + 2) buf = put_uint16 (length d) @ d @ ?more" by (rule drop_step [OF d0]) simp
  have d4: "drop (pos + 4) buf = d @ ?more" by (rule drop_step [OF d2]) simp
  have d5: "drop (pos + 4 + length d) buf = ?more" by (rule drop_step [OF d4]) simp
  have len: "length buf = pos + 4 + length d + length ?more"
    using drop_length [OF Cons.prems(2) d0] by simp
  have t: "0 < t" "t < 65536" "length d < 65536" using Cons.prems(3) e by auto
  have "Uint16 buf pos = Inr t" "Uint16 buf (pos + 2) = Inr (length d)"
    using Uint16_drop [OF d0] Uint16_drop [OF d2] t by auto
  moreover have "extension_loop buf (pos + 4 + length d) = Inr (Inr host)"
    by (rule Cons.IH) (use d5 len Cons.prems in auto)
  ultimately show ?case
    using len t by (subst extension_loop.simps) (simp add: reading_def)
qed

lemma put_extension_length: "e \<in> set es \<Longrightarrow> length (snd e) \<le> length (put_extensions es)"
  by (induction es) (auto simp: put_extensions_def put_extension_def)

lemma hello_layout:
  fixes h :: hello
  assumes ok: "hello_ok h host" and buf: "buf = put_hello h host @ junk"
    and exts: "exts = put_extensions (h_before h) @ put_server_name host @ put_extensions (h_after h)"
    and p1: "p1 = 44 + length (h_session h)" and p2: "p2 = p1 + 2 + length (h_ciphers h)"
    and p3: "p3 = p2 + 1 + length (h_compression h)"
  shows "drop 43 buf = word_of_nat (length (h_session h)) # drop 44 buf"
    and "drop p1 buf = put_uint16 (length (h_ciphers h)) @ drop (p1 + 2) buf"
    and "drop p2 buf = word_of_nat (length (h_compression h)) # drop (p2 + 1) buf"
    and "drop p3 buf = put_uint16 (length exts) @ exts @ junk"
    and "drop (p3 + 2) buf = exts @ junk"
    and "length buf = p3 + 2 + length exts + length junk"
proof -
  let ?tail = "put_uint16 (length exts) @ exts @ junk"
  let ?comp = "[word_of_nat (length (h_compression h))] @ h_compression h @ ?tail"
  let ?ciph = "put_uint16 (length (h_ciphers h)) @ h_ciphers h @ ?comp"
  let ?sess = "[word_of_nat (length (h_session h))] @ h_session h @ ?ciph"
  have fixed: "length (h_fixed h) = 38" using ok by (simp add: hello_ok_def)
  have d5: "drop 5 buf = h_fixed h @ ?sess"
    by (simp add: buf put_hello_def put_body_def put_uint16_def exts Let_def)
  have d43: "drop 43 buf = ?sess" by (rule drop_step [OF d5]) (simp add: fixed)
  have d44: "drop 44 buf = h_session h @ ?ciph" by (rule drop_step [OF d43]) simp
  have dp1: "drop p1 buf = ?ciph" by (rule drop_step [OF d44]) (simp add: p1)
  have dp1': "drop (p1 + 2) buf = h_ciphers h @ ?comp" by (rule drop_step [OF dp1]) simp
  have dp2: "drop p2 buf = ?comp" by (rule drop_step [OF dp1']) (simp add: p2)
  have dp2': "drop (p2 + 1) buf = h_compression h @ ?tail" by (rule drop_step [OF dp2]) simp
  show dp3: "drop p3 buf = ?tail" by (rule drop_step [OF dp2']) (simp add: p3)
  show "drop (p3 + 2) buf = exts @ junk" by (rule drop_step [OF dp3]) simp
  show "drop 43 buf = word_of_nat (length (h_session h)) # drop 44 buf" using d43 d44 by simp
  show "drop p1 buf = put_uint16 (length (h_ciphers h)) @ drop (p1 + 2) buf" using dp1 dp1' by simp
  show "drop p2 buf = word_of_nat (length (h_compression h)) # drop (p2 + 1) buf" using dp2 dp2' by simp
  show "length buf = p3 + 2 + length exts + length junk"
    by (simp add: buf put_hello_def put_body_def exts Let_def p1 p2 p3 fixed)
qed

lemma hello_head:
  assumes "hello_ok h host"
  shows "byte_at (put_hello h host @ junk) 0 = Inr 0x16"
    and "byte_at (put_hello h host @ junk) 1 = Inr 0x03"
    and "Uint16 (put_hello h host @ junk) 3 = Inr (length (put_body h host))"
proof -
  show "byte_at (put_hello h host @ junk) 0 = Inr 0x16" "byte_at (put_hello h host @ junk) 1 = Inr 0x03"
    by (simp_all add: byte_at_def put_hello_def)
  show "Uint16 (put_hello h host @ junk) 3 = Inr (length (put_body h host))"
    by (rule Uint16_drop [where rest = "put_body h host @ junk"])
       (use assms in \<open>simp_all add: put_hello_def hello_ok_def\<close>)
qed

lemma put_hello_length: "length (put_hello h host) = length (put_body h host) + 5"
  by (simp add: put_hello_def)

lemma parse_put_hello:
  assumes ok: "hello_ok h host"
  shows "parseSNIFromBuffer (put_hello h host @ junk) = Inr (Inr host)"
proof -
  define buf where "buf = put_hello h host @ junk"
  define exts where "exts = put_extensions (h_before h) @ put_server_name host @ put_extensions (h_after h)"
  let ?p1 = "44 + length (h_session h)"
  let ?p2 = "?p1 + 2 + length (h_ciphers h)"
  let ?p3 = "?p2 + 1 + length (h_compression h)"
  note layout = hello_layout [OF ok buf_def exts_def refl refl refl]
  note bounds = ok [unfolded hello_ok_def]
  have fits: "length exts < 65536"
    using bounds by (simp add: put_body_def exts_def Let_def)
  have small: "unat (word_of_nat (length (h_session h)) :: byte) = length (h_session h)"
      "unat (word_of_nat (length (h_compression h)) :: byte) = length (h_compression h)"
    using bounds by (simp_all add: unsigned_of_nat take_bit_eq_mod)
  have loop: "extension_loop buf (?p3 + 2) = Inr (Inr host)"
  proof (rule extension_loop_put [where before = "h_before h" and rest = "put_extensions (h_after h) @ junk"])
    show "drop (?p3 + 2) buf = put_extensions (h_before h) @ put_server_name host @ put_extensions (h_after h) @ junk"
      using layout(5) by (simp add: exts_def)
    show "\<forall>e\<in>set (h_before h). 0 < fst e \<and> fst e < 65536 \<and> length (snd e) < 65536"
      using bounds fits put_extension_length [of _ "h_before h"] by (fastforce simp: exts_def)
    show "length host + 5 < 65536"
      using fits by (simp add: exts_def put_server_name_def put_extension_def)
  qed (use layout(6) in simp)
  have reads: "byte_at buf 43 = Inr (word_of_nat (length (h_session h)))"
      "Uint16 buf ?p1 = Inr (length (h_ciphers h))"
      "byte_at buf ?p2 = Inr (word_of_nat (length (h_compression h)))"
      "Uint16 buf ?p3 = Inr (length exts)"
    using byte_at_drop [OF layout(1)] Uint16_drop [OF layout(2)] byte_at_drop [OF layout(3)]
      Uint16_drop [OF layout(4) fits] bounds by blast+
  have "length (put_body h host) + 5 \<le> length buf"
    by (simp add: buf_def put_hello_length)
  then show ?thesis
    using layout(6) hello_head [OF ok, of junk, folded buf_def] reads loop small
    unfolding buf_def [symmetric] parseSNIFromBuffer_def Let_def
    by (simp add: reading_def add.assoc)
qed

section \<open>What is read and kept\<close>

definition data_of :: "read_result list \<Rightarrow> byte list" where
  "data_of rs = concat (map rd_data rs)"

lemma data_of_simps [simp]: "data_of [] = []" "data_of (r # rs) = rd_data r @ data_of rs"
  by (simp_all add: data_of_def)

fun outcome_ok :: "byte list \<Rightarrow> read_outcome \<Rightarrow> bool" where
  "outcome_ok buf (GotRecord b) \<longleftrightarrow> b = buf"
| "outcome_ok buf (Returned (Some b) e) \<longleftrightarrow> b = buf \<and> e = NotHandshakeByte"
| "outcome_ok buf (Returned None e) \<longleftrightarrow> e \<in> {EOFBeforeHello, ReadError}"

lemma check_record_ok: "check_record buf = Inr (Some out) \<Longrightarrow> outcome_ok buf out"
  by (drule check_record_kept) auto

lemma read_loop_consumes:
  "\<exists>out used rest. read_loop acc rs = Inr (out, rest) \<and> rs = used @ rest \<and> outcome_ok (acc @ data_of used) out"
proof (induction rs arbitrary: acc)
  case (Cons r rs)
  let ?buf = "acc @ rd_data r"
  obtain c where c: "check_record ?buf = Inr c"
    using check_record_no_panic [of ?buf] by (cases "check_record ?buf") auto
  show ?case
  proof (cases "c = None \<and> rd_err r = None")
    case True
    obtain out used rest where "read_loop ?buf rs = Inr (out, rest)" "rs = used @ rest"
      "outcome_ok (?buf @ data_of used) out" using Cons.IH [of ?buf] by blast
    then have "read_loop acc (r # rs) = Inr (out, rest) \<and> r # rs = (r # used) @ rest \<and>
        outcome_ok (acc @ data_of (r # used)) out"
      using c True by simp
    then show ?thesis by blast
  next
    case False
    then obtain out where "read_loop acc (r # rs) = Inr (out, rs)" "outcome_ok ?buf out"
      using c check_record_ok [of ?buf]
      by (cases c; cases "rd_err r"; cases "the (rd_err r)"; cases "length ?buf < 5") (auto simp: Let_def)
    then have "read_loop acc (r # rs) = Inr (out, rs) \<and> r # rs = [r] @ rs \<and>
        outcome_ok (acc @ data_of [r]) out" by simp
    then show ?thesis by blast
  qed
qed auto

fun outcome_buffer :: "read_outcome \<Rightarrow> byte list option" where
  "outcome_buffer (GotRecord b) = Some b"
| "outcome_buffer (Returned kept e) = kept"

lemma check_record_length: "check_record buf = Inr (Some out) \<Longrightarrow> 5 \<le> length buf"
  by (auto simp: check_record_def split: if_splits)

lemma read_loop_length:
  "read_loop acc rs = Inr (out, rest) \<Longrightarrow> outcome_buffer out = Some b \<Longrightarrow> 5 \<le> length b"
proof (induction rs arbitrary: acc)
  case (Cons r rs)
  let ?buf = "acc @ rd_data r"
  show ?case
  proof (cases "check_record ?buf")
    case (Inr c)
    show ?thesis
    proof (cases c)
      case None
      then show ?thesis
        using Cons Inr
        by (cases "rd_err r"; cases "the (rd_err r)"; cases "length ?buf < 5") (auto simp: Let_def)
    next
      case (Some out')
      then show ?thesis
        using Cons.prems Inr check_record_kept [of ?buf out'] check_record_length [of ?buf out']
        by (auto simp: Let_def)
    qed
  qed (use Cons.prems in \<open>auto simp: Let_def\<close>)
qed auto

lemma extract_buffer_length:
  assumes "ExtractSNI rs = Inr (res, Some b, rest)"
  shows "5 \<le> length b"
proof -
  obtain out rest' where o: "read_loop [] rs = Inr (out, rest')"
    using assms by (cases "read_loop [] rs") (auto simp: ExtractSNI_def reading_def)
  then have "outcome_buffer out = Some b"
    using assms by (cases out) (auto simp: ExtractSNI_def reading_def split: sum.splits)
  then show ?thesis using read_loop_length [OF o] by blast
qed

lemma extract_spec:
  "\<exists>res kept used rest. ExtractSNI rs = Inr (res, kept, rest) \<and> rs = used @ rest \<and>
     (case kept of Some b \<Rightarrow> b = data_of used
      | None \<Rightarrow> res = Inl EOFBeforeHello \<or> res = Inl ReadError)"
proof -
  obtain out used rest where o: "read_loop [] rs = Inr (out, rest)" "rs = used @ rest" "outcome_ok (data_of used) out"
    using read_loop_consumes [of "[]" rs] by auto
  show ?thesis
  proof (cases out)
    case (GotRecord b)
    obtain res where "parseSNIFromBuffer b = Inr res"
      using parse_no_panic [of b] by (cases "parseSNIFromBuffer b") auto
    then show ?thesis using o GotRecord by (auto simp: ExtractSNI_def reading_def)
  next
    case (Returned kept e)
    then show ?thesis using o by (cases kept) (auto simp: ExtractSNI_def reading_def)
  qed
qed

lemma check_record_prefix:
  assumes ok: "hello_ok h host" and pre: "buf @ rest = put_hello h host @ junk"
  shows "check_record buf =
    Inr (if length (put_hello h host) \<le> length buf then Some (GotRecord buf) else None)"
proof (cases "length buf \<ge> 5")
  case True
  have nth: "\<And>i. i < length buf \<Longrightarrow> buf ! i = (put_hello h host @ junk) ! i"
    using pre by (metis nth_append)
  have "byte_at buf 0 = Inr 0x16"
    using True nth [of 0] hello_head(1) [OF ok, of junk] by (auto simp: byte_at_def split: if_splits)
  moreover have "Uint16 buf 3 = Inr (length (put_body h host))"
    using True nth [of 3] nth [of 4] hello_head(3) [OF ok, of junk]
    by (auto simp: Uint16_def split: if_splits)
  ultimately show ?thesis using True by (simp add: check_record_def reading_def put_hello_length)
qed (simp add: check_record_def put_hello_length)

lemma read_loop_hello:
  assumes "hello_ok h host" "acc @ data_of rs = put_hello h host @ junk"
    and "length acc < length (put_hello h host)" "\<forall>r \<in> set rs. rd_err r = None"
  shows "\<exists>used rest junk'. rs = used @ rest \<and>
    read_loop acc rs = Inr (GotRecord (put_hello h host @ junk'), rest) \<and>
    acc @ data_of used = put_hello h host @ junk'"
  using assms
proof (induction rs arbitrary: acc)
  case Nil
  from Nil.prems(2) have "length acc = length (put_hello h host @ junk)" by simp
  then show ?case using Nil.prems(3) by simp
next
  case (Cons r rs)
  let ?buf = "acc @ rd_data r"
  have split: "?buf @ data_of rs = put_hello h host @ junk" using Cons.prems(2) by simp
  note check = check_record_prefix [OF Cons.prems(1) split]
  show ?case
  proof (cases "length (put_hello h host) \<le> length ?buf")
    case True
    then obtain junk' where j: "?buf = put_hello h host @ junk'"
      using split by (metis append_eq_append_conv_if append_take_drop_id)
    then have "r # rs = [r] @ rs \<and> read_loop acc (r # rs) = Inr (GotRecord (put_hello h host @ junk'), rs) \<and>
        acc @ data_of [r] = put_hello h host @ junk'"
      using check True by simp
    then show ?thesis by blast
  next
    case False
    obtain used rest junk' where u: "rs = used @ rest"
        "read_loop ?buf rs = Inr (GotRecord (put_hello h host @ junk'), rest)"
        "?buf @ data_of used = put_hello h host @ junk'"
      using Cons.IH [OF Cons.prems(1) split] False Cons.prems(4) by auto
    then have "r # rs = (r # used) @ rest \<and>
        read_loop acc (r # rs) = Inr (GotRecord (put_hello h host @ junk'), rest) \<and>
        acc @ data_of (r # used) = put_hello h host @ junk'"
      using check False Cons.prems(4) by simp
    then show ?thesis by blast
  qed
qed

text \<open>
  C22. Extracting the server name never panics, whatever bytes the peer sends and however they
  arrive, and it always returns: the reads it made are a prefix of the connection's, and the
  buffer it hands back for replay is exactly the bytes of those reads. The only exceptions are
  a stream that ends before the record header and a failed read, where no buffer is returned.
\<close>

theorem sni_total:
  "\<exists>res kept used rest. ExtractSNI reads = Inr (res, kept, rest) \<and> reads = used @ rest \<and>
     (case kept of Some b \<Rightarrow> b = data_of used
      | None \<Rightarrow> res = Inl EOFBeforeHello \<or> res = Inl ReadError)"
  by (rule extract_spec)

lemma extract_hello:
  assumes "hello_ok h host" "data_of reads = put_hello h host @ junk" "\<forall>r \<in> set reads. rd_err r = None"
  shows "\<exists>used rest. reads = used @ rest \<and>
    ExtractSNI reads = Inr (Inr host, Some (data_of used), rest)"
proof -
  obtain used rest junk' where "reads = used @ rest"
      "read_loop [] reads = Inr (GotRecord (put_hello h host @ junk'), rest)"
      "data_of used = put_hello h host @ junk'"
    using read_loop_hello [OF assms(1), of "[]" reads junk] assms(2,3) by (auto simp: put_hello_def)
  then show ?thesis
    using parse_put_hello [OF assms(1)] by (auto simp: ExtractSNI_def reading_def)
qed

text \<open>
  C23. A well-formed ClientHello carrying a server name is recognised: whatever session, cipher
  suites, compression methods and other extensions surround the name, whatever bytes follow the
  record, and however the bytes are divided among the reads, the extraction returns the server
  name and keeps exactly the bytes it has read.
\<close>

theorem sni_roundtrip:
  assumes "hello_ok h host" "data_of reads = put_hello h host @ junk" "\<forall>r \<in> set reads. rd_err r = None"
  shows "\<exists>used rest. reads = used @ rest \<and>
    ExtractSNI reads = Inr (Inr host, Some (data_of used), rest)"
  using assms by (rule extract_hello)

definition sample_hello :: hello where
  "sample_hello = \<lparr>h_version = 1, h_fixed = replicate 38 0, h_session = [7], h_ciphers = [0, 47],
     h_compression = [0], h_before = [(23, []), (65281, [0])], h_after = [(16, [0, 1])]\<rparr>"

definition sample_reads :: "read_result list" where
  "sample_reads =
     [\<lparr>rd_data = take 3 (put_hello sample_hello ''api.openai.com''), rd_err = None\<rparr>,
      \<lparr>rd_data = drop 3 (put_hello sample_hello ''api.openai.com'') @ [9], rd_err = None\<rparr>,
      \<lparr>rd_data = [4], rd_err = None\<rparr>]"

lemma sample_hello_ok: "hello_ok sample_hello ''api.openai.com''"
  by (simp add: hello_ok_def sample_hello_def put_body_def put_extensions_def put_extension_def
      put_server_name_def Let_def bytes_of_string_def)

lemma sample_reads_ok:
  "data_of sample_reads = put_hello sample_hello ''api.openai.com'' @ [9, 4]"
  "\<forall>r \<in> set sample_reads. rd_err r = None"
proof -
  have "data_of sample_reads = (take 3 (put_hello sample_hello ''api.openai.com'') @
      drop 3 (put_hello sample_hello ''api.openai.com'')) @ [9, 4]"
    by (simp add: sample_reads_def del: append_take_drop_id)
  then show "data_of sample_reads = put_hello sample_hello ''api.openai.com'' @ [9, 4]" by simp
  show "\<forall>r \<in> set sample_reads. rd_err r = None" by (simp add: sample_reads_def)
qed

theorem sni_roundtrip_witness:
  "\<exists>used rest. sample_reads = used @ rest \<and>
    ExtractSNI sample_reads = Inr (Inr ''api.openai.com'', Some (data_of used), rest)"
  by (rule sni_roundtrip [OF sample_hello_ok sample_reads_ok])

text \<open>
  A read that fails after part of the hello has arrived drops the bytes already consumed: the
  caller is given no buffer to replay.
\<close>

lemma failed_read_loses_bytes:
  "ExtractSNI [\<lparr>rd_data = [0x16, 0x03, 0x01, 0x02, 0x00, 0x01], rd_err = None\<rparr>,
               \<lparr>rd_data = [], rd_err = Some ReadOther\<rparr>] = Inr (Inl ReadError, None, [])"
  by (simp add: ExtractSNI_def reading_def check_record_def byte_at_def Uint16_def)

end
