(* ===== verification/Registry.thy ===== *)
theory Registry
  imports Prelude "HOL-Library.AList"
begin

text \<open>
  The registry of outbound proxies, \<^verbatim>\<open>outbound/registry.go\<close>. A proxy instance is an opaque value;
  building the built-in proxies is outside this component: the instance \<^verbatim>\<open>NewDirect\<close> returns and
  the outcome of \<^verbatim>\<open>NewAliang\<close> for an address are arguments. The Go map is an association list
  with distinct keys.
\<close>

section \<open>Operations\<close>

record 'p Registry =
  reg_proxies :: "(string \<times> 'p) list"

datatype registry_error =
    EmptyName | NilInstance | ProxyNotFound string | AliangNotFound | CreateAliangFailed

definition GetRegistry :: "'p Registry" where
  "GetRegistry = \<lparr>reg_proxies = []\<rparr>"

definition Registry_Get :: "string \<Rightarrow> 'p Registry \<Rightarrow> registry_error + 'p" where
  "Registry_Get name r =
     (case map_of (reg_proxies r) name of Some p \<Rightarrow> Inr p | None \<Rightarrow> Inl (ProxyNotFound name))"

definition GetAliang :: "'p Registry \<Rightarrow> registry_error + 'p" where
  "GetAliang r =
     (case map_of (reg_proxies r) ''aliang'' of None \<Rightarrow> Inl AliangNotFound | Some p \<Rightarrow> Inr p)"

definition GetHardcodedDefault :: "'p Registry \<Rightarrow> registry_error + 'p" where
  "GetHardcodedDefault r = Registry_Get ''direct'' r"

definition RegisterDefault :: "'p \<Rightarrow> 'p Registry \<Rightarrow> 'p Registry \<times> registry_error option" where
  "RegisterDefault directProxy r =
     (if map_of (reg_proxies r) ''direct'' \<noteq> None then (r, None)
      else (r\<lparr>reg_proxies := AList.update ''direct'' directProxy (reg_proxies r)\<rparr>, None))"

definition RegisterAliang ::
  "(string \<Rightarrow> 'p option) \<Rightarrow> string \<Rightarrow> 'p Registry \<Rightarrow> 'p Registry \<times> registry_error option" where
  "RegisterAliang newAliang serverAddr0 r =
     (if map_of (reg_proxies r) ''aliang'' \<noteq> None then (r, None)
      else
        let serverAddr = (if serverAddr0 = [] then ''ai-gateway.aliang.one:443'' else serverAddr0) in
        case newAliang serverAddr of
          None \<Rightarrow> (r, Some CreateAliangFailed)
        | Some aliangProxy \<Rightarrow>
            (r\<lparr>reg_proxies := AList.update ''aliang'' aliangProxy (reg_proxies r)\<rparr>, None))"

definition Register :: "string \<Rightarrow> 'p option \<Rightarrow> 'p Registry \<Rightarrow> 'p Registry \<times> registry_error option" where
  "Register name p r =
     (if name = [] then (r, Some EmptyName)
      else (case p of
              None \<Rightarrow> (r, Some NilInstance)
            | Some q \<Rightarrow> (r\<lparr>reg_proxies := AList.update name q (reg_proxies r)\<rparr>, None)))"

definition Unregister :: "string \<Rightarrow> 'p Registry \<Rightarrow> 'p Registry \<times> registry_error option" where
  "Unregister name r =
     (if map_of (reg_proxies r) name = None then (r, Some (ProxyNotFound name))
      else (r\<lparr>reg_proxies := AList.delete name (reg_proxies r)\<rparr>, None))"

definition Registry_List :: "'p Registry \<Rightarrow> string list" where
  "Registry_List r = map fst (reg_proxies r)"

definition Registry_Count :: "'p Registry \<Rightarrow> nat" where
  "Registry_Count r = length (reg_proxies r)"

definition Registry_Clear :: "'p Registry \<Rightarrow> 'p Registry" where
  "Registry_Clear r = r\<lparr>reg_proxies := []\<rparr>"

text \<open>The calls that change the registry.\<close>

datatype 'p registry_op =
    OpDefault 'p | OpAliangProxy "string \<Rightarrow> 'p option" string | OpRegister string "'p option"
  | OpUnregister string | OpClear

fun registry_step :: "'p registry_op \<Rightarrow> 'p Registry \<Rightarrow> 'p Registry" where
  "registry_step (OpDefault d) r = fst (RegisterDefault d r)"
| "registry_step (OpAliangProxy mk addr) r = fst (RegisterAliang mk addr r)"
| "registry_step (OpRegister n p) r = fst (Register n p r)"
| "registry_step (OpUnregister n) r = fst (Unregister n r)"
| "registry_step OpClear r = Registry_Clear r"

section \<open>The contract of a table of names\<close>

text \<open>
  A table is seen through its lookup function; every operation acts on the lookup function as
  \<open>effect\<close> says. Histories then act on it as the fold of the effects, and a name no operation of
  a history touches keeps its value.
\<close>

locale name_table =
  fixes look :: "'s \<Rightarrow> string \<Rightarrow> 'p option" and step :: "'o \<Rightarrow> 's \<Rightarrow> 's"
    and effect :: "'o \<Rightarrow> (string \<Rightarrow> 'p option) \<Rightarrow> (string \<Rightarrow> 'p option)"
    and touches :: "'o \<Rightarrow> string \<Rightarrow> bool"
  assumes look_step: "look (step op s) = effect op (look s)"
    and untouched_step: "\<not> touches op n \<Longrightarrow> effect op m n = m n"
begin

lemma table_history: "look (fold step ops s) = fold effect ops (look s)"
  by (induction ops arbitrary: s) (simp_all add: look_step)

lemma table_kept: "\<forall>op \<in> set ops. \<not> touches op n \<Longrightarrow> look (fold step ops s) n = look s n"
  by (induction ops arbitrary: s) (simp_all add: look_step untouched_step)

end

fun registry_effect :: "'p registry_op \<Rightarrow> (string \<Rightarrow> 'p option) \<Rightarrow> (string \<Rightarrow> 'p option)" where
  "registry_effect (OpDefault d) m = (if m ''direct'' = None then m(''direct'' \<mapsto> d) else m)"
| "registry_effect (OpAliangProxy mk addr) m =
     (if m ''aliang'' = None
      then m(''aliang'' := mk (if addr = [] then ''ai-gateway.aliang.one:443'' else addr)) else m)"
| "registry_effect (OpRegister n p) m = (if n = [] \<or> p = None then m else m(n := p))"
| "registry_effect (OpUnregister n) m = m(n := None)"
| "registry_effect OpClear m = Map.empty"

fun registry_touches :: "'p registry_op \<Rightarrow> string \<Rightarrow> bool" where
  "registry_touches (OpDefault d) n \<longleftrightarrow> n = ''direct''"
| "registry_touches (OpAliangProxy mk addr) n \<longleftrightarrow> n = ''aliang''"
| "registry_touches (OpRegister k p) n \<longleftrightarrow> n = k"
| "registry_touches (OpUnregister k) n \<longleftrightarrow> n = k"
| "registry_touches OpClear n \<longleftrightarrow> True"

definition registry_map :: "'p Registry \<Rightarrow> string \<Rightarrow> 'p option" where
  "registry_map r = map_of (reg_proxies r)"

lemma Registry_Get_map: "Registry_Get n r = (case registry_map r n of Some p \<Rightarrow> Inr p | None \<Rightarrow> Inl (ProxyNotFound n))"
  by (simp add: Registry_Get_def registry_map_def)

lemma registry_step_map: "registry_map (registry_step op r) = registry_effect op (registry_map r)"
proof (cases op)
  case (OpRegister n p)
  then show ?thesis by (cases p) (auto simp: Register_def registry_map_def update_conv')
qed (auto simp: RegisterDefault_def RegisterAliang_def Unregister_def Registry_Clear_def
      registry_map_def update_conv' delete_conv' Let_def split: option.splits)

interpretation proxy_names: name_table registry_map registry_step registry_effect registry_touches
proof
  show "registry_map (registry_step op s) = registry_effect op (registry_map s)" for op s
    by (rule registry_step_map)
  show "\<not> registry_touches op n \<Longrightarrow> registry_effect op m n = m n" for op n m
    by (cases op) auto
qed

section \<open>Properties\<close>

lemma registry_distinct:
  "distinct (map fst (reg_proxies r)) \<Longrightarrow> distinct (map fst (reg_proxies (registry_step op r)))"
proof (cases op)
  case (OpRegister n p)
  then show "distinct (map fst (reg_proxies r)) \<Longrightarrow> ?thesis"
    by (cases p) (auto simp: Register_def distinct_update)
qed (auto simp: RegisterDefault_def RegisterAliang_def Unregister_def Registry_Clear_def
      distinct_update distinct_delete Let_def split: option.splits)

lemma registry_history_distinct:
  "distinct (map fst (reg_proxies r)) \<Longrightarrow> distinct (map fst (reg_proxies (fold registry_step ops r)))"
  by (induction ops arbitrary: r) (auto intro: registry_distinct)

text \<open>
  A proxy that has been registered is the one every later lookup of its name returns, until
  an operation on that name: after any history that leaves the name alone, the lookup by name
  succeeds, the name is among the listed ones, which are distinct, and the number of listed names is the count.
\<close>

theorem registered_proxy_found:
  assumes "name \<noteq> []" "\<forall>op \<in> set later. \<not> registry_touches op name"
    and r_def: "r = fold registry_step (earlier @ OpRegister name (Some p) # later) GetRegistry"
  shows "Registry_Get name r = Inr p \<and> name \<in> set (Registry_List r) \<and> distinct (Registry_List r) \<and>
    Registry_Count r = card (set (Registry_List r))"
proof -
  have found: "registry_map r name = Some p"
    using assms(1,2) registry_step_map [of "OpRegister name (Some p)"]
    by (simp add: r_def proxy_names.table_kept)
  have d: "distinct (Registry_List r)"
    unfolding r_def Registry_List_def by (rule registry_history_distinct) (simp add: GetRegistry_def)
  moreover have "name \<in> set (Registry_List r)"
    using found by (auto simp: registry_map_def Registry_List_def dest: map_of_SomeD intro: rev_image_eqI)
  ultimately show ?thesis
    using found distinct_card [OF d]
    by (simp add: Registry_Get_map) (simp add: Registry_Count_def Registry_List_def)
qed

theorem registered_proxy_found_witness:
  "Registry_Get ''socks'' (fold registry_step ([OpDefault (1::nat)] @ OpRegister ''socks'' (Some 7) #
      [OpAliangProxy (\<lambda>a. Some 3) [], OpUnregister ''http'']) GetRegistry) = Inr 7"
  using registered_proxy_found [of "''socks''" "[OpAliangProxy (\<lambda>a. Some 3) [], OpUnregister ''http'']"
      _ "[OpDefault (1::nat)]" 7]
  by simp

end
