(* ===== verification/Tcp_Handler.thy ===== *)
theory Tcp_Handler
  imports Tcp_Route SNI Registry
begin

text \<open>
  The TLS path of the TCP handler, \<^verbatim>\<open>processor/tcp/handler.go\<close>: observing the server name,
  falling back on a unique cached domain, choosing the route, interception, and dialling. What is
  outside the handler is read through a \<open>tcp_env\<close>: the configuration, the switches, the DNS
  cache, the active canonical schema, the registry, the outcomes of dialling, of certificate
  creation and of the TLS handshake, and the reads the intercepted connection will make. Log
  lines are left out except where evaluating their arguments can panic.
\<close>

section \<open>Connections and environment\<close>

text \<open>
  A \<^verbatim>\<open>net.Conn\<close> value. \<open>NilConn\<close> is the nil interface; \<open>NilWrapped\<close> is a nil \<^verbatim>\<open>*WrappedConn\<close>
  stored in an interface, which Go does not regard as nil.
\<close>

datatype conn =
    NilConn | NilWrapped | OriginConn | Wrapped conn "byte list" | Mitmed conn string | WatcherWrap conn

datatype 'p remote = DirectRemote string | ProxyRemote 'p

datatype deny_cause = NoCause | RegistryCause registry_error | UpstreamCause string

datatype handler_error =
    BranchDenyError string string deny_cause | DialFailed | TLSConfigFailed | HandshakeFailed

record 'p tcp_env =
  te_config :: "Config option"
  te_switches :: SwitchManager
  te_cache :: "IPDomainCache option"
  te_canonical :: "CanonicalRoutingSchema option"
  te_registry :: "'p Registry"
  te_dial_direct :: "string \<Rightarrow> bool"
  te_dial_proxy :: "'p \<Rightarrow> Metadata \<Rightarrow> bool"
  te_cert_ok :: "string \<Rightarrow> bool"
  te_handshake_ok :: "string \<Rightarrow> bool"
  te_app_reads :: "read_result list"

section \<open>Application protocol\<close>

abbreviation AppProtoUnknown :: string where "AppProtoUnknown \<equiv> ''unknown''"
abbreviation AppProtoHTTP1 :: string where "AppProtoHTTP1 \<equiv> ''http1''"
abbreviation AppProtoHTTP2 :: string where "AppProtoHTTP2 \<equiv> ''http2''"

text \<open>A carriage return and a line feed.\<close>

definition crlf :: string where "crlf = [char_of (13::nat), char_of (10::nat)]"
definition lf :: string where "lf = [char_of (10::nat)]"

definition ClientPreface :: "byte list" where
  "ClientPreface = bytes_of_string (''PRI * HTTP/2.0'' @ crlf @ crlf @ ''SM'' @ crlf @ crlf)"

definition httpMethods :: "string list" where
  "httpMethods = [''GET '', ''POST '', ''PUT '', ''HEAD '', ''PATCH '', ''DELETE '', ''OPTIONS '', ''CONNECT '', ''TRACE '']"

definition detectApplicationProtocol :: "byte list \<Rightarrow> string" where
  "detectApplicationProtocol prefetched =
     (if prefetched = [] then AppProtoUnknown
      else if length prefetched \<ge> length ClientPreface \<and> take (length ClientPreface) prefetched = ClientPreface
      then AppProtoHTTP2
      else if list_ex (\<lambda>m. length prefetched \<ge> length m \<and> take (length m) prefetched = bytes_of_string m) httpMethods
      then AppProtoHTTP1
      else AppProtoUnknown)"

definition hasCompleteHTTPHeaders :: "byte list \<Rightarrow> bool" where
  "hasCompleteHTTPHeaders buf \<longleftrightarrow>
     Contains buf (bytes_of_string (crlf @ crlf)) \<or> Contains buf (bytes_of_string (lf @ lf))"

definition couldStillBeHTTP :: "byte list \<Rightarrow> bool" where
  "couldStillBeHTTP buf =
     (if buf = [] then True
      else let upperPrefix = ToUpper (string_of_bytes buf) in
           list_ex (\<lambda>m. HasPrefix m upperPrefix \<or> HasPrefix upperPrefix (m @ '' ''))
             [''GET'', ''POST'', ''PUT'', ''PATCH'', ''DELETE'', ''HEAD'', ''OPTIONS'', ''CONNECT'', ''TRACE''])"

definition applicationPrefetchMaxBytes :: nat where "applicationPrefetchMaxBytes = 8192"

text \<open>An exhausted script is a silent peer: the deadline ends the loop with what has been read.\<close>

fun prefetch_loop :: "nat \<Rightarrow> byte list \<Rightarrow> read_result list \<Rightarrow> byte list \<times> read_result list" where
  "prefetch_loop maxBytes buf [] = (buf, [])"
| "prefetch_loop maxBytes buf (r # rs) =
     (if length buf \<ge> maxBytes then (buf, r # rs)
      else let buf' = buf @ rd_data r in
           case rd_err r of
             Some _ \<Rightarrow> (buf', rs)
           | None \<Rightarrow>
               if buf' = [] then prefetch_loop maxBytes buf' rs
               else if hasCompleteHTTPHeaders buf' \<or> \<not> couldStillBeHTTP buf' then (buf', rs)
               else prefetch_loop maxBytes buf' rs)"

definition prefetchApplicationData :: "conn \<Rightarrow> nat \<Rightarrow> read_result list \<Rightarrow> byte list \<times> read_result list" where
  "prefetchApplicationData c maxBytes rs =
     (if c = NilConn \<or> maxBytes = 0 then ([], rs) else prefetch_loop maxBytes [] rs)"

definition wrapBufferedConn :: "conn \<Rightarrow> byte list \<Rightarrow> conn" where
  "wrapBufferedConn originConn buf = (if buf = [] then originConn else Wrapped originConn buf)"

definition wrapAliangHTTPConn :: "conn \<Rightarrow> conn" where
  "wrapAliangHTTPConn c = (if c = NilConn then NilConn else WatcherWrap c)"

definition wrapAliangHTTPConnByProto :: "conn \<Rightarrow> string \<Rightarrow> conn" where
  "wrapAliangHTTPConnByProto c appProto =
     (if c = NilConn then NilConn else if appProto = AppProtoHTTP1 then c else wrapAliangHTTPConn c)"

section \<open>Dialling\<close>

definition getAliangProxyForExecution :: "'p tcp_env \<Rightarrow> handler_error + 'p" where
  "getAliangProxyForExecution env =
     (if (case te_canonical env of Some c \<Rightarrow> \<not> eg_ToAliang_Enabled (cs_Egress c) | None \<Rightarrow> False)
      then Inl (BranchDenyError ''toAliang'' ''toAliang_disabled'' NoCause)
      else (case GetAliang (te_registry env) of
              Inl e \<Rightarrow> Inl (BranchDenyError ''toAliang'' ''toAliang_unavailable'' (RegistryCause e))
            | Inr p \<Rightarrow> Inr p))"

definition upstream_proxy :: "'p tcp_env \<Rightarrow> string \<Rightarrow> handler_error + 'p \<times> string" where
  "upstream_proxy env upstreamType =
     (if upstreamType = ''socks'' \<or> upstreamType = ''http'' then
        let proxyName = (if upstreamType = ''socks'' then ''socks'' else ''http'') in
        (case Registry_Get proxyName (te_registry env) of
           Inl e \<Rightarrow> Inl (BranchDenyError ''toSocks'' ''toSocks_unavailable'' (RegistryCause e))
         | Inr p \<Rightarrow> Inr (p, upstreamType))
      else Inl (BranchDenyError ''toSocks'' ''toSocks_unsupported_upstream_type'' (UpstreamCause upstreamType)))"

definition getToSocksProxyForExecution :: "'p tcp_env \<Rightarrow> handler_error + 'p \<times> string" where
  "getToSocksProxyForExecution env =
     (case te_canonical env of
        None \<Rightarrow> upstream_proxy env ''socks''
      | Some c \<Rightarrow>
          if \<not> eg_ToSocks_Enabled (cs_Egress c) then Inl (BranchDenyError ''toSocks'' ''toSocks_disabled'' NoCause)
          else if eg_ToSocks_Upstream_Type (cs_Egress c) = []
          then Inl (BranchDenyError ''toSocks'' ''toSocks_misconfigured'' NoCause)
          else upstream_proxy env (eg_ToSocks_Upstream_Type (cs_Egress c)))"

definition isCustomerProxyEnabled :: "Config option \<Rightarrow> bool" where
  "isCustomerProxyEnabled cfg =
     (case cfg of None \<Rightarrow> True
      | Some c \<Rightarrow> (case cfg_Customer c of None \<Rightarrow> True
      | Some cust \<Rightarrow> (case cc_Proxy cust of None \<Rightarrow> True | Some p \<Rightarrow> IsEnabled (Some p))))"

text \<open>\<^verbatim>\<open>net.JoinHostPort\<close>: a host with a colon is bracketed.\<close>

definition JoinHostPort :: "string \<Rightarrow> string \<Rightarrow> string" where
  "JoinHostPort host port =
     (if CHR '':'' \<in> set host then ''['' @ host @ '']:'' @ port else host @ '':'' @ port)"

definition dialDirect :: "'p tcp_env \<Rightarrow> Metadata \<Rightarrow> handler_error + 'p remote" where
  "dialDirect env m =
     (let addr = JoinHostPort (addr_String (md_DstIP m)) (digits_of (unat (md_DstPort m))) in
      if te_dial_direct env addr then Inr (DirectRemote addr) else Inl DialFailed)"

definition proxy_dial :: "'p tcp_env \<Rightarrow> 'p \<Rightarrow> Metadata \<Rightarrow> handler_error + 'p remote" where
  "proxy_dial env p m = (if te_dial_proxy env p m then Inr (ProxyRemote p) else Inl DialFailed)"

definition dialViaSocksOrDirect :: "'p tcp_env \<Rightarrow> Metadata \<Rightarrow> Metadata \<times> (handler_error + 'p remote)" where
  "dialViaSocksOrDirect env m =
     (if \<not> isCustomerProxyEnabled (te_config env) then
        let m1 = m\<lparr>md_Route := ''RouteDirect''\<rparr> in (m1, dialDirect env m1)
      else (case getToSocksProxyForExecution env of
              Inl e \<Rightarrow> (m, Inl e)
            | Inr (socksProxy, upstreamType) \<Rightarrow>
                let m1 = m\<lparr>md_Route := ''RouteToSocks''\<rparr> in (m1, proxy_dial env socksProxy m1)))"

definition dialByRoute :: "'p tcp_env \<Rightarrow> Metadata \<Rightarrow> ProxyRoute \<Rightarrow> Metadata \<times> (handler_error + 'p remote)" where
  "dialByRoute env m route =
     (case route of
        RouteToALiang \<Rightarrow>
          let m1 = m\<lparr>md_Route := ''RouteToALiang''\<rparr> in
          (m1, case getAliangProxyForExecution env of
                 Inl e \<Rightarrow> Inl e
               | Inr aliangProxy \<Rightarrow> proxy_dial env aliangProxy m1)
      | RouteToLocalProxy \<Rightarrow> dialViaSocksOrDirect env m
      | ProxyRouteDirect \<Rightarrow>
          let m1 = m\<lparr>md_Route := ''RouteDirect''\<rparr> in (m1, dialDirect env m1))"

section \<open>The TLS path\<close>

text \<open>Computing the diagnostics of a nil \<^verbatim>\<open>*WrappedConn\<close> dereferences it; the text itself is only logged.\<close>

definition describeConnDiagnostics :: "conn \<Rightarrow> unit + unit" where
  "describeConnDiagnostics c = (if c = NilWrapped then Inl () else Inr ())"

text \<open>The handshake reads from the connection it is given, which a nil wrapper cannot do.\<close>

definition PerformMITM :: "'p tcp_env \<Rightarrow> conn \<Rightarrow> string \<Rightarrow> unit + (handler_error + conn)" where
  "PerformMITM env originConn serverName =
     (if \<not> te_cert_ok env serverName then Inr (Inl TLSConfigFailed)
      else if originConn = NilWrapped then Inl ()
      else if \<not> te_handshake_ok env serverName then Inr (Inl HandshakeFailed)
      else Inr (Inr (Mitmed originConn serverName)))"

fun unique_domains :: "(string \<times> CacheEntry) list \<Rightarrow> CacheEntry option list \<Rightarrow> (string \<times> CacheEntry) list" where
  "unique_domains u [] = u"
| "unique_domains u (None # es) = unique_domains u es"
| "unique_domains u (Some e # es) =
     (if ce_Domain e = [] then unique_domains u es
      else if map_of u (ce_Domain e) \<noteq> None then unique_domains u es
      else unique_domains (u @ [(ce_Domain e, e)]) es)"

definition selectUniqueCachedDomainEntry :: "CacheEntry option list \<Rightarrow> CacheEntry option \<times> nat" where
  "selectUniqueCachedDomainEntry entries =
     (if entries = [] then (None, 0)
      else let unique = unique_domains [] entries in
           if length unique \<noteq> 1 then (None, length unique) else (Some (snd (hd unique)), 1))"

definition setMetadataHostFromObservedSNI :: "time \<Rightarrow> string \<Rightarrow> Metadata \<Rightarrow> Metadata" where
  "setMetadataHostFromObservedSNI now sni m =
     (if sni = [] then m else SetHostName now sni BindingSourceSNI DefaultSNITTL m)"

text \<open>Step 1: the server name, the bytes consumed, and whether it was observed in the hello.\<close>

definition observe_server_name ::
  "time \<Rightarrow> read_result list \<Rightarrow> Metadata \<Rightarrow> unit + (string \<times> byte list \<times> Metadata \<times> bool)" where
  "observe_server_name now reads m =
     (if md_HostName m \<noteq> [] then Inr (md_HostName m, [], m, False)
      else reading (ExtractSNI reads) (\<lambda>(res, kept, _).
        let sniBuf = (case kept of Some b \<Rightarrow> b | None \<Rightarrow> []) in
        case res of
          Inl err \<Rightarrow> Inr ([], sniBuf, m, False)
        | Inr sni \<Rightarrow> Inr (sni, sniBuf, setMetadataHostFromObservedSNI now sni m, sni \<noteq> [])))"

text \<open>Step 2: a unique cached domain of the destination address.\<close>

definition cached_host :: "'p tcp_env \<Rightarrow> time \<Rightarrow> Metadata \<Rightarrow> Metadata \<times> bool" where
  "cached_host env now m =
     (case te_cache env of
        None \<Rightarrow> (m, False)
      | Some cache \<Rightarrow>
          if \<not> IsUnspecified (md_DstIP m) then
            (case selectUniqueCachedDomainEntry
                    (map (\<lambda>p. Some (entry_at cache p)) (GetByIP now (md_DstIP m) cache)) of
               (Some e, _) \<Rightarrow>
                 let bindingSource = (if ce_BindingSources e \<noteq> [] then hd (ce_BindingSources e) else []) in
                 (SetHostNameFromCacheEntry (ce_Domain e) bindingSource (ce_CreatedAt e) (TimeToLive now e) m, True)
             | (None, _) \<Rightarrow> (m, False))
          else (m, False))"

definition resolveTLSRoute ::
  "'p tcp_env \<Rightarrow> Metadata \<Rightarrow> ProxyRoute \<Rightarrow> conn \<Rightarrow> string
    \<Rightarrow> unit + Metadata \<times> (handler_error + 'p remote option \<times> conn)" where
  "resolveTLSRoute env m route wrapped mitmedSNI =
     (if route = RouteToALiang then
        let m1 = m\<lparr>md_Route := ''RouteToALiang''\<rparr>;
            mitmConn = (if wrapped = NilConn then OriginConn else wrapped) in
        reading (PerformMITM env mitmConn mitmedSNI) (\<lambda>res.
          case res of
            Inl err \<Rightarrow> Inr (m1, Inl err)
          | Inr mitmed \<Rightarrow>
              let prefetchedData = fst (prefetchApplicationData mitmed applicationPrefetchMaxBytes (te_app_reads env));
                  m2 = m1\<lparr>md_AppProto := detectApplicationProtocol prefetchedData\<rparr>;
                  m3 = (if md_AppProto m2 = [] then m2\<lparr>md_AppProto := AppProtoUnknown\<rparr> else m2);
                  bufferedMitmed = wrapBufferedConn mitmed prefetchedData in
              case dialByRoute env m3 route of
                (m4, Inl err) \<Rightarrow> Inr (m4, Inl err)
              | (m4, Inr remote) \<Rightarrow>
                  Inr (m4, Inr (Some remote, wrapAliangHTTPConnByProto bufferedMitmed (md_AppProto m4))))
      else
        case dialByRoute env m route of
          (m1, Inl err) \<Rightarrow> Inr (m1, Inl err)
        | (m1, Inr remote) \<Rightarrow>
            reading (describeConnDiagnostics wrapped) (\<lambda>_. Inr (m1, Inr (Some remote, wrapped))))"

definition mitm_name :: "string \<Rightarrow> Metadata \<Rightarrow> bool \<Rightarrow> string" where
  "mitm_name sni m cacheFallbackUsed =
     (if sni = [] \<and> md_HostName m \<noteq> [] \<and>
         (case md_DNSInfo m of Some di \<Rightarrow> di_BindingSource di = BindingSourceCONNECT | None \<Rightarrow> False)
      then md_HostName m
      else if sni = [] \<and> cacheFallbackUsed then md_HostName m
      else sni)"

definition handleTLS ::
  "'p tcp_env \<Rightarrow> time \<Rightarrow> read_result list \<Rightarrow> Metadata
    \<Rightarrow> unit + Metadata \<times> (handler_error + 'p remote option \<times> conn)" where
  "handleTLS env now reads m =
     reading (observe_server_name now reads m) (\<lambda>(sni, sniBuf, m1, observed).
       if observed \<and> IsDoHProvider sni then Inr (m1, Inr (None, NilConn))
       else
         let wrapped = (if sniBuf \<noteq> [] then Wrapped OriginConn sniBuf else NilWrapped) in
         reading (describeConnDiagnostics wrapped) (\<lambda>_.
           let (m2, cacheFallbackUsed) = (if md_HostName m1 = [] then cached_host env now m1 else (m1, False)) in
           if md_HostName m2 = [] then resolveTLSRoute env m2 ProxyRouteDirect wrapped []
           else
             let route = fst (DetermineRouteWithContext (te_config env) (te_switches env) (Some m2)) in
             resolveTLSRoute env m2 route wrapped (mitm_name sni m2 cacheFallbackUsed)))"

section \<open>Lemmas\<close>

lemma detect_not_empty [simp]: "detectApplicationProtocol b \<noteq> []"
  by (simp add: detectApplicationProtocol_def)

lemma prefetch_loop_preserves:
  "\<exists>taken. rs = taken @ snd (prefetch_loop n buf rs) \<and> fst (prefetch_loop n buf rs) = buf @ data_of taken"
proof (induction rs arbitrary: buf)
  case (Cons r rs)
  let ?buf = "buf @ rd_data r"
  obtain taken where u: "rs = taken @ snd (prefetch_loop n ?buf rs)"
    "fst (prefetch_loop n ?buf rs) = ?buf @ data_of taken" using Cons.IH by blast
  have "prefetch_loop n buf (r # rs) \<in> {(buf, r # rs), (?buf, rs), prefetch_loop n ?buf rs}"
    by (auto simp: Let_def split: option.splits)
  then consider "prefetch_loop n buf (r # rs) = (buf, r # rs)" | "prefetch_loop n buf (r # rs) = (?buf, rs)"
    | "prefetch_loop n buf (r # rs) = prefetch_loop n ?buf rs" by blast
  then show ?case
  proof cases
    case 1 then show ?thesis by (intro exI [of _ "[]"]) simp
  next
    case 2 then show ?thesis by (intro exI [of _ "[r]"]) simp
  next
    case 3 with u show ?thesis by (intro exI [of _ "r # taken"]) simp
  qed
qed simp

definition named_domains :: "CacheEntry option list \<Rightarrow> string set" where
  "named_domains es = {ce_Domain e | e. Some e \<in> set es \<and> ce_Domain e \<noteq> []}"

lemma named_domains_simps [simp]:
  "named_domains [] = {}" "named_domains (None # es) = named_domains es"
  "named_domains (Some e # es) = (if ce_Domain e = [] then {} else {ce_Domain e}) \<union> named_domains es"
  by (auto simp: named_domains_def)

lemma unique_domains_keys: "fst ` set (unique_domains u es) = fst ` set u \<union> named_domains es"
proof (induction u es rule: unique_domains.induct)
  case (3 u e es)
  have "map_of u (ce_Domain e) = None \<longleftrightarrow> ce_Domain e \<notin> fst ` set u"
    by (simp add: map_of_eq_None_iff)
  with 3 show ?case by (cases "ce_Domain e = []"; cases "ce_Domain e \<in> fst ` set u") auto
qed auto

lemma unique_domains_entries:
  assumes "\<forall>(d, e) \<in> set u. d = ce_Domain e \<and> Some e \<in> set es0"
    and "set es \<subseteq> set es0" "distinct (map fst u)"
  shows "(\<forall>(d, e) \<in> set (unique_domains u es). d = ce_Domain e \<and> Some e \<in> set es0) \<and>
    distinct (map fst (unique_domains u es))"
  using assms
proof (induction u es rule: unique_domains.induct)
  case (3 u e es)
  have "map_of u (ce_Domain e) = None \<longleftrightarrow> ce_Domain e \<notin> fst ` set u" by (simp add: map_of_eq_None_iff)
  with 3 show ?case by (auto split: prod.splits)
qed auto

lemma select_unique_spec:
  "snd (selectUniqueCachedDomainEntry es) = card (named_domains es) \<and>
    (case fst (selectUniqueCachedDomainEntry es) of
       None \<Rightarrow> card (named_domains es) \<noteq> 1
     | Some e \<Rightarrow> named_domains es = {ce_Domain e} \<and> Some e \<in> set es)"
proof -
  let ?u = "unique_domains [] es"
  have keys: "fst ` set ?u = named_domains es" using unique_domains_keys [of "[]" es] by simp
  have ent: "\<forall>(d, e) \<in> set ?u. d = ce_Domain e \<and> Some e \<in> set es" "distinct (map fst ?u)"
    using unique_domains_entries [of "[]" es es] by auto
  have card: "card (named_domains es) = length ?u"
    using distinct_card [OF ent(2)] keys by simp
  show ?thesis
  proof (cases "length ?u = 1")
    case True
    then obtain d e where u: "?u = [(d, e)]" by (metis length_0_conv length_Suc_conv One_nat_def surj_pair)
    then have "es \<noteq> []" by auto
    then show ?thesis using u ent keys card by (auto simp: selectUniqueCachedDomainEntry_def Let_def)
  next
    case False
    then show ?thesis using card by (auto simp: selectUniqueCachedDomainEntry_def Let_def)
  qed
qed

section \<open>The plan of a TLS connection\<close>

definition tls_metadata :: "'p tcp_env \<Rightarrow> time \<Rightarrow> string \<Rightarrow> Metadata \<Rightarrow> Metadata" where
  "tls_metadata env now sni m =
     (let m1 = setMetadataHostFromObservedSNI now sni m in
      if md_HostName m1 = [] then fst (cached_host env now m1) else m1)"

definition tls_route :: "'p tcp_env \<Rightarrow> Metadata \<Rightarrow> ProxyRoute" where
  "tls_route env m = (if md_HostName m = [] then ProxyRouteDirect
     else fst (DetermineRouteWithContext (te_config env) (te_switches env) (Some m)))"

definition sni_of :: "sni_result \<Rightarrow> string" where
  "sni_of res = (case res of Inr s \<Rightarrow> s | Inl _ \<Rightarrow> [])"

lemma IsDoHProvider_Nil [simp]: "\<not> IsDoHProvider []"
  by (simp add: IsDoHProvider_def)

lemma set_observed_host [simp]:
  "md_HostName (setMetadataHostFromObservedSNI now sni m) = (if sni = [] then md_HostName m else sni)"
  by (simp add: setMetadataHostFromObservedSNI_def)

lemma cached_host_used:
  "md_HostName m = [] \<Longrightarrow> md_HostName (fst (cached_host env now m)) \<noteq> [] \<Longrightarrow> snd (cached_host env now m)"
  by (auto simp: cached_host_def Let_def split: option.splits prod.splits if_splits)

lemma tls_plan:
  assumes "md_HostName m = []" "ExtractSNI reads = Inr (res, Some b, rest)"
  shows "handleTLS env now reads m =
    (if IsDoHProvider (sni_of res) then Inr (setMetadataHostFromObservedSNI now (sni_of res) m, Inr (None, NilConn))
     else let m2 = tls_metadata env now (sni_of res) m in
          resolveTLSRoute env m2 (tls_route env m2) (Wrapped OriginConn b) (md_HostName m2))"
proof -
  have b: "b \<noteq> []" using extract_buffer_length [OF assms(2)] by auto
  have "observe_server_name now reads m =
      Inr (sni_of res, b, setMetadataHostFromObservedSNI now (sni_of res) m, sni_of res \<noteq> [])"
    using assms by (cases res)
      (auto simp: observe_server_name_def reading_def sni_of_def setMetadataHostFromObservedSNI_def)
  moreover have "md_HostName m2 \<noteq> [] \<Longrightarrow> mitm_name [] m2 True = md_HostName m2" for m2
    by (simp add: mitm_name_def)
  moreover have "s \<noteq> [] \<Longrightarrow> mitm_name s m2 u = s" for s m2 u
    by (simp add: mitm_name_def)
  ultimately show ?thesis
    using b assms(1) cached_host_used [of "setMetadataHostFromObservedSNI now (sni_of res) m" env now]
    by (auto simp: handleTLS_def reading_def describeConnDiagnostics_def tls_metadata_def tls_route_def
        Let_def case_prod_beta)
qed

fun intercepted :: "conn \<Rightarrow> string option" where
  "intercepted (Mitmed c name) = Some name"
| "intercepted (Wrapped c b) = intercepted c"
| "intercepted (WatcherWrap c) = intercepted c"
| "intercepted _ = None"

lemma intercepted_wrap [simp]:
  "intercepted (wrapBufferedConn c b) = intercepted c"
  "intercepted (wrapAliangHTTPConnByProto c p) = intercepted c"
  by (auto simp: wrapBufferedConn_def wrapAliangHTTPConnByProto_def wrapAliangHTTPConn_def)

section \<open>Egress\<close>

text \<open>What a successful dial has used, route by route.\<close>

definition permitted :: "'p tcp_env \<Rightarrow> (CanonicalRoutingSchema \<Rightarrow> bool) \<Rightarrow> bool" where
  "permitted env ok = (case te_canonical env of Some c \<Rightarrow> ok c | None \<Rightarrow> True)"

definition dialled_aliang :: "'p tcp_env \<Rightarrow> 'p remote \<Rightarrow> bool" where
  "dialled_aliang env r \<longleftrightarrow> permitted env (\<lambda>c. eg_ToAliang_Enabled (cs_Egress c)) \<and>
     (\<exists>p. r = ProxyRemote p \<and> registry_map (te_registry env) ''aliang'' = Some p)"

definition dialled_proxy :: "'p tcp_env \<Rightarrow> 'p remote \<Rightarrow> bool" where
  "dialled_proxy env r \<longleftrightarrow>
     (\<exists>p t. r = ProxyRemote p \<and> t \<in> {''socks'', ''http''} \<and> registry_map (te_registry env) t = Some p \<and>
        permitted env (\<lambda>c. eg_ToSocks_Enabled (cs_Egress c) \<and> eg_ToSocks_Upstream_Type (cs_Egress c) = t) \<and>
        (te_canonical env \<noteq> None \<or> t = ''socks''))"

definition dialled_direct :: "Metadata \<Rightarrow> 'p remote \<Rightarrow> bool" where
  "dialled_direct m r \<longleftrightarrow>
     r = DirectRemote (JoinHostPort (addr_String (md_DstIP m)) (digits_of (unat (md_DstPort m))))"

lemma aliang_dial:
  assumes "dialByRoute env m RouteToALiang = (m', Inr r)"
  shows "dialled_aliang env r \<and> m' = m\<lparr>md_Route := ''RouteToALiang''\<rparr>"
  using assms
  by (auto simp: dialByRoute_def getAliangProxyForExecution_def GetAliang_def proxy_dial_def dialled_aliang_def
      permitted_def registry_map_def Let_def split: if_splits option.splits sum.splits)

lemma direct_dial:
  assumes "dialByRoute env m ProxyRouteDirect = (m', Inr r)"
  shows "dialled_direct m r \<and> m' = m\<lparr>md_Route := ''RouteDirect''\<rparr>"
  using assms by (auto simp: dialByRoute_def dialDirect_def dialled_direct_def Let_def split: if_splits)

lemma socks_proxy:
  assumes "getToSocksProxyForExecution env = Inr (p, t)"
  shows "t \<in> {''socks'', ''http''} \<and> registry_map (te_registry env) t = Some p \<and>
        permitted env (\<lambda>c. eg_ToSocks_Enabled (cs_Egress c) \<and> eg_ToSocks_Upstream_Type (cs_Egress c) = t) \<and>
        (te_canonical env \<noteq> None \<or> t = ''socks'')"
  using assms
  by (auto simp: getToSocksProxyForExecution_def upstream_proxy_def Registry_Get_map permitted_def Let_def
      split: if_splits option.splits sum.splits)

lemma local_proxy_dial:
  assumes "dialByRoute env m RouteToLocalProxy = (m', Inr r)"
  shows "if isCustomerProxyEnabled (te_config env)
    then dialled_proxy env r \<and> m' = m\<lparr>md_Route := ''RouteToSocks''\<rparr>
    else dialled_direct m r \<and> m' = m\<lparr>md_Route := ''RouteDirect''\<rparr>"
proof (cases "isCustomerProxyEnabled (te_config env)")
  case True
  then obtain p t where g: "getToSocksProxyForExecution env = Inr (p, t)"
    using assms by (auto simp: dialByRoute_def dialViaSocksOrDirect_def split: sum.splits)
  then have "r = ProxyRemote p" "m' = m\<lparr>md_Route := ''RouteToSocks''\<rparr>"
    using assms True by (auto simp: dialByRoute_def dialViaSocksOrDirect_def proxy_dial_def Let_def split: if_splits)
  then show ?thesis using socks_proxy [OF g] True by (auto simp: dialled_proxy_def)
next
  case False
  then show ?thesis
    using assms
    by (auto simp: dialByRoute_def dialViaSocksOrDirect_def dialDirect_def dialled_direct_def Let_def split: if_splits)
qed

text \<open>The outcome of a TLS route.\<close>

lemma resolve_aliang:
  assumes "resolveTLSRoute env m RouteToALiang (Wrapped OriginConn b) name = Inr (m', Inr (r, c))"
  shows "intercepted c = Some name \<and> md_HostName m' = md_HostName m \<and> md_Route m' = ''RouteToALiang'' \<and>
    (\<exists>remote. r = Some remote \<and> dialled_aliang env remote)"
  using assms
  by (auto simp: resolveTLSRoute_def PerformMITM_def reading_def Let_def dest!: aliang_dial
      split: if_splits sum.splits prod.splits)

lemma resolve_other:
  assumes "resolveTLSRoute env m route (Wrapped OriginConn b) name = Inr (m', Inr (r, c))" "route \<noteq> RouteToALiang"
  shows "c = Wrapped OriginConn b \<and> (\<exists>remote. r = Some remote \<and> dialByRoute env m route = (m', Inr remote))"
  using assms
  by (auto simp: resolveTLSRoute_def reading_def describeConnDiagnostics_def
      split: if_splits sum.splits prod.splits)

lemma tls_metadata_port [simp]:
  "md_DstPort (tls_metadata env now sni m) = md_DstPort m" "md_DstIP (tls_metadata env now sni m) = md_DstIP m"
  by (auto simp: tls_metadata_def cached_host_def setMetadataHostFromObservedSNI_def Let_def
      split: option.splits prod.splits)

text \<open>The host of a TLS connection is the observed server name or the only domain cached for its address.\<close>

lemma tls_host_origin:
  assumes "md_HostName m = []" "md_HostName (tls_metadata env now sni m) = name" "name \<noteq> []"
  shows "sni = name \<or> (\<exists>cache. te_cache env = Some cache \<and>
    named_domains (map (\<lambda>p. Some (entry_at cache p)) (GetByIP now (md_DstIP m) cache)) = {name})"
proof (cases "sni = []")
  case False
  then show ?thesis using assms by (simp add: tls_metadata_def Let_def)
next
  case True
  then have h: "md_HostName (fst (cached_host env now m)) = name"
    using assms by (simp add: tls_metadata_def setMetadataHostFromObservedSNI_def)
  then obtain cache where cache: "te_cache env = Some cache"
    using assms by (cases "te_cache env") (auto simp: cached_host_def)
  let ?es = "map (\<lambda>p. Some (entry_at cache p)) (GetByIP now (md_DstIP m) cache)"
  obtain e n where sel: "selectUniqueCachedDomainEntry ?es = (Some e, n)" "ce_Domain e = name"
    using h cache assms(1,3)
    by (auto simp: cached_host_def Let_def split: if_splits option.splits prod.splits)
  then show ?thesis using select_unique_spec [of ?es] cache by auto
qed

section \<open>Properties\<close>

text \<open>
  C25. No connection leaks past its route. A dial for the Aliang route succeeds only through the
  registered Aliang proxy, and only when the active canonical schema does not disable that
  branch. A dial for the local proxy goes through the registered upstream of the schema's type,
  or, only when the customer's proxy is switched off, directly. A direct dial goes to the
  connection's own destination. The recorded route names the branch that was taken.
\<close>

theorem egress_fail_closed:
  assumes "dialByRoute env m route = (m', Inr remote)"
  shows "case route of
      RouteToALiang \<Rightarrow> dialled_aliang env remote \<and> md_Route m' = ''RouteToALiang''
    | RouteToLocalProxy \<Rightarrow>
        (if isCustomerProxyEnabled (te_config env) then dialled_proxy env remote \<and> md_Route m' = ''RouteToSocks''
         else dialled_direct m remote \<and> md_Route m' = ''RouteDirect'')
    | ProxyRouteDirect \<Rightarrow> dialled_direct m remote \<and> md_Route m' = ''RouteDirect''"
  using assms aliang_dial [of env m m' remote] local_proxy_dial [of env m m' remote]
    direct_dial [of env m m' remote]
  by (cases route) (auto split: if_splits)

definition sample_metadata :: Metadata where
  "sample_metadata = \<lparr>md_Network = TCP, md_ConnID = ''c1'', md_SrcIP = AddrZero, md_MidIP = AddrZero,
     md_DstIP = AddrZero, md_SrcPort = 0, md_MidPort = 0, md_DstPort = 443, md_HostName = [], md_AppProto = [],
     md_DNSInfo = None, md_Route = []\<rparr>"

definition sample_env :: "nat tcp_env" where
  "sample_env = \<lparr>te_config = None, te_switches = GetSwitchManager,
     te_cache = None, te_canonical = None,
     te_registry = \<lparr>reg_proxies = [(''aliang'', 7), (''socks'', 9)]\<rparr>, te_dial_direct = (\<lambda>a. True),
     te_dial_proxy = (\<lambda>p m. True), te_cert_ok = (\<lambda>h. True), te_handshake_ok = (\<lambda>h. True), te_app_reads = []\<rparr>"

theorem egress_fail_closed_witness:
  "dialByRoute sample_env sample_metadata RouteToALiang =
     (sample_metadata\<lparr>md_Route := ''RouteToALiang''\<rparr>, Inr (ProxyRemote 7)) \<and> dialled_aliang sample_env (ProxyRemote 7)"
proof -
  have d: "dialByRoute sample_env sample_metadata RouteToALiang =
     (sample_metadata\<lparr>md_Route := ''RouteToALiang''\<rparr>, Inr (ProxyRemote 7))"
    by (simp add: dialByRoute_def getAliangProxyForExecution_def GetAliang_def proxy_dial_def sample_env_def Let_def)
  show ?thesis using egress_fail_closed [OF d] d by simp
qed

text \<open>
  C24. Interception is confined to the AI domains. Whenever the TLS path of a connection to port
  443 ends in a relay, either the client's connection is handed over unread, as the bytes consumed
  so far followed by the rest, or it has been intercepted, and then the name on the certificate is
  the connection's host, which is matched by an enabled AI provider while the Aliang switch is on;
  the host was observed in this connection's ClientHello or is the only domain cached for its
  address; and the remote side is the registered Aliang proxy.
\<close>

theorem interception_authorised:
  assumes "handleTLS env now reads m = Inr (m', Inr (Some remote, c))" "md_HostName m = []" "md_DstPort m = 443"
    and "ExtractSNI reads = Inr (res, kept, rest)" "reads = taken @ rest"
  shows "case intercepted c of
      None \<Rightarrow> c = Wrapped OriginConn (data_of taken)
    | Some name \<Rightarrow> name = md_HostName m' \<and> AliangEnabled (GetStatus (te_switches env)) \<and>
        (\<exists>p \<in> set (EffectiveAIAllowlist (te_config env)). matchDomain p (lower_trim name)) \<and>
        (res = Inr name \<or> (\<exists>cache. te_cache env = Some cache \<and>
           named_domains (map (\<lambda>p. Some (entry_at cache p)) (GetByIP now (md_DstIP m) cache)) = {name})) \<and>
        dialled_aliang env remote \<and> md_Route m' = ''RouteToALiang''"
proof -
  have "kept \<noteq> None"
    using assms(1,2,4) by (cases kept; cases res)
      (auto simp: handleTLS_def observe_server_name_def reading_def describeConnDiagnostics_def
        setMetadataHostFromObservedSNI_def split: if_splits)
  then obtain b where kept: "kept = Some b" by blast
  have b: "b = data_of taken"
    using extract_spec [of reads] assms(4,5) kept by auto
  let ?m2 = "tls_metadata env now (sni_of res) m"
  have plan: "resolveTLSRoute env ?m2 (tls_route env ?m2) (Wrapped OriginConn b) (md_HostName ?m2) = Inr (m', Inr (Some remote, c))"
    using assms(1) tls_plan [OF assms(2) assms(4) [unfolded kept], of env now] by (auto simp: Let_def split: if_splits)
  show ?thesis
  proof (cases "tls_route env ?m2 = RouteToALiang")
    case False
    then show ?thesis using resolve_other [OF plan] b by simp
  next
    case True
    then have host: "md_HostName ?m2 \<noteq> []" by (auto simp: tls_route_def)
    have route: "fst (DetermineRouteWithContext (te_config env) (te_switches env) (Some ?m2)) = RouteToALiang"
      using True host by (simp add: tls_route_def)
    have "\<not> shouldForceAliangRoute (Some ?m2)"
      using assms(3) by (simp add: shouldForceAliangRoute_def DefaultHTTPProxyPort_def)
    then have ai: "AliangEnabled (GetStatus (te_switches env))"
        "\<exists>p \<in> set (EffectiveAIAllowlist (te_config env)). matchDomain p (lower_trim (md_HostName ?m2))"
      using route by (auto simp: determine_route_fact split: if_splits)
    from tls_host_origin [OF assms(2) refl host] host
    have "res = Inr (md_HostName ?m2) \<or> (\<exists>cache. te_cache env = Some cache \<and>
        named_domains (map (\<lambda>p. Some (entry_at cache p)) (GetByIP now (md_DstIP m) cache)) = {md_HostName ?m2})"
      by (auto simp: sni_of_def split: sum.splits)
    then show ?thesis
      using resolve_aliang [OF plan [unfolded True]] ai by auto
  qed
qed

definition ai_env :: "nat tcp_env" where
  "ai_env = sample_env\<lparr>te_config := Some example_config\<rparr>"

theorem interception_authorised_witness:
  "\<exists>m' c. handleTLS ai_env 0 sample_reads sample_metadata = Inr (m', Inr (Some (ProxyRemote 7), c)) \<and>
     intercepted c = Some ''api.openai.com'' \<and> AliangEnabled (GetStatus (te_switches ai_env)) \<and>
     dialled_aliang ai_env (ProxyRemote 7)"
proof -
  obtain taken rest where x: "sample_reads = taken @ rest"
      "ExtractSNI sample_reads = Inr (Inr ''api.openai.com'', Some (data_of taken), rest)"
    using extract_hello [OF sample_hello_ok sample_reads_ok] by blast
  define m2 where "m2 = tls_metadata ai_env 0 ''api.openai.com'' sample_metadata"
  have m2: "md_HostName m2 = ''api.openai.com''" "md_DstPort m2 = 443"
    by (simp_all add: m2_def tls_metadata_def sample_metadata_def setMetadataHostFromObservedSNI_def)
  have al: "EffectiveAIAllowlist (Some example_config) = [''*.openai.com'']" by code_simp
  have "\<not> IsDoHProvider ''api.openai.com''" "matchDomain ''*.openai.com'' (lower_trim ''api.openai.com'')"
    by code_simp+
  then have route: "\<not> IsDoHProvider ''api.openai.com''" "tls_route ai_env m2 = RouteToALiang"
    using m2 by (simp_all add: tls_route_def determine_route_fact ai_env_def sample_env_def al GetSwitchManager_def
        GetStatus_def shouldForceAliangRoute_def DefaultHTTPProxyPort_def)
  have empty: "md_HostName sample_metadata = []" "md_DstPort sample_metadata = 443"
    by (simp_all add: sample_metadata_def)
  have plan: "handleTLS ai_env 0 sample_reads sample_metadata =
      resolveTLSRoute ai_env m2 RouteToALiang (Wrapped OriginConn (data_of taken)) ''api.openai.com''"
    using tls_plan [OF empty(1) x(2), of ai_env 0] route m2 by (simp add: sni_of_def m2_def Let_def)
  have "\<exists>m' c. resolveTLSRoute ai_env m2 RouteToALiang (Wrapped OriginConn (data_of taken)) ''api.openai.com'' =
      Inr (m', Inr (Some (ProxyRemote 7), c))"
    by (simp add: resolveTLSRoute_def PerformMITM_def reading_def ai_env_def sample_env_def dialByRoute_def
        getAliangProxyForExecution_def GetAliang_def proxy_dial_def Let_def)
  then obtain m' c where h: "handleTLS ai_env 0 sample_reads sample_metadata = Inr (m', Inr (Some (ProxyRemote 7), c))"
      "intercepted c = Some ''api.openai.com''"
    using plan resolve_aliang [of ai_env m2 "data_of taken" "''api.openai.com''"] by fastforce
  show ?thesis
    using interception_authorised [OF h(1) empty x(2,1)] h by auto
qed

lemma handle_tls_panic_fact:
  "handleTLS env now reads m = Inl () \<longleftrightarrow>
     md_HostName m \<noteq> [] \<or> (\<exists>res rest. ExtractSNI reads = Inr (res, None, rest))"
proof (cases "md_HostName m = []")
  case False
  then show ?thesis by (simp add: handleTLS_def observe_server_name_def reading_def describeConnDiagnostics_def)
next
  case True
  obtain res kept taken rest where e: "ExtractSNI reads = Inr (res, kept, rest)"
    "case kept of Some b \<Rightarrow> b = data_of taken | None \<Rightarrow> res = Inl EOFBeforeHello \<or> res = Inl ReadError"
    using extract_spec [of reads] by blast
  show ?thesis
  proof (cases kept)
    case None
    then show ?thesis using True e
      by (auto simp: handleTLS_def observe_server_name_def reading_def describeConnDiagnostics_def)
  next
    case (Some b)
    have "resolveTLSRoute env m2 route (Wrapped OriginConn b) name \<noteq> Inl ()" for m2 route name
      by (auto simp: resolveTLSRoute_def PerformMITM_def reading_def describeConnDiagnostics_def Let_def
          split: sum.splits prod.splits if_splits)
    then show ?thesis
      using True Some e tls_plan [OF True e(1) [unfolded Some], of env now] by (auto simp: Let_def)
  qed
qed

text \<open>
  When the TLS path crashes: it survives exactly when it has ClientHello bytes to replay. It
  panics when the host name was already known, as for every CONNECT request to port 443, and when
  the read of the hello failed or ended early: the wrapper is then a nil pointer in a non-nil
  interface, which the diagnostics dereference.
\<close>

theorem handle_tls_panics_iff:
  "no_panic (handleTLS env now reads m) \<longleftrightarrow>
     md_HostName m = [] \<and> (\<exists>res b rest. ExtractSNI reads = Inr (res, Some b, rest))"
proof -
  obtain res kept rest where "ExtractSNI reads = Inr (res, kept, rest)"
    using extract_spec [of reads] by blast
  then show ?thesis
    using handle_tls_panic_fact [of env now reads m]
    by (cases kept; cases "handleTLS env now reads m") auto
qed

end
