(* ===== verification/Url.thy ===== *)
theory Url
  imports Netip
begin

text \<open>
  The part of \<^verbatim>\<open>net/url\<close> that the handlers use: the \<^verbatim>\<open>Host\<close> field of \<^verbatim>\<open>url.Parse\<close>, or
  \<^const>\<open>None\<close> where parsing fails. The steps are those of the standard library: the fragment is
  cut off, control characters are refused, then scheme, query, authority and path.
\<close>

definition is_letter :: "char \<Rightarrow> bool" where
  "is_letter c = (let n = (of_char c :: nat) in 65 \<le> n \<and> n \<le> 90 \<or> 97 \<le> n \<and> n \<le> 122)"

definition is_alnum :: "char \<Rightarrow> bool" where
  "is_alnum c \<longleftrightarrow> is_letter c \<or> is_digit c"

definition is_control :: "char \<Rightarrow> bool" where
  "is_control c = (let n = (of_char c :: nat) in n < 32 \<or> n = 127)"

text \<open>The scheme and the rest; a colon in first position is an error.\<close>

fun scheme_loop :: "string \<Rightarrow> string \<Rightarrow> string \<Rightarrow> (string \<times> string) option" where
  "scheme_loop raw pre [] = Some ([], raw)"
| "scheme_loop raw pre (c # s) =
     (if is_letter c then scheme_loop raw (pre @ [c]) s
      else if is_digit c \<or> c \<in> {CHR ''+'', CHR ''-'', CHR ''.''} then
        (if pre = [] then Some ([], raw) else scheme_loop raw (pre @ [c]) s)
      else if c = CHR '':'' then (if pre = [] then None else Some (pre, s))
      else Some ([], raw))"

definition getScheme :: "string \<Rightarrow> (string \<times> string) option" where
  "getScheme raw = scheme_loop raw [] raw"

text \<open>Characters a host may hold unescaped.\<close>

definition host_char :: "char \<Rightarrow> bool" where
  "host_char c \<longleftrightarrow> is_alnum c \<or> (of_char c :: nat) \<ge> 128 \<or>
     c \<in> set (''-_.~!$&()*+,;=:[]<>'' @ [CHR 0x27, CHR 0x22])"

datatype escape_mode = EncodeHost | EncodeZone | EncodeOther

definition escape_byte :: "char \<Rightarrow> char \<Rightarrow> char" where
  "escape_byte a b = char_of (16 * the (hex_digit a) + the (hex_digit b))"

fun unescape :: "escape_mode \<Rightarrow> string \<Rightarrow> string option" where
  "unescape mode [] = Some []"
| "unescape mode (c # s) =
     (if c = CHR ''%'' then
        (case s of
           a # b # t \<Rightarrow>
             if \<not> (is_hex a \<and> is_hex b) then None
             else if mode = EncodeHost \<and> the (hex_digit a) < 8 \<and> [a, b] \<noteq> ''25'' then None
             else if mode = EncodeZone \<and> [a, b] \<noteq> ''25'' \<and> escape_byte a b \<noteq> CHR '' '' \<and>
                     \<not> (host_char (escape_byte a b) \<and> (of_char (escape_byte a b) :: nat) < 128) then None
             else map_option ((#) (escape_byte a b)) (unescape mode t)
         | _ \<Rightarrow> None)
      else if mode \<noteq> EncodeOther \<and> \<not> host_char c then None
      else map_option ((#) c) (unescape mode s))"

definition validOptionalPort :: "string \<Rightarrow> bool" where
  "validOptionalPort port = (port = [] \<or> hd port = CHR '':'' \<and> list_all is_digit (tl port))"

definition last_index :: "char \<Rightarrow> string \<Rightarrow> nat option" where
  "last_index c s = (if c \<in> set s then Some (length s - 1 - length (takeWhile (\<lambda>x. x \<noteq> c) (rev s))) else None)"

definition parseHost :: "string \<Rightarrow> string option" where
  "parseHost host =
     (if HasPrefix host ''['' then
        (case last_index (CHR '']'') host of
           None \<Rightarrow> None
         | Some i \<Rightarrow>
             if \<not> validOptionalPort (drop (Suc i) host) then None
             else (case Index (take i host) ''%25'' of
                Some zone \<Rightarrow>
                  (case (unescape EncodeHost (take zone host), unescape EncodeZone (drop zone (take i host)),
                         unescape EncodeHost (drop i host)) of
                     (Some h1, Some h2, Some h3) \<Rightarrow> Some (h1 @ h2 @ h3)
                   | _ \<Rightarrow> None)
              | None \<Rightarrow> unescape EncodeHost host))
      else
        (case last_index (CHR '':'') host of
           Some i \<Rightarrow> if \<not> validOptionalPort (drop i host) then None else unescape EncodeHost host
         | None \<Rightarrow> unescape EncodeHost host))"

definition validUserinfo :: "string \<Rightarrow> bool" where
  "validUserinfo s = list_all (\<lambda>c. is_alnum c \<or> c \<in> set (''-._:~!$&()*+,;=%@'' @ [CHR 0x27])) s"

definition parseAuthority :: "string \<Rightarrow> string option" where
  "parseAuthority authority =
     (case last_index (CHR ''@'') authority of
        None \<Rightarrow> parseHost authority
      | Some i \<Rightarrow>
          (case parseHost (drop (Suc i) authority) of
             None \<Rightarrow> None
           | Some host \<Rightarrow>
               let userinfo = take i authority in
               if \<not> validUserinfo userinfo then None
               else let (user, password, hasPassword) = Cut userinfo (CHR '':'') in
                    if unescape EncodeOther user = None \<or> unescape EncodeOther password = None then None
                    else Some host))"

text \<open>\<^verbatim>\<open>url.Parse(raw).Host\<close>.\<close>

definition url_host :: "string \<Rightarrow> string option" where
  "url_host raw =
     (let (u, frag, _) = Cut raw (CHR ''#'') in
      if list_ex is_control u then None
      else if unescape EncodeOther frag = None then None
      else if u = ''*'' then Some []
      else (case getScheme u of
        None \<Rightarrow> None
      | Some (scheme, rest0) \<Rightarrow>
          let (rest, _, _) = Cut rest0 (CHR ''?'') in
          if \<not> HasPrefix rest ''/'' \<and> scheme \<noteq> [] then Some []
          else if \<not> HasPrefix rest ''/'' \<and> CHR '':'' \<in> set (takeWhile (\<lambda>c. c \<noteq> CHR ''/'') rest) then None
          else if (scheme \<noteq> [] \<or> \<not> HasPrefix rest ''///'') \<and> HasPrefix rest ''//'' then
            (let authority = takeWhile (\<lambda>c. c \<noteq> CHR ''/'') (drop 2 rest);
                 path = dropWhile (\<lambda>c. c \<noteq> CHR ''/'') (drop 2 rest) in
             case parseAuthority authority of
               None \<Rightarrow> None
             | Some host \<Rightarrow> if unescape EncodeOther path = None then None else Some host)
          else if unescape EncodeOther rest = None then None
          else Some []))"

text \<open>A string without a colon or a slash names no authority.\<close>

lemma scheme_loop_no_colon: "CHR '':'' \<notin> set s \<Longrightarrow> scheme_loop raw pre s = Some ([], raw)"
  by (induction raw pre s rule: scheme_loop.induct) auto

lemma url_host_plain:
  assumes "CHR '':'' \<notin> set s" "CHR ''/'' \<notin> set s"
  shows "url_host s = None \<or> url_host s = Some []"
proof -
  let ?u = "fst (Cut s (CHR ''#''))"
  have u: "CHR '':'' \<notin> set ?u" "CHR ''/'' \<notin> set ?u"
    using assms by (auto simp: Cut_def dest: set_takeWhileD)
  let ?r = "fst (Cut ?u (CHR ''?''))"
  have "CHR ''/'' \<notin> set ?r" using u by (auto simp: Cut_def dest: set_takeWhileD)
  then have "\<not> HasPrefix ?r ''/''" "\<not> HasPrefix ?r ''//''" by (auto simp: HasPrefix_iff)
  then show ?thesis
    using u by (auto simp: url_host_def getScheme_def scheme_loop_no_colon Let_def case_prod_beta)
qed

end
