(* ===== verification/Http_Host.thy ===== *)
theory Http_Host
  imports Url Config_Types
begin

text \<open>
  Host names in HTTP requests: the host a plain HTTP connection is routed by
  (\<^verbatim>\<open>processor/tcp/handler.go\<close>, \<^verbatim>\<open>metadata.go\<close>) and the rewriting of the host of requests that
  go to Aliang (\<^verbatim>\<open>processor/watcher/aliang_http_host_rewrite.go\<close>). Go iterates over a map of AI
  rules in an unspecified order; here it is the order of the association list.
\<close>

section \<open>The routing host\<close>

definition isAllDigits :: "string \<Rightarrow> bool" where
  "isAllDigits value = (if value = [] then False else list_all is_digit value)"

definition label_ok :: "string \<Rightarrow> bool" where
  "label_ok label = (if length label = 0 \<or> length label > 63 then False
     else if label ! 0 = CHR ''-'' \<or> label ! (length label - 1) = CHR ''-'' then False
     else True)"

definition IsValidHostname :: "string \<Rightarrow> bool" where
  "IsValidHostname hostname =
     (if length hostname = 0 \<or> length hostname > 253 then False
      else list_all label_ok (Split hostname (CHR ''.'')))"

definition trim_brackets :: "string \<Rightarrow> string" where
  "trim_brackets s = TrimFunc (\<lambda>c. c \<in> {CHR ''['', CHR '']''}) s"

text \<open>The checks at the end: no address, and a valid host name.\<close>

definition accept_host :: "string \<Rightarrow> string" where
  "accept_host v =
     (if v = [] then []
      else if (case ParseAddr v of Some ip \<Rightarrow> IsValid ip | None \<Rightarrow> False) then []
      else if \<not> IsValidHostname v then []
      else v)"

definition normalizeRoutingHost :: "string \<Rightarrow> string" where
  "normalizeRoutingHost raw =
     (let v0 = TrimSuffix (ToLower (TrimSpace raw)) ''.'' in
      if v0 = [] then []
      else
        let v1 = (case url_host v0 of Some h \<Rightarrow> (if h \<noteq> [] then h else v0) | None \<Rightarrow> v0);
            v2 = (case SplitHostPort v1 of
                    Some (host, port) \<Rightarrow> host
                  | None \<Rightarrow>
                      if HasPrefix v1 ''['' \<and> Contains v1 '']'' then
                        TrimPrefix (takeWhile (\<lambda>c. c \<noteq> CHR '']'') v1) ''[''
                      else let (host, port, ok) = Cut v1 (CHR '':'') in
                           if ok \<and> port \<noteq> [] \<and> isAllDigits port then host else v1);
            v3 = TrimSpace (trim_brackets v2) in
        accept_host v3)"

definition isSupportedHTTPMethod :: "string \<Rightarrow> bool" where
  "isSupportedHTTPMethod method \<longleftrightarrow>
     method \<in> {''GET'', ''POST'', ''PUT'', ''PATCH'', ''DELETE'', ''HEAD'', ''OPTIONS'', ''CONNECT'', ''TRACE''}"

text \<open>The loop over the header lines: the value of the first \<^verbatim>\<open>Host\<close> header before a blank line.\<close>

fun host_header :: "string list \<Rightarrow> string option" where
  "host_header [] = None"
| "host_header (l # ls) =
     (let line = TrimSpace l in
      if line = [] then None
      else let (key, val, ok) = Cut line (CHR '':'') in
           if \<not> ok then host_header ls
           else if EqualFold (TrimSpace key) ''host'' then Some val
           else host_header ls)"

text \<open>The header block of a request: up to the first blank line.\<close>

definition header_text :: "string \<Rightarrow> string" where
  "header_text buf =
     crlf_to_lf (case Index buf [CHR 0x0D, CHR 0x0A, CHR 0x0D, CHR 0x0A] of
        Some i \<Rightarrow> take i buf
      | None \<Rightarrow> (case Index buf [CHR 0x0A, CHR 0x0A] of Some i \<Rightarrow> take i buf | None \<Rightarrow> buf))"

text \<open>The host, the binding source, and whether this is HTTP.\<close>

definition extractHTTPRoutingHost :: "byte list \<Rightarrow> string \<times> string \<times> bool" where
  "extractHTTPRoutingHost buf =
     (if buf = [] then ([], [], False)
      else
        let lines = Split (header_text (string_of_bytes buf)) (CHR 0x0A);
            parts = Fields (TrimSpace (lines ! 0)) in
        if length parts < 2 then ([], [], False)
        else
          let method = ToUpper (TrimSpace (parts ! 0)) in
          if \<not> isSupportedHTTPMethod method then ([], [], False)
          else if method = ''CONNECT'' then (normalizeRoutingHost (parts ! 1), ''connect'', True)
          else (case host_header (tl lines) of
                  Some val \<Rightarrow> (normalizeRoutingHost val, ''http_host'', True)
                | None \<Rightarrow>
                    (case url_host (TrimSpace (parts ! 1)) of
                       Some h \<Rightarrow> if h \<noteq> [] then (normalizeRoutingHost h, ''http_host'', True)
                                 else ([], ''http_host'', True)
                     | None \<Rightarrow> ([], ''http_host'', True))))"

section \<open>Rewriting the host for Aliang\<close>

definition aliangHTTPHostRewriteTargets :: "(string \<times> string) list" where
  "aliangHTTPHostRewriteTargets =
     [(''openai'', ''api.openai.com''), (''anthropic'', ''api.anthropic.com''), (''claude'', ''api.anthropic.com'')]"

definition normalizedAliangHTTPHost :: "string \<Rightarrow> string" where
  "normalizedAliangHTTPHost raw =
     (let v0 = TrimSuffix (ToLower (TrimSpace raw)) ''.'' in
      if v0 = [] then []
      else
        let v1 = (if Contains v0 ''://'' then
                    (case url_host v0 of Some h \<Rightarrow> (if h \<noteq> [] then h else v0) | None \<Rightarrow> v0)
                  else v0);
            v2 = (case SplitHostPort v1 of
                    Some (host, port) \<Rightarrow> host
                  | None \<Rightarrow> let (host, port, ok) = Cut v1 (CHR '':'') in
                            if ok \<and> port \<noteq> [] \<and> isAllDigits port then host else v1) in
        TrimSpace (trim_brackets v2))"

definition aliangHTTPHostMatches :: "string \<Rightarrow> string \<Rightarrow> bool" where
  "aliangHTTPHostMatches pat host =
     (let normalizedPattern = normalizedAliangHTTPHost pat;
          normalizedHost = normalizedAliangHTTPHost host in
      if normalizedPattern = [] \<or> normalizedHost = [] then False
      else if HasPrefix normalizedPattern ''*.'' then
        (let suf = TrimPrefix normalizedPattern ''*.'' in
         if suf = [] then False else HasSuffix normalizedHost (''.'' @ suf))
      else normalizedHost = normalizedPattern \<or> HasSuffix normalizedHost (''.'' @ normalizedPattern))"

text \<open>The loop over the AI rules; \<^const>\<open>None\<close> is the third result \<^verbatim>\<open>false\<close>.\<close>

fun rewrite_loop :: "string \<Rightarrow> ai_rules \<Rightarrow> (string \<times> string) option" where
  "rewrite_loop host [] = None"
| "rewrite_loop host ((provider, rule) # rules) =
     (case rule of
        None \<Rightarrow> rewrite_loop host rules
      | Some r \<Rightarrow>
          if ai_Enble r \<noteq> Some True then rewrite_loop host rules
          else (case map_of aliangHTTPHostRewriteTargets (ToLower (TrimSpace provider)) of
                  None \<Rightarrow> rewrite_loop host rules
                | Some targetHost \<Rightarrow>
                    if list_ex (\<lambda>pat. aliangHTTPHostMatches pat host) (ai_Include r) then Some (provider, targetHost)
                    else rewrite_loop host rules))"

definition lookupAliangRewrittenHost :: "Config option \<Rightarrow> string \<Rightarrow> (string \<times> string) option" where
  "lookupAliangRewrittenHost cfg host =
     (case cfg of None \<Rightarrow> None
      | Some c \<Rightarrow> (case cfg_Customer c of None \<Rightarrow> None
      | Some cust \<Rightarrow>
          if cc_AIRules cust = [] then None
          else let normalizedHost = normalizedAliangHTTPHost host in
               if normalizedHost = [] then None else rewrite_loop normalizedHost (cc_AIRules cust)))"

text \<open>The fields of a request that the rewriting reads and writes; \<^const>\<open>None\<close> is a nil URL.\<close>

record http_request =
  rq_Host :: string
  rq_URL_Host :: "string option"

definition requestHostForRewrite :: "http_request \<Rightarrow> string" where
  "requestHostForRewrite req =
     (if TrimSpace (rq_Host req) \<noteq> [] then TrimSpace (rq_Host req)
      else (case rq_URL_Host req of Some h \<Rightarrow> TrimSpace h | None \<Rightarrow> []))"

definition rewriteAliangHTTPRequestHost :: "Config option \<Rightarrow> http_request \<Rightarrow> http_request \<times> bool" where
  "rewriteAliangHTTPRequestHost cfg req =
     (let originalHost = normalizedAliangHTTPHost (requestHostForRewrite req) in
      if originalHost = [] then (req, False)
      else (case lookupAliangRewrittenHost cfg originalHost of
              None \<Rightarrow> (req, False)
            | Some (provider, rewrittenHost) \<Rightarrow>
                if rewrittenHost = [] \<or> rewrittenHost = originalHost then (req, False)
                else
                  let req1 = req\<lparr>rq_Host := rewrittenHost\<rparr> in
                  (case rq_URL_Host req of
                     Some h \<Rightarrow> if h \<noteq> [] then (req1\<lparr>rq_URL_Host := Some rewrittenHost\<rparr>, True) else (req1, True)
                   | None \<Rightarrow> (req1, True))))"

record HeaderField =
  hf_Name :: string
  hf_Value :: string
  hf_Sensitive :: bool

definition getHTTP2HeaderFieldValue :: "HeaderField list \<Rightarrow> string \<Rightarrow> string option" where
  "getHTTP2HeaderFieldValue fs target =
     map_option hf_Value (find (\<lambda>f. EqualFold (TrimSpace (hf_Name f)) target) fs)"

definition rewriteAliangHTTP2HeaderFields :: "Config option \<Rightarrow> HeaderField list \<Rightarrow> HeaderField list \<times> bool" where
  "rewriteAliangHTTP2HeaderFields cfg fs =
     (if fs = [] then (fs, False)
      else
        let original = (case getHTTP2HeaderFieldValue fs '':authority'' of
                          Some v \<Rightarrow> if TrimSpace v = [] then getHTTP2HeaderFieldValue fs ''host'' else Some v
                        | None \<Rightarrow> getHTTP2HeaderFieldValue fs ''host'') in
        case original of
          None \<Rightarrow> (fs, False)
        | Some v \<Rightarrow>
            let originalHost = normalizedAliangHTTPHost v in
            if originalHost = [] then (fs, False)
            else (case lookupAliangRewrittenHost cfg originalHost of
                    None \<Rightarrow> (fs, False)
                  | Some (provider, rewrittenHost) \<Rightarrow>
                      if rewrittenHost = [] \<or> rewrittenHost = originalHost then (fs, False)
                      else (map (\<lambda>f. if ToLower (TrimSpace (hf_Name f)) \<in> {'':authority'', ''host''}
                                     then f\<lparr>hf_Value := rewrittenHost\<rparr> else f) fs, True)))"

section \<open>Lemmas\<close>

lemma accept_host_result:
  "accept_host v = [] \<or> accept_host v = v \<and> IsValidHostname v \<and> (\<forall>ip. ParseAddr v = Some ip \<longrightarrow> ip = AddrZero)"
  by (auto simp: accept_host_def IsValid_def split: option.splits)

lemma normalize_host_accepts: "\<exists>v. normalizeRoutingHost raw = accept_host v"
proof -
  have "accept_host [] = []" by (simp add: accept_host_def)
  then show ?thesis unfolding normalizeRoutingHost_def Let_def by metis
qed

definition rewriting :: "string \<Rightarrow> string \<times> CustomerAIRuleSetting option \<Rightarrow> bool" where
  "rewriting host pr \<longleftrightarrow>
     (\<exists>r. snd pr = Some r \<and> ai_Enble r = Some True \<and> (\<exists>pat \<in> set (ai_Include r). aliangHTTPHostMatches pat host)) \<and>
     map_of aliangHTTPHostRewriteTargets (ToLower (TrimSpace (fst pr))) \<noteq> None"

definition rewrite_target :: "string \<Rightarrow> string" where
  "rewrite_target provider = the (map_of aliangHTTPHostRewriteTargets (ToLower (TrimSpace provider)))"

lemma rewrite_loop_find:
  "rewrite_loop host rules = map_option (\<lambda>pr. (fst pr, rewrite_target (fst pr))) (find (rewriting host) rules)"
proof (induction rules)
  case (Cons pr rules)
  obtain provider rule where pr: "pr = (provider, rule)" by (cases pr)
  show ?case
    using Cons.IH
    by (cases rule; cases "map_of aliangHTTPHostRewriteTargets (ToLower (TrimSpace provider))")
       (auto simp: pr rewriting_def rewrite_target_def list_ex_iff)
qed simp

end
