(* ===== verification/Tcp_Connection.thy ===== *)
theory Tcp_Connection
  imports Tcp_Handler Http_Host Rule_Engine
begin

text \<open>
  A TCP connection from its arrival to the end of its relay, \<^verbatim>\<open>TCPConnectionHandler.Handle\<close> of
  \<^verbatim>\<open>processor/tcp/handler.go\<close>: the choice of the TLS or the plain path, the plain path with its HTTP
  host sniffing and reverse lookup, and what is recorded when the relay ends. The reverse DNS
  lookup, the local address of a remote connection and the outcome of a relay come from a
  \<open>relay_env\<close>. Statistics, contexts and log lines are left out.
\<close>

section \<open>The plain path\<close>

record 'p relay_env =
  rl_reverse :: "string \<Rightarrow> string list option"
  rl_local :: "'p remote \<Rightarrow> (string \<times> nat) option"
  rl_relay :: "conn \<Rightarrow> 'p remote \<Rightarrow> bool"
  rl_http1 :: "conn \<Rightarrow> 'p remote \<Rightarrow> bool"

fun first_name :: "string list \<Rightarrow> string" where
  "first_name [] = []"
| "first_name (candidate # names) =
     (let host = normalizeRoutingHost candidate in if host = [] then first_name names else host)"

definition enrichMetadataFromReverseLookup :: "'p tcp_env \<Rightarrow> 'p relay_env \<Rightarrow> time \<Rightarrow> Metadata \<Rightarrow> Metadata" where
  "enrichMetadataFromReverseLookup env renv now m =
     (if md_HostName m \<noteq> [] \<or> \<not> IsValid (md_DstIP m) \<or> IsUnspecified (md_DstIP m) then m
      else if IsLoopback (md_DstIP m) \<or> IsPrivate (md_DstIP m) then m
      else
        let cacheEntries = (case te_cache env of None \<Rightarrow> []
              | Some cache \<Rightarrow> map (entry_at cache) (GetByIP now (md_DstIP m) cache)) in
        case cacheEntries of
          cachedEntry # _ \<Rightarrow>
            let bindingSource = (if ce_BindingSources cachedEntry \<noteq> [] then hd (ce_BindingSources cachedEntry)
                                 else BindingSourceDNS) in
            SetHostNameFromCacheEntry (ce_Domain cachedEntry) bindingSource (ce_CreatedAt cachedEntry)
              (TimeToLive now cachedEntry) m
        | [] \<Rightarrow>
            (case rl_reverse renv (addr_String (md_DstIP m)) of
               None \<Rightarrow> m
             | Some names \<Rightarrow>
                 let host = first_name names in
                 if host = [] then m else SetHostName now host BindingSourceDNS DefaultDNSTTL m))"

definition handleNonTLS ::
  "'p tcp_env \<Rightarrow> 'p relay_env \<Rightarrow> time \<Rightarrow> read_result list \<Rightarrow> Metadata \<Rightarrow> Metadata \<times> (handler_error + 'p remote \<times> conn)" where
  "handleNonTLS env renv now reads m =
     (if shouldForceAliangRoute (Some m) then
        (case dialByRoute env (m\<lparr>md_Route := ''RouteToALiang''\<rparr>) RouteToALiang of
           (m1, Inl e) \<Rightarrow> (m1, Inl e)
         | (m1, Inr remote) \<Rightarrow> (m1, Inr (remote, wrapAliangHTTPConnByProto OriginConn (md_AppProto m1))))
      else if IsValid (md_DstIP m) \<and> \<not> IsUnspecified (md_DstIP m) \<and>
              (IsLoopback (md_DstIP m) \<or> IsPrivate (md_DstIP m)) then
        let m1 = m\<lparr>md_Route := ''RouteDirect''\<rparr> in
        (m1, case dialDirect env m1 of Inl e \<Rightarrow> Inl e | Inr remote \<Rightarrow> Inr (remote, OriginConn))
      else
        let bufferedData = fst (prefetchApplicationData OriginConn applicationPrefetchMaxBytes reads);
            newOriginConn = wrapBufferedConn OriginConn bufferedData;
            (host, bindingSource, isHTTP) = extractHTTPRoutingHost bufferedData in
        if isHTTP then
          let m1 = m\<lparr>md_AppProto := AppProtoHTTP1\<rparr>;
              m2 = (if host \<noteq> [] then
                      SetHostName now host bindingSource
                        (if bindingSource = BindingSourceCONNECT then DefaultCONNECTTTL else DefaultHTTPTTL) m1
                    else m1);
              route = fst (DetermineRouteWithContext (te_config env) (te_switches env) (Some m2)) in
          (case dialByRoute env m2 route of
             (m3, Inl e) \<Rightarrow> (m3, Inl e)
           | (m3, Inr remote) \<Rightarrow>
               if route = RouteToALiang then
                 (m3, Inr (remote, wrapAliangHTTPConnByProto newOriginConn (md_AppProto m3)))
               else (m3, Inr (remote, newOriginConn)))
        else
          let m1 = enrichMetadataFromReverseLookup env renv now m;
              route = fst (DetermineRouteWithContext (te_config env) (te_switches env) (Some m1)) in
          (case dialByRoute env m1 route of
             (m2, Inl e) \<Rightarrow> (m2, Inl e)
           | (m2, Inr remote) \<Rightarrow> (m2, Inr (remote, newOriginConn))))"

section \<open>A connection\<close>

definition ensureTCPConnID :: "uint64 \<Rightarrow> Metadata \<Rightarrow> uint64 \<times> Metadata" where
  "ensureTCPConnID counter m =
     (if TrimSpace (md_ConnID m) \<noteq> [] then (counter, m)
      else let n = counter + 1 in (n, m\<lparr>md_ConnID := ''tcp-'' @ digits_of (unat n)\<rparr>))"

text \<open>
  How a connection ends: with an error before any relay, handled without one, or relayed, by the
  HTTP/1 relay or the plain one, with or without success.
\<close>

datatype 'p outcome = Rejected handler_error | HandledSpecially | Relayed bool conn "'p remote" bool

definition path ::
  "'p tcp_env \<Rightarrow> 'p relay_env \<Rightarrow> time \<Rightarrow> read_result list \<Rightarrow> Metadata
    \<Rightarrow> unit + Metadata \<times> (handler_error + 'p remote option \<times> conn)" where
  "path env renv now reads m =
     (if Detect (md_DstPort m) = ProtocolTLS then handleTLS env now reads m
      else (case handleNonTLS env renv now reads m of
              (m1, Inl e) \<Rightarrow> Inr (m1, Inl e)
            | (m1, Inr (remote, c)) \<Rightarrow> Inr (m1, Inr (Some remote, c))))"

definition set_mid :: "(string \<times> nat) option \<Rightarrow> Metadata \<Rightarrow> Metadata" where
  "set_mid addr m =
     (case addr of None \<Rightarrow> m
      | Some (text, port) \<Rightarrow>
          (case ParseAddr text of None \<Rightarrow> m
           | Some ip \<Rightarrow> m\<lparr>md_MidIP := ip, md_MidPort := word_of_nat port\<rparr>))"

text \<open>The binding is stored when the relay has succeeded and the host name may be cached.\<close>

definition finish :: "time \<Rightarrow> bool \<Rightarrow> Metadata \<Rightarrow> RuleEngine \<Rightarrow> RuleEngine" where
  "finish now ok m e =
     (if ok \<and> (case md_DNSInfo m of Some di \<Rightarrow> di_ShouldCache di | None \<Rightarrow> False) then StoreBinding now (Some m) e else e)"

definition Handle ::
  "'p tcp_env \<Rightarrow> 'p relay_env \<Rightarrow> time \<Rightarrow> time \<Rightarrow> read_result list \<Rightarrow> uint64 \<Rightarrow> Metadata \<Rightarrow> RuleEngine
    \<Rightarrow> unit + uint64 \<times> Metadata \<times> RuleEngine \<times> 'p outcome" where
  "Handle env renv now finished reads counter m0 e =
     (let (counter1, m) = ensureTCPConnID counter m0;
          env1 = env\<lparr>te_cache := re_ipDomainCache e\<rparr> in
      reading (path env1 renv now reads m) (\<lambda>(m1, res).
        case res of
          Inl err \<Rightarrow> Inr (counter1, m1, e, Rejected err)
        | Inr (None, c) \<Rightarrow> Inr (counter1, m1, e, HandledSpecially)
        | Inr (Some remote, c) \<Rightarrow>
            let m2 = set_mid (rl_local renv remote) m1;
                http1 = (md_Route m2 = ''RouteToALiang'' \<and> md_AppProto m2 = AppProtoHTTP1);
                ok = (if http1 then rl_http1 renv c remote else rl_relay renv c remote) in
            Inr (counter1, m2, finish finished ok m2 e, Relayed http1 c remote ok)))"

section \<open>Egress\<close>

text \<open>The remote side is the one that the recorded route names.\<close>

definition named_egress :: "'p tcp_env \<Rightarrow> Metadata \<Rightarrow> 'p remote \<Rightarrow> bool" where
  "named_egress env m r \<longleftrightarrow>
     md_Route m = ''RouteToALiang'' \<and> dialled_aliang env r \<or>
     md_Route m = ''RouteToSocks'' \<and> dialled_proxy env r \<or>
     md_Route m = ''RouteDirect'' \<and> dialled_direct m r"

lemma dialled_direct_route: "dialled_direct (m\<lparr>md_Route := x\<rparr>) r = dialled_direct m r"
  by (simp add: dialled_direct_def)

lemma dial_named:
  assumes "dialByRoute env m route = (m1, Inr r)"
  shows "named_egress env m1 r"
proof (cases route)
  case RouteToALiang
  then show ?thesis using aliang_dial [of env m m1 r] assms by (simp add: named_egress_def)
next
  case RouteToLocalProxy
  then show ?thesis
    using local_proxy_dial [of env m m1 r] assms
    by (cases "isCustomerProxyEnabled (te_config env)") (simp_all add: named_egress_def dialled_direct_route)
next
  case ProxyRouteDirect
  then show ?thesis using direct_dial [of env m m1 r] assms by (simp add: named_egress_def dialled_direct_route)
qed

lemma resolve_dial:
  assumes "resolveTLSRoute env m route wrapped name = Inr (m1, Inr (Some r, c))"
  shows "\<exists>m0. dialByRoute env m0 route = (m1, Inr r)"
proof (cases "route = RouteToALiang")
  case True
  then show ?thesis
    using assms by (auto simp: resolveTLSRoute_def reading_def Let_def split: sum.splits prod.splits)
next
  case False
  then show ?thesis
    using assms by (auto simp: resolveTLSRoute_def reading_def split: sum.splits prod.splits)
qed

lemma tls_named: "handleTLS env now reads m = Inr (m1, Inr (Some r, c)) \<Longrightarrow> named_egress env m1 r"
  by (auto simp: handleTLS_def reading_def Let_def split: sum.splits if_splits prod.splits
      dest!: resolve_dial dest: dial_named)

lemma nontls_named: "handleNonTLS env renv now reads m = (m1, Inr (r, c)) \<Longrightarrow> named_egress env m1 r"
  by (auto simp: handleNonTLS_def Let_def dialDirect_def dest: dial_named split: if_splits prod.splits sum.splits)
     (auto simp: named_egress_def dialled_direct_def)

lemma path_named: "path env renv now reads m = Inr (m1, Inr (Some r, c)) \<Longrightarrow> named_egress env m1 r"
  by (auto simp: path_def split: if_splits prod.splits sum.splits dest: tls_named nontls_named)

lemma named_cache: "named_egress (env\<lparr>te_cache := x\<rparr>) m r = named_egress env m r"
  by (simp add: named_egress_def dialled_aliang_def dialled_proxy_def permitted_def)

lemma set_mid_sel [simp]:
  "md_Route (set_mid a m) = md_Route m" "md_AppProto (set_mid a m) = md_AppProto m"
  "md_DstIP (set_mid a m) = md_DstIP m" "md_DstPort (set_mid a m) = md_DstPort m"
  by (simp_all add: set_mid_def split: option.split prod.split)

lemma named_mid: "named_egress env (set_mid a m) r = named_egress env m r"
  by (simp add: named_egress_def dialled_direct_def)

text \<open>
  C26. From its arrival to the end: a connection is relayed only over the egress that its recorded
  route names, whichever path it took, and that egress was permitted; the HTTP/1 relay is used
  exactly for HTTP/1 traffic to Aliang; and a binding of host, address and route is remembered
  only after a relay that succeeded. A connection that is rejected or handled without a relay
  leaves the rule engine as it was.
\<close>

theorem relayed_as_routed:
  assumes "Handle env renv now finished reads counter m e = Inr (counter', m', e', out)"
  shows "case out of
      Relayed http1 c remote ok \<Rightarrow>
        named_egress env m' remote \<and>
        http1 = (md_Route m' = ''RouteToALiang'' \<and> md_AppProto m' = ''http1'') \<and>
        e' = (if ok \<and> (\<exists>di. md_DNSInfo m' = Some di \<and> di_ShouldCache di) then StoreBinding finished (Some m') e else e)
    | Rejected err \<Rightarrow> e' = e
    | HandledSpecially \<Rightarrow> e' = e"
proof -
  define env1 where "env1 = env\<lparr>te_cache := re_ipDomainCache e\<rparr>"
  define m0 where "m0 = snd (ensureTCPConnID counter m)"
  have cacheable: "(case d of Some di \<Rightarrow> di_ShouldCache di | None \<Rightarrow> False) = (\<exists>di. d = Some di \<and> di_ShouldCache di)" for d
    by (cases d) auto
  obtain m1 res where p: "path env1 renv now reads m0 = Inr (m1, res)"
    using assms by (auto simp: Handle_def reading_def env1_def m0_def split: prod.splits sum.splits)
  have named: "named_egress env (set_mid a m1) r" if "res = Inr (Some r, c)" for a r c
    using path_named [of env1 renv now reads m0 m1 r c] p that by (simp add: env1_def named_cache named_mid)
  show ?thesis
    using assms p named
    by (auto simp: Handle_def reading_def env1_def [symmetric] m0_def finish_def cacheable Let_def
        split: prod.splits sum.splits option.splits)
qed

section \<open>The plain path\<close>

lemma dial_metadata: "dialByRoute env m route = (m1, Inr r) \<Longrightarrow> \<exists>x. m1 = m\<lparr>md_Route := x\<rparr>"
  by (cases route) (auto simp: dialByRoute_def dialViaSocksOrDirect_def Let_def split: if_splits sum.splits prod.splits)

lemma force_route: "shouldForceAliangRoute (Some (m\<lparr>md_Route := x\<rparr>)) = shouldForceAliangRoute (Some m)"
  by (simp add: shouldForceAliangRoute_def)

text \<open>Why a connection may go to Aliang.\<close>

definition aliang_justified :: "'p tcp_env \<Rightarrow> Metadata \<Rightarrow> bool" where
  "aliang_justified env m \<longleftrightarrow> shouldForceAliangRoute (Some m) \<or>
     AliangEnabled (GetStatus (te_switches env)) \<and>
     (\<exists>p \<in> set (EffectiveAIAllowlist (te_config env)). matchDomain p (lower_trim (md_HostName m)))"

lemma determine_justified:
  "fst (DetermineRouteWithContext (te_config env) (te_switches env) (Some m)) = RouteToALiang \<Longrightarrow> aliang_justified env m"
  by (auto simp: determine_route_fact aliang_justified_def split: if_splits)

lemma dial_justified:
  assumes "dialByRoute env m (fst (DetermineRouteWithContext (te_config env) (te_switches env) (Some m))) = (m1, Inr r)"
    "md_Route m1 = ''RouteToALiang''"
  shows "aliang_justified env m1"
proof -
  let ?route = "fst (DetermineRouteWithContext (te_config env) (te_switches env) (Some m))"
  have "?route = RouteToALiang"
    using assms by (cases ?route)
      (auto simp: dialByRoute_def dialViaSocksOrDirect_def Let_def split: if_splits sum.splits prod.splits)
  then have "aliang_justified env m" by (rule determine_justified)
  then show ?thesis
    using dial_metadata [OF assms(1)] by (auto simp: aliang_justified_def force_route)
qed

lemma prefetched_replay:
  "\<exists>taken rest. reads = taken @ rest \<and>
     fst (prefetchApplicationData OriginConn n reads) = data_of taken"
proof (cases "n = 0")
  case True
  then show ?thesis by (intro exI [of _ "[]"] exI [of _ reads]) (simp add: prefetchApplicationData_def)
next
  case False
  then show ?thesis using prefetch_loop_preserves [of reads n "[]"] by (auto simp: prefetchApplicationData_def)
qed

text \<open>The bytes a connection replays before it reads on from the client.\<close>

fun replayed :: "conn \<Rightarrow> byte list" where
  "replayed (Wrapped c b) = replayed c @ b"
| "replayed (WatcherWrap c) = replayed c"
| "replayed (Mitmed c name) = replayed c"
| "replayed _ = []"

lemma wrapped_replay:
  "replayed (wrapBufferedConn OriginConn b) = b" "intercepted (wrapBufferedConn OriginConn b) = None"
  "replayed (wrapAliangHTTPConnByProto c p) = replayed c" "intercepted (wrapAliangHTTPConnByProto c p) = intercepted c"
  by (auto simp: wrapBufferedConn_def wrapAliangHTTPConnByProto_def wrapAliangHTTPConn_def)

lemma unreadI:
  "replayed c = [] \<Longrightarrow> P [] \<Longrightarrow> \<exists>taken rest. reads = taken @ rest \<and> replayed c = data_of taken \<and> P taken"
  by (rule exI [of _ "[]"], rule exI [of _ reads]) simp

text \<open>An address that is never looked at: it is dialled as it stands.\<close>

definition local_address :: "Metadata \<Rightarrow> bool" where
  "local_address m \<longleftrightarrow> IsValid (md_DstIP m) \<and> \<not> IsUnspecified (md_DstIP m) \<and>
     (IsLoopback (md_DstIP m) \<or> IsPrivate (md_DstIP m))"

text \<open>The metadata of a plain connection to a public address, once it has been looked at.\<close>

definition plain_metadata :: "'p tcp_env \<Rightarrow> 'p relay_env \<Rightarrow> time \<Rightarrow> byte list \<Rightarrow> Metadata \<Rightarrow> Metadata" where
  "plain_metadata env renv now b m =
     (case extractHTTPRoutingHost b of (host, source, isHTTP) \<Rightarrow>
        if isHTTP then
          (if host \<noteq> [] then
             SetHostName now host source (if source = BindingSourceCONNECT then DefaultCONNECTTTL else DefaultHTTPTTL)
               (m\<lparr>md_AppProto := AppProtoHTTP1\<rparr>)
           else m\<lparr>md_AppProto := AppProtoHTTP1\<rparr>)
        else enrichMetadataFromReverseLookup env renv now m)"

lemma nontls_public:
  assumes "\<not> shouldForceAliangRoute (Some m)" "\<not> local_address m"
    and "handleNonTLS env renv now reads m = (m', Inr (remote, c))"
  shows "\<exists>b. b = fst (prefetchApplicationData OriginConn applicationPrefetchMaxBytes reads) \<and>
    dialByRoute env (plain_metadata env renv now b m)
      (fst (DetermineRouteWithContext (te_config env) (te_switches env) (Some (plain_metadata env renv now b m))))
      = (m', Inr remote) \<and>
    (c = wrapBufferedConn OriginConn b \<or> c = wrapAliangHTTPConnByProto (wrapBufferedConn OriginConn b) (md_AppProto m'))"
  using assms
  by (auto simp: handleNonTLS_def local_address_def plain_metadata_def Let_def
      split: if_splits prod.splits sum.splits)

text \<open>
  C27. The plain path: nothing the client has sent is lost, since the connection handed to the relay
  replays exactly the bytes of the reads that were made before it reads on, and it is never
  intercepted. Connections to loopback and private addresses are dialled directly and are not read
  at all, except those to the local HTTP proxy port on a loopback address or name, which always go to
  Aliang. A connection goes to Aliang only when it is addressed to the local proxy port or its
  host, as observed or looked up, is covered by an enabled AI provider while the switch is on.
\<close>

theorem plain_path_correct:
  assumes "handleNonTLS env renv now reads m = (m', Inr (remote, c))"
  shows "named_egress env m' remote \<and> intercepted c = None \<and>
    (\<exists>taken rest. reads = taken @ rest \<and> replayed c = data_of taken \<and>
      (local_address m \<and> \<not> shouldForceAliangRoute (Some m) \<longrightarrow>
        taken = [] \<and> c = OriginConn \<and> dialled_direct m remote \<and> md_Route m' = ''RouteDirect'')) \<and>
    (shouldForceAliangRoute (Some m) \<longrightarrow> md_Route m' = ''RouteToALiang'') \<and>
    (md_Route m' = ''RouteToALiang'' \<longrightarrow> aliang_justified env m')"
proof (cases "shouldForceAliangRoute (Some m)")
  case True
  then have d: "dialByRoute env (m\<lparr>md_Route := ''RouteToALiang''\<rparr>) RouteToALiang = (m', Inr remote)"
    "c = wrapAliangHTTPConnByProto OriginConn (md_AppProto m')"
    using assms by (auto simp: handleNonTLS_def split: prod.splits sum.splits)
  have "aliang_justified env m'"
    using True dial_metadata [OF d(1)] by (auto simp: aliang_justified_def force_route)
  moreover have "md_Route m' = ''RouteToALiang''"
    using d(1) by (auto simp: dialByRoute_def Let_def split: if_splits sum.splits prod.splits)
  ultimately show ?thesis
    using True dial_named [OF d(1)] d(2) by (intro conjI unreadI) (auto simp: wrapped_replay)
next
  case force: False
  show ?thesis
  proof (cases "local_address m")
    case True
    then have d: "m' = m\<lparr>md_Route := ''RouteDirect''\<rparr>" "dialled_direct m remote" "c = OriginConn"
      using assms force
      by (auto simp: handleNonTLS_def local_address_def dialDirect_def dialled_direct_def Let_def
          split: sum.splits if_splits)
    have "named_egress env m' remote"
      using d by (simp add: named_egress_def dialled_direct_route)
    then show ?thesis using d force by (intro conjI unreadI) auto
  next
    case False
    obtain b where b: "b = fst (prefetchApplicationData OriginConn applicationPrefetchMaxBytes reads)"
      "dialByRoute env (plain_metadata env renv now b m)
        (fst (DetermineRouteWithContext (te_config env) (te_switches env) (Some (plain_metadata env renv now b m))))
        = (m', Inr remote)"
      "c = wrapBufferedConn OriginConn b \<or> c = wrapAliangHTTPConnByProto (wrapBufferedConn OriginConn b) (md_AppProto m')"
      using nontls_public [OF force False assms] by blast
    have c: "replayed c = b" "intercepted c = None" using b(3) by (auto simp: wrapped_replay)
    show ?thesis
      using c False force b(1) prefetched_replay [of reads applicationPrefetchMaxBytes] dial_named [OF b(2)]
        dial_justified [OF b(2)] by auto
  qed
qed

text \<open>
  A plain connection to an address under which several domains are cached is taken for the first of
  them, where the TLS path requires that there is only one.
\<close>

lemma reverse_lookup_picks_first:
  assumes "md_HostName m = []" "IsValid (md_DstIP m)" "\<not> IsUnspecified (md_DstIP m)"
    and "\<not> IsLoopback (md_DstIP m)" "\<not> IsPrivate (md_DstIP m)"
    and "te_cache env = Some cache" "GetByIP now (md_DstIP m) cache = p # ps" "ce_Domain (entry_at cache p) \<noteq> []"
  shows "md_HostName (enrichMetadataFromReverseLookup env renv now m) = ce_Domain (entry_at cache p)"
  using assms by (simp add: enrichMetadataFromReverseLookup_def Let_def)

section \<open>Sample data\<close>

definition sample_relay :: "nat relay_env" where
  "sample_relay = \<lparr>rl_reverse = \<lambda>a. None, rl_local = \<lambda>r. Some (''10.0.0.2'', 4000), rl_relay = \<lambda>c r. True, rl_http1 = \<lambda>c r. True\<rparr>"

text \<open>A connection to 10.0.0.1, port 80.\<close>

definition sample_plain :: Metadata where
  "sample_plain = sample_metadata\<lparr>md_DstPort := 80, md_DstIP := Addr4 167772161\<rparr>"

lemma sample_plain_local: "local_address sample_plain" "\<not> shouldForceAliangRoute (Some sample_plain)"
  by code_simp+

lemma sample_plain_path:
  "\<exists>m' r. handleNonTLS sample_env sample_relay 0 [] sample_plain = (m', Inr (r, OriginConn))"
  using sample_plain_local
  by (simp add: handleNonTLS_def local_address_def dialDirect_def Let_def) (simp add: sample_env_def)

theorem plain_path_correct_witness:
  "\<exists>m' r. handleNonTLS sample_env sample_relay 0 [] sample_plain = (m', Inr (r, OriginConn)) \<and>
     dialled_direct sample_plain r \<and> md_Route m' = ''RouteDirect''"
proof -
  obtain m' r where p: "handleNonTLS sample_env sample_relay 0 [] sample_plain = (m', Inr (r, OriginConn))"
    using sample_plain_path by blast
  show ?thesis using plain_path_correct [OF p] p sample_plain_local by blast
qed

theorem relayed_as_routed_witness:
  "\<exists>cnt m' e' r. Handle sample_env sample_relay 0 0 [] 0 sample_plain GetEngine =
      Inr (cnt, m', e', Relayed False OriginConn r True) \<and> named_egress sample_env m' r \<and> e' = GetEngine"
proof -
  have "\<exists>m' r. handleNonTLS (sample_env\<lparr>te_cache := x\<rparr>) sample_relay 0 [] sample_plain = (m', Inr (r, OriginConn)) \<and>
      md_Route m' = ''RouteDirect'' \<and> md_DNSInfo m' = None" for x
    using sample_plain_local
    by (simp add: handleNonTLS_def local_address_def dialDirect_def Let_def)
       (simp add: sample_env_def sample_plain_def sample_metadata_def)
  then obtain m1 r where p: "handleNonTLS (sample_env\<lparr>te_cache := re_ipDomainCache GetEngine\<rparr>) sample_relay 0 [] sample_plain =
      (m1, Inr (r, OriginConn))" "md_Route m1 = ''RouteDirect''" "md_DNSInfo m1 = None" by blast
  have id: "ensureTCPConnID 0 sample_plain = (0, sample_plain)" by code_simp
  have mid: "md_DNSInfo (set_mid a m1) = None" for a
    using p(3) by (simp add: set_mid_def split: option.split prod.split)
  have port: "Detect (md_DstPort sample_plain) \<noteq> ProtocolTLS" by code_simp
  have h: "Handle sample_env sample_relay 0 0 [] 0 sample_plain GetEngine =
      Inr (0, set_mid (rl_local sample_relay r) m1, GetEngine, Relayed False OriginConn r True)"
    using p port by (simp add: Handle_def id path_def reading_def finish_def mid Let_def) (simp add: sample_relay_def)
  show ?thesis using relayed_as_routed [OF h] h by auto
qed

end
