(* ===== verification/Http2_Frames.thy ===== *)
theory Http2_Frames
  imports Http_Host SNI "HOL-Library.AList"
begin

text \<open>
  The HTTP/2 side of the watcher connection, \<^verbatim>\<open>processor/watcher/http2_wrapper.go\<close>: cutting the
  client's byte stream into frames, rewriting the header blocks of requests, and observing the
  server's frames. Header compression and frame writing are those of \<^verbatim>\<open>golang.org/x/net/http2\<close>,
  which is not part of the program: they are the operations of an \<open>h2_codec\<close>. Every access to a
  slice is one that can panic (\<open>Inl ()\<close>). The current authorization header and the global
  configuration are arguments.
\<close>

section \<open>Frames\<close>

definition frameHeaderLen :: nat where "frameHeaderLen = 9"

definition frameTypeData :: byte where "frameTypeData = 0x0"
definition frameTypeHeaders :: byte where "frameTypeHeaders = 0x1"
definition frameTypeRstStream :: byte where "frameTypeRstStream = 0x3"
definition frameTypeSettings :: byte where "frameTypeSettings = 0x4"
definition frameTypeGoaway :: byte where "frameTypeGoaway = 0x7"
definition frameTypeContinuation :: byte where "frameTypeContinuation = 0x9"

lemmas frame_types = frameTypeData_def frameTypeHeaders_def frameTypeRstStream_def frameTypeSettings_def
  frameTypeGoaway_def frameTypeContinuation_def

text \<open>The flag bits.\<close>

definition flagEndStream :: nat where "flagEndStream = 0"
definition flagAck :: nat where "flagAck = 0"
definition flagEndHeaders :: nat where "flagEndHeaders = 2"

text \<open>\<^verbatim>\<open>binary.BigEndian.Uint32(append([]byte{0}, data[0:3]...))\<close>.\<close>

definition Uint24 :: "byte list \<Rightarrow> unit + nat" where
  "Uint24 b = (if 3 \<le> length b then Inr (unat (b ! 0) * 65536 + unat (b ! 1) * 256 + unat (b ! 2)) else Inl ())"

definition http2FrameTotalLen :: "byte list \<Rightarrow> unit + nat option" where
  "http2FrameTotalLen data =
     (if length data < frameHeaderLen then Inr None
      else reading (Uint24 data) (\<lambda>len.
        let totalLen = frameHeaderLen + len in
        if length data < totalLen then Inr None else Inr (Some totalLen)))"

definition tryExtractFrameFromBuf :: "byte list \<Rightarrow> unit + byte list option" where
  "tryExtractFrameFromBuf data =
     (if length data < frameHeaderLen then Inr None
      else reading (Uint24 data) (\<lambda>len.
        let totalLen = frameHeaderLen + len in
        if length data < totalLen then Inr None else Inr (Some (take totalLen data))))"

text \<open>The stream identifier at an offset, without its reserved bit.\<close>

definition stream_id :: "byte list \<Rightarrow> nat \<Rightarrow> unit + nat" where
  "stream_id data i = reading (Uint32 data i) (\<lambda>v. Inr (v mod 2 ^ 31))"

datatype h2_error =
    ExpectedContinuation byte | StreamSwitch nat nat | MetaHeaders | EncodeError | WriteHeadersError
  | WriteContinuationError

lemma reading_cong [fundef_cong]:
  "m = m' \<Longrightarrow> (\<And>a. m' = Inr a \<Longrightarrow> f a = g a) \<Longrightarrow> reading m f = reading m' g"
  by (cases m') (simp_all add: reading_def)

lemma frame_total_bounds: "http2FrameTotalLen data = Inr (Some n) \<Longrightarrow> 9 \<le> n \<and> n \<le> length data"
  by (auto simp: http2FrameTotalLen_def frameHeaderLen_def reading_def Let_def split: if_splits sum.splits)

function header_sequence_loop :: "byte list \<Rightarrow> nat \<Rightarrow> nat \<Rightarrow> unit + (h2_error + byte list option)" where
  "header_sequence_loop data streamID offset =
     (if length (drop offset data) < frameHeaderLen then Inr (Inr None)
      else reading (http2FrameTotalLen (drop offset data)) (\<lambda>r.
        case r of
          None \<Rightarrow> Inr (Inr None)
        | Some nextTotal \<Rightarrow>
            reading (byte_at data (offset + 3)) (\<lambda>ty.
            if ty \<noteq> frameTypeContinuation then Inr (Inl (ExpectedContinuation ty))
            else reading (stream_id data (offset + 5)) (\<lambda>nextStreamID.
            if nextStreamID \<noteq> streamID then Inr (Inl (StreamSwitch nextStreamID streamID))
            else reading (byte_at data (offset + 4)) (\<lambda>fl.
            if bit fl flagEndHeaders then
              reading (slice data 0 (offset + nextTotal)) (\<lambda>raw. Inr (Inr (Some raw)))
            else header_sequence_loop data streamID (offset + nextTotal))))))"
  by pat_completeness auto

termination
  by (relation "measure (\<lambda>(data, sid, offset). length data - offset)") (auto dest!: frame_total_bounds)

declare header_sequence_loop.simps [simp del]

definition extractCompleteHeaderSequence :: "byte list \<Rightarrow> unit + (h2_error + byte list option)" where
  "extractCompleteHeaderSequence data =
     (if length data < frameHeaderLen then Inr (Inr None)
      else reading (http2FrameTotalLen data) (\<lambda>r.
        case r of
          None \<Rightarrow> Inr (Inr None)
        | Some totalLen \<Rightarrow>
            reading (byte_at data 4) (\<lambda>fl.
            reading (stream_id data 5) (\<lambda>streamID.
            if bit fl flagEndHeaders then reading (slice data 0 totalLen) (\<lambda>raw. Inr (Inr (Some raw)))
            else header_sequence_loop data streamID totalLen))))"

section \<open>Connection state\<close>

record http2Stream =
  st_ReqHeaders :: "(string \<times> string) list"
  st_ReqBody :: "byte list"
  st_ReqEndStream :: bool
  st_ReqSummary :: string
  st_AuthInjected :: bool
  st_RespEndStream :: bool

record PriorityParam =
  pp_StreamDep :: nat
  pp_Exclusive :: bool
  pp_Weight :: byte

record MetaHeadersFrame =
  mh_Fields :: "HeaderField list"
  mh_StreamEnded :: bool
  mh_Priority :: PriorityParam

text \<open>
  The library: decoding a complete header sequence, encoding one field, the two table limits, and
  the writers of HEADERS and CONTINUATION frames. \<^const>\<open>None\<close> is an error.
\<close>

record ('d, 'e) h2_codec =
  hc_meta :: "'d \<Rightarrow> byte list \<Rightarrow> 'd \<times> MetaHeadersFrame option"
  hc_field :: "'e \<Rightarrow> HeaderField \<Rightarrow> 'e \<times> byte list option"
  hc_decoder_limit :: "nat \<Rightarrow> 'd \<Rightarrow> 'd"
  hc_encoder_limit :: "nat \<Rightarrow> 'e \<Rightarrow> 'e"
  hc_headers :: "nat \<Rightarrow> byte list \<Rightarrow> bool \<Rightarrow> bool \<Rightarrow> PriorityParam \<Rightarrow> byte list option"
  hc_continuation :: "nat \<Rightarrow> bool \<Rightarrow> byte list \<Rightarrow> byte list option"

record ('d, 'e) h2_conn =
  h2_reqBuf :: "byte list"
  h2_respBuf :: "byte list"
  h2_decoder :: 'd
  h2_encoder :: 'e
  h2_streams :: "(nat \<times> http2Stream) list"
  h2_recentRequestSummaries :: "(nat \<times> string) list"
  h2_recentRequestOrder :: "nat list"
  h2_serverHTTP2Settings :: "(nat \<times> nat) list"

definition new_stream :: http2Stream where
  "new_stream = \<lparr>st_ReqHeaders = [], st_ReqBody = [], st_ReqEndStream = False, st_ReqSummary = [],
     st_AuthInjected = False, st_RespEndStream = False\<rparr>"

definition getOrCreateStream :: "nat \<Rightarrow> ('d, 'e) h2_conn \<Rightarrow> ('d, 'e) h2_conn" where
  "getOrCreateStream sid w =
     (if map_of (h2_streams w) sid \<noteq> None then w
      else w\<lparr>h2_streams := AList.update sid new_stream (h2_streams w)\<rparr>)"

section \<open>Settings\<close>

definition applyHTTP2Setting :: "('d, 'e) h2_codec \<Rightarrow> nat \<Rightarrow> nat \<Rightarrow> ('d, 'e) h2_conn \<Rightarrow> ('d, 'e) h2_conn" where
  "applyHTTP2Setting codec identifier v w =
     (let w1 = w\<lparr>h2_serverHTTP2Settings := AList.update identifier v (h2_serverHTTP2Settings w)\<rparr> in
      if identifier = 1 then
        w1\<lparr>h2_decoder := hc_decoder_limit codec v (h2_decoder w1), h2_encoder := hc_encoder_limit codec v (h2_encoder w1)\<rparr>
      else w1)"

function settings_loop :: "('d, 'e) h2_codec \<Rightarrow> byte list \<Rightarrow> nat \<Rightarrow> ('d, 'e) h2_conn \<Rightarrow> unit + ('d, 'e) h2_conn" where
  "settings_loop codec payload i w =
     (if i < length payload then
        reading (Uint16 payload i) (\<lambda>sid.
        reading (Uint32 payload (i + 2)) (\<lambda>v.
          settings_loop codec payload (i + 6) (applyHTTP2Setting codec sid v w)))
      else Inr w)"
  by pat_completeness auto
termination by (relation "measure (\<lambda>(codec, payload, i, w). length payload - i)") auto

declare settings_loop.simps [simp del]

definition ParseSettingsFrame :: "('d, 'e) h2_codec \<Rightarrow> byte list \<Rightarrow> ('d, 'e) h2_conn \<Rightarrow> unit + ('d, 'e) h2_conn" where
  "ParseSettingsFrame codec payload w =
     (if length payload mod 6 \<noteq> 0 then Inr w else settings_loop codec payload 0 w)"

definition GetServerHTTP2Setting :: "nat \<Rightarrow> ('d, 'e) h2_conn \<Rightarrow> nat option" where
  "GetServerHTTP2Setting identifier w = map_of (h2_serverHTTP2Settings w) identifier"

section \<open>Request summaries\<close>

text \<open>The verb \<^verbatim>\<open>%q\<close> on the visible ASCII text that header values are.\<close>

definition quote :: "string \<Rightarrow> string" where
  "quote s = CHR 0x22 # concat (map (\<lambda>c. if c = CHR 0x22 \<or> c = CHR 0x5C then [CHR 0x5C, c] else [c]) s) @ [CHR 0x22]"

definition summary :: "string \<Rightarrow> string \<Rightarrow> string \<Rightarrow> string" where
  "summary method authority path =
     ''method='' @ quote method @ '' authority='' @ quote authority @ '' path='' @ quote path"

definition field_or_empty :: "HeaderField list \<Rightarrow> string \<Rightarrow> string" where
  "field_or_empty fs target = (case getHTTP2HeaderFieldValue fs target of Some v \<Rightarrow> v | None \<Rightarrow> [])"

definition summarizeHTTP2Request :: "HeaderField list \<Rightarrow> string" where
  "summarizeHTTP2Request fs =
     summary (field_or_empty fs '':method'')
       (if TrimSpace (field_or_empty fs '':authority'') = [] then field_or_empty fs ''host''
        else field_or_empty fs '':authority'')
       (field_or_empty fs '':path'')"

definition isHTTP2InitialRequestHeaders :: "HeaderField list \<Rightarrow> bool" where
  "isHTTP2InitialRequestHeaders fs =
     (if fs = [] then False
      else getHTTP2HeaderFieldValue fs '':method'' \<noteq> None \<or> getHTTP2HeaderFieldValue fs '':path'' \<noteq> None \<or>
           getHTTP2HeaderFieldValue fs '':scheme'' \<noteq> None)"

definition headerFieldsToMap :: "HeaderField list \<Rightarrow> (string \<times> string) list" where
  "headerFieldsToMap fs = fold (\<lambda>f m. AList.update (hf_Name f) (hf_Value f) m) fs []"

definition maxRecentHTTP2RequestSummaries :: nat where "maxRecentHTTP2RequestSummaries = 128"

definition rememberRecentHTTP2RequestSummary :: "nat \<Rightarrow> string \<Rightarrow> ('d, 'e) h2_conn \<Rightarrow> ('d, 'e) h2_conn" where
  "rememberRecentHTTP2RequestSummary sid text w =
     (if TrimSpace text = [] then w
      else
        let order = (if map_of (h2_recentRequestSummaries w) sid = None then h2_recentRequestOrder w @ [sid]
                     else h2_recentRequestOrder w);
            sums = AList.update sid text (h2_recentRequestSummaries w) in
        if length order \<le> maxRecentHTTP2RequestSummaries then
          w\<lparr>h2_recentRequestOrder := order, h2_recentRequestSummaries := sums\<rparr>
        else w\<lparr>h2_recentRequestOrder := tl order, h2_recentRequestSummaries := AList.delete (hd order) sums\<rparr>)"

section \<open>Rewriting a header block\<close>

text \<open>The fields that go to the server.\<close>

definition rewritten_fields :: "Config option \<Rightarrow> HeaderField list \<Rightarrow> string \<Rightarrow> string \<Rightarrow> HeaderField list" where
  "rewritten_fields cfg headerFields keyToInject valueToInject =
     (let key = ToLower (TrimSpace keyToInject);
          fs = (case rewriteAliangHTTP2HeaderFields cfg headerFields of
                  (r, changed) \<Rightarrow> if changed then r else headerFields);
          kept = filter (\<lambda>f. let name = ToLower (TrimSpace (hf_Name f)) in
                             \<not> (name = key \<or> name = ''authorization-inner'')) fs in
      if key \<noteq> [] \<and> TrimSpace valueToInject \<noteq> []
      then kept @ [\<lparr>hf_Name = key, hf_Value = valueToInject, hf_Sensitive = True\<rparr>] else kept)"

fun encode_fields :: "('d, 'e) h2_codec \<Rightarrow> string \<Rightarrow> HeaderField list \<Rightarrow> 'e \<Rightarrow> 'e \<times> byte list option" where
  "encode_fields codec key [] e = (e, Some [])"
| "encode_fields codec key (f # fs) e =
     (case hc_field codec e (if EqualFold (hf_Name f) key then f\<lparr>hf_Sensitive := True\<rparr> else f) of
        (e1, None) \<Rightarrow> (e1, None)
      | (e1, Some b) \<Rightarrow> (case encode_fields codec key fs e1 of (e2, r) \<Rightarrow> (e2, map_option ((@) b) r)))"

text \<open>
  The loop that writes the block in frames of at most \<open>maxFrameSize\<close> bytes. With a frame size of
  zero it makes no progress; \<^const>\<open>None\<close> is a loop that does not return.
\<close>

partial_function (option) write_block ::
  "('d, 'e) h2_codec \<Rightarrow> nat \<Rightarrow> nat \<Rightarrow> bool \<Rightarrow> PriorityParam \<Rightarrow> bool \<Rightarrow> byte list \<Rightarrow> byte list
    \<Rightarrow> (h2_error + byte list) option" where
  "write_block codec maxFrameSize streamID endStream priority first headerBlock out =
     (if headerBlock = [] \<and> \<not> first then Some (Inr out)
      else
        let chunkSize = (if length headerBlock > maxFrameSize then maxFrameSize else length headerBlock);
            chunk = take chunkSize headerBlock;
            rest = drop chunkSize headerBlock;
            endHeaders = (rest = []) in
        if first then
          (case hc_headers codec streamID chunk endStream endHeaders priority of
             None \<Rightarrow> Some (Inl WriteHeadersError)
           | Some b \<Rightarrow> write_block codec maxFrameSize streamID endStream priority False rest (out @ b))
        else
          (case hc_continuation codec streamID endHeaders chunk of
             None \<Rightarrow> Some (Inl WriteContinuationError)
           | Some b \<Rightarrow> write_block codec maxFrameSize streamID endStream priority False rest (out @ b)))"

definition rebuildReqHeadersWithInjectedField ::
  "('d, 'e) h2_codec \<Rightarrow> Config option \<Rightarrow> HeaderField list \<Rightarrow> nat \<Rightarrow> bool \<Rightarrow> PriorityParam \<Rightarrow> string \<Rightarrow> string
    \<Rightarrow> ('d, 'e) h2_conn \<Rightarrow> (('d, 'e) h2_conn \<times> (h2_error + byte list \<times> HeaderField list)) option" where
  "rebuildReqHeadersWithInjectedField codec cfg headerFields streamID endStream priority keyToInject valueToInject w =
     (let fs = rewritten_fields cfg headerFields keyToInject valueToInject in
      case encode_fields codec (ToLower (TrimSpace keyToInject)) fs (h2_encoder w) of
        (e1, None) \<Rightarrow> Some (w\<lparr>h2_encoder := e1\<rparr>, Inl EncodeError)
      | (e1, Some headerBlock) \<Rightarrow>
          let w1 = w\<lparr>h2_encoder := e1\<rparr>;
              maxFrameSize = (case GetServerHTTP2Setting 5 w1 of Some v \<Rightarrow> v | None \<Rightarrow> 16384) in
          map_option (\<lambda>r. (w1, case r of Inl e \<Rightarrow> Inl e | Inr out \<Rightarrow> Inr (out, fs)))
            (write_block codec maxFrameSize streamID endStream priority True headerBlock []))"

section \<open>Summaries of a stream\<close>

definition header_or_empty :: "(string \<times> string) list \<Rightarrow> string \<Rightarrow> string" where
  "header_or_empty m k = (case map_of m k of Some v \<Rightarrow> v | None \<Rightarrow> [])"

definition summarizeHTTP2RequestMap :: "(string \<times> string) list \<Rightarrow> string" where
  "summarizeHTTP2RequestMap headers =
     (if headers = [] then summary [] [] []
      else summary (header_or_empty headers '':method'')
        (if TrimSpace (header_or_empty headers '':authority'') = [] then header_or_empty headers ''host''
         else header_or_empty headers '':authority'')
        (header_or_empty headers '':path''))"

definition summarizeHTTP2RequestByStreamID :: "nat \<Rightarrow> ('d, 'e) h2_conn \<Rightarrow> string" where
  "summarizeHTTP2RequestByStreamID sid w =
     (case map_of (h2_streams w) sid of
        Some stream \<Rightarrow>
          if TrimSpace (st_ReqSummary stream) \<noteq> [] then st_ReqSummary stream
          else summarizeHTTP2RequestMap (st_ReqHeaders stream)
      | None \<Rightarrow>
          (case map_of (h2_recentRequestSummaries w) sid of
             Some text \<Rightarrow> if TrimSpace text \<noteq> [] then text else summarizeHTTP2RequestMap []
           | None \<Rightarrow> summarizeHTTP2RequestMap []))"

section \<open>Request frames\<close>

text \<open>What one turn of the loop over the request buffer ends with.\<close>

datatype h2_outcome = Wait | Fail h2_error | Forward "byte list"

definition consume_req :: "nat \<Rightarrow> ('d, 'e) h2_conn \<Rightarrow> ('d, 'e) h2_conn" where
  "consume_req n w = w\<lparr>h2_reqBuf := drop n (h2_reqBuf w)\<rparr>"

definition set_stream :: "nat \<Rightarrow> (http2Stream \<Rightarrow> http2Stream) \<Rightarrow> ('d, 'e) h2_conn \<Rightarrow> ('d, 'e) h2_conn" where
  "set_stream sid f w =
     (case map_of (h2_streams w) sid of
        None \<Rightarrow> w
      | Some st \<Rightarrow> w\<lparr>h2_streams := AList.update sid (f st) (h2_streams w)\<rparr>)"

definition drop_stream :: "nat \<Rightarrow> ('d, 'e) h2_conn \<Rightarrow> ('d, 'e) h2_conn" where
  "drop_stream sid w = w\<lparr>h2_streams := AList.delete sid (h2_streams w)\<rparr>"

text \<open>The key and the value to inject, by the decoded fields and the current authorization header.\<close>

definition injection :: "HeaderField list \<Rightarrow> string \<Rightarrow> string \<times> string" where
  "injection fs auth = (if isHTTP2InitialRequestHeaders fs then (''authorization-inner'', auth) else ([], []))"

definition record_request ::
  "nat \<Rightarrow> HeaderField list \<Rightarrow> bool \<Rightarrow> bool \<Rightarrow> ('d, 'e) h2_conn \<Rightarrow> ('d, 'e) h2_conn" where
  "record_request sid fs injected ended w =
     (if map_of (h2_streams w) sid = None then w
      else rememberRecentHTTP2RequestSummary sid (summarizeHTTP2Request fs)
        (set_stream sid (\<lambda>st. st\<lparr>st_ReqHeaders := headerFieldsToMap fs, st_ReqSummary := summarizeHTTP2Request fs,
            st_AuthInjected := injected, st_ReqEndStream := (ended \<or> st_ReqEndStream st)\<rparr>) w))"

definition headers_step ::
  "('d, 'e) h2_codec \<Rightarrow> Config option \<Rightarrow> string \<Rightarrow> nat \<Rightarrow> ('d, 'e) h2_conn
    \<Rightarrow> unit + (('d, 'e) h2_conn \<times> h2_outcome) option" where
  "headers_step codec cfg auth sid w =
     reading (extractCompleteHeaderSequence (h2_reqBuf w)) (\<lambda>r. Inr (
       case r of
         Inl e \<Rightarrow> Some (w, Fail e)
       | Inr None \<Rightarrow> Some (w, Wait)
       | Inr (Some rawHeaders) \<Rightarrow>
           (case hc_meta codec (h2_decoder w) rawHeaders of
              (d, None) \<Rightarrow> Some (w\<lparr>h2_decoder := d\<rparr>, Fail MetaHeaders)
            | (d, Some metaFrame) \<Rightarrow>
                let (injectKey, injectValue) = injection (mh_Fields metaFrame) auth in
                (case rebuildReqHeadersWithInjectedField codec cfg (mh_Fields metaFrame) sid (mh_StreamEnded metaFrame)
                        (mh_Priority metaFrame) injectKey injectValue (w\<lparr>h2_decoder := d\<rparr>) of
                   None \<Rightarrow> None
                 | Some (w1, Inl e) \<Rightarrow> Some (w1, Fail e)
                 | Some (w1, Inr (rewritten, rewrittenFields)) \<Rightarrow>
                     let w2 = record_request sid rewrittenFields
                                (injectKey = ''authorization-inner'' \<and> TrimSpace injectValue \<noteq> [])
                                (mh_StreamEnded metaFrame) w1 in
                     Some (consume_req (length rawHeaders) w2, Forward rewritten)))))"

text \<open>The effect of a frame that is not HEADERS on the streams.\<close>

definition track_request ::
  "byte \<Rightarrow> byte \<Rightarrow> nat \<Rightarrow> byte list \<Rightarrow> ('d, 'e) h2_conn \<Rightarrow> unit + ('d, 'e) h2_conn" where
  "track_request ftype flags sid payload w =
     (if ftype = frameTypeData then
        Inr (set_stream sid (\<lambda>st. st\<lparr>st_ReqBody := st_ReqBody st @ payload,
               st_ReqEndStream := (bit flags flagEndStream \<or> st_ReqEndStream st)\<rparr>) w)
      else if ftype = frameTypeRstStream then
        (if 4 \<le> length payload then reading (Uint32 payload 0) (\<lambda>errorCode. Inr (drop_stream sid w)) else Inr w)
      else if ftype = frameTypeGoaway then
        (if 8 \<le> length payload then
           reading (stream_id payload 0) (\<lambda>lastStreamID.
           reading (Uint32 payload 4) (\<lambda>errorCode.
             Inr (w\<lparr>h2_streams := filter (\<lambda>(i, st). \<not> i > lastStreamID) (h2_streams w)\<rparr>)))
         else Inr w)
      else Inr w)"

text \<open>One turn of the loop. The frame types that are only logged are forwarded like the unknown ones.\<close>

definition request_step ::
  "('d, 'e) h2_codec \<Rightarrow> Config option \<Rightarrow> string \<Rightarrow> ('d, 'e) h2_conn
    \<Rightarrow> unit + (('d, 'e) h2_conn \<times> h2_outcome) option" where
  "request_step codec cfg auth w =
     reading (tryExtractFrameFromBuf (h2_reqBuf w)) (\<lambda>r.
       case r of
         None \<Rightarrow> Inr (Some (w, Wait))
       | Some frame \<Rightarrow>
           reading (byte_at frame 3) (\<lambda>ftype.
           reading (byte_at frame 4) (\<lambda>flags.
           reading (stream_id frame 5) (\<lambda>sid.
           reading (slice frame frameHeaderLen (length frame)) (\<lambda>payload.
             let w1 = (if sid \<noteq> 0 then getOrCreateStream sid w else w) in
             if ftype = frameTypeHeaders then headers_step codec cfg auth sid w1
             else reading (track_request ftype flags sid payload w1) (\<lambda>w2.
               Inr (Some (consume_req (length frame) w2, Forward frame))))))))"

end
