(* ===== verification/Incremental.thy ===== *)
theory Incremental
  imports Prelude
begin

text \<open>
  The contract of a consumer of bytes that arrive in pieces, which the chunked body tracker and the
  HTTP/2 request rewriter both keep: feeding a piece and then another is feeding the two at once.
  Whatever is proved of one call on all the bytes then holds for every way of cutting them.
\<close>

locale incremental =
  fixes inv :: "'s \<Rightarrow> bool" and feed_piece :: "'s \<Rightarrow> byte list \<Rightarrow> 's"
  assumes feed_inv: "inv s \<Longrightarrow> inv (feed_piece s a)"
    and feed_nothing: "inv s \<Longrightarrow> feed_piece s [] = s"
    and feed_twice: "inv s \<Longrightarrow> feed_piece (feed_piece s a) b = feed_piece s (a @ b)"
begin

lemma feed_pieces: "inv s \<Longrightarrow> foldl feed_piece s ps = feed_piece s (concat ps)"
proof (induction ps arbitrary: s)
  case Nil
  then show ?case by (simp add: feed_nothing)
next
  case (Cons p ps)
  then show ?case using Cons.IH [OF feed_inv [OF Cons.prems]] by (simp add: feed_twice)
qed

lemma same_bytes: "inv s \<Longrightarrow> concat ps = concat qs \<Longrightarrow> foldl feed_piece s ps = foldl feed_piece s qs"
  by (simp add: feed_pieces)

end

end
