(* ===== verification/Http2_Conn.thy ===== *)
theory Http2_Conn
  imports Http2_Frames Incremental
begin

text \<open>
  The two loops of \<^verbatim>\<open>processor/watcher/http2_wrapper.go\<close> over a connection: the one that turns the
  client's frames into what is sent to the server, and the one that observes the server's frames.
  The theory proves that neither panics on any bytes, what is forwarded unchanged and what is
  rewritten, when the loop that writes a header block returns, that a header block the gateway parses
  leaves with no authorization header of the client's choice, and what the tables of streams and of
  summaries keep. A block that cannot be parsed ends the rewriting: from there on the client's bytes are
  forwarded as they are.

  Reads and writes of a connection are taken one at a time. The code does not enforce that: a write
  applies the server's settings to the header compression state under a lock that reads do not take.
\<close>

section \<open>The loops\<close>

lemma consume_req_buf [simp]: "h2_reqBuf (consume_req n w) = drop n (h2_reqBuf w)"
  by (simp add: consume_req_def)

lemma extracted_frame:
  "tryExtractFrameFromBuf data = Inr (Some frame) \<Longrightarrow>
    frame = take (length frame) data \<and> 9 \<le> length frame \<and> length frame \<le> length data"
  by (auto simp: tryExtractFrameFromBuf_def frameHeaderLen_def reading_def Let_def split: if_splits sum.splits)

lemma header_sequence_nonempty:
  "header_sequence_loop data sid offset = Inr (Inr (Some raw)) \<Longrightarrow>
    raw = take (length raw) data \<and> offset < length raw \<and> length raw \<le> length data"
proof (induction data sid offset rule: header_sequence_loop.induct)
  case (1 data sid offset)
  obtain n ty sid' fl where step: "\<not> length (drop offset data) < frameHeaderLen"
    "http2FrameTotalLen (drop offset data) = Inr (Some n)" "byte_at data (offset + 3) = Inr ty"
    "\<not> ty \<noteq> frameTypeContinuation" "stream_id data (offset + 5) = Inr sid'" "\<not> sid' \<noteq> sid"
    "byte_at data (offset + 4) = Inr fl"
    "(if bit fl flagEndHeaders then reading (slice data 0 (offset + n)) (\<lambda>raw. Inr (Inr (Some raw)))
      else header_sequence_loop data sid (offset + n)) = Inr (Inr (Some raw))"
    using "1.prems"
    by (subst (asm) header_sequence_loop.simps) (auto simp: reading_def split: if_splits sum.splits option.splits)
  have n: "9 \<le> n" "n \<le> length data - offset"
    using frame_total_bounds [OF step(2)] by simp_all
  show ?case
  proof (cases "bit fl flagEndHeaders")
    case True
    then show ?thesis using step(8) n by (auto simp: reading_def slice_def split: if_splits)
  next
    case False
    then show ?thesis using "1.IH" [OF step(1,2) refl step(3-7) False] step(8) n by simp
  qed
qed

lemma complete_sequence_bounds:
  "extractCompleteHeaderSequence data = Inr (Inr (Some raw)) \<Longrightarrow>
    raw = take (length raw) data \<and> 0 < length raw \<and> length raw \<le> length data"
  by (auto simp: extractCompleteHeaderSequence_def reading_def slice_def split: if_splits sum.splits option.splits
        dest!: frame_total_bounds header_sequence_nonempty)

lemma reqBuf_kept [simp]:
  "h2_reqBuf (getOrCreateStream sid w) = h2_reqBuf w"
  "h2_reqBuf (set_stream sid f w) = h2_reqBuf w"
  "h2_reqBuf (drop_stream sid w) = h2_reqBuf w"
  "h2_reqBuf (rememberRecentHTTP2RequestSummary sid text w) = h2_reqBuf w"
  "h2_reqBuf (record_request sid fs injected ended w) = h2_reqBuf w"
  by (simp_all add: getOrCreateStream_def set_stream_def drop_stream_def rememberRecentHTTP2RequestSummary_def
      record_request_def Let_def split: option.splits)

lemma rebuild_conn:
  "rebuildReqHeadersWithInjectedField codec cfg fs sid es pr k v w = Some (w1, r) \<Longrightarrow>
    w1 = w\<lparr>h2_encoder := h2_encoder w1\<rparr>"
  by (auto simp: rebuildReqHeadersWithInjectedField_def Let_def split: prod.splits option.splits)

lemma rebuild_reqBuf:
  "rebuildReqHeadersWithInjectedField codec cfg fs sid es pr k v w = Some (w1, r) \<Longrightarrow> h2_reqBuf w1 = h2_reqBuf w"
  by (drule rebuild_conn) (metis h2_conn.select_convs(1) h2_conn.surjective h2_conn.update_convs(4))

lemma track_reqBuf: "track_request ftype flags sid payload w = Inr w1 \<Longrightarrow> h2_reqBuf w1 = h2_reqBuf w"
  by (auto simp: track_request_def reading_def split: if_splits sum.splits)

lemma headers_step_consumes:
  "headers_step codec cfg auth sid w = Inr (Some (w1, Forward out)) \<Longrightarrow>
    \<exists>raw. extractCompleteHeaderSequence (h2_reqBuf w) = Inr (Inr (Some raw)) \<and> h2_reqBuf w1 = drop (length raw) (h2_reqBuf w)"
  by (auto simp: headers_step_def reading_def Let_def split: sum.splits option.splits prod.splits dest!: rebuild_reqBuf)

lemma request_step_progress:
  assumes "request_step codec cfg auth w = Inr (Some (w1, Forward out))"
  shows "length (h2_reqBuf w1) < length (h2_reqBuf w)"
proof -
  obtain frame where frame: "tryExtractFrameFromBuf (h2_reqBuf w) = Inr (Some frame)"
    using assms by (auto simp: request_step_def reading_def split: sum.splits option.splits)
  then show ?thesis
    using assms extracted_frame [OF frame]
    by (auto simp: request_step_def reading_def Let_def split: if_splits sum.splits
          dest!: track_reqBuf headers_step_consumes complete_sequence_bounds intro!: diff_less)
qed

text \<open>
  The connection, the output and the error of the loop; \<^const>\<open>None\<close> under \<^const>\<open>Inr\<close> when a header
  block is never finished.
\<close>

function processHttp2RequestFrame ::
  "('d, 'e) h2_codec \<Rightarrow> Config option \<Rightarrow> string \<Rightarrow> byte list \<Rightarrow> ('d, 'e) h2_conn
    \<Rightarrow> unit + (('d, 'e) h2_conn \<times> byte list \<times> h2_error option) option" where
  "processHttp2RequestFrame codec cfg auth preBuff w =
     (case request_step codec cfg auth w of
        Inl u \<Rightarrow> Inl u
      | Inr None \<Rightarrow> Inr None
      | Inr (Some (w1, Wait)) \<Rightarrow> Inr (Some (w1, preBuff, None))
      | Inr (Some (w1, Fail e)) \<Rightarrow> Inr (Some (w1, preBuff, Some e))
      | Inr (Some (w1, Forward out)) \<Rightarrow> processHttp2RequestFrame codec cfg auth (preBuff @ out) w1)"
  by pat_completeness auto
termination
  by (relation "measure (\<lambda>(codec, cfg, auth, preBuff, w). length (h2_reqBuf w))") (auto dest: request_step_progress)

declare processHttp2RequestFrame.simps [simp del]

text \<open>The end of a stream as the server announces it, and the other observed frames.\<close>

definition track_response ::
  "('d, 'e) h2_codec \<Rightarrow> byte \<Rightarrow> byte \<Rightarrow> nat \<Rightarrow> byte list \<Rightarrow> ('d, 'e) h2_conn \<Rightarrow> unit + ('d, 'e) h2_conn" where
  "track_response codec ftype flags sid framePayload w =
     (if ftype = frameTypeSettings then
        (if \<not> bit flags flagAck then ParseSettingsFrame codec framePayload w else Inr w)
      else if ftype = frameTypeHeaders \<or> ftype = frameTypeData then
        (if bit flags flagEndStream then Inr (drop_stream sid (set_stream sid (\<lambda>st. st\<lparr>st_RespEndStream := True\<rparr>) w))
         else Inr w)
      else if ftype = frameTypeRstStream then
        (if 4 \<le> length framePayload then
           reading (Uint32 framePayload 0) (\<lambda>errorCode. Inr (drop_stream sid w))
         else Inr w)
      else if ftype = frameTypeGoaway then
        (if 8 \<le> length framePayload then
           reading (stream_id framePayload 0) (\<lambda>lastStreamID. reading (Uint32 framePayload 4) (\<lambda>errorCode. Inr w))
         else Inr w)
      else Inr w)"

definition observe_step :: "('d, 'e) h2_codec \<Rightarrow> ('d, 'e) h2_conn \<Rightarrow> unit + ('d, 'e) h2_conn option" where
  "observe_step codec w =
     reading (tryExtractFrameFromBuf (h2_respBuf w)) (\<lambda>r.
       case r of
         None \<Rightarrow> Inr None
       | Some frame \<Rightarrow>
           reading (byte_at frame 3) (\<lambda>ftype.
           reading (byte_at frame 4) (\<lambda>flags.
           reading (stream_id frame 5) (\<lambda>sid.
           reading (slice frame frameHeaderLen (length frame)) (\<lambda>framePayload.
           reading (track_response codec ftype flags sid framePayload w) (\<lambda>w1.
             Inr (Some (w1\<lparr>h2_respBuf := drop (length frame) (h2_respBuf w1)\<rparr>))))))))"

lemma settings_respBuf:
  "settings_loop codec payload i w = Inr w1 \<Longrightarrow> h2_respBuf w1 = h2_respBuf w"
proof (induction codec payload i w rule: settings_loop.induct)
  case (1 codec payload i w)
  show ?case
    using "1.prems"
    by (subst (asm) settings_loop.simps)
       (auto simp: reading_def applyHTTP2Setting_def Let_def split: if_splits sum.splits dest!: "1.IH")
qed

lemma track_response_respBuf:
  "track_response codec ftype flags sid payload w = Inr w1 \<Longrightarrow> h2_respBuf w1 = h2_respBuf w"
  by (auto simp: track_response_def reading_def ParseSettingsFrame_def drop_stream_def set_stream_def
        split: if_splits sum.splits option.splits dest!: settings_respBuf)

lemma observe_step_progress:
  assumes "observe_step codec w = Inr (Some w1)"
  shows "length (h2_respBuf w1) < length (h2_respBuf w)"
proof -
  obtain frame where frame: "tryExtractFrameFromBuf (h2_respBuf w) = Inr (Some frame)"
    using assms by (auto simp: observe_step_def reading_def split: sum.splits option.splits)
  then show ?thesis
    using assms extracted_frame [OF frame]
    by (auto simp: observe_step_def reading_def split: sum.splits dest!: track_response_respBuf)
qed

function observe_loop :: "('d, 'e) h2_codec \<Rightarrow> ('d, 'e) h2_conn \<Rightarrow> unit + ('d, 'e) h2_conn" where
  "observe_loop codec w =
     (case observe_step codec w of
        Inl u \<Rightarrow> Inl u
      | Inr None \<Rightarrow> Inr w
      | Inr (Some w1) \<Rightarrow> observe_loop codec w1)"
  by pat_completeness auto
termination
  by (relation "measure (\<lambda>(codec, w). length (h2_respBuf w))") (auto dest: observe_step_progress)

declare observe_loop.simps [simp del]

definition observeHTTP2ResponseFrames :: "('d, 'e) h2_codec \<Rightarrow> byte list \<Rightarrow> ('d, 'e) h2_conn \<Rightarrow> unit + ('d, 'e) h2_conn" where
  "observeHTTP2ResponseFrames codec payload w = observe_loop codec (w\<lparr>h2_respBuf := h2_respBuf w @ payload\<rparr>)"

section \<open>No panics\<close>

lemma no_panic_words [simp]:
  "3 \<le> length b \<Longrightarrow> no_panic (Uint24 b)"
  "i + 4 \<le> length b \<Longrightarrow> no_panic (Uint32 b i)"
  "i + 4 \<le> length b \<Longrightarrow> no_panic (stream_id b i)"
  by (simp_all add: Uint24_def Uint32_def stream_id_def reading_def)

lemma frame_no_panic [simp]: "no_panic (http2FrameTotalLen data)" "no_panic (tryExtractFrameFromBuf data)"
  by (auto simp: http2FrameTotalLen_def tryExtractFrameFromBuf_def frameHeaderLen_def Let_def intro!: no_panic_reading)

lemma header_sequence_no_panic: "no_panic (header_sequence_loop data sid offset)"
proof (induction "length data - offset" arbitrary: offset rule: less_induct)
  case less
  have "no_panic (header_sequence_loop data sid (offset + n))"
    if "9 \<le> n" "n \<le> length data - offset" for n
    using less [of "offset + n"] that by simp
  then show ?case
    by (subst header_sequence_loop.simps)
       (auto simp: frameHeaderLen_def split: option.splits intro!: no_panic_reading dest!: frame_total_bounds)
qed

lemma complete_sequence_no_panic: "no_panic (extractCompleteHeaderSequence data)"
  unfolding extractCompleteHeaderSequence_def
  by (auto simp: frameHeaderLen_def split: option.splits intro!: no_panic_reading header_sequence_no_panic
        dest!: frame_total_bounds)

lemma settings_no_panic:
  "length payload mod 6 = 0 \<Longrightarrow> i mod 6 = 0 \<Longrightarrow> no_panic (settings_loop codec payload i w)"
proof (induction codec payload i w rule: settings_loop.induct)
  case (1 codec payload i w)
  have "i < length payload \<Longrightarrow> i + 6 \<le> length payload" using "1.prems" by presburger
  then show ?case
    using "1.prems" by (subst settings_loop.simps) (auto intro!: no_panic_reading "1.IH")
qed

lemma parse_settings_no_panic: "no_panic (ParseSettingsFrame codec payload w)"
  by (auto simp: ParseSettingsFrame_def intro!: settings_no_panic)

lemma headers_step_no_panic: "no_panic (headers_step codec cfg auth sid w)"
  unfolding headers_step_def by (auto intro!: no_panic_reading complete_sequence_no_panic)

lemma track_no_panic: "no_panic (track_request ftype flags sid payload w)"
  unfolding track_request_def by (auto intro!: no_panic_reading)

lemma track_response_no_panic: "no_panic (track_response codec ftype flags sid payload w)"
  unfolding track_response_def by (auto intro!: no_panic_reading parse_settings_no_panic)

lemma request_step_no_panic: "no_panic (request_step codec cfg auth w)"
  unfolding request_step_def Let_def
  by (auto simp: frameHeaderLen_def split: option.splits dest!: extracted_frame
        intro!: no_panic_reading headers_step_no_panic track_no_panic)

lemma observe_step_no_panic: "no_panic (observe_step codec w)"
  unfolding observe_step_def
  by (auto simp: frameHeaderLen_def split: option.splits dest!: extracted_frame
        intro!: no_panic_reading track_response_no_panic)

lemma process_no_panic: "no_panic (processHttp2RequestFrame codec cfg auth preBuff w)"
proof (induction codec cfg auth preBuff w rule: processHttp2RequestFrame.induct)
  case (1 codec cfg auth preBuff w)
  then show ?case
    using request_step_no_panic [of codec cfg auth w]
    by (subst processHttp2RequestFrame.simps) (auto split: sum.splits option.splits h2_outcome.splits)
qed

lemma observe_loop_no_panic: "no_panic (observe_loop codec w)"
proof (induction codec w rule: observe_loop.induct)
  case (1 codec w)
  then show ?case
    using observe_step_no_panic [of codec w]
    by (subst observe_loop.simps) (auto split: sum.splits option.splits)
qed

section \<open>Writing a header block\<close>

text \<open>The fragments of a block, and the frames for a list of fragments.\<close>

fun fragments :: "nat \<Rightarrow> byte list \<Rightarrow> byte list list" where
  "fragments n b = (if b = [] \<or> n = 0 then [] else take n b # fragments n (drop n b))"

declare fragments.simps [simp del]

fun continuations :: "('d, 'e) h2_codec \<Rightarrow> nat \<Rightarrow> byte list list \<Rightarrow> byte list \<Rightarrow> h2_error + byte list" where
  "continuations codec sid [] out = Inr out"
| "continuations codec sid (c # cs) out =
     (case hc_continuation codec sid (cs = []) c of
        None \<Rightarrow> Inl WriteContinuationError
      | Some b \<Rightarrow> continuations codec sid cs (out @ b))"

definition header_frames ::
  "('d, 'e) h2_codec \<Rightarrow> nat \<Rightarrow> bool \<Rightarrow> PriorityParam \<Rightarrow> byte list list \<Rightarrow> h2_error + byte list" where
  "header_frames codec sid endStream priority cs =
     (case hc_headers codec sid (if cs = [] then [] else hd cs) endStream (length cs \<le> 1) priority of
        None \<Rightarrow> Inl WriteHeadersError
      | Some b \<Rightarrow> continuations codec sid (tl cs) b)"

lemma fragments_Nil [simp]: "fragments n [] = []"
  by (simp add: fragments.simps)

lemma fragments_exact:
  "0 < n \<Longrightarrow> concat (fragments n b) = b \<and> (\<forall>c \<in> set (fragments n b). c \<noteq> [] \<and> length c \<le> n)"
proof (induction n b rule: fragments.induct)
  case (1 n b)
  then show ?case by (subst (1 2) fragments.simps) auto
qed

lemma fragments_step: "0 < n \<Longrightarrow> b \<noteq> [] \<Longrightarrow> fragments n b = take n b # fragments n (drop n b)"
  by (simp add: fragments.simps)

lemma fragments_empty: "0 < n \<Longrightarrow> (fragments n b = []) = (b = [])"
  by (simp add: fragments.simps)

lemma take_min_length:
  "take (if length b > n then n else length b) b = take n b" "drop (if length b > n then n else length b) b = drop n b"
  by simp_all

lemma write_continuations:
  assumes "0 < n"
  shows "write_block codec n sid es pr False b out = Some (continuations codec sid (fragments n b) out)"
proof (induction b arbitrary: out rule: length_induct)
  case (1 b)
  show ?case
  proof (cases "b = []")
    case True
    then show ?thesis by (subst write_block.simps) simp
  next
    case False
    then have "length (drop n b) < length b" using assms by simp
    then show ?thesis
      using False 1 assms
      by (subst write_block.simps)
         (auto simp: Let_def take_min_length fragments_step fragments_empty simp del: take_eq_Nil drop_eq_Nil split: option.splits)
  qed
qed

lemma write_block_frames:
  assumes "0 < n"
  shows "write_block codec n sid es pr True b [] = Some (header_frames codec sid es pr (fragments n b))"
proof -
  have "write_block codec n sid es pr True b [] =
      (case hc_headers codec sid (take n b) es (drop n b = []) pr of
         None \<Rightarrow> Some (Inl WriteHeadersError)
       | Some x \<Rightarrow> Some (continuations codec sid (fragments n (drop n b)) x))"
    by (subst write_block.simps)
       (simp add: Let_def take_min_length write_continuations [OF assms] del: take_eq_Nil drop_eq_Nil split: option.split)
  moreover have "b = [] \<or> fragments n b = take n b # fragments n (drop n b)"
    using fragments_step [OF assms] by blast
  moreover have "(length (fragments n (drop n b)) \<le> 0) = (drop n b = [])"
    using fragments_empty [OF assms] by simp
  ultimately show ?thesis
    by (auto simp: header_frames_def split: option.split)
qed

definition zero_size_ok :: "('d, 'e) h2_codec \<Rightarrow> nat \<Rightarrow> bool \<Rightarrow> PriorityParam \<Rightarrow> bool" where
  "zero_size_ok codec sid es pr \<longleftrightarrow>
     hc_continuation codec sid False [] \<noteq> None \<and> hc_headers codec sid [] es False pr \<noteq> None"

lemma zero_frame_size_stuck:
  assumes "write_block codec n sid es pr first b out = Some r"
  shows "zero_size_ok codec sid es pr \<longrightarrow> n = 0 \<longrightarrow> b = []"
  using _ assms
proof (rule write_block.raw_induct)
  fix rec :: "('a, 'b) h2_codec \<Rightarrow> nat \<Rightarrow> nat \<Rightarrow> bool \<Rightarrow> PriorityParam \<Rightarrow> bool \<Rightarrow> byte list \<Rightarrow> byte list
      \<Rightarrow> (h2_error + byte list) option"
    and codec :: "('a, 'b) h2_codec" and n sid es pr first b out r
  assume IH: "\<And>codec n sid es pr first b out r. rec codec n sid es pr first b out = Some r
      \<Longrightarrow> zero_size_ok codec sid es pr \<longrightarrow> n = 0 \<longrightarrow> b = []"
    and body: "(if b = [] \<and> \<not> first then Some (Inr out)
      else
        let chunkSize = (if length b > n then n else length b);
            chunk = take chunkSize b;
            rest = drop chunkSize b;
            endHeaders = (rest = []) in
        if first then
          (case hc_headers codec sid chunk es endHeaders pr of
             None \<Rightarrow> Some (Inl WriteHeadersError)
           | Some c \<Rightarrow> rec codec n sid es pr False rest (out @ c))
        else
          (case hc_continuation codec sid endHeaders chunk of
             None \<Rightarrow> Some (Inl WriteContinuationError)
           | Some c \<Rightarrow> rec codec n sid es pr False rest (out @ c))) = Some r"
  show "zero_size_ok codec sid es pr \<longrightarrow> n = 0 \<longrightarrow> b = []"
  proof (rule impI, rule impI, rule ccontr)
    assume ok: "zero_size_ok codec sid es pr" and stuck: "n = 0" "b \<noteq> []"
    then obtain out' where "rec codec 0 sid es pr False b out' = Some r"
      using body by (auto simp: Let_def zero_size_ok_def split: if_splits option.splits)
    then show False using IH ok stuck by blast
  qed
qed

text \<open>
  C32. The loop that writes a header block returns for every block exactly when the server's frame
  size limit is positive, where the writers of empty fragments succeed; and when it returns on a
  positive limit it has written the block as one HEADERS frame followed by CONTINUATION frames,
  whose fragments are the block cut at the limit.
\<close>

theorem write_block_returns_iff:
  assumes "hc_continuation codec sid False [] \<noteq> None \<and> hc_headers codec sid [] endStream False priority \<noteq> None"
  shows "((\<forall>b. \<exists>r. write_block codec maxFrameSize sid endStream priority True b [] = Some r) \<longleftrightarrow> 0 < maxFrameSize) \<and>
    (0 < maxFrameSize \<longrightarrow>
      write_block codec maxFrameSize sid endStream priority True headerBlock [] =
        Some (header_frames codec sid endStream priority (fragments maxFrameSize headerBlock)) \<and>
      concat (fragments maxFrameSize headerBlock) = headerBlock \<and>
      list_all (\<lambda>c. length c \<le> maxFrameSize) (fragments maxFrameSize headerBlock))"
proof -
  have "0 < maxFrameSize" if "\<forall>b. \<exists>r. write_block codec maxFrameSize sid endStream priority True b [] = Some r"
    using that zero_frame_size_stuck [of codec maxFrameSize sid endStream priority True "[0]" "[]"] assms
    by (auto simp: zero_size_ok_def)
  then show ?thesis
    using write_block_frames [of maxFrameSize codec sid endStream priority]
      fragments_exact [of maxFrameSize headerBlock]
    by (auto simp: list_all_iff)
qed

section \<open>The authorization header\<close>

text \<open>A field that the server would take for the gateway's authorization header.\<close>

definition is_inner :: "HeaderField \<Rightarrow> bool" where
  "is_inner f \<longleftrightarrow> ToLower (TrimSpace (hf_Name f)) = ''authorization-inner''"

text \<open>The client's fields after the rewriting of the host.\<close>

definition host_rewritten :: "Config option \<Rightarrow> HeaderField list \<Rightarrow> HeaderField list" where
  "host_rewritten cfg fs = fst (rewriteAliangHTTP2HeaderFields cfg fs)"

lemma host_rewritten_choice:
  "(case rewriteAliangHTTP2HeaderFields cfg fs of (r, changed) \<Rightarrow> if changed then r else fs) = host_rewritten cfg fs"
  by (auto simp: host_rewritten_def rewriteAliangHTTP2HeaderFields_def Let_def split: option.splits prod.splits)

lemma host_rewritten_names: "map hf_Name (host_rewritten cfg fs) = map hf_Name fs"
  by (auto simp: host_rewritten_def rewriteAliangHTTP2HeaderFields_def Let_def split: option.splits prod.splits)

lemma inner_key: "ToLower (TrimSpace ''authorization-inner'') = ''authorization-inner''"
  by code_simp

lemma blank_key: "ToLower (TrimSpace []) = []"
  by code_simp

lemma rewritten_initial:
  "rewritten_fields cfg fs ''authorization-inner'' auth =
    filter (\<lambda>f. \<not> is_inner f) (host_rewritten cfg fs) @
    (if TrimSpace auth = [] then [] else [\<lparr>hf_Name = ''authorization-inner'', hf_Value = auth, hf_Sensitive = True\<rparr>])"
  by (auto simp: rewritten_fields_def host_rewritten_choice inner_key is_inner_def Let_def)

lemma rewritten_other:
  "rewritten_fields cfg fs [] [] =
    filter (\<lambda>f. \<not> is_inner f \<and> TrimSpace (hf_Name f) \<noteq> []) (host_rewritten cfg fs)"
  by (auto simp: rewritten_fields_def host_rewritten_choice blank_key is_inner_def Let_def ToLower_def intro!: filter_cong)

text \<open>What a header block is rewritten to: all but the fields the client may not send, and the token.\<close>

definition expected_fields :: "Config option \<Rightarrow> string \<Rightarrow> HeaderField list \<Rightarrow> HeaderField list" where
  "expected_fields cfg auth fs =
     (if isHTTP2InitialRequestHeaders fs then
        filter (\<lambda>f. \<not> is_inner f) (host_rewritten cfg fs) @
        (if TrimSpace auth = [] then []
         else [\<lparr>hf_Name = ''authorization-inner'', hf_Value = auth, hf_Sensitive = True\<rparr>])
      else filter (\<lambda>f. \<not> is_inner f \<and> TrimSpace (hf_Name f) \<noteq> []) (host_rewritten cfg fs))"

lemma injection_fields:
  "injection fs auth = (k, v) \<Longrightarrow> rewritten_fields cfg fs k v = expected_fields cfg auth fs"
  by (auto simp: injection_def expected_fields_def rewritten_initial rewritten_other split: if_splits)

lemma expected_inner:
  "filter is_inner (expected_fields cfg auth fs) =
    (if isHTTP2InitialRequestHeaders fs \<and> TrimSpace auth \<noteq> []
     then [\<lparr>hf_Name = ''authorization-inner'', hf_Value = auth, hf_Sensitive = True\<rparr>] else [])"
  by (auto simp: expected_fields_def is_inner_def inner_key filter_empty_conv)

lemma headers_step_forward:
  assumes "headers_step codec cfg auth sid w = Inr (Some (w1, Forward out))"
  obtains raw d meta e block where
    "extractCompleteHeaderSequence (h2_reqBuf w) = Inr (Inr (Some raw))"
    "hc_meta codec (h2_decoder w) raw = (d, Some meta)"
    "encode_fields codec (fst (injection (mh_Fields meta) auth)) (expected_fields cfg auth (mh_Fields meta)) (h2_encoder w)
      = (e, Some block)"
    "write_block codec (case GetServerHTTP2Setting 5 w of Some v \<Rightarrow> v | None \<Rightarrow> 16384) sid (mh_StreamEnded meta)
      (mh_Priority meta) True block [] = Some (Inr out)"
proof -
  obtain raw d meta w2 fs where step: "extractCompleteHeaderSequence (h2_reqBuf w) = Inr (Inr (Some raw))"
    "hc_meta codec (h2_decoder w) raw = (d, Some meta)"
    "rebuildReqHeadersWithInjectedField codec cfg (mh_Fields meta) sid (mh_StreamEnded meta) (mh_Priority meta)
      (fst (injection (mh_Fields meta) auth)) (snd (injection (mh_Fields meta) auth)) (w\<lparr>h2_decoder := d\<rparr>)
      = Some (w2, Inr (out, fs))"
    using assms by (auto simp: headers_step_def reading_def Let_def split: sum.splits option.splits prod.splits)
  have key: "ToLower (TrimSpace (fst (injection (mh_Fields meta) auth))) = fst (injection (mh_Fields meta) auth)"
    by (simp add: injection_def inner_key blank_key)
  have fs: "rewritten_fields cfg (mh_Fields meta) (fst (injection (mh_Fields meta) auth))
      (snd (injection (mh_Fields meta) auth)) = expected_fields cfg auth (mh_Fields meta)"
    by (rule injection_fields) simp
  obtain e block where enc: "encode_fields codec (fst (injection (mh_Fields meta) auth))
      (expected_fields cfg auth (mh_Fields meta)) (h2_encoder w) = (e, Some block)"
    using step(3)
    by (auto simp: rebuildReqHeadersWithInjectedField_def key fs Let_def split: prod.splits option.splits)
  show thesis
    using step(3) enc
    by (intro that [OF step(1,2) enc])
       (auto simp: rebuildReqHeadersWithInjectedField_def key fs Let_def GetServerHTTP2Setting_def split: sum.split_asm,
        metis sumE)
qed

text \<open>
  C30. Header blocks and the authorization header. Of a complete header block that can be parsed and
  encoded again, what is forwarded is the encoding of a field list whose \<^verbatim>\<open>authorization-inner\<close> fields, in
  any spelling, are exactly one with the current token for an initial request when there is a token, and none
  otherwise; the other fields are the client's, in its order, with the host rewritten. An incomplete block is
  left in the buffer and nothing is forwarded. A block that cannot be parsed or encoded is an error that leaves
  the client's bytes in the buffer; the connection then forwards them, and all that follow, as the client wrote
  them, so the guarantee ends there.
\<close>

theorem header_block_authorization:
  assumes "headers_step codec cfg auth sid w = Inr (Some (w1, r))"
  shows "case r of
      Forward out \<Rightarrow> (\<exists>raw d meta fs e block.
        extractCompleteHeaderSequence (h2_reqBuf w) = Inr (Inr (Some raw)) \<and>
        hc_meta codec (h2_decoder w) raw = (d, Some meta) \<and>
        encode_fields codec (fst (injection (mh_Fields meta) auth)) fs (h2_encoder w) = (e, Some block) \<and>
        write_block codec (case GetServerHTTP2Setting 5 w of Some v \<Rightarrow> v | None \<Rightarrow> 16384) sid (mh_StreamEnded meta)
          (mh_Priority meta) True block [] = Some (Inr out) \<and>
        filter is_inner fs = (if isHTTP2InitialRequestHeaders (mh_Fields meta) \<and> TrimSpace auth \<noteq> []
          then [\<lparr>hf_Name = ''authorization-inner'', hf_Value = auth, hf_Sensitive = True\<rparr>] else []) \<and>
        filter (\<lambda>f. \<not> is_inner f) fs =
          filter (\<lambda>f. \<not> is_inner f \<and> (isHTTP2InitialRequestHeaders (mh_Fields meta) \<or> TrimSpace (hf_Name f) \<noteq> []))
            (host_rewritten cfg (mh_Fields meta)) \<and>
        map hf_Name (host_rewritten cfg (mh_Fields meta)) = map hf_Name (mh_Fields meta))
    | Wait \<Rightarrow> w1 = w \<and> extractCompleteHeaderSequence (h2_reqBuf w) = Inr (Inr None)
    | Fail e \<Rightarrow> h2_reqBuf w1 = h2_reqBuf w"
proof (cases r)
  case (Forward out)
  have others: "filter (\<lambda>f. \<not> is_inner f) (expected_fields cfg auth fs) =
      filter (\<lambda>f. \<not> is_inner f \<and> (isHTTP2InitialRequestHeaders fs \<or> TrimSpace (hf_Name f) \<noteq> [])) (host_rewritten cfg fs)"
    for fs
    by (auto simp: expected_fields_def is_inner_def inner_key intro!: filter_cong)
  show ?thesis
    unfolding Forward h2_outcome.case
    by (rule headers_step_forward [OF assms [unfolded Forward]]) (blast intro: expected_inner others host_rewritten_names)
next
  case Wait
  then show ?thesis
    using assms by (auto simp: headers_step_def reading_def Let_def split: sum.splits option.splits prod.splits)
next
  case (Fail e)
  have "h2_reqBuf w2 = h2_reqBuf v" if "rebuildReqHeadersWithInjectedField codec cfg fs sid x p k i v = Some (w2, q)" for fs x p k i v w2 q
    using that by (auto simp: rebuildReqHeadersWithInjectedField_def Let_def split: sum.split_asm option.split_asm prod.split_asm)
      (case_tac z; fastforce)+
  then show ?thesis
    using assms Fail by (fastforce simp: headers_step_def reading_def Let_def split: sum.splits option.splits prod.splits)
qed

section \<open>Frames that arrive in pieces\<close>

definition more_input :: "byte list \<Rightarrow> ('d, 'e) h2_conn \<Rightarrow> ('d, 'e) h2_conn" where
  "more_input b w = w\<lparr>h2_reqBuf := h2_reqBuf w @ b\<rparr>"

lemma Uint24_append: "3 \<le> length a \<Longrightarrow> Uint24 (a @ b) = Uint24 a"
  by (auto simp: Uint24_def nth_append)

lemma no_panic_Inr: "no_panic m \<Longrightarrow> \<exists>x. m = Inr x"
  by (cases m) simp_all

lemma frame_total_append:
  "http2FrameTotalLen a = Inr (Some n) \<Longrightarrow> http2FrameTotalLen (a @ b) = Inr (Some n)"
  by (auto simp: http2FrameTotalLen_def frameHeaderLen_def Uint24_append Let_def reading_def split: if_splits sum.splits)

lemma extract_append:
  "tryExtractFrameFromBuf a = Inr (Some frame) \<Longrightarrow> tryExtractFrameFromBuf (a @ b) = Inr (Some frame)"
  by (auto simp: tryExtractFrameFromBuf_def frameHeaderLen_def Uint24_append Let_def reading_def split: if_splits sum.splits)

lemma access_append:
  "byte_at a i = Inr x \<Longrightarrow> byte_at (a @ b) i = Inr x"
  "stream_id a i = Inr n \<Longrightarrow> stream_id (a @ b) i = Inr n"
  "slice a i j = Inr r \<Longrightarrow> slice (a @ b) i j = Inr r"
  by (auto simp: byte_at_def stream_id_def Uint32_def slice_def nth_append reading_def split: if_splits)

definition settled :: "unit + (h2_error + byte list option) \<Rightarrow> bool" where
  "settled r \<longleftrightarrow> r \<noteq> Inr (Inr None)"

lemma header_sequence_append:
  "settled (header_sequence_loop a sid offset) \<Longrightarrow>
    header_sequence_loop (a @ b) sid offset = header_sequence_loop a sid offset"
proof (induction "length a - offset" arbitrary: offset rule: less_induct)
  case less
  have len: "frameHeaderLen \<le> length (drop offset a)"
    using less.prems by (subst (asm) header_sequence_loop.simps) (auto simp: settled_def split: if_splits)
  then have le: "offset \<le> length a" by (auto simp: frameHeaderLen_def)
  obtain n where n: "http2FrameTotalLen (drop offset a) = Inr (Some n)"
    using less.prems len frame_no_panic(1) [of "drop offset a"]
    by (subst (asm) header_sequence_loop.simps)
       (auto simp: settled_def reading_def no_panic_def split: if_splits sum.splits option.splits)
  have bounds: "9 \<le> n" "n \<le> length a - offset" using frame_total_bounds [OF n] by simp_all
  obtain ty sid' fl where acc: "byte_at a (offset + 3) = Inr ty" "stream_id a (offset + 5) = Inr sid'"
      "byte_at a (offset + 4) = Inr fl" "slice a 0 (offset + n) = Inr (take (offset + n) a)"
    using bounds le no_panic_Inr [of "byte_at a (offset + 3)"] no_panic_Inr [of "byte_at a (offset + 4)"]
      no_panic_Inr [of "stream_id a (offset + 5)"] by (auto simp: slice_def)
  have n': "http2FrameTotalLen (drop offset (a @ b)) = Inr (Some n)"
    using frame_total_append [OF n] le by simp
  have IH: "settled (header_sequence_loop a sid (offset + n)) \<Longrightarrow>
      header_sequence_loop (a @ b) sid (offset + n) = header_sequence_loop a sid (offset + n)"
    using less.hyps bounds by simp
  show ?case
    using less.prems len n n' acc access_append(1) [where b = b, OF acc(1)] access_append(2) [where b = b, OF acc(2)]
      access_append(1) [where b = b, OF acc(3)] access_append(3) [where b = b, OF acc(4)] IH
    by (subst (asm) header_sequence_loop.simps, subst (1 2) header_sequence_loop.simps)
       (auto simp: reading_def split: if_splits)
qed

lemma complete_sequence_append:
  assumes "settled (extractCompleteHeaderSequence a)"
  shows "extractCompleteHeaderSequence (a @ b) = extractCompleteHeaderSequence a"
proof -
  obtain n where n: "http2FrameTotalLen a = Inr (Some n)"
    using assms frame_no_panic(1) [of a]
    by (auto simp: extractCompleteHeaderSequence_def settled_def reading_def no_panic_def
        split: if_splits sum.splits option.splits)
  have bounds: "9 \<le> n" "n \<le> length a" using frame_total_bounds [OF n] by simp_all
  obtain sid fl where acc: "stream_id a 5 = Inr sid" "byte_at a 4 = Inr fl" "slice a 0 n = Inr (take n a)"
    using bounds no_panic_Inr [of "byte_at a 4"] no_panic_Inr [of "stream_id a 5"] by (auto simp: slice_def)
  show ?thesis
    using assms bounds n frame_total_append [OF n] acc access_append(2) [where b = b, OF acc(1)]
      access_append(1) [where b = b, OF acc(2)] access_append(3) [where b = b, OF acc(3)]
      header_sequence_append [of a sid n b]
    by (auto simp: extractCompleteHeaderSequence_def reading_def frameHeaderLen_def split: if_splits)
qed

lemma more_input_buf [simp]: "h2_reqBuf (more_input b w) = h2_reqBuf w @ b"
  by (simp add: more_input_def)

text \<open>No operation on the streams or on the codec reads the request buffer.\<close>

lemma more_input_commutes:
  "getOrCreateStream sid (more_input b w) = more_input b (getOrCreateStream sid w)"
  "set_stream sid f (more_input b w) = more_input b (set_stream sid f w)"
  "drop_stream sid (more_input b w) = more_input b (drop_stream sid w)"
  "rememberRecentHTTP2RequestSummary sid text (more_input b w) = more_input b (rememberRecentHTTP2RequestSummary sid text w)"
  "more_input b w\<lparr>h2_decoder := d\<rparr> = more_input b (w\<lparr>h2_decoder := d\<rparr>)"
  by (simp_all add: getOrCreateStream_def set_stream_def drop_stream_def rememberRecentHTTP2RequestSummary_def
      more_input_def Let_def split: option.splits)

lemma record_more_input:
  "record_request sid fs injected ended (more_input b w) = more_input b (record_request sid fs injected ended w)"
proof -
  have "h2_streams (more_input b w) = h2_streams w" by (simp add: more_input_def)
  then show ?thesis by (simp add: record_request_def more_input_commutes)
qed

lemma consume_more_input:
  "n \<le> length (h2_reqBuf w) \<Longrightarrow> consume_req n (more_input b w) = more_input b (consume_req n w)"
  by (simp add: consume_req_def more_input_def)

lemma rebuild_more_input:
  "rebuildReqHeadersWithInjectedField codec cfg fs sid es pr k v (more_input b w) =
    map_option (\<lambda>(w1, r). (more_input b w1, r)) (rebuildReqHeadersWithInjectedField codec cfg fs sid es pr k v w)"
  by (cases w) (simp add: rebuildReqHeadersWithInjectedField_def more_input_def GetServerHTTP2Setting_def Let_def
      option.map_comp comp_def split: prod.split option.split)

lemma track_more_input:
  "track_request ftype flags sid payload (more_input b w) =
    map_sum id (more_input b) (track_request ftype flags sid payload w)"
  by (auto simp: track_request_def more_input_commutes reading_def split: sum.split)
     (simp_all add: more_input_def)

text \<open>The outcome of a turn on a connection that has more input buffered.\<close>

definition extended ::
  "byte list \<Rightarrow> unit + (('d, 'e) h2_conn \<times> h2_outcome) option \<Rightarrow> unit + (('d, 'e) h2_conn \<times> h2_outcome) option" where
  "extended b = map_sum id (map_option (\<lambda>(w, r). (more_input b w, r)))"

definition waits :: "unit + (('d, 'e) h2_conn \<times> h2_outcome) option \<Rightarrow> bool" where
  "waits r \<longleftrightarrow> (\<exists>w. r = Inr (Some (w, Wait)))"

lemma headers_more_input:
  assumes "\<not> waits (headers_step codec cfg auth sid w)"
  shows "headers_step codec cfg auth sid (more_input b w) = extended b (headers_step codec cfg auth sid w)"
proof -
  have settled: "settled (extractCompleteHeaderSequence (h2_reqBuf w))"
    using assms by (auto simp: headers_step_def waits_def settled_def reading_def)
  have dec: "h2_decoder (more_input b w) = h2_decoder w" by (simp add: more_input_def)
  obtain r where r: "extractCompleteHeaderSequence (h2_reqBuf w) = Inr r" "r \<noteq> Inr None"
    using settled no_panic_Inr [OF complete_sequence_no_panic] by (auto simp: settled_def)
  have raw: "length raw \<le> length (h2_reqBuf w)" if "r = Inr (Some raw)" for raw
    using complete_sequence_bounds r(1) that by blast
  show ?thesis
    using r raw complete_sequence_append [OF settled, of b]
    by (auto simp: headers_step_def reading_def extended_def dec more_input_commutes rebuild_more_input record_more_input
          Let_def split: sum.split prod.split option.split dest!: rebuild_reqBuf intro!: consume_more_input)
qed

lemma headers_waits:
  "headers_step codec cfg auth sid w = Inr (Some (w1, Wait)) \<Longrightarrow> w1 = w"
  by (auto simp: headers_step_def reading_def Let_def split: sum.splits option.splits prod.splits)

lemma extract_frame_bytes:
  assumes "tryExtractFrameFromBuf data = Inr (Some frame)"
  obtains ftype flags sid payload where "byte_at frame 3 = Inr ftype" "byte_at frame 4 = Inr flags"
    "stream_id frame 5 = Inr sid" "slice frame frameHeaderLen (length frame) = Inr payload"
  using extracted_frame [OF assms] no_panic_Inr [of "byte_at frame 3"] no_panic_Inr [of "byte_at frame 4"]
    no_panic_Inr [of "stream_id frame 5"] no_panic_Inr [of "slice frame frameHeaderLen (length frame)"]
  by (auto simp: frameHeaderLen_def)

definition enter_stream :: "nat \<Rightarrow> ('d, 'e) h2_conn \<Rightarrow> ('d, 'e) h2_conn" where
  "enter_stream sid w = (if sid \<noteq> 0 then getOrCreateStream sid w else w)"

lemma enter_stream_simps:
  "enter_stream sid (more_input b w) = more_input b (enter_stream sid w)"
  "h2_reqBuf (enter_stream sid w) = h2_reqBuf w"
  "enter_stream sid (enter_stream sid w) = enter_stream sid w"
  by (simp_all add: enter_stream_def more_input_commutes) (simp add: getOrCreateStream_def update_conv)

lemma request_step_frame:
  assumes "tryExtractFrameFromBuf (h2_reqBuf w) = Inr (Some frame)"
    "byte_at frame 3 = Inr ftype" "byte_at frame 4 = Inr flags"
    "stream_id frame 5 = Inr sid" "slice frame frameHeaderLen (length frame) = Inr payload"
  shows "request_step codec cfg auth w =
    (if ftype = frameTypeHeaders then headers_step codec cfg auth sid (enter_stream sid w)
     else reading (track_request ftype flags sid payload (enter_stream sid w)) (\<lambda>w2.
       Inr (Some (consume_req (length frame) w2, Forward frame))))"
  using assms by (simp add: request_step_def reading_def enter_stream_def Let_def)

lemma request_step_more_input:
  assumes "\<not> waits (request_step codec cfg auth w)"
  shows "request_step codec cfg auth (more_input b w) = extended b (request_step codec cfg auth w)"
proof -
  obtain frame where frame: "tryExtractFrameFromBuf (h2_reqBuf w) = Inr (Some frame)"
    using assms no_panic_Inr [OF frame_no_panic(2), of "h2_reqBuf w"]
    by (auto simp: request_step_def waits_def reading_def split: option.splits)
  obtain ftype flags sid payload where acc: "byte_at frame 3 = Inr ftype" "byte_at frame 4 = Inr flags"
    "stream_id frame 5 = Inr sid" "slice frame frameHeaderLen (length frame) = Inr payload"
    by (rule extract_frame_bytes [OF frame])
  have len: "length frame \<le> length (h2_reqBuf w)" using extracted_frame [OF frame] by simp
  note step = request_step_frame [OF frame acc]
    request_step_frame [of "more_input b w", OF _ acc, unfolded more_input_buf, OF extract_append, OF frame]
  obtain w2 where w2: "track_request ftype flags sid payload (enter_stream sid w) = Inr w2"
    using no_panic_Inr [OF track_no_panic] by blast
  show ?thesis
    using assms len track_reqBuf [OF w2] headers_more_input [of codec cfg auth sid "enter_stream sid w" b]
    by (auto simp: step enter_stream_simps track_more_input w2 reading_def extended_def consume_more_input)
qed

lemma request_step_resume:
  assumes "request_step codec cfg auth w = Inr (Some (w1, Wait))"
  shows "request_step codec cfg auth (more_input b w1) = request_step codec cfg auth (more_input b w)"
proof (cases "tryExtractFrameFromBuf (h2_reqBuf w) = Inr None")
  case True
  then show ?thesis using assms by (simp add: request_step_def reading_def)
next
  case False
  then obtain frame where frame: "tryExtractFrameFromBuf (h2_reqBuf w) = Inr (Some frame)"
    using no_panic_Inr [OF frame_no_panic(2), of "h2_reqBuf w"] by auto
  obtain ftype flags sid payload where acc: "byte_at frame 3 = Inr ftype" "byte_at frame 4 = Inr flags"
    "stream_id frame 5 = Inr sid" "slice frame frameHeaderLen (length frame) = Inr payload"
    by (rule extract_frame_bytes [OF frame])
  have w1: "w1 = enter_stream sid w"
    using assms unfolding request_step_frame [OF frame acc]
    by (auto simp: reading_def split: if_splits sum.splits dest: headers_waits)
  have "tryExtractFrameFromBuf (h2_reqBuf (more_input b v)) = Inr (Some frame)" if "h2_reqBuf v = h2_reqBuf w" for v :: "('a, 'b) h2_conn"
    using extract_append [OF frame] that by simp
  then show ?thesis
    using request_step_frame [OF _ acc, of "more_input b w"] request_step_frame [OF _ acc, of "more_input b w1"]
    by (simp add: w1 enter_stream_simps)
qed

text \<open>
  Further bytes for a pass that ended for want of input; after an error the bytes only join the
  buffer, which then goes to the server unread.
\<close>

definition h2_feed ::
  "('d, 'e) h2_codec \<Rightarrow> Config option \<Rightarrow> string \<Rightarrow> unit + (('d, 'e) h2_conn \<times> byte list \<times> h2_error option) option \<Rightarrow>
    byte list \<Rightarrow> unit + (('d, 'e) h2_conn \<times> byte list \<times> h2_error option) option" where
  "h2_feed codec cfg auth r b =
     (case r of
        Inl u \<Rightarrow> Inl u
      | Inr None \<Rightarrow> Inr None
      | Inr (Some (w, out, Some e)) \<Rightarrow> Inr (Some (more_input b w, out, Some e))
      | Inr (Some (w, out, None)) \<Rightarrow> processHttp2RequestFrame codec cfg auth out (more_input b w))"

lemma process_more_input:
  "h2_feed codec cfg auth (processHttp2RequestFrame codec cfg auth preBuff w) b =
    processHttp2RequestFrame codec cfg auth preBuff (more_input b w)"
proof (induction codec cfg auth preBuff w rule: processHttp2RequestFrame.induct)
  case (1 codec cfg auth preBuff w)
  obtain r where r: "request_step codec cfg auth w = Inr r" using no_panic_Inr [OF request_step_no_panic] by blast
  show ?case
  proof (cases "waits (request_step codec cfg auth w)")
    case True
    then obtain w1 where w1: "request_step codec cfg auth w = Inr (Some (w1, Wait))" by (auto simp: waits_def)
    then show ?thesis
      using request_step_resume [OF w1, of b] by (subst (1 2) processHttp2RequestFrame.simps)
        (simp add: h2_feed_def processHttp2RequestFrame.simps [of codec cfg auth preBuff "more_input b w1"])
  next
    case False
    note step = request_step_more_input [OF False, of b, unfolded r]
    show ?thesis
    proof (cases "\<exists>w1 x. r = Some (w1, Forward x)")
      case True
      then obtain w1 x where fw: "r = Some (w1, Forward x)" by blast
      show ?thesis
        using 1 [OF r fw refl refl] r step fw
        by (subst (1 2) processHttp2RequestFrame.simps) (simp add: extended_def)
    next
      case no: False
      then show ?thesis
        using r step False
        by (subst (1 2) processHttp2RequestFrame.simps)
           (auto simp: extended_def h2_feed_def waits_def split: option.splits prod.splits h2_outcome.splits)
    qed
  qed
qed

lemma more_input_twice: "more_input b (more_input a w) = more_input (a @ b) w" "more_input [] w = w"
  by (simp_all add: more_input_def)

text \<open>The passes that have used all they could of their input.\<close>

definition h2_rested ::
  "('d, 'e) h2_codec \<Rightarrow> Config option \<Rightarrow> string \<Rightarrow> unit + (('d, 'e) h2_conn \<times> byte list \<times> h2_error option) option \<Rightarrow> bool" where
  "h2_rested codec cfg auth r \<longleftrightarrow> h2_feed codec cfg auth r [] = r"

lemma process_rested: "h2_rested codec cfg auth (processHttp2RequestFrame codec cfg auth preBuff w)"
  by (simp add: h2_rested_def process_more_input more_input_twice)

interpretation h2_pass: incremental "h2_rested codec cfg auth" "h2_feed codec cfg auth" for codec cfg auth
proof
  fix r :: "unit + (('a, 'b) h2_conn \<times> byte list \<times> h2_error option) option" and a b
  assume "h2_rested codec cfg auth r"
  then show "h2_feed codec cfg auth r [] = r" by (simp add: h2_rested_def)
  consider (ok) w out where "r = Inr (Some (w, out, None))" | (err) w out e where "r = Inr (Some (w, out, Some e))"
    | (stop) "(\<exists>u. r = Inl u) \<or> r = Inr None"
    by (metis sumE option.exhaust prod_cases3)
  note cases = this
  show "h2_rested codec cfg auth (h2_feed codec cfg auth r a)"
    by (cases rule: cases) (simp add: h2_feed_def process_rested, auto simp: h2_rested_def h2_feed_def more_input_twice)
  show "h2_feed codec cfg auth (h2_feed codec cfg auth r a) b = h2_feed codec cfg auth r (a @ b)"
  proof (cases rule: cases)
    case ok
    then show ?thesis
      using process_more_input [of codec cfg auth out "more_input a w" b] by (simp add: h2_feed_def more_input_twice)
  qed (auto simp: h2_feed_def more_input_twice)
qed

text \<open>
  C31. The rewriting of requests does not depend on how the client's bytes are cut into reads: the
  output, the connection and the error after feeding any pieces one after the other are those of
  one pass over all the bytes. This holds for malformed input too, where the bytes that are
  passed on unread after the error are the same.
\<close>

theorem segmentation_independent:
  "foldl (h2_feed codec cfg auth) (processHttp2RequestFrame codec cfg auth preBuff w) ps =
    processHttp2RequestFrame codec cfg auth preBuff (more_input (concat ps) w)"
  using h2_pass.feed_pieces [OF process_rested, of codec cfg auth preBuff w ps] by (simp add: process_more_input)

section \<open>Frames that are forwarded unchanged\<close>

text \<open>Exactly one frame, and not of a header block.\<close>

definition plain_frame :: "byte list \<Rightarrow> bool" where
  "plain_frame f \<longleftrightarrow> http2FrameTotalLen f = Inr (Some (length f)) \<and> f ! 3 \<noteq> frameTypeHeaders"

lemma frame_total_extract:
  "tryExtractFrameFromBuf data = map_sum id (map_option (\<lambda>n. take n data)) (http2FrameTotalLen data)"
  by (auto simp: tryExtractFrameFromBuf_def http2FrameTotalLen_def reading_def Let_def split: sum.splits)

lemma plain_frame_step:
  assumes "plain_frame f" "h2_reqBuf w = f @ rest"
  shows "\<exists>w1. request_step codec cfg auth w = Inr (Some (w1, Forward f)) \<and> h2_reqBuf w1 = rest \<and>
    h2_decoder w1 = h2_decoder w \<and> h2_encoder w1 = h2_encoder w"
proof -
  have frame: "tryExtractFrameFromBuf (h2_reqBuf w) = Inr (Some f)"
    using assms frame_total_append [of f "length f" rest] by (simp add: plain_frame_def frame_total_extract)
  obtain ftype flags sid payload where acc: "byte_at f 3 = Inr ftype" "byte_at f 4 = Inr flags"
    "stream_id f 5 = Inr sid" "slice f frameHeaderLen (length f) = Inr payload"
    by (rule extract_frame_bytes [OF frame])
  have ty: "ftype \<noteq> frameTypeHeaders"
    using acc(1) assms(1) by (auto simp: byte_at_def plain_frame_def split: if_splits)
  obtain w2 where w2: "track_request ftype flags sid payload (enter_stream sid w) = Inr w2"
    using no_panic_Inr [OF track_no_panic] by blast
  have "h2_decoder w2 = h2_decoder w \<and> h2_encoder w2 = h2_encoder w"
    using w2 by (auto simp: track_request_def enter_stream_def getOrCreateStream_def set_stream_def drop_stream_def
        reading_def split: if_splits sum.splits option.splits)
  then show ?thesis
    using track_reqBuf [OF w2] assms(2)
    by (simp add: request_step_frame [OF frame acc] ty w2 reading_def enter_stream_simps) (simp add: consume_req_def)
qed

lemma other_frames_fact:
  assumes "list_all plain_frame frames" "http2FrameTotalLen rest = Inr None" "h2_reqBuf w = concat frames @ rest"
  shows "\<exists>w1. processHttp2RequestFrame codec cfg auth preBuff w = Inr (Some (w1, preBuff @ concat frames, None)) \<and>
    h2_reqBuf w1 = rest \<and> h2_decoder w1 = h2_decoder w \<and> h2_encoder w1 = h2_encoder w"
  using assms
proof (induction frames arbitrary: preBuff w)
  case Nil
  then have "request_step codec cfg auth w = Inr (Some (w, Wait))"
    by (simp add: request_step_def frame_total_extract reading_def)
  then show ?case using Nil by (subst processHttp2RequestFrame.simps) simp
next
  case (Cons f frames)
  obtain w1 where w1: "request_step codec cfg auth w = Inr (Some (w1, Forward f))" "h2_reqBuf w1 = concat frames @ rest"
    "h2_decoder w1 = h2_decoder w" "h2_encoder w1 = h2_encoder w"
    using plain_frame_step [of f w "concat frames @ rest" codec cfg auth] Cons.prems by auto
  then show ?case
    using Cons.IH [of w1 "preBuff @ f"] Cons.prems by (subst processHttp2RequestFrame.simps) simp
qed

text \<open>
  Every complete frame that is not HEADERS is forwarded byte for byte and in order, up to the
  incomplete frame that ends the buffer, which is kept; the state of the header compression is
  left alone.
\<close>

theorem other_frames_unchanged:
  assumes "list_all plain_frame frames" "http2FrameTotalLen rest = Inr None" "h2_reqBuf w = concat frames @ rest"
  shows "\<exists>w1. processHttp2RequestFrame codec cfg auth preBuff w = Inr (Some (w1, preBuff @ concat frames, None)) \<and>
    h2_reqBuf w1 = rest \<and> h2_decoder w1 = h2_decoder w \<and> h2_encoder w1 = h2_encoder w"
  using assms by (rule other_frames_fact)

section \<open>Recent summaries\<close>

text \<open>The order list names the remembered streams, each once, and at most 128 of them.\<close>

definition summaries_ok :: "('d, 'e) h2_conn \<Rightarrow> bool" where
  "summaries_ok w \<longleftrightarrow>
     distinct (h2_recentRequestOrder w) \<and> length (h2_recentRequestOrder w) \<le> maxRecentHTTP2RequestSummaries \<and>
     set (h2_recentRequestOrder w) = fst ` set (h2_recentRequestSummaries w) \<and>
     distinct (map fst (h2_recentRequestSummaries w))"

lemma remember_keeps:
  assumes "summaries_ok w"
  shows "summaries_ok (rememberRecentHTTP2RequestSummary sid text w)"
proof -
  define order where "order = (if map_of (h2_recentRequestSummaries w) sid = None then h2_recentRequestOrder w @ [sid]
    else h2_recentRequestOrder w)"
  define sums where "sums = AList.update sid text (h2_recentRequestSummaries w)"
  have order: "distinct order" "set order = fst ` set sums" "length order \<le> Suc 128" "distinct (map fst sums)"
    using assms map_of_eq_None_iff [of "h2_recentRequestSummaries w" sid]
    by (auto simp: order_def sums_def summaries_ok_def maxRecentHTTP2RequestSummaries_def dom_update distinct_update)
  have dropped: "set (tl order) = fst ` set (AList.delete (hd order) sums)" if "order \<noteq> []"
  proof -
    have "set (tl order) = set order - {hd order}" using that order(1) by (cases order) auto
    then show ?thesis using arg_cong [OF delete_keys, of set "hd order" sums] order(2) by simp
  qed
  have long: "order \<noteq> []" if "\<not> length order \<le> 128" using that by auto
  show ?thesis
    using assms order dropped [OF long]
    by (simp add: rememberRecentHTTP2RequestSummary_def order_def [symmetric] sums_def [symmetric] Let_def summaries_ok_def
        maxRecentHTTP2RequestSummaries_def distinct_tl distinct_delete) linarith
qed

text \<open>No other operation touches the summaries.\<close>

definition recent :: "('d, 'e) h2_conn \<Rightarrow> (nat \<times> string) list \<times> nat list" where
  "recent w = (h2_recentRequestSummaries w, h2_recentRequestOrder w)"

lemma recent_kept [simp]:
  "recent (getOrCreateStream sid w) = recent w" "recent (set_stream sid f w) = recent w" "recent (drop_stream sid w) = recent w"
  "recent (consume_req n w) = recent w" "recent (applyHTTP2Setting codec i v w) = recent w"
  "recent (w\<lparr>h2_decoder := d\<rparr>) = recent w" "recent (w\<lparr>h2_encoder := e\<rparr>) = recent w"
  "recent (w\<lparr>h2_streams := ss\<rparr>) = recent w" "recent (w\<lparr>h2_respBuf := b\<rparr>) = recent w"
  by (simp_all add: recent_def getOrCreateStream_def set_stream_def drop_stream_def consume_req_def applyHTTP2Setting_def
      Let_def split: option.split)

definition recent_ok :: "(nat \<times> string) list \<times> nat list \<Rightarrow> bool" where
  "recent_ok p = (case p of (sums, order) \<Rightarrow>
     distinct order \<and> length order \<le> maxRecentHTTP2RequestSummaries \<and> set order = fst ` set sums \<and> distinct (map fst sums))"

lemma ok_recent: "summaries_ok w = recent_ok (recent w)"
  by (simp add: recent_def recent_ok_def summaries_ok_def)

lemma record_ok: "recent_ok (recent w) \<Longrightarrow> recent_ok (recent (record_request sid fs injected ended w))"
  by (simp add: record_request_def remember_keeps [unfolded ok_recent])

lemma rebuild_ok:
  "rebuildReqHeadersWithInjectedField codec cfg fs sid es pr k v w = Some (w1, r) \<Longrightarrow> recent w1 = recent w"
  using rebuild_conn recent_kept(7) by metis

lemma track_ok: "track_request ftype flags sid payload w = Inr w1 \<Longrightarrow> recent w1 = recent w"
  by (auto simp: track_request_def reading_def split: if_splits sum.splits)

lemma headers_ok:
  assumes "recent_ok (recent w)" "headers_step codec cfg auth sid w = Inr (Some (w1, r))"
  shows "recent_ok (recent w1)"
  using assms
  by (auto simp: headers_step_def reading_def Let_def intro!: record_ok split: sum.splits option.splits prod.splits
        dest!: rebuild_ok)

lemma request_step_ok:
  assumes "recent_ok (recent w)" "request_step codec cfg auth w = Inr (Some (w1, r))"
  shows "recent_ok (recent w1)"
  using assms
  by (auto simp: request_step_def reading_def Let_def split: sum.splits option.splits if_splits
        dest: headers_ok [rotated] dest!: track_ok)

lemma process_ok:
  "recent_ok (recent w) \<Longrightarrow> processHttp2RequestFrame codec cfg auth preBuff w = Inr (Some (w1, out, err)) \<Longrightarrow>
    recent_ok (recent w1)"
proof (induction codec cfg auth preBuff w rule: processHttp2RequestFrame.induct)
  case (1 codec cfg auth preBuff w)
  show ?case
    using "1.prems"(2) request_step_ok [OF "1.prems"(1), of codec cfg auth]
    by (subst (asm) processHttp2RequestFrame.simps)
       (auto split: sum.splits option.splits h2_outcome.splits dest: "1.IH")
qed

lemma settings_ok: "settings_loop codec payload i w = Inr w1 \<Longrightarrow> recent w1 = recent w"
proof (induction codec payload i w rule: settings_loop.induct)
  case (1 codec payload i w)
  show ?case
    using "1.prems"
    by (subst (asm) settings_loop.simps) (auto simp: reading_def split: if_splits sum.splits dest!: "1.IH")
qed

lemma track_response_ok: "track_response codec ftype flags sid payload w = Inr w1 \<Longrightarrow> recent w1 = recent w"
  by (auto simp: track_response_def reading_def ParseSettingsFrame_def split: if_splits sum.splits dest!: settings_ok)

lemma observe_step_ok: "observe_step codec w = Inr (Some w1) \<Longrightarrow> recent w1 = recent w"
  by (auto simp: observe_step_def reading_def split: sum.splits option.splits dest!: track_response_ok)

lemma observe_loop_ok: "observe_loop codec w = Inr w1 \<Longrightarrow> recent w1 = recent w"
proof (induction codec w rule: observe_loop.induct)
  case (1 codec w)
  show ?case
    using "1.prems" observe_step_ok [of codec w] "1.IH"
    by (subst (asm) observe_loop.simps) (auto split: sum.splits option.splits)
qed

text \<open>
  However many requests a connection carries, at most 128 summaries are remembered, and the
  list that decides which one is evicted names exactly the remembered streams, each once. Both
  loops keep this, on every input.
\<close>

theorem summaries_bounded:
  assumes "summaries_ok w"
    and "processHttp2RequestFrame codec cfg auth preBuff w = Inr (Some (w1, out, err))"
    and "observeHTTP2ResponseFrames codec payload w1 = Inr w2"
  shows "summaries_ok w1 \<and> summaries_ok w2 \<and> length (h2_recentRequestSummaries w2) \<le> 128"
proof -
  have w1: "recent_ok (recent w1)" using assms(1,2) process_ok by (auto simp: ok_recent)
  have "recent w2 = recent w1"
    using assms(3) by (auto simp: observeHTTP2ResponseFrames_def recent_def dest!: observe_loop_ok)
  then have w2: "summaries_ok w2" using w1 by (simp add: ok_recent)
  have "length (h2_recentRequestSummaries w2) = card (fst ` set (h2_recentRequestSummaries w2))"
    using w2 distinct_card [of "map fst (h2_recentRequestSummaries w2)"] by (simp add: summaries_ok_def)
  also have "\<dots> = length (h2_recentRequestOrder w2)"
    using w2 distinct_card [of "h2_recentRequestOrder w2"] by (simp add: summaries_ok_def)
  finally show ?thesis
    using w1 w2 by (simp add: ok_recent [symmetric]) (simp add: summaries_ok_def maxRecentHTTP2RequestSummaries_def)
qed

section \<open>Sample data\<close>

text \<open>
  A library whose header blocks are the names and values written out, each ended by a zero byte,
  whose decoder answers with given fields, and whose writers write frames.
\<close>

definition put_frame :: "byte \<Rightarrow> byte \<Rightarrow> nat \<Rightarrow> byte list \<Rightarrow> byte list" where
  "put_frame ftype flags sid payload =
     [word_of_nat (length payload div 65536), word_of_nat (length payload div 256), word_of_nat (length payload), ftype, flags,
      word_of_nat (sid div 16777216), word_of_nat (sid div 65536), word_of_nat (sid div 256), word_of_nat sid] @ payload"

definition zero_ended :: "string \<Rightarrow> byte list" where
  "zero_ended s = map of_char s @ [0]"

definition sample_codec :: "HeaderField list \<Rightarrow> (unit, unit) h2_codec" where
  "sample_codec fs =
     \<lparr>hc_meta = \<lambda>d raw. (d, Some \<lparr>mh_Fields = fs, mh_StreamEnded = True,
                  mh_Priority = \<lparr>pp_StreamDep = 0, pp_Exclusive = False, pp_Weight = 0\<rparr>\<rparr>),
      hc_field = \<lambda>e f. (e, Some (zero_ended (hf_Name f) @ zero_ended (hf_Value f))),
      hc_decoder_limit = \<lambda>n d. d,
      hc_encoder_limit = \<lambda>n e. e,
      hc_headers = \<lambda>sid b es eh pr. Some (put_frame 1 ((if es then 1 else 0) + (if eh then 4 else 0)) sid b),
      hc_continuation = \<lambda>sid eh b. Some (put_frame 9 (if eh then 4 else 0) sid b)\<rparr>"

definition new_conn :: "'d \<Rightarrow> 'e \<Rightarrow> ('d, 'e) h2_conn" where
  "new_conn d e = \<lparr>h2_reqBuf = [], h2_respBuf = [], h2_decoder = d, h2_encoder = e, h2_streams = [],
     h2_recentRequestSummaries = [], h2_recentRequestOrder = [], h2_serverHTTP2Settings = []\<rparr>"

definition sample_fields :: "HeaderField list" where
  "sample_fields =
     [\<lparr>hf_Name = '':method'', hf_Value = ''GET'', hf_Sensitive = False\<rparr>,
      \<lparr>hf_Name = '' Authorization-Inner'', hf_Value = ''forged'', hf_Sensitive = False\<rparr>]"

definition sample_request :: "(unit, unit) h2_conn" where
  "sample_request = more_input (put_frame 1 4 1 [0x82]) (new_conn () ())"

definition forwards :: "unit + (('d, 'e) h2_conn \<times> h2_outcome) option \<Rightarrow> bool" where
  "forwards r = (case r of Inr (Some (w, Forward out)) \<Rightarrow> True | _ \<Rightarrow> False)"

lemma forwards_iff: "forwards r = (\<exists>w out. r = Inr (Some (w, Forward out)))"
  by (auto simp: forwards_def split: sum.splits option.splits prod.splits h2_outcome.splits)

lemma sample_encode: "\<exists>b. encode_fields (sample_codec fs) key l e = ((), Some b)"
  by (induction l arbitrary: e) (auto simp: sample_codec_def)

lemma sample_continuations: "\<exists>b. continuations (sample_codec fs) sid cs out = Inr b"
  by (induction cs arbitrary: out) (auto simp: sample_codec_def)

lemma sample_write: "0 < n \<Longrightarrow> \<exists>out. write_block (sample_codec fs) n sid es pr True b [] = Some (Inr out)"
  using sample_continuations [of fs sid] by (simp add: write_block_frames header_frames_def) (simp add: sample_codec_def)

lemma sample_forwards:
  assumes "extractCompleteHeaderSequence (h2_reqBuf w) = Inr (Inr (Some raw))" "GetServerHTTP2Setting 5 w = None"
  shows "forwards (headers_step (sample_codec fs) cfg auth sid w)"
proof -
  obtain block where enc: "encode_fields (sample_codec fs) (ToLower (TrimSpace (fst (injection fs auth))))
      (rewritten_fields cfg fs (fst (injection fs auth)) (snd (injection fs auth))) (h2_encoder w) = ((), Some block)"
    using sample_encode by blast
  obtain out where out: "write_block (sample_codec fs) 16384 sid True \<lparr>pp_StreamDep = 0, pp_Exclusive = False, pp_Weight = 0\<rparr>
      True block [] = Some (Inr out)"
    using sample_write by fastforce
  have meta: "hc_meta (sample_codec fs) d raw = (d, Some \<lparr>mh_Fields = fs, mh_StreamEnded = True,
      mh_Priority = \<lparr>pp_StreamDep = 0, pp_Exclusive = False, pp_Weight = 0\<rparr>\<rparr>)" for d
    by (simp add: sample_codec_def)
  show ?thesis
    using assms enc out
    by (auto simp: forwards_iff headers_step_def reading_def meta rebuildReqHeadersWithInjectedField_def Let_def
          GetServerHTTP2Setting_def split: prod.splits)
qed

lemma sample_extract: "extractCompleteHeaderSequence (h2_reqBuf sample_request) = Inr (Inr (Some (put_frame 1 4 1 [0x82])))"
  by (simp add: sample_request_def new_conn_def put_frame_def extractCompleteHeaderSequence_def http2FrameTotalLen_def
      frameHeaderLen_def Uint24_def byte_at_def stream_id_def Uint32_def slice_def reading_def flagEndHeaders_def bit_numeral_rec
      Let_def)

lemma sample_forward: "forwards (headers_step (sample_codec sample_fields) None ''tok'' 1 sample_request)"
  by (rule sample_forwards [OF sample_extract]) (simp add: GetServerHTTP2Setting_def sample_request_def new_conn_def more_input_def)

lemma sample_initial: "isHTTP2InitialRequestHeaders sample_fields \<and> TrimSpace ''tok'' \<noteq> []"
  by code_simp

lemma short_buffer_waits:
  assumes "length (h2_reqBuf w) < 9"
  shows "processHttp2RequestFrame codec cfg auth preBuff w = Inr (Some (w, preBuff, None))"
proof -
  have "request_step codec cfg auth w = Inr (Some (w, Wait))"
    using assms by (simp add: request_step_def tryExtractFrameFromBuf_def frameHeaderLen_def reading_def)
  then show ?thesis by (subst processHttp2RequestFrame.simps) simp
qed

lemma new_conn_buf [simp]: "h2_reqBuf (new_conn d e) = []" "h2_respBuf (new_conn d e) = []"
  by (simp_all add: new_conn_def)

theorem write_block_returns_iff_witness:
  "write_block (sample_codec []) 2 1 True \<lparr>pp_StreamDep = 0, pp_Exclusive = False, pp_Weight = 0\<rparr> True [1, 2, 3] [] =
     Some (Inr (put_frame 1 1 1 [1, 2] @ put_frame 9 4 1 [3])) \<and>
   \<not> (\<forall>b. \<exists>r. write_block (sample_codec []) 0 1 True \<lparr>pp_StreamDep = 0, pp_Exclusive = False, pp_Weight = 0\<rparr> True b [] = Some r)"
proof -
  let ?pr = "\<lparr>pp_StreamDep = 0, pp_Exclusive = False, pp_Weight = 0\<rparr>"
  have ok: "hc_continuation (sample_codec []) 1 False [] \<noteq> None \<and> hc_headers (sample_codec []) 1 [] True False ?pr \<noteq> None"
    by (simp add: sample_codec_def)
  have "header_frames (sample_codec []) 1 True ?pr (fragments 2 [1, 2, 3]) = Inr (put_frame 1 1 1 [1, 2] @ put_frame 9 4 1 [3])"
    by (simp add: fragments.simps header_frames_def) (simp add: sample_codec_def)
  then show ?thesis
    using write_block_returns_iff [OF ok, of 2 "[1, 2, 3]"] write_block_returns_iff [OF ok, of 0] by simp
qed

theorem header_block_authorization_witness:
  "\<exists>w1 out fs e block.
     headers_step (sample_codec sample_fields) None ''tok'' 1 sample_request = Inr (Some (w1, Forward out)) \<and>
     encode_fields (sample_codec sample_fields) (fst (injection sample_fields ''tok'')) fs () = (e, Some block) \<and>
     filter is_inner fs = [\<lparr>hf_Name = ''authorization-inner'', hf_Value = ''tok'', hf_Sensitive = True\<rparr>]"
proof -
  obtain w1 out where step: "headers_step (sample_codec sample_fields) None ''tok'' 1 sample_request = Inr (Some (w1, Forward out))"
    using sample_forward by (auto simp: forwards_iff)
  have meta: "mh_Fields m = sample_fields" if "hc_meta (sample_codec sample_fields) d raw = (d', Some m)" for m d d' raw
    using that by (auto simp: sample_codec_def)
  show ?thesis
    using header_block_authorization [OF step] step meta sample_initial by fastforce
qed

lemma sample_ping:
  "list_all plain_frame [put_frame 6 0 0 [1, 2]]" "http2FrameTotalLen [0, 0] = Inr None"
  by (simp_all add: plain_frame_def put_frame_def http2FrameTotalLen_def frameHeaderLen_def Uint24_def reading_def
      frameTypeHeaders_def)

theorem other_frames_unchanged_witness:
  "\<exists>w1. processHttp2RequestFrame (sample_codec []) None [] [] (more_input (put_frame 6 0 0 [1, 2] @ [0, 0]) (new_conn () ())) =
     Inr (Some (w1, put_frame 6 0 0 [1, 2], None)) \<and> h2_reqBuf w1 = [0, 0]"
  using other_frames_unchanged [OF sample_ping, of "more_input (put_frame 6 0 0 [1, 2] @ [0, 0]) (new_conn () ())"
      "sample_codec []" None "[]" "[]"]
  by auto

theorem summaries_bounded_witness:
  "processHttp2RequestFrame (sample_codec []) None [] [] (new_conn () ()) = Inr (Some (new_conn () (), [], None)) \<and>
   observeHTTP2ResponseFrames (sample_codec []) [] (new_conn () ()) = Inr (new_conn () ()) \<and>
   length (h2_recentRequestSummaries (new_conn () ())) \<le> 128"
proof -
  have ok: "summaries_ok (new_conn () ())"
    by (simp add: summaries_ok_def new_conn_def)
  have pr: "processHttp2RequestFrame (sample_codec []) None [] [] (new_conn () ()) = Inr (Some (new_conn () (), [], None))"
    by (rule short_buffer_waits) simp
  have ob: "observeHTTP2ResponseFrames (sample_codec []) [] (new_conn () ()) = Inr (new_conn () ())"
    by (simp add: observeHTTP2ResponseFrames_def)
       (subst observe_loop.simps, simp add: observe_step_def tryExtractFrameFromBuf_def frameHeaderLen_def reading_def)
  show ?thesis using summaries_bounded [OF ok pr ob] pr ob by simp
qed

end
