(* ===== verification/Http1_Body.thy ===== *)
theory Http1_Body
  imports Netip Incremental
begin

text \<open>
  The HTTP/1 request body tracker of \<^verbatim>\<open>processor/watcher/http1_wrapper.go\<close>: where the body of a
  request ends, from its \<^verbatim>\<open>Content-Length\<close> or its chunked encoding, when the bytes arrive in
  pieces. The loops over an index into a slice are recursions over the bytes that remain; the
  index is their first argument. The 64-bit counters stay below the values they start from, so
  they are plain integers.
\<close>

section \<open>State\<close>

datatype http1BodyMode = http1BodyModeNone | http1BodyModeContentLength | http1BodyModeChunked

datatype http1ChunkPhase =
    http1ChunkPhaseSizeLine | http1ChunkPhaseData | http1ChunkPhaseDataCRLF | http1ChunkPhaseTrailers

record http1ChunkState =
  ck_phase :: http1ChunkPhase
  ck_lineBuf :: "byte list"
  ck_chunkRemaining :: int
  ck_crlfProgress :: nat

record http1BodyTracker =
  bt_mode :: http1BodyMode
  bt_remaining :: int
  bt_chunkState :: http1ChunkState

datatype body_error = InvalidSizeLine | BadChunkSize string | BadTerminator

text \<open>The values a \<^verbatim>\<open>consume\<close> method returns: the index, done, and the error.\<close>

type_synonym 's consumed = "'s \<times> nat \<times> bool \<times> body_error option"

text \<open>\<^verbatim>\<open>strconv.ParseInt(s, 16, 64)\<close>: an optional sign and hexadecimal digits within 64 bits.\<close>

definition ParseInt16 :: "string \<Rightarrow> int option" where
  "ParseInt16 s =
     (let neg = HasPrefix s ''-'';
          d = (if HasPrefix s ''-'' \<or> HasPrefix s ''+'' then drop 1 s else s);
          v = (if neg then - int (hex_value d) else int (hex_value d)) in
      if d \<noteq> [] \<and> list_all is_hex d \<and> - (2 ^ 63) \<le> v \<and> v < 2 ^ 63 then Some v else None)"

definition CR :: byte where "CR = 13"
definition LF :: byte where "LF = 10"

definition ends_crlf :: "byte list \<Rightarrow> bool" where
  "ends_crlf line \<longleftrightarrow> length line \<ge> 2 \<and> line ! (length line - 2) = CR \<and> line ! (length line - 1) = LF"

section \<open>The chunk state machine\<close>

text \<open>The end of a size line: the next phase, or the error.\<close>

definition parse_size_line :: "byte list \<Rightarrow> body_error + int" where
  "parse_size_line line =
     (let sizeLine = TrimSpace (string_of_bytes (take (length line - 2) line));
          sizeToken = TrimSpace (takeWhile (\<lambda>c. c \<noteq> CHR '';'') sizeLine) in
      if sizeToken = [] then Inl InvalidSizeLine
      else (case ParseInt16 sizeToken of None \<Rightarrow> Inl (BadChunkSize sizeToken) | Some csize \<Rightarrow> Inr csize))"

text \<open>The inner loop over the terminator of a chunk: the progress, the bytes taken, an error.\<close>

fun crlf_loop :: "nat \<Rightarrow> nat \<Rightarrow> byte list \<Rightarrow> nat \<times> nat \<times> byte list \<times> bool" where
  "crlf_loop idx progress [] = (progress, idx, [], False)"
| "crlf_loop idx progress (b # rest) =
     (if progress < 2 then
        (if b \<noteq> (if progress = 1 then LF else CR) then (progress, idx, b # rest, True)
         else crlf_loop (Suc idx) (Suc progress) rest)
      else (progress, idx, b # rest, False))"

lemma crlf_loop_length:
  "crlf_loop idx p bs = (q, j, rest, bad) \<Longrightarrow> length rest \<le> length bs"
  by (induction idx p bs arbitrary: q j rest bad rule: crlf_loop.induct)
     (fastforce split: if_splits)+

function chunk_loop :: "nat \<Rightarrow> byte list \<Rightarrow> http1ChunkState \<Rightarrow> http1ChunkState consumed" where
  "chunk_loop idx [] s = (s, idx, False, None)"
| "chunk_loop idx (b # rest) s =
     (case ck_phase s of
        http1ChunkPhaseSizeLine \<Rightarrow>
          let line = ck_lineBuf s @ [b] in
          if \<not> ends_crlf line then chunk_loop (Suc idx) rest (s\<lparr>ck_lineBuf := line\<rparr>)
          else
            let s1 = s\<lparr>ck_lineBuf := []\<rparr> in
            (case parse_size_line line of
               Inl e \<Rightarrow> (s1, Suc idx, False, Some e)
             | Inr csize \<Rightarrow>
                 if csize = 0 then chunk_loop (Suc idx) rest (s1\<lparr>ck_phase := http1ChunkPhaseTrailers\<rparr>)
                 else chunk_loop (Suc idx) rest
                   (s1\<lparr>ck_chunkRemaining := csize, ck_phase := http1ChunkPhaseData\<rparr>))
      | http1ChunkPhaseData \<Rightarrow>
          if ck_chunkRemaining s \<le> 0 then chunk_loop idx (b # rest) (s\<lparr>ck_phase := http1ChunkPhaseDataCRLF\<rparr>)
          else
            let toConsume = (if int (length (b # rest)) > ck_chunkRemaining s
                             then nat (ck_chunkRemaining s) else length (b # rest));
                remaining = ck_chunkRemaining s - int toConsume;
                s1 = s\<lparr>ck_chunkRemaining := remaining\<rparr> in
            chunk_loop (idx + toConsume) (drop toConsume (b # rest))
              (if remaining = 0 then s1\<lparr>ck_phase := http1ChunkPhaseDataCRLF\<rparr> else s1)
      | http1ChunkPhaseDataCRLF \<Rightarrow>
          (case crlf_loop idx (ck_crlfProgress s) (b # rest) of
             (progress, idx', rest', bad) \<Rightarrow>
               let s1 = s\<lparr>ck_crlfProgress := progress\<rparr> in
               if bad then (s1, idx', False, Some BadTerminator)
               else if progress < 2 then (s1, idx', False, None)
               else chunk_loop idx' rest'
                 (s1\<lparr>ck_crlfProgress := 0, ck_phase := http1ChunkPhaseSizeLine\<rparr>))
      | http1ChunkPhaseTrailers \<Rightarrow>
          let line = ck_lineBuf s @ [b] in
          if \<not> ends_crlf line then chunk_loop (Suc idx) rest (s\<lparr>ck_lineBuf := line\<rparr>)
          else if length line = 2 then (s\<lparr>ck_lineBuf := []\<rparr>, Suc idx, True, None)
          else chunk_loop (Suc idx) rest (s\<lparr>ck_lineBuf := []\<rparr>))"
  by pat_completeness auto
termination
proof (relation "measure (\<lambda>(idx, bs, s). 3 * length bs +
    (case ck_phase s of http1ChunkPhaseData \<Rightarrow> 2 | http1ChunkPhaseDataCRLF \<Rightarrow> 1 | _ \<Rightarrow> 0))", goal_cases)
qed (auto dest: crlf_loop_length [OF sym] split: if_splits)


declare chunk_loop.simps(2) [simp del]

definition Chunk_consume :: "byte list \<Rightarrow> http1ChunkState \<Rightarrow> http1ChunkState consumed" where
  "Chunk_consume data s = chunk_loop 0 data s"

section \<open>The tracker\<close>

definition zero_chunk_state :: http1ChunkState where
  "zero_chunk_state = \<lparr>ck_phase = http1ChunkPhaseSizeLine, ck_lineBuf = [], ck_chunkRemaining = 0, ck_crlfProgress = 0\<rparr>"

text \<open>From the transfer encodings and the content length of a request.\<close>

definition newHTTP1BodyTracker :: "string list \<Rightarrow> int \<Rightarrow> http1BodyTracker option" where
  "newHTTP1BodyTracker transferEncoding contentLength =
     (if transferEncoding \<noteq> [] \<and> EqualFold (last transferEncoding) ''chunked'' then
        Some \<lparr>bt_mode = http1BodyModeChunked, bt_remaining = 0, bt_chunkState = zero_chunk_state\<rparr>
      else if contentLength > 0 then
        Some \<lparr>bt_mode = http1BodyModeContentLength, bt_remaining = contentLength, bt_chunkState = zero_chunk_state\<rparr>
      else None)"

definition Tracker_consume :: "byte list \<Rightarrow> http1BodyTracker option \<Rightarrow> http1BodyTracker option consumed" where
  "Tracker_consume data t =
     (case t of
        None \<Rightarrow> (None, 0, True, None)
      | Some tr \<Rightarrow>
          if data = [] then (t, 0, False, None)
          else (case bt_mode tr of
             http1BodyModeContentLength \<Rightarrow>
               if bt_remaining tr \<le> 0 then (t, 0, True, None)
               else let n = (if int (length data) > bt_remaining tr then nat (bt_remaining tr) else length data);
                        remaining = bt_remaining tr - int n in
                    (Some (tr\<lparr>bt_remaining := remaining\<rparr>), n, remaining = 0, None)
           | http1BodyModeChunked \<Rightarrow>
               (case Chunk_consume data (bt_chunkState tr) of
                  (cs, n, fin, err) \<Rightarrow> (Some (tr\<lparr>bt_chunkState := cs\<rparr>), n, fin, err))
           | http1BodyModeNone \<Rightarrow> (t, 0, True, None)))"

text \<open>No more bytes are consumed than there are, whatever the state.\<close>

lemma crlf_loop_index: "crlf_loop idx p bs = (q, j, rest, bad) \<Longrightarrow> j + length rest = idx + length bs"
  by (induction idx p bs arbitrary: q j rest bad rule: crlf_loop.induct)
     (fastforce split: if_splits)+

lemma chunk_loop_bound: "chunk_loop idx bs s = (s1, n, d, e) \<Longrightarrow> n \<le> idx + length bs"
proof (induction idx bs s arbitrary: s1 n d e rule: chunk_loop.induct)
  case (2 idx b rest s)
  from "2.prems" show ?case
    using "2.IH" crlf_loop_index [of idx "ck_crlfProgress s" "b # rest"]
    by (subst (asm) chunk_loop.simps)
       (fastforce simp: Let_def split: http1ChunkPhase.splits if_splits sum.splits prod.splits)
qed simp

lemma Tracker_bound: "Tracker_consume data t = (t1, n, d, e) \<Longrightarrow> n \<le> length data"
  using chunk_loop_bound [of 0 data]
  by (fastforce simp: Tracker_consume_def Chunk_consume_def Let_def split: option.splits if_splits http1BodyMode.splits prod.splits)

section \<open>The reference: one byte at a time\<close>

datatype verdict = Go http1ChunkState | Stop http1ChunkState | Fail http1ChunkState nat body_error

text \<open>A chunk whose announced size is not positive has no data.\<close>

definition skip_empty :: "http1ChunkState \<Rightarrow> http1ChunkState" where
  "skip_empty s = (if ck_phase s = http1ChunkPhaseData \<and> ck_chunkRemaining s \<le> 0
                   then s\<lparr>ck_phase := http1ChunkPhaseDataCRLF\<rparr> else s)"

definition line_step :: "http1ChunkState \<Rightarrow> byte \<Rightarrow> (byte list \<Rightarrow> http1ChunkState \<Rightarrow> verdict) \<Rightarrow> verdict" where
  "line_step s b full =
     (let line = ck_lineBuf s @ [b] in
      if ends_crlf line then full line (s\<lparr>ck_lineBuf := []\<rparr>) else Go (s\<lparr>ck_lineBuf := line\<rparr>))"

definition byte_step :: "http1ChunkState \<Rightarrow> byte \<Rightarrow> verdict" where
  "byte_step s0 b =
     (let s = skip_empty s0 in
      case ck_phase s of
        http1ChunkPhaseSizeLine \<Rightarrow>
          line_step s b (\<lambda>line s1. case parse_size_line line of
              Inl e \<Rightarrow> Fail s1 1 e
            | Inr n \<Rightarrow> if n = 0 then Go (s1\<lparr>ck_phase := http1ChunkPhaseTrailers\<rparr>)
                       else Go (s1\<lparr>ck_chunkRemaining := n, ck_phase := http1ChunkPhaseData\<rparr>))
      | http1ChunkPhaseData \<Rightarrow>
          Go (s\<lparr>ck_chunkRemaining := ck_chunkRemaining s - 1,
               ck_phase := (if ck_chunkRemaining s = 1 then http1ChunkPhaseDataCRLF else http1ChunkPhaseData)\<rparr>)
      | http1ChunkPhaseDataCRLF \<Rightarrow>
          if ck_crlfProgress s = 0 then
            (if b = CR then Go (s\<lparr>ck_crlfProgress := 1\<rparr>) else Fail s 0 BadTerminator)
          else if b = LF then Go (s\<lparr>ck_crlfProgress := 0, ck_phase := http1ChunkPhaseSizeLine\<rparr>)
          else Fail s 0 BadTerminator
      | http1ChunkPhaseTrailers \<Rightarrow>
          line_step s b (\<lambda>line s1. if length line = 2 then Stop s1 else Go s1))"

fun chunk_run :: "nat \<Rightarrow> byte list \<Rightarrow> http1ChunkState \<Rightarrow> http1ChunkState consumed" where
  "chunk_run idx [] s = (s, idx, False, None)"
| "chunk_run idx (b # bs) s =
     (case byte_step s b of
        Go s' \<Rightarrow> chunk_run (Suc idx) bs s'
      | Stop s' \<Rightarrow> (s', Suc idx, True, None)
      | Fail s' k e \<Rightarrow> (s', idx + k, False, Some e))"

definition chunk_ok :: "http1ChunkState \<Rightarrow> bool" where
  "chunk_ok s \<longleftrightarrow> ck_crlfProgress s < 2"

lemma byte_step_ok: "chunk_ok s \<Longrightarrow> byte_step s b = Go s' \<Longrightarrow> chunk_ok s'"
  by (auto simp: chunk_ok_def byte_step_def skip_empty_def line_step_def Let_def
      split: if_splits http1ChunkPhase.splits sum.splits)

lemma skip_empty_idem [simp]: "skip_empty (skip_empty s) = skip_empty s"
  by (simp add: skip_empty_def)

lemma byte_step_skip: "byte_step (skip_empty s) b = byte_step s b"
  by (simp add: byte_step_def)

text \<open>A block of chunk data taken at once is that many single steps.\<close>

lemma chunk_run_data:
  assumes "ck_phase s = http1ChunkPhaseData" "0 < n" "int n \<le> ck_chunkRemaining s" "n \<le> length bs"
  shows "chunk_run idx bs s = chunk_run (idx + n) (drop n bs)
    (s\<lparr>ck_chunkRemaining := ck_chunkRemaining s - int n,
       ck_phase := (if ck_chunkRemaining s = int n then http1ChunkPhaseDataCRLF else http1ChunkPhaseData)\<rparr>)"
  using assms
proof (induction n arbitrary: s bs idx)
  case (Suc n)
  obtain b bs' where bs: "bs = b # bs'" using Suc.prems(4) by (cases bs) auto
  let ?s = "s\<lparr>ck_chunkRemaining := ck_chunkRemaining s - 1,
     ck_phase := (if ck_chunkRemaining s = 1 then http1ChunkPhaseDataCRLF else http1ChunkPhaseData)\<rparr>"
  have step: "chunk_run idx bs s = chunk_run (Suc idx) bs' ?s"
    using Suc.prems by (simp add: bs byte_step_def skip_empty_def)
  show ?case
  proof (cases "n = 0")
    case True then show ?thesis using step by (simp add: bs)
  next
    case False
    then have ph: "ck_phase ?s = http1ChunkPhaseData" "ck_chunkRemaining ?s = ck_chunkRemaining s - 1"
      using Suc.prems by auto
    show ?thesis
      using Suc.IH [of ?s bs' "Suc idx"] Suc.prems False ph step by (auto simp: bs diff_diff_eq)
  qed
qed simp

lemma crlf_loop_done: "2 \<le> p \<Longrightarrow> crlf_loop idx p bs = (p, idx, bs, False)"
  by (cases bs) auto

lemma chunk_run_cons_skip: "chunk_run idx (b # bs) (skip_empty s) = chunk_run idx (b # bs) s"
  by (simp add: byte_step_skip)

lemma chunk_run_crlf:
  assumes "chunk_ok s" "ck_phase s = http1ChunkPhaseDataCRLF"
    and "crlf_loop idx (ck_crlfProgress s) (b # rest) = (p, j, r, bad)"
  shows "chunk_run idx (b # rest) s =
    (if bad then (s\<lparr>ck_crlfProgress := p\<rparr>, j, False, Some BadTerminator)
     else if p < 2 then (s\<lparr>ck_crlfProgress := p\<rparr>, j, False, None)
     else chunk_run j r (s\<lparr>ck_crlfProgress := 0, ck_phase := http1ChunkPhaseSizeLine\<rparr>))"
proof (cases "ck_crlfProgress s = 0")
  case True
  show ?thesis
  proof (cases "b = CR")
    case b: True
    show ?thesis
      using assms True b
      by (cases rest) (auto simp: byte_step_def skip_empty_def crlf_loop_done split: if_splits)
  next
    case False
    then show ?thesis using assms True by (auto simp: byte_step_def skip_empty_def)
  qed
next
  case False
  then have "ck_crlfProgress s = 1" using assms(1) by (simp add: chunk_ok_def)
  then show ?thesis
    using assms by (auto simp: byte_step_def skip_empty_def crlf_loop_done split: if_splits)
qed

lemma chunk_loop_run:
  assumes "chunk_ok s"
  shows "chunk_loop idx bs s = chunk_run idx bs s"
  using assms
proof (induction idx bs s rule: chunk_loop.induct)
  case (2 idx b rest s)
  note loop = chunk_loop.simps(2) [of idx b rest s]
    consider (line) "ck_phase s = http1ChunkPhaseSizeLine" | (trailer) "ck_phase s = http1ChunkPhaseTrailers"
    | (empty) "ck_phase s = http1ChunkPhaseData" "ck_chunkRemaining s \<le> 0"
    | (data) "ck_phase s = http1ChunkPhaseData" "0 < ck_chunkRemaining s"
    | (crlf) "ck_phase s = http1ChunkPhaseDataCRLF"
    by (cases "ck_phase s") force+
  then show ?case
  proof cases
    case line
    note ih = 2(1) [OF line refl] 2(2) [OF line refl _ refl] 2(3) [OF line refl _ refl]
    show ?thesis
      unfolding loop using ih "2.prems" line
      by (auto simp: byte_step_def skip_empty_def line_step_def chunk_ok_def Let_def split: sum.splits)
  next
    case trailer
    note ih = 2(7) [OF trailer refl] 2(8) [OF trailer refl]
    show ?thesis
      unfolding loop using ih "2.prems" trailer
      by (auto simp: byte_step_def skip_empty_def line_step_def chunk_ok_def Let_def)
  next
    case empty
    then have "skip_empty s = s\<lparr>ck_phase := http1ChunkPhaseDataCRLF\<rparr>" by (simp add: skip_empty_def)
    then show ?thesis
      using 2(4) "2.prems" empty chunk_run_cons_skip [of idx b rest s]
      by (simp add: loop chunk_ok_def del: chunk_run.simps)
  next
    case data
    let ?n = "if int (length (b # rest)) > ck_chunkRemaining s then nat (ck_chunkRemaining s) else length (b # rest)"
    have n: "0 < ?n" "int ?n \<le> ck_chunkRemaining s" "?n \<le> length (b # rest)"
      using data by auto
    have s1: "chunk_run idx (b # rest) s = chunk_run (idx + ?n) (drop ?n (b # rest))
        (if ck_chunkRemaining s - int ?n = 0
         then s\<lparr>ck_chunkRemaining := ck_chunkRemaining s - int ?n, ck_phase := http1ChunkPhaseDataCRLF\<rparr>
         else s\<lparr>ck_chunkRemaining := ck_chunkRemaining s - int ?n\<rparr>)"
      using chunk_run_data [OF data(1) n, of idx] data(1) by (cases s) (simp split: if_splits)
    have "\<not> ck_chunkRemaining s \<le> 0" using data by simp
    note ih = 2(5) [OF data(1) this refl refl refl]
    have "chunk_loop idx (b # rest) s = chunk_loop (idx + ?n) (drop ?n (b # rest))
        (if ck_chunkRemaining s - int ?n = 0
         then s\<lparr>ck_chunkRemaining := ck_chunkRemaining s - int ?n, ck_phase := http1ChunkPhaseDataCRLF\<rparr>
         else s\<lparr>ck_chunkRemaining := ck_chunkRemaining s - int ?n\<rparr>)"
      using data by (simp only: loop http1ChunkPhase.case Let_def linorder_not_le [symmetric] if_False)
    also have "\<dots> = chunk_run idx (b # rest) s"
      unfolding s1 by (rule ih) (use "2.prems" in \<open>simp add: chunk_ok_def\<close>)
    finally show ?thesis .
  next
    case crlf
    obtain p j r bad where cl: "crlf_loop idx (ck_crlfProgress s) (b # rest) = (p, j, r, bad)"
      by (metis prod_cases4)
    show ?thesis
      unfolding loop chunk_run_crlf [OF "2.prems" crlf cl] cl
      using 2(6) [OF crlf cl [symmetric] refl refl refl] "2.prems" crlf
      by (simp add: Let_def chunk_ok_def)
  qed
qed simp

section \<open>Splitting the input\<close>

lemma chunk_run_shift:
  "chunk_run (idx + k) bs s = (case chunk_run k bs s of (s', n, d, e) \<Rightarrow> (s', idx + n, d, e))"
  by (induction k bs s rule: chunk_run.induct) (auto split: verdict.splits)

lemma chunk_run_append:
  assumes "chunk_run idx a s = (s1, n, d, e)"
  shows "chunk_run idx (a @ b) s = (if d \<or> e \<noteq> None then (s1, n, d, e) else chunk_run n b s1)"
  using assms by (induction idx a s rule: chunk_run.induct) (auto split: verdict.splits)

lemma chunk_run_ok:
  "chunk_run idx a s = (s1, n, False, None) \<Longrightarrow> chunk_ok s \<Longrightarrow> chunk_ok s1 \<and> n = idx + length a"
  by (induction idx a s rule: chunk_run.induct) (auto split: verdict.splits dest: byte_step_ok)

lemma chunk_run_bound: "chunk_run idx a s = (s1, n, d, e) \<Longrightarrow> n \<le> idx + length a"
proof (induction idx a s rule: chunk_run.induct)
  case (2 idx b bs s)
  have "k \<le> 1" if "byte_step s b = Fail s' k e'" for s' k e'
    using that by (auto simp: byte_step_def line_step_def Let_def split: if_splits http1ChunkPhase.splits sum.splits)
  with 2 show ?case by (auto split: verdict.splits)
qed simp

text \<open>
  The calls of one request body: pieces are consumed until the tracker is done or fails. The
  result is the number of bytes consumed in all, whether the body is complete, and the error.
\<close>

definition chunk_feed :: "http1ChunkState consumed \<Rightarrow> byte list \<Rightarrow> http1ChunkState consumed" where
  "chunk_feed r p =
     (case r of (s, n, d, e) \<Rightarrow>
        if d \<or> e \<noteq> None then r else (case Chunk_consume p s of (s1, k, d1, e1) \<Rightarrow> (s1, n + k, d1, e1)))"

definition feed :: "byte list list \<Rightarrow> http1ChunkState \<Rightarrow> nat \<times> bool \<times> body_error option" where
  "feed ps s = snd (foldl chunk_feed (s, 0, False, None) ps)"

fun feed_ok :: "http1ChunkState consumed \<Rightarrow> bool" where
  "feed_ok (s, n, d, e) \<longleftrightarrow> d \<or> e \<noteq> None \<or> chunk_ok s"

lemma chunk_feed_run:
  "feed_ok (s, n, d, e) \<Longrightarrow> chunk_feed (s, n, d, e) p = (if d \<or> e \<noteq> None then (s, n, d, e) else chunk_run n p s)"
  using chunk_run_shift [of n 0 p s] by (auto simp: chunk_feed_def Chunk_consume_def chunk_loop_run split: prod.splits)

interpretation chunked: incremental feed_ok chunk_feed
proof
  fix r :: "http1ChunkState consumed" and a b
  assume ok: "feed_ok r"
  obtain s n d e where r: "r = (s, n, d, e)" by (metis prod_cases4)
  show "chunk_feed r [] = r" using ok by (simp add: r chunk_feed_run)
  obtain s1 n1 d1 e1 where run: "chunk_run n a s = (s1, n1, d1, e1)" by (metis prod_cases4)
  show "feed_ok (chunk_feed r a)"
    using ok chunk_run_ok [of n a s s1 n1] run by (cases d1; cases e1) (auto simp: r chunk_feed_run)
  then show "chunk_feed (chunk_feed r a) b = chunk_feed r (a @ b)"
    using ok run chunk_run_append [OF run, of b] by (auto simp: r chunk_feed_run)
qed

lemma feed_concat:
  assumes "chunk_ok s"
  shows "feed ps s = (case chunk_run 0 (concat ps) s of (s1, n, d, e) \<Rightarrow> (n, d, e))"
  using assms chunked.feed_pieces [of "(s, 0, False, None)" ps] by (simp add: feed_def chunk_feed_run split: prod.split)

section \<open>Well-formed bodies\<close>

lemma trim_right_append: "\<exists>x \<in> set ys. \<not> P x \<Longrightarrow> trim_right P (xs @ ys) = xs @ trim_right P ys"
  by (auto simp: trim_right_def dropWhile_append1)

lemma trim_right_Cons: "\<not> P c \<Longrightarrow> \<exists>r. trim_right P (c # e) = c # r"
  by (auto simp: trim_right_def dropWhile_append intro: exI [of _ "rev (dropWhile P (rev e))"])

lemma hex_digit_char: "n < 16 \<Longrightarrow> hex_digit (hex_char n) = Some n"
  by (auto simp: hex_digit_def hex_char_def Let_def)

lemma hex_value_append: "hex_value (s @ [c]) = 16 * hex_value s + the (hex_digit c)"
  by (simp add: hex_value_def)

lemma hex_of_value: "hex_value (hex_of n) = n"
proof (induction n rule: less_induct)
  case (less n)
  show ?case
  proof (cases "n < 16")
    case True then show ?thesis by (simp add: hex_of.simps [of n] hex_digit_char hex_value_def)
  next
    case False
    then have "hex_value (hex_of (n div 16)) = n div 16" by (intro less.IH) simp
    then show ?thesis using False
      by (subst hex_of.simps) (simp add: hex_value_append hex_digit_char)
  qed
qed

lemma is_hex_char: "n < 16 \<Longrightarrow> is_hex (hex_char n)"
  by (simp add: is_hex_def hex_digit_char)

lemma hex_of_hex: "list_all is_hex (hex_of n)"
proof (induction n rule: less_induct)
  case (less n)
  show ?case
    using less [of "n div 16"] by (subst hex_of.simps) (simp add: is_hex_char)
qed

lemma hex_of_not_Nil [simp]: "hex_of n \<noteq> []"
  by (subst hex_of.simps) simp

lemma is_hex_plain: "is_hex c \<Longrightarrow> \<not> is_space c \<and> c \<noteq> CHR '';'' \<and> c \<noteq> CHR ''-'' \<and> c \<noteq> CHR ''+'' \<and> of_char c \<noteq> (10 :: nat)"
  by (auto simp: is_hex_def hex_digit_def is_space_def Let_def split: if_splits)

lemma ParseInt16_hex_of:
  assumes "n < 2 ^ 63"
  shows "ParseInt16 (hex_of n) = Some (int n)"
proof -
  obtain c cs where h: "hex_of n = c # cs" by (cases "hex_of n") auto
  then have "c \<noteq> CHR ''-''" "c \<noteq> CHR ''+''" using hex_of_hex [of n] is_hex_plain [of c] by auto
  then show ?thesis
    using assms hex_of_hex [of n] hex_of_value [of n] by (simp add: ParseInt16_def Let_def h)
qed

text \<open>A chunk extension: nothing, or text after a semicolon on the same line.\<close>

definition extension_ok :: "string \<Rightarrow> bool" where
  "extension_ok ext \<longleftrightarrow> (ext = [] \<or> hd ext = CHR '';'') \<and> LF \<notin> set (bytes_of_string ext)"

definition put_chunk :: "string \<times> byte list \<Rightarrow> byte list" where
  "put_chunk c = bytes_of_string (hex_of (length (snd c)) @ fst c) @ [CR, LF] @ snd c @ [CR, LF]"

definition put_trailer :: "byte list \<Rightarrow> byte list" where
  "put_trailer t = t @ [CR, LF]"

definition put_chunked :: "(string \<times> byte list) list \<Rightarrow> string \<Rightarrow> byte list list \<Rightarrow> byte list" where
  "put_chunked cs last_ext ts =
     concat (map put_chunk cs) @ bytes_of_string (hex_of 0 @ last_ext) @ [CR, LF] @
     concat (map put_trailer ts) @ [CR, LF]"

lemma parse_size_line_put:
  assumes "extension_ok ext" "n < 2 ^ 63"
  shows "parse_size_line (bytes_of_string (hex_of n @ ext) @ [CR, LF]) = Inr (int n)"
proof -
  have plain: "\<forall>c \<in> set (hex_of n). \<not> is_space c \<and> c \<noteq> CHR '';''"
    using hex_of_hex [of n] is_hex_plain by (auto simp: list_all_iff)
  have ends: "\<not> is_space (hd (hex_of n))" "\<not> is_space (last (hex_of n))"
    using plain by auto
  have "takeWhile (\<lambda>c. c \<noteq> CHR '';'') (TrimSpace (hex_of n @ ext)) = hex_of n"
  proof (cases ext)
    case Nil
    then have "TrimSpace (hex_of n @ ext) = hex_of n"
      using ends by (simp add: TrimSpace_def TrimFunc_id)
    then show ?thesis using plain by (simp add: takeWhile_eq_all_conv)
  next
    case (Cons c e)
    then have c: "c = CHR '';''" using assms(1) by (simp add: extension_ok_def)
    have "trim_left is_space (hex_of n @ ext) = hex_of n @ ext"
      by (rule trim_left_id) (use ends in simp)
    then have "TrimSpace (hex_of n @ ext) = hex_of n @ trim_right is_space (c # e)"
      using trim_right_append [of "c # e" is_space "hex_of n"] Cons c
      by (simp add: TrimSpace_def TrimFunc_def is_space_def)
    moreover obtain r where "trim_right is_space (c # e) = c # r"
      using trim_right_Cons [of is_space c e] c by (auto simp: is_space_def)
    ultimately show ?thesis using plain c by (simp add: takeWhile_append2)
  qed
  moreover have "TrimSpace (hex_of n) = hex_of n" using ends by (simp add: TrimSpace_def TrimFunc_id)
  moreover have "take (length (bytes_of_string (hex_of n @ ext) @ [CR, LF]) - 2)
      (bytes_of_string (hex_of n @ ext) @ [CR, LF]) = bytes_of_string (hex_of n @ ext)" by simp
  ultimately show ?thesis
    unfolding parse_size_line_def Let_def using ParseInt16_hex_of [OF assms(2)] by (simp del: length_append)
qed

lemma line_run:
  assumes "ck_phase s \<in> {http1ChunkPhaseSizeLine, http1ChunkPhaseTrailers}" "LF \<notin> set l"
  shows "chunk_run idx (l @ rest) s = chunk_run (idx + length l) rest (s\<lparr>ck_lineBuf := ck_lineBuf s @ l\<rparr>)"
  using assms
proof (induction l arbitrary: s idx)
  case (Cons b l)
  have "\<not> ends_crlf (ck_lineBuf s @ [b])" using Cons.prems(2) by (auto simp: ends_crlf_def)
  then have "byte_step s b = Go (s\<lparr>ck_lineBuf := ck_lineBuf s @ [b]\<rparr>)"
    using Cons.prems(1) by (auto simp: byte_step_def skip_empty_def line_step_def)
  then show ?case using Cons.IH [of "s\<lparr>ck_lineBuf := ck_lineBuf s @ [b]\<rparr>" "Suc idx"] Cons.prems by simp
qed simp

lemma CR_not_LF [simp]: "CR \<noteq> LF" "LF \<noteq> CR"
  by (simp_all add: CR_def LF_def)

lemma ends_crlf_line: "ends_crlf (l @ [CR, LF])"
  by (simp add: ends_crlf_def nth_append)

text \<open>A whole line.\<close>

lemma full_line_run:
  assumes "ck_phase s \<in> {http1ChunkPhaseSizeLine, http1ChunkPhaseTrailers}" "LF \<notin> set l" "ck_lineBuf s = []"
  shows "chunk_run idx (l @ [CR, LF] @ rest) s =
    chunk_run (idx + length l + 1) (LF # rest) (s\<lparr>ck_lineBuf := l @ [CR]\<rparr>)"
  using line_run [of s "l @ [CR]" idx "LF # rest"] assms by (simp add: add.commute)

lemma LF_bytes: "LF \<in> set (bytes_of_string t) \<longleftrightarrow> (\<exists>c \<in> set t. of_char c = (10 :: nat))"
proof -
  have "(LF = word_of_nat (of_char c)) = (of_char c = (10 :: nat))" for c
  proof
    assume "LF = word_of_nat (of_char c)"
    then have "unat LF = unat (word_of_nat (of_char c) :: byte)" by simp
    then show "of_char c = (10 :: nat)"
      using of_char_less [of c] by (simp add: LF_def unsigned_of_nat take_bit_eq_mod)
  qed (simp add: LF_def)
  then show ?thesis by (auto simp: bytes_of_string_def)
qed

lemma size_line_plain: "extension_ok ext \<Longrightarrow> LF \<notin> set (bytes_of_string (hex_of n @ ext))"
  using hex_of_hex [of n] is_hex_plain by (auto simp: LF_bytes extension_ok_def list_all_iff)

lemma size_line_run:
  assumes "ck_phase s = http1ChunkPhaseSizeLine" "ck_lineBuf s = []" "extension_ok ext" "n < 2 ^ 63"
  shows "chunk_run idx (bytes_of_string (hex_of n @ ext) @ [CR, LF] @ rest) s =
    chunk_run (idx + length (hex_of n @ ext) + 2) rest
      (if n = 0 then s\<lparr>ck_phase := http1ChunkPhaseTrailers\<rparr>
       else s\<lparr>ck_chunkRemaining := int n, ck_phase := http1ChunkPhaseData\<rparr>)"
proof -
  let ?l = "bytes_of_string (hex_of n @ ext)"
  have "byte_step (s\<lparr>ck_lineBuf := ?l @ [CR]\<rparr>) LF =
      Go (if n = 0 then s\<lparr>ck_phase := http1ChunkPhaseTrailers\<rparr>
          else s\<lparr>ck_chunkRemaining := int n, ck_phase := http1ChunkPhaseData\<rparr>)"
    using assms parse_size_line_put [OF assms(3,4)] ends_crlf_line [of ?l]
    by (cases s) (simp add: byte_step_def skip_empty_def line_step_def)
  then show ?thesis
    using full_line_run [of s ?l idx rest] assms(1,2) size_line_plain [OF assms(3), of n] by simp
qed

lemma chunk_data_run:
  assumes "ck_phase s = http1ChunkPhaseData" "ck_chunkRemaining s = int (length d)" "d \<noteq> []" "ck_crlfProgress s = 0"
  shows "chunk_run idx (d @ [CR, LF] @ rest) s =
    chunk_run (idx + length d + 2) rest (s\<lparr>ck_chunkRemaining := 0, ck_phase := http1ChunkPhaseSizeLine\<rparr>)"
proof -
  have "chunk_run idx (d @ [CR, LF] @ rest) s = chunk_run (idx + length d) ([CR, LF] @ rest)
      (s\<lparr>ck_chunkRemaining := 0, ck_phase := http1ChunkPhaseDataCRLF\<rparr>)"
    using chunk_run_data [OF assms(1), of "length d" "d @ [CR, LF] @ rest" idx] assms(2,3) by simp
  also have "\<dots> = chunk_run (idx + length d + 2) rest (s\<lparr>ck_chunkRemaining := 0, ck_phase := http1ChunkPhaseSizeLine\<rparr>)"
    using assms(4) by (cases s) (simp add: byte_step_def skip_empty_def)
  finally show ?thesis .
qed

lemma chunks_run:
  assumes "\<forall>c \<in> set cs. extension_ok (fst c) \<and> snd c \<noteq> [] \<and> length (snd c) < 2 ^ 63"
    and "ck_phase s = http1ChunkPhaseSizeLine" "ck_lineBuf s = []" "ck_crlfProgress s = 0" "ck_chunkRemaining s = 0"
  shows "chunk_run idx (concat (map put_chunk cs) @ rest) s = chunk_run (idx + length (concat (map put_chunk cs))) rest s"
  using assms
proof (induction cs arbitrary: idx)
  case (Cons c cs)
  obtain ext d where c: "c = (ext, d)" by (cases c)
  let ?more = "concat (map put_chunk cs) @ rest"
  let ?s = "s\<lparr>ck_chunkRemaining := int (length d), ck_phase := http1ChunkPhaseData\<rparr>"
  have ok: "extension_ok ext" "d \<noteq> []" "length d < 2 ^ 63" using Cons.prems(1) by (simp_all add: c)
  have "chunk_run idx (put_chunk c @ ?more) s =
      chunk_run (idx + length (hex_of (length d) @ ext) + 2) (d @ [CR, LF] @ ?more) ?s"
    using size_line_run [OF Cons.prems(2,3) ok(1,3), of idx "d @ [CR, LF] @ ?more"] ok(2)
    by (simp add: put_chunk_def c)
  also have "\<dots> = chunk_run (idx + length (put_chunk c)) ?more s"
    using chunk_data_run [of ?s d _ ?more] ok(2) Cons.prems
    by (cases s) (simp add: put_chunk_def c add.assoc)
  finally show ?case using Cons.IH Cons.prems by (simp add: add.assoc)
qed simp

lemma trailers_run:
  assumes "\<forall>t \<in> set ts. t \<noteq> [] \<and> LF \<notin> set t" "ck_phase s = http1ChunkPhaseTrailers" "ck_lineBuf s = []"
  shows "chunk_run idx (concat (map put_trailer ts) @ [CR, LF] @ rest) s =
    (s, idx + length (concat (map put_trailer ts)) + 2, True, None)"
  using assms
proof (induction ts arbitrary: idx)
  case Nil
  then show ?case using full_line_run [of s "[]" idx rest]
    by (cases s) (simp add: byte_step_def skip_empty_def line_step_def ends_crlf_def)
next
  case (Cons t ts)
  let ?more = "concat (map put_trailer ts) @ [CR, LF] @ rest"
  have "byte_step (s\<lparr>ck_lineBuf := t @ [CR]\<rparr>) LF = Go s"
    using Cons.prems ends_crlf_line [of t] by (cases s) (simp add: byte_step_def skip_empty_def line_step_def)
  then have "chunk_run idx (t @ [CR, LF] @ ?more) s = chunk_run (idx + length t + 2) ?more s"
    using full_line_run [of s t idx ?more] Cons.prems by simp
  then show ?case using Cons.IH Cons.prems by (simp add: put_trailer_def [of t] add.assoc)
qed

lemma put_chunked_run:
  assumes "\<forall>c \<in> set cs. extension_ok (fst c) \<and> snd c \<noteq> [] \<and> length (snd c) < 2 ^ 63"
    and "extension_ok last_ext" "\<forall>t \<in> set ts. t \<noteq> [] \<and> LF \<notin> set t"
  shows "\<exists>s. chunk_run 0 (put_chunked cs last_ext ts @ junk) zero_chunk_state =
    (s, length (put_chunked cs last_ext ts), True, None)"
proof -
  let ?z = zero_chunk_state
  let ?tail = "concat (map put_trailer ts) @ [CR, LF] @ junk"
  have z: "ck_phase ?z = http1ChunkPhaseSizeLine" "ck_lineBuf ?z = []" "ck_crlfProgress ?z = 0" "ck_chunkRemaining ?z = 0"
    by (simp_all add: zero_chunk_state_def)
  have "chunk_run 0 (put_chunked cs last_ext ts @ junk) ?z =
      chunk_run (length (concat (map put_chunk cs))) (bytes_of_string (hex_of 0 @ last_ext) @ [CR, LF] @ ?tail) ?z"
    using chunks_run [OF assms(1) z, of 0] by (simp add: put_chunked_def)
  also have "\<dots> = chunk_run (length (concat (map put_chunk cs)) + length (hex_of 0 @ last_ext) + 2) ?tail
      (?z\<lparr>ck_phase := http1ChunkPhaseTrailers\<rparr>)"
    by (subst size_line_run [OF z(1,2) assms(2)]) simp_all
  also have "\<dots> = (?z\<lparr>ck_phase := http1ChunkPhaseTrailers\<rparr>, length (put_chunked cs last_ext ts), True, None)"
    by (subst trailers_run [OF assms(3)]) (simp_all add: z put_chunked_def)
  finally show ?thesis by blast
qed

lemma zero_ok [simp]: "chunk_ok zero_chunk_state"
  by (simp add: chunk_ok_def zero_chunk_state_def)

section \<open>Properties\<close>

text \<open>
  Where a chunked body ends does not depend on how its bytes arrive: feeding any pieces one
  after the other gives the verdict, the error and the number of bytes that one call on all of
  them gives, which are those of the byte-at-a-time reference machine; and no more bytes are
  consumed than there are. The loop terminates on every input.
\<close>

theorem chunk_split_invariant:
  "feed ps zero_chunk_state = (case Chunk_consume (concat ps) zero_chunk_state of (s, n, d, e) \<Rightarrow> (n, d, e)) \<and>
   Chunk_consume (concat ps) zero_chunk_state = chunk_run 0 (concat ps) zero_chunk_state \<and>
   fst (feed ps zero_chunk_state) \<le> length (concat ps)"
proof -
  obtain s n d e where r: "chunk_run 0 (concat ps) zero_chunk_state = (s, n, d, e)" by (metis prod_cases4)
  then show ?thesis
    using feed_concat [of zero_chunk_state ps] chunk_run_bound [OF r]
    by (simp add: Chunk_consume_def chunk_loop_run)
qed

text \<open>
  The end of a well-formed chunked body is found exactly: with any chunk extensions and any
  trailer lines, followed by anything at all (the next pipelined request, say) and cut into any
  pieces, the tracker consumes the bytes of the body and not one more, and reports it complete.
\<close>

theorem chunked_body_exact:
  assumes "\<forall>c \<in> set cs. extension_ok (fst c) \<and> snd c \<noteq> [] \<and> length (snd c) < 2 ^ 63"
    and "extension_ok last_ext" "\<forall>t \<in> set ts. t \<noteq> [] \<and> LF \<notin> set t"
    and "concat ps = put_chunked cs last_ext ts @ junk"
  shows "feed ps zero_chunk_state = (length (put_chunked cs last_ext ts), True, None)"
  using put_chunked_run [OF assms(1-3), of junk] assms(4) feed_concat [of zero_chunk_state ps] by auto

definition sample_body :: "byte list" where
  "sample_body = put_chunked [('';x=1'', [1, 2, 10])] [] [[65, 58, 66]]"

theorem chunked_body_exact_witness:
  "feed [take 4 sample_body, drop 4 sample_body @ [71, 69]] zero_chunk_state = (length sample_body, True, None)"
  unfolding sample_body_def
proof (rule chunked_body_exact)
  show "\<forall>c \<in> set [('';x=1'', [1, 2, 10 :: byte])]. extension_ok (fst c) \<and> snd c \<noteq> [] \<and> length (snd c) < 2 ^ 63"
    by (simp add: extension_ok_def LF_bytes)
  show "extension_ok []" by (simp add: extension_ok_def bytes_of_string_def)
  show "\<forall>t \<in> set [[65, 58, 66 :: byte]]. t \<noteq> [] \<and> LF \<notin> set t" by (simp add: LF_def)
  show "concat [take 4 (put_chunked [('';x=1'', [1, 2, 10])] [] [[65, 58, 66]]),
      drop 4 (put_chunked [('';x=1'', [1, 2, 10])] [] [[65, 58, 66]]) @ [71, 69]] =
      put_chunked [('';x=1'', [1, 2, 10])] [] [[65, 58, 66]] @ [71, 69]"
    by (simp only: concat.simps append_Nil2 append_assoc [symmetric] append_take_drop_id)
qed

text \<open>
  A negative chunk size is accepted, as a chunk without data, where a recipient that follows
  RFC 9112 rejects the message.
\<close>

lemma negative_chunk_accepted:
  "\<exists>s. Chunk_consume (bytes_of_string ''-5'' @ [CR, LF, CR, LF]) zero_chunk_state = (s, 6, False, None)"
proof -
  have "parse_size_line (bytes_of_string ''-5'' @ [CR, LF]) = Inr (- 5)"
    by code_simp
  then show ?thesis
    unfolding Chunk_consume_def chunk_loop_run [OF zero_ok]
    by (simp add: byte_step_def skip_empty_def line_step_def ends_crlf_def
        zero_chunk_state_def bytes_of_string_def CR_def LF_def)
qed

end
