(* ===== verification/Protocol_Sniff.thy ===== *)
theory Protocol_Sniff
  imports Netip
begin

text \<open>
  Which protocol a decrypted client connection speaks, \<^verbatim>\<open>classifyBufferedProtocol\<close> of
  \<^verbatim>\<open>processor/watcher/wrapped_tls_watcher.go\<close>: decided from the bytes buffered so far, or not yet
  decided. The theory proves that a decision is never revised when more bytes arrive.
\<close>

section \<open>The classification\<close>

datatype proto = Http2 | Http1 | Passthrough

definition http1Methods :: "string list" where
  "http1Methods = [''GET'', ''POST'', ''PUT'', ''HEAD'', ''PATCH'', ''DELETE'', ''OPTIONS'', ''CONNECT'', ''TRACE'']"

text \<open>\<^verbatim>\<open>http2.ClientPreface\<close>, \<^verbatim>\<open>"PRI * HTTP/2.0\r\n\r\nSM\r\n\r\n"\<close>.\<close>

definition ClientPreface :: "byte list" where
  "ClientPreface = bytes_of_string ''PRI * HTTP/2.0'' @ [13, 10, 13, 10] @ bytes_of_string ''SM'' @ [13, 10, 13, 10]"

text \<open>
  \<^verbatim>\<open>strings.ToUpper\<close> on bytes. Two characters outside ASCII have an ASCII capital: U+0131, the bytes
  C4 B1, is written I, and U+017F, the bytes C5 BF, is written S. The others become characters
  outside ASCII, which no method name contains; their bytes stay here.
\<close>

definition upper_byte :: "byte \<Rightarrow> byte" where
  "upper_byte b = (if 97 \<le> b \<and> b \<le> 122 then b - 32 else b)"

fun upper_bytes :: "byte list \<Rightarrow> byte list" where
  "upper_bytes [] = []"
| "upper_bytes [b] = [upper_byte b]"
| "upper_bytes (a # b # s) =
     (if a = 0xC4 \<and> b = 0xB1 then 0x49 # upper_bytes s
      else if a = 0xC5 \<and> b = 0xBF then 0x53 # upper_bytes s
      else upper_byte a # upper_bytes (b # s))"

text \<open>The loop over the methods: the values it returns, or \<^const>\<open>None\<close> when it runs to its end.\<close>

fun method_loop :: "byte list \<Rightarrow> string list \<Rightarrow> proto option option" where
  "method_loop upperPrefix [] = None"
| "method_loop upperPrefix (method # methods) =
     (if HasPrefix upperPrefix (bytes_of_string (method @ '' '')) then Some (Some Http1)
      else if HasPrefix (bytes_of_string method) upperPrefix then Some None
      else method_loop upperPrefix methods)"

definition classifyBufferedProtocol :: "byte list \<Rightarrow> proto option" where
  "classifyBufferedProtocol buf =
     (if buf = [] then None
      else if length ClientPreface \<le> length buf \<and> ClientPreface = take (length ClientPreface) buf then Some Http2
      else if length buf < length ClientPreface \<and> take (length buf) ClientPreface = buf then None
      else (case method_loop (upper_bytes buf) http1Methods of
              Some r \<Rightarrow> r
            | None \<Rightarrow> if length buf < length ClientPreface then None else Some Passthrough))"

section \<open>Decisions are stable\<close>

definition ascii :: "byte list \<Rightarrow> bool" where
  "ascii t \<longleftrightarrow> list_all (\<lambda>b. b < 128) t"

lemma upper_length: "length buf \<le> 2 * length (upper_bytes buf)"
  by (induction buf rule: upper_bytes.induct) auto

lemma upper_byte_high: "upper_byte b < 128 \<Longrightarrow> b < 128"
  by (auto simp: upper_byte_def split: if_splits elim: le_less_trans)

lemma upper_append:
  "ascii t \<Longrightarrow> HasPrefix (upper_bytes buf) t \<Longrightarrow> HasPrefix (upper_bytes (buf @ more)) t"
proof (induction buf arbitrary: t rule: upper_bytes.induct)
  case (2 b)
  then show ?case
    by (cases more; cases t) (auto simp: HasPrefix_def ascii_def dest!: upper_byte_high)
next
  case (3 a b s)
  then show ?case
    by (cases t) (auto simp: HasPrefix_def ascii_def)
qed (simp add: HasPrefix_def)

lemma upper_shrink:
  "2 * length t \<le> length buf \<Longrightarrow> HasPrefix (upper_bytes (buf @ more)) t \<Longrightarrow> HasPrefix (upper_bytes buf) t"
proof (induction buf arbitrary: t rule: upper_bytes.induct)
  case (2 b)
  then show ?case by (cases t) (auto simp: HasPrefix_def)
next
  case (3 a b s)
  then show ?case
    by (cases t) (auto simp: HasPrefix_def split: if_splits)
qed (simp_all add: HasPrefix_def)

text \<open>A method name is short and holds no space.\<close>

definition method_ok :: "string \<Rightarrow> bool" where
  "method_ok m \<longleftrightarrow> length m < 8 \<and> 32 \<notin> set (bytes_of_string m) \<and> ascii (bytes_of_string (m @ '' ''))"

lemma http1_methods_ok: "list_all method_ok http1Methods"
  by code_simp

lemma preface_length: "length ClientPreface = 24"
  by (simp add: ClientPreface_def)

lemma space_in_prefix: "HasPrefix u (bytes_of_string (m @ '' '')) \<Longrightarrow> HasPrefix t u \<Longrightarrow> 32 \<in> set t"
proof -
  assume u: "HasPrefix u (bytes_of_string (m @ '' ''))" and t: "HasPrefix t u"
  have "32 \<in> set (bytes_of_string (m @ '' ''))" by (simp add: bytes_of_string_def of_char_def)
  also have "\<dots> \<subseteq> set u" using u set_take_subset unfolding HasPrefix_def by metis
  also have "\<dots> \<subseteq> set t" using t set_take_subset unfolding HasPrefix_def by metis
  finally show ?thesis .
qed

lemma method_loop_found:
  assumes "list_all method_ok ms" "m \<in> set ms" "HasPrefix u (bytes_of_string (m @ '' ''))"
  shows "method_loop u ms = Some (Some Http1)"
  using assms space_in_prefix [OF assms(3)] by (induction ms) (auto simp: method_ok_def)

lemma method_loop_Http1:
  "method_loop u ms = Some (Some p) \<Longrightarrow> p = Http1 \<and> (\<exists>m \<in> set ms. HasPrefix u (bytes_of_string (m @ '' '')))"
  by (induction ms) (auto split: if_splits)

lemma method_loop_end:
  "method_loop u ms = None \<longleftrightarrow>
    (\<forall>m \<in> set ms. \<not> HasPrefix u (bytes_of_string (m @ '' '')) \<and> \<not> HasPrefix (bytes_of_string m) u)"
  by (induction ms) auto

lemma classify_Http1_stable:
  assumes "method_loop (upper_bytes buf) http1Methods = Some (Some p)"
  shows "method_loop (upper_bytes (buf @ more)) http1Methods = Some (Some p)"
proof -
  obtain m where m: "p = Http1" "m \<in> set http1Methods" "HasPrefix (upper_bytes buf) (bytes_of_string (m @ '' ''))"
    using method_loop_Http1 [OF assms] by blast
  have "ascii (bytes_of_string (m @ '' ''))"
    using http1_methods_ok m(2) by (auto simp: list_all_iff method_ok_def)
  then show ?thesis
    using method_loop_found [OF http1_methods_ok m(2) upper_append] m by blast
qed

lemma classify_end_stable:
  assumes "method_loop (upper_bytes buf) http1Methods = None" "24 \<le> length buf"
  shows "method_loop (upper_bytes (buf @ more)) http1Methods = None"
proof -
  have "\<not> HasPrefix (upper_bytes (buf @ more)) (bytes_of_string (m @ '' '')) \<and>
      \<not> HasPrefix (bytes_of_string m) (upper_bytes (buf @ more))" if m: "m \<in> set http1Methods" for m
  proof -
    have len: "length m < 8" using http1_methods_ok m by (auto simp: list_all_iff method_ok_def)
    have "\<not> HasPrefix (upper_bytes buf) (bytes_of_string (m @ '' ''))" using assms(1) m by (auto simp: method_loop_end)
    then have "\<not> HasPrefix (upper_bytes (buf @ more)) (bytes_of_string (m @ '' ''))"
      using upper_shrink [of "bytes_of_string (m @ '' '')" buf more] len assms(2) by auto
    moreover have "length m < length (upper_bytes (buf @ more))"
      using upper_length [of "buf @ more"] len assms(2) by simp
    ultimately show ?thesis by (auto simp: HasPrefix_def dest: arg_cong [where f = length])
  qed
  then show ?thesis by (auto simp: method_loop_end)
qed

lemma classification_stable_fact:
  assumes "classifyBufferedProtocol buf = Some p"
  shows "classifyBufferedProtocol (buf @ more) = Some p"
proof -
  have ne: "buf \<noteq> []" using assms by (auto simp: classifyBufferedProtocol_def)
  show ?thesis
  proof (cases "24 \<le> length buf \<and> ClientPreface = take 24 buf")
    case True
    then show ?thesis using assms ne by (auto simp: classifyBufferedProtocol_def preface_length)
  next
    case False
    then have other: "\<not> (length buf < 24 \<and> take (length buf) ClientPreface = buf)"
      using assms ne by (auto simp: classifyBufferedProtocol_def preface_length split: if_splits)
    have cut: "take (length buf) ClientPreface = buf" if "n \<le> 24" "take n ClientPreface = take n (buf @ more)" "length buf \<le> n" for n
    proof -
      have "take (length buf) ClientPreface = take (length buf) (take n ClientPreface)" using that(3) by (simp add: min_def)
      also have "\<dots> = take (length buf) (take n (buf @ more))" by (simp only: that(2))
      also have "\<dots> = buf" using that(3) by simp
      finally show ?thesis .
    qed
    have all: "ClientPreface = take 24 ClientPreface" by (simp add: preface_length)
    have "ClientPreface \<noteq> take 24 (buf @ more)"
    proof
      assume eq: "ClientPreface = take 24 (buf @ more)"
      then show False
        using cut [of 24] all False other by (cases "length buf < 24") auto
    qed
    moreover have "\<not> (length (buf @ more) < 24 \<and> take (length (buf @ more)) ClientPreface = buf @ more)"
      using cut [of "length (buf @ more)"] other by auto
    ultimately have grown: "\<not> (24 \<le> length (buf @ more) \<and> ClientPreface = take 24 (buf @ more))"
      "\<not> (length (buf @ more) < 24 \<and> take (length (buf @ more)) ClientPreface = buf @ more)"
      by blast+
    show ?thesis
      using assms ne False other grown classify_Http1_stable [of buf _ more] classify_end_stable [of buf more]
      by (auto simp: classifyBufferedProtocol_def preface_length split: option.splits if_splits)
  qed
qed

text \<open>
  Once the bytes buffered from a client decide its protocol, no further bytes change the
  decision: how the connection is handled does not depend on how the first bytes were cut into
  reads.
\<close>

theorem classification_stable:
  "classifyBufferedProtocol buf = Some p \<Longrightarrow> classifyBufferedProtocol (buf @ more) = Some p"
  by (rule classification_stable_fact)

theorem classification_stable_witness:
  "classifyBufferedProtocol (bytes_of_string ''pUt '') = Some Http1 \<and>
   classifyBufferedProtocol (bytes_of_string ''pUt '' @ bytes_of_string ''/x'') = Some Http1"
proof -
  have "classifyBufferedProtocol (bytes_of_string ''pUt '') = Some Http1" by code_simp
  then show ?thesis using classification_stable [of "bytes_of_string ''pUt ''" Http1 "bytes_of_string ''/x''"] by simp
qed

end
