(* ===== verification/Watcher_Conn.thy ===== *)
theory Watcher_Conn
  imports Http2_Conn Http1_Body Protocol_Sniff
begin

text \<open>
  The connection the gateway reads a decrypted client through, \<^verbatim>\<open>WatcherWrapConn\<close> of
  \<^verbatim>\<open>processor/watcher/wrapped_tls_watcher.go\<close> and \<^verbatim>\<open>http1_wrapper.go\<close>: the sniffing of the protocol,
  the rewriting of HTTP/1 and HTTP/2 requests, and the loop that serves \<^verbatim>\<open>Read\<close>. Parsing an HTTP/1
  head, writing its headers and the request URI of a URL are \<^verbatim>\<open>net/http\<close> and \<^verbatim>\<open>net/url\<close>; they are the
  functions of an \<open>h1_lib\<close>, about which nothing is assumed. The underlying connection is the list of
  results its reads give; when the list is exhausted the read blocks.
\<close>

section \<open>HTTP/1 requests\<close>

text \<open>A request head, with the fields the code reads; the header maps canonical keys to values.\<close>

record h1_request =
  h1_Method :: string
  h1_RequestURI :: string
  h1_Proto :: string
  h1_target :: http_request
  h1_Header :: "(string \<times> string list) list"
  h1_TransferEncoding :: "string list"
  h1_ContentLength :: int

record h1_lib =
  hl_ReadRequest :: "byte list \<Rightarrow> h1_request option"
  hl_URL_RequestURI :: "h1_request \<Rightarrow> string"
  hl_Header_Write :: "(string \<times> string list) list \<Rightarrow> string"

datatype watcher_error = InvalidRequest | EmptyRequestURI | BodyError body_error | Underlying read_error

definition CRLF :: string where "CRLF = [CHR 0x0D, CHR 0x0A]"

definition serializeHTTPRequestHead :: "h1_lib \<Rightarrow> h1_request \<Rightarrow> watcher_error + byte list" where
  "serializeHTTPRequestHead lib req =
     (let requestURI = (if h1_RequestURI req = [] \<and> rq_URL_Host (h1_target req) \<noteq> None
                        then hl_URL_RequestURI lib req else h1_RequestURI req) in
      if requestURI = [] then Inl EmptyRequestURI
      else
        let headers = AList.delete ''Host'' (h1_Header req);
            host = rq_Host (h1_target req) in
        Inr (bytes_of_string
          (h1_Method req @ '' '' @ requestURI @ '' '' @ h1_Proto req @ CRLF @
           (if host \<noteq> [] then ''Host: '' @ host @ CRLF else []) @
           hl_Header_Write lib headers @ CRLF)))"

section \<open>The connection\<close>

record ('d, 'e) watcher =
  wc_h2 :: "('d, 'e) h2_conn"
  wc_prefetched :: bool
  wc_http2PrefaceSent :: bool
  wc_isHttp1 :: bool
  wc_passthrough :: bool
  wc_http1BodyTracker :: "http1BodyTracker option"
  wc_pendingBuffer :: "byte list"

text \<open>What the environment of a connection supplies: the libraries, the configuration, the token.\<close>

record ('d, 'e) watcher_env =
  we_codec :: "('d, 'e) h2_codec"
  we_lib :: h1_lib
  we_config :: "Config option"
  we_auth :: string

definition NewWatcherWrapConn :: "'d \<Rightarrow> 'e \<Rightarrow> ('d, 'e) watcher" where
  "NewWatcherWrapConn d e =
     \<lparr>wc_h2 = new_conn d e, wc_prefetched = False, wc_http2PrefaceSent = False, wc_isHttp1 = False,
      wc_passthrough = False, wc_http1BodyTracker = None, wc_pendingBuffer = []\<rparr>"

definition reqBuf :: "('d, 'e) watcher \<Rightarrow> byte list" where
  "reqBuf w = h2_reqBuf (wc_h2 w)"

definition set_reqBuf :: "byte list \<Rightarrow> ('d, 'e) watcher \<Rightarrow> ('d, 'e) watcher" where
  "set_reqBuf b w = w\<lparr>wc_h2 := (wc_h2 w)\<lparr>h2_reqBuf := b\<rparr>\<rparr>"

text \<open>\<^verbatim>\<open>req.Header.Set("Authorization-Inner", ...)\<close> after the rewriting of the host.\<close>

definition rewrite_request :: "('d, 'e) watcher_env \<Rightarrow> h1_request \<Rightarrow> h1_request" where
  "rewrite_request env req =
     (let req1 = req\<lparr>h1_target := fst (rewriteAliangHTTPRequestHost (we_config env) (h1_target req))\<rparr>;
          authHeader = TrimSpace (we_auth env) in
      if authHeader \<noteq> [] then req1\<lparr>h1_Header := AList.update ''Authorization-Inner'' [authHeader] (h1_Header req1)\<rparr>
      else req1)"

text \<open>
  The head and the part of the body that follows it; \<^const>\<open>None\<close> under the inner \<^const>\<open>Inr\<close> is not ready.
  Every slice is one that can panic.
\<close>

definition processH1ReqHeaders ::
  "('d, 'e) watcher_env \<Rightarrow> ('d, 'e) watcher \<Rightarrow> unit + ('d, 'e) watcher \<times> (watcher_error + byte list option)" where
  "processH1ReqHeaders env w =
     (let dataOrigin = reqBuf w in
      case Index dataOrigin (bytes_of_string (CRLF @ CRLF)) of
        None \<Rightarrow> Inr (w, Inr None)
      | Some headersEndIdx \<Rightarrow>
          reading (slice dataOrigin 0 (headersEndIdx + 4)) (\<lambda>headersData.
          reading (slice dataOrigin (headersEndIdx + 4) (length dataOrigin)) (\<lambda>bodyData.
            case hl_ReadRequest (we_lib env) headersData of
             None \<Rightarrow> Inr (w, Inl InvalidRequest)
           | Some req0 \<Rightarrow>
               let req = rewrite_request env req0 in
               (case serializeHTTPRequestHead (we_lib env) req of
                  Inl e \<Rightarrow> Inr (w, Inl e)
                | Inr headBytes \<Rightarrow>
                    (case newHTTP1BodyTracker (h1_TransferEncoding req) (h1_ContentLength req) of
                       None \<Rightarrow> Inr (set_reqBuf bodyData (w\<lparr>wc_http1BodyTracker := None\<rparr>), Inr (Some headBytes))
                     | Some t \<Rightarrow>
                         (case Tracker_consume bodyData (Some t) of
                            (t1, consumed, fin, Some e) \<Rightarrow> Inr (w, Inl (BodyError e))
                          | (t1, consumed, fin, None) \<Rightarrow>
                              reading (slice bodyData 0 consumed) (\<lambda>currentBody.
                              reading (if consumed < length bodyData then slice bodyData consumed (length bodyData) else Inr [])
                                (\<lambda>leftoverBody.
                                Inr (set_reqBuf leftoverBody (w\<lparr>wc_http1BodyTracker := (if fin then None else t1)\<rparr>),
                                     Inr (Some (headBytes @ currentBody)))))))))))"

text \<open>\<^verbatim>\<open>Next\<close> of a buffer takes at most what there is and does not panic.\<close>

definition consumeHTTP1Body ::
  "('d, 'e) watcher \<Rightarrow> unit + ('d, 'e) watcher \<times> byte list \<times> bool \<times> watcher_error option" where
  "consumeHTTP1Body w =
     (case wc_http1BodyTracker w of
        None \<Rightarrow> Inr (w, [], False, None)
      | Some t \<Rightarrow>
          let data = reqBuf w in
          if data = [] then Inr (w, [], False, None)
          else (case Tracker_consume data (Some t) of
                  (t1, consumed, fin, Some e) \<Rightarrow> Inr (w\<lparr>wc_http1BodyTracker := t1\<rparr>, [], False, Some (BodyError e))
                | (t1, consumed, fin, None) \<Rightarrow>
                    if consumed = 0 then Inr (w\<lparr>wc_http1BodyTracker := t1\<rparr>, [], False, None)
                    else reading (slice data 0 consumed) (\<lambda>out.
                      Inr (set_reqBuf (drop consumed data) (w\<lparr>wc_http1BodyTracker := (if fin then None else t1)\<rparr>),
                           out, True, None))))"

definition fallbackHTTP2ToPassthrough :: "byte list \<Rightarrow> ('d, 'e) watcher \<Rightarrow> ('d, 'e) watcher \<times> byte list" where
  "fallbackHTTP2ToPassthrough consumed w =
     (set_reqBuf [] (w\<lparr>wc_passthrough := True, wc_http2PrefaceSent := True\<rparr>),
      (if wc_http2PrefaceSent w then [] else ClientPreface) @ consumed @ reqBuf w)"

definition maxProtocolSniffBytes :: nat where "maxProtocolSniffBytes = 8192"

text \<open>
  The new state, the output, whether there was progress, and the error; \<^const>\<open>None\<close> under \<^const>\<open>Inr\<close>
  when a header block is never finished.
\<close>

definition prepareBufferedOutput ::
  "('d, 'e) watcher_env \<Rightarrow> ('d, 'e) watcher
    \<Rightarrow> unit + (('d, 'e) watcher \<times> byte list \<times> bool \<times> watcher_error option) option" where
  "prepareBufferedOutput env w =
     (if wc_prefetched w then
        (case processHttp2RequestFrame (we_codec env) (we_config env) (we_auth env) [] (wc_h2 w) of
           Inl u \<Rightarrow> Inl u
         | Inr None \<Rightarrow> Inr None
         | Inr (Some (h2, out, Some e)) \<Rightarrow>
             (case fallbackHTTP2ToPassthrough out (w\<lparr>wc_h2 := h2\<rparr>) of (w1, out1) \<Rightarrow> Inr (Some (w1, out1, True, None)))
         | Inr (Some (h2, out, None)) \<Rightarrow>
             let w1 = w\<lparr>wc_h2 := h2\<rparr> in
             if \<not> wc_http2PrefaceSent w1 then
               Inr (Some (w1\<lparr>wc_http2PrefaceSent := True\<rparr>, ClientPreface @ out, True, None))
             else if out \<noteq> [] then Inr (Some (w1, out, True, None))
             else Inr (Some (w1, [], False, None)))
      else if wc_isHttp1 w then
        (if wc_http1BodyTracker w \<noteq> None then
           (case consumeHTTP1Body w of
              Inl u \<Rightarrow> Inl u
            | Inr (w1, out, progressed, Some e) \<Rightarrow> Inr (Some (w1, [], False, Some e))
            | Inr (w1, out, progressed, None) \<Rightarrow>
                if out \<noteq> [] then Inr (Some (w1, out, True, None))
                else if progressed then Inr (Some (w1, [], True, None))
                else Inr (Some (w1, [], False, None)))
         else
           (case processH1ReqHeaders env w of
              Inl u \<Rightarrow> Inl u
            | Inr (w1, Inl e) \<Rightarrow> Inr (Some (w1, [], False, Some e))
            | Inr (w1, Inr (Some out)) \<Rightarrow> Inr (Some (w1, out, True, None))
            | Inr (w1, Inr None) \<Rightarrow> Inr (Some (w1, [], False, None))))
      else
        (case classifyBufferedProtocol (reqBuf w) of
           None \<Rightarrow>
             if length (reqBuf w) \<ge> maxProtocolSniffBytes then Inr (Some (w\<lparr>wc_passthrough := True\<rparr>, [], True, None))
             else Inr (Some (w, [], False, None))
         | Some Http2 \<Rightarrow>
             Inr (Some (set_reqBuf (drop (length ClientPreface) (reqBuf w)) (w\<lparr>wc_prefetched := True\<rparr>), [], True, None))
         | Some Http1 \<Rightarrow> Inr (Some (w\<lparr>wc_isHttp1 := True\<rparr>, [], True, None))
         | Some Passthrough \<Rightarrow> Inr (Some (w\<lparr>wc_passthrough := True\<rparr>, [], True, None))))"

section \<open>Read\<close>

text \<open>
  The values \<^verbatim>\<open>Read\<close> returns, bytes with the underlying error or an error of its own, or that it
  waits for the client.
\<close>

datatype read_value = Got "byte list" "read_error option" | Failed watcher_error | Blocked

definition readFromPending :: "nat \<Rightarrow> ('d, 'e) watcher \<Rightarrow> ('d, 'e) watcher \<times> byte list" where
  "readFromPending n w = (w\<lparr>wc_pendingBuffer := drop n (wc_pendingBuffer w)\<rparr>, take n (wc_pendingBuffer w))"

text \<open>How far the handling of a connection has been settled; every turn without input goes down.\<close>

definition unsettled :: "('d, 'e) watcher \<Rightarrow> nat" where
  "unsettled w =
     (if wc_pendingBuffer w \<noteq> [] then 0 else if wc_passthrough w then 1
      else if wc_prefetched w \<or> wc_isHttp1 w then 2 else 3)"

lemma set_reqBuf_simps [simp]:
  "reqBuf (set_reqBuf b w) = b" "wc_prefetched (set_reqBuf b w) = wc_prefetched w"
  "wc_http2PrefaceSent (set_reqBuf b w) = wc_http2PrefaceSent w" "wc_isHttp1 (set_reqBuf b w) = wc_isHttp1 w"
  "wc_passthrough (set_reqBuf b w) = wc_passthrough w" "wc_http1BodyTracker (set_reqBuf b w) = wc_http1BodyTracker w"
  "wc_pendingBuffer (set_reqBuf b w) = wc_pendingBuffer w"
  by (simp_all add: set_reqBuf_def reqBuf_def)

lemma head_nonempty: "serializeHTTPRequestHead lib req = Inr b \<Longrightarrow> b \<noteq> []"
  by (auto simp: serializeHTTPRequestHead_def Let_def bytes_of_string_def split: if_splits)

lemma slice_within: "i \<le> j \<Longrightarrow> j \<le> length b \<Longrightarrow> slice b i j = Inr (take (j - i) (drop i b))"
  by (simp add: slice_def)

text \<open>The slices of the HTTP/1 code are within their buffers, so the operations have the values one expects.\<close>

lemma processH1_value:
  "processH1ReqHeaders env w = Inr
     (let dataOrigin = reqBuf w in
      case Index dataOrigin (bytes_of_string (CRLF @ CRLF)) of
        None \<Rightarrow> (w, Inr None)
      | Some i \<Rightarrow>
          let bodyData = drop (i + 4) dataOrigin in
          (case hl_ReadRequest (we_lib env) (take (i + 4) dataOrigin) of
             None \<Rightarrow> (w, Inl InvalidRequest)
           | Some req0 \<Rightarrow>
               let req = rewrite_request env req0 in
               (case serializeHTTPRequestHead (we_lib env) req of
                  Inl e \<Rightarrow> (w, Inl e)
                | Inr headBytes \<Rightarrow>
                    (case newHTTP1BodyTracker (h1_TransferEncoding req) (h1_ContentLength req) of
                       None \<Rightarrow> (set_reqBuf bodyData (w\<lparr>wc_http1BodyTracker := None\<rparr>), Inr (Some headBytes))
                     | Some t \<Rightarrow>
                         (case Tracker_consume bodyData (Some t) of
                            (t1, consumed, fin, Some e) \<Rightarrow> (w, Inl (BodyError e))
                          | (t1, consumed, fin, None) \<Rightarrow>
                              (set_reqBuf (drop consumed bodyData)
                                 (w\<lparr>wc_http1BodyTracker := (if fin then None else t1)\<rparr>),
                               Inr (Some (headBytes @ take consumed bodyData))))))))"
proof (cases "Index (reqBuf w) (bytes_of_string (CRLF @ CRLF))")
  case (Some i)
  have "i + 4 \<le> length (reqBuf w)" using Index_Some [OF Some] by (simp add: CRLF_def)
  then show ?thesis
    using Some Tracker_bound [of "drop (i + 4) (reqBuf w)"]
    by (simp add: processH1ReqHeaders_def Let_def reading_def slice_within split: option.splits sum.splits prod.splits)
qed (simp add: processH1ReqHeaders_def)

lemma consume_value:
  "consumeHTTP1Body w = Inr
     (case wc_http1BodyTracker w of
        None \<Rightarrow> (w, [], False, None)
      | Some t \<Rightarrow>
          let data = reqBuf w in
          if data = [] then (w, [], False, None)
          else (case Tracker_consume data (Some t) of
                  (t1, consumed, fin, Some e) \<Rightarrow> (w\<lparr>wc_http1BodyTracker := t1\<rparr>, [], False, Some (BodyError e))
                | (t1, consumed, fin, None) \<Rightarrow>
                    if consumed = 0 then (w\<lparr>wc_http1BodyTracker := t1\<rparr>, [], False, None)
                    else (set_reqBuf (drop consumed data) (w\<lparr>wc_http1BodyTracker := (if fin then None else t1)\<rparr>),
                          take consumed data, True, None)))"
  using Tracker_bound [of "reqBuf w"]
  by (auto simp: consumeHTTP1Body_def Let_def reading_def slice_within split: option.splits prod.splits)

lemma processH1_nonempty: "processH1ReqHeaders env w \<noteq> Inr (w1, Inr (Some []))"
  by (auto simp: processH1_value Let_def split: option.splits sum.splits prod.splits dest: head_nonempty)

lemma consume_progress: "consumeHTTP1Body w = Inr (w1, [], p, None) \<Longrightarrow> \<not> p"
  by (auto simp: consume_value Let_def split: option.splits prod.splits if_splits)

lemma prepare_settles:
  assumes "prepareBufferedOutput env w = Inr (Some (w1, [], True, None))" "wc_pendingBuffer w = []" "\<not> wc_passthrough w"
  shows "unsettled w1 < unsettled w"
proof (cases "wc_prefetched w \<or> wc_isHttp1 w")
  case True
  then have "wc_passthrough w1"
    using assms(1) consume_progress [of w] processH1_nonempty [of env w]
    by (auto simp: prepareBufferedOutput_def fallbackHTTP2ToPassthrough_def ClientPreface_def Let_def
        split: sum.splits option.splits prod.splits if_splits)
  then show ?thesis using True assms(2,3) by (simp add: unsettled_def)
next
  case False
  then have "wc_passthrough w1 \<or> wc_prefetched w1 \<or> wc_isHttp1 w1"
    using assms(1) by (auto simp: prepareBufferedOutput_def split: option.splits proto.splits if_splits)
  then show ?thesis using False assms(2,3) by (auto simp: unsettled_def)
qed

function Read ::
  "('d, 'e) watcher_env \<Rightarrow> nat \<Rightarrow> ('d, 'e) watcher \<Rightarrow> read_result list
    \<Rightarrow> unit + (('d, 'e) watcher \<times> read_result list \<times> read_value) option" where
  "Read env n w rs =
     (if wc_pendingBuffer w \<noteq> [] then
        (case readFromPending n w of (w1, b) \<Rightarrow> Inr (Some (w1, rs, Got b None)))
      else if wc_passthrough w then
        (if reqBuf w \<noteq> [] then Read env n (set_reqBuf [] (w\<lparr>wc_pendingBuffer := reqBuf w\<rparr>)) rs
         else (case rs of
                 [] \<Rightarrow> Inr (Some (w, [], Blocked))
               | r # rs1 \<Rightarrow> Inr (Some (w, rs1, Got (rd_data r) (rd_err r)))))
      else
        (case prepareBufferedOutput env w of
           Inl u \<Rightarrow> Inl u
         | Inr None \<Rightarrow> Inr None
         | Inr (Some (w1, out, progressed, err)) \<Rightarrow>
             (case err of
                Some e \<Rightarrow> Inr (Some (w1, rs, Failed e))
              | None \<Rightarrow>
                  if out \<noteq> [] then Read env n (w1\<lparr>wc_pendingBuffer := out\<rparr>) rs
                  else if progressed then Read env n w1 rs
                  else
                    (case rs of
                       [] \<Rightarrow> Inr (Some (w1, [], Blocked))
                     | r # rs1 \<Rightarrow>
                         let w2 = set_reqBuf (reqBuf w1 @ rd_data r) w1 in
                         (case rd_err r of
                            Some e \<Rightarrow> if rd_data r \<noteq> [] then Read env n w2 rs1
                                      else Inr (Some (w2, rs1, Failed (Underlying e)))
                          | None \<Rightarrow> Read env n w2 rs1)))))"
  by pat_completeness auto
termination
  by (relation "measures [\<lambda>(env, n, w, rs). length rs, \<lambda>(env, n, w, rs). unsettled w]")
     (auto simp: unsettled_def [of "set_reqBuf _ _"] unsettled_def [of "_\<lparr>wc_pendingBuffer := _\<rparr>"] intro!: prepare_settles,
      auto simp: unsettled_def)

declare Read.simps [simp del]


section \<open>Connections that are not HTTP\<close>

text \<open>The client's bytes that have not been returned by \<^verbatim>\<open>Read\<close> yet.\<close>

definition undelivered :: "('d, 'e) watcher \<Rightarrow> read_result list \<Rightarrow> byte list" where
  "undelivered w rs = wc_pendingBuffer w @ reqBuf w @ data_of rs"

definition not_http :: "('d, 'e) watcher \<Rightarrow> read_result list \<Rightarrow> bool" where
  "not_http w rs \<longleftrightarrow> \<not> wc_prefetched w \<and> \<not> wc_isHttp1 w \<and>
     (wc_passthrough w \<or> classifyBufferedProtocol (reqBuf w @ data_of rs) \<notin> {Some Http1, Some Http2})"

fun got :: "read_value \<Rightarrow> byte list" where
  "got (Got b e) = b"
| "got (Failed e) = []"
| "got Blocked = []"

lemma prepare_not_http:
  assumes "not_http w rs" "\<not> wc_passthrough w"
  shows "prepareBufferedOutput env w = Inr (Some (w\<lparr>wc_passthrough := True\<rparr>, [], True, None)) \<or>
    prepareBufferedOutput env w = Inr (Some (w, [], False, None)) \<and> classifyBufferedProtocol (reqBuf w) = None"
proof -
  have "classifyBufferedProtocol (reqBuf w) \<notin> {Some Http1, Some Http2}"
    using assms classification_stable_fact [of "reqBuf w" _ "data_of rs"] by (auto simp: not_http_def)
  then show ?thesis
    using assms by (auto simp: prepareBufferedOutput_def not_http_def split: option.splits proto.splits)
qed

lemma reqBuf_flags [simp]:
  "reqBuf (w\<lparr>wc_passthrough := b\<rparr>) = reqBuf w" "reqBuf (w\<lparr>wc_pendingBuffer := x\<rparr>) = reqBuf w"
  by (simp_all add: reqBuf_def)

text \<open>The bytes are enough to settle that the connection is not HTTP.\<close>

definition decided_raw :: "('d, 'e) watcher \<Rightarrow> read_result list \<Rightarrow> bool" where
  "decided_raw w rs \<longleftrightarrow> wc_passthrough w \<or> classifyBufferedProtocol (reqBuf w @ data_of rs) = Some Passthrough"

text \<open>A call went forward: it returned bytes or used up a read, or there was nothing to return.\<close>

definition advances :: "('d, 'e) watcher \<Rightarrow> read_result list \<Rightarrow> read_result list \<Rightarrow> read_value \<Rightarrow> bool" where
  "advances w rs rs1 v \<longleftrightarrow>
     (case v of Got b e \<Rightarrow> b \<noteq> [] \<or> length rs1 < length rs
      | Failed e \<Rightarrow> length rs1 < length rs
      | Blocked \<Rightarrow> undelivered w rs = [])"

definition conserving :: "nat \<Rightarrow> ('d, 'e) watcher \<Rightarrow> read_result list \<Rightarrow>
    unit + (('d, 'e) watcher \<times> read_result list \<times> read_value) option \<Rightarrow> bool" where
  "conserving n w rs r \<longleftrightarrow>
     (\<exists>w1 rs1 v. r = Inr (Some (w1, rs1, v)) \<and> not_http w1 rs1 \<and> undelivered w rs = got v @ undelivered w1 rs1 \<and>
        length rs1 \<le> length rs \<and>
        (decided_raw w rs \<longrightarrow> decided_raw w1 rs1 \<and> (0 < n \<longrightarrow> advances w rs rs1 v)))"

lemma advances_mono:
  "advances w1 rs1 rs2 v \<Longrightarrow> undelivered w1 rs1 = undelivered w rs \<Longrightarrow> length rs1 \<le> length rs \<Longrightarrow> advances w rs rs2 v"
  by (auto simp: advances_def split: read_value.splits)

lemma conserving_step:
  "conserving n w1 rs1 r \<Longrightarrow> undelivered w1 rs1 = undelivered w rs \<Longrightarrow> length rs1 \<le> length rs \<Longrightarrow>
    (decided_raw w rs \<Longrightarrow> decided_raw w1 rs1) \<Longrightarrow> conserving n w rs r"
  unfolding conserving_def using advances_mono le_trans by metis

lemma read_conserves: "not_http w rs \<Longrightarrow> conserving n w rs (Read env n w rs)"
proof (induction env n w rs rule: Read.induct)
  case (1 env n w rs)
  show ?case
  proof (cases "wc_pendingBuffer w = []")
    case False
    then show ?thesis
      using "1.prems"
      by (subst Read.simps) (auto simp: conserving_def advances_def readFromPending_def undelivered_def not_http_def decided_raw_def reqBuf_def)
  next
    case empty: True
    show ?thesis
    proof (cases "wc_passthrough w")
      case True
      have "conserving n w rs (Read env n (set_reqBuf [] (w\<lparr>wc_pendingBuffer := reqBuf w\<rparr>)) rs)" if "reqBuf w \<noteq> []"
        by (rule conserving_step [OF "1.IH"(1)])
           (use empty True that "1.prems" in \<open>auto simp: not_http_def undelivered_def decided_raw_def\<close>)
      then show ?thesis
        using empty True "1.prems"
        by (subst Read.simps) (auto simp: conserving_def advances_def undelivered_def not_http_def decided_raw_def split: list.split)
    next
      case False
      from prepare_not_http [OF "1.prems" False, of env] show ?thesis
      proof
        assume prep: "prepareBufferedOutput env w = Inr (Some (w\<lparr>wc_passthrough := True\<rparr>, [], True, None))"
        have "conserving n w rs (Read env n (w\<lparr>wc_passthrough := True\<rparr>) rs)"
          by (rule conserving_step [OF "1.IH"(3) [OF _ False prep refl refl refl refl refl]])
             (use empty "1.prems" in \<open>auto simp: not_http_def undelivered_def decided_raw_def\<close>)
        then show ?thesis using empty False prep by (subst Read.simps) simp
      next
        assume "prepareBufferedOutput env w = Inr (Some (w, [], False, None)) \<and> classifyBufferedProtocol (reqBuf w) = None"
        then have prep: "prepareBufferedOutput env w = Inr (Some (w, [], False, None))" and
          undecided: "classifyBufferedProtocol (reqBuf w) = None" by auto
        show ?thesis
        proof (cases rs)
          case Nil
          then show ?thesis
            using empty False prep "1.prems" by (subst Read.simps) (simp add: conserving_def decided_raw_def undecided)
        next
          case (Cons r rs1)
          define w2 where "w2 = set_reqBuf (reqBuf w @ rd_data r) w"
          have keep: "not_http w2 rs1" "undelivered w2 rs1 = undelivered w rs" "decided_raw w rs \<Longrightarrow> decided_raw w2 rs1"
            using "1.prems" Cons False by (auto simp: w2_def not_http_def undelivered_def decided_raw_def)
          have again: "conserving n w rs (Read env n w2 rs1)" if "rd_err r = None \<or> rd_data r \<noteq> []"
          proof (rule conserving_step [OF _ keep(2) _ keep(3)])
            show "conserving n w2 rs1 (Read env n w2 rs1)"
              using that "1.IH"(4) [OF _ False prep refl refl refl refl refl _ _ Cons w2_def _ keep(1)]
                "1.IH"(5) [OF _ False prep refl refl refl refl refl _ _ Cons w2_def _ _ keep(1)] empty
              by (cases "rd_err r") auto
            show "length rs1 \<le> length rs" using Cons by simp
          qed
          then show ?thesis
            using empty False prep keep Cons
            by (subst Read.simps) (auto simp: Let_def w2_def [symmetric] split: option.split; auto simp: conserving_def advances_def)
        qed
      qed
    qed
  qed
qed

text \<open>Calls of \<^verbatim>\<open>Read\<close> with buffers of the given sizes, and the bytes they return.\<close>

fun run_reads ::
  "('d, 'e) watcher_env \<Rightarrow> nat list \<Rightarrow> ('d, 'e) watcher \<Rightarrow> read_result list
    \<Rightarrow> unit + (('d, 'e) watcher \<times> read_result list \<times> byte list) option" where
  "run_reads env [] w rs = Inr (Some (w, rs, []))"
| "run_reads env (n # ns) w rs =
     (case Read env n w rs of
        Inl u \<Rightarrow> Inl u
      | Inr None \<Rightarrow> Inr None
      | Inr (Some (w1, rs1, v)) \<Rightarrow>
          map_sum id (map_option (\<lambda>(w2, rs2, b). (w2, rs2, got v @ b))) (run_reads env ns w1 rs1))"

lemma run_conserves:
  "not_http w rs \<Longrightarrow>
    \<exists>w1 rs1 b. run_reads env ns w rs = Inr (Some (w1, rs1, b)) \<and> undelivered w rs = b @ undelivered w1 rs1"
proof (induction ns arbitrary: w rs)
  case (Cons n ns)
  obtain w1 rs1 v where step: "Read env n w rs = Inr (Some (w1, rs1, v))" "not_http w1 rs1"
    "undelivered w rs = got v @ undelivered w1 rs1"
    using read_conserves [OF Cons.prems, of n env] by (auto simp: conserving_def)
  then show ?case using Cons.IH [OF step(2)] by auto
qed simp

lemma run_delivers:
  "not_http w rs \<Longrightarrow> decided_raw w rs \<Longrightarrow> list_all (\<lambda>n. 0 < n) ns \<Longrightarrow>
    length (undelivered w rs) + length rs \<le> length ns \<Longrightarrow>
    \<exists>w1 rs1. run_reads env ns w rs = Inr (Some (w1, rs1, undelivered w rs))"
proof (induction ns arbitrary: w rs)
  case (Cons n ns)
  obtain w1 rs1 v where step: "Read env n w rs = Inr (Some (w1, rs1, v))" "not_http w1 rs1"
    "undelivered w rs = got v @ undelivered w1 rs1" "length rs1 \<le> length rs" "decided_raw w1 rs1" "advances w rs rs1 v"
    using read_conserves [OF Cons.prems(1), of n env] Cons.prems(2,3) by (auto simp: conserving_def)
  have "length (undelivered w1 rs1) + length rs1 \<le> length ns \<or> undelivered w rs = []"
    using step(3,4,6) Cons.prems(4) by (cases v) (auto simp: advances_def neq_Nil_conv)
  then show ?case
  proof
    assume "length (undelivered w1 rs1) + length rs1 \<le> length ns"
    then show ?thesis using Cons.IH [OF step(2,5)] Cons.prems(3) step by auto
  next
    assume none: "undelivered w rs = []"
    then show ?thesis using run_conserves [OF Cons.prems(1), of env "n # ns"] by auto
  qed
qed (simp add: undelivered_def)

text \<open>
  C34. A connection that turns out not to be HTTP is handed on byte for byte: whatever the sizes of
  the reads and however the client's bytes arrive, what has been returned is a prefix of what the
  client sent and the rest is still held, nothing lost, repeated or changed. Once 24 bytes that
  are not HTTP can arrive, enough reads return them all.
\<close>

theorem raw_connection_exact:
  assumes "classifyBufferedProtocol (data_of rs) \<notin> {Some Http1, Some Http2}"
  shows "(\<exists>w1 rs1 b. run_reads env ns (NewWatcherWrapConn d e) rs = Inr (Some (w1, rs1, b)) \<and>
      data_of rs = b @ undelivered w1 rs1) \<and>
    (classifyBufferedProtocol (data_of rs) = Some Passthrough \<and> list_all (\<lambda>n. 0 < n) ns \<and>
      length (data_of rs) + length rs \<le> length ns \<longrightarrow>
      (\<exists>w1 rs1. run_reads env ns (NewWatcherWrapConn d e) rs = Inr (Some (w1, rs1, data_of rs))))"
proof -
  let ?w = "NewWatcherWrapConn d e"
  have fresh: "not_http ?w rs" "undelivered ?w rs = data_of rs"
    "decided_raw ?w rs = (classifyBufferedProtocol (data_of rs) = Some Passthrough)"
    using assms by (simp_all add: not_http_def undelivered_def decided_raw_def NewWatcherWrapConn_def reqBuf_def new_conn_def)
  show ?thesis
    using run_conserves [OF fresh(1), of env ns] run_delivers [OF fresh(1), of ns env] fresh by auto
qed

section \<open>HTTP/1 requests are rewritten in the head only\<close>

lemma rewrite_request_header:
  "map_of (h1_Header (rewrite_request env req)) k =
    (if k = ''Authorization-Inner'' \<and> TrimSpace (we_auth env) \<noteq> [] then Some [TrimSpace (we_auth env)]
     else map_of (h1_Header req) k)"
  by (auto simp: rewrite_request_def Let_def update_conv')

text \<open>
  When an HTTP/1 request is rewritten, what is sent is the serialised head followed by bytes of
  the body as they came, and the bytes that stay buffered are the ones after those: behind the
  head nothing is lost or changed. In the head the \<^verbatim>\<open>Authorization-Inner\<close> header is the current
  token when there is one, and every other header is the client's.
\<close>

theorem http1_body_conserved:
  assumes "processH1ReqHeaders env w = Inr (w1, Inr (Some out))"
  shows "\<exists>i req headBytes. Index (reqBuf w) (bytes_of_string (CRLF @ CRLF)) = Some i \<and>
    hl_ReadRequest (we_lib env) (take (i + 4) (reqBuf w)) = Some req \<and>
    serializeHTTPRequestHead (we_lib env) (rewrite_request env req) = Inr headBytes \<and>
    out @ reqBuf w1 = headBytes @ drop (i + 4) (reqBuf w) \<and>
    map_of (h1_Header (rewrite_request env req)) =
      (if TrimSpace (we_auth env) = [] then map_of (h1_Header req)
       else (map_of (h1_Header req))(''Authorization-Inner'' \<mapsto> [TrimSpace (we_auth env)]))"
proof -
  have hdr: "map_of (h1_Header (rewrite_request env req)) =
      (if TrimSpace (we_auth env) = [] then map_of (h1_Header req)
       else (map_of (h1_Header req))(''Authorization-Inner'' \<mapsto> [TrimSpace (we_auth env)]))" for req
    by (rule ext) (simp add: rewrite_request_header)
  show ?thesis
    using assms
    by (auto simp: processH1_value Let_def hdr simp del: drop_drop split: option.splits sum.splits prod.splits)
qed

section \<open>No panics\<close>




section \<open>What goes wrong\<close>

text \<open>
  A short first message that is not HTTP is held back for ever: fewer than 24 bytes never decide
  the protocol, so a client that waits for an answer to them waits for ever, and the bytes are
  dropped when it gives up.
\<close>

lemma short_message_held:
  "Read env n (NewWatcherWrapConn d e) [\<lparr>rd_data = bytes_of_string ''EHLO x'', rd_err = None\<rparr>] =
     Inr (Some (set_reqBuf (bytes_of_string ''EHLO x'') (NewWatcherWrapConn d e), [], Blocked))"
proof -
  have undecided: "prepareBufferedOutput env (set_reqBuf b (NewWatcherWrapConn d e)) =
      Inr (Some (set_reqBuf b (NewWatcherWrapConn d e), [], False, None))"
    if "classifyBufferedProtocol b = None" "length b < 8192" for b
    using that by (simp add: prepareBufferedOutput_def maxProtocolSniffBytes_def NewWatcherWrapConn_def)
  have fresh: "set_reqBuf [] (NewWatcherWrapConn d e) = NewWatcherWrapConn d e" "reqBuf (NewWatcherWrapConn d e) = []"
    "wc_pendingBuffer (NewWatcherWrapConn d e) = []" "\<not> wc_passthrough (NewWatcherWrapConn d e)"
    by (simp_all add: set_reqBuf_def reqBuf_def NewWatcherWrapConn_def new_conn_def)
  have "classifyBufferedProtocol [] = None" "classifyBufferedProtocol (bytes_of_string ''EHLO x'') = None"
    by code_simp+
  then show ?thesis
    using undecided [of "[]"] undecided [of "bytes_of_string ''EHLO x''"]
    by (subst Read.simps, subst Read.simps) (simp add: fresh)
qed

text \<open>
  After a frame the decoder rejects, the connection is passed on unread: the bytes that follow go
  to the server as the client wrote them, an authorization header of its own included.
\<close>

lemma fallback_unfiltered:
  assumes "wc_prefetched w" "wc_http2PrefaceSent w"
    and "processHttp2RequestFrame (we_codec env) (we_config env) (we_auth env) [] (wc_h2 w) = Inr (Some (h2, out, Some e))"
  shows "\<exists>w1. prepareBufferedOutput env w = Inr (Some (w1, out @ h2_reqBuf h2, True, None)) \<and> wc_passthrough w1"
  using assms by (simp add: prepareBufferedOutput_def fallbackHTTP2ToPassthrough_def reqBuf_def)

text \<open>Without a token the header of an HTTP/1 client stays in the request.\<close>

lemma http1_token_absent_keeps_client:
  "TrimSpace (we_auth env) = [] \<Longrightarrow>
    map_of (h1_Header (rewrite_request env req)) ''Authorization-Inner'' = map_of (h1_Header req) ''Authorization-Inner''"
  by (simp add: rewrite_request_header)

section \<open>Sample data\<close>

text \<open>A library that knows one request, with a body of two bytes.\<close>

definition sample_h1 :: h1_request where
  "sample_h1 = \<lparr>h1_Method = ''PUT'', h1_RequestURI = ''/'', h1_Proto = ''HTTP/1.1'',
     h1_target = \<lparr>rq_Host = ''h'', rq_URL_Host = None\<rparr>, h1_Header = [(''Content-Length'', [''2''])],
     h1_TransferEncoding = [], h1_ContentLength = 2\<rparr>"

definition sample_env :: "(unit, unit) watcher_env" where
  "sample_env = \<lparr>we_codec = sample_codec [],
     we_lib = \<lparr>hl_ReadRequest = \<lambda>b. Some sample_h1, hl_URL_RequestURI = \<lambda>r. [], hl_Header_Write = \<lambda>h. ''A: b'' @ CRLF\<rparr>,
     we_config = None, we_auth = ''tok''\<rparr>"

definition sample_head :: "byte list" where
  "sample_head = bytes_of_string (''PUT / HTTP/1.1'' @ CRLF @ CRLF)"

definition sample_h1_conn :: "(unit, unit) watcher" where
  "sample_h1_conn = set_reqBuf (sample_head @ [120, 121, 122]) (NewWatcherWrapConn () ())"

lemma sample_index: "Index (sample_head @ [120, 121, 122]) (bytes_of_string (CRLF @ CRLF)) = Some 14"
  by code_simp

lemma sample_h1_ready:
  "\<exists>w1 out. processH1ReqHeaders sample_env sample_h1_conn = Inr (w1, Inr (Some out)) \<and> reqBuf w1 = [122]"
proof -
  have buf: "reqBuf sample_h1_conn = sample_head @ [120, 121, 122]" "length sample_head = 18"
    by (simp_all add: sample_h1_conn_def sample_head_def CRLF_def)
  have req: "hl_ReadRequest (we_lib sample_env) b = Some sample_h1" for b
    by (simp add: sample_env_def)
  have frame: "h1_TransferEncoding (rewrite_request sample_env sample_h1) = []"
    "h1_ContentLength (rewrite_request sample_env sample_h1) = 2" "h1_RequestURI (rewrite_request sample_env sample_h1) = ''/''"
    by (simp_all add: rewrite_request_def sample_h1_def Let_def)
  obtain head where head: "serializeHTTPRequestHead (we_lib sample_env) (rewrite_request sample_env sample_h1) = Inr head"
    by (simp add: serializeHTTPRequestHead_def frame Let_def)
  show ?thesis
    by (simp add: processH1_value sample_index req head frame newHTTP1BodyTracker_def Tracker_consume_def buf Let_def)
qed

theorem http1_body_conserved_witness:
  "\<exists>w1 out i headBytes. processH1ReqHeaders sample_env sample_h1_conn = Inr (w1, Inr (Some out)) \<and> reqBuf w1 = [122] \<and>
     serializeHTTPRequestHead (we_lib sample_env) (rewrite_request sample_env sample_h1) = Inr headBytes \<and>
     out @ reqBuf w1 = headBytes @ drop (i + 4) (sample_head @ [120, 121, 122])"
proof -
  obtain w1 out where out: "processH1ReqHeaders sample_env sample_h1_conn = Inr (w1, Inr (Some out))" "reqBuf w1 = [122]"
    using sample_h1_ready by blast
  have "hl_ReadRequest (we_lib sample_env) b = Some sample_h1" "reqBuf sample_h1_conn = sample_head @ [120, 121, 122]" for b
    by (simp_all add: sample_env_def sample_h1_conn_def)
  then show ?thesis using http1_body_conserved [OF out(1)] out by force
qed

definition sample_raw :: "read_result list" where
  "sample_raw = [\<lparr>rd_data = replicate 20 0, rd_err = None\<rparr>, \<lparr>rd_data = [1, 2, 3, 4, 5], rd_err = None\<rparr>]"

lemma sample_raw_class: "classifyBufferedProtocol (data_of sample_raw) = Some Passthrough"
  by code_simp

theorem raw_connection_exact_witness:
  "\<exists>w1 rs1. run_reads sample_env (replicate 30 (7 :: nat)) (NewWatcherWrapConn () ()) sample_raw =
     Inr (Some (w1, rs1, replicate 20 0 @ [1, 2, 3, 4, 5]))"
proof -
  have d: "data_of sample_raw = replicate 20 0 @ [1, 2, 3, 4, 5]" "length sample_raw = 2"
    by (simp_all add: sample_raw_def)
  have "classifyBufferedProtocol (data_of sample_raw) \<notin> {Some Http1, Some Http2}"
    using sample_raw_class by simp
  from raw_connection_exact [OF this, of sample_env "replicate 30 7" "()" "()"] show ?thesis
    using sample_raw_class d by (simp add: list_all_iff)
qed

end
