(* ===== verification/Ring_Buffer.thy ===== *)
theory Ring_Buffer
  imports Prelude
begin

text \<open>
  The circular buffers of the program: the log buffer of \<^verbatim>\<open>src/common/logger/buffer.go\<close>, the ring
  buffer of \<^verbatim>\<open>src/processor/statistic/stats_cache.go\<close> and its copy for the traffic chart in
  \<^verbatim>\<open>src/processor/statistic/http_stats_collector.go\<close>. They keep a slice, two indices into it and
  either a count or a mark for a full buffer. The locale \<open>bounded_log\<close> is
  the contract they share: what can be read is the end of what was written since the buffer was last
  cleared, as much of it as the capacity allows. A slice of pointers is a list of options; an index
  out of range or a remainder by zero is a panic and has the value \<^const>\<open>None\<close>.
\<close>

section \<open>Windows of a slice\<close>

definition ring :: "'a list \<Rightarrow> nat \<Rightarrow> nat \<Rightarrow> 'a list" where
  "ring d s n = map (\<lambda>i. d ! ((s + i) mod length d)) [0..<n]"

definition last_n :: "nat \<Rightarrow> 'a list \<Rightarrow> 'a list" where
  "last_n n xs = drop (length xs - n) xs"

section \<open>The contract\<close>

datatype 'a log_op = Add_entry 'a | Clear_log

text \<open>What a reader may rely on after a history of operations on a buffer of capacity \<open>c\<close>.\<close>

fun recent :: "nat \<Rightarrow> 'a list \<Rightarrow> 'a log_op list \<Rightarrow> 'a list" where
  "recent c xs [] = xs"
| "recent c xs (Add_entry x # ops) = recent c (last_n c (xs @ [x])) ops"
| "recent c xs (Clear_log # ops) = recent c [] ops"

text \<open>The entries added since the last time the buffer was cleared.\<close>

fun since_clear :: "'a list \<Rightarrow> 'a log_op list \<Rightarrow> 'a list" where
  "since_clear xs [] = xs"
| "since_clear xs (Add_entry x # ops) = since_clear (xs @ [x]) ops"
| "since_clear xs (Clear_log # ops) = since_clear [] ops"

fun run_log :: "('a \<Rightarrow> 's \<Rightarrow> 's option) \<Rightarrow> ('s \<Rightarrow> 's) \<Rightarrow> 'a log_op list \<Rightarrow> 's \<Rightarrow> 's option" where
  "run_log add clear [] s = Some s"
| "run_log add clear (Add_entry x # ops) s =
     (case add x s of None \<Rightarrow> None | Some s' \<Rightarrow> run_log add clear ops s')"
| "run_log add clear (Clear_log # ops) s = run_log add clear ops (clear s)"

section \<open>The ring buffer of the connection statistics\<close>

record 'p RingBuffer =
  ring_data :: "'p option list"
  ring_capacity :: nat
  ring_head :: nat
  ring_tail :: nat
  ring_count :: nat

definition NewRingBuffer :: "int \<Rightarrow> 'p RingBuffer option" where
  "NewRingBuffer capacity =
     (if capacity < 0 then None
      else Some \<lparr>ring_data = replicate (nat capacity) None, ring_capacity = nat capacity,
                 ring_head = 0, ring_tail = 0, ring_count = 0\<rparr>)"

definition Ring_Push :: "'p option \<Rightarrow> 'p RingBuffer \<Rightarrow> 'p RingBuffer option" where
  "Ring_Push item rb =
     (if ring_head rb \<ge> length (ring_data rb) \<or> ring_capacity rb = 0 then None
      else
        let rb1 = rb\<lparr>ring_data := (ring_data rb)[ring_head rb := item],
                     ring_head := (ring_head rb + 1) mod ring_capacity rb\<rparr>
        in Some (if ring_count rb1 < ring_capacity rb1
                 then rb1\<lparr>ring_count := ring_count rb1 + 1\<rparr>
                 else rb1\<lparr>ring_tail := (ring_tail rb1 + 1) mod ring_capacity rb1\<rparr>))"

text \<open>\<open>zero\<close> is the zero value of the element type, which fills a position whose pointer is nil.\<close>

definition Ring_GetAll :: "'p \<Rightarrow> 'p RingBuffer \<Rightarrow> 'p list" where
  "Ring_GetAll zero rb =
     (if ring_count rb = 0 then []
      else map (\<lambda>i. case ring_data rb ! ((ring_tail rb + i) mod ring_capacity rb) of
                      None \<Rightarrow> zero | Some p \<Rightarrow> p) [0..<ring_count rb])"

definition Ring_GetLatest :: "'p RingBuffer \<Rightarrow> 'p option" where
  "Ring_GetLatest rb =
     (if ring_count rb = 0 then None
      else ring_data rb ! (nat ((int (ring_head rb) - 1 + int (ring_capacity rb)) mod int (ring_capacity rb))))"

definition Ring_Size :: "'p RingBuffer \<Rightarrow> nat" where
  "Ring_Size rb = ring_count rb"

definition Ring_Clear :: "'p RingBuffer \<Rightarrow> 'p RingBuffer" where
  "Ring_Clear rb = rb\<lparr>ring_data := replicate (ring_capacity rb) None,
     ring_head := 0, ring_tail := 0, ring_count := 0\<rparr>"

definition ring_inv :: "'p RingBuffer \<Rightarrow> bool" where
  "ring_inv rb \<longleftrightarrow> 0 < ring_capacity rb \<and> length (ring_data rb) = ring_capacity rb
     \<and> ring_tail rb < ring_capacity rb \<and> ring_count rb \<le> ring_capacity rb
     \<and> ring_head rb = (ring_tail rb + ring_count rb) mod ring_capacity rb
     \<and> None \<notin> set (ring (ring_data rb) (ring_tail rb) (ring_count rb))"

section \<open>The traffic chart\<close>

text \<open>
  The chart of the HTTP collector is a second copy of the same type for another kind of element,
  with the same bodies, and one more reader.
\<close>

record TrafficDataPoint =
  Timestamp :: uint64
  UploadBytes :: uint64
  DownloadBytes :: uint64
  InputTokens :: uint64
  OutputTokens :: uint64
  RequestCount :: uint64
  ResponseCount :: uint64

definition zero_point :: TrafficDataPoint where
  "zero_point = \<lparr>Timestamp = 0, UploadBytes = 0, DownloadBytes = 0, InputTokens = 0,
     OutputTokens = 0, RequestCount = 0, ResponseCount = 0\<rparr>"

type_synonym TrafficChartBuffer = "TrafficDataPoint RingBuffer"

definition NewTrafficChartBuffer :: "int \<Rightarrow> TrafficChartBuffer option" where
  [simp]: "NewTrafficChartBuffer capacity = NewRingBuffer capacity"

definition Chart_Push :: "TrafficDataPoint option \<Rightarrow> TrafficChartBuffer \<Rightarrow> TrafficChartBuffer option" where
  [simp]: "Chart_Push item rb = Ring_Push item rb"

definition Chart_GetAll :: "TrafficChartBuffer \<Rightarrow> TrafficDataPoint list" where
  [simp]: "Chart_GetAll rb = Ring_GetAll zero_point rb"

definition Chart_GetSince :: "uint64 \<Rightarrow> TrafficChartBuffer \<Rightarrow> TrafficDataPoint list" where
  "Chart_GetSince since rb =
     (if ring_count rb = 0 then []
      else concat (map (\<lambda>i. case ring_data rb ! ((ring_tail rb + i) mod ring_capacity rb) of
                      None \<Rightarrow> []
                    | Some p \<Rightarrow> if sint since \<le> sint (Timestamp p) then [p] else [])
             [0..<ring_count rb]))"

definition Chart_Size :: "TrafficChartBuffer \<Rightarrow> nat" where
  [simp]: "Chart_Size rb = Ring_Size rb"

definition Chart_Clear :: "TrafficChartBuffer \<Rightarrow> TrafficChartBuffer" where
  [simp]: "Chart_Clear rb = Ring_Clear rb"

section \<open>The log buffer\<close>

record LogEntry =
  Level :: int
  LogTime :: time
  Message :: string
  Source :: string
  TraceID :: string

record LogBuffer =
  log_entries :: "LogEntry option list"
  log_head :: nat
  log_tail :: nat
  log_isFull :: bool
  log_maxSize :: nat
  log_observers :: "nat list"

definition NewLogBuffer :: "int \<Rightarrow> LogBuffer" where
  "NewLogBuffer maxSize =
     (let m = nat (if maxSize \<le> 0 then 10000 else maxSize)
      in \<lparr>log_entries = replicate m None, log_head = 0, log_tail = 0, log_isFull = False,
          log_maxSize = m, log_observers = []\<rparr>)"

text \<open>
  \<^verbatim>\<open>Append\<close> with the notifications it starts, one per observer and in their order; an observer is
  known by a number.
\<close>

definition Log_Append :: "LogEntry option \<Rightarrow> LogBuffer \<Rightarrow> (LogBuffer \<times> (nat \<times> LogEntry) list) option" where
  "Log_Append entry b =
     (case entry of None \<Rightarrow> Some (b, [])
      | Some e \<Rightarrow>
          if log_tail b \<ge> length (log_entries b) \<or> log_maxSize b = 0 then None
          else
            let b1 = b\<lparr>log_entries := (log_entries b)[log_tail b := Some e],
                       log_tail := (log_tail b + 1) mod log_maxSize b\<rparr>;
                b2 = (if log_isFull b1 then b1\<lparr>log_head := (log_head b1 + 1) mod log_maxSize b1\<rparr>
                      else if log_tail b1 = log_head b1 then b1\<lparr>log_isFull := True\<rparr>
                      else b1)
            in Some (b2, map (\<lambda>ob. (ob, e)) (log_observers b2)))"

definition matchesFilter :: "LogEntry \<Rightarrow> int \<Rightarrow> string \<Rightarrow> bool" where
  "matchesFilter entry level source =
     (if level \<noteq> 0 \<and> Level entry \<noteq> level then False
      else if source \<noteq> [] \<and> Source entry \<noteq> source then False
      else True)"

definition Log_Get :: "int \<Rightarrow> int \<Rightarrow> string \<Rightarrow> LogBuffer \<Rightarrow> LogEntry list" where
  "Log_Get limit level source b =
     (let pick = (\<lambda>idx. case log_entries b ! idx of
                      None \<Rightarrow> []
                    | Some e \<Rightarrow> if matchesFilter e level source then [e] else []);
          result = (if log_isFull b
                    then concat (map (\<lambda>i. pick ((log_head b + i) mod log_maxSize b)) [0..<log_maxSize b])
                    else concat (map pick [0..<log_tail b]))
      in if limit > 0 \<and> int (length result) > limit
         then drop (length result - nat limit) result else result)"

definition Log_GetAll :: "LogBuffer \<Rightarrow> LogEntry list" where
  "Log_GetAll b = Log_Get 0 0 [] b"

definition Log_GetRecent :: "int \<Rightarrow> LogBuffer \<Rightarrow> LogEntry list" where
  "Log_GetRecent c b = Log_Get c 0 [] b"

definition Log_Filter :: "int \<Rightarrow> string \<Rightarrow> LogBuffer \<Rightarrow> LogEntry list" where
  "Log_Filter level source b = Log_Get 0 level source b"

definition Log_Clear :: "LogBuffer \<Rightarrow> LogBuffer" where
  "Log_Clear b = b\<lparr>log_entries := replicate (log_maxSize b) None, log_head := 0, log_tail := 0,
     log_isFull := False\<rparr>"

definition Log_Size :: "LogBuffer \<Rightarrow> nat" where
  "Log_Size b = (if log_isFull b then log_maxSize b else log_tail b)"

definition Log_Subscribe :: "nat \<Rightarrow> LogBuffer \<Rightarrow> LogBuffer" where
  "Log_Subscribe observer b = b\<lparr>log_observers := log_observers b @ [observer]\<rparr>"

definition log_window :: "LogBuffer \<Rightarrow> LogEntry option list" where
  "log_window b = (if log_isFull b then ring (log_entries b) (log_head b) (log_maxSize b)
                   else ring (log_entries b) 0 (log_tail b))"

definition log_inv :: "LogBuffer \<Rightarrow> bool" where
  "log_inv b \<longleftrightarrow> 0 < log_maxSize b \<and> length (log_entries b) = log_maxSize b
     \<and> log_tail b < log_maxSize b
     \<and> (if log_isFull b then log_head b = log_tail b else log_head b = 0)
     \<and> None \<notin> set (log_window b)"

definition log_add :: "LogEntry \<Rightarrow> LogBuffer \<Rightarrow> LogBuffer option" where
  "log_add e b = map_option fst (Log_Append (Some e) b)"

definition ring_add :: "'p \<Rightarrow> 'p RingBuffer \<Rightarrow> 'p RingBuffer option" where
  "ring_add p rb = Ring_Push (Some p) rb"

section \<open>Lemmas on windows\<close>

lemma length_ring [simp]: "length (ring d s n) = n"
  by (simp add: ring_def)

lemma last_n_id [simp]: "length xs \<le> n \<Longrightarrow> last_n n xs = xs"
  by (simp add: last_n_def)

lemma length_last_n [simp]: "length (last_n n xs) = min n (length xs)"
  by (simp add: last_n_def)

lemma last_n_snoc_full: "length xs = n \<Longrightarrow> 0 < n \<Longrightarrow> last_n n (xs @ [x]) = tl xs @ [x]"
  by (cases xs) (simp_all add: last_n_def)

lemma last_n_last_n: "last_n n (last_n n xs @ ys) = last_n n (xs @ ys)"
  by (cases "length xs \<le> n") (simp_all add: last_n_def add.commute)

lemma ring_Suc: "s < length d \<Longrightarrow> ring d s (Suc n) = d ! s # ring d ((s + 1) mod length d) n"
  by (simp add: ring_def upt_conv_Cons map_Suc_upt [symmetric] mod_simps add_ac del: upt_Suc)

lemma ring_update_other:
  assumes "\<And>i. i < n \<Longrightarrow> (s + i) mod length d \<noteq> k"
  shows "ring (d[k := x]) s n = ring d s n"
proof (rule nth_equalityI)
  fix i assume "i < length (ring (d[k := x]) s n)"
  then show "ring (d[k := x]) s n ! i = ring d s n ! i" using assms [of i] by (simp add: ring_def)
qed simp

lemma mod_window_le:
  fixes s i j L :: nat
  assumes "i \<le> j" "j < L" "(s + j) mod L = (s + i) mod L"
  shows "i = j"
proof -
  have "L dvd (s + j) - (s + i)" using assms by (simp add: mod_eq_dvd_iff_nat)
  then have "L dvd j - i" by simp
  then show ?thesis using assms nat_dvd_not_less [of "j - i" L] by fastforce
qed

lemma mod_window_inj:
  fixes s i j L :: nat
  assumes "i < L" "j < L" "(s + i) mod L = (s + j) mod L"
  shows "i = j"
  using assms mod_window_le [of i j L s] mod_window_le [of j i L s] by (cases "i \<le> j") auto

lemma ring_snoc:
  assumes "n < length d"
  shows "ring (d[(s + n) mod length d := x]) s (Suc n) = ring d s n @ [x]"
proof -
  have "(s + n) mod length d < length d" using assms by (intro mod_less_divisor) linarith
  moreover have "ring (d[(s + n) mod length d := x]) s n = ring d s n"
    using assms by (intro ring_update_other) (metis less_trans mod_window_inj nat_neq_iff)
  ultimately show ?thesis by (simp add: ring_def)
qed

lemma ring_slide:
  assumes "s < length d"
  shows "ring (d[s := x]) ((s + 1) mod length d) (length d) = tl (ring d s (length d)) @ [x]"
proof -
  obtain m where m: "length d = Suc m" using assms by (cases "length d") auto
  have pos: "((s + 1) mod length d + m) mod length d = s"
    using assms m by (simp add: mod_simps mod_if [of "Suc (s + m)"] Suc_diff_le)
  have "ring (d[s := x]) ((s + 1) mod length d) (Suc m) = ring d ((s + 1) mod length d) m @ [x]"
    using ring_snoc [of m d "(s + 1) mod length d" x] m pos by simp
  then show ?thesis using ring_Suc [OF assms, of m] m by simp
qed

lemma ring_front: "n \<le> length d \<Longrightarrow> ring d 0 n = take n d"
  by (auto simp: ring_def intro: nth_equalityI)

lemma recent_last_n: "recent c (last_n c xs) ops = last_n c (since_clear xs ops)"
proof (induction ops arbitrary: xs)
  case (Cons op ops)
  then show ?case
  proof (cases op)
    case (Add_entry x)
    then show ?thesis using Cons.IH [of "xs @ [x]"] by (simp add: last_n_last_n)
  next
    case Clear_log
    then show ?thesis using Cons.IH [of "[]"] by simp
  qed
qed simp

lemma recent_Nil: "recent c [] ops = last_n c (since_clear [] ops)"
  using recent_last_n [of c "[]" ops] by simp

text \<open>The contract of a bounded buffer, and what it gives over a history of operations.\<close>

locale bounded_log =
  fixes inv :: "'s \<Rightarrow> bool" and cap :: "'s \<Rightarrow> nat" and add :: "'a \<Rightarrow> 's \<Rightarrow> 's option"
    and clear :: "'s \<Rightarrow> 's" and contents :: "'s \<Rightarrow> 'a list"
  assumes add_law: "inv s \<Longrightarrow> \<exists>s'. add x s = Some s' \<and> inv s' \<and> cap s' = cap s
      \<and> contents s' = last_n (cap s) (contents s @ [x])"
    and clear_law: "inv s \<Longrightarrow> inv (clear s) \<and> cap (clear s) = cap s \<and> contents (clear s) = []"
begin

lemma run_refines: "inv s \<Longrightarrow> \<exists>s'. run_log add clear ops s = Some s' \<and> inv s' \<and> cap s' = cap s
    \<and> contents s' = recent (cap s) (contents s) ops"
proof (induction ops arbitrary: s)
  case (Cons op ops)
  then show ?case
  proof (cases op)
    case (Add_entry x)
    obtain s' where "add x s = Some s'" "inv s'" "cap s' = cap s"
        "contents s' = last_n (cap s) (contents s @ [x])"
      using add_law [OF Cons.prems] by blast
    then show ?thesis using Add_entry Cons.IH [of s'] by simp
  next
    case Clear_log
    then show ?thesis using Cons.IH [of "clear s"] clear_law [OF Cons.prems] by simp
  qed
qed simp

lemma run_from_empty:
  assumes "inv s" "contents s = []"
  shows "\<exists>s'. run_log add clear ops s = Some s' \<and> inv s' \<and> cap s' = cap s
    \<and> contents s' = last_n (cap s) (since_clear [] ops)"
  using run_refines [OF assms(1), of ops] assms(2) by (simp add: recent_Nil)

end

section \<open>The two buffers keep the contract\<close>

lemma None_neq_iff [simp]: "None \<noteq> a \<longleftrightarrow> (\<exists>y. a = Some y)"
  by (cases a) simp_all

lemma None_notin_tl: "None \<notin> set xs \<Longrightarrow> None \<notin> set (tl xs)"
  by (cases xs) auto

lemma ring_contents: "ring_inv rb \<Longrightarrow>
    map Some (Ring_GetAll zero rb) = ring (ring_data rb) (ring_tail rb) (ring_count rb)"
  by (auto simp: Ring_GetAll_def ring_inv_def ring_def image_iff split: option.splits)

lemma ring_inv_new: "0 < c \<Longrightarrow> NewRingBuffer c = Some rb \<Longrightarrow>
    ring_inv rb \<and> ring_capacity rb = nat c \<and> Ring_GetAll zero rb = []"
  by (auto simp: NewRingBuffer_def ring_inv_def ring_def Ring_GetAll_def)

lemma ring_add_window:
  assumes inv: "ring_inv rb"
  shows "\<exists>rb'. ring_add p rb = Some rb' \<and> ring_inv rb' \<and> ring_capacity rb' = ring_capacity rb
    \<and> ring (ring_data rb') (ring_tail rb') (ring_count rb')
       = last_n (ring_capacity rb) (ring (ring_data rb) (ring_tail rb) (ring_count rb) @ [Some p])"
proof (cases "ring_count rb < ring_capacity rb")
  case True
  have pos: "0 < ring_capacity rb" and hd: "length (ring_data rb) = ring_capacity rb"
      "ring_head rb = (ring_tail rb + ring_count rb) mod ring_capacity rb"
    using inv by (auto simp: ring_inv_def)
  have guard: "(ring_head rb \<ge> length (ring_data rb) \<or> ring_capacity rb = 0) = False"
    unfolding hd using pos mod_less_divisor [OF pos, of "ring_tail rb + ring_count rb"] by (metis leD less_irrefl)
  show ?thesis
    using inv True ring_snoc [of "ring_count rb" "ring_data rb" "ring_tail rb" "Some p"]
    unfolding ring_add_def Ring_Push_def guard
    by (simp add: ring_inv_def Let_def mod_simps)
next
  case False
  have eq: "ring_count rb = ring_capacity rb" "length (ring_data rb) = ring_capacity rb"
      "ring_head rb = ring_tail rb" "ring_tail rb < length (ring_data rb)"
      "0 < ring_capacity rb" "None \<notin> set (ring (ring_data rb) (ring_tail rb) (ring_capacity rb))"
    using False inv by (auto simp: ring_inv_def)
  show ?thesis
    using eq ring_slide [OF eq(4), of "Some p"] None_notin_tl [OF eq(6)]
    by (simp add: ring_add_def Ring_Push_def ring_inv_def Let_def last_n_snoc_full)
qed


lemma map_Some_inj: "map Some xs = map Some ys \<longleftrightarrow> xs = ys"
  by (simp add: inj_map_eq_map)

lemma last_n_map: "last_n n (map f xs) = map f (last_n n xs)"
  by (simp add: last_n_def drop_map)

interpretation rings: bounded_log ring_inv ring_capacity ring_add Ring_Clear "Ring_GetAll zero" for zero :: 'p
proof unfold_locales
  fix rb :: "'p RingBuffer" and p
  assume inv: "ring_inv rb"
  then obtain rb' where rb': "ring_add p rb = Some rb'" "ring_inv rb'"
      "ring_capacity rb' = ring_capacity rb"
      "ring (ring_data rb') (ring_tail rb') (ring_count rb')
       = last_n (ring_capacity rb) (ring (ring_data rb) (ring_tail rb) (ring_count rb) @ [Some p])"
    using ring_add_window [OF inv, of p] by (elim exE conjE) (rule that)
  have "map Some (Ring_GetAll zero rb') = map Some (last_n (ring_capacity rb) (Ring_GetAll zero rb @ [p]))"
    unfolding ring_contents [OF rb'(2)] rb'(4) last_n_map [symmetric]
    by (simp only: map_append list.map ring_contents [OF inv])
  then show "\<exists>rb'. ring_add p rb = Some rb' \<and> ring_inv rb' \<and> ring_capacity rb' = ring_capacity rb
      \<and> Ring_GetAll zero rb' = last_n (ring_capacity rb) (Ring_GetAll zero rb @ [p])"
    using rb'(1-3) unfolding map_Some_inj by blast
qed (simp_all add: Ring_Clear_def ring_inv_def ring_def Ring_GetAll_def)

lemma log_window_full: "log_inv b \<Longrightarrow> log_isFull b \<Longrightarrow> log_window b = ring (log_entries b) (log_tail b) (log_maxSize b)"
  by (simp add: log_window_def log_inv_def)

lemma log_append_window:
  assumes inv: "log_inv b"
  shows "\<exists>b'. log_add e b = Some b' \<and> log_inv b' \<and> log_maxSize b' = log_maxSize b
    \<and> log_observers b' = log_observers b
    \<and> log_window b' = last_n (log_maxSize b) (log_window b @ [Some e])"
proof (cases "log_isFull b")
  case True
  have eq: "length (log_entries b) = log_maxSize b" "log_head b = log_tail b"
      "log_tail b < length (log_entries b)" "0 < log_maxSize b"
      "None \<notin> set (ring (log_entries b) (log_tail b) (log_maxSize b))"
    using True inv by (auto simp: log_inv_def log_window_def)
  show ?thesis
    using eq True ring_slide [OF eq(3), of "Some e"] None_notin_tl [OF eq(5)]
    by (simp add: log_add_def Log_Append_def log_inv_def log_window_def Let_def last_n_snoc_full)
next
  case False
  have eq: "length (log_entries b) = log_maxSize b" "log_head b = 0" "log_tail b < length (log_entries b)"
      "None \<notin> set (ring (log_entries b) 0 (log_tail b))"
    using False inv by (auto simp: log_inv_def log_window_def)
  have snoc: "ring ((log_entries b)[log_tail b := Some e]) 0 (Suc (log_tail b))
      = ring (log_entries b) 0 (log_tail b) @ [Some e]"
    using ring_snoc [OF eq(3), of 0 "Some e"] eq(3) by simp
  show ?thesis
  proof (cases "Suc (log_tail b) = log_maxSize b")
    case wrap: True
    then show ?thesis using eq False snoc
      by (simp add: log_add_def Log_Append_def log_inv_def log_window_def Let_def)
  next
    case False
    then have "Suc (log_tail b) < log_maxSize b" using eq by simp
    then show ?thesis using eq \<open>\<not> log_isFull b\<close> snoc
      by (simp add: log_add_def Log_Append_def log_inv_def log_window_def Let_def)
  qed
qed

lemma concat_pick: "concat (map (\<lambda>i. case d ! (f i) of None \<Rightarrow> [] | Some e \<Rightarrow> if P e then [e] else []) is)
    = filter P (concat (map (\<lambda>i. case d ! (f i) of None \<Rightarrow> [] | Some e \<Rightarrow> [e]) is))"
  by (induction "is") (auto split: option.splits)

lemma concat_somes: "None \<notin> set xs \<Longrightarrow> map Some (concat (map (\<lambda>x. case x of None \<Rightarrow> [] | Some e \<Rightarrow> [e]) xs)) = xs"
  by (induction xs) (auto split: option.splits)

lemma log_get_window:
  assumes "log_inv b"
  shows "map Some (Log_GetAll b) = log_window b"
proof -
  define idx where "idx = (\<lambda>i. if log_isFull b then (log_head b + i) mod log_maxSize b else i)"
  define n where "n = (if log_isFull b then log_maxSize b else log_tail b)"
  have window: "log_window b = map (\<lambda>i. log_entries b ! idx i) [0..<n]"
    using assms by (auto simp: log_window_def ring_def log_inv_def idx_def n_def)
  have "Log_GetAll b = concat (map (\<lambda>x. case x of None \<Rightarrow> [] | Some e \<Rightarrow> [e]) (log_window b))"
    unfolding window
    by (auto simp: Log_GetAll_def Log_Get_def matchesFilter_def idx_def n_def Let_def comp_def
        cong: option.case_cong)
  then show ?thesis using assms concat_somes [of "log_window b"] by (simp add: log_inv_def)
qed

text \<open>Every read of the log is a filter of the whole of it, cut to the end when there is a limit.\<close>

lemma log_get_filter: "Log_Get limit level source b =
    (let r = filter (\<lambda>e. matchesFilter e level source) (Log_GetAll b)
     in if limit > 0 then last_n (nat limit) r else r)"
proof -
  have all: "Log_Get 0 level source b = filter (\<lambda>e. matchesFilter e level source) (Log_GetAll b)"
    unfolding Log_GetAll_def Log_Get_def Let_def
    by (auto simp: matchesFilter_def concat_pick [where P = "\<lambda>e. matchesFilter e level source", unfolded matchesFilter_def]
        cong: option.case_cong)
  show ?thesis unfolding all [symmetric]
    by (auto simp: Log_Get_def last_n_def Let_def)
qed

interpretation logs: bounded_log log_inv log_maxSize log_add Log_Clear Log_GetAll
proof unfold_locales
  fix b e
  assume inv: "log_inv b"
  then obtain b' where b': "log_add e b = Some b'" "log_inv b'" "log_maxSize b' = log_maxSize b"
      "log_window b' = last_n (log_maxSize b) (log_window b @ [Some e])"
    using log_append_window by blast
  have "map Some (Log_GetAll b') = map Some (last_n (log_maxSize b) (Log_GetAll b @ [e]))"
    using b' log_get_window [OF inv] log_get_window [OF b'(2)] by (simp add: last_n_map [symmetric])
  then show "\<exists>b'. log_add e b = Some b' \<and> log_inv b' \<and> log_maxSize b' = log_maxSize b
      \<and> Log_GetAll b' = last_n (log_maxSize b) (Log_GetAll b @ [e])"
    using b' by (simp only: map_Some_inj) blast
qed (auto simp: Log_Clear_def log_inv_def log_window_def ring_def Log_GetAll_def Log_Get_def)

lemma log_inv_new: "log_inv (NewLogBuffer m)" "Log_GetAll (NewLogBuffer m) = []"
  by (auto simp: NewLogBuffer_def log_inv_def log_window_def ring_def Log_GetAll_def Log_Get_def Let_def)

lemma Log_Size_contents: "log_inv b \<Longrightarrow> Log_Size b = length (Log_GetAll b)"
  using log_get_window [of b] by (metis Log_Size_def length_map length_ring log_window_def)

section \<open>Properties\<close>

text \<open>
  The log buffer never panics, and after any history of appends and clears every read of it is
  determined by the entries appended since the last clear: the last \<^verbatim>\<open>maxSize\<close> of them, those that
  match the filter, and the last \<^verbatim>\<open>limit\<close> of these, in the order in which they were appended. The
  size it reports is the number of entries it holds.
\<close>

theorem log_buffer_refines:
  "\<exists>b. run_log log_add Log_Clear ops (NewLogBuffer m) = Some b
     \<and> (let held = last_n (nat (if m \<le> 0 then 10000 else m)) (since_clear [] ops)
        in Log_Size b = length held
         \<and> (\<forall>limit level source. Log_Get limit level source b =
              (let r = filter (\<lambda>e. matchesFilter e level source) held
               in if limit > 0 then last_n (nat limit) r else r)))"
proof -
  obtain b where b: "run_log log_add Log_Clear ops (NewLogBuffer m) = Some b" "log_inv b"
      "Log_GetAll b = last_n (log_maxSize (NewLogBuffer m)) (since_clear [] ops)"
    using logs.run_from_empty [OF log_inv_new] by blast
  moreover have "log_maxSize (NewLogBuffer m) = nat (if m \<le> 0 then 10000 else m)"
    by (simp add: NewLogBuffer_def Let_def)
  ultimately show ?thesis
    using Log_Size_contents [OF b(2)] log_get_filter by (simp add: Let_def)
qed

text \<open>
  A reader that asks for the lowest level, \<^verbatim>\<open>TRACE\<close>, gets the entries of every level: its number is
  \<open>0\<close>, the value that stands for no filter.
\<close>

lemma trace_filter_shows_all: "Log_Filter 0 source b = filter (\<lambda>e. source \<noteq> [] \<longrightarrow> Source e = source) (Log_GetAll b)"
  unfolding Log_Filter_def log_get_filter by (auto simp: matchesFilter_def intro: filter_cong)

text \<open>A ring buffer holds the last elements pushed to it, as many as its capacity.\<close>

lemma ring_keeps_last:
  assumes "0 < c"
  shows "\<exists>rb rb' :: 'p RingBuffer. NewRingBuffer c = Some rb \<and> run_log ring_add Ring_Clear ops rb = Some rb'
     \<and> Ring_GetAll zero rb' = last_n (nat c) (since_clear [] ops)"
proof -
  obtain rb :: "'p RingBuffer" where rb: "NewRingBuffer c = Some rb"
    using assms by (simp add: NewRingBuffer_def)
  then show ?thesis using ring_inv_new [OF assms rb] rings.run_from_empty [where s = rb and ops = ops and zero = zero] by metis
qed

text \<open>The latest element is the last of those that can be read.\<close>

lemma ring_latest:
  assumes inv: "ring_inv rb"
  shows "Ring_GetLatest rb = (if Ring_GetAll zero rb = [] then None else Some (last (Ring_GetAll zero rb)))"
proof (cases "ring_count rb = 0")
  case False
  define c where "c = ring_capacity rb"
  define n where "n = ring_count rb - 1"
  have n: "ring_count rb = Suc n" "Suc n \<le> c" using False inv by (auto simp: n_def c_def ring_inv_def)
  have hd: "ring_head rb = (ring_tail rb + Suc n) mod c" "length (ring_data rb) = c"
    using inv n by (auto simp: ring_inv_def c_def)
  have "nat ((int (ring_head rb) - 1 + int c) mod int c) = (ring_tail rb + n) mod c"
  proof -
    have "(int (ring_head rb) - 1 + int c) mod int c = (int (ring_tail rb) + int n) mod int c"
      unfolding hd by (simp add: zmod_int mod_simps)
    then show ?thesis by (metis nat_int of_nat_add zmod_int)
  qed
  then have idx: "ring_data rb ! nat ((int (ring_head rb) - 1 + int c) mod int c)
      = last (ring (ring_data rb) (ring_tail rb) (ring_count rb))"
    using hd n by (simp add: ring_def)
  have "last (map Some (Ring_GetAll zero rb)) = Some (last (Ring_GetAll zero rb))" "Ring_GetAll zero rb \<noteq> []"
    using False by (simp_all add: Ring_GetAll_def last_map)
  then show ?thesis using idx ring_contents [OF inv, of zero] False
    by (simp add: Ring_GetLatest_def c_def [symmetric])
qed (simp add: Ring_GetLatest_def Ring_GetAll_def)

lemma ring_size: "ring_inv rb \<Longrightarrow> Ring_Size rb = length (Ring_GetAll zero rb)"
  by (simp add: Ring_Size_def Ring_GetAll_def)

text \<open>What the chart returns since a time is what it returns, filtered.\<close>

lemma chart_since_filter:
  assumes "ring_inv rb"
  shows "Chart_GetSince t rb = filter (\<lambda>p. sint t \<le> sint (Timestamp p)) (Chart_GetAll rb)"
proof -
  let ?pt = "\<lambda>x. case x of None \<Rightarrow> [] | Some p \<Rightarrow> [p]"
  let ?w = "ring (ring_data rb) (ring_tail rb) (ring_count rb)"
  have "map Some (concat (map ?pt ?w)) = map Some (Chart_GetAll rb)"
    using assms concat_somes [of ?w] ring_contents [OF assms, of zero_point] by (simp add: ring_inv_def)
  then have all: "concat (map ?pt ?w) = Chart_GetAll rb" by (simp only: map_Some_inj)
  have "concat (map ?pt ?w) = concat (map (\<lambda>i. ?pt (ring_data rb ! ((ring_tail rb + i) mod ring_capacity rb))) [0..<ring_count rb])"
    using assms by (simp add: ring_def ring_inv_def comp_def)
  then show ?thesis unfolding all [symmetric] Chart_GetSince_def concat_pick
    by (simp add: ring_def)
qed

end
