(* ===== verification/Traffic_Stats.thy ===== *)
theory Traffic_Stats
  imports Ring_Buffer Metadata "HOL-Library.AList" "HOL-Library.Signed_Division"
begin

text \<open>
  The traffic statistics of the connections: the manager that counts bytes and knows the open
  connections (\<^verbatim>\<open>src/processor/statistic/manager.go\<close>), the trackers that wrap a connection
  (\<^verbatim>\<open>tracker.go\<close>) and the collector that samples the manager once a second into three ring buffers
  (\<^verbatim>\<open>collector.go\<close>, \<^verbatim>\<open>stats_types.go\<close>).

  Trackers are pointers: a world holds all of them in a list, and the table of the manager refers to
  them by position. Byte counts are 64-bit words and wrap. The table is a \<^verbatim>\<open>sync.Map\<close>, whose iteration
  order is not specified; it is an association list here. What \<^verbatim>\<open>uuid.NewRandom\<close> returns is an
  argument of the operation that calls it.
\<close>

section \<open>Data\<close>

record TrafficStats =
  ts_Timestamp :: int
  ts_ActiveConnections :: "32 word"
  ts_UploadBytes :: uint64
  ts_DownloadBytes :: uint64

definition zero_stats :: TrafficStats where
  "zero_stats = \<lparr>ts_Timestamp = 0, ts_ActiveConnections = 0, ts_UploadBytes = 0, ts_DownloadBytes = 0\<rparr>"

definition NewTrafficStats :: "int \<Rightarrow> 32 word \<Rightarrow> uint64 \<Rightarrow> uint64 \<Rightarrow> TrafficStats" where
  "NewTrafficStats now activeConns uploadBytes downloadBytes =
     \<lparr>ts_Timestamp = now, ts_ActiveConnections = activeConns, ts_UploadBytes = uploadBytes,
      ts_DownloadBytes = downloadBytes\<rparr>"

record tracker =
  tk_udp :: bool
  tk_ID :: string
  tk_Metadata :: "Metadata option"
  tk_UploadTotal :: uint64
  tk_DownloadTotal :: uint64
  tk_TrackTraffic :: bool
  tk_closed :: bool

record Manager =
  mg_connections :: "(string \<times> nat) list"
  mg_uploadTemp :: uint64
  mg_downloadTemp :: uint64
  mg_uploadBlip :: uint64
  mg_downloadBlip :: uint64
  mg_uploadTotal :: uint64
  mg_downloadTotal :: uint64

record stats_world =
  sw_manager :: Manager
  sw_trackers :: "tracker list"

definition DefaultManager :: Manager where
  "DefaultManager = \<lparr>mg_connections = [], mg_uploadTemp = 0, mg_downloadTemp = 0, mg_uploadBlip = 0,
     mg_downloadBlip = 0, mg_uploadTotal = 0, mg_downloadTotal = 0\<rparr>"

definition new_world :: stats_world where
  "new_world = \<lparr>sw_manager = DefaultManager, sw_trackers = []\<rparr>"

section \<open>The manager\<close>

definition Join :: "string \<Rightarrow> nat \<Rightarrow> Manager \<Rightarrow> Manager" where
  "Join uid c m = m\<lparr>mg_connections := AList.update uid c (mg_connections m)\<rparr>"

definition Leave :: "string \<Rightarrow> Manager \<Rightarrow> Manager" where
  "Leave uid m = m\<lparr>mg_connections := AList.delete uid (mg_connections m)\<rparr>"

definition PushUploaded :: "uint64 \<Rightarrow> Manager \<Rightarrow> Manager" where
  "PushUploaded n m = m\<lparr>mg_uploadTemp := mg_uploadTemp m + n, mg_uploadTotal := mg_uploadTotal m + n\<rparr>"

definition PushDownloaded :: "uint64 \<Rightarrow> Manager \<Rightarrow> Manager" where
  "PushDownloaded n m = m\<lparr>mg_downloadTemp := mg_downloadTemp m + n, mg_downloadTotal := mg_downloadTotal m + n\<rparr>"

definition Manager_Now :: "Manager \<Rightarrow> uint64 \<times> uint64" where
  "Manager_Now m = (mg_uploadBlip m, mg_downloadBlip m)"

definition ResetStatistic :: "Manager \<Rightarrow> Manager" where
  "ResetStatistic m = m\<lparr>mg_uploadTemp := 0, mg_uploadBlip := 0, mg_uploadTotal := 0,
     mg_downloadTemp := 0, mg_downloadBlip := 0, mg_downloadTotal := 0\<rparr>"

text \<open>One turn of the loop of \<^verbatim>\<open>handle\<close>, run without interruption.\<close>

definition handle_tick :: "Manager \<Rightarrow> Manager" where
  "handle_tick m = m\<lparr>mg_uploadBlip := mg_uploadTemp m, mg_uploadTemp := 0,
     mg_downloadBlip := mg_downloadTemp m, mg_downloadTemp := 0\<rparr>"

record RouteStats =
  rs_RouteType :: string
  rs_ConnectionCount :: nat
  rs_UploadTotal :: uint64
  rs_DownloadTotal :: uint64
  rs_AverageUpload :: uint64
  rs_AverageDownload :: uint64

record traffic_snapshot =
  sn_DownloadTotal :: uint64
  sn_UploadTotal :: uint64
  sn_Connections :: "nat list"
  sn_ByRoute :: "string \<rightharpoonup> RouteStats"

definition empty_route :: "string \<Rightarrow> RouteStats" where
  "empty_route r = \<lparr>rs_RouteType = r, rs_ConnectionCount = 0, rs_UploadTotal = 0, rs_DownloadTotal = 0,
     rs_AverageUpload = 0, rs_AverageDownload = 0\<rparr>"

text \<open>
  The callback of \<^verbatim>\<open>Range\<close>. It dereferences the metadata of the tracker, which is a panic when there
  is none.
\<close>

definition snapshot_visit :: "tracker list \<Rightarrow> nat \<Rightarrow> (string \<rightharpoonup> RouteStats) \<Rightarrow> (string \<rightharpoonup> RouteStats) option" where
  "snapshot_visit ts i byRoute =
     (let t = ts ! i in
      case tk_Metadata t of None \<Rightarrow> None
      | Some md \<Rightarrow>
          let route = md_Route md in
          if route = [] \<or> route = ''RouteDirect'' then Some byRoute
          else case byRoute route of
                 Some stats \<Rightarrow> Some (byRoute(route \<mapsto>
                   stats\<lparr>rs_ConnectionCount := rs_ConnectionCount stats + 1,
                         rs_UploadTotal := rs_UploadTotal stats + tk_UploadTotal t,
                         rs_DownloadTotal := rs_DownloadTotal stats + tk_DownloadTotal t\<rparr>))
               | None \<Rightarrow> Some (byRoute(route \<mapsto>
                   (empty_route route)\<lparr>rs_ConnectionCount := 1, rs_UploadTotal := tk_UploadTotal t,
                         rs_DownloadTotal := tk_DownloadTotal t\<rparr>)))"

fun snapshot_range :: "tracker list \<Rightarrow> nat list \<Rightarrow> (string \<rightharpoonup> RouteStats) \<Rightarrow> (string \<rightharpoonup> RouteStats) option" where
  "snapshot_range ts [] byRoute = Some byRoute"
| "snapshot_range ts (i # is) byRoute =
     (case snapshot_visit ts i byRoute of None \<Rightarrow> None | Some b \<Rightarrow> snapshot_range ts is b)"

definition route_average :: "RouteStats \<Rightarrow> RouteStats" where
  "route_average stats =
     (if rs_ConnectionCount stats > 0
      then stats\<lparr>rs_AverageUpload := word_of_int (sint (rs_UploadTotal stats) sdiv int (rs_ConnectionCount stats)),
                 rs_AverageDownload := word_of_int (sint (rs_DownloadTotal stats) sdiv int (rs_ConnectionCount stats))\<rparr>
      else stats)"

definition Manager_Snapshot :: "stats_world \<Rightarrow> traffic_snapshot option" where
  "Manager_Snapshot w =
     (let m = sw_manager w; conns = map snd (mg_connections m);
          byRoute0 = [''RouteToALiang'' \<mapsto> empty_route ''RouteToALiang'', ''RouteToSocks'' \<mapsto> empty_route ''RouteToSocks'']
      in case snapshot_range (sw_trackers w) conns byRoute0 of None \<Rightarrow> None
         | Some byRoute \<Rightarrow>
             Some \<lparr>sn_DownloadTotal = mg_downloadTotal m, sn_UploadTotal = mg_uploadTotal m,
                   sn_Connections = conns, sn_ByRoute = map_option route_average \<circ> byRoute\<rparr>)"

section \<open>The trackers\<close>

definition shouldTrackTraffic :: "Metadata option \<Rightarrow> bool" where
  "shouldTrackTraffic metadata =
     (case metadata of None \<Rightarrow> True | Some md \<Rightarrow> md_Route md \<noteq> ''RouteDirect'')"

definition new_tracker :: "bool \<Rightarrow> string \<Rightarrow> Metadata option \<Rightarrow> tracker" where
  "new_tracker udp uid metadata = \<lparr>tk_udp = udp, tk_ID = uid, tk_Metadata = metadata, tk_UploadTotal = 0,
     tk_DownloadTotal = 0, tk_TrackTraffic = shouldTrackTraffic metadata, tk_closed = False\<rparr>"

definition add_tracker :: "tracker \<Rightarrow> stats_world \<Rightarrow> stats_world" where
  "add_tracker t w =
     (let i = length (sw_trackers w); w1 = w\<lparr>sw_trackers := sw_trackers w @ [t]\<rparr>
      in if tk_TrackTraffic t then w1\<lparr>sw_manager := Join (tk_ID t) i (sw_manager w1)\<rparr> else w1)"

definition NewTCPTracker :: "string \<Rightarrow> Metadata option \<Rightarrow> stats_world \<Rightarrow> stats_world" where
  "NewTCPTracker uid metadata w = add_tracker (new_tracker False uid metadata) w"

definition NewUDPTracker :: "string \<Rightarrow> Metadata option \<Rightarrow> stats_world \<Rightarrow> stats_world" where
  "NewUDPTracker uid metadata w = add_tracker (new_tracker True uid metadata) w"

text \<open>
  Reading and writing, given the number of bytes the wrapped connection transferred. The packet
  connections have copies of the same bodies.
\<close>

definition Tracker_Read :: "nat \<Rightarrow> uint64 \<Rightarrow> stats_world \<Rightarrow> stats_world" where
  "Tracker_Read i n w =
     (let t = sw_trackers w ! i in
      if \<not> tk_TrackTraffic t then w
      else w\<lparr>sw_manager := PushDownloaded n (sw_manager w),
             sw_trackers := (sw_trackers w)[i := t\<lparr>tk_DownloadTotal := tk_DownloadTotal t + n\<rparr>]\<rparr>)"

definition Tracker_Write :: "nat \<Rightarrow> uint64 \<Rightarrow> stats_world \<Rightarrow> stats_world" where
  "Tracker_Write i n w =
     (let t = sw_trackers w ! i in
      if \<not> tk_TrackTraffic t then w
      else w\<lparr>sw_manager := PushUploaded n (sw_manager w),
             sw_trackers := (sw_trackers w)[i := t\<lparr>tk_UploadTotal := tk_UploadTotal t + n\<rparr>]\<rparr>)"

definition Tracker_Close :: "nat \<Rightarrow> stats_world \<Rightarrow> stats_world" where
  "Tracker_Close i w =
     (let t = sw_trackers w ! i in
      if tk_closed t then w
      else w\<lparr>sw_manager := Leave (tk_ID t) (sw_manager w),
             sw_trackers := (sw_trackers w)[i := t\<lparr>tk_closed := True\<rparr>]\<rparr>)"

definition Tracker_ReadFrom :: "nat \<Rightarrow> uint64 \<Rightarrow> stats_world \<Rightarrow> stats_world" where
  [simp]: "Tracker_ReadFrom i n w = Tracker_Read i n w"

definition Tracker_WriteTo :: "nat \<Rightarrow> uint64 \<Rightarrow> stats_world \<Rightarrow> stats_world" where
  [simp]: "Tracker_WriteTo i n w = Tracker_Write i n w"

definition Tracker_CloseUDP :: "nat \<Rightarrow> stats_world \<Rightarrow> stats_world" where
  [simp]: "Tracker_CloseUDP i w = Tracker_Close i w"

section \<open>Histories\<close>

text \<open>
  What can happen to the statistics. \<open>Reroute\<close> is the handler writing the route into the metadata
  that a tracker shares with it.
\<close>

datatype traffic_op = OpenTCP string "Metadata option" | OpenUDP string "Metadata option"
  | Received nat uint64 | Sent nat uint64 | CloseOp nat | Second | ResetOp | Reroute nat string

definition reroute :: "nat \<Rightarrow> string \<Rightarrow> stats_world \<Rightarrow> stats_world" where
  "reroute i r w =
     (let t = sw_trackers w ! i in
      w\<lparr>sw_trackers := (sw_trackers w)[i := t\<lparr>tk_Metadata := map_option (\<lambda>md. md\<lparr>md_Route := r\<rparr>) (tk_Metadata t)\<rparr>]\<rparr>)"

text \<open>An operation on a connection that was never opened does not occur; it is skipped.\<close>

fun traffic_step :: "traffic_op \<Rightarrow> stats_world \<Rightarrow> stats_world" where
  "traffic_step (OpenTCP uid md) w = NewTCPTracker uid md w"
| "traffic_step (OpenUDP uid md) w = NewUDPTracker uid md w"
| "traffic_step (Received i n) w = 
     (if i < length (sw_trackers w)
      then if tk_udp (sw_trackers w ! i) then Tracker_ReadFrom i n w else Tracker_Read i n w else w)"
| "traffic_step (Sent i n) w = 
     (if i < length (sw_trackers w)
      then if tk_udp (sw_trackers w ! i) then Tracker_WriteTo i n w else Tracker_Write i n w else w)"
| "traffic_step (CloseOp i) w = 
     (if i < length (sw_trackers w)
      then if tk_udp (sw_trackers w ! i) then Tracker_CloseUDP i w else Tracker_Close i w else w)"
| "traffic_step Second w = w\<lparr>sw_manager := handle_tick (sw_manager w)\<rparr>"
| "traffic_step ResetOp w = w\<lparr>sw_manager := ResetStatistic (sw_manager w)\<rparr>"
| "traffic_step (Reroute i r) w = (if i < length (sw_trackers w) then reroute i r w else w)"

definition run_traffic :: "traffic_op list \<Rightarrow> stats_world \<Rightarrow> stats_world" where
  "run_traffic ops w = fold traffic_step ops w"

fun opened :: "traffic_op list \<Rightarrow> string list" where
  "opened [] = []"
| "opened (OpenTCP uid md # ops) = uid # opened ops"
| "opened (OpenUDP uid md # ops) = uid # opened ops"
| "opened (_ # ops) = opened ops"

definition sent_total :: "stats_world \<Rightarrow> uint64" where
  "sent_total w = sum_list (map tk_UploadTotal (sw_trackers w))"

definition received_total :: "stats_world \<Rightarrow> uint64" where
  "received_total w = sum_list (map tk_DownloadTotal (sw_trackers w))"

text \<open>The connections that are counted and not yet closed.\<close>

definition live :: "stats_world \<Rightarrow> nat set" where
  "live w = {i. i < length (sw_trackers w) \<and> tk_TrackTraffic (sw_trackers w ! i) \<and> \<not> tk_closed (sw_trackers w ! i)}"

definition route_of :: "stats_world \<Rightarrow> nat \<Rightarrow> string" where
  "route_of w i = (case tk_Metadata (sw_trackers w ! i) of None \<Rightarrow> [] | Some md \<Rightarrow> md_Route md)"

section \<open>The rate, step by step\<close>

text \<open>
  The counters are separate atomics: a push adds to \<^verbatim>\<open>uploadTemp\<close> and then to \<^verbatim>\<open>uploadTotal\<close>, and the
  loop of \<^verbatim>\<open>handle\<close> loads \<^verbatim>\<open>uploadTemp\<close>, stores the value as the rate and then stores zero. Pushes of
  other goroutines fall between any two of these steps. The last four components record what
  happened: the pushes that have not reached the total, the bytes pushed, the sum of all published
  rates, and the bytes that were overwritten by the store of zero.
\<close>

record rate_state =
  rt_temp :: uint64
  rt_blip :: uint64
  rt_total :: uint64
  rt_reg :: uint64
  rt_pc :: nat
  rt_pending :: "uint64 list"
  rt_pushed :: uint64
  rt_reported :: uint64
  rt_lost :: uint64

definition rate_init :: rate_state where
  "rate_init = \<lparr>rt_temp = 0, rt_blip = 0, rt_total = 0, rt_reg = 0, rt_pc = 0, rt_pending = [],
     rt_pushed = 0, rt_reported = 0, rt_lost = 0\<rparr>"

inductive rate_step :: "rate_state \<Rightarrow> rate_state \<Rightarrow> bool" where
  push_temp: "rate_step s (s\<lparr>rt_temp := rt_temp s + n, rt_pending := n # rt_pending s,
                rt_pushed := rt_pushed s + n\<rparr>)"
| push_total: "n \<in> set (rt_pending s) \<Longrightarrow>
     rate_step s (s\<lparr>rt_total := rt_total s + n, rt_pending := remove1 n (rt_pending s)\<rparr>)"
| load: "rt_pc s = 0 \<Longrightarrow> rate_step s (s\<lparr>rt_reg := rt_temp s, rt_pc := 1\<rparr>)"
| publish: "rt_pc s = 1 \<Longrightarrow> rate_step s (s\<lparr>rt_blip := rt_reg s, rt_reported := rt_reported s + rt_reg s, rt_pc := 2\<rparr>)"
| clear_temp: "rt_pc s = 2 \<Longrightarrow>
     rate_step s (s\<lparr>rt_temp := 0, rt_lost := rt_lost s + (rt_temp s - rt_reg s), rt_pc := 0\<rparr>)"

inductive_cases rate_stepE: "rate_step s s'"

section \<open>The collector\<close>

record StatsCollector =
  cl_cache1s :: "TrafficStats RingBuffer"
  cl_cache5s :: "TrafficStats RingBuffer"
  cl_cache15s :: "TrafficStats RingBuffer"
  cl_count5s :: nat
  cl_count15s :: nat

definition NewStatsCollector :: "StatsCollector option" where
  "NewStatsCollector =
     (case (NewRingBuffer 300, NewRingBuffer 300, NewRingBuffer 300) of
        (Some a, Some b, Some c) \<Rightarrow>
          Some \<lparr>cl_cache1s = a, cl_cache5s = b, cl_cache15s = c, cl_count5s = 0, cl_count15s = 0\<rparr>
      | _ \<Rightarrow> None)"

definition collect :: "TrafficStats \<Rightarrow> StatsCollector \<Rightarrow> StatsCollector option" where
  "collect stats c =
     (case Ring_Push (Some stats) (cl_cache1s c) of None \<Rightarrow> None
      | Some b1 \<Rightarrow>
          let c1 = c\<lparr>cl_cache1s := b1, cl_count5s := cl_count5s c + 1, cl_count15s := cl_count15s c + 1\<rparr> in
          case (if cl_count5s c1 \<ge> 5 then Ring_Push (Some stats) (cl_cache5s c1) else Some (cl_cache5s c1)) of
            None \<Rightarrow> None
          | Some b5 \<Rightarrow>
              let c2 = (if cl_count5s c1 \<ge> 5 then c1\<lparr>cl_cache5s := b5, cl_count5s := 0\<rparr> else c1) in
              case (if cl_count15s c2 \<ge> 15 then Ring_Push (Some stats) (cl_cache15s c2) else Some (cl_cache15s c2)) of
                None \<Rightarrow> None
              | Some b15 \<Rightarrow>
                  Some (if cl_count15s c2 \<ge> 15 then c2\<lparr>cl_cache15s := b15, cl_count15s := 0\<rparr> else c2))"

definition collectStats :: "int \<Rightarrow> stats_world \<Rightarrow> StatsCollector \<Rightarrow> StatsCollector option" where
  "collectStats now w c =
     (case Manager_Snapshot w of None \<Rightarrow> None
      | Some sn \<Rightarrow> collect (NewTrafficStats now (of_nat (length (sn_Connections sn)))
                      (sn_UploadTotal sn) (sn_DownloadTotal sn)) c)"

datatype Timescale = Timescale1s | Timescale5s | Timescale15s | OtherTimescale string

definition Timescale_IsValid :: "Timescale \<Rightarrow> bool" where
  "Timescale_IsValid t = (case t of OtherTimescale _ \<Rightarrow> False | _ \<Rightarrow> True)"

definition cache_of :: "StatsCollector \<Rightarrow> Timescale \<Rightarrow> TrafficStats RingBuffer option" where
  "cache_of c t = (case t of Timescale1s \<Rightarrow> Some (cl_cache1s c) | Timescale5s \<Rightarrow> Some (cl_cache5s c)
     | Timescale15s \<Rightarrow> Some (cl_cache15s c) | OtherTimescale _ \<Rightarrow> None)"

definition Collector_GetStats :: "Timescale \<Rightarrow> StatsCollector \<Rightarrow> (32 word \<times> TrafficStats list) option" where
  "Collector_GetStats t c =
     (case cache_of c t of None \<Rightarrow> None
      | Some cache \<Rightarrow>
          Some (case Ring_GetLatest cache of None \<Rightarrow> 0 | Some latest \<Rightarrow> ts_ActiveConnections latest,
                Ring_GetAll zero_stats cache))"

record CurrentStats =
  cs_Timestamp :: int
  cs_ActiveConnections :: "32 word"
  cs_UploadBytes :: uint64
  cs_DownloadBytes :: uint64
  cs_UploadRate :: uint64
  cs_DownloadRate :: uint64

definition GetCurrent :: "int \<Rightarrow> stats_world \<Rightarrow> CurrentStats option" where
  "GetCurrent now w =
     (case Manager_Snapshot w of None \<Rightarrow> None
      | Some sn \<Rightarrow>
          let (up, down) = Manager_Now (sw_manager w)
          in Some \<lparr>cs_Timestamp = now, cs_ActiveConnections = of_nat (length (sn_Connections sn)),
                   cs_UploadBytes = sn_UploadTotal sn, cs_DownloadBytes = sn_DownloadTotal sn,
                   cs_UploadRate = up, cs_DownloadRate = down\<rparr>)"

definition GetCacheSize :: "StatsCollector \<Rightarrow> nat \<times> nat \<times> nat" where
  "GetCacheSize c = (Ring_Size (cl_cache1s c), Ring_Size (cl_cache5s c), Ring_Size (cl_cache15s c))"

definition Collector_ClearCache :: "StatsCollector \<Rightarrow> StatsCollector" where
  "Collector_ClearCache c = c\<lparr>cl_cache1s := Ring_Clear (cl_cache1s c), cl_cache5s := Ring_Clear (cl_cache5s c),
     cl_cache15s := Ring_Clear (cl_cache15s c), cl_count5s := 0, cl_count15s := 0\<rparr>"

text \<open>Samples taken one after another, and every \<open>k\<close>-th of a list.\<close>

fun collect_all :: "TrafficStats list \<Rightarrow> StatsCollector \<Rightarrow> StatsCollector option" where
  "collect_all [] c = Some c"
| "collect_all (s # ss) c = (case collect s c of None \<Rightarrow> None | Some c' \<Rightarrow> collect_all ss c')"

definition every :: "nat \<Rightarrow> 'a list \<Rightarrow> 'a list" where
  "every k xs = map (\<lambda>i. xs ! (k * i + (k - 1))) [0..<length xs div k]"

section \<open>The lifecycle of the background tasks\<close>

text \<open>
  Both collectors have the same \<^verbatim>\<open>Start\<close> and \<^verbatim>\<open>Stop\<close>: a flag, one channel made by the constructor,
  and one goroutine per start. \<open>lc_loops\<close> counts the goroutines that run. Closing a closed channel is
  a panic.
\<close>

record lifecycle =
  lc_started :: bool
  lc_stopClosed :: bool
  lc_loops :: nat

definition lc_new :: lifecycle where
  "lc_new = \<lparr>lc_started = False, lc_stopClosed = False, lc_loops = 0\<rparr>"

definition Collector_Start :: "lifecycle \<Rightarrow> lifecycle" where
  "Collector_Start c = (if lc_started c then c else c\<lparr>lc_started := True, lc_loops := lc_loops c + 1\<rparr>)"

definition Collector_Stop :: "lifecycle \<Rightarrow> lifecycle option" where
  "Collector_Stop c =
     (if \<not> lc_started c then Some c
      else if lc_stopClosed c then None
      else Some (c\<lparr>lc_stopClosed := True, lc_started := False\<rparr>))"

text \<open>A goroutine leaves its loop when the channel is closed.\<close>

definition loop_exit :: "lifecycle \<Rightarrow> lifecycle" where
  "loop_exit c = (if lc_stopClosed c \<and> lc_loops c > 0 then c\<lparr>lc_loops := lc_loops c - 1\<rparr> else c)"

section \<open>Specification\<close>

definition world_inv :: "stats_world \<Rightarrow> bool" where
  "world_inv w \<longleftrightarrow> distinct (map tk_ID (sw_trackers w))
     \<and> distinct (map fst (mg_connections (sw_manager w)))
     \<and> set (mg_connections (sw_manager w)) = (\<lambda>i. (tk_ID (sw_trackers w ! i), i)) ` live w"

text \<open>What a snapshot must say of a route: the open connections that take it, summed.\<close>

definition on_route :: "stats_world \<Rightarrow> string \<Rightarrow> nat list" where
  "on_route w r = filter (\<lambda>i. route_of w i = r) (map snd (mg_connections (sw_manager w)))"

definition route_summary :: "stats_world \<Rightarrow> string \<Rightarrow> RouteStats" where
  "route_summary w r = route_average \<lparr>rs_RouteType = r, rs_ConnectionCount = length (on_route w r),
     rs_UploadTotal = (\<Sum>i\<leftarrow>on_route w r. tk_UploadTotal (sw_trackers w ! i)),
     rs_DownloadTotal = (\<Sum>i\<leftarrow>on_route w r. tk_DownloadTotal (sw_trackers w ! i)),
     rs_AverageUpload = 0, rs_AverageDownload = 0\<rparr>"

section \<open>The table and the counters\<close>

lemma update_fresh: "k \<notin> fst ` set al \<Longrightarrow> AList.update k v al = al @ [(k, v)]"
  by (induction al) auto

lemma sum_list_replace:
  fixes xs :: "'a::ab_group_add list"
  shows "i < length xs \<Longrightarrow> sum_list (xs[i := x]) = sum_list xs + (x - xs ! i)"
  by (induction xs arbitrary: i) (auto simp: nth_Cons' split: nat.splits)

lemmas tracker_ops = Tracker_Read_def Tracker_Write_def Tracker_Close_def reroute_def
  NewTCPTracker_def NewUDPTracker_def add_tracker_def new_tracker_def Join_def Leave_def
  PushUploaded_def PushDownloaded_def handle_tick_def ResetStatistic_def

lemma tracker_ids: "map tk_ID (sw_trackers (traffic_step op w)) = map tk_ID (sw_trackers w) @ opened [op]"
  by (cases op) (auto simp: tracker_ops Let_def map_update intro: list_update_same_conv [THEN iffD2])

lemma totals_step: "op \<noteq> ResetOp \<Longrightarrow>
    mg_uploadTotal (sw_manager (traffic_step op w)) - sent_total (traffic_step op w)
      = mg_uploadTotal (sw_manager w) - sent_total w
    \<and> mg_downloadTotal (sw_manager (traffic_step op w)) - received_total (traffic_step op w)
      = mg_downloadTotal (sw_manager w) - received_total w"
  by (cases op) (auto simp: tracker_ops Let_def map_update sent_total_def received_total_def sum_list_replace)

lemma run_append: "run_traffic (ops @ ops') w = run_traffic ops' (run_traffic ops w)"
  by (simp add: run_traffic_def)

lemma totals_run: "ResetOp \<notin> set ops \<Longrightarrow>
    mg_uploadTotal (sw_manager (run_traffic ops w)) - sent_total (run_traffic ops w)
      = mg_uploadTotal (sw_manager w) - sent_total w
    \<and> mg_downloadTotal (sw_manager (run_traffic ops w)) - received_total (run_traffic ops w)
      = mg_downloadTotal (sw_manager w) - received_total w"
  by (induction ops arbitrary: w) (auto simp: run_traffic_def totals_step)

lemma world_inv_frame:
  assumes "world_inv w" "mg_connections (sw_manager w') = mg_connections (sw_manager w)"
    and "length (sw_trackers w') = length (sw_trackers w)"
    and "\<And>i. i < length (sw_trackers w) \<Longrightarrow> tk_ID (sw_trackers w' ! i) = tk_ID (sw_trackers w ! i)
        \<and> tk_TrackTraffic (sw_trackers w' ! i) = tk_TrackTraffic (sw_trackers w ! i)
        \<and> tk_closed (sw_trackers w' ! i) = tk_closed (sw_trackers w ! i)"
  shows "world_inv w'"
proof -
  have ids: "map tk_ID (sw_trackers w') = map tk_ID (sw_trackers w)"
    using assms(3,4) by (auto intro: nth_equalityI)
  have same: "live w' = live w" using assms(3,4) by (auto simp: live_def)
  have "(\<lambda>i. (tk_ID (sw_trackers w' ! i), i)) ` live w' = (\<lambda>i. (tk_ID (sw_trackers w ! i), i)) ` live w"
    unfolding same using assms(4) by (intro image_cong) (auto simp: live_def)
  then show ?thesis using assms(1,2) ids unfolding world_inv_def by metis
qed

lemma connection_key: "world_inv w \<Longrightarrow> (k, i) \<in> set (mg_connections (sw_manager w)) \<Longrightarrow>
    i \<in> live w \<and> k = tk_ID (sw_trackers w ! i)"
  unfolding world_inv_def by auto

lemma world_inv_add:
  assumes "world_inv w" "tk_ID t \<notin> tk_ID ` set (sw_trackers w)" "\<not> tk_closed t"
  shows "world_inv (add_tracker t w)"
proof -
  let ?n = "length (sw_trackers w)"
  have live: "live (add_tracker t w) = live w \<union> (if tk_TrackTraffic t then {?n} else {})"
    using assms(3) by (auto simp: live_def add_tracker_def Let_def nth_append less_Suc_eq)
  have fresh: "tk_ID t \<notin> fst ` set (mg_connections (sw_manager w))"
    using assms(1,2) by (auto simp: live_def dest!: connection_key)
  have tr: "sw_trackers (add_tracker t w) = sw_trackers w @ [t]"
    by (simp add: add_tracker_def Let_def)
  have conns: "mg_connections (sw_manager (add_tracker t w)) = mg_connections (sw_manager w)
      @ (if tk_TrackTraffic t then [(tk_ID t, ?n)] else [])"
    using fresh by (simp add: add_tracker_def Let_def Join_def update_fresh)
  have img: "(\<lambda>i. (tk_ID ((sw_trackers w @ [t]) ! i), i)) ` live w = (\<lambda>i. (tk_ID (sw_trackers w ! i), i)) ` live w"
    by (intro image_cong) (auto simp: live_def nth_append)
  show ?thesis using assms fresh img unfolding world_inv_def live tr conns
    by (auto simp: image_Un)
qed

lemma world_inv_close:
  assumes "world_inv w" "i < length (sw_trackers w)"
  shows "world_inv (Tracker_Close i w)"
proof (cases "tk_closed (sw_trackers w ! i)")
  case False
  let ?w = "Tracker_Close i w"
  let ?key = "\<lambda>j. (tk_ID (sw_trackers w ! j), j)"
  have ids: "distinct (map tk_ID (sw_trackers w))" using assms(1) by (simp add: world_inv_def)
  have inj: "tk_ID (sw_trackers w ! j) = tk_ID (sw_trackers w ! i) \<longleftrightarrow> j = i" if "j < length (sw_trackers w)" for j
    using ids that assms(2) by (metis length_map nth_eq_iff_index_eq nth_map)
  have live: "live ?w = live w - {i}"
    using assms(2) False by (auto simp: live_def Tracker_Close_def Let_def nth_list_update)
  have tr: "map tk_ID (sw_trackers ?w) = map tk_ID (sw_trackers w)"
    using tracker_ids [of "CloseOp i" w] assms(2) by (simp split: if_splits)
  have img: "(\<lambda>j. (tk_ID (sw_trackers ?w ! j), j)) ` (live w - {i}) = ?key ` (live w - {i})"
    using assms(2) False by (intro image_cong) (auto simp: live_def Tracker_Close_def Let_def)
  have conns: "mg_connections (sw_manager ?w)
      = filter (\<lambda>(k, j). tk_ID (sw_trackers w ! i) \<noteq> k) (mg_connections (sw_manager w))"
    using False by (simp add: Tracker_Close_def Let_def Leave_def AList.delete_eq)
  have "set (mg_connections (sw_manager ?w)) = {c \<in> ?key ` live w. tk_ID (sw_trackers w ! i) \<noteq> fst c}"
    unfolding conns using assms(1) by (auto simp: world_inv_def)
  also have "\<dots> = ?key ` (live w - {i})" using inj by (fastforce simp: live_def)
  finally have "set (mg_connections (sw_manager ?w)) = ?key ` (live w - {i})" .
  moreover have "distinct (map fst (mg_connections (sw_manager ?w)))"
    unfolding conns using assms(1) by (simp add: world_inv_def distinct_map_filter)
  ultimately show ?thesis using ids unfolding world_inv_def live tr img by simp
qed (use assms in \<open>simp add: Tracker_Close_def Let_def\<close>)

lemma world_inv_step:
  assumes "world_inv w" "set (opened [op]) \<inter> tk_ID ` set (sw_trackers w) = {}"
  shows "world_inv (traffic_step op w)"
proof (cases op)
  case (CloseOp i)
  then show ?thesis using assms world_inv_close by simp
next
  case (OpenTCP uid md)
  then show ?thesis using assms world_inv_add [of w "new_tracker False uid md"]
    by (simp add: NewTCPTracker_def new_tracker_def)
next
  case (OpenUDP uid md)
  then show ?thesis using assms world_inv_add [of w "new_tracker True uid md"]
    by (simp add: NewUDPTracker_def new_tracker_def)
qed (use assms(1) in \<open>(auto intro!: world_inv_frame [OF assms(1)] simp: tracker_ops Let_def nth_list_update split: if_splits)\<close>)

lemma opened_Cons: "opened (op # ops) = opened [op] @ opened ops"
  by (cases op) auto

lemma world_inv_run: "world_inv w \<Longrightarrow> distinct (opened ops) \<Longrightarrow>
    set (opened ops) \<inter> tk_ID ` set (sw_trackers w) = {} \<Longrightarrow> world_inv (run_traffic ops w)"
proof (induction ops arbitrary: w)
  case (Cons op ops)
  have "tk_ID ` set (sw_trackers (traffic_step op w)) = tk_ID ` set (sw_trackers w) \<union> set (opened [op])"
    using arg_cong [OF tracker_ids, of set op w] by simp
  then show ?case
    using Cons.IH [of "traffic_step op w"] Cons.prems world_inv_step [of w op]
    unfolding opened_Cons [of op ops] by (auto simp: run_traffic_def)
qed (simp add: run_traffic_def)

lemma world_inv_new: "world_inv new_world"
  by (auto simp: world_inv_def new_world_def DefaultManager_def live_def)

section \<open>Snapshots\<close>

definition merge_route :: "tracker list \<Rightarrow> string \<Rightarrow> nat list \<Rightarrow> RouteStats option \<Rightarrow> RouteStats option" where
  "merge_route ts r is x =
     (if is = [] then x
      else let b = (case x of None \<Rightarrow> empty_route r | Some b \<Rightarrow> b)
           in Some (b\<lparr>rs_ConnectionCount := rs_ConnectionCount b + length is,
                rs_UploadTotal := rs_UploadTotal b + (\<Sum>i\<leftarrow>is. tk_UploadTotal (ts ! i)),
                rs_DownloadTotal := rs_DownloadTotal b + (\<Sum>i\<leftarrow>is. tk_DownloadTotal (ts ! i))\<rparr>))"

definition tracker_route :: "tracker \<Rightarrow> string" where
  "tracker_route t = (case tk_Metadata t of None \<Rightarrow> [] | Some md \<Rightarrow> md_Route md)"

lemma snapshot_visit_route:
  assumes "snapshot_visit ts i b = Some b'"
  shows "b' r = (if tracker_route (ts ! i) = r \<and> r \<noteq> [] \<and> r \<noteq> ''RouteDirect'' then merge_route ts r [i] (b r) else b r)"
  using assms
  by (auto simp: snapshot_visit_def tracker_route_def merge_route_def Let_def empty_route_def
      split: option.splits if_splits)

lemma merge_route_Cons: "merge_route ts r is (merge_route ts r [i] x) = merge_route ts r (i # is) x"
  by (cases x) (auto simp: merge_route_def Let_def add_ac)

lemma snapshot_range_route:
  assumes "r \<noteq> []" "r \<noteq> ''RouteDirect''"
  shows "snapshot_range ts is b = Some b' \<Longrightarrow>
    b' r = merge_route ts r (filter (\<lambda>i. tracker_route (ts ! i) = r) is) (b r)"
proof (induction "is" arbitrary: b)
  case Nil
  then show ?case by (simp add: merge_route_def)
next
  case (Cons i "is")
  then obtain b1 where b1: "snapshot_visit ts i b = Some b1" "snapshot_range ts is b1 = Some b'"
    by (auto split: option.splits)
  then show ?case using Cons.IH [OF b1(2)] snapshot_visit_route [OF b1(1), of r] assms
    by (auto simp: merge_route_Cons)
qed

lemma snapshot_range_skips:
  assumes "r = [] \<or> r = ''RouteDirect''"
  shows "snapshot_range ts is b = Some b' \<Longrightarrow> b' r = b r"
proof (induction "is" arbitrary: b)
  case (Cons i "is")
  then obtain b1 where b1: "snapshot_visit ts i b = Some b1" "snapshot_range ts is b1 = Some b'"
    by (auto split: option.splits)
  then show ?case using Cons.IH [OF b1(2)] snapshot_visit_route [OF b1(1), of r] assms by auto
qed simp

text \<open>A snapshot panics exactly when a connection without metadata is in the table.\<close>

lemma snapshot_range_defined: "snapshot_range ts is b = None \<longleftrightarrow> (\<exists>i\<in>set is. tk_Metadata (ts ! i) = None)"
proof (induction "is" arbitrary: b)
  case (Cons i "is")
  have "snapshot_visit ts i b = None \<longleftrightarrow> tk_Metadata (ts ! i) = None"
    by (auto simp: snapshot_visit_def Let_def split: option.splits)
  then show ?case using Cons.IH by (auto split: option.splits)
qed simp

lemma snapshot_panics_iff: "Manager_Snapshot w = None \<longleftrightarrow>
    (\<exists>i\<in>set (map snd (mg_connections (sw_manager w))). tk_Metadata (sw_trackers w ! i) = None)"
  unfolding Manager_Snapshot_def Let_def
  by (simp only: snapshot_range_defined [symmetric, where b = "[''RouteToALiang'' \<mapsto> empty_route ''RouteToALiang'',
        ''RouteToSocks'' \<mapsto> empty_route ''RouteToSocks'']"] split: option.split) simp

lemma route_average_zero: "rs_ConnectionCount s = 0 \<Longrightarrow> route_average s = s"
  by (simp add: route_average_def)

lemma snapshot_by_route:
  assumes "Manager_Snapshot w = Some s"
  shows "sn_ByRoute s r =
    (if r \<in> {''RouteToALiang'', ''RouteToSocks''} \<or> (on_route w r \<noteq> [] \<and> r \<notin> {[], ''RouteDirect''})
     then Some (route_summary w r) else None)"
proof -
  define b0 where "b0 = [''RouteToALiang'' \<mapsto> empty_route ''RouteToALiang'', ''RouteToSocks'' \<mapsto> empty_route ''RouteToSocks'']"
  define ts where "ts = sw_trackers w"
  define conns where "conns = map snd (mg_connections (sw_manager w))"
  obtain b where b: "snapshot_range ts conns b0 = Some b" "sn_ByRoute s = map_option route_average \<circ> b"
    using assms by (auto simp: Manager_Snapshot_def Let_def ts_def conns_def b0_def split: option.splits)
  have sel: "filter (\<lambda>i. tracker_route (ts ! i) = r) conns = on_route w r"
    by (simp add: on_route_def ts_def conns_def tracker_route_def route_of_def)
  show ?thesis
  proof (cases "r = [] \<or> r = ''RouteDirect''")
    case True
    then have "b r = b0 r" using snapshot_range_skips [OF True b(1)] by simp
    then show ?thesis using True b(2) by (auto simp: b0_def)
  next
    case False
    then have br: "b r = merge_route ts r (on_route w r) (b0 r)"
      using snapshot_range_route [OF _ _ b(1), of r] sel by simp
    show ?thesis
      using False b(2) unfolding comp_def b(2) br
      by (cases "on_route w r = []")
        (auto simp: merge_route_def b0_def empty_route_def route_summary_def ts_def Let_def)
  qed
qed

lemma totals_since_reset:
  assumes "before = [] \<or> last before = ResetOp"
  shows "mg_uploadTotal (sw_manager (run_traffic before new_world)) = 0
    \<and> mg_downloadTotal (sw_manager (run_traffic before new_world)) = 0"
proof (cases before rule: rev_cases)
  case (snoc ops op)
  then show ?thesis using assms
    by (simp add: run_traffic_def ResetStatistic_def)
qed (simp add: run_traffic_def new_world_def DefaultManager_def)

lemma traffic_accounted_fact:
  fixes before after :: "traffic_op list"
  defines "w0 \<equiv> run_traffic before new_world" and "w \<equiv> run_traffic (before @ after) new_world"
  assumes ids: "distinct (opened (before @ after))"
    and reset: "before = [] \<or> last before = ResetOp" "ResetOp \<notin> set after"
  shows "mg_uploadTotal (sw_manager w) = sent_total w - sent_total w0
    \<and> mg_downloadTotal (sw_manager w) = received_total w - received_total w0
    \<and> set (map snd (mg_connections (sw_manager w))) = live w
    \<and> distinct (map snd (mg_connections (sw_manager w)))
    \<and> (\<forall>s. Manager_Snapshot w = Some s \<longrightarrow> (\<forall>r. sn_ByRoute s r =
         (if r \<in> {''RouteToALiang'', ''RouteToSocks''} \<or> (on_route w r \<noteq> [] \<and> r \<notin> {[], ''RouteDirect''})
          then Some (route_summary w r) else None)))"
proof -
  have w: "w = run_traffic after w0" by (simp add: w_def w0_def run_append)
  have inv: "world_inv w"
    using world_inv_run [OF world_inv_new ids] by (simp add: w_def new_world_def)
  have "mg_uploadTotal (sw_manager w) = sent_total w - sent_total w0
      \<and> mg_downloadTotal (sw_manager w) = received_total w - received_total w0"
    using totals_run [OF reset(2), of w0] totals_since_reset [OF reset(1)]
    by (simp add: w w0_def algebra_simps)
  moreover have "set (map snd (mg_connections (sw_manager w))) = live w"
    using inv unfolding world_inv_def by (auto simp: image_iff)
  moreover have "distinct (map snd (mg_connections (sw_manager w)))"
  proof -
    have "inj_on snd (set (mg_connections (sw_manager w)))"
      using inv unfolding world_inv_def by (auto simp: inj_on_def)
    then show ?thesis using inv unfolding world_inv_def by (simp add: distinct_map)
  qed
  ultimately show ?thesis using snapshot_by_route by simp
qed

text \<open>
  C37. Connection statistics are exact. After any history of connections opened with different
  identifiers, bytes transferred, closes, ticks and resets, the totals of the manager are the bytes
  that the counted connections transferred since the last reset (modulo the width of the counter);
  the table holds exactly the counted connections that are not yet closed, each once; and a
  snapshot reports for every route the number of open connections on it and the sum and average of
  their bytes, with no entry for direct traffic. A second close of the same connection changes
  nothing.
\<close>

theorem traffic_accounted:
  assumes "distinct (opened (before @ after))" "before = [] \<or> last before = ResetOp" "ResetOp \<notin> set after"
  shows "let w0 = run_traffic before new_world; w = run_traffic (before @ after) new_world in
    mg_uploadTotal (sw_manager w) = sent_total w - sent_total w0
    \<and> mg_downloadTotal (sw_manager w) = received_total w - received_total w0
    \<and> set (map snd (mg_connections (sw_manager w))) = live w
    \<and> distinct (map snd (mg_connections (sw_manager w)))
    \<and> (\<forall>s. Manager_Snapshot w = Some s \<longrightarrow> (\<forall>r. sn_ByRoute s r =
         (if r \<in> {''RouteToALiang'', ''RouteToSocks''} \<or> (on_route w r \<noteq> [] \<and> r \<notin> {[], ''RouteDirect''})
          then Some (route_summary w r) else None)))"
  unfolding Let_def by (rule traffic_accounted_fact [OF assms])

lemma traffic_accounted_witness:
  "let w = run_traffic ([Sent 0 5, ResetOp] @ [OpenTCP ''a'' None, Sent 0 7, OpenUDP ''b'' None, CloseOp 1, CloseOp 1]) new_world
   in mg_uploadTotal (sw_manager w) = 7 \<and> set (map snd (mg_connections (sw_manager w))) = {0}"
proof -
  have live: "live (run_traffic [Sent 0 5, ResetOp, OpenTCP ''a'' None, Sent 0 7, OpenUDP ''b'' None, CloseOp 1, CloseOp 1] new_world) = {0}"
    by (auto simp: run_traffic_def new_world_def DefaultManager_def tracker_ops live_def shouldTrackTraffic_def
        nth_Cons' less_Suc_eq)
  show ?thesis
    using traffic_accounted [of "[Sent 0 5, ResetOp]" "[OpenTCP ''a'' None, Sent 0 7, OpenUDP ''b'' None, CloseOp 1, CloseOp 1]"] live
    by (simp add: Let_def)
      (simp add: run_traffic_def new_world_def DefaultManager_def tracker_ops sent_total_def shouldTrackTraffic_def)
qed

section \<open>Rates\<close>

definition rate_inv :: "rate_state \<Rightarrow> bool" where
  "rate_inv s \<longleftrightarrow> rt_pushed s = rt_total s + sum_list (rt_pending s)
     \<and> rt_pc s \<le> 2
     \<and> rt_pushed s = rt_reported s + rt_lost s + (if rt_pc s = 2 then rt_temp s - rt_reg s else rt_temp s)"

lemma sum_list_remove1:
  fixes x :: "'a::ab_group_add"
  shows "x \<in> set xs \<Longrightarrow> sum_list (remove1 x xs) = sum_list xs - x"
  by (induction xs) (auto simp: algebra_simps)

lemma rate_inv_step: "rate_step s s' \<Longrightarrow> rate_inv s \<Longrightarrow> rate_inv s'"
  by (induction rule: rate_step.induct) (auto simp: rate_inv_def sum_list_remove1 algebra_simps)

text \<open>
  For every interleaving, the bytes that were pushed are those in the total or on their way to it,
  and whenever the loop waits for its next tick they are also the sum of the published rates, the
  bytes of the running second, and the bytes pushed between the load and the store of zero, which no
  rate ever shows.
\<close>

theorem rate_conserved:
  assumes "rate_step\<^sup>*\<^sup>* rate_init s"
  shows "rt_pushed s = rt_total s + sum_list (rt_pending s)
    \<and> (rt_pc s = 0 \<longrightarrow> rt_pushed s = rt_reported s + rt_lost s + rt_temp s)"
proof -
  have "rate_inv s" using assms
    by (induction rule: rtranclp_induct) (auto simp: rate_inv_def rate_init_def dest: rate_inv_step [unfolded rate_inv_def])
  then show ?thesis by (auto simp: rate_inv_def)
qed

section \<open>The lifecycle\<close>

text \<open>
  A collector that is stopped and started again is broken: its goroutine may leave at once, since
  the channel stays closed, and the next stop panics.
\<close>

lemma restart_is_broken:
  assumes "Collector_Stop (Collector_Start lc_new) = Some c"
  shows "lc_loops (loop_exit (loop_exit (Collector_Start c))) = 0
    \<and> Collector_Stop (loop_exit (loop_exit (Collector_Start c))) = None"
  using assms by (auto simp: Collector_Start_def Collector_Stop_def loop_exit_def lc_new_def)

section \<open>The three time scales\<close>

lemma every_index: "0 < k \<Longrightarrow> i < n div k \<Longrightarrow> k * i + (k - 1) < (n :: nat)"
proof -
  assume k: "0 < k" and i: "i < n div k"
  have "k * i + (k - 1) < k * Suc i" using k by simp
  also have "\<dots> \<le> k * (n div k)" using i by (intro mult_le_mono) simp_all
  also have "\<dots> \<le> n" by simp
  finally show ?thesis .
qed

lemma every_last: "0 < k \<Longrightarrow> Suc n mod k = 0 \<Longrightarrow> k * (n div k) + (k - 1) = (n :: nat)"
proof -
  assume k: "0 < k" and m: "Suc n mod k = 0"
  have "k * (Suc n div k) = Suc n" using m by (simp add: mult.commute minus_mod_eq_mult_div [symmetric])
  moreover have "Suc n div k = Suc (n div k)" using m by (simp add: div_Suc)
  ultimately have "k * Suc (n div k) = Suc n" by simp
  then show ?thesis using k by simp
qed

lemma every_snoc:
  assumes "0 < k"
  shows "every k (xs @ [x]) = every k xs @ (if Suc (length xs) mod k = 0 then [x] else [])"
proof -
  have old: "map (\<lambda>i. (xs @ [x]) ! (k * i + (k - 1))) [0..<length xs div k] = every k xs"
    unfolding every_def using every_index [OF assms] by (auto simp: nth_append)
  show ?thesis
    using every_last [OF assms, of "length xs"] old
    by (auto simp: every_def div_Suc nth_append)
qed

lemma every_Nil [simp]: "every k [] = []"
  by (simp add: every_def)

lemma collect_all_snoc: "collect_all (ss @ [s]) c =
    (case collect_all ss c of None \<Rightarrow> None | Some c' \<Rightarrow> collect s c')"
  by (induction ss arbitrary: c) (auto split: option.splits)

definition collector_inv :: "TrafficStats list \<Rightarrow> StatsCollector \<Rightarrow> bool" where
  "collector_inv ss c \<longleftrightarrow>
     ring_inv (cl_cache1s c) \<and> ring_inv (cl_cache5s c) \<and> ring_inv (cl_cache15s c)
     \<and> ring_capacity (cl_cache1s c) = 300 \<and> ring_capacity (cl_cache5s c) = 300 \<and> ring_capacity (cl_cache15s c) = 300
     \<and> cl_count5s c = length ss mod 5 \<and> cl_count15s c = length ss mod 15
     \<and> Ring_GetAll zero_stats (cl_cache1s c) = last_n 300 ss
     \<and> Ring_GetAll zero_stats (cl_cache5s c) = last_n 300 (every 5 ss)
     \<and> Ring_GetAll zero_stats (cl_cache15s c) = last_n 300 (every 15 ss)"

lemma ring_push_law: "ring_inv rb \<Longrightarrow> \<exists>rb'. Ring_Push (Some p) rb = Some rb' \<and> ring_inv rb'
    \<and> ring_capacity rb' = ring_capacity rb \<and> Ring_GetAll zero rb' = last_n (ring_capacity rb) (Ring_GetAll zero rb @ [p])"
  using rings.add_law [of rb p zero] by (simp add: ring_add_def)

lemma mod_step:
  assumes "0 < k"
  shows "if Suc n mod k = 0 then k \<le> n mod k + 1 else \<not> k \<le> n mod k + 1 \<and> n mod k + 1 = Suc n mod k"
proof -
  have lt: "n mod k < k" using assms by simp
  show ?thesis
  proof (cases "Suc (n mod k) = k")
    case False
    then have "\<not> k \<le> n mod k + 1" using lt by linarith
    then show ?thesis using False by (simp add: mod_Suc)
  qed (simp add: mod_Suc)
qed

lemma collector_inv_step:
  assumes "collector_inv ss c"
  shows "\<exists>c'. collect s c = Some c' \<and> collector_inv (ss @ [s]) c'"
proof -
  obtain b1 where b1: "Ring_Push (Some s) (cl_cache1s c) = Some b1" "ring_inv b1" "ring_capacity b1 = 300"
      "Ring_GetAll zero_stats b1 = last_n 300 (ss @ [s])"
    using ring_push_law [of "cl_cache1s c" s zero_stats] assms by (auto simp: collector_inv_def last_n_last_n)
  obtain b5 where b5: "Ring_Push (Some s) (cl_cache5s c) = Some b5" "ring_inv b5" "ring_capacity b5 = 300"
      "Ring_GetAll zero_stats b5 = last_n 300 (every 5 ss @ [s])"
    using ring_push_law [of "cl_cache5s c" s zero_stats] assms by (auto simp: collector_inv_def last_n_last_n)
  obtain b15 where b15: "Ring_Push (Some s) (cl_cache15s c) = Some b15" "ring_inv b15" "ring_capacity b15 = 300"
      "Ring_GetAll zero_stats b15 = last_n 300 (every 15 ss @ [s])"
    using ring_push_law [of "cl_cache15s c" s zero_stats] assms by (auto simp: collector_inv_def last_n_last_n)
  define L5 where "L5 = Suc (length ss) mod 5"
  define L15 where "L15 = Suc (length ss) mod 15"
  have count5: "if L5 = 0 then 5 \<le> cl_count5s c + 1 else \<not> 5 \<le> cl_count5s c + 1 \<and> cl_count5s c + 1 = L5"
    using assms mod_step [OF zero_less_numeral, of "length ss"] unfolding collector_inv_def L5_def by metis
  have count15: "if L15 = 0 then 15 \<le> cl_count15s c + 1 else \<not> 15 \<le> cl_count15s c + 1 \<and> cl_count15s c + 1 = L15"
    using assms mod_step [OF zero_less_numeral, of "length ss"] unfolding collector_inv_def L15_def by metis
  have e5: "every 5 (ss @ [s]) = every 5 ss @ (if L5 = 0 then [s] else [])"
    and e15: "every 15 (ss @ [s]) = every 15 ss @ (if L15 = 0 then [s] else [])"
    by (simp_all only: every_snoc L5_def L15_def zero_less_numeral)
  have inv: "collector_inv (ss @ [s]) c' \<longleftrightarrow>
      ring_inv (cl_cache1s c') \<and> ring_inv (cl_cache5s c') \<and> ring_inv (cl_cache15s c')
     \<and> ring_capacity (cl_cache1s c') = 300 \<and> ring_capacity (cl_cache5s c') = 300 \<and> ring_capacity (cl_cache15s c') = 300
     \<and> cl_count5s c' = L5 \<and> cl_count15s c' = L15
     \<and> Ring_GetAll zero_stats (cl_cache1s c') = last_n 300 (ss @ [s])
     \<and> Ring_GetAll zero_stats (cl_cache5s c') = last_n 300 (every 5 (ss @ [s]))
     \<and> Ring_GetAll zero_stats (cl_cache15s c') = last_n 300 (every 15 (ss @ [s]))" for c'
    by (simp add: collector_inv_def L5_def L15_def)
  have old: "ring_inv (cl_cache5s c)" "ring_inv (cl_cache15s c)" "ring_capacity (cl_cache5s c) = 300"
      "ring_capacity (cl_cache15s c) = 300" "Ring_GetAll zero_stats (cl_cache5s c) = last_n 300 (every 5 ss)"
      "Ring_GetAll zero_stats (cl_cache15s c) = last_n 300 (every 15 ss)"
    using assms by (simp_all add: collector_inv_def)
  show ?thesis
    unfolding inv e5 e15 using old b1 b5 b15 count5 count15
    by (cases "L5 = 0"; cases "L15 = 0") (simp_all add: collect_def Let_def)
qed

lemma collector_inv_new: "\<exists>c. NewStatsCollector = Some c \<and> collector_inv [] c"
  by (simp add: NewStatsCollector_def NewRingBuffer_def collector_inv_def ring_inv_def ring_def Ring_GetAll_def)

lemma collector_inv_run: "collector_inv [] c \<Longrightarrow> \<exists>c'. collect_all ss c = Some c' \<and> collector_inv ss c'"
proof (induction ss rule: rev_induct)
  case (snoc s ss)
  then obtain c' where "collect_all ss c = Some c'" "collector_inv ss c'" by blast
  then show ?case using collector_inv_step [of ss c' s] by (simp add: collect_all_snoc)
qed simp

lemma latest_of_inv: "ring_inv rb \<Longrightarrow> (case Ring_GetLatest rb of None \<Rightarrow> z | Some l \<Rightarrow> f l)
    = (if Ring_GetAll zero rb = [] then z else f (last (Ring_GetAll zero rb)))"
  using ring_latest [of rb zero] by simp

text \<open>
  The collector never panics, and whatever samples it has taken, one a second, what it serves for
  the three time scales are the last 300 samples, the last 300 of every fifth and the last 300 of
  every fifteenth, oldest first, together with the number of connections of the newest of them.
\<close>

theorem timescales_exact:
  "\<exists>c0 c. NewStatsCollector = Some c0 \<and> collect_all ss c0 = Some c
     \<and> (let served = (\<lambda>xs. Some (if xs = [] then 0 else ts_ActiveConnections (last xs), xs))
        in Collector_GetStats Timescale1s c = served (last_n 300 ss)
         \<and> Collector_GetStats Timescale5s c = served (last_n 300 (every 5 ss))
         \<and> Collector_GetStats Timescale15s c = served (last_n 300 (every 15 ss)))"
proof -
  obtain c0 where c0: "NewStatsCollector = Some c0" "collector_inv [] c0" using collector_inv_new by blast
  obtain c where c: "collect_all ss c0 = Some c" "collector_inv ss c" using collector_inv_run [OF c0(2)] by blast
  show ?thesis
    using c0(1) c unfolding collector_inv_def
    by (auto simp: Collector_GetStats_def cache_of_def Let_def latest_of_inv [where zero = zero_stats])
qed

end
