(* ===== verification/Request_Cache.thy ===== *)
theory Request_Cache
  imports Prelude
begin

text \<open>
  The cache of recent HTTP requests, \<^verbatim>\<open>src/processor/statistic/http_request_cache.go\<close>: a linked list
  of entries, newest first, and an index from identifiers to its elements. Elements are pointers: the
  model keeps them in a heap, and the list and the index refer to them by number. Following a number
  the heap does not hold would be a nil dereference; the invariant \<open>cache_typed\<close> excludes it.
\<close>

record HTTPRequestRecord =
  hr_ID :: string
  hr_Timestamp :: time
  hr_RequestCount :: uint64
  hr_ResponseCount :: uint64
  hr_Host :: string
  hr_Path :: string
  hr_Method :: string
  hr_StatusCode :: int
  hr_UploadBytes :: uint64
  hr_DownloadBytes :: uint64
  hr_InputTokens :: uint64
  hr_OutputTokens :: uint64
  hr_TotalTokens :: uint64
  hr_Model :: string
  hr_FirstResponseAt :: time
  hr_CompleteResponseAt :: time
  hr_Route :: string

definition Duration :: "HTTPRequestRecord \<Rightarrow> duration" where
  "Duration r = (if hr_CompleteResponseAt r = 0 then 0 else hr_CompleteResponseAt r - hr_Timestamp r)"

definition FirstResponseLatency :: "HTTPRequestRecord \<Rightarrow> duration" where
  "FirstResponseLatency r = (if hr_FirstResponseAt r = 0 then 0 else hr_FirstResponseAt r - hr_Timestamp r)"

record request_entry =
  en_key :: string
  en_record :: HTTPRequestRecord

record HTTPRequestCache =
  rc_records :: "string \<rightharpoonup> nat"
  rc_order :: "nat list"
  rc_elems :: "nat \<rightharpoonup> request_entry"
  rc_fresh :: nat
  rc_capacity :: int

definition NewHTTPRequestCache :: "int \<Rightarrow> HTTPRequestCache" where
  "NewHTTPRequestCache capacity =
     \<lparr>rc_records = Map.empty, rc_order = [], rc_elems = Map.empty, rc_fresh = 0, rc_capacity = capacity\<rparr>"

definition entry_at :: "HTTPRequestCache \<Rightarrow> nat \<Rightarrow> request_entry" where
  "entry_at c e = the (rc_elems c e)"

text \<open>\<^verbatim>\<open>list.Remove\<close> and \<^verbatim>\<open>delete\<close> of the last element.\<close>

definition drop_oldest :: "HTTPRequestCache \<Rightarrow> HTTPRequestCache" where
  "drop_oldest c =
     (let oldest = last (rc_order c)
      in c\<lparr>rc_records := (rc_records c)(en_key (entry_at c oldest) := None), rc_order := butlast (rc_order c)\<rparr>)"

definition RequestCache_evictOldest :: "HTTPRequestCache \<Rightarrow> HTTPRequestCache" where
  "RequestCache_evictOldest c = (if rc_order c = [] then c else drop_oldest c)"

text \<open>The identifier that \<^verbatim>\<open>uuid.New\<close> makes is an argument; it is used only for a record without one.\<close>

definition with_id :: "string \<Rightarrow> HTTPRequestRecord \<Rightarrow> HTTPRequestRecord" where
  "with_id uid r = (if hr_ID r = [] then r\<lparr>hr_ID := uid\<rparr> else r)"

definition RequestCache_Add :: "string \<Rightarrow> HTTPRequestRecord option \<Rightarrow> HTTPRequestCache \<Rightarrow> HTTPRequestCache" where
  "RequestCache_Add uid rec c =
     (case rec of None \<Rightarrow> c
      | Some r0 \<Rightarrow>
          let r = with_id uid r0 in
          case rc_records c (hr_ID r) of
            Some e \<Rightarrow>
              c\<lparr>rc_order := (if e \<in> set (rc_order c) then e # remove1 e (rc_order c) else rc_order c),
                rc_elems := (rc_elems c)(e \<mapsto> (entry_at c e)\<lparr>en_record := r\<rparr>)\<rparr>
          | None \<Rightarrow>
              let e = rc_fresh c;
                  c1 = c\<lparr>rc_elems := (rc_elems c)(e \<mapsto> \<lparr>en_key = hr_ID r, en_record = r\<rparr>),
                         rc_fresh := Suc e, rc_order := e # rc_order c,
                         rc_records := (rc_records c)(hr_ID r \<mapsto> e)\<rparr>
              in if int (length (rc_order c1)) > rc_capacity c1 then RequestCache_evictOldest c1 else c1)"

definition RequestCache_Get :: "string \<Rightarrow> HTTPRequestCache \<Rightarrow> HTTPRequestRecord option" where
  "RequestCache_Get i c = map_option (\<lambda>e. en_record (entry_at c e)) (rc_records c i)"

definition RequestCache_GetAll :: "HTTPRequestCache \<Rightarrow> HTTPRequestRecord list" where
  "RequestCache_GetAll c = map (\<lambda>e. en_record (entry_at c e)) (rc_order c)"

definition RequestCache_GetRecent :: "int \<Rightarrow> HTTPRequestCache \<Rightarrow> HTTPRequestRecord list" where
  "RequestCache_GetRecent limit c =
     (let n = (if limit \<le> 0 \<or> limit > int (length (rc_order c)) then length (rc_order c) else nat limit)
      in map (\<lambda>e. en_record (entry_at c e)) (take n (rc_order c)))"

definition RequestCache_GetByHost :: "string \<Rightarrow> HTTPRequestCache \<Rightarrow> HTTPRequestRecord list" where
  "RequestCache_GetByHost host c =
     filter (\<lambda>r. Contains (hr_Host r) host) (map (\<lambda>e. en_record (entry_at c e)) (rc_order c))"

definition RequestCache_Clear :: "HTTPRequestCache \<Rightarrow> HTTPRequestCache" where
  "RequestCache_Clear c = c\<lparr>rc_records := Map.empty, rc_order := []\<rparr>"

definition RequestCache_Size :: "HTTPRequestCache \<Rightarrow> nat" where
  "RequestCache_Size c = length (rc_order c)"

text \<open>The loop of \<^verbatim>\<open>RemoveOlderThan\<close>, from the back of the list.\<close>

function remove_loop :: "time \<Rightarrow> nat \<Rightarrow> HTTPRequestCache \<Rightarrow> HTTPRequestCache \<times> nat" where
  "remove_loop cutoff removed c =
     (if rc_order c = [] then (c, removed)
      else if hr_Timestamp (en_record (entry_at c (last (rc_order c)))) < cutoff
           then remove_loop cutoff (removed + 1) (drop_oldest c)
           else (c, removed))"
  by pat_completeness auto

termination remove_loop
  by (relation "measure (\<lambda>(t, n, c). length (rc_order c))") (auto simp: drop_oldest_def Let_def)

definition RemoveOlderThan :: "time \<Rightarrow> duration \<Rightarrow> HTTPRequestCache \<Rightarrow> HTTPRequestCache \<times> nat" where
  "RemoveOlderThan now maxAge c = remove_loop (now + (- maxAge)) 0 c"

declare remove_loop.simps [simp del]

section \<open>Histories and their specification\<close>

datatype cache_op = AddOp string "HTTPRequestRecord option" | ClearOp | AgeOp time duration

fun cache_step :: "cache_op \<Rightarrow> HTTPRequestCache \<Rightarrow> HTTPRequestCache" where
  "cache_step (AddOp uid r) c = RequestCache_Add uid r c"
| "cache_step ClearOp c = RequestCache_Clear c"
| "cache_step (AgeOp now maxAge) c = fst (RemoveOlderThan now maxAge c)"

text \<open>What the operations do to the records alone, newest first.\<close>

fun spec_step :: "nat \<Rightarrow> cache_op \<Rightarrow> HTTPRequestRecord list \<Rightarrow> HTTPRequestRecord list" where
  "spec_step n (AddOp uid None) xs = xs"
| "spec_step n (AddOp uid (Some r)) xs = take n (with_id uid r # filter (\<lambda>x. hr_ID x \<noteq> hr_ID (with_id uid r)) xs)"
| "spec_step n ClearOp xs = []"
| "spec_step n (AgeOp now maxAge) xs = rev (dropWhile (\<lambda>x. hr_Timestamp x < now - maxAge) (rev xs))"

text \<open>
  The list has no element twice, every element is in the heap, its key is the identifier of its
  record, and the index holds exactly the elements of the list, each under its key.
\<close>

definition cache_typed :: "HTTPRequestCache \<Rightarrow> bool" where
  "cache_typed c \<longleftrightarrow> distinct (rc_order c) \<and> int (length (rc_order c)) \<le> max 0 (rc_capacity c)
     \<and> (\<forall>e. rc_elems c e \<noteq> None \<longrightarrow> e < rc_fresh c)
     \<and> (\<forall>e\<in>set (rc_order c). rc_elems c e \<noteq> None \<and> hr_ID (en_record (entry_at c e)) = en_key (entry_at c e)
          \<and> rc_records c (en_key (entry_at c e)) = Some e)
     \<and> (\<forall>k e. rc_records c k = Some e \<longrightarrow> e \<in> set (rc_order c) \<and> en_key (entry_at c e) = k)"

section \<open>Every operation keeps the invariant and implements its specification\<close>

lemma typed_keys: "cache_typed c \<Longrightarrow> e \<in> set (rc_order c) \<Longrightarrow> e' \<in> set (rc_order c) \<Longrightarrow>
    en_key (entry_at c e) = en_key (entry_at c e') \<Longrightarrow> e = e'"
  unfolding cache_typed_def by (metis option.inject)

lemma typed_ids: "cache_typed c \<Longrightarrow> map hr_ID (RequestCache_GetAll c) = map (en_key \<circ> entry_at c) (rc_order c)"
  by (auto simp: cache_typed_def RequestCache_GetAll_def)

lemma typedD:
  assumes "cache_typed c"
  shows "distinct (rc_order c)" "int (length (rc_order c)) \<le> max 0 (rc_capacity c)"
    and "rc_elems c e \<noteq> None \<Longrightarrow> e < rc_fresh c"
    and "e \<in> set (rc_order c) \<Longrightarrow> rc_elems c e \<noteq> None"
    and "e \<in> set (rc_order c) \<Longrightarrow> hr_ID (en_record (entry_at c e)) = en_key (entry_at c e)"
    and "e \<in> set (rc_order c) \<Longrightarrow> rc_records c (en_key (entry_at c e)) = Some e"
    and "rc_records c k = Some e \<Longrightarrow> e \<in> set (rc_order c)"
    and "rc_records c k = Some e \<Longrightarrow> en_key (entry_at c e) = k"
  using assms unfolding cache_typed_def by blast+

lemma typedI:
  assumes "distinct (rc_order c)" "int (length (rc_order c)) \<le> max 0 (rc_capacity c)"
    and "\<And>e. rc_elems c e \<noteq> None \<Longrightarrow> e < rc_fresh c"
    and "\<And>e. e \<in> set (rc_order c) \<Longrightarrow> rc_elems c e \<noteq> None"
    and "\<And>e. e \<in> set (rc_order c) \<Longrightarrow> hr_ID (en_record (entry_at c e)) = en_key (entry_at c e)"
    and "\<And>e. e \<in> set (rc_order c) \<Longrightarrow> rc_records c (en_key (entry_at c e)) = Some e"
    and "\<And>k e. rc_records c k = Some e \<Longrightarrow> e \<in> set (rc_order c)"
    and "\<And>k e. rc_records c k = Some e \<Longrightarrow> en_key (entry_at c e) = k"
  shows "cache_typed c"
  using assms unfolding cache_typed_def by blast

lemma typed_index:
  assumes "cache_typed c"
  shows "rc_records c k = None \<longleftrightarrow> k \<notin> hr_ID ` set (RequestCache_GetAll c)"
proof
  assume none: "rc_records c k = None"
  show "k \<notin> hr_ID ` set (RequestCache_GetAll c)"
  proof
    assume "k \<in> hr_ID ` set (RequestCache_GetAll c)"
    then obtain e where "e \<in> set (rc_order c)" "k = hr_ID (en_record (entry_at c e))"
      by (auto simp: RequestCache_GetAll_def)
    then show False using none typedD(5,6) [OF assms] by auto
  qed
next
  assume not: "k \<notin> hr_ID ` set (RequestCache_GetAll c)"
  show "rc_records c k = None"
  proof (rule ccontr)
    assume "rc_records c k \<noteq> None"
    then obtain e where e: "rc_records c k = Some e" by blast
    have "e \<in> set (rc_order c)" "k = hr_ID (en_record (entry_at c e))"
      using typedD(5) [OF assms] typedD(7,8) [OF assms e] by auto
    then show False using not by (auto simp: RequestCache_GetAll_def)
  qed
qed

lemma drop_oldest_eq: "rc_order c = es @ [e] \<Longrightarrow>
    drop_oldest c = c\<lparr>rc_records := (rc_records c)(en_key (entry_at c e) := None), rc_order := es\<rparr>"
  by (simp add: drop_oldest_def Let_def)

text \<open>Dropping the last element keeps all of the invariant and needs of it all but the bound.\<close>

lemma drop_oldest_typed:
  assumes o: "rc_order c = es @ [e]"
    and typed: "cache_typed (c\<lparr>rc_capacity := cap\<rparr>)" and bound: "int (length es) \<le> max 0 (rc_capacity c)"
  shows "cache_typed (drop_oldest c)"
proof -
  let ?c = "c\<lparr>rc_capacity := cap\<rparr>"
  have at: "entry_at (drop_oldest c) = entry_at ?c" "entry_at c = entry_at ?c"
    by (rule ext, simp add: drop_oldest_eq [OF o] entry_at_def)+
  have other: "x \<in> set es \<Longrightarrow> en_key (entry_at ?c x) \<noteq> en_key (entry_at ?c e)" for x
    using typed_keys [OF typed, of x e] typedD(1) [OF typed] by (auto simp: o)
  show ?thesis
  proof (rule typedI)
    fix k x assume "rc_records (drop_oldest c) k = Some x"
    then have x: "rc_records ?c k = Some x" and k: "k \<noteq> en_key (entry_at ?c e)"
      by (auto simp: drop_oldest_eq [OF o] at(2) split: if_splits)
    show "x \<in> set (rc_order (drop_oldest c))"
      using typedD(7,8) [OF typed x] k by (auto simp: drop_oldest_eq [OF o] o)
    show "en_key (entry_at (drop_oldest c) x) = k" using typedD(8) [OF typed x] by (simp add: at(1))
  next
    fix x assume "x \<in> set (rc_order (drop_oldest c))"
    then have x: "x \<in> set es" "x \<in> set (rc_order ?c)" by (simp_all add: drop_oldest_eq [OF o] o)
    show "rc_elems (drop_oldest c) x \<noteq> None" using typedD(4) [OF typed x(2)] by (simp add: drop_oldest_eq [OF o])
    show "hr_ID (en_record (entry_at (drop_oldest c) x)) = en_key (entry_at (drop_oldest c) x)"
      using typedD(5) [OF typed x(2)] by (simp add: at(1))
    show "rc_records (drop_oldest c) (en_key (entry_at (drop_oldest c) x)) = Some x"
      using typedD(6) [OF typed x(2)] other [OF x(1)] unfolding at(1) by (simp add: drop_oldest_eq [OF o] at(2))
  qed (use typedD(1,3) [OF typed] bound in \<open>auto simp: drop_oldest_eq [OF o] o\<close>)
qed

lemma drop_oldest_all: "rc_order c = es @ [e] \<Longrightarrow> RequestCache_GetAll (drop_oldest c) = butlast (RequestCache_GetAll c)"
  by (simp add: RequestCache_GetAll_def drop_oldest_eq entry_at_def)

lemma drop_oldest_capacity [simp]: "rc_capacity (drop_oldest c) = rc_capacity c"
  by (simp add: drop_oldest_def Let_def)

definition touch_entry :: "nat \<Rightarrow> HTTPRequestRecord \<Rightarrow> HTTPRequestCache \<Rightarrow> HTTPRequestCache" where
  "touch_entry e r c = c\<lparr>rc_order := e # remove1 e (rc_order c),
     rc_elems := (rc_elems c)(e \<mapsto> (entry_at c e)\<lparr>en_record := r\<rparr>)\<rparr>"

definition push_record :: "HTTPRequestRecord \<Rightarrow> HTTPRequestCache \<Rightarrow> HTTPRequestCache" where
  "push_record r c = c\<lparr>rc_elems := (rc_elems c)(rc_fresh c \<mapsto> \<lparr>en_key = hr_ID r, en_record = r\<rparr>),
     rc_fresh := Suc (rc_fresh c), rc_order := rc_fresh c # rc_order c,
     rc_records := (rc_records c)(hr_ID r \<mapsto> rc_fresh c)\<rparr>"

lemma Add_cases:
  assumes typed: "cache_typed c"
  shows "RequestCache_Add uid (Some r0) c =
    (let r = with_id uid r0 in
     case rc_records c (hr_ID r) of Some e \<Rightarrow> touch_entry e r c
     | None \<Rightarrow> if int (Suc (length (rc_order c))) > rc_capacity c then drop_oldest (push_record r c) else push_record r c)"
  using typedD(7) [OF typed]
  by (auto simp: RequestCache_Add_def touch_entry_def push_record_def RequestCache_evictOldest_def Let_def split: option.splits)

lemma filter_other_ids:
  assumes typed: "cache_typed c" and e: "e \<in> set (rc_order c)"
  shows "map (\<lambda>x. en_record (entry_at c x)) (remove1 e (rc_order c))
    = filter (\<lambda>x. hr_ID x \<noteq> en_key (entry_at c e)) (RequestCache_GetAll c)"
proof -
  have "filter (\<lambda>x. hr_ID x \<noteq> en_key (entry_at c e)) (RequestCache_GetAll c)
      = map (\<lambda>x. en_record (entry_at c x)) (filter (\<lambda>x. hr_ID (en_record (entry_at c x)) \<noteq> en_key (entry_at c e)) (rc_order c))"
    by (simp add: RequestCache_GetAll_def filter_map comp_def)
  also have "filter (\<lambda>x. hr_ID (en_record (entry_at c x)) \<noteq> en_key (entry_at c e)) (rc_order c)
      = filter (\<lambda>x. x \<noteq> e) (rc_order c)"
    using typed_keys [OF typed _ e] typedD(5) [OF typed] by (intro filter_cong) auto
  finally show ?thesis using typedD(1) [OF typed] by (simp add: distinct_remove1_removeAll removeAll_filter_not_eq eq_commute)
qed

lemma touch_typed:
  assumes typed: "cache_typed c" and e: "rc_records c (hr_ID r) = Some e"
  shows "cache_typed (touch_entry e r c)"
    and "RequestCache_GetAll (touch_entry e r c) = r # filter (\<lambda>x. hr_ID x \<noteq> hr_ID r) (RequestCache_GetAll c)"
proof -
  have mem: "e \<in> set (rc_order c)" and key: "en_key (entry_at c e) = hr_ID r"
    using typedD(7,8) [OF typed e] by auto
  have at: "entry_at (touch_entry e r c) x = (if x = e then (entry_at c e)\<lparr>en_record := r\<rparr> else entry_at c x)" for x
    by (simp add: touch_entry_def entry_at_def)
  have key': "en_key (entry_at (touch_entry e r c) x) = en_key (entry_at c x)" for x by (simp add: at)
  have order: "set (rc_order (touch_entry e r c)) = set (rc_order c)"
    using mem typedD(1) [OF typed] by (auto simp: touch_entry_def)
  show "cache_typed (touch_entry e r c)"
  proof (rule typedI)
    show "int (length (rc_order (touch_entry e r c))) \<le> max 0 (rc_capacity (touch_entry e r c))"
      using typedD(2) [OF typed] mem length_pos_if_in_set [OF mem] by (simp add: touch_entry_def length_remove1)
  next
    fix x assume x: "x \<in> set (rc_order (touch_entry e r c))"
    show "hr_ID (en_record (entry_at (touch_entry e r c) x)) = en_key (entry_at (touch_entry e r c) x)"
      using typedD(5) [OF typed] x key unfolding order by (auto simp: at)
    show "rc_records (touch_entry e r c) (en_key (entry_at (touch_entry e r c) x)) = Some x"
      using typedD(6) [OF typed] x unfolding order key' by (simp add: touch_entry_def)
    show "rc_elems (touch_entry e r c) x \<noteq> None"
      using typedD(4) [OF typed] x unfolding order by (auto simp: touch_entry_def)
  next
    fix x assume "rc_elems (touch_entry e r c) x \<noteq> None"
    then have "rc_elems c x \<noteq> None" using typedD(4) [OF typed mem] by (auto simp: touch_entry_def split: if_splits)
    then show "x < rc_fresh (touch_entry e r c)" using typedD(3) [OF typed] by (simp add: touch_entry_def)
  next
    fix k x assume "rc_records (touch_entry e r c) k = Some x"
    then have x: "rc_records c k = Some x" by (simp add: touch_entry_def)
    show "x \<in> set (rc_order (touch_entry e r c))" unfolding order by (rule typedD(7) [OF typed x])
    show "en_key (entry_at (touch_entry e r c) x) = k" unfolding key' by (rule typedD(8) [OF typed x])
  qed (use typedD(1) [OF typed] in \<open>simp add: touch_entry_def\<close>)
  have "map (\<lambda>x. en_record (entry_at (touch_entry e r c) x)) (remove1 e (rc_order c))
      = map (\<lambda>x. en_record (entry_at c x)) (remove1 e (rc_order c))"
    using typedD(1) [OF typed] by (auto simp: at)
  then show "RequestCache_GetAll (touch_entry e r c) = r # filter (\<lambda>x. hr_ID x \<noteq> hr_ID r) (RequestCache_GetAll c)"
    using filter_other_ids [OF typed mem] key
    by (simp add: RequestCache_GetAll_def [of "touch_entry e r c"]) (simp add: touch_entry_def entry_at_def)
qed

lemma push_typed:
  assumes typed: "cache_typed c" and none: "rc_records c (hr_ID r) = None"
    and cap: "int (Suc (length (rc_order c))) \<le> max 0 cap"
  shows "cache_typed ((push_record r c)\<lparr>rc_capacity := cap\<rparr>)"
proof -
  let ?c = "(push_record r c)\<lparr>rc_capacity := cap\<rparr>"
  have new: "x \<in> set (rc_order c) \<Longrightarrow> x < rc_fresh c" for x using typedD(3,4) [OF typed] by blast
  have at: "entry_at ?c x = (if x = rc_fresh c then \<lparr>en_key = hr_ID r, en_record = r\<rparr> else entry_at c x)" for x
    by (simp add: push_record_def entry_at_def)
  have idx: "x \<in> set (rc_order c) \<Longrightarrow> en_key (entry_at c x) \<noteq> hr_ID r" for x
    using none typedD(6) [OF typed, of x] by auto
  show ?thesis
  proof (rule typedI)
    fix k x assume "rc_records ?c k = Some x"
    then have or: "k = hr_ID r \<and> x = rc_fresh c \<or> rc_records c k = Some x" by (auto simp: push_record_def split: if_splits)
    show "x \<in> set (rc_order ?c)" using or typedD(7) [OF typed, of k x] by (auto simp: push_record_def)
    show "en_key (entry_at ?c x) = k"
      using or typedD(7,8) [OF typed, of k x] new [of x] by (auto simp: at)
  next
    fix x assume "x \<in> set (rc_order ?c)"
    then have or: "x = rc_fresh c \<or> x \<in> set (rc_order c)" by (auto simp: push_record_def)
    show "rc_elems ?c x \<noteq> None" using or typedD(4) [OF typed, of x] by (auto simp: push_record_def)
    show "hr_ID (en_record (entry_at ?c x)) = en_key (entry_at ?c x)"
      using or typedD(5) [OF typed, of x] by (auto simp: at)
    show "rc_records ?c (en_key (entry_at ?c x)) = Some x"
      using or typedD(6) [OF typed, of x] idx [of x] new [of x] by (auto simp: at) (auto simp: push_record_def)
  qed (use typedD(1,3) [OF typed] cap new in \<open>auto simp: push_record_def less_Suc_eq split: if_splits\<close>)
qed

lemma push_all:
  assumes "cache_typed c"
  shows "RequestCache_GetAll (push_record r c) = r # RequestCache_GetAll c"
proof -
  have "x \<in> set (rc_order c) \<Longrightarrow> x \<noteq> rc_fresh c" for x using typedD(3,4) [OF assms] by blast
  then show ?thesis by (auto simp: RequestCache_GetAll_def push_record_def entry_at_def)
qed

lemma Add_refines:
  assumes typed: "cache_typed c"
  shows "cache_typed (RequestCache_Add uid (Some r0) c)"
    and "RequestCache_GetAll (RequestCache_Add uid (Some r0) c) = spec_step (nat (rc_capacity c)) (AddOp uid (Some r0)) (RequestCache_GetAll c)"
proof -
  define r where "r = with_id uid r0"
  let ?c = "RequestCache_Add uid (Some r0) c"
  let ?spec = "r # filter (\<lambda>x. hr_ID x \<noteq> hr_ID r) (RequestCache_GetAll c)"
  have len: "length (RequestCache_GetAll c) = length (rc_order c)" by (simp add: RequestCache_GetAll_def)
  have bound: "length (rc_order c) \<le> nat (rc_capacity c)" using typedD(2) [OF typed] by linarith
  have "cache_typed ?c \<and> RequestCache_GetAll ?c = take (nat (rc_capacity c)) ?spec"
  proof (cases "rc_records c (hr_ID r)")
    case (Some e)
    have "int (length (rc_order (touch_entry e r c))) \<le> max 0 (rc_capacity c)"
      using typedD(2) [OF touch_typed(1) [OF typed Some]] by (simp add: touch_entry_def)
    moreover have "length ?spec = length (rc_order (touch_entry e r c))"
      using arg_cong [OF touch_typed(2) [OF typed Some], of length] by (simp add: RequestCache_GetAll_def)
    ultimately have "length ?spec \<le> nat (rc_capacity c)" by linarith
    then show ?thesis using touch_typed [OF typed Some] Some by (simp add: Add_cases [OF typed] r_def [symmetric] Let_def)
  next
    case None
    have all: "filter (\<lambda>x. hr_ID x \<noteq> hr_ID r) (RequestCache_GetAll c) = RequestCache_GetAll c"
      unfolding filter_id_conv using typed_index [OF typed, of "hr_ID r"] None by (metis image_eqI)
    show ?thesis
    proof (cases "int (Suc (length (rc_order c))) > rc_capacity c")
      case False
      then have "cache_typed ((push_record r c)\<lparr>rc_capacity := rc_capacity c\<rparr>)"
        by (intro push_typed [OF typed None]) simp
      moreover have "(push_record r c)\<lparr>rc_capacity := rc_capacity c\<rparr> = push_record r c" by (simp add: push_record_def)
      ultimately show ?thesis using False None all push_all [OF typed] len
        by (simp add: Add_cases [OF typed] r_def [symmetric] Let_def)
    next
      case True
      obtain es e where o: "rc_order (push_record r c) = es @ [e]"
        by (cases "rc_order (push_record r c)" rule: rev_cases) (auto simp: push_record_def)
      have les: "length es = length (rc_order c)" using arg_cong [OF o, of length] by (simp add: push_record_def)
      have cap: "rc_capacity (push_record r c) = rc_capacity c" by (simp add: push_record_def)
      have typed': "cache_typed (drop_oldest (push_record r c))"
        using typedD(2) [OF typed] les cap
        by (intro drop_oldest_typed [OF o push_typed [OF typed None, of "int (Suc (length (rc_order c)))"]]) simp_all
      have "nat (rc_capacity c) = length (rc_order c)" using True bound by linarith
      then have "butlast (r # RequestCache_GetAll c) = take (nat (rc_capacity c)) (r # RequestCache_GetAll c)"
        by (simp add: butlast_conv_take len)
      then show ?thesis using True None all typed' drop_oldest_all [OF o] push_all [OF typed]
        by (simp add: Add_cases [OF typed] r_def [symmetric] Let_def)
    qed
  qed
  then show "cache_typed ?c" "RequestCache_GetAll ?c = spec_step (nat (rc_capacity c)) (AddOp uid (Some r0)) (RequestCache_GetAll c)"
    by (simp_all add: r_def)
qed

lemma Add_capacity [simp]: "rc_capacity (RequestCache_Add uid r c) = rc_capacity c"
  by (auto simp: RequestCache_Add_def RequestCache_evictOldest_def Let_def split: option.splits)

lemma remove_loop_refines:
  "cache_typed c \<Longrightarrow> remove_loop cutoff n c = (c', m) \<Longrightarrow>
   cache_typed c' \<and> rc_capacity c' = rc_capacity c
   \<and> RequestCache_GetAll c' = rev (dropWhile (\<lambda>x. hr_Timestamp x < cutoff) (rev (RequestCache_GetAll c)))
   \<and> m = n + (length (RequestCache_GetAll c) - length (RequestCache_GetAll c'))"
proof (induction cutoff n c rule: remove_loop.induct)
  case (1 cutoff n c)
  show ?case
  proof (cases "rc_order c" rule: rev_cases)
    case Nil
    then show ?thesis using 1(2,3) by (simp add: remove_loop.simps [of cutoff n c] RequestCache_GetAll_def)
  next
    case (snoc es e)
    let ?old = "hr_Timestamp (en_record (entry_at c e)) < cutoff"
    have all: "RequestCache_GetAll c = map (\<lambda>e. en_record (entry_at c e)) es @ [en_record (entry_at c e)]"
      by (simp add: RequestCache_GetAll_def snoc)
    show ?thesis
    proof (cases ?old)
      case True
      have typed': "cache_typed (drop_oldest c)"
        using 1(2) typedD(2) [OF 1(2)] snoc by (intro drop_oldest_typed [OF snoc, of "rc_capacity c"]) simp_all
      have run: "remove_loop cutoff (n + 1) (drop_oldest c) = (c', m)"
        using 1(3) snoc True by (simp add: remove_loop.simps [of cutoff n c])
      have "length (RequestCache_GetAll c') \<le> length (RequestCache_GetAll (drop_oldest c))"
        using 1(1) [OF _ _ typed' run] snoc True
          length_dropWhile_le [of "\<lambda>x. hr_Timestamp x < cutoff" "rev (RequestCache_GetAll (drop_oldest c))"] by simp
      then show ?thesis
        using 1(1) [OF _ _ typed' run] snoc True all drop_oldest_all [OF snoc] by simp
    next
      case False
      then show ?thesis using 1(2,3) snoc all by (auto simp: remove_loop.simps [of cutoff n c])
    qed
  qed
qed

lemma Clear_refines: "cache_typed c \<Longrightarrow> cache_typed (RequestCache_Clear c) \<and> RequestCache_GetAll (RequestCache_Clear c) = []"
  by (simp add: cache_typed_def RequestCache_Clear_def RequestCache_GetAll_def)

lemma cache_step_refines:
  assumes "cache_typed c"
  shows "cache_typed (cache_step op c) \<and> rc_capacity (cache_step op c) = rc_capacity c
    \<and> RequestCache_GetAll (cache_step op c) = spec_step (nat (rc_capacity c)) op (RequestCache_GetAll c)"
proof (cases op)
  case (AddOp uid r)
  show ?thesis
  proof (cases r)
    case None
    then show ?thesis using assms AddOp by (simp add: RequestCache_Add_def)
  next
    case (Some r0)
    then show ?thesis using Add_refines [OF assms, of uid r0] AddOp by (simp only: cache_step.simps Add_capacity)
  qed
next
  case ClearOp
  then show ?thesis using Clear_refines [OF assms] by (simp add: RequestCache_Clear_def)
next
  case (AgeOp now maxAge)
  obtain c' m where "remove_loop (now + (- maxAge)) 0 c = (c', m)" by fastforce
  then show ?thesis using remove_loop_refines [OF assms] AgeOp by (fastforce simp: RemoveOlderThan_def)
qed

lemma cache_run_refines: "cache_typed c \<Longrightarrow>
    cache_typed (fold cache_step ops c) \<and> rc_capacity (fold cache_step ops c) = rc_capacity c
    \<and> RequestCache_GetAll (fold cache_step ops c) = fold (spec_step (nat (rc_capacity c))) ops (RequestCache_GetAll c)"
  by (induction ops arbitrary: c) (simp_all add: cache_step_refines)

lemma cache_typed_new: "cache_typed (NewHTTPRequestCache cap)"
  by (simp add: cache_typed_def NewHTTPRequestCache_def)

lemma Get_find:
  assumes typed: "cache_typed c"
  shows "RequestCache_Get i c = find (\<lambda>r. hr_ID r = i) (RequestCache_GetAll c)"
proof (cases "rc_records c i")
  case None
  then have "find (\<lambda>r. hr_ID r = i) (RequestCache_GetAll c) = None"
    using typed_index [OF typed, of i] by (force simp: find_None_iff)
  then show ?thesis using None by (simp add: RequestCache_Get_def)
next
  case (Some e)
  have e: "e \<in> set (rc_order c)" "en_key (entry_at c e) = i" using typedD(7,8) [OF typed Some] by auto
  have only: "x = e" if "x \<in> set (rc_order c)" "hr_ID (en_record (entry_at c x)) = i" for x
    using typed_keys [OF typed that(1) e(1)] typedD(5) [OF typed that(1)] that(2) e(2) by simp
  have hit: "hr_ID (en_record (entry_at c e)) = i" using typedD(5) [OF typed e(1)] e(2) by simp
  obtain r where r: "find (\<lambda>r. hr_ID r = i) (RequestCache_GetAll c) = Some r"
    using e(1) hit by (cases "find (\<lambda>r. hr_ID r = i) (RequestCache_GetAll c)")
      (auto simp: find_None_iff RequestCache_GetAll_def)
  then have "r = en_record (entry_at c e)"
    using find_SomeD [OF r] only by (auto simp: RequestCache_GetAll_def)
  then show ?thesis using Some r by (simp add: RequestCache_Get_def)
qed

section \<open>Properties\<close>

text \<open>
  C40. The request cache is well formed after every history of additions, clears and removals by age,
  whatever its capacity: the list of elements has no element twice and never more than the capacity,
  every element the list or the index refers to exists, and the index and the list hold the same
  elements, each under the identifier of its record.
\<close>

theorem request_cache_typed: "cache_typed (fold cache_step ops (NewHTTPRequestCache cap))"
  using cache_run_refines [OF cache_typed_new] by blast

text \<open>
  The request cache implements a bounded list of records with different identifiers, newest
  first: an addition moves its record to the front, replaces an older one with the same identifier
  and drops the oldest beyond the capacity; a removal by age takes records off the old end only. Every
  reader returns what that list determines.
\<close>

theorem request_cache_refines:
  "let c = fold cache_step ops (NewHTTPRequestCache cap); xs = fold (spec_step (nat cap)) ops []
   in RequestCache_GetAll c = xs \<and> RequestCache_Size c = length xs \<and> length xs \<le> nat cap \<and> distinct (map hr_ID xs)
     \<and> (\<forall>i. RequestCache_Get i c = find (\<lambda>r. hr_ID r = i) xs)
     \<and> (\<forall>limit. RequestCache_GetRecent limit c = (if limit \<le> 0 then xs else take (nat limit) xs))
     \<and> (\<forall>host. RequestCache_GetByHost host c = filter (\<lambda>r. Contains (hr_Host r) host) xs)"
proof -
  define c where "c = fold cache_step ops (NewHTTPRequestCache cap)"
  have typed: "cache_typed c" and cap: "rc_capacity c = cap"
    and xs: "RequestCache_GetAll c = fold (spec_step (nat cap)) ops []"
    using cache_run_refines [OF cache_typed_new, of ops cap]
    by (simp_all add: c_def NewHTTPRequestCache_def RequestCache_GetAll_def)
  have len: "length (RequestCache_GetAll c) = length (rc_order c)" by (simp add: RequestCache_GetAll_def)
  have "inj_on (en_key \<circ> entry_at c) (set (rc_order c))"
    using typed_keys [OF typed] by (auto simp: inj_on_def)
  then have "distinct (map hr_ID (RequestCache_GetAll c))"
    using typedD(1) [OF typed] unfolding typed_ids [OF typed] distinct_map by simp
  moreover have "length (RequestCache_GetAll c) \<le> nat cap" using typedD(2) [OF typed] len cap by linarith
  moreover have "RequestCache_GetRecent limit c = (if limit \<le> 0 then RequestCache_GetAll c else take (nat limit) (RequestCache_GetAll c))" for limit
    by (auto simp: RequestCache_GetRecent_def RequestCache_GetAll_def Let_def take_map)
  ultimately show ?thesis
    unfolding c_def [symmetric] Let_def xs [symmetric]
    using Get_find [OF typed] len by (simp add: RequestCache_Size_def RequestCache_GetByHost_def) (simp add: RequestCache_GetAll_def)
qed

end
