(* ===== verification/AI_Domains.thy ===== *)
theory AI_Domains
  imports Http_Host "HOL-Library.Product_Lexorder"
begin

text \<open>
  The tracked AI providers of \<^verbatim>\<open>src/processor/statistic/ai_domains.go\<close>: which provider a host belongs
  to, from the rules of the configuration, the presets and a built-in list.

  The rules of the configuration and the presets both come from iterating over a Go map; they are
  lists here, in the order of the iteration. The presets are made from an embedded file and are an
  argument. \<^verbatim>\<open>sort.Slice\<close> is applied to lists without duplicates and with a total order, so its result
  is the sorted list.
\<close>

record trackedAIProvider =
  ap_Key :: string
  ap_Label :: string
  ap_Patterns :: "string list"

text \<open>A source of providers: key, label and patterns.\<close>

type_synonym preset = "string \<times> string \<times> string list"

section \<open>Normalisation\<close>

definition normalizeAIDomainPattern :: "string \<Rightarrow> string" where
  "normalizeAIDomainPattern raw =
     (let v0 = TrimSuffix (lower_trim raw) ''.'' in
      if v0 = [] then []
      else
        let wildcard = HasPrefix v0 ''*.'';
            v1 = (if wildcard then TrimPrefix v0 ''*.'' else v0);
            v2 = (if Contains v1 ''://''
                  then (case url_host v1 of Some h \<Rightarrow> if h \<noteq> [] then h else v1 | None \<Rightarrow> v1) else v1);
            v3 = takeWhile (\<lambda>c. c \<noteq> CHR ''/'') v2;
            v4 = (case SplitHostPort v3 of Some (host, _) \<Rightarrow> host
                  | None \<Rightarrow> let (host, port, ok) = Cut v3 CHR '':'' in if ok \<and> isAllDigits port then host else v3);
            v5 = TrimSuffix (TrimSpace (trim_brackets v4)) ''.''
        in if v5 = [] then [] else if wildcard then ''*.'' @ v5 else v5)"

definition normalizeAIDomainHost :: "string \<Rightarrow> string" where
  "normalizeAIDomainHost host = normalizeAIDomainPattern host"

definition normalizeAIDomainPatterns :: "string list \<Rightarrow> string list" where
  "normalizeAIDomainPatterns vs = filter (\<lambda>v. v \<noteq> []) (map normalizeAIDomainPattern vs)"

definition normalizeProviderLabel :: "string \<Rightarrow> string" where
  "normalizeProviderLabel value = filter (\<lambda>c. c \<noteq> CHR '' '') (lower_trim value)"

definition defaultProviderLabel :: "string \<Rightarrow> string \<Rightarrow> string" where
  "defaultProviderLabel key fallback =
     (if TrimSpace fallback \<noteq> [] then TrimSpace fallback
      else if key = ''openai'' then ''OpenAI''
      else if key = ''claude'' then ''Claude''
      else if key = ''cursor'' then ''Cursor''
      else if key = ''copilot'' then ''Copilot''
      else if key = ''vscode'' then ''VS Code''
      else if key = [] then ''AI''
      else ToUpper (take 1 key) @ drop 1 key)"

definition pattern_rank :: "string \<Rightarrow> int \<times> string" where
  "pattern_rank s = (- int (length s), s)"

definition dedupeAndSortPatterns :: "string list \<Rightarrow> string list" where
  "dedupeAndSortPatterns vs = sort_key pattern_rank (remdups (filter (\<lambda>v. v \<noteq> []) vs))"

text \<open>The argument lists the keys of the Go map, in the order in which they were stored.\<close>

definition sortTrackedAIDomains :: "string list \<Rightarrow> string list" where
  "sortTrackedAIDomains vs = sort_key pattern_rank (remdups vs)"

section \<open>The providers\<close>

definition builtinTrackedAIProviders :: "preset list" where
  "builtinTrackedAIProviders =
     [(''openai'', ''OpenAI'', [''openai.com'', ''chatgpt.com'']),
      (''claude'', ''Claude'', [''claude.ai'', ''anthropic.com'']),
      (''cursor'', ''Cursor'', [''api.cursor.com'']),
      (''copilot'', ''Copilot'', [''copilot.microsoft.com''])]"

text \<open>
  The table of providers and the order in which their keys were first seen. The provider returned
  for an empty key and label is in no table; nothing refers to it.
\<close>

definition ensureTrackedAIProviderWithState ::
    "(string \<rightharpoonup> trackedAIProvider) \<Rightarrow> string \<Rightarrow> string \<Rightarrow> (string \<rightharpoonup> trackedAIProvider) \<times> (string \<times> bool) option" where
  "ensureTrackedAIProviderWithState values key label =
     (let k0 = lower_trim key; normalizedKey = (if k0 = [] then normalizeProviderLabel label else k0) in
      if normalizedKey = [] then (values, None)
      else
        let p0 = (case values normalizedKey of Some p \<Rightarrow> p
                  | None \<Rightarrow> \<lparr>ap_Key = normalizedKey, ap_Label = [], ap_Patterns = []\<rparr>);
            p1 = (if TrimSpace label \<noteq> [] then p0\<lparr>ap_Label := TrimSpace label\<rparr> else p0);
            p2 = (if ap_Label p1 = [] then p1\<lparr>ap_Label := defaultProviderLabel normalizedKey label\<rparr> else p1)
        in (values(normalizedKey \<mapsto> p2), Some (normalizedKey, values normalizedKey = None)))"

definition appendProvider ::
    "preset \<Rightarrow> (string \<rightharpoonup> trackedAIProvider) \<times> string list \<Rightarrow> (string \<rightharpoonup> trackedAIProvider) \<times> string list" where
  "appendProvider preset st =
     (let (key, label, patterns) = preset; (providers, order) = st
      in case ensureTrackedAIProviderWithState providers key label of
           (providers1, None) \<Rightarrow> (providers1, order)
         | (providers1, Some (k, created)) \<Rightarrow>
             (providers1(k := map_option (\<lambda>p. p\<lparr>ap_Patterns := ap_Patterns p @ normalizeAIDomainPatterns patterns\<rparr>)
                               (providers1 k)),
              if created then order @ [k] else order))"

text \<open>The rules of the configuration that are present and not switched off.\<close>

definition enabled_rules :: "Config option \<Rightarrow> preset list" where
  "enabled_rules cfg =
     (case cfg of None \<Rightarrow> []
      | Some c \<Rightarrow> (case cfg_Customer c of None \<Rightarrow> []
          | Some cust \<Rightarrow> concat (map (\<lambda>(key, rule). case rule of None \<Rightarrow> []
              | Some r \<Rightarrow> if ai_Enble r = Some False then [] else [(key, ai_Label r, ai_Include r)])
              (cc_AIRules cust))))"

definition usable :: "trackedAIProvider \<Rightarrow> bool" where
  "usable p \<longleftrightarrow> ap_Key p \<noteq> [] \<and> ap_Label p \<noteq> [] \<and> ap_Patterns p \<noteq> []"

definition currentTrackedAIProvidersOrdered :: "Config option \<Rightarrow> preset list \<Rightarrow> trackedAIProvider list" where
  "currentTrackedAIProvidersOrdered cfg presets =
     (let (providers, order) =
        fold appendProvider (enabled_rules cfg @ presets @ builtinTrackedAIProviders) (Map.empty, [])
      in filter usable (map (\<lambda>key. let p = the (providers key)
           in p\<lparr>ap_Patterns := dedupeAndSortPatterns (ap_Patterns p)\<rparr>) order))"

definition currentTrackedAIProviders :: "Config option \<Rightarrow> preset list \<Rightarrow> trackedAIProvider list" where
  "currentTrackedAIProviders cfg presets =
     sort_key (\<lambda>p. (ap_Label p, ap_Key p))
       (filter usable (map (\<lambda>p. p\<lparr>ap_Patterns := dedupeAndSortPatterns (ap_Patterns p)\<rparr>)
          (currentTrackedAIProvidersOrdered cfg presets)))"

definition currentTrackedAIDomains :: "Config option \<Rightarrow> preset list \<Rightarrow> string list" where
  "currentTrackedAIDomains cfg presets =
     sortTrackedAIDomains (concat (map ap_Patterns (currentTrackedAIProviders cfg presets)))"

section \<open>Matching\<close>

definition aiDomainMatches :: "string \<Rightarrow> string \<Rightarrow> bool" where
  "aiDomainMatches pat host =
     (if pat = [] \<or> host = [] then False
      else if HasPrefix pat ''*.'' then
        let suffix = TrimPrefix pat ''*.'' in if suffix = [] then False else HasSuffix host (''.'' @ suffix)
      else host = pat \<or> HasSuffix host (''.'' @ pat))"

fun provider_loop :: "trackedAIProvider list \<Rightarrow> string \<Rightarrow> (trackedAIProvider \<times> string) option" where
  "provider_loop [] host = None"
| "provider_loop (p # ps) host =
     (case find (\<lambda>pat. aiDomainMatches pat host) (ap_Patterns p) of
        Some pat \<Rightarrow> Some (p, pat)
      | None \<Rightarrow> provider_loop ps host)"

definition matchTrackedAIProvider :: "Config option \<Rightarrow> preset list \<Rightarrow> string \<Rightarrow> (trackedAIProvider \<times> string) option" where
  "matchTrackedAIProvider cfg presets host =
     (let normalizedHost = normalizeAIDomainHost host in
      if normalizedHost = [] then None
      else provider_loop (currentTrackedAIProvidersOrdered cfg presets) normalizedHost)"

definition matchTrackedAIDomain :: "Config option \<Rightarrow> preset list \<Rightarrow> string \<Rightarrow> string" where
  "matchTrackedAIDomain cfg presets host =
     (case matchTrackedAIProvider cfg presets host of None \<Rightarrow> [] | Some (_, pat) \<Rightarrow> pat)"

section \<open>The table of providers\<close>

definition table_inv :: "(string \<rightharpoonup> trackedAIProvider) \<times> string list \<Rightarrow> bool" where
  "table_inv st \<longleftrightarrow> distinct (snd st) \<and> (\<forall>k. k \<in> set (snd st) \<longleftrightarrow> (\<exists>p. fst st k = Some p))
     \<and> (\<forall>k p. fst st k = Some p \<longrightarrow> ap_Key p = k \<and> k \<noteq> [] \<and> ap_Label p \<noteq> [] \<and> [] \<notin> set (ap_Patterns p))"

lemma defaultProviderLabel_nonempty: "defaultProviderLabel k f \<noteq> []"
  by (auto simp: defaultProviderLabel_def ToUpper_def)

lemma appendProvider_inv:
  assumes "table_inv st"
  shows "table_inv (appendProvider x st)"
proof -
  obtain key label patterns where x: "x = (key, label, patterns)" by (cases x)
  obtain providers order where st: "st = (providers, order)" by (cases st)
  define k where "k = (if lower_trim key = [] then normalizeProviderLabel label else lower_trim key)"
  show ?thesis
  proof (cases "k = []")
    case True
    then show ?thesis using assms
      by (simp add: appendProvider_def ensureTrackedAIProviderWithState_def x st k_def Let_def)
  next
    case False
    then show ?thesis using assms
      unfolding appendProvider_def ensureTrackedAIProviderWithState_def x st k_def [symmetric] Let_def prod.case
      by (auto simp: table_inv_def defaultProviderLabel_nonempty normalizeAIDomainPatterns_def
          split: if_splits option.splits)
  qed
qed

lemma fold_append_inv: "table_inv st \<Longrightarrow> table_inv (fold appendProvider xs st)"
  by (induction xs arbitrary: st) (simp_all add: appendProvider_inv)

lemma set_dedupe [simp]: "set (dedupeAndSortPatterns vs) = set vs - {[]}"
  by (auto simp: dedupeAndSortPatterns_def)

lemma sorted_dedupe: "sorted (map pattern_rank (dedupeAndSortPatterns vs))"
  by (simp add: dedupeAndSortPatterns_def)

lemma dedupe_idem [simp]: "dedupeAndSortPatterns (dedupeAndSortPatterns vs) = dedupeAndSortPatterns vs"
proof -
  have "distinct (dedupeAndSortPatterns vs)" "filter (\<lambda>v. v \<noteq> []) (dedupeAndSortPatterns vs) = dedupeAndSortPatterns vs"
    by (auto simp: dedupeAndSortPatterns_def filter_id_conv)
  then show ?thesis using sorted_dedupe [of vs]
    by (simp add: dedupeAndSortPatterns_def [of "dedupeAndSortPatterns vs"] distinct_remdups_id sort_key_id_if_sorted)
qed

lemma ordered_providers:
  assumes "p \<in> set (currentTrackedAIProvidersOrdered cfg presets)"
  shows "usable p \<and> [] \<notin> set (ap_Patterns p) \<and> sorted (map pattern_rank (ap_Patterns p))
    \<and> dedupeAndSortPatterns (ap_Patterns p) = ap_Patterns p"
  using assms by (auto simp: currentTrackedAIProvidersOrdered_def Let_def sorted_dedupe split: prod.splits)

lemma ordered_keys_distinct: "distinct (map ap_Key (currentTrackedAIProvidersOrdered cfg presets))"
proof -
  define xs where "xs = enabled_rules cfg @ presets @ builtinTrackedAIProviders"
  obtain providers order where st: "fold appendProvider xs (Map.empty, []) = (providers, order)" by fastforce
  have inv: "table_inv (providers, order)"
    using fold_append_inv [of "(Map.empty, [])" xs] st by (simp add: table_inv_def)
  have "map ap_Key (map (\<lambda>key. let p = the (providers key) in p\<lparr>ap_Patterns := dedupeAndSortPatterns (ap_Patterns p)\<rparr>) order) = order"
    using inv by (fastforce simp: table_inv_def Let_def intro!: map_idI)
  then show ?thesis
    using inv by (simp add: currentTrackedAIProvidersOrdered_def xs_def [symmetric] st table_inv_def distinct_map_filter)
qed

lemma tracked_domains: "p \<in> set (currentTrackedAIProvidersOrdered cfg presets) \<Longrightarrow> t \<in> set (ap_Patterns p) \<Longrightarrow>
    t \<in> set (currentTrackedAIDomains cfg presets)"
  using ordered_providers [of p cfg presets]
  by (fastforce simp: currentTrackedAIDomains_def sortTrackedAIDomains_def currentTrackedAIProviders_def usable_def)

section \<open>Matching\<close>

lemma find_sorted:
  assumes "sorted (map pattern_rank xs)" "find P xs = Some x"
  shows "x \<in> set xs \<and> P x \<and> (\<forall>y\<in>set xs. P y \<longrightarrow> length y \<le> length x)"
  using assms
proof (induction xs)
  case (Cons z zs)
  show ?case
  proof (cases "P z")
    case True
    then have "x = z" using Cons.prems by simp
    moreover have "length y \<le> length z" if "y \<in> set zs" for y
      using Cons.prems(1) that by (auto simp: pattern_rank_def)
    ultimately show ?thesis using True by auto
  next
    case False
    then show ?thesis using Cons by auto
  qed
qed simp

lemma provider_loop_None: "provider_loop ps host = None \<longleftrightarrow>
    (\<forall>p\<in>set ps. \<forall>t\<in>set (ap_Patterns p). \<not> aiDomainMatches t host)"
  by (induction ps) (auto simp: find_None_iff split: option.splits dest: find_SomeD)

lemma provider_loop_Some: "provider_loop ps host = Some (p, t) \<Longrightarrow>
    \<exists>pre post. ps = pre @ p # post \<and> find (\<lambda>u. aiDomainMatches u host) (ap_Patterns p) = Some t
      \<and> (\<forall>q\<in>set pre. \<forall>u\<in>set (ap_Patterns q). \<not> aiDomainMatches u host)"
proof (induction ps)
  case (Cons q ps)
  show ?case
  proof (cases "find (\<lambda>u. aiDomainMatches u host) (ap_Patterns q)")
    case (Some u)
    then have "q = p \<and> u = t" using Cons.prems by simp
    then show ?thesis using Some by (intro exI [of _ "[]"] exI [of _ ps]) auto
  next
    case None
    then obtain pre post where "ps = pre @ p # post" "find (\<lambda>u. aiDomainMatches u host) (ap_Patterns p) = Some t"
        "\<forall>q\<in>set pre. \<forall>u\<in>set (ap_Patterns q). \<not> aiDomainMatches u host"
      using Cons by auto
    then show ?thesis using None
      by (intro exI [of _ "q # pre"] exI [of _ post]) (auto simp: find_None_iff)
  qed
qed simp

text \<open>
  A host is attributed to the first provider in the order of the table that has a pattern for it,
  with the longest of that provider's patterns that match; it is attributed to none exactly when its
  name is empty after normalisation or no pattern of any provider matches. The providers have
  different keys, and the pattern is one of the tracked domains, so that a counter for it exists.
\<close>

theorem ai_host_attribution:
  "let ps = currentTrackedAIProvidersOrdered cfg presets; name = normalizeAIDomainHost host
   in distinct (map ap_Key ps) \<and>
     (case matchTrackedAIProvider cfg presets host of
        None \<Rightarrow> name = [] \<or> (\<forall>p\<in>set ps. \<forall>t\<in>set (ap_Patterns p). \<not> aiDomainMatches t name)
      | Some (p, t) \<Rightarrow>
          name \<noteq> [] \<and> (\<exists>pre post. ps = pre @ p # post \<and> t \<in> set (ap_Patterns p) \<and> aiDomainMatches t name
            \<and> (\<forall>q\<in>set pre. \<forall>u\<in>set (ap_Patterns q). \<not> aiDomainMatches u name)
            \<and> (\<forall>u\<in>set (ap_Patterns p). aiDomainMatches u name \<longrightarrow> length u \<le> length t))
          \<and> t \<in> set (currentTrackedAIDomains cfg presets))"
proof (cases "matchTrackedAIProvider cfg presets host")
  case None
  then show ?thesis
    by (auto simp: matchTrackedAIProvider_def Let_def provider_loop_None ordered_keys_distinct split: if_splits)
next
  case (Some r)
  obtain p t where r: "r = (p, t)" by (cases r)
  let ?ps = "currentTrackedAIProvidersOrdered cfg presets" and ?name = "normalizeAIDomainHost host"
  have loop: "provider_loop ?ps ?name = Some (p, t)" and name: "?name \<noteq> []"
    using Some r by (auto simp: matchTrackedAIProvider_def Let_def split: if_splits)
  then obtain pre post where pp: "?ps = pre @ p # post"
      "find (\<lambda>u. aiDomainMatches u ?name) (ap_Patterns p) = Some t"
      "\<forall>q\<in>set pre. \<forall>u\<in>set (ap_Patterns q). \<not> aiDomainMatches u ?name"
    using provider_loop_Some by blast
  have p: "p \<in> set ?ps" using pp(1) by simp
  have best: "t \<in> set (ap_Patterns p) \<and> aiDomainMatches t ?name
      \<and> (\<forall>u\<in>set (ap_Patterns p). aiDomainMatches u ?name \<longrightarrow> length u \<le> length t)"
    using find_sorted [OF _ pp(2)] ordered_providers [OF p] by blast
  have "t \<in> set (currentTrackedAIDomains cfg presets)" using tracked_domains [OF p] best by blast
  then show ?thesis using Some r name pp best ordered_keys_distinct [of cfg presets] by (auto simp: Let_def)
qed

lemma ai_host_attribution_witness:
  "matchTrackedAIDomain None [] ''https://API.openai.com/v1'' = ''openai.com''
   \<and> ''openai.com'' \<in> set (currentTrackedAIDomains None [])"
proof -
  have "matchTrackedAIDomain None [] ''https://API.openai.com/v1'' = ''openai.com''" by code_simp
  then show ?thesis
    using ai_host_attribution [of None "[]" "''https://API.openai.com/v1''"]
    by (auto simp: matchTrackedAIDomain_def Let_def split: option.splits)
qed

text \<open>
  The order is that of an iteration over a Go map, which differs from run to run: when two rules
  name the same domain, the provider of a host differs as well.
\<close>

lemma attribution_depends_on_iteration:
  "map_option (ap_Key \<circ> fst) (matchTrackedAIProvider None [(''a'', [], [''x.org'']), (''b'', [], [''x.org''])] ''x.org'') = Some ''a''"
  "map_option (ap_Key \<circ> fst) (matchTrackedAIProvider None [(''b'', [], [''x.org'']), (''a'', [], [''x.org''])] ''x.org'') = Some ''b''"
  by code_simp+

end
