(* ===== verification/Http_Stats.thy ===== *)
theory Http_Stats
  imports Traffic_Stats Request_Cache AI_Domains
begin

text \<open>
  The statistics of HTTP requests: the counters by tracked domain
  (\<^verbatim>\<open>src/processor/statistic/domain_stats_tracker.go\<close>), the reading of token counts from responses
  (\<^verbatim>\<open>token_counter.go\<close>) and the collector over them (\<^verbatim>\<open>http_stats_collector.go\<close>).

  Counters are 64-bit words. Floating point arithmetic is an argument, a structure of operations: no
  theorem depends on how it rounds. The decoders of \<^verbatim>\<open>encoding/json\<close> and \<^verbatim>\<open>net/http\<close> are arguments too,
  one per type they decode to.
\<close>

section \<open>Counters by domain\<close>

record 'f float_ops =
  fl_of :: "uint64 \<Rightarrow> 'f"
  fl_add :: "'f \<Rightarrow> 'f \<Rightarrow> 'f"
  fl_mul :: "'f \<Rightarrow> 'f \<Rightarrow> 'f"
  fl_div :: "'f \<Rightarrow> 'f \<Rightarrow> 'f"

record 'f DomainStats =
  ds_Domain :: string
  ds_RequestCount :: uint64
  ds_ResponseCount :: uint64
  ds_UploadBytes :: uint64
  ds_DownloadBytes :: uint64
  ds_InputTokens :: uint64
  ds_OutputTokens :: uint64
  ds_TrafficShare :: 'f
  ds_RequestShare :: 'f
  ds_SuccessCount :: uint64
  ds_ErrorCount :: uint64
  ds_AvgLatency :: 'f

record 'f DomainStatsTracker =
  dt_stats :: "string \<rightharpoonup> 'f DomainStats"
  dt_totalReq :: uint64
  dt_totalTraffic :: uint64

definition new_domain_stats :: "'f float_ops \<Rightarrow> string \<Rightarrow> 'f DomainStats" where
  "new_domain_stats fl d = \<lparr>ds_Domain = d, ds_RequestCount = 0, ds_ResponseCount = 0, ds_UploadBytes = 0,
     ds_DownloadBytes = 0, ds_InputTokens = 0, ds_OutputTokens = 0, ds_TrafficShare = fl_of fl 0,
     ds_RequestShare = fl_of fl 0, ds_SuccessCount = 0, ds_ErrorCount = 0, ds_AvgLatency = fl_of fl 0\<rparr>"

definition ensureTrackedDomainsLocked :: "'f float_ops \<Rightarrow> string list \<Rightarrow> 'f DomainStatsTracker \<Rightarrow> 'f DomainStatsTracker" where
  "ensureTrackedDomainsLocked fl tracked t =
     t\<lparr>dt_stats := fold (\<lambda>d m. if m d = None then m(d \<mapsto> new_domain_stats fl d) else m) tracked (dt_stats t)\<rparr>"

definition NewDomainStatsTracker :: "'f float_ops \<Rightarrow> string list \<Rightarrow> 'f DomainStatsTracker" where
  "NewDomainStatsTracker fl tracked =
     ensureTrackedDomainsLocked fl tracked \<lparr>dt_stats = Map.empty, dt_totalReq = 0, dt_totalTraffic = 0\<rparr>"

text \<open>\<^verbatim>\<open>Duration.Milliseconds\<close>.\<close>

definition Milliseconds :: "duration \<Rightarrow> uint64" where
  "Milliseconds d = word_of_int (d sdiv 1000000)"

definition domain_update :: "'f float_ops \<Rightarrow> HTTPRequestRecord \<Rightarrow> 'f DomainStats \<Rightarrow> 'f DomainStats" where
  "domain_update fl r s0 =
     (let s1 = s0\<lparr>ds_RequestCount := ds_RequestCount s0 + 1,
                  ds_ResponseCount := ds_ResponseCount s0 + hr_ResponseCount r,
                  ds_UploadBytes := ds_UploadBytes s0 + hr_UploadBytes r,
                  ds_DownloadBytes := ds_DownloadBytes s0 + hr_DownloadBytes r,
                  ds_InputTokens := ds_InputTokens s0 + hr_InputTokens r,
                  ds_OutputTokens := ds_OutputTokens s0 + hr_OutputTokens r\<rparr>;
          s2 = (if hr_StatusCode r \<ge> 200 \<and> hr_StatusCode r < 300 then s1\<lparr>ds_SuccessCount := ds_SuccessCount s1 + 1\<rparr>
                else if hr_StatusCode r \<ge> 400 then s1\<lparr>ds_ErrorCount := ds_ErrorCount s1 + 1\<rparr> else s1);
          latency = Milliseconds (Duration r)
      in if sint (ds_RequestCount s2) > 1
         then s2\<lparr>ds_AvgLatency := fl_div fl (fl_add fl (fl_mul fl (ds_AvgLatency s2) (fl_of fl (ds_RequestCount s2 - 1)))
                                   (fl_of fl latency)) (fl_of fl (ds_RequestCount s2))\<rparr>
         else s2\<lparr>ds_AvgLatency := fl_of fl latency\<rparr>)"

definition Domain_RecordRequest ::
    "'f float_ops \<Rightarrow> Config option \<Rightarrow> preset list \<Rightarrow> HTTPRequestRecord option \<Rightarrow> 'f DomainStatsTracker \<Rightarrow> 'f DomainStatsTracker" where
  "Domain_RecordRequest fl cfg presets rec t0 =
     (case rec of None \<Rightarrow> t0
      | Some r \<Rightarrow>
          let t = ensureTrackedDomainsLocked fl (currentTrackedAIDomains cfg presets) t0;
              matchedDomain = matchTrackedAIDomain cfg presets (hr_Host r) in
          if matchedDomain = [] then t
          else
            let stats = (case dt_stats t matchedDomain of None \<Rightarrow> new_domain_stats fl matchedDomain | Some s \<Rightarrow> s)
            in t\<lparr>dt_stats := (dt_stats t)(matchedDomain \<mapsto> domain_update fl r stats),
                 dt_totalReq := dt_totalReq t + 1,
                 dt_totalTraffic := dt_totalTraffic t + (hr_UploadBytes r + hr_DownloadBytes r)\<rparr>)"

definition copyStatsWithShares :: "'f float_ops \<Rightarrow> 'f DomainStatsTracker \<Rightarrow> 'f DomainStats \<Rightarrow> 'f DomainStats" where
  "copyStatsWithShares fl t stats =
     (let c1 = (if sint (dt_totalTraffic t) > 0
                then stats\<lparr>ds_TrafficShare := fl_mul fl (fl_div fl (fl_of fl (ds_UploadBytes stats + ds_DownloadBytes stats))
                              (fl_of fl (dt_totalTraffic t))) (fl_of fl 100)\<rparr> else stats)
      in if sint (dt_totalReq t) > 0
         then c1\<lparr>ds_RequestShare := fl_mul fl (fl_div fl (fl_of fl (ds_RequestCount stats)) (fl_of fl (dt_totalReq t))) (fl_of fl 100)\<rparr>
         else c1)"

definition Domain_GetStats :: "'f float_ops \<Rightarrow> string \<Rightarrow> 'f DomainStatsTracker \<Rightarrow> 'f DomainStats option" where
  "Domain_GetStats fl d t = map_option (copyStatsWithShares fl t) (dt_stats t d)"

text \<open>\<^verbatim>\<open>GetAllStats\<close> returns the values of a map in the order of its iteration: here, as a map.\<close>

definition Domain_GetAllStats ::
    "'f float_ops \<Rightarrow> string list \<Rightarrow> 'f DomainStatsTracker \<Rightarrow> 'f DomainStatsTracker \<times> (string \<rightharpoonup> 'f DomainStats)" where
  "Domain_GetAllStats fl tracked t0 =
     (let t = ensureTrackedDomainsLocked fl tracked t0
      in (t, map_option (copyStatsWithShares fl t) \<circ> dt_stats t))"

definition Domain_GetTotals :: "'f DomainStatsTracker \<Rightarrow> uint64 \<times> uint64" where
  "Domain_GetTotals t = (dt_totalReq t, dt_totalTraffic t)"

definition Domain_Reset :: "'f float_ops \<Rightarrow> string list \<Rightarrow> 'f DomainStatsTracker \<Rightarrow> 'f DomainStatsTracker" where
  "Domain_Reset fl tracked t =
     (ensureTrackedDomainsLocked fl tracked (t\<lparr>dt_stats := Map.empty\<rparr>))\<lparr>dt_totalReq := 0, dt_totalTraffic := 0\<rparr>"

section \<open>Tokens\<close>

record TokenUsage =
  tu_InputTokens :: uint64
  tu_OutputTokens :: uint64
  tu_TotalTokens :: uint64

text \<open>
  What the decoders make of a body: the model and the counts, with zero for a missing count, or
  nothing when the body is no JSON of that shape.
\<close>

record usage_json =
  uj_Model :: string
  uj_PromptTokens :: uint64
  uj_CompletionTokens :: uint64
  uj_TotalTokens :: uint64
  uj_InputTokens :: uint64
  uj_OutputTokens :: uint64

record stats_env =
  se_openai :: "byte list \<Rightarrow> usage_json option"
  se_claude :: "byte list \<Rightarrow> usage_json option"
  se_generic :: "byte list \<Rightarrow> usage_json option"
  se_model :: "byte list \<Rightarrow> string option"
  se_json_valid :: "byte list \<Rightarrow> bool"
  se_ReadRequest :: "byte list \<Rightarrow> (string \<times> string option \<times> byte list) option"
  se_ReadResponse :: "byte list \<Rightarrow> (int \<times> byte list) option"

definition OpenAI_ToTokenUsage :: "usage_json \<Rightarrow> TokenUsage" where
  "OpenAI_ToTokenUsage r = \<lparr>tu_InputTokens = uj_PromptTokens r, tu_OutputTokens = uj_CompletionTokens r,
     tu_TotalTokens = uj_TotalTokens r\<rparr>"

definition Claude_ToTokenUsage :: "usage_json \<Rightarrow> TokenUsage" where
  "Claude_ToTokenUsage r = \<lparr>tu_InputTokens = uj_InputTokens r, tu_OutputTokens = uj_OutputTokens r,
     tu_TotalTokens = uj_InputTokens r + uj_OutputTokens r\<rparr>"

definition parseOpenAI :: "stats_env \<Rightarrow> byte list \<Rightarrow> (TokenUsage \<times> string) option" where
  "parseOpenAI E body =
     (case se_openai E body of None \<Rightarrow> None
      | Some resp \<Rightarrow> if uj_TotalTokens resp = 0 then None else Some (OpenAI_ToTokenUsage resp, uj_Model resp))"

definition parseClaude :: "stats_env \<Rightarrow> byte list \<Rightarrow> (TokenUsage \<times> string) option" where
  "parseClaude E body =
     (case se_claude E body of None \<Rightarrow> None
      | Some resp \<Rightarrow> if uj_InputTokens resp = 0 \<and> uj_OutputTokens resp = 0 then None
                     else Some (Claude_ToTokenUsage resp, uj_Model resp))"

definition parseGeneric :: "stats_env \<Rightarrow> byte list \<Rightarrow> (TokenUsage \<times> string) option" where
  "parseGeneric E body =
     (case se_generic E body of None \<Rightarrow> None
      | Some resp \<Rightarrow>
          if sint (uj_TotalTokens resp) > 0 then Some (OpenAI_ToTokenUsage resp, uj_Model resp)
          else if sint (uj_InputTokens resp) > 0 \<or> sint (uj_OutputTokens resp) > 0
               then Some (Claude_ToTokenUsage resp, uj_Model resp)
          else None)"

definition ParseTokenUsage :: "stats_env \<Rightarrow> string \<Rightarrow> byte list \<Rightarrow> (TokenUsage \<times> string) option" where
  "ParseTokenUsage E host0 body =
     (if body = [] then None
      else let host = ToLower host0 in
        if Contains host ''openai.com'' \<or> Contains host ''chatgpt.com'' then parseOpenAI E body
        else if Contains host ''claude.ai'' \<or> Contains host ''anthropic.com'' then parseClaude E body
        else if Contains host ''cursor.com'' \<or> Contains host ''copilot.microsoft.com'' then parseOpenAI E body
        else parseGeneric E body)"

definition ExtractModelFromRequest :: "stats_env \<Rightarrow> byte list \<Rightarrow> string" where
  "ExtractModelFromRequest E body =
     (if body = [] then [] else case se_model E body of None \<Rightarrow> [] | Some m \<Rightarrow> m)"

section \<open>Reading a request and a response\<close>

definition first_line :: "byte list \<Rightarrow> byte list option" where
  "first_line payload =
     (let e1 = (case Index payload [13, 10] of None \<Rightarrow> -1 | Some i \<Rightarrow> int i);
          e2 = (if e1 \<le> 0 then (case Index payload [10] of None \<Rightarrow> -1 | Some i \<Rightarrow> int i) else e1)
      in if e2 \<le> 0 then None else Some (take (nat e2) payload))"

definition parseRequestLineFallback :: "byte list \<Rightarrow> string \<times> string" where
  "parseRequestLineFallback payload =
     (case first_line payload of None \<Rightarrow> ([], [])
      | Some line \<Rightarrow> (case Fields (string_of_bytes line) of m # p # _ \<Rightarrow> (m, p) | _ \<Rightarrow> ([], [])))"

definition parseStatusCodeFallback :: "byte list \<Rightarrow> int" where
  "parseStatusCodeFallback payload =
     (case first_line payload of None \<Rightarrow> 0
      | Some line \<Rightarrow> (case Fields (string_of_bytes line) of
            _ # code # _ \<Rightarrow> (case Atoi code of None \<Rightarrow> 0 | Some n \<Rightarrow> n)
          | _ \<Rightarrow> 0))"

definition parseModelFromBody :: "stats_env \<Rightarrow> byte list \<Rightarrow> string" where
  "parseModelFromBody E body = (case se_model E body of None \<Rightarrow> [] | Some m \<Rightarrow> m)"

definition readBodyBytes :: "byte list \<Rightarrow> byte list" where
  "readBodyBytes body = take (1024 * 1024) body"

definition extractLikelyJSON :: "stats_env \<Rightarrow> byte list \<Rightarrow> byte list" where
  "extractLikelyJSON E payload =
     (if payload = [] then []
      else if 123 \<notin> set payload \<or> 125 \<notin> set payload then []
      else
        let start = length (takeWhile (\<lambda>b. b \<noteq> 123) payload);
            stop = length payload - 1 - length (takeWhile (\<lambda>b. b \<noteq> 125) (rev payload)) in
        if stop \<le> start then []
        else
          let candidate = drop start (take (stop + 1) payload) in
          if se_json_valid E candidate then candidate
          else
            let trimmed = TrimSpace (string_of_bytes candidate) in
            if trimmed = [] then []
            else if se_json_valid E (bytes_of_string trimmed) then bytes_of_string trimmed else [])"

definition parseRequestInfo :: "stats_env \<Rightarrow> byte list \<Rightarrow> string \<times> string \<times> string" where
  "parseRequestInfo E payload =
     (if payload = [] then ([], [], [])
      else case se_ReadRequest E payload of
        None \<Rightarrow>
          let (m, p) = parseRequestLineFallback payload in (m, p, parseModelFromBody E (extractLikelyJSON E payload))
      | Some (m, url_path, rest) \<Rightarrow>
          let body = readBodyBytes rest
          in (m, case url_path of None \<Rightarrow> [] | Some p \<Rightarrow> p, if body \<noteq> [] then parseModelFromBody E body else []))"

definition parseResponseInfo :: "stats_env \<Rightarrow> byte list \<Rightarrow> int \<times> byte list" where
  "parseResponseInfo E payload =
     (if payload = [] then (0, [])
      else case se_ReadResponse E payload of
        None \<Rightarrow> (parseStatusCodeFallback payload, extractLikelyJSON E payload)
      | Some (code, rest) \<Rightarrow> (code, readBodyBytes rest))"

section \<open>The collector\<close>

record 'f HTTPStatsCollector =
  hc_requestCache :: HTTPRequestCache
  hc_domainTracker :: "'f DomainStatsTracker"
  hc_trafficChart :: TrafficChartBuffer
  hc_currentInterval :: TrafficDataPoint
  hc_intervalStart :: int
  hc_totalUpload :: uint64
  hc_totalDownload :: uint64
  hc_totalRequests :: uint64
  hc_totalResponses :: uint64
  hc_totalDurationMs :: uint64
  hc_totalFirstMs :: uint64

text \<open>Times are the seconds of \<^verbatim>\<open>Unix\<close> here.\<close>

definition NewHTTPStatsCollector :: "'f float_ops \<Rightarrow> string list \<Rightarrow> int \<Rightarrow> 'f HTTPStatsCollector option" where
  "NewHTTPStatsCollector fl tracked now =
     (case NewTrafficChartBuffer 240 of None \<Rightarrow> None
      | Some chart \<Rightarrow>
          Some \<lparr>hc_requestCache = NewHTTPRequestCache 100, hc_domainTracker = NewDomainStatsTracker fl tracked,
                hc_trafficChart = chart, hc_currentInterval = zero_point, hc_intervalStart = now,
                hc_totalUpload = 0, hc_totalDownload = 0, hc_totalRequests = 0, hc_totalResponses = 0,
                hc_totalDurationMs = 0, hc_totalFirstMs = 0\<rparr>)"

definition flushInterval :: "int \<Rightarrow> 'f HTTPStatsCollector \<Rightarrow> 'f HTTPStatsCollector option" where
  "flushInterval now c =
     (let point = (hc_currentInterval c)\<lparr>Timestamp := word_of_int (hc_intervalStart c)\<rparr> in
      case Chart_Push (Some point) (hc_trafficChart c) of None \<Rightarrow> None
      | Some chart \<Rightarrow> Some (c\<lparr>hc_trafficChart := chart, hc_currentInterval := zero_point, hc_intervalStart := now\<rparr>))"

definition counted_requests :: "HTTPRequestRecord \<Rightarrow> uint64" where
  "counted_requests r = (if sint (hr_RequestCount r) \<le> 0 then 1 else hr_RequestCount r)"

definition RecordRequest ::
    "'f float_ops \<Rightarrow> Config option \<Rightarrow> preset list \<Rightarrow> string \<Rightarrow> HTTPRequestRecord option \<Rightarrow> 'f HTTPStatsCollector \<Rightarrow> 'f HTTPStatsCollector" where
  "RecordRequest fl cfg presets uid rec c =
     (case rec of None \<Rightarrow> c
      | Some r0 \<Rightarrow>
          let r = with_id uid r0; cur = hc_currentInterval c; n = counted_requests r
          in c\<lparr>hc_requestCache := RequestCache_Add uid (Some r0) (hc_requestCache c),
               hc_domainTracker := Domain_RecordRequest fl cfg presets (Some r) (hc_domainTracker c),
               hc_currentInterval := cur\<lparr>UploadBytes := UploadBytes cur + hr_UploadBytes r,
                  DownloadBytes := DownloadBytes cur + hr_DownloadBytes r,
                  InputTokens := InputTokens cur + hr_InputTokens r,
                  OutputTokens := OutputTokens cur + hr_OutputTokens r,
                  RequestCount := RequestCount cur + n,
                  ResponseCount := ResponseCount cur + hr_ResponseCount r\<rparr>,
               hc_totalUpload := hc_totalUpload c + hr_UploadBytes r,
               hc_totalDownload := hc_totalDownload c + hr_DownloadBytes r,
               hc_totalRequests := hc_totalRequests c + n,
               hc_totalResponses := hc_totalResponses c + hr_ResponseCount r,
               hc_totalDurationMs := hc_totalDurationMs c + Milliseconds (Duration r),
               hc_totalFirstMs := hc_totalFirstMs c + Milliseconds (FirstResponseLatency r)\<rparr>)"

definition ClearAll :: "'f float_ops \<Rightarrow> string list \<Rightarrow> int \<Rightarrow> 'f HTTPStatsCollector \<Rightarrow> 'f HTTPStatsCollector" where
  "ClearAll fl tracked now c =
     c\<lparr>hc_requestCache := RequestCache_Clear (hc_requestCache c),
       hc_domainTracker := Domain_Reset fl tracked (hc_domainTracker c),
       hc_trafficChart := Chart_Clear (hc_trafficChart c), hc_currentInterval := zero_point,
       hc_intervalStart := now, hc_totalRequests := 0, hc_totalResponses := 0, hc_totalUpload := 0,
       hc_totalDownload := 0, hc_totalDurationMs := 0, hc_totalFirstMs := 0\<rparr>"

definition GetTrafficChartData :: "uint64 \<Rightarrow> 'f HTTPStatsCollector \<Rightarrow> TrafficDataPoint list" where
  "GetTrafficChartData since c = Chart_GetSince since (hc_trafficChart c)"

definition GetRequestRecords :: "int \<Rightarrow> 'f HTTPStatsCollector \<Rightarrow> HTTPRequestRecord list" where
  "GetRequestRecords limit c = RequestCache_GetRecent limit (hc_requestCache c)"

record http_totals =
  ht_requestCacheSize :: nat
  ht_chartDataPoints :: nat
  ht_totalRequests :: uint64
  ht_totalResponses :: uint64
  ht_totalUploadBytes :: uint64
  ht_totalDownloadBytes :: uint64
  ht_totalTrafficBytes :: uint64
  ht_totalDurationMs :: uint64
  ht_totalFirstRespMs :: uint64
  ht_avgDurationMs :: uint64
  ht_avgFirstRespMs :: uint64

definition Http_GetStats :: "'f HTTPStatsCollector \<Rightarrow> http_totals" where
  "Http_GetStats c =
     (let avg = (\<lambda>x. if sint (hc_totalRequests c) > 0 then word_of_int (sint x sdiv sint (hc_totalRequests c)) else 0)
      in \<lparr>ht_requestCacheSize = RequestCache_Size (hc_requestCache c), ht_chartDataPoints = Chart_Size (hc_trafficChart c),
          ht_totalRequests = hc_totalRequests c, ht_totalResponses = hc_totalResponses c,
          ht_totalUploadBytes = hc_totalUpload c, ht_totalDownloadBytes = hc_totalDownload c,
          ht_totalTrafficBytes = hc_totalUpload c + hc_totalDownload c,
          ht_totalDurationMs = hc_totalDurationMs c, ht_totalFirstRespMs = hc_totalFirstMs c,
          ht_avgDurationMs = avg (hc_totalDurationMs c), ht_avgFirstRespMs = avg (hc_totalFirstMs c)\<rparr>)"

text \<open>The record of a finished connection.\<close>

definition connection_record ::
    "stats_env \<Rightarrow> Metadata \<Rightarrow> byte list \<Rightarrow> byte list \<Rightarrow> uint64 \<Rightarrow> uint64 \<Rightarrow> time \<Rightarrow> time \<Rightarrow> time \<Rightarrow> HTTPRequestRecord" where
  "connection_record E md requestPayload responsePayload uploadBytes downloadBytes startedAt firstResponseAt completedAt =
     (let host = (if md_HostName md = [] \<and> IsValid (md_DstIP md) then addr_String (md_DstIP md) else md_HostName md);
          (meth, path, modelFromReq) = parseRequestInfo E requestPayload;
          (statusCode, responseBody) = parseResponseInfo E responsePayload;
          r0 = \<lparr>hr_ID = [], hr_Timestamp = startedAt, hr_RequestCount = 1,
                hr_ResponseCount = (if firstResponseAt \<noteq> 0 \<or> responsePayload \<noteq> [] \<or> sint downloadBytes > 0 then 1 else 0),
                hr_Host = host, hr_Path = path, hr_Method = meth,
                hr_StatusCode = (if statusCode > 0 then statusCode else 0),
                hr_UploadBytes = uploadBytes, hr_DownloadBytes = downloadBytes, hr_InputTokens = 0,
                hr_OutputTokens = 0, hr_TotalTokens = 0, hr_Model = [], hr_FirstResponseAt = firstResponseAt,
                hr_CompleteResponseAt = completedAt, hr_Route = md_Route md\<rparr>;
          r1 = (case ParseTokenUsage E host responseBody of None \<Rightarrow> r0
                | Some (usage, model) \<Rightarrow>
                    r0\<lparr>hr_InputTokens := tu_InputTokens usage, hr_OutputTokens := tu_OutputTokens usage,
                       hr_TotalTokens := tu_TotalTokens usage, hr_Model := model\<rparr>)
      in if hr_Model r1 = [] then r1\<lparr>hr_Model := modelFromReq\<rparr> else r1)"

definition RecordConnection ::
    "stats_env \<Rightarrow> 'f float_ops \<Rightarrow> Config option \<Rightarrow> preset list \<Rightarrow> string \<Rightarrow> Metadata option \<Rightarrow> byte list \<Rightarrow> byte list
     \<Rightarrow> uint64 \<Rightarrow> uint64 \<Rightarrow> time \<Rightarrow> time \<Rightarrow> time \<Rightarrow> 'f HTTPStatsCollector \<Rightarrow> 'f HTTPStatsCollector" where
  "RecordConnection E fl cfg presets uid metadata requestPayload responsePayload up down startedAt firstAt doneAt c =
     (case metadata of None \<Rightarrow> c
      | Some md \<Rightarrow> RecordRequest fl cfg presets uid
          (Some (connection_record E md requestPayload responsePayload up down startedAt firstAt doneAt)) c)"

definition GetDomainStatsFor :: "'f float_ops \<Rightarrow> string \<Rightarrow> 'f HTTPStatsCollector \<Rightarrow> 'f DomainStats option" where
  "GetDomainStatsFor fl domain c = Domain_GetStats fl domain (hc_domainTracker c)"

text \<open>The start and stop of this collector are those of the connection statistics.\<close>

definition Http_Start :: "lifecycle \<Rightarrow> lifecycle" where
  "Http_Start c = Collector_Start c"

definition Http_Stop :: "lifecycle \<Rightarrow> lifecycle option" where
  "Http_Stop c = Collector_Stop c"

section \<open>Histories\<close>

text \<open>A request recorded under some configuration, the end of an interval, a clear.\<close>

datatype http_op = RequestOp "Config option" "preset list" string HTTPRequestRecord
  | FlushOp int | ClearAllOp "string list" int

fun http_step :: "'f float_ops \<Rightarrow> http_op \<Rightarrow> 'f HTTPStatsCollector \<Rightarrow> 'f HTTPStatsCollector option" where
  "http_step fl (RequestOp cfg presets uid r) c = Some (RecordRequest fl cfg presets uid (Some r) c)"
| "http_step fl (FlushOp now) c = flushInterval now c"
| "http_step fl (ClearAllOp tracked now) c = Some (ClearAll fl tracked now c)"

fun http_run :: "'f float_ops \<Rightarrow> http_op list \<Rightarrow> 'f HTTPStatsCollector \<Rightarrow> 'f HTTPStatsCollector option" where
  "http_run fl [] c = Some c"
| "http_run fl (op # ops) c = (case http_step fl op c of None \<Rightarrow> None | Some c' \<Rightarrow> http_run fl ops c')"

text \<open>The records and the number of interval ends since the last clear.\<close>

fun recorded :: "HTTPRequestRecord list \<Rightarrow> http_op list \<Rightarrow> HTTPRequestRecord list" where
  "recorded rs [] = rs"
| "recorded rs (RequestOp cfg presets uid r # ops) = recorded (rs @ [r]) ops"
| "recorded rs (FlushOp now # ops) = recorded rs ops"
| "recorded rs (ClearAllOp tracked now # ops) = recorded [] ops"

fun flushes :: "nat \<Rightarrow> http_op list \<Rightarrow> nat" where
  "flushes n [] = n"
| "flushes n (RequestOp cfg presets uid r # ops) = flushes n ops"
| "flushes n (FlushOp now # ops) = flushes (Suc n) ops"
| "flushes n (ClearAllOp tracked now # ops) = flushes 0 ops"

section \<open>Counters by domain add up\<close>

definition sum_stats :: "('a \<Rightarrow> uint64) \<Rightarrow> (string \<rightharpoonup> 'a) \<Rightarrow> uint64" where
  "sum_stats f m = (\<Sum>d\<in>dom m. f (the (m d)))"

definition domain_inv :: "'f DomainStatsTracker \<Rightarrow> bool" where
  "domain_inv t \<longleftrightarrow> finite (dom (dt_stats t)) \<and> dt_totalReq t = sum_stats ds_RequestCount (dt_stats t)
     \<and> dt_totalTraffic t = sum_stats (\<lambda>s. ds_UploadBytes s + ds_DownloadBytes s) (dt_stats t)"

lemma sum_stats_update:
  assumes "finite (dom m)"
  shows "sum_stats f (m(d \<mapsto> s)) = sum_stats f m + f s - (case m d of None \<Rightarrow> 0 | Some s0 \<Rightarrow> f s0)"
proof -
  have old: "sum_stats f m = (\<Sum>x\<in>dom m - {d}. f (the (m x))) + (case m d of None \<Rightarrow> 0 | Some s0 \<Rightarrow> f s0)"
  proof (cases "m d")
    case None
    then have "dom m - {d} = dom m" by auto
    then show ?thesis using None by (simp add: sum_stats_def)
  next
    case (Some s0)
    then have "d \<in> dom m" by auto
    then show ?thesis using Some assms by (simp add: sum_stats_def sum.remove [of "dom m" d] add.commute)
  qed
  have "sum_stats f (m(d \<mapsto> s)) = (\<Sum>x\<in>insert d (dom m - {d}). f (the ((m(d \<mapsto> s)) x)))"
    by (simp add: sum_stats_def insert_Diff_if)
  also have "\<dots> = f s + (\<Sum>x\<in>dom m - {d}. f (the (m x)))"
    using assms by (subst sum.insert) (auto intro!: sum.cong)
  finally show ?thesis using old by (simp add: algebra_simps)
qed

lemma domain_inv_zero:
  assumes "domain_inv t" "dt_stats t d = None"
  shows "domain_inv (t\<lparr>dt_stats := (dt_stats t)(d \<mapsto> new_domain_stats fl d)\<rparr>)"
  using assms by (simp add: domain_inv_def sum_stats_update) (simp add: new_domain_stats_def)

lemma domain_inv_ensure: "domain_inv t \<Longrightarrow> domain_inv (ensureTrackedDomainsLocked fl tracked t)"
proof (induction tracked arbitrary: t)
  case (Cons d ds)
  have "ensureTrackedDomainsLocked fl (d # ds) t = ensureTrackedDomainsLocked fl ds
      (if dt_stats t d = None then t\<lparr>dt_stats := (dt_stats t)(d \<mapsto> new_domain_stats fl d)\<rparr> else t)"
    by (simp add: ensureTrackedDomainsLocked_def)
  then show ?case using Cons.IH Cons.prems domain_inv_zero by auto
qed (simp add: ensureTrackedDomainsLocked_def)

lemma domain_update_counts:
  "ds_RequestCount (domain_update fl r s) = ds_RequestCount s + 1"
  "ds_UploadBytes (domain_update fl r s) = ds_UploadBytes s + hr_UploadBytes r"
  "ds_DownloadBytes (domain_update fl r s) = ds_DownloadBytes s + hr_DownloadBytes r"
  by (simp_all add: domain_update_def Let_def)

lemma domain_inv_record: "domain_inv t \<Longrightarrow> domain_inv (Domain_RecordRequest fl cfg presets rec t)"
proof (cases rec)
  case (Some r)
  assume inv: "domain_inv t"
  define t1 where "t1 = ensureTrackedDomainsLocked fl (currentTrackedAIDomains cfg presets) t"
  have inv1: "domain_inv t1" unfolding t1_def by (rule domain_inv_ensure [OF inv])
  show ?thesis
    using inv1 Some unfolding Domain_RecordRequest_def
    by (auto simp: t1_def [symmetric] Let_def domain_inv_def sum_stats_update domain_update_counts new_domain_stats_def
        algebra_simps split: option.splits)
qed (simp add: Domain_RecordRequest_def)

lemma domain_inv_reset: "domain_inv (Domain_Reset fl tracked t)"
proof -
  have "domain_inv (ensureTrackedDomainsLocked fl tracked \<lparr>dt_stats = Map.empty, dt_totalReq = 0, dt_totalTraffic = 0\<rparr>)"
    by (rule domain_inv_ensure) (simp add: domain_inv_def sum_stats_def)
  then show ?thesis by (simp add: domain_inv_def Domain_Reset_def ensureTrackedDomainsLocked_def)
qed

section \<open>The collector\<close>

abbreviation field_sum :: "(TrafficDataPoint \<Rightarrow> uint64) \<Rightarrow> TrafficDataPoint list \<Rightarrow> uint64" where
  "field_sum f ps \<equiv> sum_list (map f ps)"

definition totals_match :: "HTTPRequestRecord list \<Rightarrow> TrafficDataPoint list \<Rightarrow> 'f HTTPStatsCollector \<Rightarrow> bool" where
  "totals_match rs ps c \<longleftrightarrow> (let cur = hc_currentInterval c in
       hc_totalUpload c = sum_list (map hr_UploadBytes rs) \<and> hc_totalUpload c = field_sum UploadBytes ps + UploadBytes cur
     \<and> hc_totalDownload c = sum_list (map hr_DownloadBytes rs) \<and> hc_totalDownload c = field_sum DownloadBytes ps + DownloadBytes cur
     \<and> hc_totalRequests c = sum_list (map counted_requests rs) \<and> hc_totalRequests c = field_sum RequestCount ps + RequestCount cur
     \<and> hc_totalResponses c = sum_list (map hr_ResponseCount rs) \<and> hc_totalResponses c = field_sum ResponseCount ps + ResponseCount cur)"

definition collector_ok :: "HTTPRequestRecord list \<Rightarrow> TrafficDataPoint list \<Rightarrow> 'f HTTPStatsCollector \<Rightarrow> bool" where
  "collector_ok rs ps c \<longleftrightarrow> ring_inv (hc_trafficChart c) \<and> ring_capacity (hc_trafficChart c) = 240
     \<and> Chart_GetAll (hc_trafficChart c) = last_n 240 ps
     \<and> cache_typed (hc_requestCache c) \<and> rc_capacity (hc_requestCache c) = 100
     \<and> domain_inv (hc_domainTracker c) \<and> totals_match rs ps c"

lemma with_id_fields [simp]:
  "hr_UploadBytes (with_id uid r) = hr_UploadBytes r" "hr_DownloadBytes (with_id uid r) = hr_DownloadBytes r"
  "hr_ResponseCount (with_id uid r) = hr_ResponseCount r" "counted_requests (with_id uid r) = counted_requests r"
  by (simp_all add: with_id_def counted_requests_def)

lemma collector_ok_request:
  assumes "collector_ok rs ps c"
  shows "collector_ok (rs @ [r]) ps (RecordRequest fl cfg presets uid (Some r) c)"
  using assms Add_refines(1) [of "hc_requestCache c" uid r]
  by (auto simp: collector_ok_def RecordRequest_def Let_def domain_inv_record totals_match_def algebra_simps)

lemma collector_ok_flush:
  assumes "collector_ok rs ps c"
  shows "\<exists>c' p. flushInterval now c = Some c' \<and> collector_ok rs (ps @ [p]) c'"
proof -
  define p where "p = (hc_currentInterval c)\<lparr>Timestamp := word_of_int (hc_intervalStart c)\<rparr>"
  obtain rb where rb: "Ring_Push (Some p) (hc_trafficChart c) = Some rb" "ring_inv rb" "ring_capacity rb = 240"
      "Ring_GetAll zero_point rb = last_n 240 (ps @ [p])"
    using ring_push_law [of "hc_trafficChart c" p zero_point] assms by (auto simp: collector_ok_def last_n_last_n)
  let ?c = "c\<lparr>hc_trafficChart := rb, hc_currentInterval := zero_point, hc_intervalStart := now\<rparr>"
  have "flushInterval now c = Some ?c" using rb(1) by (simp add: flushInterval_def p_def Let_def)
  moreover have "collector_ok rs (ps @ [p]) ?c"
    using assms rb by (auto simp: collector_ok_def totals_match_def Let_def p_def zero_point_def)
  ultimately show ?thesis by blast
qed

lemma collector_ok_clear: "collector_ok rs ps c \<Longrightarrow> collector_ok [] [] (ClearAll fl tracked now c)"
  using rings.clear_law [of "hc_trafficChart c" zero_point] Clear_refines [of "hc_requestCache c"]
  by (simp add: collector_ok_def ClearAll_def domain_inv_reset totals_match_def zero_point_def RequestCache_Clear_def)

lemma collector_ok_run:
  "collector_ok rs ps c \<Longrightarrow> \<exists>c' ps'. http_run fl ops c = Some c' \<and> collector_ok (recorded rs ops) ps' c'
     \<and> length ps' = flushes (length ps) ops"
proof (induction ops arbitrary: rs ps c)
  case (Cons op ops)
  show ?case
  proof (cases op)
    case (RequestOp cfg presets uid r)
    then show ?thesis using Cons.IH [OF collector_ok_request [OF Cons.prems]] by simp
  next
    case (FlushOp now)
    obtain c' p where c': "flushInterval now c = Some c'" "collector_ok rs (ps @ [p]) c'"
      using collector_ok_flush [OF Cons.prems] by blast
    then show ?thesis using FlushOp Cons.IH [OF c'(2)] by simp
  next
    case (ClearAllOp tracked now)
    then show ?thesis using Cons.IH [OF collector_ok_clear [OF Cons.prems]] by simp
  qed
qed auto

lemma collector_ok_new: "\<exists>c. NewHTTPStatsCollector fl tracked now = Some c \<and> collector_ok [] [] c"
proof -
  obtain rb :: TrafficChartBuffer where rb: "NewRingBuffer 240 = Some rb" by (simp add: NewRingBuffer_def)
  have "ring_inv rb \<and> ring_capacity rb = 240 \<and> Ring_GetAll zero_point rb = []"
    using ring_inv_new [of 240 rb zero_point] rb by simp
  moreover have "domain_inv (NewDomainStatsTracker fl tracked)"
    unfolding NewDomainStatsTracker_def by (rule domain_inv_ensure) (simp add: domain_inv_def sum_stats_def)
  ultimately show ?thesis using rb cache_typed_new [of 100]
    by (simp add: NewHTTPStatsCollector_def collector_ok_def totals_match_def zero_point_def NewHTTPRequestCache_def)
qed

text \<open>
  C38. The HTTP statistics conserve what is recorded. After any history of requests, interval ends and
  clears, the totals are the sums over the requests recorded since the last clear; the chart has a
  point for each interval that ended since, up to the last 240; as long as it holds them all the
  totals are also the sums over the chart and the running interval; and the totals of the domain
  counters are the sums over the domains.
\<close>

theorem http_stats_conserved:
  "\<exists>c0 c. NewHTTPStatsCollector fl tracked now = Some c0 \<and> http_run fl ops c0 = Some c
    \<and> (let rs = recorded [] ops; chart = Chart_GetAll (hc_trafficChart c); cur = hc_currentInterval c;
           dt = hc_domainTracker c
       in hc_totalUpload c = sum_list (map hr_UploadBytes rs) \<and> hc_totalDownload c = sum_list (map hr_DownloadBytes rs)
        \<and> hc_totalRequests c = sum_list (map counted_requests rs) \<and> hc_totalResponses c = sum_list (map hr_ResponseCount rs)
        \<and> length chart = min 240 (flushes 0 ops)
        \<and> (flushes 0 ops \<le> 240 \<longrightarrow>
             hc_totalUpload c = field_sum UploadBytes chart + UploadBytes cur
           \<and> hc_totalDownload c = field_sum DownloadBytes chart + DownloadBytes cur
           \<and> hc_totalRequests c = field_sum RequestCount chart + RequestCount cur
           \<and> hc_totalResponses c = field_sum ResponseCount chart + ResponseCount cur)
        \<and> dt_totalReq dt = sum_stats ds_RequestCount (dt_stats dt)
        \<and> dt_totalTraffic dt = sum_stats (\<lambda>s. ds_UploadBytes s + ds_DownloadBytes s) (dt_stats dt))"
proof -
  obtain c0 :: "'a HTTPStatsCollector" where c0: "NewHTTPStatsCollector fl tracked now = Some c0" "collector_ok [] [] c0"
    using collector_ok_new by blast
  obtain c ps where c: "http_run fl ops c0 = Some c" "collector_ok (recorded [] ops) ps c" "length ps = flushes 0 ops"
    using collector_ok_run [OF c0(2), of fl ops] by auto
  show ?thesis
    using c0(1) c by (auto simp: collector_ok_def totals_match_def domain_inv_def Let_def)
qed

definition sample_record :: HTTPRequestRecord where
  "sample_record = \<lparr>hr_ID = ''r1'', hr_Timestamp = 1, hr_RequestCount = 0, hr_ResponseCount = 1, hr_Host = ''example.org'',
     hr_Path = ''/'', hr_Method = ''GET'', hr_StatusCode = 200, hr_UploadBytes = 10, hr_DownloadBytes = 20,
     hr_InputTokens = 0, hr_OutputTokens = 0, hr_TotalTokens = 0, hr_Model = [], hr_FirstResponseAt = 0,
     hr_CompleteResponseAt = 0, hr_Route = ''RouteToALiang''\<rparr>"

definition integer_floats :: "int float_ops" where
  "integer_floats = \<lparr>fl_of = sint, fl_add = (+), fl_mul = (*), fl_div = (sdiv)\<rparr>"

lemma http_stats_conserved_witness:
  "\<exists>c0 c. NewHTTPStatsCollector integer_floats [] 0 = Some c0
     \<and> http_run integer_floats [RequestOp None [] ''u'' sample_record, FlushOp 15, RequestOp None [] ''v'' sample_record] c0 = Some c
     \<and> hc_totalUpload c = 20 \<and> hc_totalRequests c = 2
     \<and> hc_totalUpload c = field_sum UploadBytes (Chart_GetAll (hc_trafficChart c)) + UploadBytes (hc_currentInterval c)"
  using http_stats_conserved [of integer_floats "[]" 0
      "[RequestOp None [] ''u'' sample_record, FlushOp 15, RequestOp None [] ''v'' sample_record]"]
  by (auto simp: Let_def sample_record_def counted_requests_def)

end
