(* ===== verification/Apply_Store.thy ===== *)
theory Apply_Store
  imports Routing_Schema
begin

text \<open>
  The two versioned stores of the configuration package: the routing apply store of
  \<^verbatim>\<open>processor/config/routing_apply_state.go\<close> and the commit coordinator of
  \<^verbatim>\<open>processor/config/runtime_commit_coordinator.go\<close>. Both promise that a failed change changes
  nothing and that a successful one raises the version by one; the promise is a locale with both
  as interpretations. \<^verbatim>\<open>encoding/json\<close> and \<^verbatim>\<open>crypto/sha256\<close> are the fields of a \<open>codec\<close>, the
  snapshot builder and the persistence callbacks are arguments, as in the code.
\<close>

section \<open>The contract of a versioned store\<close>

text \<open>
  \<open>step\<close> performs a change and says whether it succeeded; \<open>content\<close> is what readers see.
\<close>

locale versioned_store =
  fixes version :: "'s \<Rightarrow> uint64" and content :: "'s \<Rightarrow> 'c" and step :: "'o \<Rightarrow> 's \<Rightarrow> 's \<times> bool"
  assumes step_ok: "step op s = (s', True) \<Longrightarrow> version s' = version s + 1"
    and step_fail: "step op s = (s', False) \<Longrightarrow> version s' = version s \<and> content s' = content s"
begin

fun run :: "'o list \<Rightarrow> 's \<Rightarrow> 's \<times> nat" where
  "run [] s = (s, 0)"
| "run (op # ops) s =
     (case step op s of (s1, ok) \<Rightarrow>
        (case run ops s1 of (s2, n) \<Rightarrow> (s2, n + (if ok then 1 else 0))))"

lemma version_run: "run ops s = (s', n) \<Longrightarrow> version s' = version s + of_nat n"
proof (induction ops arbitrary: s n)
  case (Cons op ops)
  obtain s1 ok where st: "step op s = (s1, ok)" by fastforce
  obtain m where m: "run ops s1 = (s', m)" "n = m + (if ok then 1 else 0)"
    using Cons.prems st by (auto split: prod.splits)
  have "version s1 = version s + (if ok then 1 else 0)"
    using st step_ok step_fail by (cases ok) auto
  with Cons.IH [OF m(1)] m(2) show ?case by simp
qed simp

lemma content_run: "run ops s = (s', 0) \<Longrightarrow> content s' = content s"
proof (induction ops arbitrary: s)
  case (Cons op ops)
  obtain s1 where st: "step op s = (s1, False)" and r: "run ops s1 = (s', 0)"
    using Cons.prems by (auto split: prod.splits if_splits)
  from Cons.IH [OF r] step_fail [OF st] show ?case by simp
qed simp

end

section \<open>The routing apply store\<close>

record RoutingApplyResult =
  ar_Version :: uint64
  ar_Hash :: string

record RoutingApplyCounters =
  AttemptCount :: uint64
  SuccessCount :: uint64
  FailureCount :: uint64
  RollbackCount :: uint64
  ActiveVersionHashReads :: uint64
  ActiveSnapshotVersionHashes :: uint64

record 'a routingApplyStore =
  as_active :: "'a option"
  as_version :: uint64
  as_hash :: string
  as_canonical :: "CanonicalRoutingSchema option"
  as_attempts :: uint64
  as_successes :: uint64
  as_failures :: uint64
  as_rollbacks :: uint64
  as_versionReads :: uint64
  as_snapshotReads :: uint64

definition GetRoutingApplyStore :: "'a routingApplyStore" where
  "GetRoutingApplyStore =
     \<lparr>as_active = None, as_version = 0, as_hash = [], as_canonical = None, as_attempts = 0,
      as_successes = 0, as_failures = 0, as_rollbacks = 0, as_versionReads = 0, as_snapshotReads = 0\<rparr>"

text \<open>
  The library calls: the keys of a JSON object, strict and lax decoding of a schema, encoding,
  and the hexadecimal SHA-256 digest.
\<close>

record codec =
  decode_root :: "byte list \<Rightarrow> string list option"
  decode_strict :: "byte list \<Rightarrow> CanonicalRoutingSchema option"
  json_Marshal :: "CanonicalRoutingSchema \<Rightarrow> byte list option"
  json_Unmarshal :: "byte list \<Rightarrow> CanonicalRoutingSchema option"
  sha256_hex :: "byte list \<Rightarrow> string"

datatype apply_error =
    PayloadEmpty | BuilderRequired | ParseFailed | NonCanonical | BadSchema schema_error
  | BuildFailed | HashFailed | CloneFailed

definition parseRoutingPayload :: "codec \<Rightarrow> byte list \<Rightarrow> string list option" where
  "parseRoutingPayload cd raw = decode_root cd raw"

definition normalizeRoutingPayload ::
  "codec \<Rightarrow> string list \<Rightarrow> byte list \<Rightarrow> apply_error + CanonicalRoutingSchema" where
  "normalizeRoutingPayload cd root raw =
     (if ''ingress'' \<in> set root then
        (case normalizeCanonicalPayload (decode_strict cd raw) of
           Inl e \<Rightarrow> Inl (BadSchema e) | Inr c \<Rightarrow> Inr c)
      else Inl NonCanonical)"

definition hashCanonicalRoutingSchema :: "codec \<Rightarrow> CanonicalRoutingSchema \<Rightarrow> string option" where
  "hashCanonicalRoutingSchema cd cfg = map_option (sha256_hex cd) (json_Marshal cd cfg)"

definition cloneCanonicalRoutingSchema :: "codec \<Rightarrow> CanonicalRoutingSchema \<Rightarrow> CanonicalRoutingSchema option" where
  "cloneCanonicalRoutingSchema cd cfg =
     (case json_Marshal cd cfg of None \<Rightarrow> None | Some encoded \<Rightarrow> json_Unmarshal cd encoded)"

text \<open>Everything \<^verbatim>\<open>Apply\<close> computes before it takes the lock: the failure, or what to install.\<close>

definition apply_prepare ::
  "codec \<Rightarrow> byte list \<Rightarrow> (CanonicalRoutingSchema \<Rightarrow> 'a option) option
    \<Rightarrow> (apply_error \<times> bool) + ('a \<times> CanonicalRoutingSchema \<times> string)" where
  "apply_prepare cd raw buildSnapshot =
     (if raw = [] then Inl (PayloadEmpty, False)
      else (case buildSnapshot of None \<Rightarrow> Inl (BuilderRequired, False)
      | Some build \<Rightarrow>
     (case parseRoutingPayload cd raw of None \<Rightarrow> Inl (ParseFailed, False)
      | Some parsed \<Rightarrow>
     (case normalizeRoutingPayload cd parsed raw of Inl e \<Rightarrow> Inl (e, True)
      | Inr normalized \<Rightarrow>
     (case Schema_Validate normalized of Some e \<Rightarrow> Inl (BadSchema e, True)
      | None \<Rightarrow>
     (case build normalized of None \<Rightarrow> Inl (BuildFailed, True)
      | Some snapshot \<Rightarrow>
     (case hashCanonicalRoutingSchema cd normalized of None \<Rightarrow> Inl (HashFailed, True)
      | Some hash \<Rightarrow>
     (case cloneCanonicalRoutingSchema cd normalized of None \<Rightarrow> Inl (CloneFailed, True)
      | Some canonicalCopy \<Rightarrow> Inr (snapshot, canonicalCopy, hash)))))))))"

definition Apply ::
  "codec \<Rightarrow> byte list \<Rightarrow> (CanonicalRoutingSchema \<Rightarrow> 'a option) option \<Rightarrow> 'a routingApplyStore
    \<Rightarrow> 'a routingApplyStore \<times> (apply_error + RoutingApplyResult)" where
  "Apply cd raw buildSnapshot s0 =
     (let s = s0\<lparr>as_attempts := as_attempts s0 + 1\<rparr> in
      case apply_prepare cd raw buildSnapshot of
        Inl (e, postParse) \<Rightarrow>
          (s\<lparr>as_failures := as_failures s + 1,
             as_rollbacks := as_rollbacks s + (if postParse then 1 else 0)\<rparr>, Inl e)
      | Inr (snapshot, canonicalCopy, hash) \<Rightarrow>
          (let s' = s\<lparr>as_active := Some snapshot, as_canonical := Some canonicalCopy,
                      as_version := as_version s + 1, as_hash := hash,
                      as_successes := as_successes s + 1\<rparr> in
           (s', Inr \<lparr>ar_Version = as_version s', ar_Hash = as_hash s'\<rparr>)))"

definition ActiveVersionHash :: "'a routingApplyStore \<Rightarrow> 'a routingApplyStore \<times> uint64 \<times> string" where
  "ActiveVersionHash s =
     (let s' = s\<lparr>as_versionReads := as_versionReads s + 1\<rparr> in (s', as_version s', as_hash s'))"

definition ActiveSnapshotVersionHash ::
  "'a routingApplyStore \<Rightarrow> 'a routingApplyStore \<times> 'a option \<times> uint64 \<times> string" where
  "ActiveSnapshotVersionHash s =
     (let s' = s\<lparr>as_snapshotReads := as_snapshotReads s + 1\<rparr> in
      (s', as_active s', as_version s', as_hash s'))"

definition ApplyCounters :: "'a routingApplyStore \<Rightarrow> RoutingApplyCounters" where
  "ApplyCounters s =
     \<lparr>AttemptCount = as_attempts s, SuccessCount = as_successes s, FailureCount = as_failures s,
      RollbackCount = as_rollbacks s, ActiveVersionHashReads = as_versionReads s,
      ActiveSnapshotVersionHashes = as_snapshotReads s\<rparr>"

definition Store_ActiveSnapshot :: "'a routingApplyStore \<Rightarrow> 'a option" where
  "Store_ActiveSnapshot s = as_active s"

definition ActiveCanonicalSchema :: "codec \<Rightarrow> 'a routingApplyStore \<Rightarrow> CanonicalRoutingSchema option" where
  "ActiveCanonicalSchema cd s =
     (case as_canonical s of None \<Rightarrow> None | Some c \<Rightarrow> cloneCanonicalRoutingSchema cd c)"

section \<open>The commit coordinator\<close>

record EffectiveConfigSnapshot =
  ec_UUID :: string
  ec_Software :: string
  ec_Name :: string
  ec_FilePath :: string
  ec_Version :: string
  ec_Format :: string
  ec_Content :: string

record EffectiveConfigCommitCoordinator =
  cc_active :: "EffectiveConfigSnapshot option"
  cc_committed :: "EffectiveConfigSnapshot option"
  cc_version :: uint64

definition GetEffectiveConfigCommitCoordinator :: EffectiveConfigCommitCoordinator where
  "GetEffectiveConfigCommitCoordinator = \<lparr>cc_active = None, cc_committed = None, cc_version = 0\<rparr>"

text \<open>\<^verbatim>\<open>clone\<close> copies the struct; snapshots are values here, so the copy is the value itself.\<close>

definition clone :: "EffectiveConfigSnapshot option \<Rightarrow> EffectiveConfigSnapshot option" where
  "clone s = (case s of None \<Rightarrow> None | Some v \<Rightarrow> Some v)"

datatype commit_error =
    SnapshotRequired | FileCallbackRequired | DBCallbackRequired
  | FileStage | DBStage | DBStageRollbackFailed

text \<open>
  A callback acts on the world outside (files, database), of type \<open>'w\<close>, and says whether it
  succeeded; \<open>remove\<close> is \<^verbatim>\<open>os.Remove\<close> with a missing file counted as success.
\<close>

type_synonym 'w persist = "EffectiveConfigSnapshot \<Rightarrow> 'w \<Rightarrow> 'w \<times> bool"

definition rollbackFileToCommittedSnapshot ::
  "EffectiveConfigSnapshot option \<Rightarrow> string \<Rightarrow> 'w persist \<Rightarrow> (string \<Rightarrow> 'w \<Rightarrow> 'w \<times> bool) \<Rightarrow> 'w \<Rightarrow> 'w \<times> bool" where
  "rollbackFileToCommittedSnapshot committed failedFilePath persistFile remove w =
     (case committed of
        Some c \<Rightarrow> persistFile c w
      | None \<Rightarrow> if failedFilePath = [] then (w, True) else remove failedFilePath w)"

definition Commit ::
  "(string \<Rightarrow> 'w \<Rightarrow> 'w \<times> bool) \<Rightarrow> EffectiveConfigSnapshot option \<Rightarrow> 'w persist option \<Rightarrow> 'w persist option
    \<Rightarrow> EffectiveConfigCommitCoordinator \<Rightarrow> 'w
    \<Rightarrow> EffectiveConfigCommitCoordinator \<times> 'w \<times> (commit_error + uint64)" where
  "Commit remove next persistFile persistDB c w =
     (case next of None \<Rightarrow> (c, w, Inl SnapshotRequired)
      | Some nx \<Rightarrow>
     (case persistFile of None \<Rightarrow> (c, w, Inl FileCallbackRequired)
      | Some pf \<Rightarrow>
     (case persistDB of None \<Rightarrow> (c, w, Inl DBCallbackRequired)
      | Some pdb \<Rightarrow>
          let previousActive = clone (cc_active c);
              c1 = c\<lparr>cc_active := clone (Some nx)\<rparr> in
          (case pf nx w of
             (w1, False) \<Rightarrow> (c1\<lparr>cc_active := previousActive\<rparr>, w1, Inl FileStage)
           | (w1, True) \<Rightarrow>
               (case pdb nx w1 of
                  (w2, False) \<Rightarrow>
                    let rollbackTarget = clone (cc_committed c1);
                        c2 = c1\<lparr>cc_active := rollbackTarget\<rparr> in
                    (case rollbackFileToCommittedSnapshot rollbackTarget (ec_FilePath nx) pf remove w2 of
                       (w3, ok) \<Rightarrow> (c2, w3, Inl (if ok then DBStage else DBStageRollbackFailed)))
                | (w2, True) \<Rightarrow>
                    let c2 = c1\<lparr>cc_committed := clone (Some nx), cc_version := cc_version c1 + 1\<rparr> in
                    (c2, w2, Inr (cc_version c2)))))))"

definition ActiveSnapshot :: "EffectiveConfigCommitCoordinator \<Rightarrow> EffectiveConfigSnapshot option" where
  "ActiveSnapshot c = clone (cc_active c)"

definition LastCommittedSnapshot :: "EffectiveConfigCommitCoordinator \<Rightarrow> EffectiveConfigSnapshot option" where
  "LastCommittedSnapshot c = clone (cc_committed c)"

definition Version :: "EffectiveConfigCommitCoordinator \<Rightarrow> uint64" where
  "Version c = cc_version c"

section \<open>Both stores keep the contract\<close>

lemma clone_id [simp]: "clone s = s"
  by (simp add: clone_def split: option.splits)

definition apply_step ::
  "codec \<times> byte list \<times> (CanonicalRoutingSchema \<Rightarrow> 'a option) option \<Rightarrow> 'a routingApplyStore
    \<Rightarrow> 'a routingApplyStore \<times> bool" where
  "apply_step op s = (case op of (cd, raw, b) \<Rightarrow> (case Apply cd raw b s of (s', r) \<Rightarrow> (s', \<not> isl r)))"

interpretation apply_store: versioned_store as_version
  "\<lambda>s. (as_active s, as_canonical s, as_hash s)" apply_step
  by unfold_locales
     (auto simp: apply_step_def Apply_def Let_def split: prod.splits sum.splits if_splits)

definition commit_step ::
  "(string \<Rightarrow> 'w \<Rightarrow> 'w \<times> bool) \<times> EffectiveConfigSnapshot option \<times> 'w persist option \<times> 'w persist option
    \<Rightarrow> EffectiveConfigCommitCoordinator \<times> 'w \<Rightarrow> (EffectiveConfigCommitCoordinator \<times> 'w) \<times> bool" where
  "commit_step op s = (case op of (remove, nx, pf, pdb) \<Rightarrow>
     (case Commit remove nx pf pdb (fst s) (snd s) of (c', w', r) \<Rightarrow> ((c', w'), \<not> isl r)))"

lemmas commit_splits = option.splits prod.splits bool.splits sum.splits if_splits

interpretation commit_store: versioned_store "\<lambda>s. cc_version (fst s)" "\<lambda>s. cc_committed (fst s)" commit_step
  by unfold_locales
     (auto simp: commit_step_def Commit_def Let_def split: commit_splits)

lemma apply_prepare_Inr:
  assumes "apply_prepare cd raw buildSnapshot = Inr (snapshot, copy, hash)"
  shows "\<exists>build c b. buildSnapshot = Some build \<and> Schema_Validate c = None \<and> build c = Some snapshot \<and>
    json_Marshal cd c = Some b \<and> json_Unmarshal cd b = Some copy \<and> hash = sha256_hex cd b"
  using assms
  by (auto simp: apply_prepare_def hashCanonicalRoutingSchema_def cloneCanonicalRoutingSchema_def
      split: if_splits option.splits sum.splits)

definition apply_history ::
  "(codec \<times> byte list \<times> (CanonicalRoutingSchema \<Rightarrow> 'a option) option) list \<Rightarrow> 'a routingApplyStore
    \<Rightarrow> 'a routingApplyStore" where
  "apply_history ops s = fold (\<lambda>op s. fst (apply_step op s)) ops s"

definition store_inv :: "'a routingApplyStore \<Rightarrow> bool" where
  "store_inv s \<longleftrightarrow> as_version s = as_successes s \<and> as_attempts s = as_successes s + as_failures s \<and>
     (as_active s = None \<longleftrightarrow> as_canonical s = None) \<and> (as_active s = None \<longrightarrow> as_version s = 0 \<and> as_hash s = [])"

lemma Apply_inv: "store_inv s \<Longrightarrow> store_inv (fst (Apply cd raw b s))"
  by (auto simp: store_inv_def Apply_def Let_def algebra_simps split: sum.splits prod.splits)

lemma apply_history_inv: "store_inv s \<Longrightarrow> store_inv (apply_history ops s)"
proof (induction ops arbitrary: s)
  case (Cons op ops)
  have "store_inv (fst (apply_step op s))"
    using Apply_inv [OF Cons.prems] by (cases op) (simp add: apply_step_def case_prod_beta)
  from Cons.IH [OF this] show ?case by (simp add: apply_history_def)
qed (simp add: apply_history_def)

definition commit_history ::
  "((string \<Rightarrow> 'w \<Rightarrow> 'w \<times> bool) \<times> EffectiveConfigSnapshot option \<times> 'w persist option \<times> 'w persist option) list
    \<Rightarrow> EffectiveConfigCommitCoordinator \<times> 'w \<Rightarrow> EffectiveConfigCommitCoordinator \<times> 'w" where
  "commit_history ops s = fold (\<lambda>op s. fst (commit_step op s)) ops s"

lemma Commit_active:
  "cc_active c = cc_committed c \<Longrightarrow> Commit remove nx pf pdb c w = (c', w', r) \<Longrightarrow>
   cc_active c' = cc_committed c'"
  by (auto simp: Commit_def Let_def split: commit_splits)

lemma commit_history_active:
  "cc_active (fst s) = cc_committed (fst s) \<Longrightarrow>
   cc_active (fst (commit_history ops s)) = cc_committed (fst (commit_history ops s))"
proof (induction ops arbitrary: s)
  case (Cons op ops)
  have "cc_active (fst (fst (commit_step op s))) = cc_committed (fst (fst (commit_step op s)))"
    using Cons.prems by (cases op) (auto simp: commit_step_def dest: Commit_active split: prod.splits)
  from Cons.IH [OF this] show ?case by (simp add: commit_history_def)
qed (simp add: commit_history_def)

section \<open>Properties\<close>

text \<open>
  C7. Applying a routing payload is all or nothing. A failure counts one attempt and one failure
  and leaves the active snapshot, the canonical schema, the version and the hash as they were. A
  success installs the snapshot that the builder made from one valid schema together with that
  schema and the digest of its encoding, and raises the version by one. The only assumption is
  that decoding an encoded schema gives the schema back.
\<close>

theorem apply_all_or_nothing:
  assumes json_roundtrip: "\<And>c b. json_Marshal cd c = Some b \<Longrightarrow> json_Unmarshal cd b = Some c"
    and run: "Apply cd raw buildSnapshot s = (s', r)"
  shows "as_attempts s' = as_attempts s + 1 \<and>
    (case r of
       Inl e \<Rightarrow> as_active s' = as_active s \<and> as_canonical s' = as_canonical s \<and>
         as_version s' = as_version s \<and> as_hash s' = as_hash s \<and>
         as_failures s' = as_failures s + 1 \<and> as_successes s' = as_successes s
     | Inr res \<Rightarrow> as_version s' = as_version s + 1 \<and> as_failures s' = as_failures s \<and>
         as_successes s' = as_successes s + 1 \<and> as_rollbacks s' = as_rollbacks s \<and>
         ar_Version res = as_version s' \<and> ar_Hash res = as_hash s' \<and>
         (\<exists>build c b. buildSnapshot = Some build \<and> schema_ok c \<and> build c = as_active s' \<and>
            as_active s' \<noteq> None \<and> ActiveCanonicalSchema cd s' = Some c \<and>
            json_Marshal cd c = Some b \<and> as_hash s' = sha256_hex cd b))"
proof (cases "apply_prepare cd raw buildSnapshot")
  case (Inl ep)
  with run show ?thesis by (cases ep) (auto simp: Apply_def Let_def)
next
  case (Inr t)
  obtain snapshot copy hash where t: "t = (snapshot, copy, hash)" by (cases t)
  from apply_prepare_Inr [OF Inr [unfolded t]] obtain build c b where
    f: "buildSnapshot = Some build" "Schema_Validate c = None" "build c = Some snapshot"
       "json_Marshal cd c = Some b" "json_Unmarshal cd b = Some copy" "hash = sha256_hex cd b"
    by blast
  from f json_roundtrip [OF f(4)] have copy: "copy = c" by simp
  have s': "s' = s\<lparr>as_attempts := as_attempts s + 1, as_active := Some snapshot, as_canonical := Some c,
      as_version := as_version s + 1, as_hash := hash, as_successes := as_successes s + 1\<rparr>"
    and r: "r = Inr \<lparr>ar_Version = as_version s + 1, ar_Hash = hash\<rparr>"
    using run Inr t copy by (simp_all add: Apply_def Let_def)
  have "ActiveCanonicalSchema cd s' = Some c"
    using f copy by (simp add: s' ActiveCanonicalSchema_def cloneCanonicalRoutingSchema_def)
  moreover have "schema_ok c" using f(2) by (simp add: Schema_Validate_None)
  ultimately have "\<exists>build c b. buildSnapshot = Some build \<and> schema_ok c \<and> build c = as_active s' \<and>
            as_active s' \<noteq> None \<and> ActiveCanonicalSchema cd s' = Some c \<and>
            json_Marshal cd c = Some b \<and> as_hash s' = sha256_hex cd b"
    using f by (intro exI [of _ build] exI [of _ c] exI [of _ b]) (simp add: s')
  then show ?thesis by (simp add: r s')
qed

definition example_egress :: CanonicalEgressConfig where
  "example_egress = \<lparr>eg_Direct_Enabled = True, eg_ToAliang_Enabled = True, eg_ToSocks_Enabled = False,
     eg_ToSocks_Upstream_Type = []\<rparr>"

definition example_canonical :: CanonicalRoutingSchema where
  "example_canonical = \<lparr>cs_Version = 1, cs_Ingress_Mode = ''tun'', cs_Egress = example_egress,
     cs_Rules = [], cs_DefaultEgress = ''direct''\<rparr>"

definition example_codec :: codec where
  "example_codec = \<lparr>decode_root = (\<lambda>raw. Some [''ingress'']), decode_strict = (\<lambda>raw. Some example_canonical),
     json_Marshal = (\<lambda>c. if c = example_canonical then Some [1] else None),
     json_Unmarshal = (\<lambda>b. if b = [1] then Some example_canonical else None),
     sha256_hex = (\<lambda>b. ''ab'')\<rparr>"

theorem apply_all_or_nothing_witness:
  "as_attempts (fst (Apply example_codec [1] (Some Some) GetRoutingApplyStore)) = 1 \<and>
   as_version (fst (Apply example_codec [1] (Some Some) GetRoutingApplyStore)) = 1"
proof -
  have rt: "json_Unmarshal example_codec b = Some c" if "json_Marshal example_codec c = Some b" for c b
    using that by (auto simp: example_codec_def split: if_splits)
  have ok: "\<not> isl (snd (Apply example_codec [1] (Some Some) GetRoutingApplyStore))" by code_simp
  have zero: "as_attempts GetRoutingApplyStore = 0 \<and> as_version GetRoutingApplyStore = 0"
    by (simp add: GetRoutingApplyStore_def)
  show ?thesis
    using apply_all_or_nothing [where cd = example_codec and raw = "[1]" and buildSnapshot = "Some Some"
        and s = GetRoutingApplyStore, OF rt prod.collapse [symmetric]] ok zero
    by (auto split: sum.splits)
qed

text \<open>
  Over any history of applied payloads, starting from the empty store, the version is the
  number of successes, attempts are successes plus failures (all modulo \<open>2\<^sup>6\<^sup>4\<close>), and a snapshot
  is active exactly when a canonical schema is.
\<close>

theorem apply_history_counters:
  "let s = apply_history ops GetRoutingApplyStore in
   as_version s = SuccessCount (ApplyCounters s) \<and>
   AttemptCount (ApplyCounters s) = SuccessCount (ApplyCounters s) + FailureCount (ApplyCounters s) \<and>
   (Store_ActiveSnapshot s = None \<longleftrightarrow> as_canonical s = None)"
proof -
  have "store_inv (GetRoutingApplyStore :: 'a routingApplyStore)"
    by (simp add: store_inv_def GetRoutingApplyStore_def)
  from apply_history_inv [OF this, of ops] show ?thesis
    by (simp add: store_inv_def ApplyCounters_def Store_ActiveSnapshot_def Let_def)
qed

text \<open>
  C8. The commit coordinator: after any history of commits, with callbacks that succeed or fail
  in any order, the active snapshot is the last committed one; a failing commit changes neither
  it nor the version; a successful one makes the new snapshot both; and after a failure at the
  database stage whose file rollback succeeded, the file of the committed snapshot holds the
  committed content again, whenever a successful file write stores the content at its path.
\<close>

theorem commit_atomic:
  assumes writes: "\<forall>x w w'. pf x w = (w', True) \<longrightarrow> stored w' (ec_FilePath x) = Some (ec_Content x)"
    and hist: "commit_history ops (GetEffectiveConfigCommitCoordinator, w0) = (c, w)"
    and run: "Commit remove (Some nx) (Some pf) pdb c w = (c', w', r)"
  shows "ActiveSnapshot c = LastCommittedSnapshot c \<and> ActiveSnapshot c' = LastCommittedSnapshot c' \<and>
    (case r of
       Inl e \<Rightarrow> LastCommittedSnapshot c' = LastCommittedSnapshot c \<and> Version c' = Version c \<and>
         (e = DBStage \<longrightarrow> (\<forall>x. LastCommittedSnapshot c' = Some x \<longrightarrow>
            stored w' (ec_FilePath x) = Some (ec_Content x)))
     | Inr v \<Rightarrow> ActiveSnapshot c' = Some nx \<and> Version c' = Version c + 1 \<and> v = Version c')"
proof -
  have act: "cc_active c = cc_committed c"
    using commit_history_active [of "(GetEffectiveConfigCommitCoordinator, w0)" ops] hist
    by (simp add: GetEffectiveConfigCommitCoordinator_def)
  moreover have "cc_active c' = cc_committed c'" by (rule Commit_active [OF act run])
  moreover have "case r of
       Inl e \<Rightarrow> cc_committed c' = cc_committed c \<and> cc_version c' = cc_version c \<and>
         (e = DBStage \<longrightarrow> (\<forall>x. cc_committed c' = Some x \<longrightarrow>
            stored w' (ec_FilePath x) = Some (ec_Content x)))
     | Inr v \<Rightarrow> cc_active c' = Some nx \<and> cc_version c' = cc_version c + 1 \<and> v = cc_version c'"
    using run
    by (auto simp: Commit_def Let_def rollbackFileToCommittedSnapshot_def split: commit_splits
        dest!: writes [rule_format])
  ultimately show ?thesis
    by (auto simp: ActiveSnapshot_def LastCommittedSnapshot_def Version_def split: sum.splits)
qed

text \<open>A file system of paths and contents, with a write that always succeeds.\<close>

definition example_snapshot :: "string \<Rightarrow> string \<Rightarrow> EffectiveConfigSnapshot" where
  "example_snapshot path text = \<lparr>ec_UUID = ''u'', ec_Software = ''s'', ec_Name = ''n'', ec_FilePath = path,
     ec_Version = ''1'', ec_Format = ''json'', ec_Content = text\<rparr>"

definition write_file :: "(string \<Rightarrow> string option) persist" where
  "write_file x w = (w(ec_FilePath x := Some (ec_Content x)), True)"

definition remove_file :: "string \<Rightarrow> (string \<Rightarrow> string option) \<Rightarrow> (string \<Rightarrow> string option) \<times> bool" where
  "remove_file path w = (w(path := None), True)"

theorem commit_atomic_witness:
  "let ops = [(remove_file, Some (example_snapshot ''a'' ''old''), Some write_file, Some (\<lambda>x w. (w, True)))];
       (c, w) = commit_history ops (GetEffectiveConfigCommitCoordinator, (\<lambda>p. None));
       (c', w', r) = Commit remove_file (Some (example_snapshot ''a'' ''new'')) (Some write_file)
                       (Some (\<lambda>x w. (w, False))) c w in
   r = Inl DBStage \<and> w' ''a'' = Some ''old'' \<and> ActiveSnapshot c' = LastCommittedSnapshot c'"
proof -
  let ?ops = "[(remove_file, Some (example_snapshot ''a'' ''old''), Some write_file, Some (\<lambda>x w. (w, True)))]"
  obtain c w where h: "commit_history ?ops (GetEffectiveConfigCommitCoordinator, (\<lambda>p. None)) = (c, w)"
    by fastforce
  obtain c' w' r where run: "Commit remove_file (Some (example_snapshot ''a'' ''new'')) (Some write_file)
      (Some (\<lambda>x w. (w, False))) c w = (c', w', r)" by (metis prod_cases3)
  have com: "cc_committed c = Some (example_snapshot ''a'' ''old'')"
    using h by (auto simp: commit_history_def commit_step_def Commit_def Let_def write_file_def)
  have r: "r = Inl DBStage" "cc_committed c' = Some (example_snapshot ''a'' ''old'')"
    using run com
    by (auto simp: Commit_def Let_def write_file_def rollbackFileToCommittedSnapshot_def)
  have wf: "\<forall>x w w'. write_file x w = (w', True) \<longrightarrow> (\<lambda>w. w) w' (ec_FilePath x) = Some (ec_Content x)"
    by (auto simp: write_file_def)
  note at = commit_atomic [where stored = "\<lambda>w. w" and pf = write_file, OF wf h run]
  from at r have "w' ''a'' = Some ''old''"
    by (simp add: LastCommittedSnapshot_def example_snapshot_def)
  moreover from at have "ActiveSnapshot c' = LastCommittedSnapshot c'" by simp
  ultimately show ?thesis using h run r by simp
qed

section \<open>A file the rollback leaves behind\<close>

text \<open>
  The rollback rewrites the committed file; when the failed snapshot was stored under another
  path, the file written for it stays.
\<close>

lemma rollback_keeps_new_file:
  assumes "Commit remove_file (Some (example_snapshot q new)) (Some write_file) (Some (\<lambda>x w. (w, False))) c w
      = (c', w', r)"
    and "LastCommittedSnapshot c = Some (example_snapshot p old)" "p \<noteq> q"
  shows "r = Inl DBStage \<and> LastCommittedSnapshot c' = Some (example_snapshot p old) \<and> w' q = Some new"
  using assms
  by (auto simp: Commit_def Let_def write_file_def rollbackFileToCommittedSnapshot_def
      LastCommittedSnapshot_def example_snapshot_def)

end
