(* ===== verification/Runtime_Path.thy ===== *)
theory Runtime_Path
  imports Prelude
begin

text \<open>
  Where the program keeps its files: \<^verbatim>\<open>src/internal/runtimepath/runtimepath.go\<close> and the functions of
  \<^verbatim>\<open>src/app/http/services/config_paths.go\<close> over it, with \<^verbatim>\<open>filepath.Clean\<close>, \<^verbatim>\<open>Join\<close> and \<^verbatim>\<open>Base\<close> of Unix. The
  environment variables, the home directory the system reports and the platform are a record; Windows, whose
  path functions differ, is not one of the platforms.
\<close>

section \<open>Paths of Unix\<close>

fun clean_loop :: "bool \<Rightarrow> string list \<Rightarrow> string list \<Rightarrow> string list" where
  "clean_loop rooted stack [] = rev stack"
| "clean_loop rooted stack (x # xs) =
     (if x = [] \<or> x = ''.'' then clean_loop rooted stack xs
      else if x = ''..'' then
        (if stack \<noteq> [] \<and> hd stack \<noteq> ''..'' then clean_loop rooted (tl stack) xs
         else if rooted then clean_loop rooted stack xs
         else clean_loop rooted (''..'' # stack) xs)
      else clean_loop rooted (x # stack) xs)"

fun join_slash :: "string list \<Rightarrow> string" where
  "join_slash [] = []"
| "join_slash [x] = x"
| "join_slash (x # xs) = x @ ''/'' @ join_slash xs"

definition filepath_Clean :: "string \<Rightarrow> string" where
  "filepath_Clean p =
     (let rooted = HasPrefix p ''/''; out = (if rooted then ''/'' else []) @ join_slash (clean_loop rooted [] (Split p (CHR ''/'')))
      in if out = [] then ''.'' else out)"

definition filepath_Join :: "string list \<Rightarrow> string" where
  "filepath_Join elems =
     (let xs = filter (\<lambda>x. x \<noteq> []) elems in if xs = [] then [] else filepath_Clean (join_slash xs))"

text \<open>The last element after trailing separators are gone; only separators give one separator.\<close>

definition filepath_Base :: "string \<Rightarrow> string" where
  "filepath_Base p =
     (if p = [] then ''.''
      else let s = trim_right (\<lambda>c. c = CHR ''/'') p in if s = [] then ''/'' else last (Split s (CHR ''/'')))"

section \<open>The environment\<close>

datatype goos = Darwin | Linux | OtherUnix

record environment =
  ev_get :: "string \<Rightarrow> string"
  ev_goos :: goos
  ev_home :: "string option"

datatype Mode = ModeInteractive | ModeDaemon

definition DetectMode :: "environment \<Rightarrow> Mode" where
  "DetectMode ev =
     (if TrimSpace (ev_get ev ''ALIANG_DATA_DIR'') \<noteq> [] then ModeDaemon
      else if TrimSpace (ev_get ev ''ALIANG_SOCKET_PATH'') \<noteq> [] then ModeDaemon else ModeInteractive)"

definition CoreDataDir :: "environment \<Rightarrow> string" where
  "CoreDataDir ev =
     (let dir = TrimSpace (ev_get ev ''ALIANG_DATA_DIR'')
      in if dir \<noteq> [] then filepath_Clean dir
         else case ev_goos ev of Darwin \<Rightarrow> ''/Library/Application Support/one.aliang.aliang'' | _ \<Rightarrow> ''/var/lib/aliang'')"

definition CoreLogDir :: "environment \<Rightarrow> string" where
  "CoreLogDir ev =
     (let dir = TrimSpace (ev_get ev ''ALIANG_LOG_DIR'')
      in if dir \<noteq> [] then filepath_Clean dir
         else case ev_goos ev of Darwin \<Rightarrow> ''/Library/Logs/Aliang'' | _ \<Rightarrow> ''/var/log/aliang'')"

definition CoreSocketPath :: "environment \<Rightarrow> string" where
  "CoreSocketPath ev =
     (let path = TrimSpace (ev_get ev ''ALIANG_SOCKET_PATH'')
      in if path \<noteq> [] then path
         else case ev_goos ev of Darwin \<Rightarrow> ''/var/run/aliang-core.sock'' | Linux \<Rightarrow> ''/run/aliang-core.sock''
              | OtherUnix \<Rightarrow> ''/tmp/aliang-core.sock'')"

definition UserHomeDir :: "environment \<Rightarrow> string option" where
  "UserHomeDir ev =
     (let home = TrimSpace (ev_get ev ''HOME'')
      in if home \<noteq> [] then Some home
         else case ev_home ev of None \<Rightarrow> None
              | Some homeDir \<Rightarrow> if TrimSpace homeDir = [] then None else Some (TrimSpace homeDir))"

definition UserStateDir :: "environment \<Rightarrow> string option" where
  "UserStateDir ev = map_option (\<lambda>homeDir. filepath_Join [homeDir, ''.aliang'']) (UserHomeDir ev)"

definition UserConfigPath :: "environment \<Rightarrow> string option" where
  "UserConfigPath ev = map_option (\<lambda>stateDir. filepath_Join [stateDir, ''config.json'']) (UserStateDir ev)"

definition RuntimeConfigPath :: "environment \<Rightarrow> string" where
  "RuntimeConfigPath ev = filepath_Join [CoreDataDir ev, ''config.json'']"

definition RuntimeExecutablePath :: "environment \<Rightarrow> string" where
  "RuntimeExecutablePath ev = filepath_Join [CoreDataDir ev, ''aliang'']"

text \<open>The argument is the answer of \<^verbatim>\<open>UserHomeDir\<close>.\<close>

definition ExpandHome :: "string option \<Rightarrow> string \<Rightarrow> string option" where
  "ExpandHome homeDir path =
     (if path = [] \<or> hd path \<noteq> CHR ''~'' then Some path
      else case homeDir of None \<Rightarrow> None
      | Some home \<Rightarrow> if length path = 1 then Some home else Some (filepath_Join [home, tl path]))"

definition ResolveStateDir :: "environment \<Rightarrow> string option" where
  "ResolveStateDir ev =
     (let envDir = TrimSpace (ev_get ev ''ALIANG_CACHE_DIR'')
      in if envDir \<noteq> [] then map_option filepath_Clean (ExpandHome (UserHomeDir ev) envDir)
         else if DetectMode ev = ModeDaemon then Some (filepath_Clean (CoreDataDir ev))
         else map_option filepath_Clean (UserStateDir ev))"

definition ResolveDefaultConfigPathForMode :: "environment \<Rightarrow> Mode \<Rightarrow> string \<Rightarrow> string option" where
  "ResolveDefaultConfigPathForMode ev m logicalPath0 =
     (let logicalPath = TrimSpace logicalPath0
      in if logicalPath = [] then None
         else if m = ModeDaemon then Some (filepath_Join [CoreDataDir ev, filepath_Base logicalPath])
         else if HasPrefix logicalPath ''~'' then map_option filepath_Clean (UserConfigPath ev)
         else Some (filepath_Clean logicalPath))"

definition resolveServiceConfigPath :: "environment \<Rightarrow> string \<Rightarrow> string option" where
  "resolveServiceConfigPath ev logicalPath = ResolveDefaultConfigPathForMode ev (DetectMode ev) logicalPath"

definition resolveServiceRuntimeConfigPath :: "environment \<Rightarrow> string" where
  "resolveServiceRuntimeConfigPath ev = filepath_Clean (RuntimeConfigPath ev)"

definition resolveServiceUserConfigPath :: "environment \<Rightarrow> string option" where
  "resolveServiceUserConfigPath ev = map_option filepath_Clean (UserConfigPath ev)"

definition isDaemonRuntime :: "environment \<Rightarrow> bool" where
  "isDaemonRuntime ev \<longleftrightarrow> DetectMode ev = ModeDaemon"

section \<open>Clean paths\<close>

text \<open>Elements of a clean path: no empty ones, no dots, and going up only at the start of a relative one.\<close>

fun clean_elements :: "bool \<Rightarrow> string list \<Rightarrow> bool" where
  "clean_elements rooted [] \<longleftrightarrow> True"
| "clean_elements rooted (x # xs) \<longleftrightarrow>
     x \<noteq> [] \<and> x \<noteq> ''.'' \<and> CHR ''/'' \<notin> set x
     \<and> (if x = ''..'' then \<not> rooted \<and> clean_elements rooted xs else ''..'' \<notin> set xs \<and> clean_elements rooted xs)"

lemma Split_single: "c \<notin> set x \<Longrightarrow> Split x c = [x]"
  by (induction x) auto

lemma Split_snoc: "c \<notin> set x \<Longrightarrow> Split (x @ c # s) c = x # Split s c"
  by (induction x) (auto split: list.splits)

lemma Split_join: "xs \<noteq> [] \<Longrightarrow> \<forall>x\<in>set xs. CHR ''/'' \<notin> set x \<Longrightarrow> Split (join_slash xs) (CHR ''/'') = xs"
  by (induction xs rule: join_slash.induct) (auto simp: Split_single Split_snoc)

lemma clean_append:
  "clean_elements rooted (xs @ [x]) \<longleftrightarrow> clean_elements rooted xs \<and> x \<noteq> [] \<and> x \<noteq> ''.'' \<and> CHR ''/'' \<notin> set x
     \<and> (x = ''..'' \<longrightarrow> \<not> rooted \<and> (\<forall>y\<in>set xs. y = ''..''))"
  by (induction xs) auto

lemma clean_prefix: "clean_elements rooted (xs @ ys) \<Longrightarrow> clean_elements rooted xs"
  by (induction xs) (auto split: if_splits)

lemma all_up: "clean_elements rooted xs \<Longrightarrow> xs \<noteq> [] \<Longrightarrow> last xs = ''..'' \<Longrightarrow> y \<in> set xs \<Longrightarrow> y = ''..''"
  by (induction xs) (auto split: if_splits dest: last_in_set)

lemma clean_loop_clean:
  "clean_elements rooted (rev st) \<Longrightarrow> \<forall>x\<in>set xs. CHR ''/'' \<notin> set x \<Longrightarrow> clean_elements rooted (clean_loop rooted st xs)"
proof (induction xs arbitrary: st)
  case (Cons x xs)
  have down: "clean_elements rooted (rev (tl st))"
    using Cons.prems(1) by (cases st) (auto simp: clean_append)
  have up: "clean_elements rooted (rev (''..'' # st))" if "st = [] \<or> hd st = ''..''" "\<not> rooted"
  proof -
    have "y = ''..''" if "y \<in> set st" for y
      using all_up [OF Cons.prems(1), of y] that \<open>st = [] \<or> hd st = ''..''\<close>
      by (cases st) (simp_all add: last_rev)
    then show ?thesis using Cons.prems(1) \<open>\<not> rooted\<close> by (simp add: clean_append)
  qed
  have "clean_elements rooted (clean_loop rooted st' xs)" if "clean_elements rooted (rev st')" for st'
    using Cons.IH that Cons.prems(2) by simp
  note IH = this
  show ?case
  proof (cases "x = [] \<or> x = ''.''")
    case True
    then show ?thesis using IH [OF Cons.prems(1)] by auto
  next
    case False
    show ?thesis
    proof (cases "x = ''..''")
      case True
      then show ?thesis
        using IH [OF down] IH [OF Cons.prems(1)] IH [OF up]
        by (cases "st = [] \<or> hd st = ''..''"; cases rooted) simp_all
    next
      case no: False
      then show ?thesis using IH [of "x # st"] False Cons.prems by (simp add: clean_append)
    qed
  qed
qed simp

lemma clean_loop_stays: "clean_elements rooted (rev st @ xs) \<Longrightarrow> clean_loop rooted st xs = rev st @ xs"
proof (induction xs arbitrary: st)
  case (Cons x xs)
  have "clean_elements rooted ((rev st @ [x]) @ xs)" using Cons.prems by simp
  then have c: "clean_elements rooted (rev (x # st) @ xs)" and x: "clean_elements rooted (rev st @ [x])"
    using clean_prefix by (simp, blast)
  then show ?case using Cons.IH [of "x # st"] by (auto simp: clean_append dest!: bspec)
qed simp

text \<open>A path that was cleaned is the root, the current directory, or clean elements after an optional root.\<close>

definition clean_form :: "bool \<Rightarrow> string list \<Rightarrow> string" where
  "clean_form rooted xs = (if rooted then ''/'' @ join_slash xs else if xs = [] then ''.'' else join_slash xs)"

lemma join_slash_Nil: "join_slash xs = [] \<longleftrightarrow> xs = [] \<or> xs = [[]]"
  by (induction xs rule: join_slash.induct) auto

lemma Clean_form: "\<exists>rooted xs. filepath_Clean p = clean_form rooted xs \<and> clean_elements rooted xs"
proof -
  let ?r = "HasPrefix p ''/''" and ?xs = "clean_loop (HasPrefix p ''/'') [] (Split p (CHR ''/''))"
  have "clean_elements ?r ?xs" by (rule clean_loop_clean) (auto dest: Split_no_sep)
  moreover from this have "filepath_Clean p = clean_form ?r ?xs"
    by (cases ?r) (auto simp: filepath_Clean_def clean_form_def Let_def join_slash_Nil)
  ultimately show ?thesis by blast
qed

lemma clean_slashes: "clean_elements rooted xs \<Longrightarrow> x \<in> set xs \<Longrightarrow> CHR ''/'' \<notin> set x \<and> x \<noteq> []"
  by (induction xs) (auto split: if_splits)

lemma HasPrefix_slash: "HasPrefix p ''/'' \<longleftrightarrow> p \<noteq> [] \<and> hd p = CHR ''/''"
  by (cases p) (auto simp: HasPrefix_def)

lemma Clean_of_form: "clean_elements rooted xs \<Longrightarrow> filepath_Clean (clean_form rooted xs) = clean_form rooted xs"
proof (cases "xs = []")
  case True
  then show ?thesis by (cases rooted) (simp_all add: clean_form_def filepath_Clean_def HasPrefix_slash)
next
  case False
  assume c: "clean_elements rooted xs"
  have split: "Split (join_slash xs) (CHR ''/'') = xs" using Split_join False clean_slashes [OF c] by blast
  have "CHR ''/'' \<notin> set (hd xs)" "hd xs \<noteq> []" using False clean_slashes [OF c, of "hd xs"] by auto
  then have hd: "join_slash xs \<noteq> []" "hd (join_slash xs) \<noteq> CHR ''/''"
    using False by (cases xs rule: join_slash.cases; cases "hd xs"; auto)+
  have "clean_loop rooted [] xs = xs" using clean_loop_stays [of rooted "[]"] c by simp
  then show ?thesis
    using False split hd by (cases rooted) (simp_all add: clean_form_def filepath_Clean_def HasPrefix_slash Let_def)
qed

lemma Clean_idem [simp]: "filepath_Clean (filepath_Clean p) = filepath_Clean p"
  using Clean_form [of p] Clean_of_form by metis

lemma Join_clean: "filter (\<lambda>x. x \<noteq> []) xs \<noteq> [] \<Longrightarrow> filepath_Clean (filepath_Join xs) = filepath_Join xs"
  by (simp add: filepath_Join_def)

text \<open>Whatever the environment holds, the directories and files the program uses have clean paths.\<close>

lemma resolved_paths_clean:
  "ResolveStateDir ev = Some d \<Longrightarrow> filepath_Clean d = d"
  "resolveServiceConfigPath ev p = Some r \<Longrightarrow> filepath_Clean r = r"
proof -
  show "ResolveStateDir ev = Some d \<Longrightarrow> filepath_Clean d = d"
    by (auto simp: ResolveStateDir_def Let_def split: if_splits)
  have "CoreDataDir ev \<noteq> []" by (simp add: CoreDataDir_def filepath_Clean_def Let_def split: goos.splits)
  then show "resolveServiceConfigPath ev p = Some r \<Longrightarrow> filepath_Clean r = r"
    by (auto simp: resolveServiceConfigPath_def ResolveDefaultConfigPathForMode_def Let_def Join_clean split: if_splits)
qed

text \<open>A home directory named by its tilde always means the user's configuration file, whatever follows the tilde.\<close>

lemma tilde_is_user_config:
  assumes "DetectMode ev = ModeInteractive" "HasPrefix (TrimSpace p) ''~''"
  shows "resolveServiceConfigPath ev p = resolveServiceUserConfigPath ev"
proof -
  have "TrimSpace p \<noteq> []" using assms(2) by (auto simp: HasPrefix_def)
  then show ?thesis
    using assms by (simp add: resolveServiceConfigPath_def ResolveDefaultConfigPathForMode_def resolveServiceUserConfigPath_def)
qed

end
