(* ===== verification/Config_Store.thy ===== *)
theory Config_Store
  imports Apply_Store Runtime_Path "HOL-Library.AList"
begin

text \<open>
  The configurations of other software that the client keeps: the store
  \<^verbatim>\<open>src/app/http/storage/software_config_store.go\<close>, the service
  \<^verbatim>\<open>src/app/http/services/software_config_service.go\<close> over it. Activating a configuration goes
  through the commit coordinator of \<open>Apply_Store\<close>, with a file write and a database update as its
  callbacks; paths are those of \<open>Runtime_Path\<close>. The free text of log entries is left out.

  A table is the list of its rows. A transaction takes effect as a whole or not at all. How the
  database library stamps a row it updates is an argument, as are the decoders, the clock, the fresh
  identifiers, the answers of the cloud and whether each access succeeds.
\<close>

section \<open>Data\<close>

record SoftwareConfig =
  sc_UUID :: string
  sc_Software :: string
  sc_Name :: string
  sc_FilePath :: string
  sc_Version :: string
  sc_InUse :: bool
  sc_Selected :: bool
  sc_Format :: string
  sc_Content :: string
  sc_CreatedAt :: time
  sc_UpdatedAt :: time

record SoftwareConfigOperationLog =
  ol_Action :: string
  ol_Software :: string
  ol_ConfigUUID :: string
  ol_ConfigName :: string

record SoftwareEffectiveConfigSnapshot =
  es_Software :: string
  es_ConfigUUID :: string
  es_ConfigName :: string
  es_ConfigFilePath :: string
  es_ConfigVersion :: string
  es_ConfigFormat :: string
  es_SnapshotJSON :: string

text \<open>The two requests have the same fields but for the flags, which an activation ignores.\<close>

record SaveSoftwareConfigRequest =
  sq_UUID :: string
  sq_Software :: string
  sq_Name :: string
  sq_FilePath :: string
  sq_Version :: string
  sq_InUse :: bool
  sq_Selected :: bool
  sq_Format :: string
  sq_Content :: string
  sq_CreatedAt :: string
  sq_UpdatedAt :: string

record ConfigFreshnessItem =
  fi_UUID :: string
  fi_Software :: string
  fi_Name :: string
  fi_LocalUpdatedAt :: "time option"
  fi_CloudUpdatedAt :: "time option"
  fi_Status :: string

record CloudPullResponse =
  PulledCount :: nat
  InsertedCount :: nat
  UpdatedFromCloud :: nat
  KeptLocalNewerCnt :: nat

datatype json_value = JString string | JObject "(string \<times> json_value) list" | JOther string

text \<open>The database, the files, and the batches that were sent to the cloud.\<close>

record config_world =
  cw_rows :: "SoftwareConfig list"
  cw_snapshots :: "SoftwareEffectiveConfigSnapshot list"
  cw_logs :: "SoftwareConfigOperationLog list"
  cw_files :: "string \<Rightarrow> string option"
  cw_posted :: "SoftwareConfig list list"

type_synonym config_state = "EffectiveConfigCommitCoordinator \<times> config_world"

text \<open>
  The outside in one call. \<open>cl_stamp\<close> is what the database library does to the time fields of a row
  it updates; \<open>cl_broken\<close> is what a failed write leaves in the file.
\<close>

record config_call =
  cl_now :: time
  cl_uuid :: "nat \<Rightarrow> string"
  cl_home :: "string option"
  cl_parseTime :: "string \<Rightarrow> time option"
  cl_jsonValid :: "string \<Rightarrow> bool"
  cl_yamlValid :: "string \<Rightarrow> bool"
  cl_jsonMap :: "string \<Rightarrow> (string \<times> json_value) list option"
  cl_yamlMap :: "string \<Rightarrow> (string \<times> json_value) list option"
  cl_global :: "(string \<times> json_value) list option"
  cl_marshal :: "(string \<times> json_value) list \<Rightarrow> string option"
  cl_timeText :: "time \<Rightarrow> string"
  cl_stamp :: "SoftwareConfig \<Rightarrow> SoftwareConfig"
  cl_readOk :: bool
  cl_writeOk :: bool
  cl_snapshotOk :: bool
  cl_logOk :: bool
  cl_fileOk :: "string \<Rightarrow> string \<Rightarrow> bool"
  cl_broken :: "string option"
  cl_removeOk :: bool
  cl_http :: "nat option"
  cl_batch :: "SoftwareConfig list option"

datatype config_error =
    NameRequired | SoftwareRequired | FilePathRequired | BadFormat | ContentRequired | InvalidContent
  | BadTime | NoHome | DatabaseError | CommitFailed commit_error | URLRequired | CloudFailed
  | UUIDRequired | NotFound | ActionRequired

section \<open>The store\<close>

definition db_find :: "string \<Rightarrow> SoftwareConfig list \<Rightarrow> SoftwareConfig option" where
  "db_find uuid rows = find (\<lambda>r. sc_UUID r = uuid) rows"

text \<open>Updating the rows that satisfy a condition stamps each of them.\<close>

definition db_update :: "config_call \<Rightarrow> (SoftwareConfig \<Rightarrow> bool) \<Rightarrow> (SoftwareConfig \<Rightarrow> SoftwareConfig)
    \<Rightarrow> SoftwareConfig list \<Rightarrow> SoftwareConfig list" where
  "db_update C P f rows = map (\<lambda>r. if P r then cl_stamp C (f r) else r) rows"

text \<open>\<^verbatim>\<open>Save\<close> updates the row with the primary key, or inserts the row as it is.\<close>

definition db_save :: "config_call \<Rightarrow> SoftwareConfig \<Rightarrow> SoftwareConfig list \<Rightarrow> SoftwareConfig list" where
  "db_save C c rows =
     (case db_find (sc_UUID c) rows of
        Some _ \<Rightarrow> db_update C (\<lambda>r. sc_UUID r = sc_UUID c) (\<lambda>_. c) rows
      | None \<Rightarrow> rows @ [c])"

definition clear_in_use :: "config_call \<Rightarrow> string \<Rightarrow> SoftwareConfig list \<Rightarrow> SoftwareConfig list" where
  "clear_in_use C software rows =
     db_update C (\<lambda>r. sc_Software r = software \<and> sc_InUse r) (\<lambda>r. r\<lparr>sc_InUse := False\<rparr>) rows"

definition newest_first :: "SoftwareConfig list \<Rightarrow> SoftwareConfig list" where
  "newest_first rows = sort_key (\<lambda>r. - sc_UpdatedAt r) rows"

definition Store_Upsert :: "config_call \<Rightarrow> SoftwareConfig \<Rightarrow> config_world \<Rightarrow> config_world \<times> bool" where
  "Store_Upsert C c w = (if cl_writeOk C then (w\<lparr>cw_rows := db_save C c (cw_rows w)\<rparr>, True) else (w, False))"

definition Store_Activate :: "config_call \<Rightarrow> SoftwareConfig \<Rightarrow> config_world \<Rightarrow> config_world \<times> bool" where
  "Store_Activate C c w =
     (if sc_Software c = [] \<or> \<not> cl_writeOk C then (w, False)
      else (w\<lparr>cw_rows := db_save C (c\<lparr>sc_InUse := True\<rparr>) (clear_in_use C (sc_Software c) (cw_rows w))\<rparr>, True))"

definition Store_List :: "config_call \<Rightarrow> config_world \<Rightarrow> SoftwareConfig list option" where
  "Store_List C w = (if cl_readOk C then Some (newest_first (cw_rows w)) else None)"

definition Store_ListBySoftware :: "config_call \<Rightarrow> string \<Rightarrow> config_world \<Rightarrow> SoftwareConfig list option" where
  "Store_ListBySoftware C software w =
     (if cl_readOk C then Some (newest_first (filter (\<lambda>r. sc_Software r = software) (cw_rows w))) else None)"

definition ListSelectedBySoftware :: "config_call \<Rightarrow> string \<Rightarrow> config_world \<Rightarrow> SoftwareConfig list option" where
  "ListSelectedBySoftware C software w =
     (if cl_readOk C
      then Some (newest_first (filter (\<lambda>r. sc_Selected r \<and> (software = [] \<or> sc_Software r = software)) (cw_rows w)))
      else None)"

definition ListByUUIDs :: "config_call \<Rightarrow> string list \<Rightarrow> config_world \<Rightarrow> SoftwareConfig list option" where
  "ListByUUIDs C ids w =
     (if ids = [] then Some []
      else if cl_readOk C then Some (newest_first (filter (\<lambda>r. sc_UUID r \<in> set ids) (cw_rows w))) else None)"

definition FindByUUID :: "config_call \<Rightarrow> string \<Rightarrow> config_world \<Rightarrow> SoftwareConfig option option" where
  "FindByUUID C uuid w = (if cl_readOk C then Some (db_find uuid (cw_rows w)) else None)"

definition DeleteByUUID :: "config_call \<Rightarrow> string \<Rightarrow> config_world \<Rightarrow> config_world \<times> bool" where
  "DeleteByUUID C uuid w =
     (if cl_writeOk C then (w\<lparr>cw_rows := filter (\<lambda>r. sc_UUID r \<noteq> uuid) (cw_rows w)\<rparr>, True) else (w, False))"

definition Store_SetSelected :: "config_call \<Rightarrow> string \<Rightarrow> bool \<Rightarrow> config_world \<Rightarrow> config_world \<times> bool" where
  "Store_SetSelected C uuid selected w =
     (if cl_writeOk C
      then (w\<lparr>cw_rows := db_update C (\<lambda>r. sc_UUID r = uuid) (\<lambda>r. r\<lparr>sc_Selected := selected\<rparr>) (cw_rows w)\<rparr>, True)
      else (w, False))"

definition SaveOperationLog :: "config_call \<Rightarrow> SoftwareConfigOperationLog \<Rightarrow> config_world \<Rightarrow> config_world \<times> bool" where
  "SaveOperationLog C log w = (if cl_logOk C then (w\<lparr>cw_logs := cw_logs w @ [log]\<rparr>, True) else (w, False))"

definition SaveEffectiveConfigSnapshot ::
    "config_call \<Rightarrow> SoftwareEffectiveConfigSnapshot \<Rightarrow> config_world \<Rightarrow> config_world \<times> bool" where
  "SaveEffectiveConfigSnapshot C s w =
     (if cl_snapshotOk C then (w\<lparr>cw_snapshots := cw_snapshots w @ [s]\<rparr>, True) else (w, False))"

text \<open>Rows are numbered and stamped as they are created, so the newest one is the last.\<close>

definition GetLatestEffectiveConfigSnapshot ::
    "config_call \<Rightarrow> config_world \<Rightarrow> SoftwareEffectiveConfigSnapshot option option" where
  "GetLatestEffectiveConfigSnapshot C w =
     (if cl_readOk C then Some (if cw_snapshots w = [] then None else Some (last (cw_snapshots w))) else None)"

definition GetLatestEffectiveConfigSnapshotBySoftwareAndName ::
    "config_call \<Rightarrow> string \<Rightarrow> string \<Rightarrow> config_world \<Rightarrow> SoftwareEffectiveConfigSnapshot option option" where
  "GetLatestEffectiveConfigSnapshotBySoftwareAndName C software configName w =
     (if cl_readOk C then
        Some (find (\<lambda>s. es_Software s = software \<and> es_ConfigName s = configName) (rev (cw_snapshots w)))
      else None)"

fun merge_loop :: "config_call \<Rightarrow> SoftwareConfig list \<Rightarrow> SoftwareConfig list \<times> nat \<times> nat \<times> nat
    \<Rightarrow> SoftwareConfig list \<times> nat \<times> nat \<times> nat" where
  "merge_loop C [] acc = acc"
| "merge_loop C (remoteCfg # incoming) (rows, inserted, updated, kept) =
     (let cleared = (if sc_InUse remoteCfg then clear_in_use C (sc_Software remoteCfg) rows else rows) in
      case db_find (sc_UUID remoteCfg) rows of
        None \<Rightarrow> merge_loop C incoming (cleared @ [remoteCfg], inserted + 1, updated, kept)
      | Some localCfg \<Rightarrow>
          if sc_UpdatedAt localCfg < sc_UpdatedAt remoteCfg
          then merge_loop C incoming (db_save C remoteCfg cleared, inserted, updated + 1, kept)
          else merge_loop C incoming (rows, inserted, updated, kept + 1))"

definition MergeByLatest ::
    "config_call \<Rightarrow> SoftwareConfig list \<Rightarrow> config_world \<Rightarrow> config_world \<times> (nat \<times> nat \<times> nat) option" where
  "MergeByLatest C incoming w =
     (if cl_readOk C \<and> cl_writeOk C
      then (case merge_loop C incoming (cw_rows w, 0, 0, 0) of (rows, counts) \<Rightarrow> (w\<lparr>cw_rows := rows\<rparr>, Some counts))
      else (w, None))"

section \<open>The service\<close>

definition validateFormat :: "string \<Rightarrow> string option" where
  "validateFormat raw =
     (let format = lower_trim raw; format = (if format = ''yml'' then ''yaml'' else format)
      in if format \<noteq> ''json'' \<and> format \<noteq> ''yaml'' then None else Some format)"

definition validateContentByFormat :: "config_call \<Rightarrow> string \<Rightarrow> string \<Rightarrow> config_error option" where
  "validateContentByFormat C format content =
     (if TrimSpace content = [] then Some ContentRequired
      else if format = ''json'' \<and> \<not> cl_jsonValid C content then Some InvalidContent
      else if format = ''yaml'' \<and> \<not> cl_yamlValid C content then Some InvalidContent
      else None)"

definition parseTimeOrError :: "config_call \<Rightarrow> string \<Rightarrow> time option" where
  "parseTimeOrError C raw = (if TrimSpace raw = [] then Some 0 else cl_parseTime C (TrimSpace raw))"

text \<open>
  \<^verbatim>\<open>normalizeSaveRequest\<close> and \<^verbatim>\<open>normalizeActivateRequest\<close> differ in the two flags of the result only.
\<close>

definition normalize_request ::
    "config_call \<Rightarrow> bool \<Rightarrow> bool \<Rightarrow> SaveSoftwareConfigRequest \<Rightarrow> config_world \<Rightarrow> config_error + SoftwareConfig" where
  "normalize_request C inUse selected req w =
     (if TrimSpace (sq_Name req) = [] then Inl NameRequired
      else if TrimSpace (sq_Software req) = [] then Inl SoftwareRequired
      else if TrimSpace (sq_FilePath req) = [] then Inl FilePathRequired
      else case validateFormat (sq_Format req) of None \<Rightarrow> Inl BadFormat
      | Some format \<Rightarrow>
      (case validateContentByFormat C format (sq_Content req) of Some e \<Rightarrow> Inl e
      | None \<Rightarrow>
      (case parseTimeOrError C (sq_CreatedAt req) of None \<Rightarrow> Inl BadTime
      | Some created0 \<Rightarrow>
      (case parseTimeOrError C (sq_UpdatedAt req) of None \<Rightarrow> Inl BadTime
      | Some updated0 \<Rightarrow>
      let uuid = (if TrimSpace (sq_UUID req) = [] then cl_uuid C 0 else TrimSpace (sq_UUID req)) in
      (case ExpandHome (cl_home C) (TrimSpace (sq_FilePath req)) of None \<Rightarrow> Inl NoHome
      | Some path \<Rightarrow>
      let createdAt = (if created0 = 0 then cl_now C else created0);
          updatedAt = (if updated0 = 0 then cl_now C else updated0);
          result = (\<lambda>created. \<lparr>sc_UUID = uuid, sc_Software = TrimSpace (sq_Software req), sc_Name = TrimSpace (sq_Name req),
                     sc_FilePath = path, sc_Version = TrimSpace (sq_Version req), sc_InUse = inUse, sc_Selected = selected,
                     sc_Format = format, sc_Content = sq_Content req, sc_CreatedAt = created, sc_UpdatedAt = updatedAt\<rparr>)
      in if TrimSpace (sq_UUID req) = [] then Inr (result createdAt)
         else (case FindByUUID C uuid w of None \<Rightarrow> Inl DatabaseError
         | Some found \<Rightarrow>
             (case found of
                Some existing \<Rightarrow> Inr (result (if TrimSpace (sq_CreatedAt req) = [] then sc_CreatedAt existing else createdAt))
              | None \<Rightarrow> Inr (result createdAt))))))))"

definition normalizeSaveRequest ::
    "config_call \<Rightarrow> SaveSoftwareConfigRequest \<Rightarrow> config_world \<Rightarrow> config_error + SoftwareConfig" where
  "normalizeSaveRequest C req w = normalize_request C (sq_InUse req) (sq_Selected req) req w"

definition normalizeActivateRequest ::
    "config_call \<Rightarrow> SaveSoftwareConfigRequest \<Rightarrow> config_world \<Rightarrow> config_error + SoftwareConfig" where
  "normalizeActivateRequest C req w = normalize_request C True False req w"

definition config_log :: "string \<Rightarrow> SoftwareConfig \<Rightarrow> SoftwareConfigOperationLog" where
  "config_log action c = \<lparr>ol_Action = action, ol_Software = sc_Software c, ol_ConfigUUID = sc_UUID c, ol_ConfigName = sc_Name c\<rparr>"

definition cloud_log :: "string \<Rightarrow> SoftwareConfigOperationLog" where
  "cloud_log action = \<lparr>ol_Action = action, ol_Software = ''*'', ol_ConfigUUID = [], ol_ConfigName = []\<rparr>"

definition Config_Save ::
    "config_call \<Rightarrow> SaveSoftwareConfigRequest \<Rightarrow> config_state \<Rightarrow> config_state \<times> (config_error + SoftwareConfig)" where
  "Config_Save C req s =
     (case s of (c, w) \<Rightarrow>
       (case normalizeSaveRequest C req w of Inl e \<Rightarrow> (s, Inl e)
        | Inr cfg \<Rightarrow>
            (case Store_Upsert C cfg w of
               (w1, False) \<Rightarrow> ((c, w1), Inl DatabaseError)
             | (w1, True) \<Rightarrow> ((c, fst (SaveOperationLog C (config_log ''save'' cfg) w1)), Inr cfg))))"

definition writeConfigFile :: "config_call \<Rightarrow> string \<Rightarrow> string \<Rightarrow> config_world \<Rightarrow> config_world \<times> bool" where
  "writeConfigFile C path content w =
     (if path = [] then (w, False)
      else if cl_fileOk C path content then (w\<lparr>cw_files := (cw_files w)(path \<mapsto> content)\<rparr>, True)
      else (w\<lparr>cw_files := (cw_files w)(path := cl_broken C)\<rparr>, False))"

definition remove_config_file :: "config_call \<Rightarrow> string \<Rightarrow> config_world \<Rightarrow> config_world \<times> bool" where
  "remove_config_file C path w =
     (if cl_removeOk C then (w\<lparr>cw_files := (cw_files w)(path := None)\<rparr>, True) else (w, False))"

definition parseConfigContentToMap :: "config_call \<Rightarrow> string \<Rightarrow> string \<Rightarrow> (string \<times> json_value) list option" where
  "parseConfigContentToMap C format content =
     (let trimmedFormat = lower_trim format; trimmedFormat = (if trimmedFormat = ''yml'' then ''yaml'' else trimmedFormat)
      in if trimmedFormat = ''json'' then cl_jsonMap C content
         else if trimmedFormat = ''yaml'' then cl_yamlMap C content else None)"

definition snapshot_meta :: "config_call \<Rightarrow> EffectiveConfigSnapshot \<Rightarrow> json_value" where
  "snapshot_meta C x = JObject [(''config_uuid'', JString (ec_UUID x)), (''software'', JString (ec_Software x)),
     (''config_name'', JString (ec_Name x)), (''config_file_path'', JString (ec_FilePath x)),
     (''config_version'', JString (ec_Version x)), (''config_format'', JString (ec_Format x)),
     (''committed_at'', JString (cl_timeText C (cl_now C)))]"

definition buildEffectiveSnapshotJSON :: "config_call \<Rightarrow> EffectiveConfigSnapshot \<Rightarrow> string option" where
  "buildEffectiveSnapshotJSON C x =
     (case cl_global C of None \<Rightarrow> None
      | Some merged \<Rightarrow>
          (case parseConfigContentToMap C (ec_Format x) (ec_Content x) of None \<Rightarrow> None
           | Some contentMap \<Rightarrow>
               cl_marshal C (AList.update ''effective_snapshot_meta'' (snapshot_meta C x)
                 (fold (\<lambda>(k, v). AList.update k v) contentMap merged))))"

definition activate_db :: "config_call \<Rightarrow> SoftwareConfig \<Rightarrow> config_world persist" where
  "activate_db C cfg x w =
     (case Store_Activate C \<lparr>sc_UUID = ec_UUID x, sc_Software = ec_Software x, sc_Name = ec_Name x,
             sc_FilePath = ec_FilePath x, sc_Version = ec_Version x, sc_InUse = True, sc_Selected = False,
             sc_Format = ec_Format x, sc_Content = ec_Content x, sc_CreatedAt = sc_CreatedAt cfg,
             sc_UpdatedAt = sc_UpdatedAt cfg\<rparr> w of
        (w1, False) \<Rightarrow> (w1, False)
      | (w1, True) \<Rightarrow>
          (case buildEffectiveSnapshotJSON C x of None \<Rightarrow> (w1, False)
           | Some json \<Rightarrow>
               SaveEffectiveConfigSnapshot C \<lparr>es_Software = ec_Software x, es_ConfigUUID = ec_UUID x,
                 es_ConfigName = ec_Name x, es_ConfigFilePath = ec_FilePath x, es_ConfigVersion = ec_Version x,
                 es_ConfigFormat = ec_Format x, es_SnapshotJSON = json\<rparr> w1))"

definition snapshot_of :: "SoftwareConfig \<Rightarrow> EffectiveConfigSnapshot" where
  "snapshot_of cfg = \<lparr>ec_UUID = sc_UUID cfg, ec_Software = sc_Software cfg, ec_Name = sc_Name cfg,
     ec_FilePath = sc_FilePath cfg, ec_Version = sc_Version cfg, ec_Format = sc_Format cfg, ec_Content = sc_Content cfg\<rparr>"

definition Config_Activate ::
    "config_call \<Rightarrow> SaveSoftwareConfigRequest \<Rightarrow> config_state \<Rightarrow> config_state \<times> (config_error + SoftwareConfig)" where
  "Config_Activate C req s =
     (case s of (c, w) \<Rightarrow>
       (if TrimSpace (sq_FilePath req) = [] then (s, Inl FilePathRequired)
        else case normalizeActivateRequest C req w of Inl e \<Rightarrow> (s, Inl e)
        | Inr cfg \<Rightarrow>
            (case Commit (remove_config_file C) (Some (snapshot_of cfg))
                (Some (\<lambda>x. writeConfigFile C (ec_FilePath x) (ec_Content x))) (Some (activate_db C cfg)) c w of
               (c1, w1, Inl e) \<Rightarrow> ((c1, w1), Inl (CommitFailed e))
             | (c1, w1, Inr _) \<Rightarrow> ((c1, fst (SaveOperationLog C (config_log ''activate'' cfg) w1)), Inr cfg))))"

definition Config_ListBySoftware :: "config_call \<Rightarrow> string \<Rightarrow> config_state \<Rightarrow> SoftwareConfig list option" where
  "Config_ListBySoftware C software s =
     (let software = TrimSpace software
      in if software = [] then Store_List C (snd s) else Store_ListBySoftware C software (snd s))"

definition selectPushCandidates :: "config_call \<Rightarrow> string list \<Rightarrow> bool \<Rightarrow> config_world \<Rightarrow> SoftwareConfig list option" where
  "selectPushCandidates C uuids onlySelected w =
     (let trimmedIDs = filter (\<lambda>i. i \<noteq> []) (map TrimSpace uuids)
      in if trimmedIDs \<noteq> [] then ListByUUIDs C trimmedIDs w
         else if onlySelected then ListSelectedBySoftware C [] w
         else Store_List C w)"

text \<open>The status the cloud answers with; \<^const>\<open>None\<close> when there is no answer.\<close>

definition cloud_ok :: "config_call \<Rightarrow> bool" where
  "cloud_ok C = (case cl_http C of None \<Rightarrow> False | Some status \<Rightarrow> 200 \<le> status \<and> status < 300)"

definition PushToCloud ::
    "config_call \<Rightarrow> string \<Rightarrow> string list \<Rightarrow> bool \<Rightarrow> config_state \<Rightarrow> config_state \<times> (config_error + nat)" where
  "PushToCloud C url uuids onlySelected s =
     (case s of (c, w) \<Rightarrow>
       (if TrimSpace url = [] then (s, Inl URLRequired)
        else case selectPushCandidates C uuids onlySelected w of None \<Rightarrow> (s, Inl DatabaseError)
        | Some configs \<Rightarrow>
            if configs = [] then (s, Inr 0)
            else
              let w1 = (if cl_http C = None then w else w\<lparr>cw_posted := cw_posted w @ [configs]\<rparr>) in
              if \<not> cloud_ok C then ((c, w1), Inl CloudFailed)
              else ((c, fst (SaveOperationLog C (cloud_log ''cloud_push'') w1)), Inr (length configs))))"

fun complete_batch :: "config_call \<Rightarrow> nat \<Rightarrow> SoftwareConfig list \<Rightarrow> SoftwareConfig list" where
  "complete_batch C i [] = []"
| "complete_batch C i (x # xs) =
     (let x1 = (if TrimSpace (sc_UUID x) = [] then x\<lparr>sc_UUID := cl_uuid C i\<rparr> else x);
          x2 = (if sc_CreatedAt x1 = 0 then x1\<lparr>sc_CreatedAt := cl_now C\<rparr> else x1);
          x3 = (if sc_UpdatedAt x2 = 0 then x2\<lparr>sc_UpdatedAt := cl_now C\<rparr> else x2)
      in x3 # complete_batch C (Suc i) xs)"

definition fetchCloudBatch :: "config_call \<Rightarrow> SoftwareConfig list option" where
  "fetchCloudBatch C =
     (if \<not> cloud_ok C then None
      else case cl_batch C of None \<Rightarrow> None | Some batch \<Rightarrow> Some (complete_batch C 0 batch))"

definition PullFromCloud :: "config_call \<Rightarrow> string \<Rightarrow> config_state \<Rightarrow> config_state \<times> (config_error + CloudPullResponse)" where
  "PullFromCloud C url s =
     (case s of (c, w) \<Rightarrow>
       (if TrimSpace url = [] then (s, Inl URLRequired)
        else if \<not> cloud_ok C then (s, Inl CloudFailed)
        else case cl_batch C of None \<Rightarrow> (s, Inl CloudFailed)
        | Some batch \<Rightarrow>
            let configs = complete_batch C 0 batch in
            (case MergeByLatest C configs w of
               (w1, None) \<Rightarrow> ((c, w1), Inl DatabaseError)
             | (w1, Some (inserted, updated, kept)) \<Rightarrow>
                 ((c, fst (SaveOperationLog C (cloud_log ''cloud_pull'') w1)),
                  Inr \<lparr>PulledCount = length configs, InsertedCount = inserted, UpdatedFromCloud = updated,
                       KeptLocalNewerCnt = kept\<rparr>))))"

definition Config_Delete :: "config_call \<Rightarrow> string \<Rightarrow> config_state \<Rightarrow> config_state \<times> config_error option" where
  "Config_Delete C uuid s =
     (case s of (c, w) \<Rightarrow>
       (let i = TrimSpace uuid in
        if i = [] then (s, Some UUIDRequired)
        else case FindByUUID C i w of None \<Rightarrow> (s, Some DatabaseError)
        | Some None \<Rightarrow> (s, Some NotFound)
        | Some (Some cfg) \<Rightarrow>
            (case DeleteByUUID C i w of
               (w1, False) \<Rightarrow> ((c, w1), Some DatabaseError)
             | (w1, True) \<Rightarrow> ((c, fst (SaveOperationLog C (config_log ''delete'' cfg) w1)), None))))"

definition Config_SetSelected :: "config_call \<Rightarrow> string \<Rightarrow> bool \<Rightarrow> config_state \<Rightarrow> config_state \<times> config_error option" where
  "Config_SetSelected C uuid selected s =
     (case s of (c, w) \<Rightarrow>
       (let i = TrimSpace uuid in
        if i = [] then (s, Some UUIDRequired)
        else case FindByUUID C i w of None \<Rightarrow> (s, Some DatabaseError)
        | Some None \<Rightarrow> (s, Some NotFound)
        | Some (Some cfg) \<Rightarrow>
            (case Store_SetSelected C i selected w of
               (w1, False) \<Rightarrow> ((c, w1), Some DatabaseError)
             | (w1, True) \<Rightarrow> ((c, fst (SaveOperationLog C (config_log ''select'' cfg) w1)), None))))"

definition LogOperation :: "config_call \<Rightarrow> SoftwareConfigOperationLog \<Rightarrow> config_state \<Rightarrow> config_state \<times> config_error option" where
  "LogOperation C req s =
     (case s of (c, w) \<Rightarrow>
       (if TrimSpace (ol_Action req) = [] then (s, Some ActionRequired)
        else case SaveOperationLog C \<lparr>ol_Action = TrimSpace (ol_Action req), ol_Software = TrimSpace (ol_Software req),
                    ol_ConfigUUID = TrimSpace (ol_ConfigUUID req), ol_ConfigName = TrimSpace (ol_ConfigName req)\<rparr> w of
          (w1, ok) \<Rightarrow> ((c, w1), if ok then None else Some DatabaseError)))"

text \<open>The table of local rows: a later row with the same identifier replaces an earlier one.\<close>

definition local_map :: "SoftwareConfig list \<Rightarrow> string \<Rightarrow> SoftwareConfig option" where
  "local_map rows = map_of (rev (map (\<lambda>r. (sc_UUID r, r)) rows))"

definition remote_item :: "(string \<Rightarrow> SoftwareConfig option) \<Rightarrow> SoftwareConfig \<Rightarrow> ConfigFreshnessItem" where
  "remote_item localMap r =
     (case localMap (sc_UUID r) of
        Some l \<Rightarrow> \<lparr>fi_UUID = sc_UUID r, fi_Software = sc_Software l, fi_Name = sc_Name l,
                   fi_LocalUpdatedAt = Some (sc_UpdatedAt l), fi_CloudUpdatedAt = Some (sc_UpdatedAt r),
                   fi_Status = (if sc_UpdatedAt l > sc_UpdatedAt r then ''local_newer''
                                else if sc_UpdatedAt r > sc_UpdatedAt l then ''cloud_newer'' else ''same'')\<rparr>
      | None \<Rightarrow> \<lparr>fi_UUID = sc_UUID r, fi_Software = sc_Software r, fi_Name = sc_Name r,
                 fi_LocalUpdatedAt = None, fi_CloudUpdatedAt = Some (sc_UpdatedAt r), fi_Status = ''cloud_only''\<rparr>)"

definition local_item :: "SoftwareConfig \<Rightarrow> ConfigFreshnessItem" where
  "local_item l = \<lparr>fi_UUID = sc_UUID l, fi_Software = sc_Software l, fi_Name = sc_Name l,
     fi_LocalUpdatedAt = Some (sc_UpdatedAt l), fi_CloudUpdatedAt = None, fi_Status = ''local_only''\<rparr>"

definition CompareWithCloud ::
    "config_call \<Rightarrow> string \<Rightarrow> config_state \<Rightarrow> config_state \<times> (config_error + ConfigFreshnessItem list)" where
  "CompareWithCloud C url s =
     (case s of (c, w) \<Rightarrow>
       (if TrimSpace url = [] then (s, Inl URLRequired)
        else case Store_List C w of None \<Rightarrow> (s, Inl DatabaseError)
        | Some localConfigs \<Rightarrow>
            (case fetchCloudBatch C of None \<Rightarrow> (s, Inl CloudFailed)
             | Some remote \<Rightarrow>
                 let items = map (remote_item (local_map localConfigs)) remote
                       @ map local_item (filter (\<lambda>l. sc_UUID l \<notin> sc_UUID ` set remote) localConfigs)
                 in ((c, fst (SaveOperationLog C (cloud_log ''compare'') w)), Inr items))))"

section \<open>Histories\<close>

datatype config_op =
    SaveOp config_call SaveSoftwareConfigRequest
  | ActivateOp config_call SaveSoftwareConfigRequest
  | PushOp config_call string "string list" bool
  | PullOp config_call string
  | DeleteOp config_call string
  | SelectOp config_call string bool
  | LogOp config_call SoftwareConfigOperationLog
  | CompareOp config_call string

fun config_step :: "config_op \<Rightarrow> config_state \<Rightarrow> config_state" where
  "config_step (SaveOp C req) s = fst (Config_Save C req s)"
| "config_step (ActivateOp C req) s = fst (Config_Activate C req s)"
| "config_step (PushOp C url uuids sel) s = fst (PushToCloud C url uuids sel s)"
| "config_step (PullOp C url) s = fst (PullFromCloud C url s)"
| "config_step (DeleteOp C uuid) s = fst (Config_Delete C uuid s)"
| "config_step (SelectOp C uuid sel) s = fst (Config_SetSelected C uuid sel s)"
| "config_step (LogOp C req) s = fst (LogOperation C req s)"
| "config_step (CompareOp C url) s = fst (CompareWithCloud C url s)"

text \<open>The database library changes the time of the last update only.\<close>

definition stamp_ok :: "config_call \<Rightarrow> bool" where
  "stamp_ok C \<longleftrightarrow> (\<forall>c. \<exists>t. cl_stamp C c = c\<lparr>sc_UpdatedAt := t\<rparr>)"

fun op_call :: "config_op \<Rightarrow> config_call" where
  "op_call (SaveOp C req) = C"
| "op_call (ActivateOp C req) = C"
| "op_call (PushOp C url uuids sel) = C"
| "op_call (PullOp C url) = C"
| "op_call (DeleteOp C uuid) = C"
| "op_call (SelectOp C uuid sel) = C"
| "op_call (LogOp C req) = C"
| "op_call (CompareOp C url) = C"

fun marks_in_use :: "config_op \<Rightarrow> bool" where
  "marks_in_use (SaveOp C req) = sq_InUse req"
| "marks_in_use op = False"

text \<open>Identifiers are unique, and each software has at most one configuration in use.\<close>

definition single_use :: "SoftwareConfig set \<Rightarrow> bool" where
  "single_use R \<longleftrightarrow>
     (\<forall>a \<in> R. \<forall>b \<in> R. sc_InUse a \<and> sc_InUse b \<and> sc_Software a = sc_Software b \<longrightarrow> sc_UUID a = sc_UUID b)"

definition rows_ok :: "SoftwareConfig list \<Rightarrow> bool" where
  "rows_ok rows \<longleftrightarrow> distinct (map sc_UUID rows) \<and> single_use (set rows)"

section \<open>The table\<close>

lemma row_stamp_sel [simp]:
  assumes "stamp_ok C"
  shows "sc_UUID (cl_stamp C c) = sc_UUID c" "sc_Software (cl_stamp C c) = sc_Software c" "sc_Name (cl_stamp C c) = sc_Name c"
    "sc_FilePath (cl_stamp C c) = sc_FilePath c" "sc_Version (cl_stamp C c) = sc_Version c" "sc_InUse (cl_stamp C c) = sc_InUse c"
    "sc_Selected (cl_stamp C c) = sc_Selected c" "sc_Format (cl_stamp C c) = sc_Format c" "sc_Content (cl_stamp C c) = sc_Content c"
proof -
  obtain t where t: "cl_stamp C c = c\<lparr>sc_UpdatedAt := t\<rparr>" using assms unfolding stamp_ok_def by blast
  show "sc_UUID (cl_stamp C c) = sc_UUID c" "sc_Software (cl_stamp C c) = sc_Software c" "sc_Name (cl_stamp C c) = sc_Name c"
    "sc_FilePath (cl_stamp C c) = sc_FilePath c" "sc_Version (cl_stamp C c) = sc_Version c" "sc_InUse (cl_stamp C c) = sc_InUse c"
    "sc_Selected (cl_stamp C c) = sc_Selected c" "sc_Format (cl_stamp C c) = sc_Format c" "sc_Content (cl_stamp C c) = sc_Content c"
    by (simp_all add: t)
qed

lemma db_find_None: "db_find u rows = None \<longleftrightarrow> u \<notin> set (map sc_UUID rows)"
  by (auto simp: db_find_def find_None_iff)

lemma db_find_Some: "db_find u rows = Some r \<Longrightarrow> r \<in> set rows \<and> sc_UUID r = u"
  by (auto simp: db_find_def find_Some_iff)

lemma single_useI:
  "(\<And>a b. a \<in> R \<Longrightarrow> b \<in> R \<Longrightarrow> sc_InUse a \<Longrightarrow> sc_InUse b \<Longrightarrow> sc_Software a = sc_Software b \<Longrightarrow> sc_UUID a = sc_UUID b)
   \<Longrightarrow> single_use R"
  unfolding single_use_def by blast

lemma single_useD:
  "single_use R \<Longrightarrow> a \<in> R \<Longrightarrow> b \<in> R \<Longrightarrow> sc_InUse a \<Longrightarrow> sc_InUse b \<Longrightarrow> sc_Software a = sc_Software b \<Longrightarrow> sc_UUID a = sc_UUID b"
  unfolding single_use_def by blast

lemma rows_ok_map:
  assumes "rows_ok rows" "\<And>r. r \<in> set rows \<Longrightarrow> sc_UUID (g r) = sc_UUID r"
    and "\<And>r. r \<in> set rows \<Longrightarrow> sc_InUse (g r) \<Longrightarrow> sc_InUse r \<and> sc_Software (g r) = sc_Software r"
  shows "rows_ok (map g rows)"
proof -
  have "single_use (g ` set rows)"
  proof (rule single_useI)
    fix a b
    assume ab: "a \<in> g ` set rows" "b \<in> g ` set rows" "sc_InUse a" "sc_InUse b" "sc_Software a = sc_Software b"
    obtain x y where xy: "x \<in> set rows" "a = g x" "y \<in> set rows" "b = g y" using ab(1,2) by blast
    have "sc_InUse x" "sc_InUse y" "sc_Software x = sc_Software y"
      using assms(3) [OF xy(1)] assms(3) [OF xy(3)] ab(3-5) xy by simp_all
    with assms(1) xy have "sc_UUID x = sc_UUID y" unfolding rows_ok_def by (blast intro: single_useD)
    then show "sc_UUID a = sc_UUID b" using assms(2) xy by simp
  qed
  moreover have "map sc_UUID (map g rows) = map sc_UUID rows" using assms(2) by simp
  ultimately show ?thesis using assms(1) unfolding rows_ok_def set_map by (simp only: simp_thms)
qed

lemma rows_ok_clear: "stamp_ok C \<Longrightarrow> rows_ok rows \<Longrightarrow> rows_ok (clear_in_use C software rows)"
  unfolding clear_in_use_def db_update_def by (rule rows_ok_map) (simp_all split: if_splits)

lemma clear_in_use_none:
  assumes "stamp_ok C" "r \<in> set (clear_in_use C software rows)" "sc_Software r = software"
  shows "\<not> sc_InUse r"
proof -
  obtain x where "r = (if sc_Software x = software \<and> sc_InUse x then cl_stamp C (x\<lparr>sc_InUse := False\<rparr>) else x)"
    using assms(2) unfolding clear_in_use_def db_update_def set_map by blast
  then show ?thesis using assms(1,3) by (simp split: if_splits)
qed

lemma save_members:
  assumes "stamp_ok C" "r \<in> set (db_save C c rows)"
  shows "(r = c \<or> r = cl_stamp C c) \<or> r \<in> set rows \<and> sc_UUID r \<noteq> sc_UUID c"
  using assms by (auto simp: db_save_def db_update_def db_find_None split: option.splits if_splits) (metis imageI)

lemma save_uuids: "stamp_ok C \<Longrightarrow> rows_ok rows \<Longrightarrow> distinct (map sc_UUID (db_save C c rows))"
  by (auto simp: db_save_def db_update_def db_find_None rows_ok_def comp_def if_distrib cong: if_cong split: option.splits)

lemma rows_ok_save:
  assumes C: "stamp_ok C" and ok: "rows_ok rows"
    and only: "\<And>r. sc_InUse c \<Longrightarrow> r \<in> set rows \<Longrightarrow> sc_InUse r \<Longrightarrow> sc_Software r = sc_Software c \<Longrightarrow> sc_UUID r = sc_UUID c"
  shows "rows_ok (db_save C c rows)"
proof -
  have "single_use (set (db_save C c rows))"
  proof (rule single_useI)
    fix a b
    assume ab: "a \<in> set (db_save C c rows)" "b \<in> set (db_save C c rows)" "sc_InUse a" "sc_InUse b" "sc_Software a = sc_Software b"
    have new: "sc_UUID x = sc_UUID c \<and> sc_InUse x = sc_InUse c \<and> sc_Software x = sc_Software c" if "x = c \<or> x = cl_stamp C c" for x
      using that C by auto
    have old: "single_use (set rows)" using ok by (simp add: rows_ok_def)
    consider "a = c \<or> a = cl_stamp C c" "b = c \<or> b = cl_stamp C c" | "a = c \<or> a = cl_stamp C c" "b \<in> set rows"
      | "a \<in> set rows" "b = c \<or> b = cl_stamp C c" | "a \<in> set rows" "b \<in> set rows"
      using save_members [OF C ab(1)] save_members [OF C ab(2)] by blast
    then show "sc_UUID a = sc_UUID b"
    proof cases
      case 1
      show ?thesis using new [OF 1(1)] new [OF 1(2)] by simp
    next
      case 2
      have "sc_UUID b = sc_UUID c" using new [OF 2(1)] ab by (intro only [OF _ 2(2)]) simp_all
      then show ?thesis using new [OF 2(1)] by simp
    next
      case 3
      have "sc_UUID a = sc_UUID c" using new [OF 3(2)] ab by (intro only [OF _ 3(1)]) simp_all
      then show ?thesis using new [OF 3(2)] by simp
    next
      case 4
      then show ?thesis by (rule single_useD [OF old _ _ ab(3-5)])
    qed
  qed
  then show ?thesis using save_uuids [OF C ok] by (simp add: rows_ok_def)
qed

lemma save_row: "stamp_ok C \<Longrightarrow> \<exists>r \<in> set (db_save C c rows). \<exists>t. r = c\<lparr>sc_UpdatedAt := t\<rparr>"
proof (cases "db_find (sc_UUID c) rows")
  case None
  have "c = c\<lparr>sc_UpdatedAt := sc_UpdatedAt c\<rparr>" by simp
  moreover have "c \<in> set (db_save C c rows)" using None by (simp add: db_save_def)
  ultimately show ?thesis by blast
next
  case (Some l)
  assume "stamp_ok C"
  then obtain t where "cl_stamp C c = c\<lparr>sc_UpdatedAt := t\<rparr>" unfolding stamp_ok_def by blast
  moreover have "cl_stamp C c \<in> set (db_save C c rows)"
    using Some db_find_Some [OF Some] by (auto simp: db_save_def db_update_def)
  ultimately show ?thesis by blast
qed

lemma rows_ok_activate:
  assumes "stamp_ok C" "rows_ok rows"
  shows "rows_ok (db_save C c (clear_in_use C (sc_Software c) rows))"
  using assms rows_ok_clear clear_in_use_none by (intro rows_ok_save) blast+

lemma rows_ok_merge:
  "stamp_ok C \<Longrightarrow> rows_ok rows \<Longrightarrow> rows_ok (fst (merge_loop C incoming (rows, i, u, k)))"
proof (induction incoming arbitrary: rows i u k)
  case (Cons x xs)
  define cl where "cl = (if sc_InUse x then clear_in_use C (sc_Software x) rows else rows)"
  have cl: "rows_ok cl" "\<And>r. sc_InUse x \<Longrightarrow> r \<in> set cl \<Longrightarrow> sc_InUse r \<Longrightarrow> sc_Software r = sc_Software x \<Longrightarrow> sc_UUID r = sc_UUID x"
    using Cons.prems rows_ok_clear clear_in_use_none by (auto simp: cl_def)
  have uu: "map sc_UUID cl = map sc_UUID rows"
    using Cons.prems(1) by (simp add: cl_def clear_in_use_def db_update_def)
  have saved: "rows_ok (db_save C x cl)" by (rule rows_ok_save [OF Cons.prems(1) cl])
  moreover have "rows_ok (cl @ [x])" if "db_find (sc_UUID x) rows = None"
  proof -
    have "db_find (sc_UUID x) cl = None" using that uu unfolding db_find_None by (simp only: not_False_eq_True)
    then show ?thesis using saved by (simp add: db_save_def)
  qed
  ultimately have next_ok: "rows_ok (if db_find (sc_UUID x) rows = None then cl @ [x] else if newer then db_save C x cl else rows)" for newer
    using Cons.prems(2) by simp
  show ?case
  proof (cases "db_find (sc_UUID x) rows")
    case None
    with next_ok show ?thesis by (simp add: Let_def cl_def [symmetric] Cons.IH [OF Cons.prems(1)])
  next
    case (Some l)
    with next_ok [of True] Cons.prems(2) show ?thesis by (simp add: Let_def cl_def [symmetric] Cons.IH [OF Cons.prems(1)])
  qed
qed simp

section \<open>Operations keep the table in order\<close>

lemma log_frame [simp]: "cw_rows (fst (SaveOperationLog C l w)) = cw_rows w" "cw_files (fst (SaveOperationLog C l w)) = cw_files w"
    "cw_snapshots (fst (SaveOperationLog C l w)) = cw_snapshots w"
  by (simp_all add: SaveOperationLog_def)

lemma file_frame [simp]: "cw_rows (fst (writeConfigFile C p t w)) = cw_rows w" "cw_rows (fst (remove_config_file C p w)) = cw_rows w"
    "cw_snapshots (fst (writeConfigFile C p t w)) = cw_snapshots w" "cw_snapshots (fst (remove_config_file C p w)) = cw_snapshots w"
  by (simp_all add: writeConfigFile_def remove_config_file_def)

lemma rollback_frame:
  "cw_rows (fst (rollbackFileToCommittedSnapshot t p (\<lambda>x. writeConfigFile C (ec_FilePath x) (ec_Content x)) (remove_config_file C) w)) = cw_rows w"
  "cw_snapshots (fst (rollbackFileToCommittedSnapshot t p (\<lambda>x. writeConfigFile C (ec_FilePath x) (ec_Content x)) (remove_config_file C) w)) = cw_snapshots w"
  by (simp_all add: rollbackFileToCommittedSnapshot_def split: option.splits)

definition activated :: "SoftwareConfig \<Rightarrow> SoftwareConfig" where
  "activated cfg = cfg\<lparr>sc_InUse := True, sc_Selected := False\<rparr>"

lemma activate_db_cases:
  "activate_db C cfg (snapshot_of cfg) w =
     (let rows' = db_save C (activated cfg) (clear_in_use C (sc_Software cfg) (cw_rows w)); w1 = w\<lparr>cw_rows := rows'\<rparr> in
      if sc_Software cfg = [] \<or> \<not> cl_writeOk C then (w, False)
      else case buildEffectiveSnapshotJSON C (snapshot_of cfg) of None \<Rightarrow> (w1, False)
      | Some json \<Rightarrow>
          if cl_snapshotOk C
          then (w1\<lparr>cw_snapshots := cw_snapshots w @ [\<lparr>es_Software = sc_Software cfg, es_ConfigUUID = sc_UUID cfg,
                 es_ConfigName = sc_Name cfg, es_ConfigFilePath = sc_FilePath cfg, es_ConfigVersion = sc_Version cfg,
                 es_ConfigFormat = sc_Format cfg, es_SnapshotJSON = json\<rparr>]\<rparr>, True)
          else (w1, False))"
  by (cases cfg) (simp add: activate_db_def Store_Activate_def SaveEffectiveConfigSnapshot_def snapshot_of_def activated_def
      Let_def split: option.splits)

abbreviation persist_file :: "config_call \<Rightarrow> config_world persist" where
  "persist_file C \<equiv> \<lambda>x. writeConfigFile C (ec_FilePath x) (ec_Content x)"

lemma commit_cases:
  assumes run: "Commit (remove_config_file C) (Some x) (Some (persist_file C)) (Some db) c w = (c1, w1, r)"
  obtains (written) w2 where "persist_file C x w = (w2, True)" "db x w2 = (w1, True)" "r = Inr (cc_version c + 1)"
      "c1 = c\<lparr>cc_active := Some x, cc_committed := Some x, cc_version := cc_version c + 1\<rparr>"
  | (unwritten) "r = Inl FileStage" "cw_rows w1 = cw_rows w" "cw_snapshots w1 = cw_snapshots w"
      "cc_committed c1 = cc_committed c" "cc_version c1 = cc_version c"
  | (undone) w2 w3 e where "persist_file C x w = (w2, True)" "db x w2 = (w3, False)" "r = Inl e" "e \<in> {DBStage, DBStageRollbackFailed}"
      "cw_rows w1 = cw_rows w3" "cw_snapshots w1 = cw_snapshots w3"
      "cc_committed c1 = cc_committed c" "cc_version c1 = cc_version c"
proof -
  obtain w2 ok where f: "persist_file C x w = (w2, ok)" by fastforce
  obtain w3 ok' where d: "db x w2 = (w3, ok')" by fastforce
  obtain w4 ok'' where b: "rollbackFileToCommittedSnapshot (cc_committed c) (ec_FilePath x) (persist_file C) (remove_config_file C) w3 = (w4, ok'')"
    by fastforce
  have fr: "cw_rows w2 = cw_rows w" "cw_snapshots w2 = cw_snapshots w"
    using file_frame(1,3) [of C "ec_FilePath x" "ec_Content x" w] f by simp_all
  have br: "cw_rows w4 = cw_rows w3" "cw_snapshots w4 = cw_snapshots w3"
    using rollback_frame [of "cc_committed c" "ec_FilePath x" C w3] b by simp_all
  show thesis
  proof (cases ok)
    case False
    then show thesis using run f fr by (intro unwritten) (auto simp: Commit_def Let_def)
  next
    case True
    note okf = this
    show thesis
    proof (cases ok')
      case True
      then show thesis using run f d okf by (intro written [of w2]) (auto simp: Commit_def Let_def)
    next
      case False
      have "c1 = c\<lparr>cc_active := cc_committed c\<rparr>" "w1 = w4" "r = Inl (if ok'' then DBStage else DBStageRollbackFailed)"
        using run f d b okf False by (auto simp: Commit_def Let_def)
      then show thesis using f d okf False br
        by (intro undone [of w2 w3 "if ok'' then DBStage else DBStageRollbackFailed"]) auto
    qed
  qed
qed

lemma activation_cases:
  assumes run: "Config_Activate C req (c, w) = ((c', w'), r)"
  obtains (rejected) e where "r = Inl e" "c' = c" "w' = w" "\<forall>x. e \<noteq> CommitFailed x"
  | (commit) cfg c1 w1 r1 where "normalizeActivateRequest C req w = Inr cfg"
      "Commit (remove_config_file C) (Some (snapshot_of cfg)) (Some (persist_file C)) (Some (activate_db C cfg)) c w = (c1, w1, r1)"
      "c' = c1" "cw_rows w' = cw_rows w1" "cw_files w' = cw_files w1" "cw_snapshots w' = cw_snapshots w1"
      "r = (case r1 of Inl e \<Rightarrow> Inl (CommitFailed e) | Inr _ \<Rightarrow> Inr cfg)"
proof (cases "TrimSpace (sq_FilePath req) = []")
  case True
  then show thesis using run by (intro rejected) (auto simp: Config_Activate_def)
next
  case False
  show thesis
  proof (cases "normalizeActivateRequest C req w")
    case (Inl e)
    moreover have "\<forall>x. e \<noteq> CommitFailed x"
      using Inl by (auto simp: normalizeActivateRequest_def normalize_request_def validateContentByFormat_def Let_def split: if_splits option.splits)
    ultimately show thesis using run False by (intro rejected) (auto simp: Config_Activate_def)
  next
    case (Inr cfg)
    obtain c1 w1 r1 where k: "Commit (remove_config_file C) (Some (snapshot_of cfg)) (Some (persist_file C)) (Some (activate_db C cfg)) c w = (c1, w1, r1)"
      using prod_cases3 by blast
    show thesis using run False Inr k by (intro commit [OF Inr k]) (auto simp: Config_Activate_def split: sum.splits)
  qed
qed

lemma normalized_software:
  "normalizeActivateRequest C req w = Inr cfg \<Longrightarrow> sc_Software cfg \<noteq> []"
  by (auto simp: normalizeActivateRequest_def normalize_request_def Let_def split: if_splits option.splits)

lemma activate_db_ok:
  assumes C: "stamp_ok C" and ok: "rows_ok (cw_rows w)" and run: "activate_db C cfg (snapshot_of cfg) w = (w', True)"
  shows "rows_ok (cw_rows w') \<and> cw_files w' = cw_files w \<and> (\<exists>t. (activated cfg)\<lparr>sc_UpdatedAt := t\<rparr> \<in> set (cw_rows w'))
    \<and> cw_snapshots w' \<noteq> [] \<and> es_ConfigUUID (last (cw_snapshots w')) = sc_UUID cfg"
proof -
  let ?rows = "db_save C (activated cfg) (clear_in_use C (sc_Software (activated cfg)) (cw_rows w))"
  have "cw_rows w' = ?rows" "cw_files w' = cw_files w" "cw_snapshots w' \<noteq> []" "es_ConfigUUID (last (cw_snapshots w')) = sc_UUID cfg"
    using run unfolding activate_db_cases Let_def by (auto simp: activated_def split: if_splits option.splits)
  moreover have "rows_ok ?rows" by (rule rows_ok_activate [OF C ok])
  moreover have "\<exists>t. (activated cfg)\<lparr>sc_UpdatedAt := t\<rparr> \<in> set ?rows" using save_row [OF C, of "activated cfg"] by metis
  ultimately show ?thesis by simp
qed

lemma activate_db_only:
  assumes C: "stamp_ok C" and run: "activate_db C cfg (snapshot_of cfg) w = (w', True)"
  shows "cw_files w' = cw_files w \<and> (\<exists>t. (activated cfg)\<lparr>sc_UpdatedAt := t\<rparr> \<in> set (cw_rows w'))
    \<and> (\<forall>r \<in> set (cw_rows w'). sc_Software r = sc_Software cfg \<and> sc_InUse r \<longrightarrow> sc_UUID r = sc_UUID cfg)
    \<and> cw_snapshots w' \<noteq> [] \<and> es_ConfigUUID (last (cw_snapshots w')) = sc_UUID cfg"
proof -
  let ?rows = "db_save C (activated cfg) (clear_in_use C (sc_Software (activated cfg)) (cw_rows w))"
  have "cw_rows w' = ?rows" "cw_files w' = cw_files w" "cw_snapshots w' \<noteq> []" "es_ConfigUUID (last (cw_snapshots w')) = sc_UUID cfg"
    using run unfolding activate_db_cases Let_def by (auto simp: activated_def split: if_splits option.splits)
  moreover have "\<exists>t. (activated cfg)\<lparr>sc_UpdatedAt := t\<rparr> \<in> set ?rows" using save_row [OF C, of "activated cfg"] by metis
  moreover have "sc_UUID r = sc_UUID cfg" if "r \<in> set ?rows" "sc_Software r = sc_Software cfg" "sc_InUse r" for r
    using save_members [OF C that(1)] clear_in_use_none [OF C, of r "sc_Software (activated cfg)" "cw_rows w"] that C
    by (auto simp: activated_def)
  ultimately show ?thesis by simp
qed

lemma activate_db_fail:
  assumes "activate_db C cfg (snapshot_of cfg) w = (w', False)" "sc_Software cfg \<noteq> []"
  shows "cw_snapshots w' = cw_snapshots w \<and> (cw_rows w' = cw_rows w \<or> cl_writeOk C
    \<and> cw_rows w' = db_save C (activated cfg) (clear_in_use C (sc_Software (activated cfg)) (cw_rows w)))"
  using assms unfolding activate_db_cases Let_def by (auto simp: activated_def split: if_splits option.splits)

lemma activation_ok:
  assumes C: "stamp_ok C" and ok: "rows_ok (cw_rows w)" and run: "Config_Activate C req (c, w) = ((c', w'), r)"
  shows "rows_ok (cw_rows w')"
  using run
proof (cases rule: activation_cases)
  case (commit cfg c1 w1 r1)
  from commit(2) show ?thesis
  proof (cases rule: commit_cases)
    case (written w2)
    then have "cw_rows w2 = cw_rows w" using file_frame(1) [of C _ _ w] by (metis fst_conv)
    then show ?thesis using activate_db_ok [OF C _ written(2)] ok commit(4) by simp
  next
    case (undone w2 w3 e)
    then have "cw_rows w2 = cw_rows w" using file_frame(1) [of C _ _ w] by (metis fst_conv)
    then show ?thesis
      using activate_db_fail [OF undone(2) normalized_software [OF commit(1)]] rows_ok_activate [OF C ok] undone(5) ok commit(4)
      by metis
  qed (use ok commit(4) in simp)
qed (use ok in simp)

lemma config_step_ok:
  assumes C: "stamp_ok (op_call op)" and ok: "rows_ok (cw_rows (snd s))" and unmarked: "\<not> marks_in_use op"
  shows "rows_ok (cw_rows (snd (config_step op s)))"
proof -
  obtain c w where s: "s = (c, w)" by fastforce
  show ?thesis
  proof (cases op)
    case (SaveOp D req)
    have "rows_ok (db_save D cfg (cw_rows w))" if "normalizeSaveRequest D req w = Inr cfg" for cfg
    proof (rule rows_ok_save)
      have "\<not> sc_InUse cfg"
        using that unmarked SaveOp
        by (auto simp: normalizeSaveRequest_def normalize_request_def Let_def split: if_splits option.splits)
      then show "sc_UUID r = sc_UUID cfg" if "sc_InUse cfg" for r using that by simp
    qed (use C ok s SaveOp in simp_all)
    then show ?thesis using SaveOp s ok by (simp add: Config_Save_def Store_Upsert_def split: sum.splits)
  next
    case (ActivateOp D req)
    then show ?thesis using activation_ok [of D w req c] C ok s by (metis config_step.simps(2) op_call.simps(2) prod.collapse snd_conv)
  next
    case (PullOp D url)
    then show ?thesis using rows_ok_merge [of D "cw_rows w" _ 0 0 0] C ok s
      by (auto simp: PullFromCloud_def MergeByLatest_def Let_def split: option.splits prod.splits) (metis fst_conv)
  next
    case (DeleteOp D u)
    have "rows_ok (filter P (cw_rows w))" for P
      using ok s by (auto simp: rows_ok_def single_use_def distinct_map_filter)
    then show ?thesis using DeleteOp s ok by (auto simp: Config_Delete_def DeleteByUUID_def Let_def split: option.splits)
  next
    case (SelectOp D u b)
    have "rows_ok (db_update D (\<lambda>r. sc_UUID r = i) (\<lambda>r. r\<lparr>sc_Selected := b\<rparr>) (cw_rows w))" for i
      unfolding db_update_def by (rule rows_ok_map) (use C ok s SelectOp in \<open>simp_all split: if_splits\<close>)
    then show ?thesis using SelectOp s ok by (auto simp: Config_SetSelected_def Store_SetSelected_def Let_def split: option.splits)
  qed (use s ok in \<open>auto simp: PushToCloud_def LogOperation_def CompareWithCloud_def SaveOperationLog_def Let_def split: option.splits prod.splits\<close>)
qed

lemma config_run_ok:
  "list_all (\<lambda>op. stamp_ok (op_call op) \<and> \<not> marks_in_use op) ops \<Longrightarrow> rows_ok (cw_rows (snd s)) \<Longrightarrow>
   rows_ok (cw_rows (snd (fold config_step ops s)))"
proof (induction ops arbitrary: s)
  case (Cons op ops)
  have "rows_ok (cw_rows (snd (config_step op s)))" using Cons.prems by (intro config_step_ok) simp_all
  then show ?case using Cons.IH [of "config_step op s"] Cons.prems(1) by simp
qed simp

section \<open>Pulling from the cloud\<close>

text \<open>A row that survives: the same but for the flag and the time, which does not go back.\<close>

definition survives :: "SoftwareConfig \<Rightarrow> SoftwareConfig list \<Rightarrow> bool" where
  "survives r rows \<longleftrightarrow> (\<exists>b t. r\<lparr>sc_InUse := b, sc_UpdatedAt := t\<rparr> \<in> set rows \<and> sc_UpdatedAt r \<le> t)"

definition covered :: "SoftwareConfig \<Rightarrow> SoftwareConfig list \<Rightarrow> bool" where
  "covered r rows \<longleftrightarrow> (\<exists>r' \<in> set rows. sc_UUID r' = sc_UUID r \<and> sc_UpdatedAt r \<le> sc_UpdatedAt r')"

definition stamps_now :: "config_call \<Rightarrow> time \<Rightarrow> bool" where
  "stamps_now C now \<longleftrightarrow> (\<forall>c. cl_stamp C c = c\<lparr>sc_UpdatedAt := now\<rparr>)"

definition not_after :: "time \<Rightarrow> SoftwareConfig list \<Rightarrow> bool" where
  "not_after now rows \<longleftrightarrow> list_all (\<lambda>r. sc_UpdatedAt r \<le> now) rows"

lemma survives_member: "r \<in> set rows \<Longrightarrow> survives r rows"
  unfolding survives_def by (rule exI [of _ "sc_InUse r"], rule exI [of _ "sc_UpdatedAt r"]) simp

lemma survives_trans: "survives r rows \<Longrightarrow> (\<And>x. x \<in> set rows \<Longrightarrow> sc_UUID x = sc_UUID r \<Longrightarrow> sc_UpdatedAt r \<le> sc_UpdatedAt x \<Longrightarrow> survives x rows') \<Longrightarrow> survives r rows'"
proof -
  assume "survives r rows" and step: "\<And>x. x \<in> set rows \<Longrightarrow> sc_UUID x = sc_UUID r \<Longrightarrow> sc_UpdatedAt r \<le> sc_UpdatedAt x \<Longrightarrow> survives x rows'"
  then obtain b t where x: "r\<lparr>sc_InUse := b, sc_UpdatedAt := t\<rparr> \<in> set rows" "sc_UpdatedAt r \<le> t" unfolding survives_def by blast
  then obtain b' t' where "r\<lparr>sc_InUse := b', sc_UpdatedAt := t'\<rparr> \<in> set rows'" "t \<le> t'"
    using step [OF x(1)] unfolding survives_def by auto
  then show "survives r rows'" using x(2) unfolding survives_def by (intro exI [of _ b'] exI [of _ t']) simp
qed

lemma survives_covered: "survives r rows \<Longrightarrow> covered r rows"
proof -
  assume "survives r rows"
  then obtain b t where "r\<lparr>sc_InUse := b, sc_UpdatedAt := t\<rparr> \<in> set rows" "sc_UpdatedAt r \<le> t" unfolding survives_def by blast
  then show ?thesis unfolding covered_def by (intro bexI [of _ "r\<lparr>sc_InUse := b, sc_UpdatedAt := t\<rparr>"]) simp_all
qed

lemma survives_clear:
  assumes "stamps_now C now" "not_after now rows" "r \<in> set rows"
  shows "survives r (clear_in_use C software rows)"
proof -
  let ?g = "\<lambda>r. if sc_Software r = software \<and> sc_InUse r then cl_stamp C (r\<lparr>sc_InUse := False\<rparr>) else r"
  have mem: "?g r \<in> set (clear_in_use C software rows)" using assms(3) by (simp add: clear_in_use_def db_update_def)
  have "\<exists>b t. ?g r = r\<lparr>sc_InUse := b, sc_UpdatedAt := t\<rparr> \<and> sc_UpdatedAt r \<le> t"
  proof (cases "sc_Software r = software \<and> sc_InUse r")
    case True
    have "sc_UpdatedAt r \<le> now" using assms(2,3) by (auto simp: not_after_def list_all_iff)
    then show ?thesis using True assms(1) unfolding stamps_now_def by (intro exI [of _ False] exI [of _ now]) simp
  next
    case False
    then show ?thesis by (intro exI [of _ "sc_InUse r"] exI [of _ "sc_UpdatedAt r"]) auto
  qed
  then show ?thesis using mem unfolding survives_def by metis
qed

lemma not_after_clear: "stamps_now C now \<Longrightarrow> not_after now rows \<Longrightarrow> not_after now (clear_in_use C software rows)"
  by (auto simp: not_after_def clear_in_use_def db_update_def list_all_iff stamps_now_def)

lemma not_after_save: "stamps_now C now \<Longrightarrow> not_after now rows \<Longrightarrow> sc_UpdatedAt c \<le> now \<Longrightarrow> not_after now (db_save C c rows)"
  by (auto simp: not_after_def db_save_def db_update_def list_all_iff stamps_now_def split: option.splits)

lemma save_keeps:
  assumes "r \<in> set rows" "sc_UUID r \<noteq> sc_UUID c"
  shows "r \<in> set (db_save C c rows)"
  using assms by (auto simp: db_save_def db_update_def split: option.splits intro: image_eqI [of _ _ r])

lemma save_covers: "stamps_now C now \<Longrightarrow> sc_UpdatedAt c \<le> now \<Longrightarrow> covered c (db_save C c rows)"
proof (cases "db_find (sc_UUID c) rows")
  case (Some l)
  assume now: "stamps_now C now" "sc_UpdatedAt c \<le> now"
  have "cl_stamp C c \<in> set (db_save C c rows)" using Some db_find_Some [OF Some] by (auto simp: db_save_def db_update_def)
  then show ?thesis using now unfolding covered_def stamps_now_def by (intro bexI [of _ "cl_stamp C c"]) simp_all
qed (simp add: db_save_def covered_def)

lemma covered_trans:
  "covered r rows \<Longrightarrow> (\<And>x. x \<in> set rows \<Longrightarrow> covered x rows') \<Longrightarrow> covered r rows'"
proof -
  assume "covered r rows" and step: "\<And>x. x \<in> set rows \<Longrightarrow> covered x rows'"
  then obtain x where x: "x \<in> set rows" "sc_UUID x = sc_UUID r" "sc_UpdatedAt r \<le> sc_UpdatedAt x" unfolding covered_def by blast
  then obtain y where y: "y \<in> set rows'" "sc_UUID y = sc_UUID x" "sc_UpdatedAt x \<le> sc_UpdatedAt y"
    using step unfolding covered_def by blast
  show ?thesis unfolding covered_def using x(2,3) y by (intro bexI [OF _ y(1)]) simp
qed

text \<open>One round of the merge.\<close>

definition merge_row :: "config_call \<Rightarrow> SoftwareConfig \<Rightarrow> SoftwareConfig list \<Rightarrow> SoftwareConfig list" where
  "merge_row C x rows =
     (let cleared = (if sc_InUse x then clear_in_use C (sc_Software x) rows else rows)
      in case db_find (sc_UUID x) rows of None \<Rightarrow> cleared @ [x]
         | Some l \<Rightarrow> if sc_UpdatedAt l < sc_UpdatedAt x then db_save C x cleared else rows)"

lemma merge_round:
  "\<exists>i' u' k'. merge_loop C (x # xs) (rows, i, u, k) = merge_loop C xs (merge_row C x rows, i', u', k')
     \<and> i' + u' + k' = i + u + k + 1"
proof (cases "db_find (sc_UUID x) rows")
  case None
  then show ?thesis by (intro exI [of _ "i + 1"] exI [of _ u] exI [of _ k]) (simp add: merge_row_def Let_def)
next
  case (Some l)
  then show ?thesis
    by (cases "sc_UpdatedAt l < sc_UpdatedAt x")
      (rule exI [of _ i], rule exI [of _ "u + 1"], rule exI [of _ k], simp add: merge_row_def Let_def,
       rule exI [of _ i], rule exI [of _ u], rule exI [of _ "k + 1"], simp add: merge_row_def Let_def)
qed

lemma merge_total:
  "case merge_loop C xs (rows, i, u, k) of (_, i', u', k') \<Rightarrow> i' + u' + k' = i + u + k + length xs"
proof (induction xs arbitrary: rows i u k)
  case (Cons x xs)
  obtain i1 u1 k1 where "merge_loop C (x # xs) (rows, i, u, k) = merge_loop C xs (merge_row C x rows, i1, u1, k1)"
      "i1 + u1 + k1 = i + u + k + 1"
    using merge_round by blast
  then show ?case using Cons.IH [where rows = "merge_row C x rows" and i = i1 and u = u1 and k = k1] by (auto split: prod.splits)
qed simp

lemma merge_row_step:
  assumes C: "stamps_now C now" and old: "not_after now rows" and x: "sc_UpdatedAt x \<le> now" and dist: "distinct (map sc_UUID rows)"
  shows "not_after now (merge_row C x rows)" "covered x (merge_row C x rows)"
    "\<And>r. r \<in> set rows \<Longrightarrow> covered r (merge_row C x rows)"
    "\<And>r. r \<in> set rows \<Longrightarrow> (sc_UUID x = sc_UUID r \<Longrightarrow> sc_UpdatedAt x \<le> sc_UpdatedAt r) \<Longrightarrow> survives r (merge_row C x rows)"
proof -
  define cl where "cl = (if sc_InUse x then clear_in_use C (sc_Software x) rows else rows)"
  have cl: "not_after now cl" using C old not_after_clear by (simp add: cl_def)
  have kept: "survives r cl" if "r \<in> set rows" for r using C old that survives_clear survives_member by (simp add: cl_def)
  have eq: "merge_row C x rows = (case db_find (sc_UUID x) rows of None \<Rightarrow> cl @ [x]
      | Some l \<Rightarrow> if sc_UpdatedAt l < sc_UpdatedAt x then db_save C x cl else rows)"
    by (simp add: merge_row_def cl_def [symmetric] Let_def)
  have found: "sc_UpdatedAt x \<le> sc_UpdatedAt l" if "db_find (sc_UUID x) rows = Some l" "\<not> sc_UpdatedAt l < sc_UpdatedAt x" for l
    using that by simp
  show "not_after now (merge_row C x rows)"
    using cl old x not_after_save [OF C cl x] by (auto simp: eq not_after_def split: option.splits)
  show cx: "covered x (merge_row C x rows)"
  proof (cases "db_find (sc_UUID x) rows")
    case (Some l)
    then show ?thesis using save_covers [OF C x, of cl] found [OF Some] db_find_Some [OF Some]
      by (cases "sc_UpdatedAt l < sc_UpdatedAt x") (simp_all add: eq, auto simp: covered_def)
  qed (simp add: eq covered_def)
  show surv: "survives r (merge_row C x rows)"
    if r: "r \<in> set rows" and le: "sc_UUID x = sc_UUID r \<Longrightarrow> sc_UpdatedAt x \<le> sc_UpdatedAt r" for r
  proof (cases "db_find (sc_UUID x) rows")
    case None
    have "survives r (cl @ [x])" using kept [OF r] by (auto simp: survives_def)
    then show ?thesis using None by (simp add: eq)
  next
    case (Some l)
    show ?thesis
    proof (cases "sc_UpdatedAt l < sc_UpdatedAt x")
      case True
      have "sc_UUID r \<noteq> sc_UUID x"
      proof
        assume same: "sc_UUID r = sc_UUID x"
        then have "r = l" using db_find_Some [OF Some] r dist by (metis distinct_map inj_onD)
        then show False using True le same by simp
      qed
      then have "survives r (db_save C x cl)"
        using survives_trans [OF kept [OF r]] save_keeps survives_member by metis
      then show ?thesis using Some True by (simp add: eq)
    qed (use Some r survives_member in \<open>simp add: eq\<close>)
  qed
  show "covered r (merge_row C x rows)" if r: "r \<in> set rows" for r
  proof (cases "sc_UUID x = sc_UUID r \<and> sc_UpdatedAt r < sc_UpdatedAt x")
    case True
    then show ?thesis using cx unfolding covered_def by auto
  next
    case False
    then show ?thesis using surv [OF r] survives_covered by auto
  qed
qed

lemma merge_row_distinct:
  assumes "stamps_now C now" "distinct (map sc_UUID rows)"
  shows "distinct (map sc_UUID (merge_row C x rows))"
proof -
  define cl where "cl = (if sc_InUse x then clear_in_use C (sc_Software x) rows else rows)"
  have uu: "map sc_UUID cl = map sc_UUID rows"
    using assms(1) by (simp add: cl_def clear_in_use_def db_update_def stamps_now_def)
  have save: "distinct (map sc_UUID (db_save C x cl))"
    using assms uu by (auto simp: db_save_def db_update_def db_find_None comp_def if_distrib stamps_now_def cong: if_cong split: option.splits)
  have "db_find (sc_UUID x) rows = None \<Longrightarrow> db_save C x cl = cl @ [x]"
    using uu unfolding db_save_def db_find_None by (metis db_find_None option.case(1))
  then show ?thesis using save assms(2) by (auto simp: merge_row_def cl_def [symmetric] Let_def split: option.splits)
qed

lemma merge_loop_covers:
  assumes "stamps_now C now" "not_after now rows" "not_after now xs" "distinct (map sc_UUID rows)"
  shows "distinct (map sc_UUID (fst (merge_loop C xs (rows, i, u, k))))
    \<and> (\<forall>x. x \<in> set rows \<union> set xs \<longrightarrow> covered x (fst (merge_loop C xs (rows, i, u, k))))"
  using assms
proof (induction xs arbitrary: rows i u k)
  case Nil
  then show ?case by (auto simp: covered_def)
next
  case (Cons x xs)
  obtain i1 u1 k1 where m: "merge_loop C (x # xs) (rows, i, u, k) = merge_loop C xs (merge_row C x rows, i1, u1, k1)"
    using merge_round by blast
  have x: "sc_UpdatedAt x \<le> now" "not_after now xs" using Cons.prems(3) by (auto simp: not_after_def)
  note st = merge_row_step [OF Cons.prems(1,2) x(1) Cons.prems(4)]
  note IH = Cons.IH [OF Cons.prems(1) st(1) x(2) merge_row_distinct [OF Cons.prems(1,4)], where i = i1 and u = u1 and k = k1, folded m]
  have "covered r (fst (merge_loop C (x # xs) (rows, i, u, k)))" if "r \<in> set rows \<union> set (x # xs)" for r
  proof (cases "r \<in> set xs")
    case True
    then show ?thesis using IH by blast
  next
    case False
    then have "covered r (merge_row C x rows)" using that st(2,3) by auto
    then show ?thesis by (rule covered_trans) (use IH in blast)
  qed
  then show ?case using IH by blast
qed

lemma merge_loop_survives:
  assumes "stamps_now C now" "not_after now rows" "not_after now xs" "distinct (map sc_UUID rows)" "r \<in> set rows"
    and "\<And>x. x \<in> set xs \<Longrightarrow> sc_UUID x = sc_UUID r \<Longrightarrow> sc_UpdatedAt x \<le> sc_UpdatedAt r"
  shows "survives r (fst (merge_loop C xs (rows, i, u, k)))"
  using assms
proof (induction xs arbitrary: rows i u k r)
  case Nil
  then show ?case by (simp add: survives_member)
next
  case (Cons x xs)
  obtain i1 u1 k1 where m: "merge_loop C (x # xs) (rows, i, u, k) = merge_loop C xs (merge_row C x rows, i1, u1, k1)"
    using merge_round by blast
  have x: "sc_UpdatedAt x \<le> now" "not_after now xs" using Cons.prems(3) by (auto simp: not_after_def)
  note st = merge_row_step [OF Cons.prems(1,2) x(1) Cons.prems(4)]
  have "survives r (merge_row C x rows)" using Cons.prems(5,6) by (intro st(4)) simp_all
  then show ?case
  proof (rule survives_trans)
    fix y
    assume y: "y \<in> set (merge_row C x rows)" "sc_UUID y = sc_UUID r" "sc_UpdatedAt r \<le> sc_UpdatedAt y"
    show "survives y (fst (merge_loop C (x # xs) (rows, i, u, k)))"
      unfolding m
    proof (rule Cons.IH [OF Cons.prems(1) st(1) x(2) merge_row_distinct [OF Cons.prems(1,4)] y(1)])
      fix z
      assume "z \<in> set xs" "sc_UUID z = sc_UUID y"
      then show "sc_UpdatedAt z \<le> sc_UpdatedAt y" using Cons.prems(6) [of z] y(2,3) by simp
    qed
  qed
qed

text \<open>What the cloud sends is complete: every entry has an identifier and a time.\<close>

definition complete_entries :: "SoftwareConfig list \<Rightarrow> bool" where
  "complete_entries batch \<longleftrightarrow> list_all (\<lambda>x. TrimSpace (sc_UUID x) \<noteq> [] \<and> sc_UpdatedAt x \<noteq> 0) batch"

lemma complete_batch_same:
  "complete_entries batch \<Longrightarrow> map (\<lambda>x. (sc_UUID x, sc_UpdatedAt x)) (complete_batch C i batch) = map (\<lambda>x. (sc_UUID x, sc_UpdatedAt x)) batch"
  by (induction batch arbitrary: i) (auto simp: complete_entries_def Let_def)

lemma complete_batch_stamps:
  assumes "complete_entries batch"
  shows "(\<lambda>x. (sc_UUID x, sc_UpdatedAt x)) ` set (complete_batch C i batch) = (\<lambda>x. (sc_UUID x, sc_UpdatedAt x)) ` set batch"
  using arg_cong [OF complete_batch_same [OF assms, of C i], of set] by simp

lemma length_complete_batch: "length (complete_batch C i batch) = length batch"
  by (induction batch arbitrary: i) (simp_all add: Let_def)

lemma not_after_batch:
  assumes "complete_entries batch" "not_after now batch"
  shows "not_after now (complete_batch C i batch)"
proof -
  have "snd ` ((\<lambda>x. (sc_UUID x, sc_UpdatedAt x)) ` set (complete_batch C i batch)) = snd ` ((\<lambda>x. (sc_UUID x, sc_UpdatedAt x)) ` set batch)"
    using complete_batch_stamps [OF assms(1)] by simp
  then show ?thesis using assms(2) unfolding not_after_def list_all_iff by (simp add: image_image) (metis imageE imageI)
qed

lemma local_map_row:
  assumes "distinct (map sc_UUID rows)" "r \<in> set rows"
  shows "local_map (newest_first rows) (sc_UUID r) = Some r"
proof -
  let ?xs = "rev (map (\<lambda>r. (sc_UUID r, r)) (newest_first rows))"
  have "distinct (map sc_UUID (newest_first rows))" using assms(1) by (simp add: newest_first_def distinct_map)
  then have "distinct (map fst ?xs)" by (simp add: rev_map [symmetric] comp_def)
  moreover have "(sc_UUID r, r) \<in> set ?xs" using assms(2) by (simp add: newest_first_def)
  ultimately show ?thesis unfolding local_map_def by (rule map_of_is_SomeI)
qed

definition sample_config_call :: config_call where
  "sample_config_call = \<lparr>cl_now = 10, cl_uuid = (\<lambda>n. ''fresh''), cl_home = Some ''/home/u'', cl_parseTime = (\<lambda>t. None),
     cl_jsonValid = (\<lambda>t. True), cl_yamlValid = (\<lambda>t. True), cl_jsonMap = (\<lambda>t. if t = ''{}'' then Some [] else None),
     cl_yamlMap = (\<lambda>t. None), cl_global = Some [], cl_marshal = (\<lambda>m. Some ''{...}''), cl_timeText = (\<lambda>t. ''now''),
     cl_stamp = (\<lambda>c. c\<lparr>sc_UpdatedAt := 10\<rparr>), cl_readOk = True, cl_writeOk = True, cl_snapshotOk = True, cl_logOk = True,
     cl_fileOk = (\<lambda>p t. True), cl_broken = None, cl_removeOk = True, cl_http = Some 200, cl_batch = None\<rparr>"

definition sample_request :: "string \<Rightarrow> string \<Rightarrow> SaveSoftwareConfigRequest" where
  "sample_request u content = \<lparr>sq_UUID = u, sq_Software = ''editor'', sq_Name = ''n'', sq_FilePath = ''~/cfg'', sq_Version = [],
     sq_InUse = False, sq_Selected = False, sq_Format = ''json'', sq_Content = content, sq_CreatedAt = [], sq_UpdatedAt = []\<rparr>"

definition empty_config_state :: config_state where
  "empty_config_state = (GetEffectiveConfigCommitCoordinator,
     \<lparr>cw_rows = [], cw_snapshots = [], cw_logs = [], cw_files = (\<lambda>_. None), cw_posted = []\<rparr>)"

definition sample_entry :: "string \<Rightarrow> time \<Rightarrow> SoftwareConfig" where
  "sample_entry u t = \<lparr>sc_UUID = u, sc_Software = ''editor'', sc_Name = ''n'', sc_FilePath = ''/p'', sc_Version = [],
     sc_InUse = True, sc_Selected = False, sc_Format = ''json'', sc_Content = ''{}'', sc_CreatedAt = 1, sc_UpdatedAt = t\<rparr>"

lemma sample_stamp: "stamp_ok sample_config_call" "stamps_now sample_config_call 10"
  by (auto simp: stamp_ok_def stamps_now_def sample_config_call_def)

section \<open>Properties\<close>

text \<open>
  C15. Each software has at most one configuration in use, and identifiers are unique, after any
  history of saves, activations, pushes, pulls, deletions, selections, comparisons and log entries,
  with failures of the database, the files, the cloud and the requests at any point, as long as no
  save itself asks for the flag. The database library is assumed to change nothing but the time of the
  last update on its own account.
\<close>

theorem one_config_in_use:
  assumes "list_all (\<lambda>op. stamp_ok (op_call op) \<and> \<not> marks_in_use op) ops" "cw_rows (snd s) = []"
  shows "let rows = cw_rows (snd (fold config_step ops s)) in distinct (map sc_UUID rows)
    \<and> (\<forall>software. length (filter (\<lambda>r. sc_InUse r \<and> sc_Software r = software) rows) \<le> 1)"
proof -
  define rows where "rows = cw_rows (snd (fold config_step ops s))"
  have "rows_ok []" by (simp add: rows_ok_def single_use_def)
  then have ok: "distinct (map sc_UUID rows)" "single_use (set rows)"
    using config_run_ok [OF assms(1), of s] assms(2) by (simp_all add: rows_def rows_ok_def)
  have "length (filter (\<lambda>r. sc_InUse r \<and> sc_Software r = software) rows) \<le> 1" for software
  proof -
    let ?f = "filter (\<lambda>r. sc_InUse r \<and> sc_Software r = software) rows"
    have "sc_UUID a = sc_UUID b" if "a \<in> set ?f" "b \<in> set ?f" for a b
      using single_useD [OF ok(2), of a b] that by simp
    then have "\<forall>a \<in> set (map sc_UUID ?f). \<forall>b \<in> set (map sc_UUID ?f). a = b" unfolding set_map by blast
    then have "card (set (map sc_UUID ?f)) \<le> Suc 0" using card_le_Suc0_iff_eq [of "set (map sc_UUID ?f)"] by blast
    moreover have "distinct (map sc_UUID ?f)" using ok(1) by (rule distinct_map_filter)
    ultimately show ?thesis using distinct_card [of "map sc_UUID ?f"] by simp
  qed
  then show ?thesis using ok(1) by (simp add: rows_def [symmetric] Let_def)
qed

theorem one_config_in_use_witness:
  "let ops = [ActivateOp sample_config_call (sample_request ''a'' ''{}''), ActivateOp sample_config_call (sample_request ''b'' ''{}'')];
       rows = cw_rows (snd (fold config_step ops empty_config_state))
   in length rows = 2 \<and> length (filter (\<lambda>r. sc_InUse r \<and> sc_Software r = ''editor'') rows) \<le> 1"
proof -
  let ?ops = "[ActivateOp sample_config_call (sample_request ''a'' ''{}''), ActivateOp sample_config_call (sample_request ''b'' ''{}'')]"
  have "length (cw_rows (snd (fold config_step ?ops empty_config_state))) = 2" by code_simp
  then show ?thesis
    using one_config_in_use [of ?ops empty_config_state] sample_stamp(1) by (simp add: empty_config_state_def Let_def)
qed

text \<open>
  C16. Activating a configuration, whatever the table held before. Success means that the file holds
  the content, the coordinator has committed it under the next version, the table has the row with
  the flag set, every row of that software that is in use has its identifier, and the last
  effective snapshot is the one of this configuration. A failure leaves the committed snapshot, its
  version and the effective snapshots as they were, and the table too, unless the database stage
  failed after the transaction on the table. The database library is assumed to change nothing but
  the time of the last update when it updates a row.
\<close>

theorem activation_effect:
  assumes C: "stamp_ok C" and run: "Config_Activate C req (c, w) = ((c', w'), r)"
  shows "case r of
      Inr cfg \<Rightarrow> cw_files w' (sc_FilePath cfg) = Some (sc_Content cfg) \<and> LastCommittedSnapshot c' = Some (snapshot_of cfg)
        \<and> Version c' = Version c + 1 \<and> (\<exists>t. (activated cfg)\<lparr>sc_UpdatedAt := t\<rparr> \<in> set (cw_rows w'))
        \<and> (\<forall>r \<in> set (cw_rows w'). sc_Software r = sc_Software cfg \<and> sc_InUse r \<longrightarrow> sc_UUID r = sc_UUID cfg)
        \<and> cw_snapshots w' \<noteq> [] \<and> es_ConfigUUID (last (cw_snapshots w')) = sc_UUID cfg
    | Inl e \<Rightarrow> LastCommittedSnapshot c' = LastCommittedSnapshot c \<and> Version c' = Version c \<and> cw_snapshots w' = cw_snapshots w
        \<and> (cw_rows w' = cw_rows w \<or> e \<in> {CommitFailed DBStage, CommitFailed DBStageRollbackFailed} \<and> cl_writeOk C)"
  using run
proof (cases rule: activation_cases)
  case (rejected e)
  then show ?thesis by simp
next
  case (commit cfg c1 w1 r1)
  from commit(2) show ?thesis
  proof (cases rule: commit_cases)
    case (written w2)
    have w2: "cw_files w2 (sc_FilePath cfg) = Some (sc_Content cfg)"
      using written(1) by (auto simp: writeConfigFile_def snapshot_of_def split: if_splits)
    from activate_db_only [OF C written(2)] w2 written(3,4) commit(3-7) show ?thesis
      by (simp add: LastCommittedSnapshot_def Version_def)
  next
    case unwritten
    then show ?thesis using commit(3-7) by (simp add: LastCommittedSnapshot_def Version_def)
  next
    case (undone w2 w3 e)
    have "cw_rows w2 = cw_rows w" "cw_snapshots w2 = cw_snapshots w"
      using undone(1) by (auto simp: writeConfigFile_def split: if_splits)
    with activate_db_fail [OF undone(2) normalized_software [OF commit(1)]] undone(3-8) commit(3-7) show ?thesis
      by (auto simp: LastCommittedSnapshot_def Version_def)
  qed
qed

theorem activation_effect_witness:
  "case Config_Activate sample_config_call (sample_request ''a'' ''{}'') empty_config_state of ((c, w), r) \<Rightarrow>
     r \<noteq> Inl NameRequired \<and> cw_files w ''/home/u/cfg'' = Some ''{}'' \<and> Version c = 1"
proof -
  let ?a = "Config_Activate sample_config_call (sample_request ''a'' ''{}'') empty_config_state"
  obtain c w r where run: "?a = ((c, w), r)" by (metis prod.collapse)
  have "case snd ?a of Inl e \<Rightarrow> False | Inr cfg \<Rightarrow> sc_FilePath cfg = ''/home/u/cfg'' \<and> sc_Content cfg = ''{}''" by code_simp
  then obtain cfg where cfg: "r = Inr cfg" "sc_FilePath cfg = ''/home/u/cfg''" "sc_Content cfg = ''{}''"
    using run by (auto split: sum.splits)
  from activation_effect [OF sample_stamp(1), of "sample_request ''a'' ''{}''" "fst empty_config_state" "snd empty_config_state" c w r] run cfg
  show ?thesis by (simp add: Version_def empty_config_state_def GetEffectiveConfigCommitCoordinator_def)
qed

text \<open>
  C18. A pull settles the differences. When the cloud sends entries with identifiers and times, no
  time on either side lies in the future and the database stamps the rows it updates with the
  current time, then after a pull a comparison with the same batch finds nothing that is only in the
  cloud or newer there. A local row that is not older than the entries of its identifier survives
  with its content, and every entry counts once as inserted, updated or kept.
\<close>

theorem pull_settles:
  assumes now: "stamps_now C (cl_now C)" "not_after (cl_now C) (cw_rows w)" "not_after (cl_now C) batch"
    and batch: "cl_batch C = Some batch" "cl_batch D = Some batch" "complete_entries batch"
    and dist: "distinct (map sc_UUID (cw_rows w))"
    and pull: "PullFromCloud C url (c, w) = ((c', w'), Inr res)"
    and compare: "CompareWithCloud D url' (c', w') = (s, Inr items)"
  shows "fi_Status ` set items \<subseteq> {''same'', ''local_newer'', ''local_only''}
    \<and> InsertedCount res + UpdatedFromCloud res + KeptLocalNewerCnt res = PulledCount res \<and> PulledCount res = length batch
    \<and> (\<forall>l. l \<in> set (cw_rows w) \<longrightarrow> (\<forall>x. x \<in> set batch \<longrightarrow> sc_UUID x = sc_UUID l \<longrightarrow> sc_UpdatedAt x \<le> sc_UpdatedAt l)
         \<longrightarrow> survives l (cw_rows w'))"
proof -
  let ?xs = "complete_batch C 0 batch"
  obtain rows i u k where m: "merge_loop C ?xs (cw_rows w, 0, 0, 0) = (rows, i, u, k)" by (metis prod_cases4)
  have rows: "cw_rows w' = rows" and res: "res = \<lparr>PulledCount = length ?xs, InsertedCount = i, UpdatedFromCloud = u, KeptLocalNewerCnt = k\<rparr>"
    using pull batch(1) m by (auto simp: PullFromCloud_def MergeByLatest_def Let_def split: if_splits)
  note after = not_after_batch [OF batch(3) now(3), of C 0]
  have cov: "distinct (map sc_UUID rows)" "\<And>x. x \<in> set ?xs \<Longrightarrow> covered x rows"
    using merge_loop_covers [OF now(1,2) after dist, of 0 0 0] m by auto
  have same: "(sc_UUID x, sc_UpdatedAt x) \<in> (\<lambda>x. (sc_UUID x, sc_UpdatedAt x)) ` set ?xs" if "x \<in> set (complete_batch D 0 batch)" for x
    using complete_batch_stamps [OF batch(3)] that by (metis (mono_tags, lifting) imageI)
  have status: "fi_Status (remote_item (local_map (newest_first rows)) x) \<in> {''same'', ''local_newer''}"
    if x: "x \<in> set (complete_batch D 0 batch)" for x
  proof -
    obtain y where y: "y \<in> set ?xs" "sc_UUID y = sc_UUID x" "sc_UpdatedAt y = sc_UpdatedAt x" using same [OF x] by auto
    obtain r where r: "r \<in> set rows" "sc_UUID r = sc_UUID x" "sc_UpdatedAt x \<le> sc_UpdatedAt r"
      using cov(2) [OF y(1)] y(2,3) unfolding covered_def by auto
    then show ?thesis using local_map_row [OF cov(1) r(1)] by (simp add: remote_item_def)
  qed
  have items: "items = map (remote_item (local_map (newest_first rows))) (complete_batch D 0 batch)
      @ map local_item (filter (\<lambda>l. sc_UUID l \<notin> sc_UUID ` set (complete_batch D 0 batch)) (newest_first rows))"
    using compare batch(2) rows
    by (auto simp: CompareWithCloud_def Store_List_def fetchCloudBatch_def Let_def split: if_splits option.splits)
  have "fi_Status ` set items \<subseteq> {''same'', ''local_newer'', ''local_only''}"
    using status by (auto simp: items local_item_def)
  moreover have "i + u + k = length ?xs" using merge_total [where C = C and xs = ?xs and rows = "cw_rows w" and i = 0 and u = 0 and k = 0] m by simp
  moreover have "survives l rows" if "l \<in> set (cw_rows w)" "\<And>x. x \<in> set batch \<Longrightarrow> sc_UUID x = sc_UUID l \<Longrightarrow> sc_UpdatedAt x \<le> sc_UpdatedAt l" for l
  proof -
    have "sc_UpdatedAt x \<le> sc_UpdatedAt l" if x: "x \<in> set ?xs" "sc_UUID x = sc_UUID l" for x
    proof -
      have "(sc_UUID x, sc_UpdatedAt x) \<in> (\<lambda>x. (sc_UUID x, sc_UpdatedAt x)) ` set batch"
        using complete_batch_stamps [OF batch(3)] x(1) by (metis (mono_tags, lifting) imageI)
      then show ?thesis using \<open>\<And>x. x \<in> set batch \<Longrightarrow> sc_UUID x = sc_UUID l \<Longrightarrow> sc_UpdatedAt x \<le> sc_UpdatedAt l\<close> x(2) by auto
    qed
    then show ?thesis using merge_loop_survives [OF now(1,2) after dist that(1), of 0 0 0] m by simp
  qed
  ultimately show ?thesis unfolding rows res by (simp add: length_complete_batch)
qed

theorem pull_settles_witness:
  "let C = sample_config_call\<lparr>cl_batch := Some [sample_entry ''a'' 5, sample_entry ''b'' 7]\<rparr>;
       w = (snd empty_config_state)\<lparr>cw_rows := [sample_entry ''a'' 3]\<rparr>;
       s = fst (PullFromCloud C ''http://cloud'' (fst empty_config_state, w))
   in case snd (CompareWithCloud C ''http://cloud'' s) of Inl e \<Rightarrow> False
      | Inr items \<Rightarrow> length items = 2 \<and> fi_Status ` set items \<subseteq> {''same'', ''local_newer'', ''local_only''}"
proof -
  let ?C = "sample_config_call\<lparr>cl_batch := Some [sample_entry ''a'' 5, sample_entry ''b'' 7]\<rparr>"
  let ?w = "(snd empty_config_state)\<lparr>cw_rows := [sample_entry ''a'' 3]\<rparr>"
  let ?p = "PullFromCloud ?C ''http://cloud'' (fst empty_config_state, ?w)"
  let ?q = "CompareWithCloud ?C ''http://cloud'' (fst ?p)"
  have ok: "\<not> isl (snd ?p)" "\<not> isl (snd ?q)" "length (projr (snd ?q)) = 2" by code_simp+
  have pull: "?p = ((fst (fst ?p), snd (fst ?p)), Inr (projr (snd ?p)))" using ok(1) by (metis prod.collapse sum.collapse(2))
  have cmp: "CompareWithCloud ?C ''http://cloud'' (fst (fst ?p), snd (fst ?p)) = (fst ?q, Inr (projr (snd ?q)))"
    using ok(2) by (metis prod.collapse sum.collapse(2))
  have now: "stamps_now ?C (cl_now ?C)" using sample_stamp(2) by (simp add: stamps_now_def sample_config_call_def)
  have "not_after (cl_now ?C) (cw_rows ?w)" "not_after (cl_now ?C) [sample_entry ''a'' 5, sample_entry ''b'' 7]"
    "complete_entries [sample_entry ''a'' 5, sample_entry ''b'' 7]" "distinct (map sc_UUID (cw_rows ?w))"
    by code_simp+
  from pull_settles [OF now this(1,2) _ _ this(3,4) pull cmp] have
    "fi_Status ` set (projr (snd ?q)) \<subseteq> {''same'', ''local_newer'', ''local_only''}" by simp
  with ok(2,3) show ?thesis unfolding Let_def by (cases "snd ?q") simp_all
qed

section \<open>What goes wrong\<close>

text \<open>
  A save that asks for the flag does not clear it elsewhere: two configurations of one software are
  then in use.
\<close>

lemma save_leaves_two_in_use:
  assumes "r \<in> set (cw_rows w)" "sc_InUse r" "sc_InUse c" "sc_Software r = sc_Software c" "sc_UUID r \<noteq> sc_UUID c" "cl_writeOk C" "stamp_ok C"
  shows "\<not> rows_ok (cw_rows (fst (Store_Upsert C c w)))"
proof
  assume ok: "rows_ok (cw_rows (fst (Store_Upsert C c w)))"
  obtain t where t: "c\<lparr>sc_UpdatedAt := t\<rparr> \<in> set (db_save C c (cw_rows w))" using save_row [OF assms(7)] by metis
  have "single_use (set (db_save C c (cw_rows w)))" using ok assms(6) by (simp add: Store_Upsert_def rows_ok_def)
  from single_useD [OF this save_keeps [OF assms(1,5)] t] show False using assms(2-5) by simp
qed

text \<open>
  An activation that fails behind its transaction, for one because the content is valid JSON but
  not an object, leaves the failed configuration marked as in use while the file is rolled back.
\<close>

lemma failed_activation_marks_config:
  "case Config_Activate sample_config_call (sample_request ''a'' ''[]'') empty_config_state of ((c, w), r) \<Rightarrow>
     r = Inl (CommitFailed DBStage) \<and> cw_files w ''/home/u/cfg'' = None \<and> map sc_InUse (cw_rows w) = [True]"
proof -
  let ?a = "Config_Activate sample_config_call (sample_request ''a'' ''[]'') empty_config_state"
  have "snd ?a = Inl (CommitFailed DBStage)" "cw_files (snd (fst ?a)) ''/home/u/cfg'' = None"
      "map sc_InUse (cw_rows (snd (fst ?a))) = [True]"
    by code_simp+
  then show ?thesis by (simp add: case_prod_unfold)
qed

text \<open>The row written by an activation has the selection cleared, whatever it was before.\<close>

lemma activation_deselects:
  assumes "stamp_ok C" "rows_ok (cw_rows w)" "activate_db C cfg (snapshot_of cfg) w = (w', True)"
  shows "\<exists>r \<in> set (cw_rows w'). sc_UUID r = sc_UUID cfg \<and> \<not> sc_Selected r"
proof -
  obtain t where "(activated cfg)\<lparr>sc_UpdatedAt := t\<rparr> \<in> set (cw_rows w')" using activate_db_ok [OF assms] by blast
  then show ?thesis by (intro bexI [of _ "(activated cfg)\<lparr>sc_UpdatedAt := t\<rparr>"]) (simp_all add: activated_def)
qed

end
