(* ===== verification/Relay.thy ===== *)
theory Relay
  imports Metadata "HOL-Library.Sublist"
begin

text \<open>
  The relay of a connection, \<^verbatim>\<open>src/processor/tcp/relay.go\<close>: two goroutines copy between the client and
  the server, count and capture what they copy, and tear the connections down. A stream is the list of
  the results its reads give, with the time of each; the end of the list is a read that never returns.
  \<^verbatim>\<open>io.CopyBuffer\<close> is written out over the counting writer. The completion tracker, which both
  goroutines use, is a step relation over its atomic accesses.
\<close>

section \<open>Predicates\<close>

definition safeRoute :: "Metadata option \<Rightarrow> string" where
  "safeRoute metadata = (case metadata of None \<Rightarrow> [] | Some m \<Rightarrow> md_Route m)"

definition safeHost :: "Metadata option \<Rightarrow> string" where
  "safeHost metadata = (case metadata of None \<Rightarrow> [] | Some m \<Rightarrow> md_HostName m)"

definition shouldUseConservativeTeardown :: "Metadata option \<Rightarrow> bool" where
  "shouldUseConservativeTeardown metadata = (case metadata of None \<Rightarrow> False | Some m \<Rightarrow> md_Route m = ''RouteDirect'')"

definition shouldUseTrackedTeardownForGOOS :: "string \<Rightarrow> Metadata option \<Rightarrow> bool" where
  "shouldUseTrackedTeardownForGOOS goos metadata =
     (case metadata of None \<Rightarrow> False
      | Some m \<Rightarrow> goos = ''windows'' \<and> HasPrefix (TrimSpace (md_ConnID m)) ''tun-'')"

text \<open>An error of a connection: its text and whether it is a timeout.\<close>

datatype io_error = EOF | IOError string bool

fun error_text :: "io_error \<Rightarrow> string" where
  "error_text EOF = ''EOF''"
| "error_text (IOError t _) = t"

definition isUnexpectedConnectionReset :: "io_error option \<Rightarrow> bool" where
  "isUnexpectedConnectionReset err = (case err of None \<Rightarrow> False
     | Some e \<Rightarrow> Contains (error_text e) ''reset'' \<or> Contains (error_text e) ''connection reset''
                 \<or> Contains (error_text e) ''ECONNRESET'')"

definition isTimeoutError :: "io_error option \<Rightarrow> bool" where
  "isTimeoutError err = (case err of Some (IOError _ timeout) \<Rightarrow> timeout | _ \<Rightarrow> False)"

definition isConnectionClosedByPeer :: "io_error option \<Rightarrow> bool" where
  "isConnectionClosedByPeer err = (case err of None \<Rightarrow> False
     | Some e \<Rightarrow> Contains (error_text e) ''closed'' \<or> Contains (error_text e) ''broken pipe'' \<or> Contains (error_text e) ''EPIPE'')"

definition isTLSBadRecordMAC :: "io_error option \<Rightarrow> bool" where
  "isTLSBadRecordMAC err = (case err of None \<Rightarrow> False | Some e \<Rightarrow> Contains (ToLower (error_text e)) ''bad record mac'')"

section \<open>Capture and counting\<close>

record payloadCaptureBuffer =
  pc_buf :: "byte list"
  pc_limit :: nat

definition newPayloadCaptureBuffer :: "int \<Rightarrow> payloadCaptureBuffer" where
  "newPayloadCaptureBuffer limit = \<lparr>pc_buf = [], pc_limit = (if limit \<le> 0 then 128 * 1024 else nat limit)\<rparr>"

definition Capture_Write :: "byte list \<Rightarrow> payloadCaptureBuffer \<Rightarrow> payloadCaptureBuffer" where
  "Capture_Write data p =
     (if data = [] then p
      else
        let remaining = int (pc_limit p) - int (length (pc_buf p)) in
        if remaining \<le> 0 then p
        else
          let data' = (if int (length data) > remaining then take (nat remaining) data else data)
          in p\<lparr>pc_buf := pc_buf p @ data'\<rparr>)"

definition Capture_Bytes :: "payloadCaptureBuffer \<Rightarrow> byte list" where
  "Capture_Bytes p = pc_buf p"

text \<open>
  A read of the source; a write to the destination takes at most so many bytes and may report an
  error. \<open>kw_onFirst\<close> says whether the first-data callback is still to be called, \<open>kw_first\<close> when it
  was.
\<close>

record stream_read =
  sr_data :: "byte list"
  sr_err :: "io_error option"
  sr_at :: time

record write_result =
  wr_max :: nat
  wr_err :: "io_error option"

record countingWriter =
  kw_capture :: "payloadCaptureBuffer option"
  kw_onFirst :: bool
  kw_first :: "time option"
  kw_written :: "64 word"

definition Counting_Write :: "time \<Rightarrow> byte list \<Rightarrow> write_result \<Rightarrow> countingWriter \<Rightarrow> countingWriter \<times> nat \<times> io_error option" where
  "Counting_Write now p x w =
     (let w1 = (if kw_onFirst w \<and> p \<noteq> [] then w\<lparr>kw_first := Some now, kw_onFirst := False\<rparr> else w);
          w2 = (if p \<noteq> [] then w1\<lparr>kw_capture := map_option (Capture_Write p) (kw_capture w1)\<rparr> else w1);
          n = min (wr_max x) (length p);
          w3 = (if n > 0 then w2\<lparr>kw_written := kw_written w2 + of_nat n\<rparr> else w2)
      in (w3, n, wr_err x))"

section \<open>Copying\<close>

definition ErrShortWrite :: io_error where
  "ErrShortWrite = IOError ''short write'' False"

text \<open>
  \<^verbatim>\<open>io.CopyBuffer\<close>: the writer at the end, what the destination has received and the error;
  \<^const>\<open>None\<close> when a read or a write never returns.
\<close>

fun copy_loop :: "stream_read list \<Rightarrow> write_result list \<Rightarrow> countingWriter \<Rightarrow> byte list
    \<Rightarrow> (countingWriter \<times> byte list \<times> io_error option) option" where
  "copy_loop [] ws w out = None"
| "copy_loop (r # rs) ws w out =
     (if sr_data r = [] then
        (case sr_err r of None \<Rightarrow> copy_loop rs ws w out
         | Some e \<Rightarrow> Some (w, out, if e = EOF then None else Some e))
      else (case ws of [] \<Rightarrow> None
      | x # ws' \<Rightarrow>
          (case Counting_Write (sr_at r) (sr_data r) x w of (w1, n, ew) \<Rightarrow>
             let out1 = out @ take n (sr_data r) in
             (case ew of Some e \<Rightarrow> Some (w1, out1, Some e)
              | None \<Rightarrow>
                  if n \<noteq> length (sr_data r) then Some (w1, out1, Some ErrShortWrite)
                  else (case sr_err r of None \<Rightarrow> copy_loop rs ws' w1 out1
                        | Some e \<Rightarrow> Some (w1, out1, if e = EOF then None else Some e))))))"

text \<open>What a goroutine does to the connections after its copy has ended.\<close>

datatype teardown = MarkDone | CloseRead | CloseWrite | SetReadDeadline

definition stream_teardown :: "bool \<Rightarrow> Metadata option \<Rightarrow> bool \<Rightarrow> bool \<Rightarrow> teardown list" where
  "stream_teardown tracked metadata srcCanCloseRead dstCanCloseWrite =
     (if tracked then [MarkDone]
      else if shouldUseConservativeTeardown metadata then []
      else (if srcCanCloseRead then [CloseRead] else []) @ (if dstCanCloseWrite then [CloseWrite] else []) @ [SetReadDeadline])"

datatype severity = Debug | Warn

definition relay_severity :: "io_error option \<Rightarrow> severity" where
  "relay_severity err =
     (if err = None \<or> err = Some EOF then Debug
      else if isTLSBadRecordMAC err then Warn
      else if isUnexpectedConnectionReset err then Warn
      else if isTimeoutError err then Debug
      else if isConnectionClosedByPeer err then Debug
      else Warn)"

record stream_end =
  se_writer :: countingWriter
  se_out :: "byte list"
  se_err :: "io_error option"
  se_severity :: severity
  se_teardown :: "teardown list"

definition relayStream :: "stream_read list \<Rightarrow> write_result list \<Rightarrow> bool \<Rightarrow> bool \<Rightarrow> Metadata option \<Rightarrow> bool \<Rightarrow> bool
    \<Rightarrow> stream_end option" where
  "relayStream reads writes first tracked metadata canRead canWrite =
     (case copy_loop reads writes
         \<lparr>kw_capture = Some (newPayloadCaptureBuffer (128 * 1024)), kw_onFirst = first, kw_first = None, kw_written = 0\<rparr> [] of
        None \<Rightarrow> None
      | Some (w, out, err) \<Rightarrow> Some \<lparr>se_writer = w, se_out = out, se_err = err, se_severity = relay_severity err,
          se_teardown = stream_teardown tracked metadata canRead canWrite\<rparr>)"

record RelayStats =
  rt_StartedAt :: time
  rt_FirstResponseAt :: time
  rt_CompletedAt :: time
  rt_ClientToServerByte :: "64 word"
  rt_ServerToClientByte :: "64 word"
  rt_RequestPayload :: "byte list"
  rt_ResponsePayload :: "byte list"

definition captured :: "countingWriter \<Rightarrow> byte list" where
  "captured w = (case kw_capture w of None \<Rightarrow> [] | Some p \<Rightarrow> Capture_Bytes p)"

text \<open>
  The relay returns when both directions have; their reads and writes are independent. A connection
  comes with what it can do: close its reading side and its writing side.
\<close>

definition Relay :: "string \<Rightarrow> Metadata option \<Rightarrow> bool \<times> bool \<Rightarrow> bool \<times> bool \<Rightarrow> time \<Rightarrow> time \<Rightarrow> stream_read list \<Rightarrow> write_result list
    \<Rightarrow> stream_read list \<Rightarrow> write_result list \<Rightarrow> (RelayStats \<times> stream_end \<times> stream_end) option" where
  "Relay goos metadata origin remote started completed fromClient toServer fromServer toClient =
     (let tracked = shouldUseTrackedTeardownForGOOS goos metadata in
      case relayStream fromClient toServer False tracked metadata (fst origin) (snd remote) of None \<Rightarrow> None
      | Some up \<Rightarrow>
          (case relayStream fromServer toClient True tracked metadata (fst remote) (snd origin) of None \<Rightarrow> None
           | Some down \<Rightarrow>
               Some (\<lparr>rt_StartedAt = started,
                      rt_FirstResponseAt = (case kw_first (se_writer down) of Some t \<Rightarrow> if t > 0 then t else 0 | None \<Rightarrow> 0),
                      rt_CompletedAt = completed, rt_ClientToServerByte = kw_written (se_writer up),
                      rt_ServerToClientByte = kw_written (se_writer down), rt_RequestPayload = captured (se_writer up),
                      rt_ResponsePayload = captured (se_writer down)\<rparr>, up, down)))"

section \<open>The completion tracker\<close>

datatype direction = ClientToServer | ServerToClient

text \<open>
  Where a goroutine is: still copying, its flag stored, the first flag loaded as true, about to close,
  or done. \<open>tk_closes\<close> counts the executions of the closing function, \<open>tk_once\<close> is the state of the
  \<^verbatim>\<open>sync.Once\<close>.
\<close>

datatype phase = Copying | Stored | Loaded | Closing | Finished

record relayCompletionTracker =
  tk_clientToServerDone :: bool
  tk_serverToClientDone :: bool
  tk_once :: bool
  tk_closes :: nat
  tk_phase :: "direction \<Rightarrow> phase"

definition newRelayCompletionTracker :: relayCompletionTracker where
  "newRelayCompletionTracker = \<lparr>tk_clientToServerDone = False, tk_serverToClientDone = False, tk_once = False,
     tk_closes = 0, tk_phase = (\<lambda>_. Copying)\<rparr>"

definition at_phase :: "direction \<Rightarrow> phase \<Rightarrow> relayCompletionTracker \<Rightarrow> relayCompletionTracker" where
  "at_phase d p t = t\<lparr>tk_phase := (tk_phase t)(d := p)\<rparr>"

inductive markDone :: "direction \<Rightarrow> relayCompletionTracker \<Rightarrow> relayCompletionTracker \<Rightarrow> bool" where
  store: "tk_phase t d = Copying \<Longrightarrow>
    markDone d t (at_phase d Stored (if d = ClientToServer then t\<lparr>tk_clientToServerDone := True\<rparr> else t\<lparr>tk_serverToClientDone := True\<rparr>))"
| load_first: "tk_phase t d = Stored \<Longrightarrow> markDone d t (at_phase d (if tk_clientToServerDone t then Loaded else Finished) t)"
| load_second: "tk_phase t d = Loaded \<Longrightarrow> markDone d t (at_phase d (if tk_serverToClientDone t then Closing else Finished) t)"
| close: "tk_phase t d = Closing \<Longrightarrow>
    markDone d t (at_phase d Finished (if tk_once t then t else t\<lparr>tk_once := True, tk_closes := tk_closes t + 1\<rparr>))"

inductive tracker_reach :: "relayCompletionTracker \<Rightarrow> bool" where
  start: "tracker_reach newRelayCompletionTracker"
| step: "tracker_reach t \<Longrightarrow> markDone d t t' \<Longrightarrow> tracker_reach t'"

inductive_cases markDoneE: "markDone d t t'"

section \<open>What a stream delivers\<close>

lemma capture_write:
  assumes "pc_buf p = take (pc_limit p) att"
  shows "pc_buf (Capture_Write d p) = take (pc_limit p) (att @ d)" "pc_limit (Capture_Write d p) = pc_limit p"
proof -
  show "pc_buf (Capture_Write d p) = take (pc_limit p) (att @ d)"
  proof (cases "length att < pc_limit p")
    case True
    have "nat (int (pc_limit p) - int (length att)) = pc_limit p - length att" by simp
    then show ?thesis using assms True by (auto simp: Capture_Write_def Let_def)
  next
    case False
    then show ?thesis using assms by (auto simp: Capture_Write_def Let_def min_def)
  qed
qed (simp add: Capture_Write_def Let_def)

text \<open>The reads up to the first one that reports an error, that one included.\<close>

fun until_end :: "stream_read list \<Rightarrow> stream_read list" where
  "until_end [] = []"
| "until_end (r # rs) = (if sr_err r = None then r # until_end rs else [r])"

definition stream_data :: "stream_read list \<Rightarrow> byte list" where
  "stream_data rs = concat (map sr_data (until_end rs))"

definition first_data_at :: "stream_read list \<Rightarrow> time option" where
  "first_data_at rs = (case filter (\<lambda>r. sr_data r \<noteq> []) (until_end rs) of [] \<Rightarrow> None | r # _ \<Rightarrow> Some (sr_at r))"

lemma stream_data_Cons: "stream_data (r # rs) = sr_data r @ (if sr_err r = None then stream_data rs else [])"
  by (simp add: stream_data_def)

lemma first_data_Cons:
  "first_data_at (r # rs) = (if sr_data r \<noteq> [] then Some (sr_at r) else if sr_err r = None then first_data_at rs else None)"
  by (simp add: first_data_at_def)

lemma counting_write:
  assumes "Counting_Write now d x w = (w1, n, ew)" "d \<noteq> []" "kw_capture w = Some p"
  shows "n = min (wr_max x) (length d)" "ew = wr_err x" "kw_written w1 = kw_written w + of_nat n"
    "kw_capture w1 = Some (Capture_Write d p)" "kw_onFirst w1 = False"
    "kw_first w1 = (if kw_onFirst w then Some now else kw_first w)"
  using assms by (auto simp: Counting_Write_def Let_def split: if_splits)

definition delivers :: "stream_read list \<Rightarrow> byte list \<Rightarrow> countingWriter \<Rightarrow> payloadCaptureBuffer \<Rightarrow> countingWriter \<times> byte list \<times> io_error option \<Rightarrow> bool" where
  "delivers rs out w p res \<longleftrightarrow>
     (case res of (w', out', err) \<Rightarrow> \<exists>d p' att.
        out' = out @ d \<and> prefix d (stream_data rs) \<and> (err = None \<longrightarrow> d = stream_data rs)
      \<and> kw_written w' = kw_written w + of_nat (length d)
      \<and> kw_capture w' = Some p' \<and> pc_limit p' = pc_limit p \<and> pc_buf p' = take (pc_limit p) att
      \<and> prefix out' att \<and> prefix att (out @ stream_data rs)
      \<and> (kw_onFirst w \<longrightarrow> kw_first w = None \<longrightarrow> kw_first w' = first_data_at rs)
      \<and> (\<not> kw_onFirst w \<longrightarrow> kw_first w' = kw_first w))"

lemma deliversI:
  assumes "prefix d (stream_data rs)" "err = None \<Longrightarrow> d = stream_data rs" "kw_written w' = kw_written w + of_nat (length d)"
    "kw_capture w' = Some p'" "pc_limit p' = pc_limit p" "pc_buf p' = take (pc_limit p) (out @ a)"
    "prefix d a" "prefix a (stream_data rs)" "kw_onFirst w \<Longrightarrow> kw_first w = None \<Longrightarrow> kw_first w' = first_data_at rs"
    "\<not> kw_onFirst w \<Longrightarrow> kw_first w' = kw_first w"
  shows "delivers rs out w p (w', out @ d, err)"
  unfolding delivers_def prod.case
  by (rule exI [of _ d], rule exI [of _ p'], rule exI [of _ "out @ a"]) (use assms in simp)

lemma copy_delivers:
  assumes "copy_loop rs ws w out = Some res" "kw_capture w = Some p" "pc_buf p = take (pc_limit p) out"
  shows "delivers rs out w p res"
  using assms
proof (induction rs arbitrary: ws w out p)
  case (Cons r rs)
  note cap = Cons.prems(2,3)
  show ?case
  proof (cases "sr_data r = []")
    case True
    show ?thesis
    proof (cases "sr_err r")
      case None
      then have "delivers rs out w p res" using Cons.IH [OF _ cap] Cons.prems(1) True by simp
      then show ?thesis using True None by (simp add: delivers_def stream_data_Cons first_data_Cons split: prod.splits)
    next
      case (Some e)
      then show ?thesis using Cons.prems(1) True cap
        by (auto simp: delivers_def stream_data_Cons first_data_Cons)
    qed
  next
    case False
    obtain x ws' where ws: "ws = x # ws'" using Cons.prems(1) False by (cases ws) auto
    obtain w1 n ew where c: "Counting_Write (sr_at r) (sr_data r) x w = (w1, n, ew)" by (metis prod_cases3)
    note W = counting_write [OF c False cap(1)]
    let ?p = "Capture_Write (sr_data r) p"
    have p1: "pc_buf ?p = take (pc_limit p) (out @ sr_data r)" "pc_limit ?p = pc_limit p"
      using capture_write [OF cap(2)] by simp_all
    have n: "n \<le> length (sr_data r)" using W(1) by simp
    let ?stop = "ew \<noteq> None \<or> n \<noteq> length (sr_data r) \<or> sr_err r \<noteq> None"
    show ?thesis
    proof (cases ?stop)
      case True
      then obtain err where res: "res = (w1, out @ take n (sr_data r), err)" "err = None \<longrightarrow> n = length (sr_data r) \<and> sr_err r \<noteq> None"
        using Cons.prems(1) False ws c by (auto simp: Let_def split: option.splits if_splits)
      have "n = length (sr_data r) \<and> sr_err r \<noteq> None" if "err = None" using res(2) that by blast
      then show ?thesis unfolding res(1) using W p1 n False
        by (intro deliversI [where a = "sr_data r"]) (auto simp: stream_data_Cons first_data_Cons min_absorb2 take_is_prefix intro: prefix_order.trans)
    next
      case no: False
      then have "copy_loop rs ws' w1 (out @ sr_data r) = Some res" using Cons.prems(1) False ws c by (auto simp: Let_def split: option.splits if_splits)
      from Cons.IH [OF this W(4)] p1 have D: "delivers rs (out @ sr_data r) w1 ?p res" by simp
      obtain w' out' err where res: "res = (w', out', err)" by (metis prod_cases3)
      from D obtain d p' att where d: "out' = (out @ sr_data r) @ d" "prefix d (stream_data rs)" "err = None \<longrightarrow> d = stream_data rs"
          "kw_written w' = kw_written w1 + of_nat (length d)" "kw_capture w' = Some p'" "pc_limit p' = pc_limit ?p"
          "pc_buf p' = take (pc_limit ?p) att" "prefix out' att" "prefix att ((out @ sr_data r) @ stream_data rs)"
          "\<not> kw_onFirst w1 \<longrightarrow> kw_first w' = kw_first w1"
        unfolding delivers_def res by auto
      have out: "out' = out @ (sr_data r @ d)" and n_all: "n = length (sr_data r)" and err_r: "sr_err r = None" using d(1) no by simp_all
      obtain a where a: "att = out @ a" using d(8) unfolding out by (metis append.assoc prefix_def)
      show ?thesis unfolding res out using d no W p1 False
        by (intro deliversI [where a = a]) (auto simp: stream_data_Cons first_data_Cons n_all err_r out a)
    qed
  qed
qed simp

lemma copy_returns: "list_ex (\<lambda>r. sr_err r \<noteq> None) rs \<Longrightarrow> length rs \<le> length ws \<Longrightarrow> \<exists>res. copy_loop rs ws w out = Some res"
proof (induction rs arbitrary: ws w out)
  case (Cons r rs)
  show ?case
  proof (cases "sr_data r = []")
    case True
    then show ?thesis using Cons by (cases "sr_err r") auto
  next
    case False
    obtain x ws' where ws: "ws = x # ws'" using Cons.prems(2) by (cases ws) auto
    obtain w1 n ew where c: "Counting_Write (sr_at r) (sr_data r) x w = (w1, n, ew)" by (metis prod_cases3)
    show ?thesis
    proof (cases "sr_err r")
      case None
      then have "\<exists>res. copy_loop rs ws' w1 (out @ take n (sr_data r)) = Some res" using Cons.prems ws by (intro Cons.IH) simp_all
      then show ?thesis using False ws c None by (auto simp: Let_def split: option.splits)
    next
      case (Some e)
      then show ?thesis using False ws c by (auto simp: Let_def split: option.splits)
    qed
  qed
qed simp

definition stream_exact :: "stream_read list \<Rightarrow> stream_end \<Rightarrow> bool" where
  "stream_exact rs e \<longleftrightarrow> prefix (se_out e) (stream_data rs) \<and> (se_err e = None \<longrightarrow> se_out e = stream_data rs)
     \<and> kw_written (se_writer e) = of_nat (length (se_out e))
     \<and> (\<exists>a. prefix (se_out e) a \<and> prefix a (stream_data rs) \<and> captured (se_writer e) = take (128 * 1024) a)"

lemma relay_stream_exact:
  assumes "list_ex (\<lambda>r. sr_err r \<noteq> None) rs" "length rs \<le> length ws"
  shows "\<exists>e. relayStream rs ws first tracked m cr cw = Some e \<and> stream_exact rs e
    \<and> kw_first (se_writer e) = (if first then first_data_at rs else None) \<and> se_teardown e = stream_teardown tracked m cr cw"
proof -
  let ?w = "\<lparr>kw_capture = Some (newPayloadCaptureBuffer (128 * 1024)), kw_onFirst = first, kw_first = None, kw_written = 0\<rparr>"
  obtain w out err where c: "copy_loop rs ws ?w [] = Some (w, out, err)" using copy_returns [OF assms] by (metis prod_cases3)
  have "delivers rs [] ?w (newPayloadCaptureBuffer (128 * 1024)) (w, out, err)"
    by (rule copy_delivers [OF c]) (simp_all add: newPayloadCaptureBuffer_def)
  then show ?thesis unfolding relayStream_def c
    by (auto simp: delivers_def stream_exact_def captured_def Capture_Bytes_def newPayloadCaptureBuffer_def)
qed

section \<open>The completion tracker closes once\<close>

definition tracker_inv :: "relayCompletionTracker \<Rightarrow> bool" where
  "tracker_inv t \<longleftrightarrow> (tk_clientToServerDone t \<longleftrightarrow> tk_phase t ClientToServer \<noteq> Copying)
     \<and> (tk_serverToClientDone t \<longleftrightarrow> tk_phase t ServerToClient \<noteq> Copying)
     \<and> (tk_closes t = (if tk_once t then 1 else 0))
     \<and> (\<forall>d. tk_phase t d = Loaded \<longrightarrow> tk_clientToServerDone t)
     \<and> ((tk_once t \<or> (\<exists>d. tk_phase t d = Closing)) \<longrightarrow> tk_clientToServerDone t \<and> tk_serverToClientDone t)
     \<and> (tk_clientToServerDone t \<and> tk_serverToClientDone t \<and> \<not> tk_once t \<longrightarrow> (\<exists>d. tk_phase t d \<in> {Stored, Loaded, Closing}))"

lemma all_directions: "(\<forall>d. P d) \<longleftrightarrow> P ClientToServer \<and> P ServerToClient"
  by (metis direction.exhaust)

lemma some_direction: "(\<exists>d. P d) \<longleftrightarrow> P ClientToServer \<or> P ServerToClient"
  by (metis direction.exhaust)

lemma tracker_step: "markDone d t t' \<Longrightarrow> tracker_inv t \<Longrightarrow> tracker_inv t'"
proof (induction rule: markDone.induct)
  case (store t d)
  then show ?case
    by (cases d) (simp_all add: tracker_inv_def at_phase_def all_directions some_direction, blast+)
next
  case (load_first t d)
  then show ?case
    by (cases d; cases "tk_clientToServerDone t") (simp_all add: tracker_inv_def at_phase_def all_directions some_direction)
next
  case (load_second t d)
  then show ?case
    by (cases d; cases "tk_serverToClientDone t") (simp_all add: tracker_inv_def at_phase_def all_directions some_direction)
next
  case (close t d)
  then show ?case
    by (cases d; cases "tk_once t") (simp_all add: tracker_inv_def at_phase_def all_directions some_direction)
qed

lemma tracker_reach_inv: "tracker_reach t \<Longrightarrow> tracker_inv t"
proof (induction rule: tracker_reach.induct)
  case start
  show ?case by (simp add: tracker_inv_def newRelayCompletionTracker_def)
next
  case (step t d t')
  then show ?case using tracker_step by blast
qed

section \<open>Properties\<close>

text \<open>
  C28. The relay is exact and returns. When each side ends at some point, with an end of file or an
  error, and the writes return, the relay returns; in each direction the receiver has got a prefix of
  what the sender sent, all of it if the copy ended without an error; the byte counters are the
  lengths of what was delivered (modulo their width); the captured payload is the first 128 KiB of
  what was delivered or attempted; and the time of the first response is that of the first data the
  server sent.
\<close>

theorem relay_exact:
  assumes "list_ex (\<lambda>r. sr_err r \<noteq> None) fromClient" "list_ex (\<lambda>r. sr_err r \<noteq> None) fromServer"
    and "length fromClient \<le> length toServer" "length fromServer \<le> length toClient"
  shows "\<exists>st up down. Relay goos m origin remote started completed fromClient toServer fromServer toClient = Some (st, up, down)
    \<and> stream_exact fromClient up \<and> stream_exact fromServer down
    \<and> rt_ClientToServerByte st = of_nat (length (se_out up)) \<and> rt_ServerToClientByte st = of_nat (length (se_out down))
    \<and> rt_RequestPayload st = captured (se_writer up) \<and> rt_ResponsePayload st = captured (se_writer down)
    \<and> rt_FirstResponseAt st = (case first_data_at fromServer of Some t \<Rightarrow> max t 0 | None \<Rightarrow> 0)"
proof -
  let ?t = "shouldUseTrackedTeardownForGOOS goos m"
  obtain up where up: "relayStream fromClient toServer False ?t m (fst origin) (snd remote) = Some up" "stream_exact fromClient up"
    using relay_stream_exact [OF assms(1,3)] by blast
  obtain down where down: "relayStream fromServer toClient True ?t m (fst remote) (snd origin) = Some down" "stream_exact fromServer down"
      "kw_first (se_writer down) = first_data_at fromServer"
    using relay_stream_exact [OF assms(2,4), of True ?t m "fst remote" "snd origin"] by auto
  have "kw_written (se_writer up) = of_nat (length (se_out up))" "kw_written (se_writer down) = of_nat (length (se_out down))"
    using up(2) down(2) by (simp_all add: stream_exact_def)
  then show ?thesis using up down by (auto simp: Relay_def Let_def max_def split: option.splits)
qed

definition sample_read :: "byte list \<Rightarrow> io_error option \<Rightarrow> time \<Rightarrow> stream_read" where
  "sample_read d e t = \<lparr>sr_data = d, sr_err = e, sr_at = t\<rparr>"

definition accept_all :: write_result where
  "accept_all = \<lparr>wr_max = 9, wr_err = None\<rparr>"

theorem relay_exact_witness:
  "\<exists>st up down. Relay ''linux'' None (True, True) (True, True) 1 9
      [sample_read [1, 2] None 2, sample_read [3] (Some EOF) 3] [accept_all, accept_all]
      [sample_read [] None 4, sample_read [7] (Some EOF) 5] [accept_all, accept_all] = Some (st, up, down)
    \<and> rt_FirstResponseAt st = 5 \<and> prefix (se_out up) [1, 2, 3]"
proof -
  let ?c = "[sample_read [1, 2] None 2, sample_read [3] (Some EOF) 3]"
  let ?s = "[sample_read [] None 4, sample_read [7] (Some EOF) 5]"
  let ?w = "[accept_all, accept_all]"
  have d: "stream_data ?c = [1, 2, 3]" "first_data_at ?s = Some 5"
    by (simp_all add: stream_data_def first_data_at_def sample_read_def)
  have "list_ex (\<lambda>r. sr_err r \<noteq> None) ?c" "list_ex (\<lambda>r. sr_err r \<noteq> None) ?s" by (simp_all add: sample_read_def)
  from relay_exact [OF this, of ?w ?w "''linux''" None "(True, True)" "(True, True)" 1 9]
  obtain st up down where "Relay ''linux'' None (True, True) (True, True) 1 9 ?c ?w ?s ?w = Some (st, up, down)"
      "stream_exact ?c up" "rt_FirstResponseAt st = (case first_data_at ?s of Some t \<Rightarrow> max t 0 | None \<Rightarrow> 0)"
    by auto
  then show ?thesis using d unfolding stream_exact_def by auto
qed

text \<open>
  C29. The tracked teardown closes the connections exactly once and never early: in every interleaving
  of the atomic accesses of the two goroutines, the closing function runs at most once, only after both
  directions have ended, and it has run when both goroutines are done; as long as one is not done it
  can make a step.
\<close>

theorem teardown_closes_once:
  assumes "tracker_reach t"
  shows "tk_closes t \<le> 1
    \<and> (tk_closes t = 1 \<longrightarrow> tk_phase t ClientToServer \<noteq> Copying \<and> tk_phase t ServerToClient \<noteq> Copying)
    \<and> (tk_phase t ClientToServer = Finished \<and> tk_phase t ServerToClient = Finished \<longrightarrow> tk_closes t = 1)
    \<and> (\<forall>d. tk_phase t d \<noteq> Finished \<longrightarrow> (\<exists>t'. markDone d t t'))"
proof -
  have inv: "tracker_inv t" by (rule tracker_reach_inv [OF assms])
  have "\<exists>t'. markDone d t t'" if "tk_phase t d \<noteq> Finished" for d
    using that by (cases "tk_phase t d") (blast intro: markDone.intros)+
  moreover have "tk_closes t = 1" if "tk_phase t ClientToServer = Finished" "tk_phase t ServerToClient = Finished"
    using inv that by (auto simp: tracker_inv_def some_direction)
  moreover have "tk_closes t \<le> 1" "tk_closes t = 1 \<longrightarrow> tk_phase t ClientToServer \<noteq> Copying \<and> tk_phase t ServerToClient \<noteq> Copying"
    using inv by (auto simp: tracker_inv_def split: if_splits)
  ultimately show ?thesis by blast
qed

lemma tracker_run:
  "tracker_reach (at_phase ServerToClient Finished (at_phase ClientToServer Stored
     (newRelayCompletionTracker\<lparr>tk_clientToServerDone := True, tk_serverToClientDone := True, tk_closes := 1, tk_once := True\<rparr>)))"
proof -
  let ?n = newRelayCompletionTracker
  let ?a = "at_phase ClientToServer Stored (?n\<lparr>tk_clientToServerDone := True\<rparr>)"
  let ?b = "at_phase ServerToClient Stored (?a\<lparr>tk_serverToClientDone := True\<rparr>)"
  let ?c = "at_phase ServerToClient Loaded ?b"
  let ?d = "at_phase ServerToClient Closing ?c"
  let ?e = "at_phase ServerToClient Finished (?d\<lparr>tk_once := True, tk_closes := 1\<rparr>)"
  note defs = at_phase_def newRelayCompletionTracker_def
  have a: "tracker_reach ?a" using tracker_reach.step [OF start store [of ?n ClientToServer]] by (simp add: defs)
  have b: "tracker_reach ?b" using tracker_reach.step [OF a store [of ?a ServerToClient]] by (simp add: defs)
  have c: "tracker_reach ?c" using tracker_reach.step [OF b load_first [of ?b ServerToClient]] by (simp add: defs)
  have d: "tracker_reach ?d" using tracker_reach.step [OF c load_second [of ?c ServerToClient]] by (simp add: defs)
  have "tracker_reach ?e" using tracker_reach.step [OF d close [of ?d ServerToClient]] by (simp add: defs)
  then show ?thesis by (simp add: defs fun_upd_twist)
qed

theorem teardown_closes_once_witness:
  "\<exists>t. tracker_reach t \<and> tk_closes t = 1 \<and> tk_phase t ClientToServer \<noteq> Copying \<and> (\<exists>t'. markDone ClientToServer t t')"
proof -
  let ?t = "at_phase ServerToClient Finished (at_phase ClientToServer Stored
     (newRelayCompletionTracker\<lparr>tk_clientToServerDone := True, tk_serverToClientDone := True, tk_closes := 1, tk_once := True\<rparr>))"
  have "tk_closes ?t = 1" "tk_phase ?t ClientToServer \<noteq> Finished" by (simp_all add: at_phase_def)
  then show ?thesis using teardown_closes_once [OF tracker_run] tracker_run by blast
qed

end
