(* ===== verification/Session_Store.thy ===== *)
theory Session_Store
  imports Netip
begin

text \<open>
  The login session of the user, in memory and in the database: \<^verbatim>\<open>src/processor/auth/user_info.go\<close>,
  \<^verbatim>\<open>src/processor/auth/state.go\<close> and the authorization header of \<^verbatim>\<open>src/processor/auth/user.go\<close>.

  The operations are given as they run when no other goroutine comes between their accesses to the
  tables and to the memory, for which the code has no common lock; \<open>Session_Steps\<close> has them access by
  access.

  Each of the two tables holds at most the row with identifier 1. A transaction takes effect as a
  whole or not at all. The database is opened once in the life of the process and the outcome is
  kept. Whether an access succeeds and how the database library stamps a row are arguments of each
  call. A column gives back what was stored in it; the balance, a floating point number, is its bit
  pattern.
\<close>

section \<open>Data\<close>

record UserInfo =
  ui_AccessToken :: string
  ui_RefreshToken :: string
  ui_TokenType :: string
  ui_ExpiresIn :: "64 word"
  ui_ID :: "64 word"
  ui_Email :: string
  ui_Username :: string
  ui_Role :: string
  ui_Balance :: "64 word"
  ui_Concurrency :: "64 word"
  ui_Status :: string
  ui_AllowedGroups :: "64 word list"
  ui_CreatedAt :: string
  ui_ProfileUpdated :: string
  ui_UpdatedAt :: time

record authTokenRecord =
  at_AccessToken :: string
  at_RefreshToken :: string
  at_TokenType :: string
  at_ExpiresIn :: "64 word"
  at_UpdatedAt :: time

record authProfileRecord =
  ap_UserID :: "64 word"
  ap_Email :: string
  ap_Username :: string
  ap_Role :: string
  ap_Balance :: "64 word"
  ap_Concurrency :: "64 word"
  ap_Status :: string
  ap_AllowedGroupsJSON :: string
  ap_RemoteCreatedAt :: string
  ap_RemoteUpdatedAt :: string
  ap_UpdatedAt :: time

text \<open>The variables of the package and the rows of the two tables.\<close>

record session_store =
  us_current :: "UserInfo option"
  us_token :: "authTokenRecord option"
  us_profile :: "authProfileRecord option"
  us_db :: "bool option"

text \<open>The outcomes of one call: the clock, the database accesses, and the two stamps.\<close>

record db_call =
  dc_now :: time
  dc_opens :: bool
  dc_readsToken :: bool
  dc_readsProfile :: bool
  dc_commits :: bool
  dc_stampToken :: "time \<Rightarrow> time"
  dc_stampProfile :: "time \<Rightarrow> time"

datatype session_error = NilUserInfo | OpenError | ReadError | RecordNotFound | WriteError | GroupsError

section \<open>Arrays of numbers in JSON\<close>

definition json_space :: "char \<Rightarrow> bool" where
  "json_space c \<longleftrightarrow> c = CHR '' '' \<or> c = CHR 0x09 \<or> c = CHR 0x0A \<or> c = CHR 0x0D"

definition int_text :: "int \<Rightarrow> string" where
  "int_text n = (if n < 0 then CHR ''-'' # digits_of (nat (- n)) else digits_of (nat n))"

fun commas :: "string list \<Rightarrow> string" where
  "commas [] = []"
| "commas [x] = x"
| "commas (x # xs) = x @ CHR '','' # commas xs"

text \<open>\<^verbatim>\<open>json.Marshal\<close> of a slice of numbers; an empty one is nil here.\<close>

definition Marshal_int64s :: "64 word list \<Rightarrow> string" where
  "Marshal_int64s xs =
     (if xs = [] then ''null'' else CHR ''['' # commas (map (\<lambda>x. int_text (sint x)) xs) @ [CHR '']''])"

definition json_natural :: "string \<Rightarrow> nat option" where
  "json_natural s = (if all_digits s \<and> (length s > 1 \<longrightarrow> hd s \<noteq> CHR ''0'') then Some (dec_value 0 s) else None)"

definition json_int :: "string \<Rightarrow> int option" where
  "json_int s =
     (if HasPrefix s ''-'' then map_option (\<lambda>n. - int n) (json_natural (tl s))
      else map_option int (json_natural s))"

definition json_int64 :: "string \<Rightarrow> (64 word) option" where
  "json_int64 s =
     (if s = ''null'' then Some 0
      else case json_int s of None \<Rightarrow> None
           | Some n \<Rightarrow> if - 9223372036854775808 \<le> n \<and> n \<le> 9223372036854775807 then Some (word_of_int n) else None)"

text \<open>
  \<^verbatim>\<open>json.Unmarshal\<close> into a slice of numbers. Any other JSON value is an error, and so is any text that
  is not JSON; in both cases a piece between two commas is no number.
\<close>

definition Unmarshal_int64s :: "string \<Rightarrow> (64 word list) option" where
  "Unmarshal_int64s raw =
     (let s = TrimFunc json_space raw in
      if s = ''null'' then Some []
      else if length s \<ge> 2 \<and> hd s = CHR ''['' \<and> last s = CHR '']'' then
        (let inner = TrimFunc json_space (butlast (tl s)) in
         if inner = [] then Some []
         else those (map (\<lambda>p. json_int64 (TrimFunc json_space p)) (Split inner (CHR '',''))))
      else None)"

section \<open>Operations\<close>

definition getAuthSessionDB :: "db_call \<Rightarrow> 'a session_store_scheme \<Rightarrow> 'a session_store_scheme \<times> bool" where
  "getAuthSessionDB c s =
     (let ok = (case us_db s of Some b \<Rightarrow> b | None \<Rightarrow> dc_opens c) in (s\<lparr>us_db := Some ok\<rparr>, ok))"

definition token_row :: "db_call \<Rightarrow> UserInfo \<Rightarrow> authTokenRecord" where
  "token_row c info =
     \<lparr>at_AccessToken = ui_AccessToken info, at_RefreshToken = ui_RefreshToken info, at_TokenType = ui_TokenType info,
      at_ExpiresIn = ui_ExpiresIn info, at_UpdatedAt = dc_stampToken c (ui_UpdatedAt info)\<rparr>"

definition profile_row :: "db_call \<Rightarrow> UserInfo \<Rightarrow> authProfileRecord" where
  "profile_row c info =
     \<lparr>ap_UserID = ui_ID info, ap_Email = ui_Email info, ap_Username = ui_Username info, ap_Role = ui_Role info,
      ap_Balance = ui_Balance info, ap_Concurrency = ui_Concurrency info, ap_Status = ui_Status info,
      ap_AllowedGroupsJSON = Marshal_int64s (ui_AllowedGroups info), ap_RemoteCreatedAt = ui_CreatedAt info,
      ap_RemoteUpdatedAt = ui_ProfileUpdated info, ap_UpdatedAt = dc_stampProfile c (ui_UpdatedAt info)\<rparr>"

definition saveUserInfoWithDB ::
  "db_call \<Rightarrow> UserInfo \<Rightarrow> 'a session_store_scheme \<Rightarrow> 'a session_store_scheme \<times> session_error option" where
  "saveUserInfoWithDB c info s =
     (if dc_commits c
      then (s\<lparr>us_token := Some (token_row c info), us_profile := Some (profile_row c info)\<rparr>, None)
      else (s, Some WriteError))"

definition saveUserInfoToSQLite ::
  "db_call \<Rightarrow> UserInfo \<Rightarrow> 'a session_store_scheme \<Rightarrow> 'a session_store_scheme \<times> session_error option" where
  "saveUserInfoToSQLite c info s =
     (let (s1, ok) = getAuthSessionDB c s in if \<not> ok then (s1, Some OpenError) else saveUserInfoWithDB c info s1)"

text \<open>The caller's structure gets the time of the call as well.\<close>

definition stamped :: "db_call \<Rightarrow> UserInfo \<Rightarrow> UserInfo" where
  "stamped c info = info\<lparr>ui_UpdatedAt := dc_now c\<rparr>"

definition SetCurrentUserInfo :: "UserInfo option \<Rightarrow> 'a session_store_scheme \<Rightarrow> 'a session_store_scheme" where
  "SetCurrentUserInfo info s = s\<lparr>us_current := info\<rparr>"

definition SaveUserInfo ::
  "db_call \<Rightarrow> UserInfo option \<Rightarrow> 'a session_store_scheme \<Rightarrow> 'a session_store_scheme \<times> session_error option" where
  "SaveUserInfo c info s =
     (case info of None \<Rightarrow> (s, Some NilUserInfo)
      | Some i \<Rightarrow>
          (case saveUserInfoToSQLite c (stamped c i) s of
             (s1, Some e) \<Rightarrow> (s1, Some e)
           | (s1, None) \<Rightarrow> (s1\<lparr>us_current := Some (stamped c i)\<rparr>, None)))"

definition zero_profile :: authProfileRecord where
  "zero_profile = \<lparr>ap_UserID = 0, ap_Email = [], ap_Username = [], ap_Role = [], ap_Balance = 0, ap_Concurrency = 0,
     ap_Status = [], ap_AllowedGroupsJSON = [], ap_RemoteCreatedAt = [], ap_RemoteUpdatedAt = [], ap_UpdatedAt = 0\<rparr>"

definition info_of_rows :: "authTokenRecord \<Rightarrow> authProfileRecord \<Rightarrow> 64 word list \<Rightarrow> UserInfo" where
  "info_of_rows token profile allowedGroups =
     \<lparr>ui_AccessToken = at_AccessToken token, ui_RefreshToken = at_RefreshToken token, ui_TokenType = at_TokenType token,
      ui_ExpiresIn = at_ExpiresIn token, ui_ID = ap_UserID profile, ui_Email = ap_Email profile,
      ui_Username = ap_Username profile, ui_Role = ap_Role profile, ui_Balance = ap_Balance profile,
      ui_Concurrency = ap_Concurrency profile, ui_Status = ap_Status profile, ui_AllowedGroups = allowedGroups,
      ui_CreatedAt = ap_RemoteCreatedAt profile, ui_ProfileUpdated = ap_RemoteUpdatedAt profile,
      ui_UpdatedAt = (if at_UpdatedAt token = 0 then ap_UpdatedAt profile else at_UpdatedAt token)\<rparr>"

definition loadUserInfoFromSQLite ::
  "db_call \<Rightarrow> 'a session_store_scheme \<Rightarrow> 'a session_store_scheme \<times> (session_error + UserInfo)" where
  "loadUserInfoFromSQLite c s =
     (let (s1, ok) = getAuthSessionDB c s in
      (s1,
       if \<not> ok then Inl OpenError
       else if \<not> dc_readsToken c then Inl ReadError
       else case us_token s1 of None \<Rightarrow> Inl RecordNotFound
       | Some token \<Rightarrow>
           if \<not> dc_readsProfile c then Inl ReadError
           else
             let profile = (case us_profile s1 of None \<Rightarrow> zero_profile | Some p \<Rightarrow> p) in
             if ap_AllowedGroupsJSON profile = [] then Inr (info_of_rows token profile [])
             else case Unmarshal_int64s (ap_AllowedGroupsJSON profile) of
                    None \<Rightarrow> Inl GroupsError
                  | Some groups \<Rightarrow> Inr (info_of_rows token profile groups)))"

definition LoadUserInfo ::
  "db_call \<Rightarrow> 'a session_store_scheme \<Rightarrow> 'a session_store_scheme \<times> (session_error + UserInfo)" where
  "LoadUserInfo c s =
     (let (s1, ok) = getAuthSessionDB c s in
      if \<not> ok then (s1, Inl OpenError)
      else case loadUserInfoFromSQLite c s1 of
             (s2, Inl e) \<Rightarrow> (s2, Inl e)
           | (s2, Inr i) \<Rightarrow> (s2\<lparr>us_current := Some i\<rparr>, Inr i))"

definition deleteUserInfoFromSQLite ::
  "db_call \<Rightarrow> 'a session_store_scheme \<Rightarrow> 'a session_store_scheme \<times> session_error option" where
  "deleteUserInfoFromSQLite c s =
     (let (s1, ok) = getAuthSessionDB c s in
      if \<not> ok then (s1, Some OpenError)
      else if dc_commits c then (s1\<lparr>us_token := None, us_profile := None\<rparr>, None) else (s1, Some WriteError))"

definition DeleteUserInfo ::
  "db_call \<Rightarrow> 'a session_store_scheme \<Rightarrow> 'a session_store_scheme \<times> session_error option" where
  "DeleteUserInfo c s =
     (case deleteUserInfoFromSQLite c s of
        (s1, Some e) \<Rightarrow> (s1, Some e)
      | (s1, None) \<Rightarrow> (s1\<lparr>us_current := None\<rparr>, None))"

definition HasPersistedUserInfo ::
  "db_call \<Rightarrow> 'a session_store_scheme \<Rightarrow> 'a session_store_scheme \<times> (session_error + bool)" where
  "HasPersistedUserInfo c s =
     (let (s1, ok) = getAuthSessionDB c s in
      (s1, if \<not> ok then Inl OpenError else if \<not> dc_readsToken c then Inl ReadError else Inr (us_token s1 \<noteq> None)))"

definition GetCurrentUserInfo :: "'a session_store_scheme \<Rightarrow> UserInfo option" where
  "GetCurrentUserInfo s = us_current s"

definition GetCurrentUserInfoOrLoad ::
  "db_call \<Rightarrow> 'a session_store_scheme \<Rightarrow> 'a session_store_scheme \<times> UserInfo option" where
  "GetCurrentUserInfoOrLoad c s =
     (case GetCurrentUserInfo s of
        Some current \<Rightarrow> (s, Some current)
      | None \<Rightarrow> (case LoadUserInfo c s of (s1, Inl _) \<Rightarrow> (s1, None) | (s1, Inr loaded) \<Rightarrow> (s1, Some loaded)))"

definition has_access :: "UserInfo \<Rightarrow> bool" where
  "has_access info \<longleftrightarrow> TrimSpace (ui_AccessToken info) \<noteq> []"

definition GetCurrentUserInfoWithAccessTokenOrLoad ::
  "db_call \<Rightarrow> 'a session_store_scheme \<Rightarrow> 'a session_store_scheme \<times> UserInfo option" where
  "GetCurrentUserInfoWithAccessTokenOrLoad c s =
     (let current = GetCurrentUserInfo s in
      if (case current of None \<Rightarrow> False | Some i \<Rightarrow> has_access i) then (s, current)
      else case LoadUserInfo c s of
             (s1, Inl _) \<Rightarrow> (s1, current)
           | (s1, Inr loaded) \<Rightarrow> (s1, if has_access loaded then Some loaded else current))"

definition GetCurrentAuthorizationHeader ::
  "db_call \<Rightarrow> 'a session_store_scheme \<Rightarrow> 'a session_store_scheme \<times> string" where
  "GetCurrentAuthorizationHeader c s =
     (case GetCurrentUserInfoWithAccessTokenOrLoad c s of
        (s1, None) \<Rightarrow> (s1, [])
      | (s1, Some current) \<Rightarrow>
          (s1,
           let accessToken = TrimSpace (ui_AccessToken current); tokenType = TrimSpace (ui_TokenType current) in
           if accessToken = [] then []
           else (if tokenType = [] then ''Bearer'' else tokenType) @ '' '' @ accessToken))"

section \<open>Numbers survive the encoding\<close>

lemma int_text_chars: "c \<in> set (int_text n) \<Longrightarrow> is_digit c \<or> c = CHR ''-''"
  using all_digits_digits_of by (auto simp: int_text_def all_digits_def list_all_iff split: if_splits)

lemma int_text_not_Nil [simp]: "int_text n \<noteq> []"
  by (simp add: int_text_def)

lemma int_text_plain: "c \<in> set (int_text n) \<Longrightarrow> \<not> json_space c \<and> c \<noteq> CHR '','' \<and> c \<noteq> CHR ''n''"
  by (drule int_text_chars) (auto simp: json_space_def is_digit_def)

lemma TrimFunc_plain: "(\<And>c. c \<in> set s \<Longrightarrow> \<not> P c) \<Longrightarrow> TrimFunc P s = s"
  by (rule TrimFunc_id) (metis hd_in_set last_in_set)

lemma json_natural_digits: "json_natural (digits_of n) = Some n"
  using hd_digits_of [of n] by (simp add: json_natural_def all_digits_digits_of)

lemma json_int_text: "json_int (int_text n) = Some n"
proof (cases "n < 0")
  case True
  then show ?thesis by (simp add: json_int_def int_text_def HasPrefix_iff json_natural_digits)
next
  case False
  then have "\<not> HasPrefix (digits_of (nat n)) ''-''"
    using digits_of_no_sep [of "CHR ''-''" "nat n"] by (auto simp: HasPrefix_iff is_digit_def)
  with False show ?thesis by (simp add: json_int_def int_text_def json_natural_digits)
qed

lemma json_int64_text: "json_int64 (int_text (sint (w :: 64 word))) = Some w"
proof -
  have "int_text (sint w) \<noteq> ''null''"
    using int_text_plain [of "CHR ''n''" "sint w"] by auto
  moreover have "- 9223372036854775808 \<le> sint w" "sint w \<le> 9223372036854775807"
    using sint_greater_eq [of w] sint_less [of w] by simp_all
  ultimately show ?thesis by (simp add: json_int64_def json_int_text)
qed

lemma set_commas: "set (commas xs) \<subseteq> insert (CHR '','') (\<Union> (set ` set xs))"
  by (induction xs rule: commas.induct) auto

lemma Split_commas:
  "xs \<noteq> [] \<Longrightarrow> (\<And>x. x \<in> set xs \<Longrightarrow> CHR '','' \<notin> set x) \<Longrightarrow> Split (commas xs) (CHR '','') = xs"
  by (induction xs rule: commas.induct) (auto simp: Split_append_sep Split_no_sep_id)

lemma those_map_Some: "(\<And>x. x \<in> set xs \<Longrightarrow> f x = Some (g x)) \<Longrightarrow> those (map f xs) = Some (map g xs)"
  by (induction xs) auto

lemma Marshal_not_Nil [simp]: "Marshal_int64s xs \<noteq> []"
  by (simp add: Marshal_int64s_def)

lemma Unmarshal_Marshal: "Unmarshal_int64s (Marshal_int64s xs) = Some xs"
proof (cases "xs = []")
  case True
  have "TrimFunc json_space ''null'' = ''null''"
    by (rule TrimFunc_plain) (auto simp: json_space_def)
  then show ?thesis by (simp add: True Marshal_int64s_def Unmarshal_int64s_def)
next
  case False
  let ?texts = "map (\<lambda>x. int_text (sint x)) xs" and ?s = "Marshal_int64s xs"
  have inner: "\<not> json_space c" if "c \<in> set (commas ?texts)" for c
  proof -
    have "c \<in> insert (CHR '','') (\<Union> (set ` set ?texts))" using set_commas [of ?texts] that by blast
    then show ?thesis using int_text_plain by (auto simp: json_space_def)
  qed
  have "commas ?texts \<noteq> []"
    using False by (cases xs rule: remdups_adj.cases) auto
  moreover have "Split (commas ?texts) (CHR '','') = ?texts"
    using False int_text_plain by (intro Split_commas) auto
  moreover have "TrimFunc json_space (commas ?texts) = commas ?texts"
    by (rule TrimFunc_plain) (use inner in auto)
  moreover have "TrimFunc json_space ?s = ?s"
    by (rule TrimFunc_plain) (use inner False in \<open>auto simp: Marshal_int64s_def json_space_def\<close>)
  moreover have "those (map (\<lambda>p. json_int64 (TrimFunc json_space p)) ?texts) = Some xs"
    unfolding map_map
    by (subst those_map_Some [where g = "\<lambda>x. x"])
      (use int_text_plain in \<open>auto simp: json_int64_text TrimFunc_plain\<close>)
  ultimately show ?thesis
    using False by (simp add: Unmarshal_int64s_def Marshal_int64s_def Let_def)
qed

section \<open>Memory and database\<close>

text \<open>The session the rows hold, when they can be read.\<close>

definition persisted :: "'a session_store_scheme \<Rightarrow> UserInfo option" where
  "persisted s =
     (case us_token s of None \<Rightarrow> None
      | Some token \<Rightarrow>
          let profile = (case us_profile s of None \<Rightarrow> zero_profile | Some p \<Rightarrow> p) in
          if ap_AllowedGroupsJSON profile = [] then Some (info_of_rows token profile [])
          else map_option (info_of_rows token profile) (Unmarshal_int64s (ap_AllowedGroupsJSON profile)))"

text \<open>Two sessions agree when they differ at most in the time of their last update.\<close>

definition same_session :: "UserInfo \<Rightarrow> UserInfo \<Rightarrow> bool" where
  "same_session u v \<longleftrightarrow> u\<lparr>ui_UpdatedAt := 0\<rparr> = v\<lparr>ui_UpdatedAt := 0\<rparr>"

definition session_agrees :: "'a session_store_scheme \<Rightarrow> bool" where
  "session_agrees s \<longleftrightarrow> (case us_current s of None \<Rightarrow> True
     | Some u \<Rightarrow> (case persisted s of None \<Rightarrow> False | Some v \<Rightarrow> same_session u v))"

lemma same_session_refl [simp]: "same_session u u"
  by (simp add: same_session_def)

lemma same_session_sel:
  "same_session u v \<Longrightarrow> ui_AccessToken u = ui_AccessToken v \<and> ui_RefreshToken u = ui_RefreshToken v
     \<and> ui_TokenType u = ui_TokenType v"
  by (cases u; cases v) (simp add: same_session_def)

definition db_open :: "db_call \<Rightarrow> 'a session_store_scheme \<Rightarrow> bool" where
  "db_open c s = (case us_db s of Some b \<Rightarrow> b | None \<Rightarrow> dc_opens c)"

text \<open>The effect of each access, in terms of the rows.\<close>

lemma persisted_frame [simp]:
  "persisted (s\<lparr>us_current := u\<rparr>) = persisted s" "persisted (s\<lparr>us_db := d\<rparr>) = persisted s"
  by (simp_all add: persisted_def cong: option.case_cong)

lemma persisted_save [simp]:
  "persisted (s\<lparr>us_token := Some (token_row c i), us_profile := Some (profile_row c i)\<rparr>)
     = Some (i\<lparr>ui_UpdatedAt := (if dc_stampToken c (ui_UpdatedAt i) = 0 then dc_stampProfile c (ui_UpdatedAt i)
                               else dc_stampToken c (ui_UpdatedAt i))\<rparr>)"
  by (cases i) (simp add: persisted_def token_row_def profile_row_def info_of_rows_def Unmarshal_Marshal)

lemma load_cases:
  "LoadUserInfo c s =
     (let s1 = s\<lparr>us_db := Some (db_open c s)\<rparr> in
      if db_open c s \<and> dc_readsToken c \<and> dc_readsProfile c \<and> persisted s \<noteq> None
      then (s1\<lparr>us_current := persisted s\<rparr>, Inr (the (persisted s)))
      else (s1, Inl (if \<not> db_open c s then OpenError else if \<not> dc_readsToken c then ReadError
                     else if us_token s = None then RecordNotFound
                     else if \<not> dc_readsProfile c then ReadError else GroupsError)))"
  by (auto simp: LoadUserInfo_def loadUserInfoFromSQLite_def getAuthSessionDB_def db_open_def persisted_def Let_def
      split: option.splits)

lemma save_cases:
  "SaveUserInfo c (Some i) s =
     (let s1 = s\<lparr>us_db := Some (db_open c s)\<rparr> in
      if db_open c s \<and> dc_commits c
      then (s1\<lparr>us_token := Some (token_row c (stamped c i)), us_profile := Some (profile_row c (stamped c i)),
              us_current := Some (stamped c i)\<rparr>, None)
      else (s1, Some (if db_open c s then WriteError else OpenError)))"
  by (auto simp: SaveUserInfo_def saveUserInfoToSQLite_def saveUserInfoWithDB_def getAuthSessionDB_def db_open_def Let_def
      split: option.splits)

lemma delete_cases:
  "DeleteUserInfo c s =
     (let s1 = s\<lparr>us_db := Some (db_open c s)\<rparr> in
      if db_open c s \<and> dc_commits c then (s1\<lparr>us_token := None, us_profile := None, us_current := None\<rparr>, None)
      else (s1, Some (if db_open c s then WriteError else OpenError)))"
  by (auto simp: DeleteUserInfo_def deleteUserInfoFromSQLite_def getAuthSessionDB_def db_open_def Let_def
      split: option.splits)

lemma session_agrees_alt: "session_agrees s \<longleftrightarrow> (\<forall>u. us_current s = Some u \<longrightarrow> (\<exists>v. persisted s = Some v \<and> same_session u v))"
  by (auto simp: session_agrees_def split: option.splits)

lemma session_agrees_frame [simp]: "session_agrees (s\<lparr>us_db := d\<rparr>) = session_agrees s"
  by (simp add: session_agrees_alt)

lemma session_agrees_none [simp]: "session_agrees (s\<lparr>us_current := None\<rparr>)"
  by (simp add: session_agrees_alt)

lemma session_agrees_load: "session_agrees s \<Longrightarrow> session_agrees (fst (LoadUserInfo c s))"
  by (auto simp: load_cases session_agrees_alt Let_def)

lemma session_agrees_save: "session_agrees s \<Longrightarrow> session_agrees (fst (SaveUserInfo c i s))"
proof (cases i)
  case (Some u)
  assume "session_agrees s"
  then show ?thesis
    by (auto simp: Some save_cases session_agrees_alt Let_def stamped_def persisted_save [simplified] same_session_def)
qed (simp add: SaveUserInfo_def)

lemma session_agrees_delete: "session_agrees s \<Longrightarrow> session_agrees (fst (DeleteUserInfo c s))"
  by (auto simp: delete_cases session_agrees_alt Let_def)

lemma session_agrees_or_load: "session_agrees s \<Longrightarrow> session_agrees (fst (GetCurrentUserInfoOrLoad c s))"
  using session_agrees_load [of s c]
  by (auto simp: GetCurrentUserInfoOrLoad_def split: option.splits prod.splits sum.splits)

lemma session_agrees_with_access: "session_agrees s \<Longrightarrow> session_agrees (fst (GetCurrentUserInfoWithAccessTokenOrLoad c s))"
  using session_agrees_load [of s c]
  by (auto simp: GetCurrentUserInfoWithAccessTokenOrLoad_def Let_def split: option.splits prod.splits sum.splits)

end
