(* ===== verification/Url_Builder.thy ===== *)
theory Url_Builder
  imports Config_Types Url
begin

text \<open>
  The addresses of the account server: the getters of \<^verbatim>\<open>src/processor/config/types.go\<close> and the builder
  \<^verbatim>\<open>src/processor/config/url_builder.go\<close> that validates them.
\<close>

datatype url_error = ConfigNotInitialized | URLNotConfigured | InvalidURL string

section \<open>Getters of the configuration\<close>

definition GetTokenActivateURL :: "Config \<Rightarrow> string" where
  "GetTokenActivateURL c = APIBaseURL (Some c) @ ''/api/user/auth/new/activate''"

definition GetPlanStatusURL :: "Config \<Rightarrow> string" where
  "GetPlanStatusURL c = APIBaseURL (Some c) @ ''/api/user/auth/info/plan/info''"

definition GetAuthLoginURL :: "Config \<Rightarrow> string" where
  "GetAuthLoginURL c = APIBaseURL (Some c) @ ''/api/v1/auth/login''"

definition GetAuthRefreshURL :: "Config \<Rightarrow> string" where
  "GetAuthRefreshURL c = APIBaseURL (Some c) @ ''/api/v1/auth/refresh''"

definition GetAuthLogoutURL :: "Config \<Rightarrow> string" where
  "GetAuthLogoutURL c = APIBaseURL (Some c) @ ''/api/v1/auth/logout''"

definition GetAuthMeURL :: "Config \<Rightarrow> string" where
  "GetAuthMeURL c = APIBaseURL (Some c) @ ''/api/v1/auth/me''"

definition GetUserProfileURL :: "Config \<Rightarrow> string" where
  "GetUserProfileURL c = APIBaseURL (Some c) @ ''/api/v1/user/profile''"

definition GetUserUpdateURL :: "Config \<Rightarrow> string" where
  "GetUserUpdateURL c = APIBaseURL (Some c) @ ''/api/v1/user''"

definition GetSubscriptionsSummaryURL :: "Config \<Rightarrow> string" where
  "GetSubscriptionsSummaryURL c = APIBaseURL (Some c) @ ''/api/v1/subscriptions/summary''"

definition GetSubscriptionsProgressURL :: "Config \<Rightarrow> string" where
  "GetSubscriptionsProgressURL c = APIBaseURL (Some c) @ ''/api/v1/subscriptions/progress''"

definition GetRedeemURL :: "Config \<Rightarrow> string" where
  "GetRedeemURL c = APIBaseURL (Some c) @ ''/api/v1/redeem''"

definition GetUserAPIKeysURL :: "Config \<Rightarrow> string" where
  "GetUserAPIKeysURL c = APIBaseURL (Some c) @ ''/api/v1/keys''"

definition GetAvailableGroupsURL :: "Config \<Rightarrow> string" where
  "GetAvailableGroupsURL c = APIBaseURL (Some c) @ ''/api/v1/groups/available''"

definition GetInboundsURL :: "Config \<Rightarrow> string" where
  "GetInboundsURL c = APIBaseURL (Some c) @ ''/api/production/prod/sui/user/sui/inbounds''"

section \<open>The builder\<close>

text \<open>\<^verbatim>\<open>url.Parse(raw).Scheme\<close>, for an address that parses.\<close>

definition url_scheme :: "string \<Rightarrow> string" where
  "url_scheme raw = (case getScheme (fst (Cut raw (CHR ''#''))) of None \<Rightarrow> [] | Some (scheme, _) \<Rightarrow> scheme)"

definition IsValidURL :: "string \<Rightarrow> bool" where
  "IsValidURL urlString =
     (case url_host urlString of None \<Rightarrow> False
      | Some host \<Rightarrow> url_scheme urlString \<noteq> [] \<and> host \<noteq> [])"

definition getAndValidateURL :: "string \<Rightarrow> url_error + string" where
  "getAndValidateURL fullURL =
     (if fullURL = [] then Inl URLNotConfigured
      else if \<not> IsValidURL fullURL then Inl (InvalidURL fullURL)
      else Inr fullURL)"

text \<open>
  A builder is made from the global configuration, which is absent before it has been loaded; each
  of its methods validates the address that one getter gives.
\<close>

definition NewURLBuilder :: "Config option \<Rightarrow> url_error + Config" where
  "NewURLBuilder globalConfig = (case globalConfig of None \<Rightarrow> Inl ConfigNotInitialized | Some cfg \<Rightarrow> Inr cfg)"

definition built_url :: "(Config \<Rightarrow> string) \<Rightarrow> Config option \<Rightarrow> url_error + string" where
  "built_url getter globalConfig =
     (case NewURLBuilder globalConfig of Inl e \<Rightarrow> Inl e | Inr cfg \<Rightarrow> getAndValidateURL (getter cfg))"

lemma getAndValidateURL_Inr: "getAndValidateURL u = Inr v \<longleftrightarrow> v = u \<and> u \<noteq> [] \<and> IsValidURL u"
  by (auto simp: getAndValidateURL_def)

lemma built_url_Inr:
  "built_url getter g = Inr v \<longleftrightarrow> (\<exists>cfg. g = Some cfg \<and> v = getter cfg \<and> v \<noteq> [] \<and> IsValidURL v)"
  by (auto simp: built_url_def NewURLBuilder_def getAndValidateURL_Inr split: option.splits)

end
