(* ===== verification/Auth_Session.thy ===== *)
theory Auth_Session
  imports Session_Store Url_Builder
begin

text \<open>
  Logging in, restoring and refreshing a session: \<^verbatim>\<open>src/processor/auth/token_activate.go\<close>,
  \<^verbatim>\<open>token_refresh.go\<close> and \<^verbatim>\<open>errors.go\<close>, with the calls to the account server of \<^verbatim>\<open>user_center.go\<close> they
  make. The world extends the store of \<open>Session_Store\<close> by the refreshers that were created (a refresher
  is its position in the list, a goroutine of its loop is a count), the flags of
  \<^verbatim>\<open>src/processor/config/state.go\<close>, and the history of requests and of changes of the session.

  What the server answers is an argument of each call, as are the JSON decoders. The definitions here
  are the calls as they run when no other goroutine runs between their steps; the session in memory,
  the tables and the variable of the refresher have no common lock, and \<open>Session_Steps\<close> splits every
  call at its accesses to them and interleaves the steps. Marshalling a map of strings and creating a
  request for a validated address cannot fail.
\<close>

section \<open>Data\<close>

record UserProfile =
  up_ID :: "64 word"
  up_Email :: string
  up_Username :: string
  up_Role :: string
  up_Balance :: "64 word"
  up_Concurrency :: "64 word"
  up_Status :: string
  up_AllowedGroups :: "64 word list"
  up_CreatedAt :: string
  up_UpdatedAt :: string

record authTokenEnvelope =
  te_AccessToken :: string
  te_RefreshToken :: string
  te_ExpiresIn :: "64 word"
  te_TokenType :: string

record authAPIErrorEnvelope =
  ae_Code :: int
  ae_Message :: string
  ae_Reason :: string

record auth_codec =
  decode_tokens :: "string \<Rightarrow> authTokenEnvelope option"
  decode_profile :: "string \<Rightarrow> UserProfile option"
  decode_error :: "string \<Rightarrow> authAPIErrorEnvelope option"

text \<open>An answer: none, a status whose body cannot be read, or a status with a body.\<close>

datatype http_reply = NoReply | BrokenReply nat | Reply nat string

datatype auth_error =
    EmptyToken | EmptyEmail | EmptyPassword | EmptyUsername | UrlFailed url_error
  | SendFailed | ReadFailed | BadStatus nat string | ParseFailed
  | MissingAccess | MissingRefresh | ProfileFailed auth_error | EmptyRefreshToken | SessionExpired
  | SaveFailed session_error | LoadFailed session_error | NoUserInfo | RefreshFailed auth_error | NoSession

record TokenRefresher =
  tr_isRunning :: bool
  tr_done :: bool
  tr_ticker :: bool
  tr_tick :: bool
  tr_loops :: nat
  tr_lastError :: "auth_error option"
  tr_lastErrorTime :: time

datatype auth_event =
    LoginSent string string "string option" | RefreshSent string | LogoutSent string | ProfileSent string
  | UpdateSent string string | SessionSaved string | SessionCleared

record auth_world = session_store +
  au_refreshers :: "TokenRefresher list"
  au_refresher :: "nat option"
  au_hasLocal :: bool
  au_usingDefault :: bool
  au_notified :: nat
  au_events :: "auth_event list"

text \<open>The outcomes of one call: the database, the configuration and the two answers.\<close>

record auth_call =
  ac_db :: db_call
  ac_config :: "Config option"
  ac_reply :: http_reply
  ac_profile :: http_reply

definition logged :: "auth_event \<Rightarrow> auth_world \<Rightarrow> auth_world" where
  "logged e w = w\<lparr>au_events := au_events w @ [e]\<rparr>"

section \<open>The refresher\<close>

definition NewTokenRefresher :: TokenRefresher where
  "NewTokenRefresher = \<lparr>tr_isRunning = False, tr_done = False, tr_ticker = False, tr_tick = False, tr_loops = 0,
     tr_lastError = None, tr_lastErrorTime = 0\<rparr>"

definition Refresher_Start :: "TokenRefresher \<Rightarrow> TokenRefresher" where
  "Refresher_Start tr =
     (if tr_isRunning tr then tr
      else tr\<lparr>tr_ticker := True, tr_tick := False, tr_isRunning := True, tr_loops := tr_loops tr + 1\<rparr>)"

definition Refresher_Stop :: "TokenRefresher \<Rightarrow> TokenRefresher" where
  "Refresher_Stop tr =
     (if \<not> tr_isRunning tr then tr else tr\<lparr>tr_isRunning := False, tr_ticker := False, tr_done := True\<rparr>)"

definition Refresher_IsRunning :: "TokenRefresher \<Rightarrow> bool" where
  "Refresher_IsRunning tr = tr_isRunning tr"

definition on_refresher :: "nat \<Rightarrow> (TokenRefresher \<Rightarrow> TokenRefresher) \<Rightarrow> auth_world \<Rightarrow> auth_world" where
  "on_refresher i f w =
     (if i < length (au_refreshers w) then w\<lparr>au_refreshers := (au_refreshers w)[i := f (au_refreshers w ! i)]\<rparr> else w)"

definition refresher_running :: "auth_world \<Rightarrow> bool" where
  "refresher_running w = (case au_refresher w of None \<Rightarrow> False
     | Some i \<Rightarrow> i < length (au_refreshers w) \<and> Refresher_IsRunning (au_refreshers w ! i))"

definition launch_refresher :: "auth_world \<Rightarrow> auth_world" where
  "launch_refresher w =
     (let i = length (au_refreshers w)
      in on_refresher i Refresher_Start (w\<lparr>au_refreshers := au_refreshers w @ [NewTokenRefresher], au_refresher := Some i\<rparr>))"

definition startTokenRefresh :: "auth_world \<Rightarrow> auth_world" where
  "startTokenRefresh w = (if refresher_running w then w else launch_refresher w)"

definition StopTokenRefresh :: "auth_world \<Rightarrow> auth_world" where
  "StopTokenRefresh w = (case au_refresher w of None \<Rightarrow> w | Some i \<Rightarrow> on_refresher i Refresher_Stop w)"

section \<open>The session\<close>

text \<open>The store operations, with the history.\<close>

definition save_session :: "auth_call \<Rightarrow> UserInfo \<Rightarrow> auth_world \<Rightarrow> auth_world \<times> session_error option" where
  "save_session c info w =
     (case SaveUserInfo (ac_db c) (Some info) w of
        (w1, Some e) \<Rightarrow> (w1, Some e)
      | (w1, None) \<Rightarrow> (logged (SessionSaved (ui_RefreshToken info)) w1, None))"

definition delete_session :: "auth_call \<Rightarrow> auth_world \<Rightarrow> auth_world \<times> session_error option" where
  "delete_session c w =
     (case DeleteUserInfo (ac_db c) w of
        (w1, Some e) \<Rightarrow> (w1, Some e)
      | (w1, None) \<Rightarrow> (logged SessionCleared w1, None))"

definition SetHasLocalUserInfo :: "bool \<Rightarrow> auth_world \<Rightarrow> auth_world" where
  "SetHasLocalUserInfo v w = w\<lparr>au_hasLocal := v\<rparr>"

definition SetUsingDefaultConfig :: "bool \<Rightarrow> auth_world \<Rightarrow> auth_world" where
  "SetUsingDefaultConfig v w = w\<lparr>au_usingDefault := v\<rparr>"

definition applyUserProfileToUserInfo :: "UserInfo \<Rightarrow> UserProfile \<Rightarrow> UserInfo" where
  "applyUserProfileToUserInfo info profile =
     (let username = (if TrimSpace (up_Username profile) = [] then TrimSpace (up_Email profile)
                      else TrimSpace (up_Username profile));
          status = TrimSpace (up_Status profile)
      in info\<lparr>ui_ID := up_ID profile, ui_Email := TrimSpace (up_Email profile), ui_Username := username,
              ui_Role := TrimSpace (up_Role profile), ui_Balance := up_Balance profile,
              ui_Concurrency := up_Concurrency profile, ui_Status := (if status = [] then ''active'' else status),
              ui_AllowedGroups := up_AllowedGroups profile, ui_CreatedAt := TrimSpace (up_CreatedAt profile),
              ui_ProfileUpdated := TrimSpace (up_UpdatedAt profile)\<rparr>)"

definition zero_info :: "time \<Rightarrow> UserInfo" where
  "zero_info now = \<lparr>ui_AccessToken = [], ui_RefreshToken = [], ui_TokenType = [], ui_ExpiresIn = 0, ui_ID = 0,
     ui_Email = [], ui_Username = [], ui_Role = [], ui_Balance = 0, ui_Concurrency = 0, ui_Status = [],
     ui_AllowedGroups = [], ui_CreatedAt = [], ui_ProfileUpdated = [], ui_UpdatedAt = now\<rparr>"

definition buildUserInfoFromProfile :: "time \<Rightarrow> UserProfile \<Rightarrow> UserInfo" where
  "buildUserInfoFromProfile now profile = applyUserProfileToUserInfo (zero_info now) profile"

text \<open>The session made of a profile and the tokens it was fetched with.\<close>

definition session_of :: "time \<Rightarrow> UserProfile \<Rightarrow> authTokenEnvelope \<Rightarrow> UserInfo" where
  "session_of now profile tokens =
     (buildUserInfoFromProfile now profile)\<lparr>ui_AccessToken := te_AccessToken tokens, ui_RefreshToken := te_RefreshToken tokens,
        ui_TokenType := te_TokenType tokens, ui_ExpiresIn := te_ExpiresIn tokens, ui_UpdatedAt := now\<rparr>"

section \<open>Calls to the account server\<close>

definition read_body :: "http_reply \<Rightarrow> auth_error + nat \<times> string" where
  "read_body r = (case r of NoReply \<Rightarrow> Inl SendFailed | BrokenReply _ \<Rightarrow> Inl ReadFailed | Reply st body \<Rightarrow> Inr (st, body))"

definition callAuthenticatedAPI :: "http_reply \<Rightarrow> auth_error + string" where
  "callAuthenticatedAPI r =
     (case read_body r of Inl e \<Rightarrow> Inl e
      | Inr (st, body) \<Rightarrow> if st \<noteq> 200 then Inl (BadStatus st body) else Inr body)"

definition GetUserProfileWithToken ::
  "auth_codec \<Rightarrow> auth_call \<Rightarrow> string \<Rightarrow> auth_world \<Rightarrow> auth_world \<times> (auth_error + UserProfile)" where
  "GetUserProfileWithToken K c accessToken w =
     (if TrimSpace accessToken = [] then (w, Inl MissingAccess)
      else case built_url GetUserProfileURL (ac_config c) of Inl e \<Rightarrow> (w, Inl (UrlFailed e))
      | Inr _ \<Rightarrow>
          (logged (ProfileSent accessToken) w,
           case callAuthenticatedAPI (ac_profile c) of Inl e \<Rightarrow> Inl e
           | Inr body \<Rightarrow> (case decode_profile K body of None \<Rightarrow> Inl ParseFailed | Some p \<Rightarrow> Inr p)))"

definition classifyRefreshSessionFailure :: "auth_codec \<Rightarrow> nat \<Rightarrow> string \<Rightarrow> bool" where
  "classifyRefreshSessionFailure K statusCode body \<longleftrightarrow>
     statusCode = 401 \<and>
     (case decode_error K body of None \<Rightarrow> False
      | Some envelope \<Rightarrow>
          ae_Code envelope = 401 \<and>
          (ToUpper (TrimSpace (ae_Reason envelope)) = ''REFRESH_TOKEN_INVALID''
           \<or> Contains (ToLower (TrimSpace (ae_Message envelope))) ''invalid refresh token''))"

definition clearLocalSessionAfterInvalidRefreshToken :: "auth_call \<Rightarrow> auth_world \<Rightarrow> auth_world" where
  "clearLocalSessionAfterInvalidRefreshToken c w =
     (let w1 = StopTokenRefresh w;
          w2 = (case delete_session c w1 of
                  (w', None) \<Rightarrow> w'
                | (w', Some _) \<Rightarrow> logged SessionCleared (SetCurrentUserInfo None w'));
          w3 = SetHasLocalUserInfo False w2
      in w3\<lparr>au_notified := au_notified w3 + 1\<rparr>)"

section \<open>Refreshing a session\<close>

definition refresh_resolve :: "auth_call \<Rightarrow> string \<Rightarrow> auth_world \<Rightarrow> auth_world \<times> string" where
  "refresh_resolve c refreshToken w =
     (let token = TrimSpace refreshToken in
      if token \<noteq> [] then (w, token)
      else case GetCurrentUserInfoOrLoad (ac_db c) w of
             (w1, None) \<Rightarrow> (w1, [])
           | (w1, Some current) \<Rightarrow> (w1, TrimSpace (ui_RefreshToken current)))"

datatype refresh_choice = ChoiceReuse UserInfo | ChoiceFail auth_error | ChoiceSend string

definition refresh_choose :: "auth_call \<Rightarrow> string \<Rightarrow> auth_world \<Rightarrow> auth_world \<times> refresh_choice" where
  "refresh_choose c token w =
     (let (w1, current) = GetCurrentUserInfoOrLoad (ac_db c) w;
          latestToken = (case current of None \<Rightarrow> [] | Some i \<Rightarrow> TrimSpace (ui_RefreshToken i));
          token' = (if latestToken \<noteq> [] then latestToken else token)
      in if latestToken \<noteq> [] \<and> latestToken \<noteq> token \<and> has_access (the current) then (w1, ChoiceReuse (the current))
         else case built_url GetAuthRefreshURL (ac_config c) of
                Inl e \<Rightarrow> (w1, ChoiceFail (UrlFailed e))
              | Inr _ \<Rightarrow> (logged (RefreshSent token') w1, ChoiceSend token'))"

definition refresh_finish ::
  "auth_codec \<Rightarrow> auth_call \<Rightarrow> string \<Rightarrow> auth_world \<Rightarrow> auth_world \<times> (auth_error + UserInfo)" where
  "refresh_finish K c token w =
     (case read_body (ac_reply c) of
        Inl e \<Rightarrow> (w, Inl e)
      | Inr (st, body) \<Rightarrow>
          if st \<noteq> 200 then
            (if classifyRefreshSessionFailure K st body
             then (clearLocalSessionAfterInvalidRefreshToken c w, Inl SessionExpired)
             else (w, Inl (BadStatus st body)))
          else case decode_tokens K body of None \<Rightarrow> (w, Inl ParseFailed)
          | Some response \<Rightarrow>
              if TrimSpace (te_AccessToken response) = [] then (w, Inl MissingAccess)
              else
                let tokens = (if TrimSpace (te_RefreshToken response) = [] then response\<lparr>te_RefreshToken := token\<rparr>
                              else response)
                in case GetUserProfileWithToken K c (te_AccessToken tokens) w of
                     (w1, Inl e) \<Rightarrow> (w1, Inl (ProfileFailed e))
                   | (w1, Inr profile) \<Rightarrow>
                       let userInfo = session_of (dc_now (ac_db c)) profile tokens
                       in case save_session c userInfo w1 of
                            (w2, Some e) \<Rightarrow> (w2, Inl (SaveFailed e))
                          | (w2, None) \<Rightarrow>
                              (SetHasLocalUserInfo True (startTokenRefresh w2), Inr (stamped (ac_db c) userInfo)))"

text \<open>The whole call when no other goroutine runs in between: \<open>c0\<close> holds the outcomes before the lock.\<close>

definition RefreshSession ::
  "auth_codec \<Rightarrow> auth_call \<Rightarrow> auth_call \<Rightarrow> string \<Rightarrow> auth_world \<Rightarrow> auth_world \<times> (auth_error + UserInfo)" where
  "RefreshSession K c0 c refreshToken w =
     (case refresh_resolve c0 refreshToken w of (w1, token) \<Rightarrow>
        if token = [] then (w1, Inl EmptyRefreshToken)
        else case refresh_choose c token w1 of
               (w2, ChoiceReuse current) \<Rightarrow> (w2, Inr current)
             | (w2, ChoiceFail e) \<Rightarrow> (w2, Inl e)
             | (w2, ChoiceSend t) \<Rightarrow> refresh_finish K c t w2)"

section \<open>Logging in and out\<close>

definition LoginWithPassword ::
  "auth_codec \<Rightarrow> auth_call \<Rightarrow> string \<Rightarrow> string \<Rightarrow> string \<Rightarrow> auth_world \<Rightarrow> auth_world \<times> (auth_error + UserInfo)" where
  "LoginWithPassword K c email password turnstileToken w =
     (if TrimSpace email = [] then (w, Inl EmptyEmail)
      else if TrimSpace password = [] then (w, Inl EmptyPassword)
      else case built_url GetAuthLoginURL (ac_config c) of Inl e \<Rightarrow> (w, Inl (UrlFailed e))
      | Inr _ \<Rightarrow>
        let turnstile = (if TrimSpace turnstileToken = [] then None else Some (TrimSpace turnstileToken));
            w1 = logged (LoginSent (TrimSpace email) password turnstile) w
        in case read_body (ac_reply c) of
             Inl e \<Rightarrow> (w1, Inl e)
           | Inr (st, body) \<Rightarrow>
               if st \<noteq> 200 then (w1, Inl (BadStatus st body))
               else case decode_tokens K body of None \<Rightarrow> (w1, Inl ParseFailed)
               | Some response \<Rightarrow>
                   if TrimSpace (te_AccessToken response) = [] then (w1, Inl MissingAccess)
                   else if TrimSpace (te_RefreshToken response) = [] then (w1, Inl MissingRefresh)
                   else case GetUserProfileWithToken K c (te_AccessToken response) w1 of
                          (w2, Inl e) \<Rightarrow> (w2, Inl (ProfileFailed e))
                        | (w2, Inr profile) \<Rightarrow>
                            let userInfo = session_of (dc_now (ac_db c)) profile response;
                                w3 = fst (save_session c userInfo w2)
                            in (SetHasLocalUserInfo True (SetUsingDefaultConfig False (startTokenRefresh w3)),
                                Inr (stamped (ac_db c) userInfo)))"

text \<open>
  Restoring the session at start: \<open>c\<close> holds the outcomes of the call itself, \<open>c0\<close> and \<open>c1\<close> those of the
  refresh it makes.
\<close>

definition RestoreSession ::
  "auth_codec \<Rightarrow> auth_call \<Rightarrow> auth_call \<Rightarrow> auth_call \<Rightarrow> auth_world \<Rightarrow> auth_world \<times> (auth_error + UserInfo)" where
  "RestoreSession K c c0 c1 w =
     (case LoadUserInfo (ac_db c) w of
        (w1, Inl e) \<Rightarrow> (w1, Inl (LoadFailed e))
      | (w1, Inr localUserInfo) \<Rightarrow>
          (case RefreshSession K c0 c1 (ui_RefreshToken localUserInfo) w1 of
             (w2, Inr refreshed) \<Rightarrow> (w2, Inr refreshed)
           | (w2, Inl refreshErr) \<Rightarrow>
               if refreshErr = SessionExpired then (w2, Inl refreshErr)
               else if \<not> has_access localUserInfo then
                 (SetHasLocalUserInfo True (startTokenRefresh w2), Inr localUserInfo)
               else case GetUserProfileWithToken K c (ui_AccessToken localUserInfo) w2 of
                      (w3, Inl _) \<Rightarrow> (SetHasLocalUserInfo True (startTokenRefresh w3), Inr localUserInfo)
                    | (w3, Inr profile) \<Rightarrow>
                        let latestProfile = (buildUserInfoFromProfile (dc_now (ac_db c)) profile)
                              \<lparr>ui_AccessToken := ui_AccessToken localUserInfo, ui_RefreshToken := ui_RefreshToken localUserInfo,
                               ui_TokenType := ui_TokenType localUserInfo, ui_ExpiresIn := ui_ExpiresIn localUserInfo,
                               ui_UpdatedAt := dc_now (ac_db c)\<rparr>;
                            w4 = fst (save_session c latestProfile w3)
                        in (SetHasLocalUserInfo True (startTokenRefresh w4), Inr (stamped (ac_db c) latestProfile))))"

definition ActivateToken ::
  "auth_codec \<Rightarrow> auth_call \<Rightarrow> auth_call \<Rightarrow> auth_call \<Rightarrow> string \<Rightarrow> auth_world \<Rightarrow> auth_world \<times> (auth_error + UserInfo)" where
  "ActivateToken K c c0 c1 token w =
     (if token = [] then (w, Inl EmptyToken)
      else case RefreshSession K c0 c1 token w of
             (w1, Inr userInfo) \<Rightarrow> (w1, Inr userInfo)
           | (w1, Inl _) \<Rightarrow>
               (case LoadUserInfo (ac_db c) w1 of
                  (w2, Inr localUserInfo) \<Rightarrow> (startTokenRefresh w2, Inr localUserInfo)
                | (w2, Inl e) \<Rightarrow> (w2, Inl (LoadFailed e))))"

definition LogoutSession :: "auth_call \<Rightarrow> string \<Rightarrow> auth_world \<Rightarrow> auth_world \<times> auth_error option" where
  "LogoutSession c refreshToken w =
     (let (w1, token) = refresh_resolve c refreshToken w
      in case built_url GetAuthLogoutURL (ac_config c) of Inl e \<Rightarrow> (w1, Some (UrlFailed e))
         | Inr _ \<Rightarrow>
             (logged (LogoutSent token) w1,
              case ac_reply c of
                NoReply \<Rightarrow> Some SendFailed
              | BrokenReply st \<Rightarrow> if st \<noteq> 200 then Some (BadStatus st []) else None
              | Reply st body \<Rightarrow> if st \<noteq> 200 then Some (BadStatus st body) else None))"

section \<open>The user's profile\<close>

definition resolveAccessToken :: "auth_call \<Rightarrow> auth_world \<Rightarrow> auth_world \<times> (auth_error + string)" where
  "resolveAccessToken c w =
     (case GetCurrentUserInfoOrLoad (ac_db c) w of
        (w1, None) \<Rightarrow> (w1, Inl NoSession)
      | (w1, Some current) \<Rightarrow>
          (w1, let token = TrimSpace (ui_AccessToken current) in if token = [] then Inl MissingAccess else Inr token))"

definition UpdateUserProfile ::
  "auth_codec \<Rightarrow> auth_call \<Rightarrow> string \<Rightarrow> auth_world \<Rightarrow> auth_world \<times> (auth_error + UserProfile)" where
  "UpdateUserProfile K c username w =
     (let trimmed = TrimSpace username in
      if trimmed = [] then (w, Inl EmptyUsername)
      else case resolveAccessToken c w of
        (w1, Inl e) \<Rightarrow> (w1, Inl e)
      | (w1, Inr _) \<Rightarrow>
          (case built_url GetUserUpdateURL (ac_config c) of Inl e \<Rightarrow> (w1, Inl (UrlFailed e))
           | Inr _ \<Rightarrow>
               (case resolveAccessToken c w1 of
                  (w2, Inl e) \<Rightarrow> (w2, Inl e)
                | (w2, Inr authToken) \<Rightarrow>
                    let w3 = logged (UpdateSent authToken trimmed) w2 in
                    case callAuthenticatedAPI (ac_reply c) of Inl e \<Rightarrow> (w3, Inl e)
                    | Inr body \<Rightarrow>
                        (case decode_profile K body of None \<Rightarrow> (w3, Inl ParseFailed)
                         | Some profile \<Rightarrow>
                             (case GetCurrentUserInfo w3 of None \<Rightarrow> (w3, Inr profile)
                              | Some current \<Rightarrow>
                                  let applied = applyUserProfileToUserInfo current profile;
                                      named = (if TrimSpace (ui_Username applied) = [] then applied\<lparr>ui_Username := trimmed\<rparr>
                                               else applied)
                                  in (fst (save_session c (named\<lparr>ui_UpdatedAt := dc_now (ac_db c)\<rparr>) w3), Inr profile))))))"

section \<open>The refresh loop\<close>

definition isTokenExpired :: "time \<Rightarrow> UserInfo option \<Rightarrow> bool" where
  "isTokenExpired now info =
     (case info of None \<Rightarrow> True
      | Some i \<Rightarrow>
          if sint (ui_ExpiresIn i) \<le> 0 then True
          else
            let expireTime = ui_UpdatedAt i + sint (ui_ExpiresIn i * 1000000000) - 5 * 60 * second
            in now > expireTime)"

definition refreshUserInfo ::
  "auth_codec \<Rightarrow> auth_call \<Rightarrow> auth_call \<Rightarrow> auth_call \<Rightarrow> auth_world \<Rightarrow> auth_world \<times> auth_error option" where
  "refreshUserInfo K c c0 c1 w =
     (case GetCurrentUserInfoOrLoad (ac_db c) w of
        (w1, None) \<Rightarrow> (w1, Some NoUserInfo)
      | (w1, Some currentInfo) \<Rightarrow>
          if isTokenExpired (dc_now (ac_db c)) (Some currentInfo) then
            (case RefreshSession K c0 c1 (ui_RefreshToken currentInfo) w1 of
               (w2, Inl e) \<Rightarrow> (w2, Some (RefreshFailed e)) | (w2, Inr _) \<Rightarrow> (w2, None))
          else
            (case RefreshSession K c0 c1 (ui_RefreshToken currentInfo) w1 of
               (w2, Inl e) \<Rightarrow> (w2, Some (RefreshFailed e)) | (w2, Inr _) \<Rightarrow> (w2, None)))"

text \<open>
  One round of the loop of refresher \<open>i\<close>: it ends on the stop signal, or it takes a tick and
  refreshes. The ticker puts at most one tick into its channel.
\<close>

definition loop_done :: "nat \<Rightarrow> auth_world \<Rightarrow> auth_world" where
  "loop_done i w =
     on_refresher i (\<lambda>tr. if tr_done tr \<and> tr_loops tr > 0 then tr\<lparr>tr_done := False, tr_loops := tr_loops tr - 1\<rparr> else tr) w"

definition ticker_fires :: "nat \<Rightarrow> auth_world \<Rightarrow> auth_world" where
  "ticker_fires i w = on_refresher i (\<lambda>tr. if tr_ticker tr then tr\<lparr>tr_tick := True\<rparr> else tr) w"

definition loop_tick :: "auth_codec \<Rightarrow> auth_call \<Rightarrow> auth_call \<Rightarrow> auth_call \<Rightarrow> nat \<Rightarrow> auth_world \<Rightarrow> auth_world" where
  "loop_tick K c c0 c1 i w =
     (if i < length (au_refreshers w) \<and> tr_loops (au_refreshers w ! i) > 0 \<and> tr_tick (au_refreshers w ! i) then
        (case refreshUserInfo K c c0 c1 (on_refresher i (\<lambda>tr. tr\<lparr>tr_tick := False\<rparr>) w) of
           (w1, Some e) \<Rightarrow> on_refresher i (\<lambda>tr. tr\<lparr>tr_lastError := Some e, tr_lastErrorTime := dc_now (ac_db c)\<rparr>) w1
         | (w1, None) \<Rightarrow> on_refresher i (\<lambda>tr. tr\<lparr>tr_lastError := None\<rparr>) w1)
      else w)"

section \<open>Histories\<close>

text \<open>The part of a logout that concerns the session: the remote call may fail, the cleanup follows.\<close>

definition logout_session :: "auth_call \<Rightarrow> string \<Rightarrow> auth_world \<Rightarrow> auth_world" where
  "logout_session c refreshToken w =
     fst (delete_session c (StopTokenRefresh (fst (LogoutSession c refreshToken w))))"

text \<open>Calls that run one after the other.\<close>

datatype auth_op =
    OpLogin auth_call string string string
  | OpRestore auth_call auth_call auth_call
  | OpActivate auth_call auth_call auth_call string
  | OpRefresh auth_call auth_call string
  | OpUpdateProfile auth_call string
  | OpLogout auth_call string
  | OpHeader auth_call
  | OpFires nat
  | OpTick nat auth_call auth_call auth_call
  | OpDone nat

fun auth_step :: "auth_codec \<Rightarrow> auth_op \<Rightarrow> auth_world \<Rightarrow> auth_world" where
  "auth_step K (OpLogin c email password turnstile) w = fst (LoginWithPassword K c email password turnstile w)"
| "auth_step K (OpRestore c c0 c1) w = fst (RestoreSession K c c0 c1 w)"
| "auth_step K (OpActivate c c0 c1 token) w = fst (ActivateToken K c c0 c1 token w)"
| "auth_step K (OpRefresh c0 c token) w = fst (RefreshSession K c0 c token w)"
| "auth_step K (OpUpdateProfile c username) w = fst (UpdateUserProfile K c username w)"
| "auth_step K (OpLogout c token) w = logout_session c token w"
| "auth_step K (OpHeader c) w = fst (GetCurrentAuthorizationHeader (ac_db c) w)"
| "auth_step K (OpFires i) w = ticker_fires i w"
| "auth_step K (OpTick i c c0 c1) w = loop_tick K c c0 c1 i w"
| "auth_step K (OpDone i) w = loop_done i w"

definition auth_run :: "auth_codec \<Rightarrow> auth_op list \<Rightarrow> auth_world \<Rightarrow> auth_world" where
  "auth_run K ops w = fold (auth_step K) ops w"

definition refresher_idle :: "TokenRefresher \<Rightarrow> bool" where
  "refresher_idle tr \<longleftrightarrow> \<not> tr_isRunning tr \<and> \<not> tr_ticker tr \<and> tr_loops tr = (if tr_done tr then 1 else 0)"

definition refresher_active :: "TokenRefresher \<Rightarrow> bool" where
  "refresher_active tr \<longleftrightarrow> tr_isRunning tr \<and> tr_ticker tr \<and> \<not> tr_done tr \<and> tr_loops tr = 1"

definition refreshers_ok :: "auth_world \<Rightarrow> bool" where
  "refreshers_ok w \<longleftrightarrow>
     (let rs = au_refreshers w in
      au_refresher w = (if rs = [] then None else Some (length rs - 1)) \<and>
      (\<forall>i<length rs. refresher_idle (rs ! i) \<or> Suc i = length rs \<and> refresher_active (rs ! i)))"

text \<open>The invariant of every history of calls that do not overlap.\<close>

definition world_ok :: "auth_world \<Rightarrow> bool" where
  "world_ok w \<longleftrightarrow> session_agrees w \<and> refreshers_ok w"

section \<open>The invariant\<close>

lemma persisted_cong:
  "us_token s = us_token t \<Longrightarrow> us_profile s = us_profile t \<Longrightarrow> persisted s = persisted t"
  by (simp add: persisted_def split: option.split)

lemma persisted_frames [simp]:
  "persisted (w\<lparr>au_events := x\<rparr>) = persisted w"
  "persisted (w\<lparr>au_refreshers := rs\<rparr>) = persisted w"
  "persisted (w\<lparr>au_refresher := r\<rparr>) = persisted w"
  "persisted (w\<lparr>au_hasLocal := b\<rparr>) = persisted w"
  "persisted (w\<lparr>au_usingDefault := b\<rparr>) = persisted w"
  "persisted (w\<lparr>au_notified := n\<rparr>) = persisted w"
  by (rule persisted_cong; simp)+

lemma session_agrees_frames [simp]:
  "session_agrees (w\<lparr>au_events := x\<rparr>) = session_agrees w"
  "session_agrees (w\<lparr>au_refreshers := rs\<rparr>) = session_agrees w"
  "session_agrees (w\<lparr>au_refresher := r\<rparr>) = session_agrees w"
  "session_agrees (w\<lparr>au_hasLocal := b\<rparr>) = session_agrees w"
  "session_agrees (w\<lparr>au_usingDefault := b\<rparr>) = session_agrees w"
  "session_agrees (w\<lparr>au_notified := n\<rparr>) = session_agrees w"
  by (simp_all add: session_agrees_alt)

lemma refreshers_cong:
  "au_refreshers v = au_refreshers w \<Longrightarrow> au_refresher v = au_refresher w \<Longrightarrow> refreshers_ok v = refreshers_ok w"
  by (simp add: refreshers_ok_def)

text \<open>What only touches the flags, and events.\<close>

lemma world_ok_flags [simp]:
  "world_ok (SetHasLocalUserInfo b w) = world_ok w"
  "world_ok (SetUsingDefaultConfig b w) = world_ok w"
  "world_ok (w\<lparr>au_notified := n\<rparr>) = world_ok w"
  by (auto simp: world_ok_def SetHasLocalUserInfo_def SetUsingDefaultConfig_def refreshers_ok_def)

lemma world_ok_logged [simp]:
  "world_ok (logged ev w) = world_ok w"
  by (auto simp: world_ok_def logged_def refreshers_ok_def)

text \<open>Refreshers.\<close>

lemma refreshers_on:
  assumes "refreshers_ok w" "\<And>tr. refresher_idle tr \<Longrightarrow> refresher_idle (f tr)"
    and "\<And>tr. refresher_active tr \<Longrightarrow> refresher_idle (f tr) \<or> refresher_active (f tr)"
  shows "refreshers_ok (on_refresher i f w)"
  using assms unfolding refreshers_ok_def on_refresher_def Let_def
  by (auto simp: nth_list_update)

lemma world_ok_on:
  assumes "world_ok w" "\<And>tr. refresher_idle tr \<Longrightarrow> refresher_idle (f tr)"
    and "\<And>tr. refresher_active tr \<Longrightarrow> refresher_idle (f tr) \<or> refresher_active (f tr)"
  shows "world_ok (on_refresher i f w)"
proof -
  have "refreshers_ok (on_refresher i f w)" using assms by (intro refreshers_on) (auto simp: world_ok_def)
  then show ?thesis
    using assms(1) by (auto simp: world_ok_def on_refresher_def)
qed

lemma world_ok_stop [simp]: "world_ok w \<Longrightarrow> world_ok (StopTokenRefresh w)"
  unfolding StopTokenRefresh_def
  by (auto split: option.split intro!: world_ok_on simp: refresher_idle_def refresher_active_def Refresher_Stop_def)

lemma refreshers_launch:
  assumes "refreshers_ok w" "\<not> refresher_running w"
  shows "refreshers_ok (launch_refresher w)"
proof -
  let ?rs = "au_refreshers w"
  have idle: "refresher_idle (?rs ! i)" if "i < length ?rs" for i
  proof -
    from that have p: "au_refresher w = Some (length ?rs - 1)"
      using assms(1) by (auto simp: refreshers_ok_def Let_def)
    then have "\<not> tr_isRunning (?rs ! (length ?rs - 1))"
      using assms(2) that by (auto simp: refresher_running_def Refresher_IsRunning_def)
    then have "\<not> refresher_active (?rs ! (length ?rs - 1))" by (simp add: refresher_active_def)
    moreover have "refresher_idle (?rs ! i) \<or> Suc i = length ?rs \<and> refresher_active (?rs ! i)"
      using assms(1) that by (simp add: refreshers_ok_def Let_def)
    ultimately show ?thesis by (metis diff_Suc_1)
  qed
  have "refresher_active (Refresher_Start NewTokenRefresher)"
    by (simp add: refresher_active_def Refresher_Start_def NewTokenRefresher_def)
  with idle show ?thesis
    by (auto simp: refreshers_ok_def launch_refresher_def on_refresher_def Let_def nth_append)
qed

lemma world_ok_start [simp]: "world_ok w \<Longrightarrow> world_ok (startTokenRefresh w)"
  using refreshers_launch [of w]
  by (auto simp: world_ok_def startTokenRefresh_def launch_refresher_def on_refresher_def Let_def)

text \<open>The session itself.\<close>

lemma or_load_frame:
  "GetCurrentUserInfoOrLoad c w = (w', r) \<Longrightarrow>
     au_events w' = au_events w \<and> au_refreshers w' = au_refreshers w \<and> au_refresher w' = au_refresher w
     \<and> us_current w' = r \<and> (us_current w \<noteq> None \<longrightarrow> w' = w)"
  by (auto simp: GetCurrentUserInfoOrLoad_def GetCurrentUserInfo_def load_cases Let_def split: option.splits if_splits)

lemma world_ok_or_load:
  assumes "world_ok w" "GetCurrentUserInfoOrLoad c w = (w', r)" shows "world_ok w'"
  using assms session_agrees_or_load [of w c] or_load_frame [OF assms(2)] refreshers_cong [of w' w]
  by (simp add: world_ok_def)

lemma world_ok_load:
  assumes "world_ok w" "LoadUserInfo c w = (w', r)" shows "world_ok w'"
proof -
  have "au_refreshers w' = au_refreshers w" "au_refresher w' = au_refresher w"
    using assms(2) by (auto simp: load_cases Let_def split: if_splits)
  then show ?thesis
    using assms session_agrees_load [of w c] refreshers_cong [of w' w] by (simp add: world_ok_def)
qed

lemma world_ok_save:
  assumes "world_ok w" "save_session c i w = (w', r)" shows "world_ok w'"
proof -
  have "session_agrees (fst (SaveUserInfo (ac_db c) (Some i) w))" by (rule session_agrees_save) (use assms(1) in \<open>simp add: world_ok_def\<close>)
  then show ?thesis
    using assms
    by (auto simp: world_ok_def save_session_def save_cases logged_def refreshers_ok_def Let_def split: if_splits)
qed

lemma world_ok_delete:
  assumes "world_ok w" "delete_session c w = (w', r)" shows "world_ok w'"
  using assms
  by (auto simp: world_ok_def delete_session_def delete_cases logged_def session_agrees_alt refreshers_ok_def Let_def
      split: if_splits)

lemma world_ok_forget: "world_ok w \<Longrightarrow> world_ok (SetCurrentUserInfo None w)"
  by (auto simp: world_ok_def SetCurrentUserInfo_def session_agrees_alt refreshers_ok_def)

lemma world_ok_clear: "world_ok w \<Longrightarrow> world_ok (clearLocalSessionAfterInvalidRefreshToken c w)"
  unfolding clearLocalSessionAfterInvalidRefreshToken_def Let_def
  by (auto split: prod.split option.split intro: world_ok_delete [OF world_ok_stop] intro!: world_ok_forget)

lemma world_ok_profile: "world_ok w \<Longrightarrow> GetUserProfileWithToken K c a w = (w', r) \<Longrightarrow> world_ok w'"
  by (auto simp: GetUserProfileWithToken_def split: if_splits sum.splits)

lemma world_ok_resolve: "world_ok w \<Longrightarrow> refresh_resolve c a w = (w', r) \<Longrightarrow> world_ok w'"
  by (auto simp: refresh_resolve_def Let_def split: if_splits prod.splits option.splits intro: world_ok_or_load)

lemma world_ok_choose: "world_ok w \<Longrightarrow> refresh_choose c tok w = (w', r) \<Longrightarrow> world_ok w'"
  by (auto simp: refresh_choose_def Let_def split: if_splits sum.splits prod.splits dest: world_ok_or_load)

lemma world_ok_finish:
  assumes "world_ok w" shows "world_ok (fst (refresh_finish K c tok w))"
  using assms unfolding refresh_finish_def Let_def
  by (auto split: sum.split option.split prod.split intro: world_ok_profile world_ok_save intro!: world_ok_clear world_ok_start)

lemma world_ok_refresh: "world_ok w \<Longrightarrow> RefreshSession K c0 c tok w = (w', r) \<Longrightarrow> world_ok w'"
  using world_ok_finish [of _ K c]
  by (auto simp: RefreshSession_def split: prod.splits refresh_choice.splits if_splits
      dest: world_ok_resolve world_ok_choose)
     (metis fst_conv world_ok_resolve world_ok_choose)+

lemma world_ok_access: "world_ok w \<Longrightarrow> resolveAccessToken c w = (w', r) \<Longrightarrow> world_ok w'"
  by (auto simp: resolveAccessToken_def split: prod.splits option.splits dest: world_ok_or_load)

lemmas world_ok_calls = world_ok_load [rotated] world_ok_refresh [rotated] world_ok_profile [rotated]
  world_ok_save [rotated] world_ok_access [rotated] world_ok_resolve [rotated] world_ok_delete [rotated]
  world_ok_stop world_ok_logged [THEN iffD2]

lemma world_ok_login: "world_ok w \<Longrightarrow> world_ok (fst (LoginWithPassword K c em pw ts w))"
  unfolding LoginWithPassword_def Let_def
  by (auto split: sum.split option.split prod.split simp: fst_def intro: world_ok_profile intro!: world_ok_start)
     (blast intro: world_ok_calls)+

lemma world_ok_restore: "world_ok w \<Longrightarrow> world_ok (fst (RestoreSession K c c0 c1 w))"
  unfolding RestoreSession_def Let_def
  by (auto split: sum.split option.split prod.split simp: fst_def intro!: world_ok_start)
     (blast intro: world_ok_calls)+

lemma world_ok_activate: "world_ok w \<Longrightarrow> world_ok (fst (ActivateToken K c c0 c1 tok w))"
  unfolding ActivateToken_def
  by (auto split: sum.split prod.split intro!: world_ok_start dest: world_ok_load world_ok_refresh)

lemma world_ok_update: "world_ok w \<Longrightarrow> world_ok (fst (UpdateUserProfile K c name w))"
  unfolding UpdateUserProfile_def Let_def
  by (auto split: sum.split option.split prod.split simp: fst_def) (blast intro: world_ok_calls)+

lemma world_ok_logout: "world_ok w \<Longrightarrow> world_ok (logout_session c tok w)"
  unfolding logout_session_def LogoutSession_def Let_def
  by (auto split: prod.split sum.split simp: fst_def) (blast intro: world_ok_calls)+

lemma world_ok_header: "world_ok w \<Longrightarrow> world_ok (fst (GetCurrentAuthorizationHeader c w))"
  by (auto simp: GetCurrentAuthorizationHeader_def GetCurrentUserInfoWithAccessTokenOrLoad_def Let_def
      split: prod.splits option.splits sum.splits if_splits dest: world_ok_load)

lemma world_ok_user_info: "world_ok w \<Longrightarrow> refreshUserInfo K c c0 c1 w = (w', r) \<Longrightarrow> world_ok w'"
  by (auto simp: refreshUserInfo_def split: prod.splits option.splits sum.splits if_splits
      dest: world_ok_or_load world_ok_refresh)

lemmas refresher_state = refresher_idle_def refresher_active_def

lemma world_ok_tick: "world_ok w \<Longrightarrow> world_ok (loop_tick K c c0 c1 i w)"
  unfolding loop_tick_def
  by (auto split: prod.split option.split intro!: world_ok_on elim!: world_ok_user_info [rotated] simp: refresher_state)

lemma world_ok_step:
  assumes "world_ok w" shows "world_ok (auth_step K op w)"
proof (cases op)
  case (OpRefresh c0 c tok)
  obtain w' r where "RefreshSession K c0 c tok w = (w', r)" by force
  then show ?thesis using assms OpRefresh world_ok_refresh by simp
next
  case (OpFires i)
  then show ?thesis
    using assms by (auto simp: ticker_fires_def refresher_state intro!: world_ok_on)
next
  case (OpDone i)
  then show ?thesis
    using assms by (auto simp: loop_done_def refresher_state intro!: world_ok_on)
qed (use assms in \<open>auto simp: world_ok_login world_ok_restore world_ok_activate world_ok_update
      world_ok_logout world_ok_header world_ok_tick\<close>)

lemma world_ok_run: "world_ok w \<Longrightarrow> world_ok (auth_run K ops w)"
  unfolding auth_run_def by (induction ops arbitrary: w) (auto simp: world_ok_step)

text \<open>A process that starts: nothing in memory, whatever the tables hold.\<close>

definition fresh_process :: "authTokenRecord option \<Rightarrow> authProfileRecord option \<Rightarrow> auth_world" where
  "fresh_process token profile =
     \<lparr>us_current = None, us_token = token, us_profile = profile, us_db = None, au_refreshers = [],
      au_refresher = None, au_hasLocal = False, au_usingDefault = False, au_notified = 0, au_events = []\<rparr>"

lemma world_ok_fresh: "world_ok (fresh_process token profile)"
  by (simp add: fresh_process_def world_ok_def session_agrees_alt refreshers_ok_def)

lemma world_ok_history: "world_ok (auth_run K ops (fresh_process token profile))"
  by (rule world_ok_run) (rule world_ok_fresh)

section \<open>Properties\<close>

lemma restart_header:
  assumes "us_current w = Some u" "persisted w = Some v" "same_session u v"
    and "us_token s = us_token w" "us_profile s = us_profile w" "us_current s = None" "us_db s = None"
    and "dc_opens c" "dc_readsToken c" "dc_readsProfile c"
  shows "snd (GetCurrentAuthorizationHeader c s) = snd (GetCurrentAuthorizationHeader c w)"
proof -
  have p: "persisted s = Some v" using assms(2,4,5) persisted_cong [of s w] by simp
  have acc: "has_access v = has_access u" "ui_AccessToken v = ui_AccessToken u" "ui_TokenType v = ui_TokenType u"
    using same_session_sel [OF assms(3)] by (auto simp: has_access_def)
  show ?thesis
    using assms p acc
    by (auto simp: GetCurrentAuthorizationHeader_def GetCurrentUserInfoWithAccessTokenOrLoad_def GetCurrentUserInfo_def
        load_cases db_open_def has_access_def Let_def)
qed

text \<open>
  C14. What a login or a refresh stores survives the process. A save writes the tables and then, under
  another lock, the session in memory. If the writing of the tables succeeds and no other save or
  deletion touches the tables before the process ends (other goroutines may change the session in
  memory and everything else between the two writes), then a new process that can open and read the
  database loads the session that was saved, up to the time of its last update, and sends the
  authorization header the old process sent for it.
\<close>

theorem session_survives_restart:
  assumes "saveUserInfoToSQLite c (stamped c i) w = (w1, None)"
    and "us_token w2 = us_token w1" "us_profile w2 = us_profile w1"
    and "SetCurrentUserInfo (Some (stamped c i)) w2 = w3"
    and "fresh_process (us_token w3) (us_profile w3) = s"
    and "dc_opens d" "dc_readsToken d" "dc_readsProfile d"
  shows "\<exists>s' v. GetCurrentUserInfoOrLoad d s = (s', Some v) \<and> same_session i v
           \<and> snd (GetCurrentAuthorizationHeader d s) = snd (GetCurrentAuthorizationHeader d w3)"
proof -
  obtain v where "persisted w1 = Some v" "same_session (stamped c i) v"
    using assms(1)
    by (auto simp: saveUserInfoToSQLite_def saveUserInfoWithDB_def Let_def same_session_def split: prod.splits if_splits)
  then have v: "persisted w3 = Some v" "same_session (stamped c i) v"
    using assms(2-4) persisted_cong [of w3 w1] by (auto simp: SetCurrentUserInfo_def)
  have s: "us_token s = us_token w3" "us_profile s = us_profile w3" "us_current s = None" "us_db s = None"
    using assms(5) by (auto simp: fresh_process_def)
  have p: "persisted s = Some v" using persisted_cong [of s w3] s v by simp
  then have "GetCurrentUserInfoOrLoad d s = (s\<lparr>us_db := Some True, us_current := Some v\<rparr>, Some v)"
    using s assms(6-) by (simp add: GetCurrentUserInfoOrLoad_def GetCurrentUserInfo_def load_cases db_open_def)
  moreover have "us_current w3 = Some (stamped c i)" using assms(4) by (auto simp: SetCurrentUserInfo_def)
  ultimately show ?thesis
    using v(2) restart_header [OF _ v s assms(6-)] by (auto simp: same_session_def stamped_def)
qed

text \<open>The loops that have not been told to stop.\<close>

lemma working_loops:
  assumes "refreshers_ok v"
  shows "filter (\<lambda>tr. 0 < tr_loops tr \<and> \<not> tr_done tr) (au_refreshers v)
      = (if refresher_running v then [last (au_refreshers v)] else [])" (is "filter ?P _ = _")
proof -
  have idle: "\<not> ?P tr" if "refresher_idle tr" for tr using that by (auto simp: refresher_idle_def)
  show ?thesis
  proof (cases "au_refreshers v" rule: rev_cases)
    case Nil
    then show ?thesis using assms by (auto simp: refreshers_ok_def refresher_running_def)
  next
    case (snoc xs x)
    have "refresher_idle y" if "y \<in> set xs" for y
    proof -
      from that obtain i where "i < length xs" "xs ! i = y" by (auto simp: in_set_conv_nth)
      moreover from this have "refresher_idle ((xs @ [x]) ! i) \<or> Suc i = Suc (length xs)"
        using assms snoc unfolding refreshers_ok_def Let_def by (metis length_append_singleton less_SucI)
      ultimately show ?thesis by (simp add: nth_append)
    qed
    then have "filter ?P xs = []" using idle by (auto simp: filter_empty_conv)
    moreover have "refresher_idle x \<or> refresher_active x" "au_refresher v = Some (length xs)"
      using assms snoc by (auto simp: refreshers_ok_def Let_def nth_append dest: spec [of _ "length xs"])
    ultimately show ?thesis
      using snoc by (auto simp: refresher_running_def Refresher_IsRunning_def nth_append refresher_state)
  qed
qed

text \<open>
  At most one refresh loop works as long as the starts and stops of the refresher do not overlap: after
  calls that ran one after the other, exactly one goroutine of a refresh loop has not been told to stop
  if the current refresher runs, and none otherwise; stopping the refresher leaves none; no refresher
  has two goroutines. Starts that overlap break it, see \<open>racing_starts_leak_loop\<close>.
\<close>

lemma one_refresh_loop:
  "let w = auth_run K ops (fresh_process token profile);
       working = filter (\<lambda>tr. 0 < tr_loops tr \<and> \<not> tr_done tr)
   in length (working (au_refreshers w)) = (if refresher_running w then 1 else 0)
      \<and> working (au_refreshers (StopTokenRefresh w)) = [] \<and> list_all (\<lambda>tr. tr_loops tr \<le> 1) (au_refreshers w)"
proof -
  define w where "w = auth_run K ops (fresh_process token profile)"
  let ?rs = "au_refreshers w"
  have ok: "refreshers_ok w" using world_ok_history [of K ops token profile] by (simp add: world_ok_def w_def)
  have "world_ok (StopTokenRefresh w)" unfolding w_def by (rule world_ok_stop) (rule world_ok_history)
  then have stopped: "refreshers_ok (StopTokenRefresh w)" by (simp add: world_ok_def)
  have "\<not> refresher_running (StopTokenRefresh w)"
    by (auto simp: refresher_running_def StopTokenRefresh_def on_refresher_def Refresher_IsRunning_def Refresher_Stop_def
        split: option.splits)
  moreover have "list_all (\<lambda>tr. tr_loops tr \<le> 1) ?rs"
    using ok by (auto simp: list_all_length refreshers_ok_def Let_def refresher_state split: if_splits)
  ultimately show ?thesis unfolding w_def [symmetric] Let_def using working_loops [OF ok] working_loops [OF stopped] by simp
qed

section \<open>Examples\<close>

definition sample_profile :: UserProfile where
  "sample_profile = \<lparr>up_ID = 7, up_Email = ''u@example'', up_Username = [], up_Role = ''user'', up_Balance = 0,
     up_Concurrency = 1, up_Status = [], up_AllowedGroups = [3, - 4], up_CreatedAt = [], up_UpdatedAt = []\<rparr>"

definition sample_codec :: auth_codec where
  "sample_codec = \<lparr>decode_tokens = (\<lambda>b. Some \<lparr>te_AccessToken = ''a'' @ b, te_RefreshToken = ''r'' @ b, te_ExpiresIn = 3600,
                                              te_TokenType = []\<rparr>),
     decode_profile = (\<lambda>_. Some sample_profile), decode_error = (\<lambda>_. None)\<rparr>"

definition sample_db :: db_call where
  "sample_db = \<lparr>dc_now = 5, dc_opens = True, dc_readsToken = True, dc_readsProfile = True, dc_commits = True,
     dc_stampToken = (\<lambda>t. t + 1), dc_stampProfile = (\<lambda>t. t + 2)\<rparr>"

definition sample_auth_call :: "string \<Rightarrow> auth_call" where
  "sample_auth_call body = \<lparr>ac_db = sample_db, ac_config = Some example_config, ac_reply = Reply 200 body, ac_profile = Reply 200 []\<rparr>"

definition sample_info :: UserInfo where
  "sample_info = session_of 5 sample_profile \<lparr>te_AccessToken = ''a1'', te_RefreshToken = ''r1'', te_ExpiresIn = 3600, te_TokenType = []\<rparr>"

text \<open>Between the two writes of the save another goroutine has forgotten the session in memory.\<close>

theorem session_survives_restart_witness:
  "let w1 = fst (saveUserInfoToSQLite sample_db (stamped sample_db sample_info) (fresh_process None None));
       w3 = SetCurrentUserInfo (Some (stamped sample_db sample_info)) (SetCurrentUserInfo None w1)
   in \<exists>s' v. GetCurrentUserInfoOrLoad sample_db (fresh_process (us_token w3) (us_profile w3)) = (s', Some v)
        \<and> ui_AccessToken v = ''a1''"
proof -
  define w1 where "w1 = fst (saveUserInfoToSQLite sample_db (stamped sample_db sample_info) (fresh_process None None))"
  have save: "saveUserInfoToSQLite sample_db (stamped sample_db sample_info) (fresh_process None None) = (w1, None)"
    by (simp add: w1_def saveUserInfoToSQLite_def saveUserInfoWithDB_def getAuthSessionDB_def sample_db_def fresh_process_def)
  have rows: "us_token (SetCurrentUserInfo None w1) = us_token w1" "us_profile (SetCurrentUserInfo None w1) = us_profile w1"
    by (simp_all add: SetCurrentUserInfo_def)
  have db: "dc_opens sample_db" "dc_readsToken sample_db" "dc_readsProfile sample_db" by (simp_all add: sample_db_def)
  have tok: "ui_AccessToken sample_info = ''a1''" by (simp add: sample_info_def session_of_def)
  show ?thesis
    unfolding Let_def w1_def [symmetric]
    using session_survives_restart [OF save rows refl refl db] tok same_session_sel by metis
qed

section \<open>What goes wrong\<close>

text \<open>
  The server has granted a refresh and replaced the token, but the profile cannot be fetched: the new
  tokens are dropped, and the session keeps the old refresh token, which the next refresh sends.
\<close>

lemma granted_token_lost:
  assumes "ac_reply c = Reply 200 body" "decode_tokens K body = Some response"
    and "TrimSpace (te_AccessToken response) \<noteq> []" "ac_config c = Some example_config" "ac_profile c = NoReply"
  shows "\<exists>w'. refresh_finish K c tok w = (w', Inl (ProfileFailed SendFailed)) \<and> us_current w' = us_current w
          \<and> us_token w' = us_token w"
proof -
  have "built_url GetUserProfileURL (Some example_config) = Inr ''https://api.example/api/v1/user/profile''" by code_simp
  then show ?thesis
    using assms
    by (auto simp: refresh_finish_def read_body_def GetUserProfileWithToken_def callAuthenticatedAPI_def logged_def Let_def)
qed

text \<open>A login whose session cannot be stored is reported as a success although no session is held.\<close>

lemma login_without_session:
  "\<exists>w' u. LoginWithPassword sample_codec ((sample_auth_call ''1'')\<lparr>ac_db := sample_db\<lparr>dc_commits := False\<rparr>\<rparr>)
            ''u@example'' ''secret'' [] (fresh_process None None) = (w', Inr u)
          \<and> us_current w' = None \<and> us_token w' = None \<and> au_hasLocal w'"
proof -
  let ?r = "LoginWithPassword sample_codec ((sample_auth_call ''1'')\<lparr>ac_db := sample_db\<lparr>dc_commits := False\<rparr>\<rparr>)
            ''u@example'' ''secret'' [] (fresh_process None None)"
  have "\<not> isl (snd ?r) \<and> us_current (fst ?r) = None \<and> us_token (fst ?r) = None \<and> au_hasLocal (fst ?r)" by code_simp
  then show ?thesis by (metis prod.collapse sum.collapse(2))
qed

text \<open>
  A session found expired whose rows cannot be deleted is forgotten in memory only, and the next
  reader loads it again.
\<close>

lemma expired_session_comes_back:
  assumes "us_db w = Some True" "persisted w = Some v" "\<not> dc_commits (ac_db c)" "dc_readsToken d" "dc_readsProfile d"
  shows "snd (GetCurrentUserInfoOrLoad d (clearLocalSessionAfterInvalidRefreshToken c w)) = Some v"
proof -
  let ?w = "clearLocalSessionAfterInvalidRefreshToken c w"
  have stop: "us_token (StopTokenRefresh w) = us_token w" "us_profile (StopTokenRefresh w) = us_profile w"
    "us_db (StopTokenRefresh w) = us_db w"
    by (auto simp: StopTokenRefresh_def on_refresher_def split: option.splits)
  have w: "us_token ?w = us_token w" "us_profile ?w = us_profile w" "us_db ?w = Some True" "us_current ?w = None"
    using assms(1,3) stop
    by (simp_all add: clearLocalSessionAfterInvalidRefreshToken_def delete_session_def delete_cases db_open_def logged_def
        SetHasLocalUserInfo_def SetCurrentUserInfo_def Let_def)
  then have "persisted ?w = Some v" using persisted_cong [of ?w w] assms(2) by simp
  then show ?thesis
    using w assms(4,5) by (simp add: GetCurrentUserInfoOrLoad_def GetCurrentUserInfo_def load_cases db_open_def Let_def)
qed

text \<open>A refresh whose answer arrives after a logout stores the session again.\<close>

lemma logout_undone_by_refresh:
  "refresh_finish K c tok (logout_session d a w) = (w', Inr u) \<Longrightarrow> us_current w' = Some u"
  by (auto simp: refresh_finish_def save_session_def save_cases logged_def SetHasLocalUserInfo_def startTokenRefresh_def
      launch_refresher_def on_refresher_def Let_def split: sum.splits prod.splits if_splits option.splits)

text \<open>
  Two callers that both find no running refresher both launch one; stopping reaches only the second,
  and the loop of the first works on.
\<close>

lemma racing_starts_leak_loop:
  assumes "refreshers_ok w" "\<not> refresher_running w"
  shows "\<exists>tr\<in>set (au_refreshers (StopTokenRefresh (launch_refresher (launch_refresher w)))). refresher_active tr"
proof -
  have "refresher_active (Refresher_Start NewTokenRefresher)"
    by (simp add: refresher_active_def Refresher_Start_def NewTokenRefresher_def)
  then show ?thesis
    by (auto simp: launch_refresher_def StopTokenRefresh_def on_refresher_def Let_def nth_append list_update_append)
qed

text \<open>Two saves that overlap leave one session in the tables and the other in memory.\<close>

lemma overlapping_saves_diverge:
  assumes "us_db w = Some True" "dc_commits c" "dc_commits d" "\<not> same_session i j"
  shows "\<not> session_agrees (SetCurrentUserInfo (Some i) (fst (SaveUserInfo d (Some j) (fst (saveUserInfoToSQLite c i w)))))"
  using assms
  by (auto simp: save_cases saveUserInfoToSQLite_def saveUserInfoWithDB_def getAuthSessionDB_def db_open_def Let_def
      SetCurrentUserInfo_def session_agrees_alt stamped_def same_session_def persisted_save [simplified])

text \<open>A database that could not be opened once is never opened again by the process.\<close>

lemma open_failure_sticks:
  "us_db s = Some False \<Longrightarrow> snd (SaveUserInfo c (Some i) s) = Some OpenError \<and> snd (LoadUserInfo c s) = Inl OpenError"
  by (simp add: save_cases load_cases db_open_def Let_def)

end
