(* ===== verification/Session_Steps.thy ===== *)
theory Session_Steps
  imports Auth_Session
begin

text \<open>
  The calls of \<open>Session_Store\<close> and \<open>Auth_Session\<close> as goroutines that overlap: \<^verbatim>\<open>src/processor/auth/user_info.go\<close>,
  \<^verbatim>\<open>state.go\<close>, \<^verbatim>\<open>user.go\<close>, \<^verbatim>\<open>token_activate.go\<close>, \<^verbatim>\<open>token_refresh.go\<close>, \<^verbatim>\<open>errors.go\<close> and \<^verbatim>\<open>user_center.go\<close>.

  A call is a program of steps. A step is one access to what the goroutines share: the session in
  memory (under \<^verbatim>\<open>userInfoMutex\<close>), one statement or transaction of the database, the opening of the database
  (a \<^verbatim>\<open>sync.Once\<close>), the variable of the refresher, a refresher (under its own mutex), a flag, a request to
  the server. Taking and giving back \<^verbatim>\<open>refreshSessionMu\<close> are steps too. Nothing but that lock keeps the steps
  of two calls apart: a save writes the tables in one step and the memory in a later one, a load reads
  the two rows in two steps and writes the memory in a third, and the start of the refresher looks,
  replaces and starts in three.

  A schedule lets the goroutines take turns in any order. The trace of a schedule is what an observer of
  the memory, of the lock and of the network sees: every change of the session in memory, every taking
  and giving back of the lock, every request to refresh.
\<close>

section \<open>Programs\<close>

text \<open>A step has an effect, and what follows it depends on the state the step found.\<close>

datatype 'a prog =
    Ret 'a
  | Step "auth_world \<Rightarrow> auth_world" "auth_world \<Rightarrow> 'a prog"
  | Acquire "'a prog"
  | Release "'a prog"

primrec bind_p :: "'a prog \<Rightarrow> ('a \<Rightarrow> 'b prog) \<Rightarrow> 'b prog" where
  "bind_p (Ret x) f = f x"
| "bind_p (Step e k) f = Step e (\<lambda>w. bind_p (k w) f)"
| "bind_p (Acquire p) f = Acquire (bind_p p f)"
| "bind_p (Release p) f = Release (bind_p p f)"

definition atomically :: "(auth_world \<Rightarrow> auth_world \<times> 'a) \<Rightarrow> 'a prog" where
  "atomically f = Step (\<lambda>w. fst (f w)) (\<lambda>w. Ret (snd (f w)))"

definition look :: "(auth_world \<Rightarrow> 'a) \<Rightarrow> 'a prog" where
  "look g = Step (\<lambda>w. w) (\<lambda>w. Ret (g w))"

definition change :: "(auth_world \<Rightarrow> auth_world) \<Rightarrow> 'a \<Rightarrow> 'a prog" where
  "change e x = Step e (\<lambda>_. Ret x)"

text \<open>A program that nobody interrupts.\<close>

primrec run_p :: "'a prog \<Rightarrow> auth_world \<Rightarrow> auth_world \<times> 'a" where
  "run_p (Ret x) w = (w, x)"
| "run_p (Step e k) w = run_p (k w) (e w)"
| "run_p (Acquire p) w = run_p p w"
| "run_p (Release p) w = run_p p w"

section \<open>The session\<close>

definition open_p :: "db_call \<Rightarrow> bool prog" where
  "open_p c = atomically (getAuthSessionDB c)"

definition save_p :: "auth_call \<Rightarrow> UserInfo \<Rightarrow> session_error option prog" where
  "save_p c info =
     bind_p (open_p (ac_db c)) (\<lambda>ok.
       if \<not> ok then Ret (Some OpenError)
       else bind_p (atomically (saveUserInfoWithDB (ac_db c) (stamped (ac_db c) info))) (\<lambda>err.
         case err of Some e \<Rightarrow> Ret (Some e)
         | None \<Rightarrow> change (\<lambda>w. logged (SessionSaved (ui_RefreshToken info))
                             (SetCurrentUserInfo (Some (stamped (ac_db c) info)) w)) None))"

definition load_p :: "db_call \<Rightarrow> (session_error + UserInfo) prog" where
  "load_p c =
     bind_p (open_p c) (\<lambda>ok0. if \<not> ok0 then Ret (Inl OpenError) else
     bind_p (open_p c) (\<lambda>ok. if \<not> ok then Ret (Inl OpenError) else
     if \<not> dc_readsToken c then Ret (Inl ReadError) else
     bind_p (look us_token) (\<lambda>row. case row of None \<Rightarrow> Ret (Inl RecordNotFound) | Some token \<Rightarrow>
     if \<not> dc_readsProfile c then Ret (Inl ReadError) else
     bind_p (look us_profile) (\<lambda>row2.
       let profile = (case row2 of None \<Rightarrow> zero_profile | Some p \<Rightarrow> p);
           groups = (if ap_AllowedGroupsJSON profile = [] then Some [] else Unmarshal_int64s (ap_AllowedGroupsJSON profile))
       in case groups of None \<Rightarrow> Ret (Inl GroupsError)
          | Some gs \<Rightarrow> let info = info_of_rows token profile gs
                        in change (SetCurrentUserInfo (Some info)) (Inr info)))))"

definition delete_p :: "auth_call \<Rightarrow> session_error option prog" where
  "delete_p c =
     bind_p (open_p (ac_db c)) (\<lambda>ok.
       if \<not> ok then Ret (Some OpenError)
       else if \<not> dc_commits (ac_db c) then Ret (Some WriteError)
       else bind_p (change (\<lambda>w. w\<lparr>us_token := None, us_profile := None\<rparr>) ()) (\<lambda>_.
              change (\<lambda>w. logged SessionCleared (SetCurrentUserInfo None w)) None))"

definition or_load_p :: "db_call \<Rightarrow> UserInfo option prog" where
  "or_load_p c =
     bind_p (look GetCurrentUserInfo) (\<lambda>current.
       case current of Some i \<Rightarrow> Ret (Some i)
       | None \<Rightarrow> bind_p (load_p c) (\<lambda>r. Ret (case r of Inl _ \<Rightarrow> None | Inr loaded \<Rightarrow> Some loaded)))"

definition with_access_p :: "db_call \<Rightarrow> UserInfo option prog" where
  "with_access_p c =
     bind_p (look GetCurrentUserInfo) (\<lambda>current.
       if (case current of None \<Rightarrow> False | Some i \<Rightarrow> has_access i) then Ret current
       else bind_p (load_p c) (\<lambda>r. Ret (case r of Inl _ \<Rightarrow> current
              | Inr loaded \<Rightarrow> if has_access loaded then Some loaded else current)))"

section \<open>The refresher\<close>

text \<open>\<^verbatim>\<open>Start\<close> is called on the refresher the variable holds by then.\<close>

definition start_refresh_p :: "unit prog" where
  "start_refresh_p =
     bind_p (look refresher_running) (\<lambda>running. if running then Ret () else
     bind_p (change (\<lambda>w. w\<lparr>au_refreshers := au_refreshers w @ [NewTokenRefresher],
                           au_refresher := Some (length (au_refreshers w))\<rparr>) ()) (\<lambda>_.
     change (\<lambda>w. case au_refresher w of None \<Rightarrow> w | Some i \<Rightarrow> on_refresher i Refresher_Start w) ()))"

definition stop_refresh_p :: "unit prog" where
  "stop_refresh_p =
     bind_p (look au_refresher) (\<lambda>r. case r of None \<Rightarrow> Ret () | Some i \<Rightarrow> change (on_refresher i Refresher_Stop) ())"

definition started_p :: "'a \<Rightarrow> 'a prog" where
  "started_p x = bind_p start_refresh_p (\<lambda>_. change (SetHasLocalUserInfo True) x)"

section \<open>Calls to the server\<close>

definition profile_p :: "auth_codec \<Rightarrow> auth_call \<Rightarrow> string \<Rightarrow> (auth_error + UserProfile) prog" where
  "profile_p K c accessToken = atomically (GetUserProfileWithToken K c accessToken)"

definition clear_p :: "auth_call \<Rightarrow> unit prog" where
  "clear_p c =
     bind_p stop_refresh_p (\<lambda>_.
     bind_p (delete_p c) (\<lambda>err.
     bind_p (case err of None \<Rightarrow> Ret ()
             | Some _ \<Rightarrow> change (\<lambda>w. logged SessionCleared (SetCurrentUserInfo None w)) ()) (\<lambda>_.
     bind_p (change (SetHasLocalUserInfo False) ()) (\<lambda>_.
     change (\<lambda>w. w\<lparr>au_notified := au_notified w + 1\<rparr>) ()))))"

section \<open>Refreshing a session\<close>

definition resolve_p :: "db_call \<Rightarrow> string \<Rightarrow> string prog" where
  "resolve_p c refreshToken =
     (let token = TrimSpace refreshToken in
      if token \<noteq> [] then Ret token
      else bind_p (or_load_p c) (\<lambda>current. Ret (case current of None \<Rightarrow> [] | Some i \<Rightarrow> TrimSpace (ui_RefreshToken i))))"

text \<open>What follows the answer of the server.\<close>

definition finish_p :: "auth_codec \<Rightarrow> auth_call \<Rightarrow> string \<Rightarrow> (auth_error + UserInfo) prog" where
  "finish_p K c token =
     (case read_body (ac_reply c) of
        Inl e \<Rightarrow> Ret (Inl e)
      | Inr (st, body) \<Rightarrow>
          if st \<noteq> 200 then
            (if classifyRefreshSessionFailure K st body then bind_p (clear_p c) (\<lambda>_. Ret (Inl SessionExpired))
             else Ret (Inl (BadStatus st body)))
          else case decode_tokens K body of None \<Rightarrow> Ret (Inl ParseFailed)
          | Some response \<Rightarrow>
              if TrimSpace (te_AccessToken response) = [] then Ret (Inl MissingAccess)
              else
                let tokens = (if TrimSpace (te_RefreshToken response) = [] then response\<lparr>te_RefreshToken := token\<rparr>
                              else response)
                in bind_p (profile_p K c (te_AccessToken tokens)) (\<lambda>r.
                     case r of Inl e \<Rightarrow> Ret (Inl (ProfileFailed e))
                     | Inr profile \<Rightarrow>
                         let userInfo = session_of (dc_now (ac_db c)) profile tokens
                         in bind_p (save_p c userInfo) (\<lambda>err.
                              case err of Some e \<Rightarrow> Ret (Inl (SaveFailed e))
                              | None \<Rightarrow> started_p (Inr (stamped (ac_db c) userInfo)))))"

text \<open>What happens under the lock.\<close>

definition locked_p :: "auth_codec \<Rightarrow> auth_call \<Rightarrow> string \<Rightarrow> (auth_error + UserInfo) prog" where
  "locked_p K c token =
     bind_p (or_load_p (ac_db c)) (\<lambda>current.
       let latestToken = (case current of None \<Rightarrow> [] | Some i \<Rightarrow> TrimSpace (ui_RefreshToken i)) in
       if latestToken \<noteq> [] \<and> latestToken \<noteq> token \<and> has_access (the current) then Ret (Inr (the current))
       else
         let token' = (if latestToken \<noteq> [] then latestToken else token) in
         case built_url GetAuthRefreshURL (ac_config c) of
           Inl e \<Rightarrow> Ret (Inl (UrlFailed e))
         | Inr _ \<Rightarrow> bind_p (change (logged (RefreshSent token')) ()) (\<lambda>_. finish_p K c token'))"

definition refresh_p :: "auth_codec \<Rightarrow> auth_call \<Rightarrow> auth_call \<Rightarrow> string \<Rightarrow> (auth_error + UserInfo) prog" where
  "refresh_p K c0 c refreshToken =
     bind_p (resolve_p (ac_db c0) refreshToken) (\<lambda>token.
       if token = [] then Ret (Inl EmptyRefreshToken)
       else Acquire (bind_p (locked_p K c token) (\<lambda>r. Release (Ret r))))"

section \<open>The other calls\<close>

definition login_p ::
  "auth_codec \<Rightarrow> auth_call \<Rightarrow> string \<Rightarrow> string \<Rightarrow> string \<Rightarrow> (auth_error + UserInfo) prog" where
  "login_p K c email password turnstileToken =
     (if TrimSpace email = [] then Ret (Inl EmptyEmail)
      else if TrimSpace password = [] then Ret (Inl EmptyPassword)
      else case built_url GetAuthLoginURL (ac_config c) of Inl e \<Rightarrow> Ret (Inl (UrlFailed e))
      | Inr _ \<Rightarrow>
        let turnstile = (if TrimSpace turnstileToken = [] then None else Some (TrimSpace turnstileToken))
        in bind_p (change (logged (LoginSent (TrimSpace email) password turnstile)) ()) (\<lambda>_.
           case read_body (ac_reply c) of
             Inl e \<Rightarrow> Ret (Inl e)
           | Inr (st, body) \<Rightarrow>
               if st \<noteq> 200 then Ret (Inl (BadStatus st body))
               else case decode_tokens K body of None \<Rightarrow> Ret (Inl ParseFailed)
               | Some response \<Rightarrow>
                   if TrimSpace (te_AccessToken response) = [] then Ret (Inl MissingAccess)
                   else if TrimSpace (te_RefreshToken response) = [] then Ret (Inl MissingRefresh)
                   else bind_p (profile_p K c (te_AccessToken response)) (\<lambda>r.
                     case r of Inl e \<Rightarrow> Ret (Inl (ProfileFailed e))
                     | Inr profile \<Rightarrow>
                         let userInfo = session_of (dc_now (ac_db c)) profile response in
                         bind_p (save_p c userInfo) (\<lambda>_.
                         bind_p start_refresh_p (\<lambda>_.
                         bind_p (change (SetUsingDefaultConfig False) ()) (\<lambda>_.
                         change (SetHasLocalUserInfo True) (Inr (stamped (ac_db c) userInfo))))))))"

definition restore_p ::
  "auth_codec \<Rightarrow> auth_call \<Rightarrow> auth_call \<Rightarrow> auth_call \<Rightarrow> (auth_error + UserInfo) prog" where
  "restore_p K c c0 c1 =
     bind_p (load_p (ac_db c)) (\<lambda>l. case l of Inl e \<Rightarrow> Ret (Inl (LoadFailed e)) | Inr localUserInfo \<Rightarrow>
     bind_p (refresh_p K c0 c1 (ui_RefreshToken localUserInfo)) (\<lambda>r. case r of Inr refreshed \<Rightarrow> Ret (Inr refreshed)
       | Inl refreshErr \<Rightarrow>
           if refreshErr = SessionExpired then Ret (Inl refreshErr)
           else if \<not> has_access localUserInfo then started_p (Inr localUserInfo)
           else bind_p (profile_p K c (ui_AccessToken localUserInfo)) (\<lambda>q.
             case q of Inl _ \<Rightarrow> started_p (Inr localUserInfo)
             | Inr profile \<Rightarrow>
                 let latestProfile = (buildUserInfoFromProfile (dc_now (ac_db c)) profile)
                       \<lparr>ui_AccessToken := ui_AccessToken localUserInfo, ui_RefreshToken := ui_RefreshToken localUserInfo,
                        ui_TokenType := ui_TokenType localUserInfo, ui_ExpiresIn := ui_ExpiresIn localUserInfo,
                        ui_UpdatedAt := dc_now (ac_db c)\<rparr>
                 in bind_p (save_p c latestProfile) (\<lambda>_. started_p (Inr (stamped (ac_db c) latestProfile))))))"

definition activate_p ::
  "auth_codec \<Rightarrow> auth_call \<Rightarrow> auth_call \<Rightarrow> auth_call \<Rightarrow> string \<Rightarrow> (auth_error + UserInfo) prog" where
  "activate_p K c c0 c1 token =
     (if token = [] then Ret (Inl EmptyToken)
      else bind_p (refresh_p K c0 c1 token) (\<lambda>r. case r of Inr userInfo \<Rightarrow> Ret (Inr userInfo)
        | Inl _ \<Rightarrow> bind_p (load_p (ac_db c)) (\<lambda>l.
            case l of Inr localUserInfo \<Rightarrow> bind_p start_refresh_p (\<lambda>_. Ret (Inr localUserInfo))
            | Inl e \<Rightarrow> Ret (Inl (LoadFailed e)))))"

text \<open>A logout as the service makes it: the remote call, whose failure is ignored, and the cleanup.\<close>

definition logout_p :: "auth_call \<Rightarrow> string \<Rightarrow> unit prog" where
  "logout_p c refreshToken =
     bind_p (resolve_p (ac_db c) refreshToken) (\<lambda>token.
     bind_p (case built_url GetAuthLogoutURL (ac_config c) of Inl _ \<Rightarrow> Ret ()
             | Inr _ \<Rightarrow> change (logged (LogoutSent token)) ()) (\<lambda>_.
     bind_p stop_refresh_p (\<lambda>_.
     bind_p (delete_p c) (\<lambda>_. Ret ()))))"

definition access_p :: "auth_call \<Rightarrow> (auth_error + string) prog" where
  "access_p c =
     bind_p (or_load_p (ac_db c)) (\<lambda>r. Ret (case r of None \<Rightarrow> Inl NoSession
       | Some current \<Rightarrow> (let token = TrimSpace (ui_AccessToken current) in if token = [] then Inl MissingAccess else Inr token)))"

definition update_p :: "auth_codec \<Rightarrow> auth_call \<Rightarrow> string \<Rightarrow> (auth_error + UserProfile) prog" where
  "update_p K c username =
     (let trimmed = TrimSpace username in
      if trimmed = [] then Ret (Inl EmptyUsername)
      else bind_p (access_p c) (\<lambda>a0. case a0 of Inl e \<Rightarrow> Ret (Inl e) | Inr _ \<Rightarrow>
        (case built_url GetUserUpdateURL (ac_config c) of Inl e \<Rightarrow> Ret (Inl (UrlFailed e)) | Inr _ \<Rightarrow>
        bind_p (access_p c) (\<lambda>a. case a of Inl e \<Rightarrow> Ret (Inl e) | Inr authToken \<Rightarrow>
        bind_p (change (logged (UpdateSent authToken trimmed)) ()) (\<lambda>_.
          case callAuthenticatedAPI (ac_reply c) of Inl e \<Rightarrow> Ret (Inl e)
          | Inr body \<Rightarrow>
              (case decode_profile K body of None \<Rightarrow> Ret (Inl ParseFailed)
               | Some profile \<Rightarrow>
                   bind_p (look GetCurrentUserInfo) (\<lambda>cur. case cur of None \<Rightarrow> Ret (Inr profile)
                   | Some current \<Rightarrow>
                       let applied = applyUserProfileToUserInfo current profile;
                           named = (if TrimSpace (ui_Username applied) = [] then applied\<lparr>ui_Username := trimmed\<rparr>
                                    else applied)
                       in bind_p (save_p c (named\<lparr>ui_UpdatedAt := dc_now (ac_db c)\<rparr>)) (\<lambda>_. Ret (Inr profile)))))))))"

text \<open>
  A round of the refresh loop of refresher \<open>i\<close>. Whether the access token is about to expire changes only
  what is logged, both branches refresh.
\<close>

definition tick_p :: "auth_codec \<Rightarrow> auth_call \<Rightarrow> auth_call \<Rightarrow> auth_call \<Rightarrow> nat \<Rightarrow> unit prog" where
  "tick_p K c c0 c1 i =
     bind_p (look (\<lambda>w. i < length (au_refreshers w) \<and> tr_loops (au_refreshers w ! i) > 0 \<and> tr_tick (au_refreshers w ! i)))
       (\<lambda>ready. if \<not> ready then Ret () else
     bind_p (change (on_refresher i (\<lambda>tr. tr\<lparr>tr_tick := False\<rparr>)) ()) (\<lambda>_.
     bind_p (or_load_p (ac_db c)) (\<lambda>r.
     bind_p (case r of None \<Rightarrow> Ret (Some NoUserInfo)
             | Some currentInfo \<Rightarrow>
                 bind_p (refresh_p K c0 c1 (ui_RefreshToken currentInfo)) (\<lambda>q.
                   Ret (case q of Inl e \<Rightarrow> Some (RefreshFailed e) | Inr _ \<Rightarrow> None))) (\<lambda>err.
     change (on_refresher i (\<lambda>tr. case err of
               Some e \<Rightarrow> tr\<lparr>tr_lastError := Some e, tr_lastErrorTime := dc_now (ac_db c)\<rparr>
             | None \<Rightarrow> tr\<lparr>tr_lastError := None\<rparr>)) ()))))"

section \<open>Alone\<close>

text \<open>A program that nobody interrupts is the call of \<open>Auth_Session\<close>.\<close>

named_theorems run_simps

lemma run_bind [run_simps]: "run_p (bind_p p f) w = (case run_p p w of (w', x) \<Rightarrow> run_p (f x) w')"
  by (induction p arbitrary: w) auto

lemma run_steps [run_simps]:
  "run_p (atomically g) w = g w" "run_p (look h) w = (w, h w)" "run_p (change e x) w = (e w, x)"
  by (simp_all add: atomically_def look_def change_def)

lemma run_open [run_simps]: "run_p (open_p c) w = getAuthSessionDB c w"
  by (simp add: open_p_def run_simps)

lemma run_save [run_simps]: "run_p (save_p c info) w = save_session c info w"
  by (auto simp: save_p_def save_session_def SaveUserInfo_def saveUserInfoToSQLite_def run_simps SetCurrentUserInfo_def
      split: prod.split option.split)

lemma run_load [run_simps]: "run_p (load_p c) w = LoadUserInfo c w"
  by (auto simp: load_p_def LoadUserInfo_def loadUserInfoFromSQLite_def getAuthSessionDB_def run_simps SetCurrentUserInfo_def
      Let_def split: prod.split option.split)

lemma run_delete [run_simps]: "run_p (delete_p c) w = delete_session c w"
  by (auto simp: delete_p_def delete_session_def DeleteUserInfo_def deleteUserInfoFromSQLite_def run_simps SetCurrentUserInfo_def
      split: prod.split)

lemma run_or_load [run_simps]:
  "run_p (or_load_p c) w = GetCurrentUserInfoOrLoad c w"
  "run_p (with_access_p c) w = GetCurrentUserInfoWithAccessTokenOrLoad c w"
  by (auto simp: or_load_p_def with_access_p_def GetCurrentUserInfoOrLoad_def GetCurrentUserInfoWithAccessTokenOrLoad_def
      run_simps Let_def split: prod.split option.split sum.split)

lemma run_refresher [run_simps]:
  "run_p start_refresh_p w = (startTokenRefresh w, ())"
  "run_p stop_refresh_p w = (StopTokenRefresh w, ())"
  "run_p (started_p x) w = (SetHasLocalUserInfo True (startTokenRefresh w), x)"
  by (auto simp: start_refresh_p_def stop_refresh_p_def started_p_def startTokenRefresh_def launch_refresher_def
      StopTokenRefresh_def run_simps Let_def split: option.split)

lemma run_profile [run_simps]: "run_p (profile_p K c a) w = GetUserProfileWithToken K c a w"
  by (simp add: profile_p_def run_simps)

lemma run_clear [run_simps]: "run_p (clear_p c) w = (clearLocalSessionAfterInvalidRefreshToken c w, ())"
  by (auto simp: clear_p_def clearLocalSessionAfterInvalidRefreshToken_def run_simps Let_def split: prod.split option.split)

lemma run_resolve [run_simps]: "run_p (resolve_p (ac_db c) tok) w = refresh_resolve c tok w"
  by (auto simp: resolve_p_def refresh_resolve_def run_simps Let_def split: prod.split option.split)

lemma run_finish [run_simps]: "run_p (finish_p K c tok) w = refresh_finish K c tok w"
  by (auto simp: finish_p_def refresh_finish_def run_simps Let_def split: prod.split option.split sum.split)

lemma run_refresh [run_simps]: "run_p (refresh_p K c0 c tok) w = RefreshSession K c0 c tok w"
  by (auto simp: refresh_p_def locked_p_def RefreshSession_def refresh_choose_def run_simps Let_def
      split: prod.split option.split sum.split)

lemma run_login: "run_p (login_p K c em pw ts) w = LoginWithPassword K c em pw ts w"
  by (auto simp: login_p_def LoginWithPassword_def run_simps Let_def split: prod.split option.split sum.split)

lemma run_restore: "run_p (restore_p K c c0 c1) w = RestoreSession K c c0 c1 w"
  by (auto simp: restore_p_def RestoreSession_def run_simps Let_def split: prod.split option.split sum.split)

lemma run_activate: "run_p (activate_p K c c0 c1 tok) w = ActivateToken K c c0 c1 tok w"
  by (auto simp: activate_p_def ActivateToken_def run_simps split: prod.split sum.split)

lemma run_logout: "run_p (logout_p c tok) w = (logout_session c tok w, ())"
  by (auto simp: logout_p_def logout_session_def LogoutSession_def run_simps Let_def split: prod.split sum.split)

lemma run_access [run_simps]: "run_p (access_p c) w = resolveAccessToken c w"
  by (auto simp: access_p_def resolveAccessToken_def run_simps split: prod.split option.split)

lemma run_update: "run_p (update_p K c name) w = UpdateUserProfile K c name w"
  by (auto simp: update_p_def UpdateUserProfile_def run_simps Let_def split: prod.split option.split sum.split)

lemma run_tick: "run_p (tick_p K c c0 c1 i) w = (loop_tick K c c0 c1 i w, ())"
  by (auto simp: tick_p_def loop_tick_def refreshUserInfo_def run_simps Let_def split: prod.split option.split sum.split)

section \<open>Schedules\<close>

datatype session_call =
    CallLogin auth_call string string string
  | CallRestore auth_call auth_call auth_call
  | CallActivate auth_call auth_call auth_call string
  | CallRefresh auth_call auth_call string
  | CallUpdate auth_call string
  | CallLogout auth_call string
  | CallUserInfo auth_call
  | CallHeader auth_call
  | CallTick auth_call auth_call auth_call nat
  | CallFires nat
  | CallDone nat

definition discard :: "'a prog \<Rightarrow> unit prog" where
  "discard p = bind_p p (\<lambda>_. Ret ())"

fun program :: "auth_codec \<Rightarrow> session_call \<Rightarrow> unit prog" where
  "program K (CallLogin c email password turnstile) = discard (login_p K c email password turnstile)"
| "program K (CallRestore c c0 c1) = discard (restore_p K c c0 c1)"
| "program K (CallActivate c c0 c1 token) = discard (activate_p K c c0 c1 token)"
| "program K (CallRefresh c0 c token) = discard (refresh_p K c0 c token)"
| "program K (CallUpdate c username) = discard (update_p K c username)"
| "program K (CallLogout c token) = logout_p c token"
| "program K (CallUserInfo c) = discard (or_load_p (ac_db c))"
| "program K (CallHeader c) = discard (with_access_p (ac_db c))"
| "program K (CallTick c c0 c1 i) = tick_p K c c0 c1 i"
| "program K (CallFires i) = change (ticker_fires i) ()"
| "program K (CallDone i) = change (loop_done i) ()"

text \<open>What an observer sees; each entry names the goroutine.\<close>

datatype observed = Acquired nat | Released nat | Changed nat "UserInfo option" | Sent nat string

record session_system =
  sc_world :: auth_world
  sc_threads :: "nat \<Rightarrow> unit prog"
  sc_lock :: "nat option"
  sc_trace :: "observed list"

text \<open>A goroutine that has nothing to do begins a call, or a goroutine takes its next step.\<close>

datatype turn = Begin nat session_call | Advance nat

definition sent_tokens :: "auth_event list \<Rightarrow> string list" where
  "sent_tokens es = List.map_filter (\<lambda>e. case e of RefreshSent t \<Rightarrow> Some t | _ \<Rightarrow> None) es"

definition sends :: "auth_world \<Rightarrow> auth_world \<Rightarrow> string list" where
  "sends w w' = sent_tokens (drop (length (au_events w)) (au_events w'))"

definition observe :: "nat \<Rightarrow> auth_world \<Rightarrow> auth_world \<Rightarrow> observed list" where
  "observe t w w' =
     (if us_current w' = us_current w then [] else [Changed t (us_current w')]) @ map (Sent t) (sends w w')"

fun turn_step :: "auth_codec \<Rightarrow> turn \<Rightarrow> session_system \<Rightarrow> session_system" where
  "turn_step K (Begin t call) S =
     (case sc_threads S t of
        Ret _ \<Rightarrow> S\<lparr>sc_threads := (sc_threads S)(t := program K call)\<rparr>
      | _ \<Rightarrow> S)"
| "turn_step K (Advance t) S =
     (case sc_threads S t of
        Ret _ \<Rightarrow> S
      | Step e k \<Rightarrow>
          let w = sc_world S; w' = e w
          in S\<lparr>sc_world := w', sc_threads := (sc_threads S)(t := k w), sc_trace := sc_trace S @ observe t w w'\<rparr>
      | Acquire p \<Rightarrow>
          if sc_lock S = None
          then S\<lparr>sc_threads := (sc_threads S)(t := p), sc_lock := Some t, sc_trace := sc_trace S @ [Acquired t]\<rparr>
          else S
      | Release p \<Rightarrow>
          S\<lparr>sc_threads := (sc_threads S)(t := p), sc_lock := None, sc_trace := sc_trace S @ [Released t]\<rparr>)"

definition schedule :: "auth_codec \<Rightarrow> turn list \<Rightarrow> session_system \<Rightarrow> session_system" where
  "schedule K turns S = fold (turn_step K) turns S"

definition new_system :: "auth_world \<Rightarrow> session_system" where
  "new_system w = \<lparr>sc_world = w, sc_threads = (\<lambda>_. Ret ()), sc_lock = None, sc_trace = []\<rparr>"

text \<open>The refresh token of the session in memory, and who holds the lock, as the trace has them.\<close>

definition refresh_token :: "UserInfo option \<Rightarrow> string option" where
  "refresh_token u = (case u of None \<Rightarrow> None
     | Some i \<Rightarrow> if TrimSpace (ui_RefreshToken i) = [] then None else Some (TrimSpace (ui_RefreshToken i)))"

fun holder_after :: "observed \<Rightarrow> nat option \<Rightarrow> nat option" where
  "holder_after (Acquired t) own = Some t"
| "holder_after (Released t) own = None"
| "holder_after _ own = own"

definition holder :: "observed list \<Rightarrow> nat option" where
  "holder tr = fold holder_after tr None"

section \<open>What the programs promise\<close>

text \<open>
  A program outside the lock sends no request to refresh, and takes and gives back the lock in turn.
  Under the lock a request to refresh carries \<open>e\<close>, the refresh token the session in memory is known to
  have: it has had it since the lock was taken or since the program itself changed the session. When
  another goroutine has changed the session in between, nothing is known.
\<close>

primrec silent :: "'a prog \<Rightarrow> bool" where
  "silent (Ret x) = True"
| "silent (Step f k) = (\<forall>w. sends w (f w) = [] \<and> silent (k w))"
| "silent (Acquire p) = False"
| "silent (Release p) = False"

definition known_after :: "auth_world \<Rightarrow> auth_world \<Rightarrow> string option \<Rightarrow> string option" where
  "known_after w w' e = (if us_current w' = us_current w then e else refresh_token (us_current w'))"

primrec kept :: "'a prog \<Rightarrow> bool \<Rightarrow> string option \<Rightarrow> bool" where
  "kept (Ret x) h e = (\<not> h)"
| "kept (Step f k) h e =
     (\<forall>w e'. (e' = e \<or> e' = None) \<and> (e' = None \<or> e' = refresh_token (us_current w)) \<longrightarrow>
        (let e'' = (if h then known_after w (f w) e' else None)
         in (h \<or> sends w (f w) = []) \<and> (\<forall>t\<in>set (sends w (f w)). e'' = None \<or> e'' = Some t) \<and> kept (k w) h e''))"
| "kept (Acquire p) h e = (\<not> h \<and> (\<forall>e'. kept p True e'))"
| "kept (Release p) h e = (h \<and> kept p False None)"

abbreviation free :: "'a prog \<Rightarrow> bool" where "free p \<equiv> kept p False None"

lemma bind_assoc [simp]: "bind_p (bind_p p f) g = bind_p p (\<lambda>x. bind_p (f x) g)"
  by (induction p) auto

lemma kept_none: "kept p h e \<Longrightarrow> kept p h None"
  by (cases p) (auto simp: Let_def)

lemma silent_bind [intro]: "silent p \<Longrightarrow> (\<And>x. silent (f x)) \<Longrightarrow> silent (bind_p p f)"
  by (induction p) auto

lemma free_silent: "silent p \<Longrightarrow> (\<And>x. free (f x)) \<Longrightarrow> free (bind_p p f)"
  by (induction p) (auto simp: Let_def)

lemma held_silent: "silent p \<Longrightarrow> (\<And>x e. kept (f x) True e) \<Longrightarrow> kept (bind_p p f) True e"
  by (induction p arbitrary: e) (auto simp: Let_def)

lemma kept_bind:
  assumes "\<And>x. free (f x)"
  shows "(free p \<longrightarrow> free (bind_p p f)) \<and> (\<forall>e. kept p True e \<longrightarrow> kept (bind_p p f) True e)"
proof (induction p)
  case (Step g k)
  then show ?case by (auto simp: Let_def)
qed (use assms in auto)

lemma free_bind: "free p \<Longrightarrow> (\<And>x. free (f x)) \<Longrightarrow> free (bind_p p f)"
  using kept_bind by blast

text \<open>Steps that send no request to refresh.\<close>

lemma sent_tokens_simps [simp]:
  "sent_tokens [] = []"
  "sent_tokens (RefreshSent t # es) = t # sent_tokens es"
  "sent_tokens (SessionSaved r # es) = sent_tokens es" "sent_tokens (SessionCleared # es) = sent_tokens es"
  "sent_tokens (LoginSent a b d # es) = sent_tokens es" "sent_tokens (LogoutSent a # es) = sent_tokens es"
  "sent_tokens (ProfileSent a # es) = sent_tokens es" "sent_tokens (UpdateSent a b # es) = sent_tokens es"
  by (simp_all add: sent_tokens_def List.map_filter_def)

lemma sends_same [simp]: "au_events w' = au_events w \<Longrightarrow> sends w w' = []"
  by (simp add: sends_def)

lemma sends_logged: "au_events w' = au_events w @ [e] \<Longrightarrow> sends w w' = sent_tokens [e]"
  by (simp add: sends_def)

lemma silent_look [simp]: "silent (look g)"
  by (simp add: look_def)

lemma silent_change [simp]: "silent (change e x) = (\<forall>w. sends w (e w) = [])"
  by (simp add: change_def)

lemma silent_atomically [simp]: "silent (atomically f) = (\<forall>w. sends w (fst (f w)) = [])"
  by (simp add: atomically_def)

lemma flag_events [simp]:
  "au_events (SetCurrentUserInfo u w) = au_events w" "au_events (SetHasLocalUserInfo b w) = au_events w"
  "au_events (SetUsingDefaultConfig b w) = au_events w" "au_events (on_refresher i f w) = au_events w"
  "au_events (fst (getAuthSessionDB c w)) = au_events w" "au_events (fst (saveUserInfoWithDB c u0 w)) = au_events w"
  "au_events (logged ev w) = au_events w @ [ev]" "au_events (ticker_fires i w) = au_events w" "au_events (loop_done i w) = au_events w"
  by (simp_all add: SetCurrentUserInfo_def SetHasLocalUserInfo_def SetUsingDefaultConfig_def on_refresher_def
      getAuthSessionDB_def saveUserInfoWithDB_def logged_def ticker_fires_def loop_done_def Let_def)

lemma silent_open [simp]: "silent (open_p c)"
  unfolding open_p_def by simp

lemma silent_save [simp]: "silent (save_p c i)"
  unfolding save_p_def by (auto intro!: silent_bind split: option.split simp: sends_def)

lemma silent_load [simp]: "silent (load_p c)"
  unfolding load_p_def Let_def by (auto intro!: silent_bind split: option.split)

lemma silent_delete [simp]: "silent (delete_p c)"
  unfolding delete_p_def by (auto intro!: silent_bind simp: sends_def)

lemma silent_or_load [simp]: "silent (or_load_p c)" "silent (with_access_p c)"
  unfolding or_load_p_def with_access_p_def by (auto intro!: silent_bind split: option.split)

lemma silent_start [simp]: "silent start_refresh_p" "silent stop_refresh_p" "silent (started_p x)"
  unfolding started_p_def start_refresh_p_def stop_refresh_p_def by (auto intro!: silent_bind split: option.split)

lemma silent_profile [simp]: "silent (profile_p K c a)"
  unfolding profile_p_def GetUserProfileWithToken_def
  by (auto split: sum.split if_splits simp: sends_def)

lemma silent_clear [simp]: "silent (clear_p c)"
  unfolding clear_p_def by (auto intro!: silent_bind split: option.split simp: sends_def)

lemma silent_resolve [simp]: "silent (resolve_p c t)"
  unfolding resolve_p_def Let_def by (auto intro!: silent_bind)

lemma silent_finish [simp]: "silent (finish_p K c t)"
  unfolding finish_p_def Let_def by (auto intro!: silent_bind split: option.split sum.split prod.split)

lemma silent_login [simp]: "silent (login_p K c em pw ts)"
  unfolding login_p_def Let_def by (auto intro!: silent_bind split: option.split sum.split prod.split simp: sends_def)

lemma silent_logout [simp]: "silent (logout_p c t)"
  unfolding logout_p_def by (auto intro!: silent_bind split: sum.split simp: sends_def)

lemma silent_access [simp]: "silent (access_p c)"
  unfolding access_p_def by (auto intro!: silent_bind)

lemma silent_update [simp]: "silent (update_p K c n)"
  unfolding update_p_def Let_def by (auto intro!: silent_bind split: option.split sum.split prod.split simp: sends_def)

text \<open>Under the lock: what a load and a look at the session leave known.\<close>

lemma known_same [simp]: "us_current w' = us_current w \<Longrightarrow> known_after w w' e = e"
  by (simp add: known_after_def)

lemma token_none [simp]: "refresh_token None = None"
  by (simp add: refresh_token_def)

lemma held_look:
  "(\<And>w e'. e' = e \<or> e' = None \<Longrightarrow> e' = None \<or> e' = refresh_token (us_current w) \<Longrightarrow> kept (f (g w)) True e')
   \<Longrightarrow> kept (bind_p (look g) f) True e"
  by (auto simp: look_def Let_def)

lemma held_open: "(\<And>ok. kept (f ok) True None) \<Longrightarrow> kept (bind_p (open_p c) f) True None"
  by (auto simp: open_p_def atomically_def Let_def getAuthSessionDB_def)

lemma held_load:
  assumes "\<And>x e. e = None \<or> (\<exists>u. x = Inr u \<and> e = refresh_token (Some u)) \<Longrightarrow> kept (f x) True e"
  shows "kept (bind_p (load_p c) f) True None"
  using assms unfolding load_p_def Let_def
  by (auto intro!: held_open held_look split: option.split
      simp: change_def Let_def known_after_def SetCurrentUserInfo_def)

lemma held_or_load:
  assumes "\<And>x e. e = None \<or> (x \<noteq> None \<and> e = refresh_token x) \<Longrightarrow> kept (f x) True e"
  shows "kept (bind_p (or_load_p c) f) True e"
  unfolding or_load_p_def bind_assoc
proof (rule held_look)
  fix w e' assume e': "e' = e \<or> e' = None" "e' = None \<or> e' = refresh_token (us_current w)"
  show "kept (bind_p (case GetCurrentUserInfo w of Some i \<Rightarrow> Ret (Some i)
      | None \<Rightarrow> bind_p (load_p c) (\<lambda>r. Ret (case r of Inl _ \<Rightarrow> None | Inr loaded \<Rightarrow> Some loaded))) f) True e'"
    using e' assms by (cases "us_current w") (auto simp: GetCurrentUserInfo_def intro!: held_load split: sum.split)
qed

lemma held_ends: "silent p \<Longrightarrow> kept (bind_p p (\<lambda>r. Release (Ret r))) True e"
  by (rule held_silent) auto

lemma held_locked: "kept (bind_p (locked_p K c token) (\<lambda>r. Release (Ret r))) True e"
  unfolding locked_p_def bind_assoc
proof (rule held_or_load)
  fix x e assume known: "e = None \<or> (x \<noteq> None \<and> e = refresh_token x)"
  let ?latest = "case x of None \<Rightarrow> [] | Some i \<Rightarrow> TrimSpace (ui_RefreshToken i)"
  have "e = None \<or> e = Some (if ?latest \<noteq> [] then ?latest else token)"
    using known by (auto simp: refresh_token_def split: option.splits if_splits)
  moreover have "us_current (logged ev w) = us_current w" for ev w by (simp add: logged_def)
  ultimately show "kept (bind_p (let latestToken = ?latest in
       if latestToken \<noteq> [] \<and> latestToken \<noteq> token \<and> has_access (the x) then Ret (Inr (the x))
       else let token' = (if latestToken \<noteq> [] then latestToken else token) in
         case built_url GetAuthRefreshURL (ac_config c) of
           Inl e \<Rightarrow> Ret (Inl (UrlFailed e))
         | Inr _ \<Rightarrow> bind_p (change (logged (RefreshSent token')) ()) (\<lambda>_. finish_p K c token')) (\<lambda>r. Release (Ret r))) True e"
    by (auto simp: Let_def change_def sends_logged intro!: held_ends split: sum.split)
qed

lemma free_refresh: "free (refresh_p K c0 c token)"
  unfolding refresh_p_def by (rule free_silent) (auto intro: held_locked)

lemma free_of_silent: "silent p \<Longrightarrow> free p"
  using free_silent [of p Ret] by (induction p) auto

lemmas free_simps = free_bind free_refresh free_of_silent silent_bind

lemma free_restore: "free (restore_p K c c0 c1)"
  unfolding restore_p_def Let_def by (rule free_silent) (auto simp: free_simps split: sum.split)

lemma free_activate: "free (activate_p K c c0 c1 token)"
  unfolding activate_p_def by (auto simp: free_simps split: sum.split)

lemma free_tick: "free (tick_p K c c0 c1 i)"
  unfolding tick_p_def by (auto simp: free_simps intro!: free_silent split: option.split)

lemma free_program: "free (program K call)"
  by (cases call) (auto simp: discard_def free_tick free_restore free_activate free_simps)

section \<open>The invariant of a schedule\<close>

text \<open>
  Reading a trace: who holds the lock, the refresh token of the session in memory, and whether it is
  known to the holder. A trace is lawful when the lock is taken only while it is free and given back by
  its holder, and when a request to refresh comes from the holder and carries the token if it is known.
\<close>

type_synonym reading_state = "nat option \<times> string option \<times> string option"

fun read_after :: "observed \<Rightarrow> reading_state \<Rightarrow> reading_state" where
  "read_after (Acquired t) (own, m, k) = (Some t, m, m)"
| "read_after (Released t) (own, m, k) = (None, m, None)"
| "read_after (Changed t u) (own, m, k) = (own, refresh_token u, if own = Some t then refresh_token u else None)"
| "read_after (Sent t tok) s = s"

fun lawful_entry :: "observed \<Rightarrow> reading_state \<Rightarrow> bool" where
  "lawful_entry (Acquired t) (own, m, k) = (own = None)"
| "lawful_entry (Released t) (own, m, k) = (own = Some t)"
| "lawful_entry (Changed t u) s = True"
| "lawful_entry (Sent t tok) (own, m, k) = (own = Some t \<and> (k = None \<or> k = Some tok))"

primrec lawful :: "observed list \<Rightarrow> reading_state \<Rightarrow> bool" where
  "lawful [] s = True"
| "lawful (x # xs) s = (lawful_entry x s \<and> lawful xs (read_after x s))"

lemma lawful_append: "lawful (xs @ ys) s = (lawful xs s \<and> lawful ys (fold read_after xs s))"
  by (induction xs arbitrary: s) auto

definition system_ok :: "session_system \<Rightarrow> bool" where
  "system_ok S \<longleftrightarrow> lawful (sc_trace S) (None, None, None) \<and>
     (case fold read_after (sc_trace S) (None, None, None) of (own, m, k) \<Rightarrow>
        own = sc_lock S \<and> m = refresh_token (us_current (sc_world S)) \<and> (k = None \<or> k = m) \<and>
        (\<forall>t. if sc_lock S = Some t then kept (sc_threads S t) True k else free (sc_threads S t)))"

lemma read_sents [simp]: "fold read_after (map (Sent t) ts) s = s"
  by (induction ts) auto

lemma lawful_sents: "(\<forall>a\<in>set ts. k = None \<or> k = Some a) \<Longrightarrow> lawful (map (Sent t) ts) (Some t, m, k)"
  by (induction ts) auto

lemma read_observe:
  assumes "m = refresh_token (us_current w)"
  shows "fold read_after (observe t w w') (own, m, k) =
     (own, refresh_token (us_current w'), if us_current w' = us_current w then k
        else if own = Some t then refresh_token (us_current w') else None)"
  using assms by (simp add: observe_def)

lemma held_step:
  assumes "kept (Step f g) True k" "k = None \<or> k = refresh_token (us_current w)"
  shows "(\<forall>a\<in>set (sends w (f w)). known_after w (f w) k = None \<or> known_after w (f w) k = Some a)
    \<and> kept (g w) True (known_after w (f w) k)"
  using assms by (simp add: Let_def)

lemma system_ok_step:
  assumes "system_ok S" shows "system_ok (turn_step K turn S)"
proof -
  obtain own m k where rd: "fold read_after (sc_trace S) (None, None, None) = (own, m, k)" by (metis prod_cases3)
  let ?w = "sc_world S"
  have ok: "lawful (sc_trace S) (None, None, None)" "own = sc_lock S" "m = refresh_token (us_current ?w)" "k = None \<or> k = m"
    and threads: "\<And>t. if sc_lock S = Some t then kept (sc_threads S t) True k else free (sc_threads S t)"
    using assms rd by (auto simp: system_ok_def)
  show ?thesis
  proof (cases turn)
    case (Begin t call)
    then show ?thesis
    proof (cases "sc_threads S t")
      case (Ret x)
      then have "sc_lock S \<noteq> Some t" using threads [of t] by auto
      then show ?thesis using Begin Ret ok rd threads free_program by (auto simp: system_ok_def)
    qed (use assms Begin in auto)
  next
    case (Advance t)
    show ?thesis
    proof (cases "sc_threads S t")
      case (Step e f)
      let ?w' = "e ?w"
      let ?k = "if us_current ?w' = us_current ?w then k
        else if own = Some t then refresh_token (us_current ?w') else None"
      have read: "fold read_after (observe t ?w ?w') (own, m, k) = (own, refresh_token (us_current ?w'), ?k)"
        using read_observe [OF ok(3)] .
      show ?thesis
      proof (cases "sc_lock S = Some t")
        case True
        then have held: "kept (Step e f) True k" using threads [of t] Step by metis
        have k: "known_after ?w ?w' k = ?k" using True ok(2) by (simp add: known_after_def)
        have "k = None \<or> k = refresh_token (us_current ?w)" using ok(3,4) by simp
        note p = held_step [OF held this, unfolded k]
        have "lawful (observe t ?w ?w') (own, m, k)"
          using lawful_sents [OF p [THEN conjunct1], of t] ok(2) True by (auto simp: observe_def)
        then show ?thesis
          using Advance Step True ok rd read p [THEN conjunct2] threads
          by (auto simp: system_ok_def lawful_append Let_def)
      next
        case False
        then have "free (Step e f)" using threads [of t] Step by simp
        then have p: "sends ?w ?w' = []" "free (f ?w)" by (auto simp: Let_def)
        have "lawful (observe t ?w ?w') (own, m, k)" by (simp add: observe_def p(1))
        moreover have "kept (sc_threads S t') True ?k" if "sc_lock S = Some t'" for t'
          using threads [of t'] that False ok(2) kept_none by auto
        moreover have "?k = None \<or> ?k = refresh_token (us_current ?w')" using ok by auto
        ultimately show ?thesis
          using Advance Step False ok rd read p(2) threads
          by (auto simp: system_ok_def lawful_append Let_def)
      qed
    next
      case (Acquire p)
      then show ?thesis
        using Advance assms ok rd threads [of t] threads by (auto simp: system_ok_def lawful_append)
    next
      case (Release p)
      then have "sc_lock S = Some t" using threads [of t] by (auto split: if_splits)
      then show ?thesis
        using Advance Release ok rd threads [of t] threads by (auto simp: system_ok_def lawful_append)
    qed (use assms Advance in auto)
  qed
qed

lemma system_ok_new: "us_current w = None \<Longrightarrow> system_ok (new_system w)"
  by (simp add: system_ok_def new_system_def)

lemma schedule_lawful:
  "lawful (sc_trace (schedule K turns (new_system (fresh_process token profile)))) (None, None, None)"
proof -
  have "system_ok S \<Longrightarrow> system_ok (fold (turn_step K) turns S)" for S
    by (induction turns arbitrary: S) (auto simp: system_ok_step)
  moreover have "system_ok (new_system (fresh_process token profile))" by (rule system_ok_new) (simp add: fresh_process_def)
  ultimately show ?thesis by (simp add: schedule_def system_ok_def)
qed

section \<open>Properties\<close>

definition changes :: "observed \<Rightarrow> bool" where
  "changes x = (case x of Changed _ _ \<Rightarrow> True | _ \<Rightarrow> False)"

lemma holder_read: "fst (fold read_after tr s) = fold holder_after tr (fst s)"
proof (induction tr arbitrary: s)
  case (Cons x tr)
  have "fst (read_after x s) = holder_after x (fst s)" by (cases x; cases s) auto
  then show ?case using Cons by simp
qed simp

text \<open>Without a change the token in memory stays, and whoever holds the lock goes on knowing it.\<close>

lemma unchanged_known:
  assumes "\<not> list_ex changes mid" "own = None \<or> k = Some r"
  shows "\<exists>own' k'. fold read_after mid (own, Some r, k) = (own', Some r, k') \<and> (own' = None \<or> k' = Some r)"
  using assms
proof (induction mid arbitrary: own k)
  case (Cons x mid)
  show ?case
  proof (cases x)
    case (Changed t u)
    then show ?thesis using Cons.prems by (simp add: changes_def)
  qed (use Cons in auto)
qed auto

text \<open>
  C13. A refresh token that was replaced is not sent again. In every interleaving of the steps of
  logins, restorations, refreshes, profile updates, logouts and rounds of the background loop, starting
  from any stored rows: when the session in memory has last been replaced by a goroutine that held the
  refresh lock at that moment (a refresh that stored new tokens), or before the sender took the lock,
  then a request to refresh carries the refresh token of that session, whatever token the caller was
  given and however long it waited. A session that another goroutine puts into memory while a refresh
  holds the lock is not covered, nor is one read from the tables before a refresh and put into memory
  after it.
\<close>

theorem refresh_sends_latest:
  assumes "sc_trace (schedule K turns (new_system (fresh_process token profile)))
           = before @ Changed h (Some u) # mid @ Sent t tok # after"
    and "\<not> list_ex changes mid"
    and "holder before = Some h \<or> Acquired t \<in> set mid"
    and "TrimSpace (ui_RefreshToken u) \<noteq> []"
  shows "tok = TrimSpace (ui_RefreshToken u)"
proof -
  let ?r = "TrimSpace (ui_RefreshToken u)"
  have r: "refresh_token (Some u) = Some ?r" using assms(4) by (simp add: refresh_token_def)
  obtain own m k where s: "fold read_after before (None, None, None) = (own, m, k)" by (metis prod_cases3)
  then have own: "own = holder before" using holder_read [of before "(None, None, None)"] by (simp add: holder_def)
  let ?s = "read_after (Changed h (Some u)) (own, m, k)"
  have sent: "lawful_entry (Sent t tok) (fold read_after mid ?s)"
    using schedule_lawful [of K turns token profile] s by (simp add: assms(1) lawful_append)
  from assms(3) have "\<exists>own' k'. fold read_after mid ?s = (own', Some ?r, k') \<and> (own' = None \<or> k' = Some ?r)"
  proof
    assume "holder before = Some h"
    then show ?thesis using unchanged_known [OF assms(2)] own r by simp
  next
    assume "Acquired t \<in> set mid"
    then obtain m1 m2 where mid: "mid = m1 @ Acquired t # m2" by (auto dest: split_list)
    then have parts: "\<not> list_ex changes m1" "\<not> list_ex changes m2" using assms(2) by auto
    have "fst (snd (fold read_after m1 (o1, Some ?r, k1))) = Some ?r" for o1 k1
      using parts(1)
    proof (induction m1 arbitrary: o1 k1)
      case (Cons x xs)
      then show ?case by (cases x) (auto simp: changes_def)
    qed simp
    then obtain o1 k1 where "fold read_after m1 ?s = (o1, Some ?r, k1)" using r by (metis prod_cases3 fst_conv snd_conv read_after.simps(3))
    then show ?thesis using unchanged_known [OF parts(2), of "Some t" "Some ?r" ?r] mid by simp
  qed
  then show ?thesis using sent by auto
qed

lemma lawful_owner:
  assumes "lawful xs (Some t, m, k)" "Released t \<notin> set xs"
  shows "fst (fold read_after xs (Some t, m, k)) = Some t"
  using assms
proof (induction xs arbitrary: m k)
  case (Cons x xs)
  then show ?case by (cases x) (auto split: if_splits)
qed simp

text \<open>
  C35. One refresh at a time. In every interleaving of the steps of the calls a request to refresh is
  sent only by the goroutine that holds the refresh lock, and between the requests of two goroutines the
  first has given the lock back; so no goroutine sends a refresh while another awaits the answer to its own.
\<close>

theorem one_refresh_at_a_time:
  assumes "sc_trace (schedule K turns (new_system (fresh_process token profile)))
           = before @ Sent t a # mid @ Sent t' b # after"
  shows "holder before = Some t \<and> (t \<noteq> t' \<longrightarrow> Released t \<in> set mid)"
proof -
  obtain own m k where s: "fold read_after before (None, None, None) = (own, m, k)" by (metis prod_cases3)
  then have own: "own = holder before" using holder_read [of before "(None, None, None)"] by (simp add: holder_def)
  have l: "own = Some t" "lawful mid (own, m, k)" "lawful_entry (Sent t' b) (fold read_after mid (own, m, k))"
    using schedule_lawful [of K turns token profile] s by (auto simp: assms lawful_append)
  then have "t = t'" if "Released t \<notin> set mid"
    using lawful_owner [of mid t m k] that by (cases "fold read_after mid (own, m, k)") auto
  then show ?thesis using own l(1) by auto
qed

section \<open>Examples\<close>

definition steps :: "nat \<Rightarrow> nat \<Rightarrow> turn list" where
  "steps t n = replicate n (Advance t)"

text \<open>
  After a login two goroutines want to refresh its token. Goroutine 1 gets the lock and stores new
  tokens; goroutine 2, which had to wait, finds the session replaced and reuses it; its next refresh
  sends the new token.
\<close>

definition sample_turns :: "turn list" where
  "sample_turns =
     Begin 0 (CallLogin (sample_auth_call ''1'') ''u@example'' ''secret'' []) # steps 0 10
     @ [Begin 1 (CallRefresh (sample_auth_call []) (sample_auth_call ''2'') ''r1''),
        Begin 2 (CallRefresh (sample_auth_call []) (sample_auth_call ''3'') ''r1'')]
     @ steps 1 3 @ steps 2 1 @ steps 1 9 @ steps 2 3
     @ Begin 2 (CallRefresh (sample_auth_call []) (sample_auth_call ''3'') []) # steps 2 4"

abbreviation sample_trace :: "observed list" where
  "sample_trace \<equiv> sc_trace (schedule sample_codec sample_turns (new_system (fresh_process None None)))"

definition sample_tokens :: "string \<Rightarrow> UserInfo" where
  "sample_tokens n = session_of 5 sample_profile
     \<lparr>te_AccessToken = ''a'' @ n, te_RefreshToken = ''r'' @ n, te_ExpiresIn = 3600, te_TokenType = []\<rparr>"

lemma sample_trace_value:
  "sample_trace = [Changed 0 (Some (sample_tokens ''1'')), Acquired 1, Sent 1 ''r1'', Changed 1 (Some (sample_tokens ''2'')),
     Released 1, Acquired 2, Released 2, Acquired 2, Sent 2 ''r2'']"
  by code_simp

theorem refresh_sends_latest_witness:
  "\<exists>before mid tok. sample_trace = before @ Changed 1 (Some (sample_tokens ''2'')) # mid @ Sent 2 tok # [] \<and> tok = ''r2''"
proof -
  let ?before = "[Changed 0 (Some (sample_tokens ''1'')), Acquired 1, Sent 1 ''r1'']"
  let ?mid = "[Released 1, Acquired 2, Released 2, Acquired 2]"
  have "sample_trace = ?before @ Changed 1 (Some (sample_tokens ''2'')) # ?mid @ Sent 2 ''r2'' # []"
    using sample_trace_value by simp
  moreover have "\<not> list_ex changes ?mid" by (simp add: changes_def)
  moreover have "holder ?before = Some 1 \<or> Acquired 2 \<in> set ?mid" by (simp add: holder_def)
  moreover have "TrimSpace (ui_RefreshToken (sample_tokens ''2'')) = ''r2''" by code_simp
  ultimately show ?thesis
    using refresh_sends_latest [of sample_codec sample_turns None None ?before 1 "sample_tokens ''2''" ?mid 2 "''r2''" "[]"]
    by (metis list.distinct(1))
qed

theorem one_refresh_at_a_time_witness:
  "\<exists>before mid. sample_trace = before @ Sent 1 ''r1'' # mid @ Sent 2 ''r2'' # []
     \<and> holder before = Some 1 \<and> Released 1 \<in> set mid"
proof -
  let ?before = "[Changed 0 (Some (sample_tokens ''1'')), Acquired 1]"
  let ?mid = "[Changed 1 (Some (sample_tokens ''2'')), Released 1, Acquired 2, Released 2, Acquired 2]"
  have tr: "sample_trace = ?before @ Sent 1 ''r1'' # ?mid @ Sent 2 ''r2'' # []" using sample_trace_value by simp
  moreover have "(1 :: nat) \<noteq> 2" by simp
  ultimately show ?thesis using one_refresh_at_a_time [OF tr] by blast
qed

section \<open>What goes wrong\<close>

text \<open>
  A restoration that has read the rows before a refresh replaces them puts the old session into memory
  after it: the next refresh sends the old token again, although the tables hold the new one.
\<close>

lemma stale_load_resends_token:
  "let turns = Begin 0 (CallLogin (sample_auth_call ''1'') ''u@example'' ''secret'' []) # steps 0 10
         @ Begin 3 (CallRestore (sample_auth_call []) (sample_auth_call []) (sample_auth_call [])) # steps 3 4
         @ Begin 1 (CallRefresh (sample_auth_call []) (sample_auth_call ''2'') []) # steps 1 13
         @ steps 3 1
         @ Begin 2 (CallRefresh (sample_auth_call []) (sample_auth_call ''3'') []) # steps 2 4;
       S = schedule sample_codec turns (new_system (fresh_process None None))
   in sent_tokens (au_events (sc_world S)) = [''r1'', ''r1'']
      \<and> map_option at_RefreshToken (us_token (sc_world S)) = Some ''r2''"
  by code_simp

text \<open>
  The refresh loop starts twice when two logins look at the refresher before either replaces it and each
  has started its own before the other looks at the variable again.
\<close>

lemma overlapping_logins_two_loops:
  "let login = CallLogin (sample_auth_call ''1'') ''u@example'' ''secret'' [];
       turns = [Begin 0 login, Begin 1 login] @ steps 0 6 @ steps 1 6 @ steps 0 4 @ steps 1 4;
       S = schedule sample_codec turns (new_system (fresh_process None None))
   in map tr_loops (au_refreshers (sc_world S)) = [1, 1]"
  by code_simp

end
