(* ===== verification/AI_Activity.thy ===== *)
theory AI_Activity
  imports AI_Domains Metadata "HOL-Library.AList"
begin

text \<open>
  The tracker of recent AI activity, \<^verbatim>\<open>src/processor/statistic/ai_activity.go\<close>: detections by provider
  that count as active for a time to live after they were last seen and are dropped after four times
  that. The current time is an argument of every operation that asks for it.
\<close>

definition DefaultAIActivityTTL :: duration where
  "DefaultAIActivityTTL = 15 * 1000000000"

record AIActivityDetection =
  de_ProviderKey :: string
  de_ProviderLabel :: string
  de_Domain :: string
  de_RecentHost :: string
  de_Source :: string
  de_Route :: string
  de_MatchedVia :: string
  de_LastSeenAt :: time
  de_LastSeenUnix :: int
  de_HitCount :: uint64
  de_Active :: bool
  de_RemainingTTL :: int
  de_TTLSeconds :: int
  de_DetectedBySNI :: bool

record AIActivityTracker =
  at_ttl :: duration
  at_detections :: "(string \<times> AIActivityDetection) list"
  at_totalHits :: uint64
  at_latestSeenAt :: time
  at_latestProvider :: string
  at_latestLabel :: string
  at_latestDomain :: string
  at_latestHost :: string
  at_latestSource :: string
  at_latestRoute :: string
  at_latestMatchedVia :: string

record AIActivitySummary =
  su_Active :: bool
  su_ActiveCount :: nat
  su_TTLSeconds :: int
  su_TotalHits :: uint64
  su_LastSeenAt :: int
  su_LastProvider :: string
  su_LastLabel :: string
  su_LastDomain :: string
  su_LastHost :: string
  su_LastSource :: string
  su_LastRoute :: string
  su_LastMatchedVia :: string
  su_DetectedBySNI :: bool
  su_ActiveDetections :: "AIActivityDetection list"
  su_TrackedPatterns :: "string list"

text \<open>\<^verbatim>\<open>Time.Unix\<close>: the zero time of Go is this many seconds before the epoch.\<close>

definition Unix :: "time \<Rightarrow> int" where
  "Unix t = t div 1000000000 - 62135596800"

definition NewAIActivityTracker :: "duration \<Rightarrow> AIActivityTracker" where
  "NewAIActivityTracker ttl =
     \<lparr>at_ttl = (if ttl \<le> 0 then DefaultAIActivityTTL else ttl), at_detections = [], at_totalHits = 0,
      at_latestSeenAt = 0, at_latestProvider = [], at_latestLabel = [], at_latestDomain = [],
      at_latestHost = [], at_latestSource = [], at_latestRoute = [], at_latestMatchedVia = []\<rparr>"

definition pruneExpiredLocked :: "time \<Rightarrow> AIActivityTracker \<Rightarrow> AIActivityTracker" where
  "pruneExpiredLocked now t =
     (let cutoff = now + (- 4 * at_ttl t)
      in t\<lparr>at_detections := filter (\<lambda>(k, d). \<not> de_LastSeenAt d < cutoff) (at_detections t)\<rparr>)"

definition ttlSecondsCeil :: "duration \<Rightarrow> int" where
  "ttlSecondsCeil remaining =
     (if remaining \<le> 0 then 0 else (remaining + 1000000000 - 1) div 1000000000)"

definition new_detection :: "string \<Rightarrow> AIActivityDetection" where
  "new_detection k = \<lparr>de_ProviderKey = k, de_ProviderLabel = [], de_Domain = [], de_RecentHost = [],
     de_Source = [], de_Route = [], de_MatchedVia = [], de_LastSeenAt = 0, de_LastSeenUnix = 0,
     de_HitCount = 0, de_Active = False, de_RemainingTTL = 0, de_TTLSeconds = 0, de_DetectedBySNI = False\<rparr>"

definition RecordDetection ::
    "time \<Rightarrow> trackedAIProvider \<Rightarrow> string \<Rightarrow> string \<Rightarrow> string \<Rightarrow> string \<Rightarrow> time \<Rightarrow> AIActivityTracker \<Rightarrow> AIActivityTracker" where
  "RecordDetection now provider matchedDomain host source route seenAt0 t =
     (let providerKey = TrimSpace (ap_Key provider); providerLabel = TrimSpace (ap_Label provider);
          normalizedDomain = normalizeAIDomainPattern matchedDomain; normalizedHost = normalizeAIDomainHost host in
      if providerKey = [] \<or> providerLabel = [] \<or> normalizedDomain = [] \<or> normalizedHost = [] then t
      else
        let seenAt = (if seenAt0 = 0 then now else seenAt0);
            t1 = pruneExpiredLocked seenAt t;
            d0 = (case map_of (at_detections t1) providerKey of None \<Rightarrow> new_detection providerKey | Some d \<Rightarrow> d);
            d1 = d0\<lparr>de_ProviderKey := providerKey, de_ProviderLabel := providerLabel, de_Domain := normalizedDomain,
                    de_RecentHost := normalizedHost, de_Source := source, de_Route := route,
                    de_MatchedVia := normalizedDomain, de_LastSeenAt := seenAt, de_LastSeenUnix := Unix seenAt,
                    de_HitCount := de_HitCount d0 + 1, de_TTLSeconds := at_ttl t1 div 1000000000,
                    de_DetectedBySNI := (source = BindingSourceSNI)\<rparr>
        in t1\<lparr>at_detections := AList.update providerKey d1 (at_detections t1),
              at_totalHits := at_totalHits t1 + 1, at_latestSeenAt := seenAt, at_latestProvider := providerKey,
              at_latestLabel := providerLabel, at_latestDomain := normalizedDomain, at_latestHost := normalizedHost,
              at_latestSource := source, at_latestRoute := route, at_latestMatchedVia := normalizedDomain\<rparr>)"

definition RecordMetadata ::
    "Config option \<Rightarrow> preset list \<Rightarrow> time \<Rightarrow> Metadata option \<Rightarrow> AIActivityTracker \<Rightarrow> AIActivityTracker" where
  "RecordMetadata cfg presets now metadata t =
     (case metadata of None \<Rightarrow> t
      | Some md \<Rightarrow>
          if md_HostName md = [] then t
          else if md_Route md = [] \<or> md_Route md = ''RouteDirect'' then t
          else (case matchTrackedAIProvider cfg presets (md_HostName md) of
                  None \<Rightarrow> t
                | Some (provider, matchedDomain) \<Rightarrow>
                    let source = (case md_DNSInfo md of None \<Rightarrow> ''unknown''
                                  | Some di \<Rightarrow> if di_BindingSource di \<noteq> [] then di_BindingSource di else ''unknown'')
                    in RecordDetection now provider matchedDomain (md_HostName md) source (md_Route md) now t))"

text \<open>Newest first, then by label.\<close>

definition activity_rank :: "AIActivityDetection \<Rightarrow> int \<times> string" where
  "activity_rank d = (- de_LastSeenAt d, de_ProviderLabel d)"

definition active_at :: "duration \<Rightarrow> time \<Rightarrow> AIActivityDetection \<Rightarrow> AIActivityDetection list" where
  "active_at ttl now d =
     (let remaining = de_LastSeenAt d + ttl - now in
      if remaining \<le> 0 then []
      else [d\<lparr>de_Active := True, de_RemainingTTL := ttlSecondsCeil remaining, de_TTLSeconds := ttl div 1000000000\<rparr>])"

definition SummaryAt :: "Config option \<Rightarrow> preset list \<Rightarrow> time \<Rightarrow> AIActivityTracker \<Rightarrow> AIActivityTracker \<times> AIActivitySummary" where
  "SummaryAt cfg presets now t =
     (let t1 = pruneExpiredLocked now t;
          active = sort_key activity_rank (concat (map (active_at (at_ttl t1) now \<circ> snd) (at_detections t1)))
      in (t1, \<lparr>su_Active = active \<noteq> [], su_ActiveCount = length active, su_TTLSeconds = at_ttl t1 div 1000000000,
               su_TotalHits = at_totalHits t1, su_LastSeenAt = Unix (at_latestSeenAt t1),
               su_LastProvider = at_latestProvider t1, su_LastLabel = at_latestLabel t1,
               su_LastDomain = at_latestDomain t1, su_LastHost = at_latestHost t1,
               su_LastSource = at_latestSource t1, su_LastRoute = at_latestRoute t1,
               su_LastMatchedVia = at_latestMatchedVia t1,
               su_DetectedBySNI = (at_latestSource t1 = BindingSourceSNI), su_ActiveDetections = active,
               su_TrackedPatterns = currentTrackedAIDomains cfg presets\<rparr>))"

definition Activity_Reset :: "AIActivityTracker \<Rightarrow> AIActivityTracker" where
  "Activity_Reset t = t\<lparr>at_detections := [], at_totalHits := 0, at_latestSeenAt := 0, at_latestProvider := [],
     at_latestLabel := [], at_latestDomain := [], at_latestHost := [], at_latestSource := [],
     at_latestRoute := [], at_latestMatchedVia := []\<rparr>"

section \<open>Histories\<close>

text \<open>A detection with its provider, domain, host, source, route and time, a look at the summary, a reset.\<close>

datatype activity_op = Detect trackedAIProvider string string string string time | Look time | Forget

fun op_time :: "activity_op \<Rightarrow> time list" where
  "op_time (Detect _ _ _ _ _ at) = [at]"
| "op_time (Look at) = [at]"
| "op_time Forget = []"

fun activity_step :: "activity_op \<Rightarrow> AIActivityTracker \<Rightarrow> AIActivityTracker" where
  "activity_step (Detect p d h src rt at) t = RecordDetection at p d h src rt at t"
| "activity_step (Look at) t = pruneExpiredLocked at t"
| "activity_step Forget t = Activity_Reset t"

definition accepted :: "trackedAIProvider \<Rightarrow> string \<Rightarrow> string \<Rightarrow> bool" where
  "accepted p d h \<longleftrightarrow> TrimSpace (ap_Key p) \<noteq> [] \<and> TrimSpace (ap_Label p) \<noteq> []
     \<and> normalizeAIDomainPattern d \<noteq> [] \<and> normalizeAIDomainHost h \<noteq> []"

text \<open>When a provider was last detected, read off the history alone.\<close>

fun last_seen :: "string \<Rightarrow> time option \<Rightarrow> activity_op list \<Rightarrow> time option" where
  "last_seen k s [] = s"
| "last_seen k s (Detect p d h src rt at # ops) =
     last_seen k (if accepted p d h \<and> TrimSpace (ap_Key p) = k then Some at else s) ops"
| "last_seen k s (Look at # ops) = last_seen k s ops"
| "last_seen k s (Forget # ops) = last_seen k None ops"

text \<open>The number of detections since the last reset.\<close>

fun hits :: "nat \<Rightarrow> activity_op list \<Rightarrow> nat" where
  "hits n [] = n"
| "hits n (Detect p d h src rt at # ops) = hits (if accepted p d h then Suc n else n) ops"
| "hits n (Look at # ops) = hits n ops"
| "hits n (Forget # ops) = hits 0 ops"

section \<open>What is active\<close>

text \<open>
  \<open>L\<close> is when each provider was last seen and \<open>T\<close> the time of the last operation: what the tracker no
  longer knows was seen too long ago to be active again.
\<close>

definition activity_inv :: "(string \<Rightarrow> time option) \<Rightarrow> time \<Rightarrow> AIActivityTracker \<Rightarrow> bool" where
  "activity_inv L T t \<longleftrightarrow> 0 < at_ttl t \<and> distinct (map fst (at_detections t))
     \<and> (\<forall>k d. map_of (at_detections t) k = Some d \<longrightarrow> L k = Some (de_LastSeenAt d) \<and> de_ProviderKey d = k)
     \<and> (\<forall>k at. L k = Some at \<longrightarrow> map_of (at_detections t) k = None \<longrightarrow> at < T - 4 * at_ttl t)"

lemma map_of_filter_distinct: "distinct (map fst xs) \<Longrightarrow>
    map_of (filter (\<lambda>(k, d). P d) xs) k = (case map_of xs k of None \<Rightarrow> None | Some d \<Rightarrow> if P d then Some d else None)"
  by (induction xs) (auto simp: map_of_eq_None_iff image_iff split: option.splits)

lemma activity_inv_prune:
  assumes "activity_inv L T t" "T \<le> now"
  shows "activity_inv L now (pruneExpiredLocked now t)"
  using assms unfolding activity_inv_def
  by (fastforce simp: pruneExpiredLocked_def Let_def map_of_filter_distinct distinct_map_filter split: option.splits if_splits)

lemma activity_inv_detect:
  assumes inv: "activity_inv L T t" and le: "T \<le> at"
  shows "activity_inv (\<lambda>k. last_seen k (L k) [Detect p d h src rt at]) at (RecordDetection at p d h src rt at t)"
proof (cases "accepted p d h")
  case True
  let ?k = "TrimSpace (ap_Key p)"
  have p: "activity_inv L at (pruneExpiredLocked at t)" by (rule activity_inv_prune [OF inv le])
  have upd: "at_ttl (RecordDetection at p d h src rt at t) = at_ttl (pruneExpiredLocked at t)
      \<and> (\<exists>d'. at_detections (RecordDetection at p d h src rt at t) = AList.update ?k d' (at_detections (pruneExpiredLocked at t))
         \<and> de_LastSeenAt d' = at \<and> de_ProviderKey d' = ?k)"
    using True by (simp add: RecordDetection_def accepted_def Let_def) (intro exI conjI, rule refl, simp_all)
  then show ?thesis using p True
    by (auto simp: activity_inv_def update_conv' distinct_update)
next
  case False
  then have "RecordDetection at p d h src rt at t = t" by (auto simp: RecordDetection_def accepted_def Let_def)
  then show ?thesis using inv le False by (fastforce simp: activity_inv_def)
qed

lemma activity_inv_step:
  assumes "activity_inv L T t" "\<forall>at\<in>set (op_time op). T \<le> at"
  shows "activity_inv (\<lambda>k. last_seen k (L k) [op]) (if op_time op = [] then T else hd (op_time op)) (activity_step op t)"
proof (cases op)
  case (Detect p d h src rt at)
  then show ?thesis using assms activity_inv_detect [of L T t at p d h src rt] by simp
next
  case (Look at)
  then show ?thesis using assms activity_inv_prune by simp
next
  case Forget
  then show ?thesis using assms by (simp add: activity_inv_def Activity_Reset_def)
qed

lemma last_seen_Cons: "last_seen k s (op # ops) = last_seen k (last_seen k s [op]) ops"
  by (cases op) simp_all

lemma activity_inv_run:
  "activity_inv L T t \<Longrightarrow> sorted (T # concat (map op_time ops) @ [now]) \<Longrightarrow>
   \<exists>T' \<le> now. activity_inv (\<lambda>k. last_seen k (L k) ops) T' (fold activity_step ops t)"
proof (induction ops arbitrary: L T t)
  case (Cons op ops)
  let ?T = "if op_time op = [] then T else hd (op_time op)"
  have step: "activity_inv (\<lambda>k. last_seen k (L k) [op]) ?T (activity_step op t)"
    using Cons.prems by (intro activity_inv_step) (auto simp: sorted_append)
  have "sorted (?T # concat (map op_time ops) @ [now])"
    using Cons.prems(2) by (cases op) (auto simp: sorted_append)
  then show ?case using Cons.IH [OF step] by (simp add: last_seen_Cons [of _ _ op ops])
qed auto

lemma hits_Cons: "hits n (op # ops) = hits (hits n [op]) ops"
  by (cases op) simp_all

lemma total_hits_run: "at_totalHits t = of_nat n \<Longrightarrow> at_totalHits (fold activity_step ops t) = of_nat (hits n ops)"
proof (induction ops arbitrary: n t)
  case (Cons op ops)
  have "at_totalHits (activity_step op t) = of_nat (hits n [op])"
    using Cons.prems by (cases op)
      (auto simp: RecordDetection_def accepted_def Let_def pruneExpiredLocked_def Activity_Reset_def)
  then show ?case using Cons.IH by (simp only: fold_Cons comp_def hits_Cons [of n op ops])
qed simp

lemma active_keys:
  assumes inv: "activity_inv L T t" and "T \<le> now"
  defines "xs \<equiv> concat (map (active_at (at_ttl t) now \<circ> snd) (at_detections (pruneExpiredLocked now t)))"
  shows "set (map de_ProviderKey xs) = {k. \<exists>at. L k = Some at \<and> now < at + at_ttl t} \<and> distinct (map de_ProviderKey xs)"
proof -
  define t1 where "t1 = pruneExpiredLocked now t"
  have ttl: "at_ttl t1 = at_ttl t" by (simp add: t1_def pruneExpiredLocked_def Let_def)
  have p: "activity_inv L now t1" unfolding t1_def by (rule activity_inv_prune [OF inv assms(2)])
  have dist: "distinct (map fst (at_detections t1))" using p by (simp add: activity_inv_def)
  have known: "(k, d) \<in> set (at_detections t1) \<Longrightarrow> L k = Some (de_LastSeenAt d) \<and> de_ProviderKey d = k" for k d
    using p dist by (auto simp: activity_inv_def)
  have keys: "map de_ProviderKey (concat (map (active_at c now \<circ> snd) ys))
      = map fst (filter (\<lambda>(k, d). now < de_LastSeenAt d + c) ys)"
    if "\<And>k d. (k, d) \<in> set ys \<Longrightarrow> de_ProviderKey d = k" for ys c
    using that by (induction ys) (auto simp: active_at_def Let_def)
  have xs: "map de_ProviderKey xs = map fst (filter (\<lambda>(k, d). now < de_LastSeenAt d + at_ttl t) (at_detections t1))"
    unfolding xs_def t1_def [symmetric] using known by (intro keys) blast
  have "k \<in> set (map de_ProviderKey xs) \<longleftrightarrow> (\<exists>at. L k = Some at \<and> now < at + at_ttl t)" for k
  proof
    assume "k \<in> set (map de_ProviderKey xs)"
    then show "\<exists>at. L k = Some at \<and> now < at + at_ttl t" unfolding xs using known by force
  next
    assume "\<exists>at. L k = Some at \<and> now < at + at_ttl t"
    then obtain at where at: "L k = Some at" "now < at + at_ttl t" by blast
    have "map_of (at_detections t1) k \<noteq> None"
      using p at ttl unfolding activity_inv_def by force
    then obtain d where "(k, d) \<in> set (at_detections t1)" using map_of_SomeD by fastforce
    then show "k \<in> set (map de_ProviderKey xs)" unfolding xs using known at by force
  qed
  then show ?thesis unfolding xs using dist by (auto simp: distinct_map_filter xs)
qed

text \<open>
  A provider is reported active exactly while its last detection is less than the time to live
  ago: for every history of detections, looks and resets with times that do not decrease, the
  summary lists each such provider once and no other, and the total it reports is the number of
  accepted detections since the last reset. Forgetting old detections never hides an active one.
\<close>

theorem activity_window:
  assumes "sorted (concat (map op_time ops) @ [now])"
  shows "let t = fold activity_step ops (NewAIActivityTracker ttl); s = snd (SummaryAt cfg presets now t);
             live = (if ttl \<le> 0 then DefaultAIActivityTTL else ttl);
             keys = map de_ProviderKey (su_ActiveDetections s)
    in set keys = {k. \<exists>at. last_seen k None ops = Some at \<and> now < at + live}
     \<and> distinct keys \<and> su_ActiveCount s = length keys \<and> su_TotalHits s = of_nat (hits 0 ops)"
proof -
  define t0 where "t0 = NewAIActivityTracker ttl"
  define t where "t = fold activity_step ops t0"
  define T where "T = hd (concat (map op_time ops) @ [now])"
  have new: "activity_inv (\<lambda>_. None) T t0" "at_totalHits t0 = of_nat 0"
    by (simp_all add: t0_def activity_inv_def NewAIActivityTracker_def DefaultAIActivityTTL_def)
  have "sorted (T # concat (map op_time ops) @ [now])"
    using assms unfolding T_def by (cases "concat (map op_time ops) @ [now]") (simp, fastforce)
  then obtain T' where T': "T' \<le> now" "activity_inv (\<lambda>k. last_seen k None ops) T' t"
    using activity_inv_run [OF new(1), of ops now] unfolding t_def by blast
  have ttl_step: "at_ttl (activity_step op u) = at_ttl u" for op u
    by (cases op) (simp_all add: RecordDetection_def Let_def pruneExpiredLocked_def Activity_Reset_def)
  have "at_ttl (fold activity_step os u) = at_ttl u" for os u
    by (induction os arbitrary: u) (simp_all add: ttl_step)
  then have ttl: "at_ttl t = (if ttl \<le> 0 then DefaultAIActivityTTL else ttl)"
    by (simp add: t_def t0_def NewAIActivityTracker_def)
  have hits: "at_totalHits t = of_nat (hits 0 ops)" unfolding t_def by (rule total_hits_run [OF new(2)])
  have prune: "at_ttl (pruneExpiredLocked now t) = at_ttl t" "at_totalHits (pruneExpiredLocked now t) = at_totalHits t"
    by (simp_all add: pruneExpiredLocked_def Let_def)
  have dsort: "distinct (map f (sort_key g xs)) \<longleftrightarrow> distinct (map f xs)"
    for f :: "AIActivityDetection \<Rightarrow> string" and g :: "AIActivityDetection \<Rightarrow> int \<times> string" and xs
    by (metis mset_map mset_sort mset_eq_imp_distinct_iff)
  show ?thesis
    using active_keys [OF T'(2) T'(1)] ttl hits prune
    by (simp add: Let_def SummaryAt_def t_def [symmetric] t0_def [symmetric] dsort image_image)
qed

definition sample_provider :: trackedAIProvider where
  "sample_provider = \<lparr>ap_Key = ''openai'', ap_Label = ''OpenAI'', ap_Patterns = [''openai.com'']\<rparr>"

lemma activity_window_witness:
  "let ops = [Detect sample_provider ''openai.com'' ''api.openai.com'' ''sni'' ''RouteToALiang'' 100, Look 105];
       t = fold activity_step ops (NewAIActivityTracker 15);
       s = snd (SummaryAt None [] 110 t)
   in set (map de_ProviderKey (su_ActiveDetections s)) = {''openai''} \<and> su_TotalHits s = 1"
proof -
  let ?ops = "[Detect sample_provider ''openai.com'' ''api.openai.com'' ''sni'' ''RouteToALiang'' 100, Look 105]"
  have acc: "accepted sample_provider ''openai.com'' ''api.openai.com''" "TrimSpace (ap_Key sample_provider) = ''openai''"
    by code_simp+
  have "{k. \<exists>at. last_seen k None ?ops = Some at \<and> (110::int) < at + 15} = {''openai''}"
    by (auto simp: acc)
  then show ?thesis
    using activity_window [of ?ops 110 15 None "[]"] by (simp add: Let_def acc(1))
qed

end
