(* ===== verification/Software_Update.thy ===== *)
theory Software_Update
  imports Config_Types AI_Activity
begin

text \<open>
  The update service, \<^verbatim>\<open>src/app/http/services/software_update_service.go\<close>, over its store
  \<^verbatim>\<open>src/app/http/storage/software_update_store.go\<close>: it asks a server for the newest version, remembers
  the answer, lets the user dismiss it and tells the run service whether a forced update blocks the
  start of the proxy.

  The two tables are maps from their unique keys. What the outside does in a call (the time, a database
  error, the answer of the server) is an argument of the call. JSON decoding is an argument.
\<close>

section \<open>Data\<close>

record SoftwareVersionUpdateSnapshot =
  us_Software :: string
  us_Platform :: string
  us_CurrentVersion :: string
  us_LatestVersion :: string
  us_DownloadURL :: string
  us_FileType :: string
  us_Changelog :: string
  us_NeedsUpdate :: bool
  us_ForceUpdate :: bool
  us_Status :: string
  us_LastError :: string
  us_CheckedAt :: time
  us_FirstSeenAt :: time
  us_LastSeenAt :: time

record SoftwareVersionUpdateDismissal =
  ud_Software :: string
  ud_Platform :: string
  ud_LatestVersion :: string
  ud_DismissedAt :: time

record SoftwareVersionUpdateFrontendStatus =
  uf_Software :: string
  uf_Platform :: string
  uf_CurrentVersion :: string
  uf_LatestVersion :: string
  uf_DownloadURL :: string
  uf_FileType :: string
  uf_Changelog :: string
  uf_NeedsUpdate :: bool
  uf_ForceUpdate :: bool
  uf_Dismissed :: bool
  uf_ShowModal :: bool
  uf_IndicatorVisible :: bool
  uf_BlockingProxyStart :: bool
  uf_Status :: string
  uf_LastError :: string
  uf_CheckedAtUnix :: int
  uf_FirstSeenAtUnix :: int
  uf_LastSeenAtUnix :: int
  uf_DismissedAtUnix :: int

definition zero_status :: SoftwareVersionUpdateFrontendStatus where
  "zero_status = \<lparr>uf_Software = [], uf_Platform = [], uf_CurrentVersion = [], uf_LatestVersion = [],
     uf_DownloadURL = [], uf_FileType = [], uf_Changelog = [], uf_NeedsUpdate = False, uf_ForceUpdate = False,
     uf_Dismissed = False, uf_ShowModal = False, uf_IndicatorVisible = False, uf_BlockingProxyStart = False,
     uf_Status = [], uf_LastError = [], uf_CheckedAtUnix = 0, uf_FirstSeenAtUnix = 0, uf_LastSeenAtUnix = 0,
     uf_DismissedAtUnix = 0\<rparr>"

record softwareUpdateRemotePayload =
  up_SoftwareName :: string
  up_Platform :: string
  up_CurrentVersion :: string
  up_LatestVersion :: string
  up_DownloadURL :: string
  up_FileType :: string
  up_ForceUpdate :: bool
  up_NeedsUpdate :: bool
  up_Changelog :: string

record softwareUpdateEnvelope =
  ue_Code :: int
  ue_Msg :: string
  ue_Data :: softwareUpdateRemotePayload

record softwareUpdateRuntimeInfo =
  ri_software :: string
  ri_platform :: string
  ri_version :: string

record SoftwareVersionUpdateStore =
  st_snapshots :: "string \<times> string \<rightharpoonup> SoftwareVersionUpdateSnapshot"
  st_dismissals :: "string \<times> string \<times> string \<rightharpoonup> SoftwareVersionUpdateDismissal"

text \<open>What the process was started with: the linked version, two environment variables and the platform.\<close>

record update_process =
  pr_version :: string
  pr_env_version :: string
  pr_env_software :: string
  pr_goos :: string
  pr_config :: "Config option"

text \<open>The outcome of the calls of one operation: a database error of each kind, and the HTTP exchange.\<close>

record update_call =
  ca_now :: time
  ca_getErr :: "string option"
  ca_putErr :: "string option"
  ca_getDismissErr :: "string option"
  ca_putDismissErr :: "string option"
  ca_http :: "string + int \<times> byte list"

record update_json =
  uj_payload :: "byte list \<Rightarrow> softwareUpdateRemotePayload option"
  uj_envelope :: "byte list \<Rightarrow> softwareUpdateEnvelope option"

section \<open>Helpers\<close>

definition digits :: "string \<Rightarrow> bool" where
  "digits s \<longleftrightarrow> s \<noteq> [] \<and> list_all is_digit s"

text \<open>The pattern \<^verbatim>\<open>^v\d+\.\d+\.\d+$\<close>.\<close>

definition versionPattern :: "string \<Rightarrow> bool" where
  "versionPattern s = (case s of [] \<Rightarrow> False
     | c # r \<Rightarrow> c = CHR ''v'' \<and> (case Split r CHR ''.'' of [a, b, d] \<Rightarrow> digits a \<and> digits b \<and> digits d | _ \<Rightarrow> False))"

definition normalizeVersionString :: "string \<Rightarrow> string" where
  "normalizeVersionString value =
     (let trimmed = TrimSpace value in
      if trimmed = [] then []
      else if HasPrefix trimmed ''v'' \<and> versionPattern trimmed then trimmed
      else if versionPattern (''v'' @ trimmed) then ''v'' @ trimmed
      else [])"

definition softwareUpdateStatusLabel :: "bool \<Rightarrow> bool \<Rightarrow> string \<Rightarrow> string" where
  "softwareUpdateStatusLabel needsUpdate forceUpdate lastError =
     (if TrimSpace lastError \<noteq> [] then ''error''
      else if forceUpdate \<and> needsUpdate then ''force_update''
      else if needsUpdate then ''update_available''
      else ''up_to_date'')"

fun coalesceString :: "string list \<Rightarrow> string" where
  "coalesceString [] = []"
| "coalesceString (v # vs) = (if TrimSpace v \<noteq> [] then v else coalesceString vs)"

definition resolveSoftwareUpdateSoftwareName :: "update_process \<Rightarrow> string" where
  "resolveSoftwareUpdateSoftwareName P =
     (let override = TrimSpace (pr_env_software P) in if override \<noteq> [] then override else ''aliang-gateway'')"

definition resolveSoftwareUpdateRuntimeInfo :: "update_process \<Rightarrow> softwareUpdateRuntimeInfo option" where
  "resolveSoftwareUpdateRuntimeInfo P =
     (let v0 = normalizeVersionString (TrimSpace (pr_version P));
          v = (if v0 = [] then normalizeVersionString (TrimSpace (pr_env_version P)) else v0)
      in if v = [] then None
         else Some \<lparr>ri_software = resolveSoftwareUpdateSoftwareName P, ri_platform = pr_goos P, ri_version = v\<rparr>)"

definition normalizeSoftwareUpdateRemotePayload ::
    "softwareUpdateRuntimeInfo \<Rightarrow> softwareUpdateRemotePayload \<Rightarrow> softwareUpdateRemotePayload" where
  "normalizeSoftwareUpdateRemotePayload ri p =
     (let p1 = p\<lparr>up_SoftwareName := coalesceString [TrimSpace (up_SoftwareName p), ri_software ri],
                 up_Platform := coalesceString [TrimSpace (up_Platform p), ri_platform ri],
                 up_CurrentVersion := coalesceString [normalizeVersionString (up_CurrentVersion p), ri_version ri]\<rparr>
      in p1\<lparr>up_LatestVersion := coalesceString [normalizeVersionString (up_LatestVersion p1), up_CurrentVersion p1]\<rparr>)"

section \<open>The store\<close>

definition UpsertSnapshot ::
    "string option \<Rightarrow> SoftwareVersionUpdateSnapshot \<Rightarrow> SoftwareVersionUpdateStore \<Rightarrow> SoftwareVersionUpdateStore \<times> string option" where
  "UpsertSnapshot err x st =
     (case err of Some e \<Rightarrow> (st, Some e)
      | None \<Rightarrow> (st\<lparr>st_snapshots := (st_snapshots st)((us_Software x, us_Platform x) \<mapsto> x)\<rparr>, None))"

definition GetSnapshot ::
    "string option \<Rightarrow> string \<Rightarrow> string \<Rightarrow> SoftwareVersionUpdateStore \<Rightarrow> string + SoftwareVersionUpdateSnapshot option" where
  "GetSnapshot err software platform st =
     (case err of Some e \<Rightarrow> Inl e | None \<Rightarrow> Inr (st_snapshots st (software, platform)))"

definition UpsertDismissal ::
    "string option \<Rightarrow> SoftwareVersionUpdateDismissal \<Rightarrow> SoftwareVersionUpdateStore \<Rightarrow> SoftwareVersionUpdateStore \<times> string option" where
  "UpsertDismissal err x st =
     (case err of Some e \<Rightarrow> (st, Some e)
      | None \<Rightarrow> (st\<lparr>st_dismissals := (st_dismissals st)((ud_Software x, ud_Platform x, ud_LatestVersion x) \<mapsto> x)\<rparr>, None))"

definition GetDismissal ::
    "string option \<Rightarrow> string \<Rightarrow> string \<Rightarrow> string \<Rightarrow> SoftwareVersionUpdateStore \<Rightarrow> string + SoftwareVersionUpdateDismissal option" where
  "GetDismissal err software platform v st =
     (case err of Some e \<Rightarrow> Inl e | None \<Rightarrow> Inr (st_dismissals st (software, platform, v)))"

section \<open>The service\<close>

text \<open>
  \<^verbatim>\<open>buildSoftwareUpdateCheckURL\<close> has a constant base address; it fails only without a
  configuration. The error texts of the calls below are short forms of those of the code.
\<close>

definition fetchRemoteUpdate ::
    "update_json \<Rightarrow> update_process \<Rightarrow> update_call \<Rightarrow> softwareUpdateRuntimeInfo \<Rightarrow> string + softwareUpdateRemotePayload" where
  "fetchRemoteUpdate J P C ri =
     (if pr_config P = None then Inl ''global config is not initialized''
      else case ca_http C of Inl e \<Rightarrow> Inl e
      | Inr (code, body) \<Rightarrow>
          if code \<noteq> 200 then Inl ''software update API returned an error status''
          else
            (case (case uj_payload J body of
                Some raw \<Rightarrow> if up_LatestVersion raw \<noteq> [] \<or> up_CurrentVersion raw \<noteq> [] \<or> up_SoftwareName raw \<noteq> []
                            then Some raw else None
              | None \<Rightarrow> None) of
              Some raw \<Rightarrow> Inr (normalizeSoftwareUpdateRemotePayload ri raw)
            | None \<Rightarrow>
                (case uj_envelope J body of None \<Rightarrow> Inl ''failed to parse software update response''
                 | Some env \<Rightarrow>
                     if ue_Code env \<noteq> 0 then Inl ''software update API returned an error code''
                     else Inr (normalizeSoftwareUpdateRemotePayload ri (ue_Data env)))))"

definition persistFailureState ::
    "update_call \<Rightarrow> softwareUpdateRuntimeInfo \<Rightarrow> string \<Rightarrow> SoftwareVersionUpdateStore \<Rightarrow> SoftwareVersionUpdateStore \<times> string option" where
  "persistFailureState C ri refreshErr st =
     (case GetSnapshot (ca_getErr C) (ri_software ri) (ri_platform ri) st of
        Inl e \<Rightarrow> (st, Some e)
      | Inr snapshot \<Rightarrow>
          let n0 = \<lparr>us_Software = ri_software ri, us_Platform = ri_platform ri, us_CurrentVersion = ri_version ri,
                    us_LatestVersion = [], us_DownloadURL = [], us_FileType = [], us_Changelog = [],
                    us_NeedsUpdate = False, us_ForceUpdate = False, us_Status = ''error'', us_LastError = refreshErr,
                    us_CheckedAt = ca_now C, us_FirstSeenAt = 0, us_LastSeenAt = 0\<rparr>;
              next_snapshot = (case snapshot of
                  Some s \<Rightarrow> n0\<lparr>us_LatestVersion := us_LatestVersion s, us_DownloadURL := us_DownloadURL s,
                              us_FileType := us_FileType s, us_Changelog := us_Changelog s,
                              us_NeedsUpdate := us_NeedsUpdate s, us_ForceUpdate := us_ForceUpdate s,
                              us_FirstSeenAt := us_FirstSeenAt s, us_LastSeenAt := us_LastSeenAt s,
                              us_CurrentVersion := (if us_CurrentVersion n0 = [] then us_CurrentVersion s else us_CurrentVersion n0)\<rparr>
                | None \<Rightarrow> n0\<lparr>us_LatestVersion := ri_version ri\<rparr>)
          in case UpsertSnapshot (ca_putErr C) next_snapshot st of
               (st', Some e) \<Rightarrow> (st', Some e)
             | (st', None) \<Rightarrow> (st', Some refreshErr))"

definition RefreshNow ::
    "update_json \<Rightarrow> update_process \<Rightarrow> update_call \<Rightarrow> SoftwareVersionUpdateStore \<Rightarrow> SoftwareVersionUpdateStore \<times> string option" where
  "RefreshNow J P C st =
     (case resolveSoftwareUpdateRuntimeInfo P of
        None \<Rightarrow> persistFailureState C
                 \<lparr>ri_software = resolveSoftwareUpdateSoftwareName P, ri_platform = pr_goos P, ri_version = []\<rparr>
                 ''software version is not available for update checks'' st
      | Some ri \<Rightarrow>
          (case fetchRemoteUpdate J P C ri of
             Inl e \<Rightarrow> persistFailureState C ri e st
           | Inr p \<Rightarrow>
               (case GetSnapshot (ca_getErr C) (ri_software ri) (ri_platform ri) st of
                  Inl e \<Rightarrow> (st, Some e)
                | Inr existing \<Rightarrow>
                    let now = ca_now C;
                        firstSeenAt = (if \<not> up_NeedsUpdate p then 0
                          else case existing of
                                 Some s \<Rightarrow> if us_NeedsUpdate s \<and> EqualFold (us_LatestVersion s) (up_LatestVersion p) \<and> us_FirstSeenAt s \<noteq> 0
                                           then us_FirstSeenAt s else now
                               | None \<Rightarrow> now);
                        lastSeenAt = (if up_NeedsUpdate p then now else 0);
                        s0 = \<lparr>us_Software = ri_software ri, us_Platform = ri_platform ri,
                              us_CurrentVersion = normalizeVersionString (up_CurrentVersion p),
                              us_LatestVersion = normalizeVersionString (up_LatestVersion p),
                              us_DownloadURL = TrimSpace (up_DownloadURL p), us_FileType = TrimSpace (up_FileType p),
                              us_Changelog = TrimSpace (up_Changelog p), us_NeedsUpdate = up_NeedsUpdate p,
                              us_ForceUpdate = (up_NeedsUpdate p \<and> up_ForceUpdate p),
                              us_Status = softwareUpdateStatusLabel (up_NeedsUpdate p) (up_ForceUpdate p) [],
                              us_LastError = [], us_CheckedAt = now, us_FirstSeenAt = firstSeenAt, us_LastSeenAt = lastSeenAt\<rparr>;
                        s1 = (if us_CurrentVersion s0 = [] then s0\<lparr>us_CurrentVersion := ri_version ri\<rparr> else s0);
                        s2 = (if us_LatestVersion s1 = [] then s1\<lparr>us_LatestVersion := ri_version ri\<rparr> else s1)
                    in UpsertSnapshot (ca_putErr C) s2 st)))"

definition GetFrontendStatus ::
    "update_process \<Rightarrow> update_call \<Rightarrow> SoftwareVersionUpdateStore \<Rightarrow> SoftwareVersionUpdateFrontendStatus" where
  "GetFrontendStatus P C st =
     (case resolveSoftwareUpdateRuntimeInfo P of
        None \<Rightarrow> zero_status\<lparr>uf_Software := resolveSoftwareUpdateSoftwareName P, uf_Platform := pr_goos P,
                 uf_Status := ''error'', uf_LastError := ''software version is not available for update checks''\<rparr>
      | Some ri \<Rightarrow>
          (case GetSnapshot (ca_getErr C) (ri_software ri) (ri_platform ri) st of
             Inl e \<Rightarrow> zero_status\<lparr>uf_Software := ri_software ri, uf_Platform := ri_platform ri,
                      uf_CurrentVersion := ri_version ri, uf_Status := ''error'', uf_LastError := e\<rparr>
           | Inr None \<Rightarrow> zero_status\<lparr>uf_Software := ri_software ri, uf_Platform := ri_platform ri,
                      uf_CurrentVersion := ri_version ri, uf_Status := ''unknown''\<rparr>
           | Inr (Some snapshot) \<Rightarrow>
               (case GetDismissal (ca_getDismissErr C) (ri_software ri) (ri_platform ri) (us_LatestVersion snapshot) st of
                  Inl e \<Rightarrow> zero_status\<lparr>uf_Software := ri_software ri, uf_Platform := ri_platform ri,
                      uf_CurrentVersion := us_CurrentVersion snapshot, uf_LatestVersion := us_LatestVersion snapshot,
                      uf_Status := ''error'', uf_LastError := e, uf_IndicatorVisible := us_NeedsUpdate snapshot\<rparr>
                | Inr dismissal \<Rightarrow>
                    let dismissed = dismissal \<noteq> None in
                    \<lparr>uf_Software = us_Software snapshot, uf_Platform = us_Platform snapshot,
                     uf_CurrentVersion = coalesceString [us_CurrentVersion snapshot, ri_version ri],
                     uf_LatestVersion = us_LatestVersion snapshot, uf_DownloadURL = us_DownloadURL snapshot,
                     uf_FileType = us_FileType snapshot, uf_Changelog = us_Changelog snapshot,
                     uf_NeedsUpdate = us_NeedsUpdate snapshot, uf_ForceUpdate = us_ForceUpdate snapshot,
                     uf_Dismissed = dismissed,
                     uf_ShowModal = (us_NeedsUpdate snapshot \<and> (us_ForceUpdate snapshot \<or> \<not> dismissed)),
                     uf_IndicatorVisible = us_NeedsUpdate snapshot,
                     uf_BlockingProxyStart = (us_NeedsUpdate snapshot \<and> us_ForceUpdate snapshot),
                     uf_Status = us_Status snapshot, uf_LastError = us_LastError snapshot,
                     uf_CheckedAtUnix = Unix (us_CheckedAt snapshot), uf_FirstSeenAtUnix = Unix (us_FirstSeenAt snapshot),
                     uf_LastSeenAtUnix = Unix (us_LastSeenAt snapshot),
                     uf_DismissedAtUnix = (case dismissal of None \<Rightarrow> 0 | Some d \<Rightarrow> Unix (ud_DismissedAt d))\<rparr>)))"

definition DismissCurrentUpdate ::
    "update_process \<Rightarrow> update_call \<Rightarrow> SoftwareVersionUpdateStore
     \<Rightarrow> SoftwareVersionUpdateStore \<times> (string + SoftwareVersionUpdateFrontendStatus)" where
  "DismissCurrentUpdate P C st =
     (case resolveSoftwareUpdateRuntimeInfo P of
        None \<Rightarrow> (st, Inl ''software version is not available for update checks'')
      | Some ri \<Rightarrow>
          (case GetSnapshot (ca_getErr C) (ri_software ri) (ri_platform ri) st of
             Inl e \<Rightarrow> (st, Inl e)
           | Inr None \<Rightarrow> (st, Inr (GetFrontendStatus P C st))
           | Inr (Some snapshot) \<Rightarrow>
               if \<not> us_NeedsUpdate snapshot then (st, Inr (GetFrontendStatus P C st))
               else if us_ForceUpdate snapshot then (st, Inl ''forced update cannot be dismissed'')
               else if TrimSpace (us_LatestVersion snapshot) = [] then (st, Inl ''latest version is empty'')
               else
                 (case UpsertDismissal (ca_putDismissErr C)
                    \<lparr>ud_Software = ri_software ri, ud_Platform = ri_platform ri,
                     ud_LatestVersion = us_LatestVersion snapshot, ud_DismissedAt = ca_now C\<rparr> st of
                    (st', Some e) \<Rightarrow> (st', Inl e)
                  | (st', None) \<Rightarrow> (st', Inr (GetFrontendStatus P C st')))))"

section \<open>Histories\<close>

datatype update_op = Refresh update_call | Dismiss update_call

fun update_step :: "update_json \<Rightarrow> update_process \<Rightarrow> update_op \<Rightarrow> SoftwareVersionUpdateStore \<Rightarrow> SoftwareVersionUpdateStore" where
  "update_step J P (Refresh C) st = fst (RefreshNow J P C st)"
| "update_step J P (Dismiss C) st = fst (DismissCurrentUpdate P C st)"

definition empty_update_store :: SoftwareVersionUpdateStore where
  "empty_update_store = \<lparr>st_snapshots = Map.empty, st_dismissals = Map.empty\<rparr>"

text \<open>
  What the server said in the last refresh that went through: whether the update is forced. A
  refresh that fails, at the server or at the database, does not count.
\<close>

fun last_verdict :: "update_json \<Rightarrow> update_process \<Rightarrow> softwareUpdateRuntimeInfo \<Rightarrow> bool \<Rightarrow> update_op list \<Rightarrow> bool" where
  "last_verdict J P ri b [] = b"
| "last_verdict J P ri b (Refresh C # ops) =
     last_verdict J P ri
       (case fetchRemoteUpdate J P C ri of
          Inl _ \<Rightarrow> b
        | Inr p \<Rightarrow> if ca_getErr C = None \<and> ca_putErr C = None then up_NeedsUpdate p \<and> up_ForceUpdate p else b) ops"
| "last_verdict J P ri b (Dismiss C # ops) = last_verdict J P ri b ops"

section \<open>A forced update blocks until the server withdraws it\<close>

definition forced_at :: "softwareUpdateRuntimeInfo \<Rightarrow> SoftwareVersionUpdateStore \<Rightarrow> bool" where
  "forced_at ri st = (case st_snapshots st (ri_software ri, ri_platform ri) of None \<Rightarrow> False
     | Some s \<Rightarrow> us_NeedsUpdate s \<and> us_ForceUpdate s)"

lemma forced_failure: "forced_at ri (fst (persistFailureState C ri e st)) = forced_at ri st"
  by (auto simp: persistFailureState_def GetSnapshot_def UpsertSnapshot_def forced_at_def Let_def
      split: option.splits sum.splits)

lemma forced_dismiss: "forced_at ri (fst (DismissCurrentUpdate P C st)) = forced_at ri st"
  by (auto simp: DismissCurrentUpdate_def GetSnapshot_def UpsertDismissal_def forced_at_def
      split: option.splits sum.splits prod.splits if_splits)

lemma forced_refresh:
  assumes "resolveSoftwareUpdateRuntimeInfo P = Some ri"
  shows "forced_at ri (fst (RefreshNow J P C st)) = last_verdict J P ri (forced_at ri st) [Refresh C]"
proof (cases "fetchRemoteUpdate J P C ri")
  case (Inl e)
  then show ?thesis using assms by (simp add: RefreshNow_def forced_failure)
next
  case (Inr p)
  then show ?thesis using assms
    by (cases "ca_getErr C"; cases "ca_putErr C")
      (simp_all add: RefreshNow_def GetSnapshot_def UpsertSnapshot_def forced_at_def Let_def)
qed

lemma last_verdict_Cons: "last_verdict J P ri b (op # ops) = last_verdict J P ri (last_verdict J P ri b [op]) ops"
  by (cases op) simp_all

lemma forced_run:
  assumes "resolveSoftwareUpdateRuntimeInfo P = Some ri"
  shows "forced_at ri (fold (update_step J P) ops st) = last_verdict J P ri (forced_at ri st) ops"
proof (induction ops arbitrary: st)
  case (Cons op ops)
  have "forced_at ri (update_step J P op st) = last_verdict J P ri (forced_at ri st) [op]"
    using forced_refresh [OF assms] forced_dismiss by (cases op) simp_all
  then show ?case using Cons.IH by (simp only: fold_Cons comp_def last_verdict_Cons [of J P ri _ op ops])
qed simp

lemma blocking_forced:
  assumes "resolveSoftwareUpdateRuntimeInfo P = Some ri" "ca_getErr C = None" "ca_getDismissErr C = None"
  shows "uf_BlockingProxyStart (GetFrontendStatus P C st) = forced_at ri st"
  using assms by (auto simp: GetFrontendStatus_def GetSnapshot_def GetDismissal_def forced_at_def zero_status_def Let_def
      split: option.splits)

lemma dismiss_forced:
  assumes "resolveSoftwareUpdateRuntimeInfo P = Some ri" "forced_at ri st"
  shows "fst (DismissCurrentUpdate P C st) = st \<and> isl (snd (DismissCurrentUpdate P C st))"
  using assms by (auto simp: DismissCurrentUpdate_def GetSnapshot_def forced_at_def split: option.splits)

text \<open>
  The proxy is blocked exactly while a forced update stands. After any history of refreshes and
  dismissals, with failures of the server and of the database at any point, the status reports a
  blocked start exactly when the last refresh that went through said that an update is needed and
  forced; and while it stands every attempt to dismiss it fails and changes nothing. Assumed are a
  version of the running program and, for the reading of the status itself, a working database.
\<close>

theorem forced_update_blocks:
  assumes "resolveSoftwareUpdateRuntimeInfo P = Some ri" "ca_getErr C = None" "ca_getDismissErr C = None"
  shows "let st = fold (update_step J P) ops empty_update_store; forced = last_verdict J P ri False ops
    in uf_BlockingProxyStart (GetFrontendStatus P C st) = forced
     \<and> (forced \<longrightarrow> (\<forall>D. fst (DismissCurrentUpdate P D st) = st \<and> isl (snd (DismissCurrentUpdate P D st))))"
proof -
  have empty: "forced_at ri empty_update_store = False" by (simp add: forced_at_def empty_update_store_def)
  show ?thesis
    using forced_run [OF assms(1), of J ops empty_update_store] blocking_forced [OF assms] dismiss_forced [OF assms(1)]
    by (simp add: Let_def empty)
qed

definition sample_process :: update_process where
  "sample_process = \<lparr>pr_version = ''1.2.3'', pr_env_version = [], pr_env_software = [], pr_goos = ''linux'',
     pr_config = Some \<lparr>cfg_Core = None, cfg_Customer = None, customerUnknownFields = [], aiRuleUnknownFields = []\<rparr>\<rparr>"

definition sample_payload :: softwareUpdateRemotePayload where
  "sample_payload = \<lparr>up_SoftwareName = [], up_Platform = [], up_CurrentVersion = ''1.2.3'', up_LatestVersion = ''2.0.0'',
     up_DownloadURL = [], up_FileType = [], up_ForceUpdate = True, up_NeedsUpdate = True, up_Changelog = []\<rparr>"

definition sample_json :: update_json where
  "sample_json = \<lparr>uj_payload = (\<lambda>b. if b = [1] then Some sample_payload else None), uj_envelope = (\<lambda>b. None)\<rparr>"

definition sample_call :: update_call where
  "sample_call = \<lparr>ca_now = 7, ca_getErr = None, ca_putErr = None, ca_getDismissErr = None, ca_putDismissErr = None,
     ca_http = Inr (200, [1])\<rparr>"

lemma forced_update_blocks_witness:
  "uf_BlockingProxyStart (GetFrontendStatus sample_process sample_call
     (fold (update_step sample_json sample_process)
       [Refresh sample_call, Refresh (sample_call\<lparr>ca_http := Inl ''timeout''\<rparr>), Dismiss sample_call] empty_update_store))"
proof -
  let ?ops = "[Refresh sample_call, Refresh (sample_call\<lparr>ca_http := Inl ''timeout''\<rparr>), Dismiss sample_call]"
  let ?ri = "\<lparr>ri_software = ''aliang-gateway'', ri_platform = ''linux'', ri_version = ''v1.2.3''\<rparr>"
  have ri: "resolveSoftwareUpdateRuntimeInfo sample_process = Some ?ri" by code_simp
  have "last_verdict sample_json sample_process ?ri False ?ops" by code_simp
  then show ?thesis
    using forced_update_blocks [OF ri, of sample_call sample_json ?ops]
    by (simp add: sample_call_def Let_def)
qed

text \<open>
  The gate fails open: while the database cannot be read, or when the program has no version, the
  status never blocks, whatever is stored.
\<close>

lemma update_gate_fails_open:
  assumes "resolveSoftwareUpdateRuntimeInfo P = None \<or> ca_getErr C = Some e \<or> ca_getDismissErr C = Some e"
  shows "\<not> uf_BlockingProxyStart (GetFrontendStatus P C st)"
  using assms by (auto simp: GetFrontendStatus_def GetSnapshot_def GetDismissal_def zero_status_def
      split: option.splits sum.splits)

text \<open>
  The stored answer is not compared with the running version: a program that was updated to the
  required version stays blocked until a refresh goes through.
\<close>

lemma update_survives_upgrade:
  assumes "resolveSoftwareUpdateRuntimeInfo P = Some ri" "resolveSoftwareUpdateRuntimeInfo P' = Some (ri\<lparr>ri_version := v\<rparr>)"
    and "forced_at ri st" "ca_getErr C = None" "ca_getDismissErr C = None"
  shows "uf_BlockingProxyStart (GetFrontendStatus P' C st)"
  using blocking_forced [OF assms(2) assms(4,5)] assms(3) by (simp add: forced_at_def)

end
