(* ===== verification/Run_Service.thy ===== *)
theory Run_Service
  imports Software_Update Apply_Store Snapshot
begin

text \<open>
  The run service, \<^verbatim>\<open>src/app/http/services/run.go\<close>, with the startup state of
  \<^verbatim>\<open>src/processor/runtime/startup_state.go\<close>: it starts and stops the proxy in one of two modes and switches
  between them. The mode lives in two places, the service and the active routing snapshot of the
  apply store, whose \<^verbatim>\<open>Apply\<close> is that of \<open>Apply_Store\<close> with the compiler of \<open>Snapshot\<close> as its builder.

  The proxies themselves are outside: the service issues commands to them, which the world records in
  order. What the outside answers in a call is an argument of the call. Texts meant for people are
  left out of the responses. The goroutine that restarts the TUN device after a failed switch runs
  when the switch has returned, since it needs the lock; the model runs it at that point.
\<close>

section \<open>The startup state\<close>

datatype StartupStatus = UNCONFIGURED | CONFIGURING | CONFIGURED | READY

record StartupState =
  ss_status :: StartupStatus
  ss_fetchSuccess :: bool
  ss_timestamp :: time

definition GetStartupState :: "time \<Rightarrow> StartupState" where
  "GetStartupState now = \<lparr>ss_status = UNCONFIGURED, ss_fetchSuccess = False, ss_timestamp = now\<rparr>"

definition SetStatus :: "time \<Rightarrow> StartupStatus \<Rightarrow> StartupState \<Rightarrow> StartupState" where
  "SetStatus now status s = s\<lparr>ss_status := status, ss_timestamp := now\<rparr>"

definition Startup_GetStatus :: "StartupState \<Rightarrow> StartupStatus" where
  "Startup_GetStatus s = ss_status s"

definition SetFetchSuccess :: "bool \<Rightarrow> StartupState \<Rightarrow> StartupState" where
  "SetFetchSuccess success s = s\<lparr>ss_fetchSuccess := success\<rparr>"

definition canStartProxyWithStatus :: "StartupStatus \<Rightarrow> bool" where
  "canStartProxyWithStatus status \<longleftrightarrow> status = READY \<or> status = CONFIGURED"

section \<open>Data\<close>

type_synonym RunMode = string

abbreviation ModeHTTP :: RunMode where "ModeHTTP \<equiv> ''http''"
abbreviation ModeTUN :: RunMode where "ModeTUN \<equiv> ''tun''"

text \<open>A command to a proxy; starting the TUN device reports whether it came up.\<close>

datatype command = StartHTTP | StopHTTP | StartTUN bool | StopTUN

record RunService =
  rn_currentMode :: RunMode
  rn_isRunning :: bool
  rn_persisted :: "RunMode option"
  rn_store :: "RuntimeSnapshot routingApplyStore"
  rn_commands :: "command list"

record wintun_status =
  wt_Supported :: bool
  wt_Required :: bool
  wt_Available :: bool
  wt_Installing :: bool

text \<open>
  The answers of the outside in one call: the startup state, the update status, the driver, the
  map the TUN runner returns, whether the mode can be saved, the configuration and the codec.
\<close>

record run_call =
  rc_startup :: StartupState
  rc_update :: SoftwareVersionUpdateFrontendStatus
  rc_wintun :: wintun_status
  rc_tun :: "(string \<times> string) list"
  rc_hasStore :: bool
  rc_saveOk :: bool
  rc_config :: "Config option"

text \<open>
  A response: its status, its error code, and, where it has them, the mode (the current one, or the
  one stopped) and the running flag.
\<close>

record run_response =
  rp_status :: string
  rp_error :: string
  rp_mode :: "RunMode option"
  rp_running :: "bool option"

definition failure :: "string \<Rightarrow> run_response" where
  "failure err = \<lparr>rp_status = ''failed'', rp_error = err, rp_mode = None, rp_running = None\<rparr>"

definition response :: "string \<Rightarrow> RunService \<Rightarrow> run_response" where
  "response status w = \<lparr>rp_status = status, rp_error = [], rp_mode = Some (rn_currentMode w), rp_running = Some (rn_isRunning w)\<rparr>"

section \<open>The mode in the routing snapshot\<close>

definition activeIngressModeFromSnapshot :: "RunService \<Rightarrow> RunMode option" where
  "activeIngressModeFromSnapshot w =
     (case Store_ActiveSnapshot (rn_store w) of None \<Rightarrow> None
      | Some snapshot \<Rightarrow>
          let mode = lower_trim (Snapshot_IngressMode (Some snapshot))
          in if mode \<noteq> ModeHTTP \<and> mode \<noteq> ModeTUN then None else Some mode)"

text \<open>
  The code also compiles a snapshot from the configuration here, and then sets the mode to the value
  it already has.
\<close>

definition bootstrapCanonicalRoutingSchema :: "Config option \<Rightarrow> RunMode \<Rightarrow> CanonicalRoutingSchema" where
  "bootstrapCanonicalRoutingSchema globalCfg mode =
     (let proxy = (case globalCfg of None \<Rightarrow> None
                   | Some c \<Rightarrow> (case cfg_Customer c of None \<Rightarrow> None | Some cust \<Rightarrow> cc_Proxy cust));
          (upstreamType, toSocksEnabled) =
            (case proxy of None \<Rightarrow> (''socks'', False)
             | Some p \<Rightarrow>
                 let proxyType = lower_trim (cp_Type p) in
                 if proxyType = ''http'' \<or> proxyType = ''socks5''
                 then (if proxyType = ''http'' then ''http'' else ''socks'', TrimSpace (cp_Server p) \<noteq> [])
                 else (''socks'', False))
      in \<lparr>cs_Version = CanonicalRoutingSchemaVersion, cs_Ingress_Mode = mode,
          cs_Egress = \<lparr>eg_Direct_Enabled = True, eg_ToAliang_Enabled = True, eg_ToSocks_Enabled = toSocksEnabled,
                       eg_ToSocks_Upstream_Type = upstreamType\<rparr>,
          cs_Rules = [], cs_DefaultEgress = []\<rparr>)"

definition build_snapshot :: "CanonicalRoutingSchema \<Rightarrow> RuntimeSnapshot option" where
  "build_snapshot c = (case CompileRuntimeSnapshot (Some c) of Inl _ \<Rightarrow> None | Inr s \<Rightarrow> Some s)"

definition applyIngressModeToSnapshot :: "codec \<Rightarrow> Config option \<Rightarrow> RunMode \<Rightarrow> RunService \<Rightarrow> RunService \<times> bool" where
  "applyIngressModeToSnapshot cd globalCfg mode w =
     (let canonical = (case ActiveCanonicalSchema cd (rn_store w) of
                         None \<Rightarrow> bootstrapCanonicalRoutingSchema globalCfg mode
                       | Some c \<Rightarrow> c\<lparr>cs_Ingress_Mode := mode\<rparr>)
      in case json_Marshal cd canonical of None \<Rightarrow> (w, False)
         | Some raw \<Rightarrow>
             (case Apply cd raw (Some build_snapshot) (rn_store w) of
                (st, r) \<Rightarrow> (w\<lparr>rn_store := st\<rparr>, \<not> isl r)))"

section \<open>Operations\<close>

definition resolveAuthoritativeModeLocked :: "RunService \<Rightarrow> RunService \<times> RunMode" where
  "resolveAuthoritativeModeLocked w =
     (case activeIngressModeFromSnapshot w of
        Some mode \<Rightarrow> (w\<lparr>rn_currentMode := mode\<rparr>, mode)
      | None \<Rightarrow> (w, rn_currentMode w))"

definition GetCurrentMode :: "RunService \<Rightarrow> string" where
  "GetCurrentMode w = (case activeIngressModeFromSnapshot w of Some mode \<Rightarrow> mode | None \<Rightarrow> rn_currentMode w)"

definition SetCurrentMode :: "string \<Rightarrow> RunService \<Rightarrow> RunService" where
  "SetCurrentMode mode w = w\<lparr>rn_currentMode := mode\<rparr>"

definition IsRunning :: "RunService \<Rightarrow> bool" where
  "IsRunning w = rn_isRunning w"

text \<open>The mode, the flag and the status line of the report; the progress of a TUN start is left out.\<close>

definition Run_GetStatus :: "RunService \<Rightarrow> string \<times> bool \<times> string" where
  "Run_GetStatus w =
     (let mode = (case activeIngressModeFromSnapshot w of Some m \<Rightarrow> m | None \<Rightarrow> rn_currentMode w)
      in (mode, rn_isRunning w,
          if mode = ModeTUN then (if rn_isRunning w then ''Deep Mode is running'' else ''Deep Mode is selected, service not running'')
          else if mode = ModeHTTP then
            (if rn_isRunning w then ''Regular Mode is running'' else ''Regular Mode is selected, service not running'')
          else []))"

definition SetRunning :: "bool \<Rightarrow> RunService \<Rightarrow> RunService" where
  "SetRunning running w = w\<lparr>rn_isRunning := running\<rparr>"

definition issue :: "command \<Rightarrow> RunService \<Rightarrow> RunService" where
  "issue c w = w\<lparr>rn_commands := rn_commands w @ [c]\<rparr>"

definition handleTUNStartResultLocked :: "(string \<times> string) list \<Rightarrow> RunService \<Rightarrow> RunService" where
  "handleTUNStartResultLocked res w =
     (case map_of res ''status'' of
        Some status \<Rightarrow> if status = ''failed'' then w\<lparr>rn_isRunning := False\<rparr>
                       else if status = ''success'' then w\<lparr>rn_isRunning := True\<rparr> else w
      | None \<Rightarrow> w)"

definition tun_up :: "(string \<times> string) list \<Rightarrow> bool" where
  "tun_up res \<longleftrightarrow> map_of res ''status'' \<noteq> Some ''failed''"

definition startTUN :: "run_call \<Rightarrow> RunService \<Rightarrow> RunService" where
  "startTUN E w = handleTUNStartResultLocked (rc_tun E) (issue (StartTUN (tun_up (rc_tun E))) w)"

definition wintun_missing :: "run_call \<Rightarrow> bool" where
  "wintun_missing E \<longleftrightarrow> wt_Supported (rc_wintun E) \<and> wt_Required (rc_wintun E) \<and> \<not> wt_Available (rc_wintun E)"

definition wintun_error :: "run_call \<Rightarrow> string" where
  "wintun_error E = (if wt_Installing (rc_wintun E) then ''wintun_installing'' else ''wintun_required'')"

definition text_of :: "string \<Rightarrow> (string \<times> string) list \<Rightarrow> string" where
  "text_of k res = (case map_of res k of None \<Rightarrow> [] | Some v \<Rightarrow> v)"

definition StartService :: "run_call \<Rightarrow> RunService \<Rightarrow> RunService \<times> run_response" where
  "StartService E w =
     (if \<not> canStartProxyWithStatus (Startup_GetStatus (rc_startup E)) then (w, failure ''activation_required'')
      else if uf_BlockingProxyStart (rc_update E) then (w, failure ''force_update_required'')
      else if rn_isRunning w then (w, (failure [])\<lparr>rp_status := ''already_running''\<rparr>)
      else
        let (w1, startMode) = resolveAuthoritativeModeLocked w in
        if startMode = ModeTUN \<and> wintun_missing E then (w1, failure (wintun_error E))
        else
          let w2 = w1\<lparr>rn_isRunning := True\<rparr> in
          if startMode = ModeTUN then
            (let w3 = startTUN E w2
             in (w3, (failure (text_of ''error'' (rc_tun E)))\<lparr>rp_status := text_of ''status'' (rc_tun E)\<rparr>))
          else if startMode = ModeHTTP then (issue StartHTTP w2, (failure [])\<lparr>rp_status := ''success''\<rparr>)
          else let w3 = w2\<lparr>rn_isRunning := False\<rparr> in (w3, failure ''unknown_mode''))"

definition stopServiceSync :: "RunMode \<Rightarrow> RunService \<Rightarrow> RunService" where
  "stopServiceSync mode w =
     (if mode = ModeHTTP then issue StopHTTP w else if mode = ModeTUN then issue StopTUN w else w)"

definition StopService :: "RunService \<Rightarrow> RunService \<times> run_response" where
  "StopService w =
     (if \<not> rn_isRunning w then (w, failure ''not_running'')
      else
        let stoppedMode = rn_currentMode w; w1 = w\<lparr>rn_isRunning := False\<rparr>;
            w2 = (if stoppedMode = ModeHTTP then issue StopHTTP w1
                  else if stoppedMode = ModeTUN then issue StopTUN w1 else w1)
        in (w2, \<lparr>rp_status = ''success'', rp_error = [], rp_mode = Some stoppedMode, rp_running = None\<rparr>))"

definition startModeAsync :: "run_call \<Rightarrow> RunMode \<Rightarrow> RunService \<Rightarrow> RunService" where
  "startModeAsync E mode w =
     (if mode = ModeHTTP then issue StartHTTP w else if mode = ModeTUN then startTUN E w else w)"

definition rollbackToPreviousModeLocked :: "codec \<Rightarrow> run_call \<Rightarrow> RunMode \<Rightarrow> bool \<Rightarrow> RunService \<Rightarrow> RunService" where
  "rollbackToPreviousModeLocked cd E previousMode shouldRun w =
     (let (w1, _) = applyIngressModeToSnapshot cd (rc_config E) previousMode w;
          w2 = w1\<lparr>rn_currentMode := previousMode\<rparr>
      in if shouldRun then startModeAsync E previousMode (w2\<lparr>rn_isRunning := True\<rparr>) else w2)"

definition rollbackFromActivationFailureLocked :: "codec \<Rightarrow> run_call \<Rightarrow> RunMode \<Rightarrow> RunService \<Rightarrow> RunService" where
  "rollbackFromActivationFailureLocked cd E previousMode w =
     (let (w1, _) = applyIngressModeToSnapshot cd (rc_config E) previousMode (w\<lparr>rn_isRunning := False\<rparr>)
      in startModeAsync E previousMode (w1\<lparr>rn_currentMode := previousMode, rn_isRunning := True\<rparr>))"

definition persistModeLocked :: "run_call \<Rightarrow> RunMode \<Rightarrow> RunService \<Rightarrow> RunService \<times> bool" where
  "persistModeLocked E mode w =
     (if \<not> rc_hasStore E then (w, True)
      else if rc_saveOk E then (w\<lparr>rn_persisted := Some mode\<rparr>, True) else (w, False))"

text \<open>The mode found in the stored snapshot after decoding, if it can be read.\<close>

definition restorePersistedMode :: "string option \<Rightarrow> RunService \<Rightarrow> RunService" where
  "restorePersistedMode payload w =
     (case payload of None \<Rightarrow> w
      | Some raw \<Rightarrow>
          let mode = lower_trim raw
          in if mode \<noteq> ModeHTTP \<and> mode \<noteq> ModeTUN then w else w\<lparr>rn_currentMode := mode\<rparr>)"

definition NewRunService :: "string option \<Rightarrow> RuntimeSnapshot routingApplyStore \<Rightarrow> RunService" where
  "NewRunService payload st =
     restorePersistedMode payload
       \<lparr>rn_currentMode = ModeHTTP, rn_isRunning = False, rn_persisted = payload, rn_store = st, rn_commands = []\<rparr>"

text \<open>
  The response after a rollback reads the flag before the restarted proxy has reported; the service
  had been stopped, so it is whether it ran before.
\<close>

definition switch_failed :: "bool \<Rightarrow> RunService \<Rightarrow> RunService \<times> run_response" where
  "switch_failed wasRunning w =
     (let (w', mode) = resolveAuthoritativeModeLocked w
      in (w', \<lparr>rp_status = ''failed'', rp_error = ''switch_failed'', rp_mode = Some mode, rp_running = Some wasRunning\<rparr>))"

definition SwitchMode :: "codec \<Rightarrow> run_call \<Rightarrow> string \<Rightarrow> RunService \<Rightarrow> RunService \<times> run_response" where
  "SwitchMode cd E target w =
     (if target \<noteq> ModeHTTP \<and> target \<noteq> ModeTUN then (w, failure ''invalid_mode'')
      else
        let (w1, previousMode) = resolveAuthoritativeModeLocked w in
        if target = ModeTUN \<and> wintun_missing E then (w1, failure (wintun_error E))
        else if previousMode = target then (w1, response ''unchanged'' w1)
        else
          let wasRunning = rn_isRunning w1;
              w2 = (if wasRunning then stopServiceSync previousMode (w1\<lparr>rn_isRunning := False\<rparr>) else w1);
              (w3, applied) = applyIngressModeToSnapshot cd (rc_config E) target w2 in
          if \<not> applied then
            switch_failed wasRunning (rollbackToPreviousModeLocked cd E previousMode wasRunning w3)
          else
            let (w4, saved) = persistModeLocked E target (w3\<lparr>rn_currentMode := target\<rparr>) in
            if \<not> saved then
              switch_failed wasRunning (rollbackToPreviousModeLocked cd E previousMode wasRunning w4)
            else (w4, response ''switched'' w4))"

section \<open>Histories\<close>

text \<open>Which proxies run after a sequence of commands.\<close>

fun obey :: "command \<Rightarrow> bool \<times> bool \<Rightarrow> bool \<times> bool" where
  "obey StartHTTP (h, t) = (True, t)"
| "obey StopHTTP (h, t) = (False, t)"
| "obey (StartTUN up) (h, t) = (h, t \<or> up)"
| "obey StopTUN (h, t) = (h, False)"

definition proxies :: "RunService \<Rightarrow> bool \<times> bool" where
  "proxies w = fold obey (rn_commands w) (False, False)"

datatype run_op = StartOp run_call | StopOp | SwitchOp run_call string

fun run_step :: "codec \<Rightarrow> run_op \<Rightarrow> RunService \<Rightarrow> RunService" where
  "run_step cd (StartOp E) w = fst (StartService E w)"
| "run_step cd StopOp w = fst (StopService w)"
| "run_step cd (SwitchOp E target) w = fst (SwitchMode cd E target w)"

text \<open>
  The codec writes every schema whose texts are ASCII, reads back what it wrote, and the keys of a
  written schema include \<^verbatim>\<open>ingress\<close>, which has no omit rule.
\<close>

definition ascii :: "string \<Rightarrow> bool" where
  "ascii = list_all (\<lambda>c. of_char c < (128 :: nat))"

definition plain_schema :: "CanonicalRoutingSchema \<Rightarrow> bool" where
  "plain_schema c \<longleftrightarrow> ascii (cs_Ingress_Mode c) \<and> ascii (eg_ToSocks_Upstream_Type (cs_Egress c)) \<and> ascii (cs_DefaultEgress c)
     \<and> list_all (\<lambda>r. ascii (cr_ID r) \<and> ascii (cr_Type r) \<and> ascii (cr_Condition r) \<and> ascii (cr_Target r)) (cs_Rules c)"

definition codec_ok :: "codec \<Rightarrow> bool" where
  "codec_ok cd \<longleftrightarrow> (\<forall>c. plain_schema c \<longrightarrow> (\<exists>b. b \<noteq> [] \<and> json_Marshal cd c = Some b \<and> json_Unmarshal cd b = Some c
     \<and> decode_strict cd b = Some c \<and> (\<exists>keys. decode_root cd b = Some keys \<and> ''ingress'' \<in> set keys)))"

text \<open>
  The service and the proxies agree: the current mode is one of the two and the one the active
  snapshot names, and exactly the proxy of that mode runs, if the service runs.
\<close>

definition run_inv :: "codec \<Rightarrow> RunService \<Rightarrow> bool" where
  "run_inv cd w \<longleftrightarrow> rn_currentMode w \<in> {ModeHTTP, ModeTUN}
     \<and> (\<forall>s. as_active (rn_store w) = Some s \<longrightarrow> rs_ingressMode s \<in> {ModeHTTP, ModeTUN})
     \<and> (\<forall>c. as_canonical (rn_store w) = Some c \<longrightarrow> schema_ok c \<and> plain_schema c \<and> cs_Version c = CanonicalRoutingSchemaVersion)
     \<and> (rn_isRunning w \<longrightarrow> GetCurrentMode w = rn_currentMode w)
     \<and> proxies w = (rn_isRunning w \<and> rn_currentMode w = ModeHTTP, rn_isRunning w \<and> rn_currentMode w = ModeTUN)"

section \<open>Applying a mode\<close>

abbreviation valid_mode :: "RunMode \<Rightarrow> bool" where
  "valid_mode m \<equiv> m \<in> {ModeHTTP, ModeTUN}"

lemma lower_trim_modes [simp]: "lower_trim ModeHTTP = ModeHTTP" "lower_trim ModeTUN = ModeTUN"
  by code_simp+

lemma lower_trim_valid: "valid_mode m \<Longrightarrow> ToLower (TrimSpace m) = m"
  using lower_trim_modes by (auto simp: lower_trim_def)

definition store_ok :: "RuntimeSnapshot routingApplyStore \<Rightarrow> bool" where
  "store_ok st \<longleftrightarrow> (\<forall>s. as_active st = Some s \<longrightarrow> valid_mode (rs_ingressMode s))
     \<and> (\<forall>c. as_canonical st = Some c \<longrightarrow> schema_ok c \<and> plain_schema c \<and> cs_Version c = CanonicalRoutingSchemaVersion)"

lemma ascii_modes: "valid_mode m \<Longrightarrow> ascii m"
  by (auto simp: ascii_def)

lemma bootstrap_ok: "valid_mode m \<Longrightarrow> schema_ok (bootstrapCanonicalRoutingSchema cfg m)
    \<and> cs_Version (bootstrapCanonicalRoutingSchema cfg m) = CanonicalRoutingSchemaVersion
    \<and> cs_Ingress_Mode (bootstrapCanonicalRoutingSchema cfg m) = m \<and> plain_schema (bootstrapCanonicalRoutingSchema cfg m)"
  by (auto simp: ascii_def plain_schema_def bootstrapCanonicalRoutingSchema_def schema_ok_def Let_def split: option.splits)

lemma schema_ok_mode: "schema_ok c \<Longrightarrow> valid_mode m \<Longrightarrow> schema_ok (c\<lparr>cs_Ingress_Mode := m\<rparr>)"
  by (auto simp: schema_ok_def)

lemma plain_mode: "plain_schema c \<Longrightarrow> valid_mode m \<Longrightarrow> plain_schema (c\<lparr>cs_Ingress_Mode := m\<rparr>)"
  using ascii_modes by (simp add: plain_schema_def)

lemma with_defaults_id: "schema_ok c \<Longrightarrow> cs_Version c = CanonicalRoutingSchemaVersion \<Longrightarrow> with_defaults c = c"
  by (cases c) (auto simp: with_defaults_def schema_ok_def CanonicalRoutingSchemaVersion_def)

lemma Apply_valid:
  assumes ok: "codec_ok cd" and c: "schema_ok c" "cs_Version c = CanonicalRoutingSchemaVersion" "plain_schema c"
    and raw: "json_Marshal cd c = Some raw"
  shows "\<exists>st' r s. Apply cd raw (Some build_snapshot) st = (st', Inr r) \<and> as_active st' = Some s
    \<and> rs_ingressMode s = cs_Ingress_Mode c \<and> as_canonical st' = Some c"
proof -
  obtain keys where cd: "raw \<noteq> []" "json_Unmarshal cd raw = Some c" "decode_strict cd raw = Some c"
      "decode_root cd raw = Some keys" "''ingress'' \<in> set keys"
    using ok raw c(3) unfolding codec_ok_def by (metis option.inject)
  have norm: "normalizeCanonicalPayload (Some c) = Inr c"
    using c with_defaults_id [OF c(1,2)] by (simp add: normalize_Inr)
  have valid: "Schema_Validate c = None" using c(1) by (simp add: Schema_Validate_None)
  have mode: "valid_mode (cs_Ingress_Mode c)" using c(1) by (auto simp: schema_ok_def)
  obtain s where s: "build_snapshot c = Some s" "rs_ingressMode s = cs_Ingress_Mode c"
    using valid lower_trim_valid [OF mode] by (simp add: build_snapshot_def CompileRuntimeSnapshot_def Let_def)
  have prep: "apply_prepare cd raw (Some build_snapshot) = Inr (s, c, sha256_hex cd raw)"
    using cd norm valid s raw
    by (simp add: apply_prepare_def parseRoutingPayload_def normalizeRoutingPayload_def hashCanonicalRoutingSchema_def
        cloneCanonicalRoutingSchema_def)
  show ?thesis using s by (simp add: Apply_def prep Let_def)
qed

lemma clone_ok: "codec_ok cd \<Longrightarrow> plain_schema c \<Longrightarrow> cloneCanonicalRoutingSchema cd c = Some c"
  unfolding codec_ok_def cloneCanonicalRoutingSchema_def by (metis option.case(2))

lemma apply_mode:
  assumes ok: "codec_ok cd" and st: "store_ok (rn_store w)" and m: "valid_mode m"
  shows "\<exists>st'. applyIngressModeToSnapshot cd cfg m w = (w\<lparr>rn_store := st'\<rparr>, True) \<and> store_ok st'
    \<and> (\<exists>s. as_active st' = Some s \<and> rs_ingressMode s = m)"
proof -
  define c where "c = (case ActiveCanonicalSchema cd (rn_store w) of
      None \<Rightarrow> bootstrapCanonicalRoutingSchema cfg m | Some c \<Rightarrow> c\<lparr>cs_Ingress_Mode := m\<rparr>)"
  have c: "schema_ok c" "cs_Version c = CanonicalRoutingSchemaVersion" "cs_Ingress_Mode c = m" "plain_schema c"
    using st m bootstrap_ok [OF m] schema_ok_mode plain_mode
    by (auto simp: c_def ActiveCanonicalSchema_def clone_ok [OF ok] store_ok_def split: option.splits)
  obtain raw where raw: "json_Marshal cd c = Some raw" using ok c(4) unfolding codec_ok_def by blast
  obtain st' r s where a: "Apply cd raw (Some build_snapshot) (rn_store w) = (st', Inr r)" "as_active st' = Some s"
      "rs_ingressMode s = m" "as_canonical st' = Some c"
    using Apply_valid [OF ok c(1,2,4) raw, of "rn_store w"] c(3) by auto
  then show ?thesis using raw c m
    by (intro exI [of _ st']) (simp add: applyIngressModeToSnapshot_def c_def [symmetric] store_ok_def)
qed

lemma active_mode: "store_ok (rn_store w) \<Longrightarrow> activeIngressModeFromSnapshot w = map_option rs_ingressMode (as_active (rn_store w))"
  using lower_trim_modes
  by (auto simp: activeIngressModeFromSnapshot_def Store_ActiveSnapshot_def Snapshot_IngressMode_def store_ok_def Let_def
      split: option.splits)

section \<open>The invariant\<close>

lemma proxies_issue: "proxies (issue c w) = obey c (proxies w)"
  by (simp add: proxies_def issue_def)

lemma proxies_cong: "rn_commands w = rn_commands w' \<Longrightarrow> proxies w = proxies w'"
  by (simp add: proxies_def)

definition agrees :: "RunService \<Rightarrow> bool" where
  "agrees w \<longleftrightarrow> proxies w = (rn_isRunning w \<and> rn_currentMode w = ModeHTTP, rn_isRunning w \<and> rn_currentMode w = ModeTUN)"

lemma run_inv_alt: "run_inv cd w \<longleftrightarrow> valid_mode (rn_currentMode w) \<and> store_ok (rn_store w)
    \<and> (rn_isRunning w \<longrightarrow> GetCurrentMode w = rn_currentMode w) \<and> agrees w"
  by (auto simp: run_inv_def store_ok_def agrees_def)

lemma resolve_inv:
  assumes "run_inv cd w" "resolveAuthoritativeModeLocked w = (w1, m)"
  shows "run_inv cd w1" "m = rn_currentMode w1" "m = GetCurrentMode w1" "rn_isRunning w1 = rn_isRunning w"
    "rn_commands w1 = rn_commands w" "rn_store w1 = rn_store w" "m = GetCurrentMode w" "proxies w1 = proxies w"
proof -
  have act: "activeIngressModeFromSnapshot (w\<lparr>rn_currentMode := x\<rparr>) = activeIngressModeFromSnapshot w" for x
    by (simp add: activeIngressModeFromSnapshot_def)
  have inv: "valid_mode (rn_currentMode w)" "store_ok (rn_store w)" "rn_isRunning w \<longrightarrow> GetCurrentMode w = rn_currentMode w" "agrees w"
    using assms(1) by (auto simp: run_inv_alt)
  have "w1 = w\<lparr>rn_currentMode := GetCurrentMode w\<rparr> \<and> m = GetCurrentMode w"
    using assms(2) by (cases "activeIngressModeFromSnapshot w")
      (auto simp: resolveAuthoritativeModeLocked_def GetCurrentMode_def)
  moreover have "valid_mode (GetCurrentMode w)"
    using inv active_mode [OF inv(2)] by (auto simp: GetCurrentMode_def store_ok_def split: option.splits)
  moreover have "GetCurrentMode (w\<lparr>rn_currentMode := GetCurrentMode w\<rparr>) = GetCurrentMode w"
    by (auto simp: GetCurrentMode_def act split: option.splits)
  ultimately show "run_inv cd w1" "m = rn_currentMode w1" "m = GetCurrentMode w1" "rn_isRunning w1 = rn_isRunning w"
    "rn_commands w1 = rn_commands w" "rn_store w1 = rn_store w" "m = GetCurrentMode w" "proxies w1 = proxies w"
    using inv by (auto simp: run_inv_alt agrees_def proxies_def)
qed

lemma GetCurrentMode_cong: "rn_store w = rn_store w' \<Longrightarrow> rn_currentMode w = rn_currentMode w' \<Longrightarrow> GetCurrentMode w = GetCurrentMode w'"
  unfolding GetCurrentMode_def activeIngressModeFromSnapshot_def by (simp only:)

lemma start_mode_inv:
  assumes "valid_mode m" "store_ok (rn_store w)" "rn_currentMode w = m" "GetCurrentMode w = m" "rn_isRunning w"
    and off: "proxies w = (False, False)"
  shows "run_inv cd (startModeAsync E m w)" "rn_store (startModeAsync E m w) = rn_store w"
    "rn_currentMode (startModeAsync E m w) = m"
    "m = ModeHTTP \<or> tun_up (rc_tun E) \<Longrightarrow> rn_isRunning (startModeAsync E m w)"
proof -
  let ?w = "startModeAsync E m w"
  show fs: "rn_store ?w = rn_store w" "rn_currentMode ?w = m"
    using assms by (auto simp: startModeAsync_def startTUN_def handleTUNStartResultLocked_def issue_def split: option.splits)
  have mode: "GetCurrentMode ?w = m"
    using GetCurrentMode_cong [of ?w w] fs assms(3,4) by simp
  have run: "agrees ?w \<and> (m = ModeHTTP \<or> tun_up (rc_tun E) \<longrightarrow> rn_isRunning ?w)"
  proof (cases "m = ModeHTTP")
    case True
    then show ?thesis using assms off
      by (simp add: startModeAsync_def agrees_def proxies_issue) (simp add: issue_def)
  next
    case False
    then have m: "m = ModeTUN" using assms(1) by simp
    let ?u = "issue (StartTUN (tun_up (rc_tun E))) w"
    have u: "proxies (?u\<lparr>rn_isRunning := b\<rparr>) = (False, tun_up (rc_tun E))" "proxies ?u = (False, tun_up (rc_tun E))" for b
      using off proxies_issue [of "StartTUN (tun_up (rc_tun E))" w] by (simp_all add: proxies_def)
    have fu: "rn_isRunning ?u" "rn_currentMode ?u = ModeTUN" using assms m by (simp_all add: issue_def)
    show ?thesis using m u fu
      by (auto simp: startModeAsync_def startTUN_def handleTUNStartResultLocked_def agrees_def tun_up_def split: option.splits)
  qed
  show "run_inv cd ?w" using assms(1,2) fs mode run by (simp add: run_inv_alt)
  show "m = ModeHTTP \<or> tun_up (rc_tun E) \<Longrightarrow> rn_isRunning ?w" using run by blast
qed

lemma start_inv:
  assumes inv: "run_inv cd w"
  shows "run_inv cd (fst (StartService E w))"
proof (cases "canStartProxyWithStatus (Startup_GetStatus (rc_startup E)) \<and> \<not> uf_BlockingProxyStart (rc_update E) \<and> \<not> rn_isRunning w")
  case True
  obtain w1 m where r: "resolveAuthoritativeModeLocked w = (w1, m)" by fastforce
  note R = resolve_inv [OF inv r]
  let ?w2 = "w1\<lparr>rn_isRunning := True\<rparr>"
  have m: "valid_mode m" "store_ok (rn_store w1)" using R(1,2) by (auto simp: run_inv_alt)
  have off: "proxies ?w2 = (False, False)"
    using R(1,4) True by (auto simp: run_inv_alt agrees_def proxies_def)
  have mode: "GetCurrentMode ?w2 = m" using R(2,3) GetCurrentMode_cong [of ?w2 w1] by simp
  have "run_inv cd (startModeAsync E m ?w2)"
    using m R(2) mode off by (intro start_mode_inv) simp_all
  then show ?thesis using True r m R(1)
    by (auto simp: StartService_def startModeAsync_def Let_def)
next
  case False
  then show ?thesis using inv by (auto simp: StartService_def)
qed

lemma stop_sync:
  assumes inv: "run_inv cd w" and run: "rn_isRunning w" and m: "m = rn_currentMode w"
  shows "proxies (stopServiceSync m (w\<lparr>rn_isRunning := False\<rparr>)) = (False, False)"
proof -
  have p: "proxies (w\<lparr>rn_isRunning := False\<rparr>) = (m = ModeHTTP, m = ModeTUN)" "valid_mode m"
    using inv run m by (auto simp: run_inv_alt agrees_def proxies_def)
  then show ?thesis by (auto simp: stopServiceSync_def proxies_issue)
qed

lemma stop_sync_fields [simp]: "rn_store (stopServiceSync m w) = rn_store w" "rn_currentMode (stopServiceSync m w) = rn_currentMode w"
    "rn_isRunning (stopServiceSync m w) = rn_isRunning w" "rn_persisted (stopServiceSync m w) = rn_persisted w"
  by (simp_all add: stopServiceSync_def issue_def)

lemma off_inv:
  assumes "valid_mode (rn_currentMode w)" "store_ok (rn_store w)" "\<not> rn_isRunning w" "proxies w = (False, False)"
  shows "run_inv cd w"
  using assms by (simp add: run_inv_alt agrees_def)

lemma stop_inv:
  assumes inv: "run_inv cd w"
  shows "run_inv cd (fst (StopService w))"
proof (cases "rn_isRunning w")
  case True
  have "fst (StopService w) = stopServiceSync (rn_currentMode w) (w\<lparr>rn_isRunning := False\<rparr>)"
    using True by (simp add: StopService_def stopServiceSync_def Let_def)
  moreover have "valid_mode (rn_currentMode w)" "store_ok (rn_store w)" using inv by (simp_all add: run_inv_alt)
  ultimately show ?thesis using stop_sync [OF inv True refl] by (simp add: off_inv)
qed (use inv in \<open>simp add: StopService_def\<close>)

lemma rollback_inv:
  assumes ok: "codec_ok cd" and st: "store_ok (rn_store w)" and m: "valid_mode m"
    and off: "proxies w = (False, False)" and stopped: "\<not> rn_isRunning w"
  shows "run_inv cd (rollbackToPreviousModeLocked cd E m shouldRun w)"
    "GetCurrentMode (rollbackToPreviousModeLocked cd E m shouldRun w) = m"
    "m = ModeHTTP \<or> tun_up (rc_tun E) \<Longrightarrow> rn_isRunning (rollbackToPreviousModeLocked cd E m shouldRun w) = shouldRun"
proof -
  obtain st' s where a: "applyIngressModeToSnapshot cd (rc_config E) m w = (w\<lparr>rn_store := st'\<rparr>, True)" "store_ok st'"
      "as_active st' = Some s" "rs_ingressMode s = m"
    using apply_mode [OF ok st m] by blast
  let ?w = "w\<lparr>rn_store := st', rn_currentMode := m\<rparr>"
  let ?r = "w\<lparr>rn_store := st', rn_currentMode := m, rn_isRunning := True\<rparr>"
  have mode: "GetCurrentMode u = m" if "rn_store u = st'" for u
    using active_mode [of u] a(2-4) that by (simp add: GetCurrentMode_def)
  have off': "proxies ?w = (False, False)" "proxies ?r = (False, False)" using off by (simp_all add: proxies_def)
  have rb: "rollbackToPreviousModeLocked cd E m shouldRun w = (if shouldRun then startModeAsync E m ?r else ?w)"
    by (simp add: rollbackToPreviousModeLocked_def a(1))
  have start: "run_inv cd (startModeAsync E m ?r)" "rn_store (startModeAsync E m ?r) = st'"
      "m = ModeHTTP \<or> tun_up (rc_tun E) \<Longrightarrow> rn_isRunning (startModeAsync E m ?r)"
    using start_mode_inv [where m = m and w = ?r and E = E] m a(2) mode [of ?r] off' by simp_all
  have stay: "run_inv cd ?w" using m a(2) stopped off' by (intro off_inv) simp_all
  show "run_inv cd (rollbackToPreviousModeLocked cd E m shouldRun w)" using start(1) stay by (simp add: rb)
  show "GetCurrentMode (rollbackToPreviousModeLocked cd E m shouldRun w) = m" unfolding rb using start(2) mode by simp
  show "m = ModeHTTP \<or> tun_up (rc_tun E) \<Longrightarrow> rn_isRunning (rollbackToPreviousModeLocked cd E m shouldRun w) = shouldRun"
    unfolding rb using start(3) stopped by simp
qed

lemma switch_failed_inv:
  assumes "run_inv cd w" "switch_failed run w = (w', r)"
  shows "run_inv cd w'" "GetCurrentMode w' = GetCurrentMode w" "rn_isRunning w' = rn_isRunning w" "rp_status r = ''failed''"
    "rp_mode r = Some (GetCurrentMode w)"
proof -
  obtain w1 m where r: "resolveAuthoritativeModeLocked w = (w1, m)" by fastforce
  show "run_inv cd w'" "GetCurrentMode w' = GetCurrentMode w" "rn_isRunning w' = rn_isRunning w" "rp_status r = ''failed''"
    "rp_mode r = Some (GetCurrentMode w)"
    using assms(2) resolve_inv [OF assms(1) r] by (auto simp: switch_failed_def r)
qed

lemma switch_eq:
  assumes t: "valid_mode target" and go: "\<not> (target = ModeTUN \<and> wintun_missing E)"
    and r: "resolveAuthoritativeModeLocked w = (w1, m)" and other: "m \<noteq> target"
    and w2: "w2 = (if rn_isRunning w1 then stopServiceSync m (w1\<lparr>rn_isRunning := False\<rparr>) else w1)"
    and a: "applyIngressModeToSnapshot cd (rc_config E) target w2 = (w3, True)"
    and p: "persistModeLocked E target (w3\<lparr>rn_currentMode := target\<rparr>) = (w4, saved)"
  shows "SwitchMode cd E target w =
    (if saved then (w4, response ''switched'' w4)
     else switch_failed (rn_isRunning w1) (rollbackToPreviousModeLocked cd E m (rn_isRunning w1) w4))"
proof -
  have "\<not> (target \<noteq> ModeHTTP \<and> target \<noteq> ModeTUN)" using t by blast
  then show ?thesis
    by (simp only: SwitchMode_def r prod.case Let_def if_False go other w2 [symmetric] a p) (simp add: if_not_P)
qed

lemma activation_rollback: "rollbackFromActivationFailureLocked cd E m w = rollbackToPreviousModeLocked cd E m True (w\<lparr>rn_isRunning := False\<rparr>)"
  by (simp add: rollbackFromActivationFailureLocked_def rollbackToPreviousModeLocked_def split: prod.splits)

text \<open>What a switch does once it has decided to change the mode.\<close>

lemma switch_moves:
  assumes ok: "codec_ok cd" and inv: "run_inv cd w" and t: "valid_mode target"
    and go: "\<not> (target = ModeTUN \<and> wintun_missing E)" and other: "GetCurrentMode w \<noteq> target"
    and run: "SwitchMode cd E target w = (w', r)"
  shows "run_inv cd w'
    \<and> (if rp_status r = ''switched'' then GetCurrentMode w' = target \<and> rn_currentMode w' = target \<and> \<not> rn_isRunning w'
         \<and> (rc_hasStore E \<longrightarrow> rn_persisted w' = Some target)
       else rp_status r = ''failed'' \<and> rp_mode r = Some (GetCurrentMode w) \<and> GetCurrentMode w' = GetCurrentMode w
         \<and> (GetCurrentMode w = ModeHTTP \<or> tun_up (rc_tun E) \<longrightarrow> rn_isRunning w' = rn_isRunning w))"
proof -
  obtain w1 m where r: "resolveAuthoritativeModeLocked w = (w1, m)" by fastforce
  note R = resolve_inv [OF inv r]
  define w2 where "w2 = (if rn_isRunning w1 then stopServiceSync m (w1\<lparr>rn_isRunning := False\<rparr>) else w1)"
  have m: "valid_mode m" "store_ok (rn_store w1)" "m \<noteq> target" using R(1,2,7) other by (auto simp: run_inv_alt)
  have w2: "rn_store w2 = rn_store w1" "\<not> rn_isRunning w2" "store_ok (rn_store w2)" using m by (simp_all add: w2_def)
  have off: "proxies w2 = (False, False)"
    using stop_sync [OF R(1) _ R(2)] R(1) by (auto simp: w2_def run_inv_alt agrees_def)
  obtain st s where a: "applyIngressModeToSnapshot cd (rc_config E) target w2 = (w2\<lparr>rn_store := st\<rparr>, True)"
      "store_ok st" "as_active st = Some s" "rs_ingressMode s = target"
    using apply_mode [OF ok w2(3) t, of "rc_config E"] by blast
  obtain w4 saved where p: "persistModeLocked E target (w2\<lparr>rn_store := st, rn_currentMode := target\<rparr>) = (w4, saved)" by fastforce
  have w4: "rn_store w4 = st" "rn_currentMode w4 = target" "\<not> rn_isRunning w4" "proxies w4 = (False, False)"
    using p w2(2) off by (auto simp: persistModeLocked_def proxies_def split: if_splits)
  note sw = switch_eq [OF t go r m(3) w2_def a(1) p]
  show ?thesis
  proof (cases saved)
    case True
    have "run_inv cd w4" using w4 a(2) t by (intro off_inv) simp_all
    moreover have "GetCurrentMode w4 = target" using active_mode [of w4] a(2-4) w4(1) by (simp add: GetCurrentMode_def)
    moreover have "rc_hasStore E \<longrightarrow> rn_persisted w4 = Some target"
      using p True by (auto simp: persistModeLocked_def split: if_splits)
    ultimately show ?thesis using True run sw w4(2,3) by (auto simp: response_def)
  next
    case False
    let ?b = "rollbackToPreviousModeLocked cd E m (rn_isRunning w1) w4"
    have st4: "store_ok (rn_store w4)" using a(2) w4(1) by simp
    note B = rollback_inv [OF ok st4 m(1) w4(4) w4(3), of E "rn_isRunning w1"]
    have "switch_failed (rn_isRunning w1) ?b = (w', r)" using False run sw by simp
    from switch_failed_inv [OF B(1) this] show ?thesis using B(2,3) R(4,7) by auto
  qed
qed

lemma switch_unchanged:
  assumes inv: "run_inv cd w" and run: "SwitchMode cd E target w = (w', r)"
    and stay: "\<not> valid_mode target \<or> (target = ModeTUN \<and> wintun_missing E) \<or> GetCurrentMode w = target"
  shows "run_inv cd w' \<and> GetCurrentMode w' = GetCurrentMode w \<and> rn_isRunning w' = rn_isRunning w
    \<and> proxies w' = proxies w \<and> rp_status r \<noteq> ''switched''"
proof -
  obtain w1 m where r: "resolveAuthoritativeModeLocked w = (w1, m)" by fastforce
  note R = resolve_inv [OF inv r]
  have "(w', r) = (w, failure ''invalid_mode'') \<or> (w', r) = (w1, failure (wintun_error E)) \<or> (w', r) = (w1, response ''unchanged'' w1)"
    using stay run [symmetric] R(7) by (simp only: SwitchMode_def r prod.case Let_def) (auto split: if_splits)
  then show ?thesis using inv R by (auto simp: failure_def response_def)
qed

lemma switch_inv:
  assumes ok: "codec_ok cd" and inv: "run_inv cd w"
  shows "run_inv cd (fst (SwitchMode cd E target w))"
proof (cases "valid_mode target \<and> \<not> (target = ModeTUN \<and> wintun_missing E) \<and> GetCurrentMode w \<noteq> target")
  case True
  then have t: "valid_mode target" and go: "\<not> (target = ModeTUN \<and> wintun_missing E)"
    and other: "GetCurrentMode w \<noteq> target" by blast+
  show ?thesis using switch_moves [OF ok inv t go other prod.collapse [symmetric]] by blast
next
  case False
  then show ?thesis using switch_unchanged [OF inv prod.collapse [symmetric]] by blast
qed

lemma run_inv_run: "codec_ok cd \<Longrightarrow> run_inv cd w \<Longrightarrow> run_inv cd (fold (run_step cd) ops w)"
proof (induction ops arbitrary: w)
  case (Cons op ops)
  then have "run_inv cd (run_step cd op w)"
    using start_inv stop_inv switch_inv by (cases op) auto
  then show ?case using Cons by simp
qed simp

lemma run_inv_new:
  assumes "store_ok st"
  shows "run_inv cd (NewRunService payload st)"
  using assms by (auto simp: NewRunService_def restorePersistedMode_def Let_def proxies_def intro!: off_inv split: option.splits)

section \<open>An example codec\<close>

text \<open>A codec: unary numbers, every list and text followed by a zero.\<close>

fun enc_text :: "string \<Rightarrow> byte list" where
  "enc_text [] = [0]"
| "enc_text (c # cs) = 1 # of_nat (of_char c) # enc_text cs"

fun dec_text :: "byte list \<Rightarrow> string \<times> byte list" where
  "dec_text (x # c # r) = (if x = 0 then ([], c # r) else (case dec_text r of (s, r') \<Rightarrow> (char_of (unat c) # s, r')))"
| "dec_text r = ([], [])"

definition enc_flag :: "bool \<Rightarrow> byte list" where
  "enc_flag b = [if b then 1 else 0]"

fun dec_flag :: "byte list \<Rightarrow> bool \<times> byte list" where
  "dec_flag (x # r) = (x = 1, r)"
| "dec_flag [] = (False, [])"

definition enc_int :: "int \<Rightarrow> byte list" where
  "enc_int i = enc_flag (0 \<le> i) @ replicate (nat \<bar>i\<bar>) 1 @ [0]"

fun dec_unary :: "byte list \<Rightarrow> nat \<times> byte list" where
  "dec_unary (x # r) = (if x = 0 then (0, r) else (case dec_unary r of (n, r') \<Rightarrow> (Suc n, r')))"
| "dec_unary [] = (0, [])"

definition dec_int :: "byte list \<Rightarrow> int \<times> byte list" where
  "dec_int b = (case dec_flag b of (pos, r) \<Rightarrow> (case dec_unary r of (n, r') \<Rightarrow> (if pos then int n else - int n, r')))"

definition enc_rule :: "CanonicalRoutingRule \<Rightarrow> byte list" where
  "enc_rule r = enc_text (cr_ID r) @ enc_text (cr_Type r) @ enc_text (cr_Condition r) @ enc_flag (cr_Enabled r) @ enc_text (cr_Target r)"

definition dec_rule :: "byte list \<Rightarrow> CanonicalRoutingRule \<times> byte list" where
  "dec_rule b0 = (case dec_text b0 of (i, b1) \<Rightarrow> (case dec_text b1 of (t, b2) \<Rightarrow> (case dec_text b2 of (c, b3) \<Rightarrow>
     (case dec_flag b3 of (e, b4) \<Rightarrow> (case dec_text b4 of (g, b5) \<Rightarrow>
       (\<lparr>cr_ID = i, cr_Type = t, cr_Condition = c, cr_Enabled = e, cr_Target = g\<rparr>, b5))))))"

definition enc_rules :: "CanonicalRoutingRule list \<Rightarrow> byte list" where
  "enc_rules rs = enc_int (int (length rs)) @ concat (map enc_rule rs)"

fun dec_many :: "nat \<Rightarrow> byte list \<Rightarrow> CanonicalRoutingRule list \<times> byte list" where
  "dec_many 0 b = ([], b)"
| "dec_many (Suc n) b = (case dec_rule b of (r, b1) \<Rightarrow> (case dec_many n b1 of (rs, b2) \<Rightarrow> (r # rs, b2)))"

definition enc_schema :: "CanonicalRoutingSchema \<Rightarrow> byte list" where
  "enc_schema c = enc_int (cs_Version c) @ enc_text (cs_Ingress_Mode c) @ enc_flag (eg_Direct_Enabled (cs_Egress c))
     @ enc_flag (eg_ToAliang_Enabled (cs_Egress c)) @ enc_flag (eg_ToSocks_Enabled (cs_Egress c))
     @ enc_text (eg_ToSocks_Upstream_Type (cs_Egress c)) @ enc_text (cs_DefaultEgress c) @ enc_rules (cs_Rules c)"

definition dec_schema :: "byte list \<Rightarrow> CanonicalRoutingSchema" where
  "dec_schema b0 = (case dec_int b0 of (v, b1) \<Rightarrow> (case dec_text b1 of (m, b2) \<Rightarrow> (case dec_flag b2 of (d, b3) \<Rightarrow>
     (case dec_flag b3 of (a, b4) \<Rightarrow> (case dec_flag b4 of (s, b5) \<Rightarrow> (case dec_text b5 of (u, b6) \<Rightarrow>
     (case dec_text b6 of (e, b7) \<Rightarrow> (case dec_int b7 of (n, b8) \<Rightarrow> (case dec_many (nat n) b8 of (rs, _) \<Rightarrow>
       \<lparr>cs_Version = v, cs_Ingress_Mode = m,
        cs_Egress = \<lparr>eg_Direct_Enabled = d, eg_ToAliang_Enabled = a, eg_ToSocks_Enabled = s, eg_ToSocks_Upstream_Type = u\<rparr>,
        cs_Rules = rs, cs_DefaultEgress = e\<rparr>)))))))))"

definition byte_codec :: codec where
  "byte_codec = \<lparr>decode_root = (\<lambda>b. Some [''ingress'']), decode_strict = (\<lambda>b. Some (dec_schema b)),
     json_Marshal = (\<lambda>c. Some (enc_schema c)), json_Unmarshal = (\<lambda>b. Some (dec_schema b)), sha256_hex = (\<lambda>b. [])\<rparr>"

lemma dec_enc_flag [simp]: "dec_flag (enc_flag b @ r) = (b, r)"
  by (simp add: enc_flag_def)

lemma dec_enc_unary [simp]: "dec_unary (replicate n 1 @ 0 # r) = (n, r)"
  by (induction n) simp_all

lemma dec_enc_int [simp]: "dec_int (enc_int i @ r) = (i, r)"
  by (simp add: dec_int_def enc_int_def)

lemma dec_enc_text [simp]: "dec_text (enc_text s @ r) = (s, r)"
proof (induction s)
  case Nil
  then show ?case by (cases r) auto
next
  case (Cons c s)
  have "unat (word_of_nat (of_char c) :: byte) = of_char c"
    using of_char_less [of c] by (simp add: unsigned_of_nat take_bit_eq_mod)
  then show ?case using Cons by simp
qed

lemma dec_enc_rule [simp]: "dec_rule (enc_rule x @ r) = (x, r)"
  by (simp add: dec_rule_def enc_rule_def)

lemma dec_enc_many [simp]: "dec_many (length rs) (concat (map enc_rule rs) @ r) = (rs, r)"
  by (induction rs) simp_all

lemma dec_enc_schema: "dec_schema (enc_schema c) = c"
  using dec_enc_many [of "cs_Rules c" "[]"] by (simp add: dec_schema_def enc_schema_def enc_rules_def)

lemma byte_codec_ok: "codec_ok byte_codec"
  by (simp add: codec_ok_def byte_codec_def dec_enc_schema) (simp add: enc_schema_def enc_int_def)

section \<open>Properties\<close>

definition sample_run :: run_call where
  "sample_run = \<lparr>rc_startup = SetStatus 1 READY (GetStartupState 0),
     rc_update = GetFrontendStatus sample_process sample_call empty_update_store,
     rc_wintun = \<lparr>wt_Supported = False, wt_Required = False, wt_Available = False, wt_Installing = False\<rparr>,
     rc_tun = [(''status'', ''success'')], rc_hasStore = True, rc_saveOk = True, rc_config = None\<rparr>"

lemma fresh_store_ok: "store_ok GetRoutingApplyStore"
  by (simp add: store_ok_def GetRoutingApplyStore_def)





text \<open>
  A start gets through exactly when it may. The update status read by a start is the one of the
  update service after any history of refreshes and dismissals. A stopped service, after any history
  of its own, issues a command on a start exactly when the startup state is configured or ready, no
  forced update stands, and the TUN driver is there if the mode needs it.
\<close>

theorem start_gate_exact:
  assumes "resolveSoftwareUpdateRuntimeInfo P = Some ri" "ca_getErr C = None" "ca_getDismissErr C = None"
    and upd: "rc_update E = GetFrontendStatus P C (fold (update_step J P) updates empty_update_store)"
    and ok: "codec_ok cd" "store_ok st" and w: "w = fold (run_step cd) ops (NewRunService payload st)"
    and stopped: "\<not> rn_isRunning w"
  shows "rn_commands (fst (StartService E w)) \<noteq> rn_commands w \<longleftrightarrow>
    ss_status (rc_startup E) \<in> {READY, CONFIGURED} \<and> \<not> last_verdict J P ri False updates
    \<and> \<not> (GetCurrentMode w = ModeTUN \<and> wintun_missing E)"
proof -
  have inv: "run_inv cd w" unfolding w by (rule run_inv_run [OF ok(1) run_inv_new [OF ok(2)]])
  obtain w1 m where r: "resolveAuthoritativeModeLocked w = (w1, m)" by fastforce
  note R = resolve_inv [OF inv r]
  have m: "valid_mode m" using R(1,2) by (auto simp: run_inv_alt)
  have "\<not> forced_at ri empty_update_store" by (simp add: forced_at_def empty_update_store_def)
  then have upd': "uf_BlockingProxyStart (rc_update E) = last_verdict J P ri False updates"
    using upd forced_run [OF assms(1), of J updates empty_update_store] blocking_forced [OF assms(1-3)] by simp
  have tun: "rn_commands (startTUN E u) = rn_commands u @ [StartTUN (tun_up (rc_tun E))]" for u
    by (auto simp: startTUN_def handleTUNStartResultLocked_def issue_def split: option.splits)
  show ?thesis
    using stopped m R(5,7) upd' tun by (auto simp: StartService_def r canStartProxyWithStatus_def Startup_GetStatus_def issue_def Let_def)
qed

theorem start_gate_exact_witness:
  "rn_commands (fst (StartService (sample_run\<lparr>rc_update := GetFrontendStatus sample_process sample_call
      (fold (update_step sample_json sample_process) [Refresh sample_call, Dismiss sample_call] empty_update_store)\<rparr>)
      (NewRunService None GetRoutingApplyStore))) = []"
proof -
  let ?ups = "[Refresh sample_call, Dismiss sample_call]"
  let ?E = "sample_run\<lparr>rc_update := GetFrontendStatus sample_process sample_call
      (fold (update_step sample_json sample_process) ?ups empty_update_store)\<rparr>"
  let ?ri = "\<lparr>ri_software = ''aliang-gateway'', ri_platform = ''linux'', ri_version = ''v1.2.3''\<rparr>"
  let ?w = "NewRunService None GetRoutingApplyStore :: RunService"
  have ri: "resolveSoftwareUpdateRuntimeInfo sample_process = Some ?ri" by code_simp
  have "last_verdict sample_json sample_process ?ri False ?ups" "\<not> rn_isRunning ?w" "rn_commands ?w = []" by code_simp+
  then show ?thesis
    using start_gate_exact [OF ri, of sample_call ?E sample_json ?ups byte_codec GetRoutingApplyStore ?w "[]" None]
      byte_codec_ok fresh_store_ok
    by (simp add: sample_call_def)
qed

text \<open>
  The assumption that only switches change the routing matters. When the active snapshot comes to
  name another mode while a proxy runs, a switch to that mode answers that nothing is to do, and the
  next stop stops the proxy that does not run.
\<close>

lemma stop_misses_running_proxy:
  assumes "proxies w = (True, False)" "rn_isRunning w" "activeIngressModeFromSnapshot w = Some ModeTUN" "\<not> wintun_missing E"
  shows "let (w1, r) = SwitchMode cd E ModeTUN w; w2 = fst (StopService w1)
    in rp_status r = ''unchanged'' \<and> \<not> rn_isRunning w2 \<and> proxies w2 = (True, False)"
proof -
  have "SwitchMode cd E ModeTUN w = (w\<lparr>rn_currentMode := ModeTUN\<rparr>, response ''unchanged'' (w\<lparr>rn_currentMode := ModeTUN\<rparr>))"
    using assms(3,4) by (simp add: SwitchMode_def resolveAuthoritativeModeLocked_def)
  then show ?thesis using assms(1,2)
    by (simp add: StopService_def response_def Let_def proxies_def issue_def)
qed

text \<open>
  The TUN device reports after the lock is released. A stop in between is forgotten: the late report
  marks the service as running although the last command stopped it.
\<close>

lemma late_report_forgets_stop:
  assumes "rn_isRunning w" "rn_currentMode w = ModeTUN" "map_of res ''status'' = Some ''success''"
  shows "rn_isRunning (handleTUNStartResultLocked res (fst (StopService w)))
    \<and> last (rn_commands (handleTUNStartResultLocked res (fst (StopService w)))) = StopTUN"
  using assms by (simp add: StopService_def handleTUNStartResultLocked_def issue_def Let_def)

end
