(* ===== verification/Auth_Service.thy ===== *)
theory Auth_Service
  imports Session_Steps Run_Service
begin

text \<open>
  The authentication service, \<^verbatim>\<open>src/app/http/services/auth_service.go\<close>, the hook that stops the proxy when
  a session has expired, \<^verbatim>\<open>src/app/http/services/auth_runtime_hooks.go\<close>, and the initialisation of the user
  at start, \<^verbatim>\<open>src/cmd/user_init.go\<close> with the beginnings of the programs of \<^verbatim>\<open>src/cmd/start.go\<close>, \<^verbatim>\<open>tray.go\<close> and \<^verbatim>\<open>core.go\<close>. They
  tie the session of \<open>Auth_Session\<close> to the startup state and the run service of \<open>Run_Service\<close>.

  The histories of this theory are operations that run one after the other, as the calls of
  \<open>Auth_Session\<close> do; \<open>Session_Steps\<close> treats calls that overlap.

  The hook runs inside the refresh that found the session expired. It touches only the startup state
  and the run service, which the rest of the refresh does not, so the model runs it at the end of the
  refresh. Texts meant for people are left out of the responses.
\<close>

section \<open>Data\<close>

record app_state =
  sv_auth :: auth_world
  sv_startup :: StartupState
  sv_run :: RunService

text \<open>The user as the response has it; the time of the last update is formatted on the way out.\<close>

record UserInfoResponse =
  ur_ID :: "64 word"
  ur_Username :: string
  ur_Email :: string
  ur_Role :: string
  ur_Status :: string
  ur_Balance :: "64 word"
  ur_Concurrency :: "64 word"
  ur_AllowedGroups :: "64 word list"
  ur_CreatedAt :: string
  ur_ProfileUpdated :: string
  ur_UpdatedAt :: time

record auth_response =
  ar_status :: string
  ar_error :: string
  ar_data :: "UserInfoResponse option"

definition mapUserInfo :: "UserInfo \<Rightarrow> UserInfoResponse" where
  "mapUserInfo u =
     \<lparr>ur_ID = ui_ID u, ur_Username = ui_Username u, ur_Email = ui_Email u, ur_Role = ui_Role u, ur_Status = ui_Status u,
      ur_Balance = ui_Balance u, ur_Concurrency = ui_Concurrency u, ur_AllowedGroups = ui_AllowedGroups u,
      ur_CreatedAt = ui_CreatedAt u, ur_ProfileUpdated = ui_ProfileUpdated u, ur_UpdatedAt = ui_UpdatedAt u\<rparr>"

definition auth_ok :: "UserInfo \<Rightarrow> auth_response" where
  "auth_ok u = \<lparr>ar_status = ''success'', ar_error = [], ar_data = Some (mapUserInfo u)\<rparr>"

definition auth_no :: "string \<Rightarrow> string \<Rightarrow> auth_response" where
  "auth_no status err = \<lparr>ar_status = status, ar_error = err, ar_data = None\<rparr>"

section \<open>The hook\<close>

definition syncStartupStateForAuthenticatedUser :: "time \<Rightarrow> UserInfo option \<Rightarrow> app_state \<Rightarrow> app_state" where
  "syncStartupStateForAuthenticatedUser now userInfo A =
     (case userInfo of None \<Rightarrow> A
      | Some _ \<Rightarrow> A\<lparr>sv_startup := SetStatus now READY (SetFetchSuccess True (sv_startup A))\<rparr>)"

definition clearStartupStateAfterLogout :: "time \<Rightarrow> app_state \<Rightarrow> app_state" where
  "clearStartupStateAfterLogout now A =
     A\<lparr>sv_startup := SetStatus now UNCONFIGURED (SetFetchSuccess False (sv_startup A))\<rparr>"

definition handleAuthExpired :: "time \<Rightarrow> app_state \<Rightarrow> app_state" where
  "handleAuthExpired now A =
     (let A1 = A\<lparr>sv_startup := SetStatus now UNCONFIGURED (SetFetchSuccess False (sv_startup A))\<rparr>
      in if IsRunning (sv_run A1) then A1\<lparr>sv_run := fst (StopService (sv_run A1))\<rparr> else A1)"

text \<open>The world after an operation on the session, with the hook if the operation notified it.\<close>

definition deliver :: "time \<Rightarrow> auth_world \<Rightarrow> app_state \<Rightarrow> app_state" where
  "deliver now w A =
     (let A1 = A\<lparr>sv_auth := w\<rparr>
      in if au_notified w = au_notified (sv_auth A) then A1 else handleAuthExpired now A1)"

section \<open>The service\<close>

definition Auth_Login ::
  "auth_codec \<Rightarrow> auth_call \<Rightarrow> string \<Rightarrow> string \<Rightarrow> string \<Rightarrow> app_state \<Rightarrow> app_state \<times> auth_response" where
  "Auth_Login K c email password turnstileToken A =
     (if TrimSpace email = [] then (A, auth_no ''failed'' ''email_required'')
      else if TrimSpace password = [] then (A, auth_no ''failed'' ''password_required'')
      else case LoginWithPassword K c email password turnstileToken (sv_auth A) of
             (w, Inl _) \<Rightarrow> (deliver (dc_now (ac_db c)) w A, auth_no ''failed'' ''login_failed'')
           | (w, Inr userInfo) \<Rightarrow>
               (syncStartupStateForAuthenticatedUser (dc_now (ac_db c)) (Some userInfo) (deliver (dc_now (ac_db c)) w A),
                auth_ok userInfo))"

definition Auth_RestoreSession ::
  "auth_codec \<Rightarrow> auth_call \<Rightarrow> auth_call \<Rightarrow> auth_call \<Rightarrow> app_state \<Rightarrow> app_state \<times> auth_response" where
  "Auth_RestoreSession K c c0 c1 A =
     (case RestoreSession K c c0 c1 (sv_auth A) of
        (w, Inl e) \<Rightarrow>
          let A1 = deliver (dc_now (ac_db c)) w A in
          if e = SessionExpired
          then (clearStartupStateAfterLogout (dc_now (ac_db c)) A1, auth_no ''no_session'' ''session_expired'')
          else (A1, auth_no ''no_session'' [])
      | (w, Inr userInfo) \<Rightarrow>
          (syncStartupStateForAuthenticatedUser (dc_now (ac_db c)) (Some userInfo) (deliver (dc_now (ac_db c)) w A),
           auth_ok userInfo))"

definition Auth_RefreshSession ::
  "auth_codec \<Rightarrow> auth_call \<Rightarrow> auth_call \<Rightarrow> string \<Rightarrow> app_state \<Rightarrow> app_state \<times> auth_response" where
  "Auth_RefreshSession K c0 c refreshToken A =
     (case RefreshSession K c0 c refreshToken (sv_auth A) of
        (w, Inl e) \<Rightarrow>
          let A1 = deliver (dc_now (ac_db c)) w A in
          if e = SessionExpired
          then (clearStartupStateAfterLogout (dc_now (ac_db c)) A1, auth_no ''failed'' ''session_expired'')
          else (A1, auth_no ''failed'' ''refresh_failed'')
      | (w, Inr userInfo) \<Rightarrow>
          (syncStartupStateForAuthenticatedUser (dc_now (ac_db c)) (Some userInfo) (deliver (dc_now (ac_db c)) w A),
           auth_ok userInfo))"

definition Auth_GetUserInfo :: "auth_call \<Rightarrow> app_state \<Rightarrow> app_state \<times> auth_response" where
  "Auth_GetUserInfo c A =
     (case GetCurrentUserInfoOrLoad (ac_db c) (sv_auth A) of
        (w, None) \<Rightarrow> (A\<lparr>sv_auth := w\<rparr>, auth_no ''no_user'' [])
      | (w, Some userInfo) \<Rightarrow> (A\<lparr>sv_auth := w\<rparr>, auth_ok userInfo))"

definition LogoutUser :: "auth_call \<Rightarrow> string \<Rightarrow> app_state \<Rightarrow> app_state \<times> auth_response" where
  "LogoutUser c refreshToken A =
     (let w1 = fst (LogoutSession c refreshToken (sv_auth A));
          w2 = fst (delete_session c (StopTokenRefresh w1))
      in (clearStartupStateAfterLogout (dc_now (ac_db c)) (A\<lparr>sv_auth := w2\<rparr>), auth_no ''success'' []))"

text \<open>A round of the background refresh loop.\<close>

definition background_refresh ::
  "auth_codec \<Rightarrow> auth_call \<Rightarrow> auth_call \<Rightarrow> auth_call \<Rightarrow> nat \<Rightarrow> app_state \<Rightarrow> app_state" where
  "background_refresh K c c0 c1 i A = deliver (dc_now (ac_db c)) (loop_tick K c c0 c1 i (sv_auth A)) A"

section \<open>Starting the program\<close>

definition determineInitialStartupStatus :: "db_call \<Rightarrow> string \<Rightarrow> auth_world \<Rightarrow> auth_world \<times> StartupStatus" where
  "determineInitialStartupStatus c tokenFlag w =
     (case HasPersistedUserInfo c w of (w1, r) \<Rightarrow>
        (w1, let hasLocalUserInfo = (case r of Inl _ \<Rightarrow> False | Inr b \<Rightarrow> b) in
             if TrimSpace tokenFlag \<noteq> [] then CONFIGURING
             else if hasLocalUserInfo then (if au_usingDefault w1 then READY else CONFIGURED)
             else UNCONFIGURED))"

definition determineCoreInitialStatus :: "db_call \<Rightarrow> auth_world \<Rightarrow> auth_world \<times> StartupStatus" where
  "determineCoreInitialStatus c w =
     (case HasPersistedUserInfo c w of (w1, r) \<Rightarrow>
        (w1, if (case r of Inl _ \<Rightarrow> False | Inr b \<Rightarrow> b) then READY else UNCONFIGURED))"

definition loadLocalUserInfo ::
  "auth_codec \<Rightarrow> auth_call \<Rightarrow> auth_call \<Rightarrow> auth_call \<Rightarrow> app_state \<Rightarrow> app_state \<times> auth_error option" where
  "loadLocalUserInfo K c c0 c1 A =
     (case RestoreSession K c c0 c1 (sv_auth A) of
        (w, Inl e) \<Rightarrow> (deliver (dc_now (ac_db c)) w A, Some e)
      | (w, Inr _) \<Rightarrow>
          let A1 = deliver (dc_now (ac_db c)) w A
          in (A1\<lparr>sv_startup := SetStatus (dc_now (ac_db c)) READY (SetFetchSuccess True (sv_startup A1))\<rparr>, None))"

definition on_auth :: "(auth_world \<Rightarrow> auth_world) \<Rightarrow> app_state \<Rightarrow> app_state" where
  "on_auth f A = A\<lparr>sv_auth := f (sv_auth A)\<rparr>"

definition InitializeUser ::
  "auth_codec \<Rightarrow> auth_call \<Rightarrow> auth_call \<Rightarrow> auth_call \<Rightarrow> string \<Rightarrow> app_state \<Rightarrow> app_state \<times> auth_error option" where
  "InitializeUser K c c0 c1 token A =
     (if token \<noteq> [] then
        (case ActivateToken K c c0 c1 token (sv_auth A) of
           (w, Inr _) \<Rightarrow>
             let A1 = on_auth (SetHasLocalUserInfo True) (deliver (dc_now (ac_db c)) w A)
             in (A1\<lparr>sv_startup := SetStatus (dc_now (ac_db c)) READY (SetFetchSuccess True (sv_startup A1))\<rparr>, None)
         | (w, Inl e) \<Rightarrow>
             let A1 = on_auth (SetHasLocalUserInfo False) (deliver (dc_now (ac_db c)) w A)
             in (A1\<lparr>sv_startup := SetStatus (dc_now (ac_db c)) UNCONFIGURED (SetFetchSuccess False (sv_startup A1))\<rparr>, Some e))
      else
        (case loadLocalUserInfo K c c0 c1 A of
           (A1, None) \<Rightarrow>
             ((case GetCurrentUserInfo (sv_auth A1) of None \<Rightarrow> A1 | Some _ \<Rightarrow> on_auth (SetHasLocalUserInfo True) A1), None)
         | (A1, Some _) \<Rightarrow>
             let A2 = on_auth (SetHasLocalUserInfo False) A1
             in (A2\<lparr>sv_startup := SetFetchSuccess False (sv_startup A2)\<rparr>, None)))"

text \<open>
  The programs with a user: the foreground program and the tray take a token on the command line, the
  daemon does not and goes on whatever the initialisation says. \<open>None\<close>: the program ends. Between the
  two steps modelled here the programs load their configuration, which leaves the flag of the default
  configuration as it is in the argument.
\<close>

datatype launch = LaunchStart string | LaunchTray string | LaunchCore

definition persistence_ok :: "launch \<Rightarrow> db_call \<Rightarrow> auth_world \<Rightarrow> auth_world \<times> bool" where
  "persistence_ok l c w = (case l of LaunchTray _ \<Rightarrow> (w, True) | _ \<Rightarrow> getAuthSessionDB c w)"

definition initial_status :: "launch \<Rightarrow> db_call \<Rightarrow> auth_world \<Rightarrow> auth_world \<times> StartupStatus" where
  "initial_status l c w = (case l of
       LaunchStart flag \<Rightarrow> determineInitialStartupStatus c flag w
     | LaunchTray flag \<Rightarrow> determineInitialStartupStatus c flag w
     | LaunchCore \<Rightarrow> determineCoreInitialStatus c w)"

definition launch_flag :: "launch \<Rightarrow> string" where
  "launch_flag l = (case l of LaunchStart flag \<Rightarrow> flag | LaunchTray flag \<Rightarrow> flag | LaunchCore \<Rightarrow> [])"

definition launch_user ::
  "auth_codec \<Rightarrow> launch \<Rightarrow> auth_call \<Rightarrow> auth_call \<Rightarrow> auth_call \<Rightarrow> app_state \<Rightarrow> app_state option" where
  "launch_user K l c c0 c1 A =
     (case persistence_ok l (ac_db c) (sv_auth A) of (w, ok) \<Rightarrow>
        if \<not> ok then None
        else case initial_status l (ac_db c) w of (w1, status) \<Rightarrow>
          (case InitializeUser K c c0 c1 (launch_flag l)
                  (A\<lparr>sv_auth := w1, sv_startup := SetStatus (dc_now (ac_db c)) status (sv_startup A)\<rparr>) of
             (A1, None) \<Rightarrow> Some A1
           | (A1, Some _) \<Rightarrow> if l = LaunchCore then Some A1 else None))"

section \<open>Histories\<close>

datatype app_op =
    AppLogin auth_call string string string
  | AppRestore auth_call auth_call auth_call
  | AppRefresh auth_call auth_call string
  | AppUserInfo auth_call
  | AppLogout auth_call string
  | AppFires nat
  | AppBackground auth_call auth_call auth_call nat
  | AppDone nat
  | AppStart run_call
  | AppStop
  | AppSwitch run_call string

text \<open>A start is asked with the startup state of the moment.\<close>

definition at_startup :: "StartupState \<Rightarrow> run_call \<Rightarrow> run_call" where
  "at_startup s E = E\<lparr>rc_startup := s\<rparr>"

fun app_step :: "auth_codec \<Rightarrow> codec \<Rightarrow> app_op \<Rightarrow> app_state \<Rightarrow> app_state \<times> auth_response option" where
  "app_step K cd (AppLogin c email password turnstile) A = map_prod (\<lambda>x. x) Some (Auth_Login K c email password turnstile A)"
| "app_step K cd (AppRestore c c0 c1) A = map_prod (\<lambda>x. x) Some (Auth_RestoreSession K c c0 c1 A)"
| "app_step K cd (AppRefresh c0 c token) A = map_prod (\<lambda>x. x) Some (Auth_RefreshSession K c0 c token A)"
| "app_step K cd (AppUserInfo c) A = (fst (Auth_GetUserInfo c A), None)"
| "app_step K cd (AppLogout c token) A = (fst (LogoutUser c token A), None)"
| "app_step K cd (AppFires i) A = (on_auth (ticker_fires i) A, None)"
| "app_step K cd (AppBackground c c0 c1 i) A = (background_refresh K c c0 c1 i A, None)"
| "app_step K cd (AppDone i) A = (on_auth (loop_done i) A, None)"
| "app_step K cd (AppStart E) A = (A\<lparr>sv_run := fst (StartService (at_startup (sv_startup A) E) (sv_run A))\<rparr>, None)"
| "app_step K cd AppStop A = (A\<lparr>sv_run := fst (StopService (sv_run A))\<rparr>, None)"
| "app_step K cd (AppSwitch E target) A = (A\<lparr>sv_run := fst (SwitchMode cd (at_startup (sv_startup A) E) target (sv_run A))\<rparr>, None)"

text \<open>
  Whether the user counts as logged in: a successful answer to a login, a restoration or a refresh
  says yes, a logout and a session found expired say no, everything else leaves it.
\<close>

definition logged_in_after :: "auth_codec \<Rightarrow> codec \<Rightarrow> app_op \<Rightarrow> app_state \<Rightarrow> bool \<Rightarrow> bool" where
  "logged_in_after K cd op A b =
     (case app_step K cd op A of (A', r) \<Rightarrow>
        if (case op of AppLogout _ _ \<Rightarrow> True | _ \<Rightarrow> False) then False
        else if r \<noteq> None \<and> ar_status (the r) = ''success'' then True
        else if au_notified (sv_auth A') \<noteq> au_notified (sv_auth A) then False
        else b)"

text \<open>
  Whether the user counts as logged in when the program has come up: with a token on the command line,
  yes, for the program ends otherwise; without one, when the stored session could be restored, or when
  a stored session is there, could not be restored and was not found expired.
\<close>

definition logged_in_at_launch ::
  "auth_codec \<Rightarrow> launch \<Rightarrow> auth_call \<Rightarrow> auth_call \<Rightarrow> auth_call \<Rightarrow> app_state \<Rightarrow> bool" where
  "logged_in_at_launch K l c c0 c1 A =
     (let w = fst (persistence_ok l (ac_db c) (sv_auth A)) in
      if launch_flag l \<noteq> [] then True
      else case snd (RestoreSession K c c0 c1 (fst (initial_status l (ac_db c) w))) of
             Inr _ \<Rightarrow> True
           | Inl e \<Rightarrow> e \<noteq> SessionExpired \<and> snd (HasPersistedUserInfo (ac_db c) w) = Inr True)"

fun app_run :: "auth_codec \<Rightarrow> codec \<Rightarrow> app_op list \<Rightarrow> app_state \<times> bool \<Rightarrow> app_state \<times> bool" where
  "app_run K cd [] s = s"
| "app_run K cd (op # ops) (A, b) = app_run K cd ops (fst (app_step K cd op A), logged_in_after K cd op A b)"

section \<open>Who notifies the hook\<close>

named_theorems notified_simps

lemma notified_flags [notified_simps]:
  "au_notified (logged e w) = au_notified w" "us_current (logged e w) = us_current w"
  "au_notified (SetHasLocalUserInfo b w) = au_notified w" "us_current (SetHasLocalUserInfo b w) = us_current w"
  "au_notified (SetUsingDefaultConfig b w) = au_notified w" "us_current (SetUsingDefaultConfig b w) = us_current w"
  "au_notified (on_refresher i f w) = au_notified w" "us_current (on_refresher i f w) = us_current w"
  by (simp_all add: logged_def SetHasLocalUserInfo_def SetUsingDefaultConfig_def on_refresher_def)

lemma notified_refreshers [notified_simps]:
  "au_notified (startTokenRefresh w) = au_notified w" "us_current (startTokenRefresh w) = us_current w"
  "au_notified (StopTokenRefresh w) = au_notified w"
  by (auto simp: startTokenRefresh_def launch_refresher_def StopTokenRefresh_def notified_flags Let_def split: option.split)

lemma notified_store:
  "LoadUserInfo c w = (w', r) \<Longrightarrow> au_notified w' = au_notified w"
  "GetCurrentUserInfoOrLoad c w = (w', q) \<Longrightarrow> au_notified w' = au_notified w"
  "save_session d i w = (w', e) \<Longrightarrow> au_notified w' = au_notified w"
  "delete_session d w = (w', e) \<Longrightarrow> au_notified w' = au_notified w"
  by (auto simp: load_cases GetCurrentUserInfoOrLoad_def save_session_def save_cases delete_session_def delete_cases
      notified_flags Let_def split: if_splits option.splits prod.splits sum.splits)

lemma notified_profile: "GetUserProfileWithToken K c a w = (w', r) \<Longrightarrow> au_notified w' = au_notified w"
  by (auto simp: GetUserProfileWithToken_def notified_simps split: if_splits sum.splits)

lemma notified_clear:
  "au_notified (clearLocalSessionAfterInvalidRefreshToken c w) = au_notified w + 1
   \<and> us_current (clearLocalSessionAfterInvalidRefreshToken c w) = None"
proof -
  obtain w' e where d: "delete_session c (StopTokenRefresh w) = (w', e)" by force
  then have "e = None \<Longrightarrow> us_current w' = None"
    by (auto simp: delete_session_def delete_cases notified_flags Let_def split: if_splits option.splits)
  then show ?thesis
    using d notified_store(4) [OF d]
    by (cases e) (auto simp: clearLocalSessionAfterInvalidRefreshToken_def notified_simps SetCurrentUserInfo_def Let_def)
qed

lemma notified_finish:
  assumes "refresh_finish K c tok w = (w', r)"
  shows "(r = Inl SessionExpired \<longleftrightarrow> au_notified w' \<noteq> au_notified w) \<and> (r = Inl SessionExpired \<longrightarrow> us_current w' = None)"
proof (cases "read_body (ac_reply c)")
  case (Inl e)
  then have "e \<noteq> SessionExpired" by (auto simp: read_body_def split: http_reply.splits)
  then show ?thesis using assms Inl by (auto simp: refresh_finish_def)
next
  case (Inr b)
  then show ?thesis
    using assms notified_clear [of c w]
    by (cases b) (auto simp: refresh_finish_def notified_simps Let_def split: if_splits option.splits prod.splits sum.splits
        dest!: notified_profile notified_store(3))
qed

lemma notified_resolve: "refresh_resolve c a w = (w', r) \<Longrightarrow> au_notified w' = au_notified w"
  by (auto simp: refresh_resolve_def Let_def split: if_splits prod.splits option.splits dest: notified_store(2))

lemma notified_choose: "refresh_choose c a w = (w', r) \<Longrightarrow> au_notified w' = au_notified w \<and> r \<noteq> ChoiceFail SessionExpired"
  by (auto simp: refresh_choose_def notified_simps Let_def split: if_splits prod.splits sum.splits dest: notified_store(2))

lemma refresh_notifies:
  assumes "RefreshSession K c0 c tok w = (w', r)"
  shows "(r = Inl SessionExpired \<longleftrightarrow> au_notified w' \<noteq> au_notified w) \<and> (r = Inl SessionExpired \<longrightarrow> us_current w' = None)"
proof -
  obtain w1 t where 1: "refresh_resolve c0 tok w = (w1, t)" by force
  obtain w2 ch where 2: "refresh_choose c t w1 = (w2, ch)" by force
  note n = notified_resolve [OF 1] notified_choose [OF 2]
  show ?thesis
    using assms 1 2 n notified_finish [of K c _ w2 w' r]
    by (cases ch) (auto simp: RefreshSession_def split: if_splits)
qed

lemma restore_notifies:
  assumes "RestoreSession K c c0 c1 w = (w', r)"
  shows "(r = Inl SessionExpired \<longleftrightarrow> au_notified w' \<noteq> au_notified w) \<and> (r = Inl SessionExpired \<longrightarrow> us_current w' = None)"
proof -
  obtain w1 l where 1: "LoadUserInfo (ac_db c) w = (w1, l)" by force
  note n1 = notified_store(1) [OF 1]
  show ?thesis
  proof (cases l)
    case (Inl e)
    then show ?thesis using assms 1 n1 by (auto simp: RestoreSession_def)
  next
    case (Inr u)
    obtain w2 q where 2: "RefreshSession K c0 c1 (ui_RefreshToken u) w1 = (w2, q)" by force
    then show ?thesis
      using assms 1 Inr n1 refresh_notifies [OF 2]
      by (auto simp: RestoreSession_def notified_simps Let_def fst_def split: sum.splits if_splits prod.splits
          dest!: notified_profile notified_store(3))
  qed
qed

lemma login_silent: "LoginWithPassword K c em pw ts w = (w', r) \<Longrightarrow> au_notified w' = au_notified w"
  by (auto simp: LoginWithPassword_def notified_simps Let_def fst_def split: if_splits sum.splits option.splits prod.splits
      dest!: notified_profile notified_store(3))

lemma tick_notifies:
  assumes "au_notified (loop_tick K c c0 c1 i w) \<noteq> au_notified w"
  shows "us_current (loop_tick K c c0 c1 i w) = None"
proof -
  have user: "au_notified v' \<noteq> au_notified v \<longrightarrow> us_current v' = None" if "refreshUserInfo K c c0 c1 v = (v', e)" for v v' e
  proof -
    obtain v1 q where 1: "GetCurrentUserInfoOrLoad (ac_db c) v = (v1, q)" by force
    show ?thesis
      using that 1 notified_store(2) [OF 1] refresh_notifies [of K c0 c1 _ v1 v']
      by (cases q) (auto simp: refreshUserInfo_def split: if_splits prod.splits sum.splits)
  qed
  show ?thesis
    using assms user by (fastforce simp: loop_tick_def notified_simps split: if_splits prod.splits option.splits)
qed

section \<open>The service after a notification\<close>

definition locked_out :: "app_state \<Rightarrow> bool" where
  "locked_out A \<longleftrightarrow> ss_status (sv_startup A) = UNCONFIGURED \<and> \<not> ss_fetchSuccess (sv_startup A)
     \<and> \<not> rn_isRunning (sv_run A) \<and> proxies (sv_run A) = (False, False)"

lemma stopped_proxies:
  assumes "run_inv cd w" shows "\<not> rn_isRunning (fst (StopService w)) \<and> proxies (fst (StopService w)) = (False, False)"
proof -
  have "\<not> rn_isRunning (fst (StopService w))" by (auto simp: StopService_def issue_def Let_def)
  then show ?thesis using stop_inv [OF assms] by (simp add: run_inv_def)
qed

lemma handler_locks_out:
  assumes "run_inv cd (sv_run A)" shows "locked_out (handleAuthExpired now A) \<and> run_inv cd (sv_run (handleAuthExpired now A))"
proof (cases "IsRunning (sv_run A)")
  case True
  then show ?thesis
    using stopped_proxies [OF assms] stop_inv [OF assms]
    by (simp add: handleAuthExpired_def locked_out_def SetStatus_def SetFetchSuccess_def)
next
  case False
  then show ?thesis
    using assms
    by (simp add: handleAuthExpired_def locked_out_def SetStatus_def SetFetchSuccess_def IsRunning_def run_inv_def)
qed

lemma handler_auth [simp]: "sv_auth (handleAuthExpired now A) = sv_auth A"
  by (simp add: handleAuthExpired_def Let_def)

lemma deliver_auth [simp]: "sv_auth (deliver now w A) = w"
  by (simp add: deliver_def Let_def)

lemma startup_ops [simp]:
  "sv_auth (clearStartupStateAfterLogout now A) = sv_auth A" "sv_run (clearStartupStateAfterLogout now A) = sv_run A"
  "sv_auth (syncStartupStateForAuthenticatedUser now u A) = sv_auth A"
  "sv_run (syncStartupStateForAuthenticatedUser now u A) = sv_run A"
  by (simp_all add: clearStartupStateAfterLogout_def syncStartupStateForAuthenticatedUser_def split: option.split)

lemma deliver_notified:
  assumes "run_inv cd (sv_run A)" "au_notified w \<noteq> au_notified (sv_auth A)"
  shows "locked_out (deliver now w A)"
  using handler_locks_out [of cd "A\<lparr>sv_auth := w\<rparr>"] assms by (simp add: deliver_def Let_def)

lemma deliver_silent: "au_notified w = au_notified (sv_auth A) \<Longrightarrow> deliver now w A = A\<lparr>sv_auth := w\<rparr>"
  by (simp add: deliver_def Let_def)

lemma deliver_inv: "run_inv cd (sv_run A) \<Longrightarrow> run_inv cd (sv_run (deliver now w A))"
  using handler_locks_out [of cd "A\<lparr>sv_auth := w\<rparr>"] by (simp add: deliver_def Let_def)

lemma locked_out_clear: "locked_out A \<Longrightarrow> locked_out (clearStartupStateAfterLogout now A)"
  by (simp add: locked_out_def clearStartupStateAfterLogout_def SetStatus_def SetFetchSuccess_def)

lemma silent_ops:
  "au_notified (sv_auth (fst (Auth_Login K c em pw ts A))) = au_notified (sv_auth A)"
  "au_notified (sv_auth (fst (Auth_GetUserInfo c A))) = au_notified (sv_auth A)"
  "au_notified (sv_auth (fst (LogoutUser c tok A))) = au_notified (sv_auth A)"
proof -
  show "au_notified (sv_auth (fst (Auth_Login K c em pw ts A))) = au_notified (sv_auth A)"
    by (auto simp: Auth_Login_def split: prod.splits sum.splits dest: login_silent)
  show "au_notified (sv_auth (fst (Auth_GetUserInfo c A))) = au_notified (sv_auth A)"
    by (auto simp: Auth_GetUserInfo_def split: prod.splits option.splits dest: notified_store(2))
  obtain w1 tok1 where 1: "refresh_resolve c tok (sv_auth A) = (w1, tok1)" by force
  then have "au_notified (fst (LogoutSession c tok (sv_auth A))) = au_notified (sv_auth A)"
    by (auto simp: LogoutSession_def notified_simps Let_def split: sum.splits dest: notified_resolve)
  moreover obtain w2 e where 2: "delete_session c (StopTokenRefresh (fst (LogoutSession c tok (sv_auth A)))) = (w2, e)" by force
  ultimately show "au_notified (sv_auth (fst (LogoutUser c tok A))) = au_notified (sv_auth A)"
    using notified_store(4) [OF 2] by (simp add: LogoutUser_def notified_simps Let_def)
qed

lemma app_step_inv:
  assumes "codec_ok cd" "run_inv cd (sv_run A)" shows "run_inv cd (sv_run (fst (app_step K cd op A)))"
  by (cases op)
    (use assms in \<open>auto simp: on_auth_def Auth_Login_def Auth_RestoreSession_def Auth_RefreshSession_def Auth_GetUserInfo_def LogoutUser_def
      background_refresh_def deliver_inv start_inv stop_inv switch_inv Let_def split: prod.splits sum.splits option.splits\<close>)

lemma notified_step:
  assumes "run_inv cd (sv_run A)" "app_step K cd op A = (A', r)" "au_notified (sv_auth A') \<noteq> au_notified (sv_auth A)"
  shows "locked_out A' \<and> us_current (sv_auth A') = None \<and> (r = None \<or> ar_status (the r) \<noteq> ''success'')"
proof (cases op)
  case (AppRestore c c0 c1)
  obtain w q where w: "RestoreSession K c c0 c1 (sv_auth A) = (w, q)" by force
  have A': "(A', r) = map_prod (\<lambda>x. x) Some (Auth_RestoreSession K c c0 c1 A)" using assms(2) AppRestore by simp
  then have "sv_auth A' = w" using w by (auto simp: Auth_RestoreSession_def Let_def split: sum.splits if_splits)
  then show ?thesis
    using A' w assms(3) restore_notifies [OF w] deliver_notified [OF assms(1)]
    by (auto simp: Auth_RestoreSession_def auth_no_def locked_out_clear)
next
  case (AppRefresh c0 c tok)
  obtain w q where w: "RefreshSession K c0 c tok (sv_auth A) = (w, q)" by force
  have A': "(A', r) = map_prod (\<lambda>x. x) Some (Auth_RefreshSession K c0 c tok A)" using assms(2) AppRefresh by simp
  then have "sv_auth A' = w" using w by (auto simp: Auth_RefreshSession_def Let_def split: sum.splits if_splits)
  then show ?thesis
    using A' w assms(3) refresh_notifies [OF w] deliver_notified [OF assms(1)]
    by (auto simp: Auth_RefreshSession_def auth_no_def locked_out_clear)
next
  case (AppBackground c c0 c1 i)
  then show ?thesis
    using assms tick_notifies deliver_notified by (auto simp: background_refresh_def)
next
  case (AppLogin c em pw ts)
  then show ?thesis using assms silent_ops(1) [of K c em pw ts A] by (cases "Auth_Login K c em pw ts A") auto
qed (use assms silent_ops in \<open>auto simp: on_auth_def ticker_fires_def loop_done_def notified_simps\<close>)

section \<open>The gate over a history\<close>

definition may_start :: "app_state \<Rightarrow> bool" where
  "may_start A = canStartProxyWithStatus (Startup_GetStatus (sv_startup A))"

lemma may_start_ops [simp]:
  "may_start (syncStartupStateForAuthenticatedUser now (Some u) A)"
  "\<not> may_start (clearStartupStateAfterLogout now A)"
  "may_start (A\<lparr>sv_auth := w\<rparr>) = may_start A" "may_start (A\<lparr>sv_run := v\<rparr>) = may_start A"
  by (simp_all add: may_start_def syncStartupStateForAuthenticatedUser_def clearStartupStateAfterLogout_def
      canStartProxyWithStatus_def Startup_GetStatus_def SetStatus_def)

lemma locked_out_gate: "locked_out A \<Longrightarrow> \<not> may_start A"
  by (simp add: locked_out_def may_start_def Startup_GetStatus_def canStartProxyWithStatus_def)

lemma auth_status [simp]: "ar_status (auth_ok u) = ''success''" "ar_status (auth_no st e) = st"
  by (simp_all add: auth_ok_def auth_no_def)

lemma silent_gate:
  assumes "app_step K cd op A = (A', r)" "au_notified (sv_auth A') = au_notified (sv_auth A)"
  shows "may_start A' = logged_in_after K cd op A (may_start A)"
proof (cases op)
  case (AppRestore c c0 c1)
  obtain w q where w: "RestoreSession K c c0 c1 (sv_auth A) = (w, q)" by force
  show ?thesis
    using assms AppRestore w restore_notifies [OF w]
    by (auto simp: Auth_RestoreSession_def logged_in_after_def deliver_silent Let_def split: sum.splits if_splits)
next
  case (AppRefresh c0 c tok)
  obtain w q where w: "RefreshSession K c0 c tok (sv_auth A) = (w, q)" by force
  show ?thesis
    using assms AppRefresh w refresh_notifies [OF w]
    by (auto simp: Auth_RefreshSession_def logged_in_after_def deliver_silent Let_def split: sum.splits if_splits)
next
  case (AppLogin c em pw ts)
  show ?thesis
    using assms AppLogin
    by (auto simp: Auth_Login_def logged_in_after_def deliver_silent split: sum.splits if_splits prod.splits dest: login_silent)
next
  case (AppBackground c c0 c1 i)
  then show ?thesis using assms by (auto simp: background_refresh_def logged_in_after_def deliver_silent)
next
  case (AppUserInfo c)
  then show ?thesis
    using assms by (auto simp: Auth_GetUserInfo_def logged_in_after_def split: prod.splits option.splits)
next
  case (AppLogout c tok)
  then show ?thesis using assms by (auto simp: LogoutUser_def logged_in_after_def Let_def)
qed (use assms in \<open>auto simp: logged_in_after_def on_auth_def\<close>)

lemma gate_step:
  assumes "run_inv cd (sv_run A)" "app_step K cd op A = (A', r)"
  shows "may_start A' = logged_in_after K cd op A (may_start A)"
proof (cases "au_notified (sv_auth A') = au_notified (sv_auth A)")
  case False
  note n = notified_step [OF assms False]
  then have "\<not> may_start A'" using locked_out_gate by blast
  then show ?thesis using n False assms(2) by (auto simp: logged_in_after_def split: app_op.splits)
qed (rule silent_gate [OF assms(2)])

lemma app_run_inv:
  assumes "codec_ok cd" "run_inv cd (sv_run A)" "may_start A = b" "app_run K cd ops (A, b) = (A', b')"
  shows "run_inv cd (sv_run A') \<and> may_start A' = b'"
  using assms(2-4)
proof (induction ops arbitrary: A b)
  case (Cons op ops)
  obtain A1 r where st: "app_step K cd op A = (A1, r)" by force
  show ?case
  proof (rule Cons.IH)
    show "run_inv cd (sv_run A1)" using app_step_inv [OF assms(1) Cons.prems(1), of K op] st by simp
    show "may_start A1 = logged_in_after K cd op A b" using gate_step [OF Cons.prems(1) st] Cons.prems(2) by simp
    show "app_run K cd ops (A1, logged_in_after K cd op A b) = (A', b')" using Cons.prems(3) st by simp
  qed
qed simp

text \<open>A new process, with what the tables hold and whether the default configuration is in use.\<close>

definition new_app ::
  "RuntimeSnapshot routingApplyStore \<Rightarrow> authTokenRecord option \<Rightarrow> authProfileRecord option \<Rightarrow> bool \<Rightarrow> app_state" where
  "new_app st token profile usingDefault =
     \<lparr>sv_auth = (fresh_process token profile)\<lparr>au_usingDefault := usingDefault\<rparr>, sv_startup = GetStartupState 0,
      sv_run = NewRunService None st\<rparr>"

lemma initialize_inv: "run_inv cd (sv_run A) \<Longrightarrow> run_inv cd (sv_run (fst (InitializeUser K c c0 c1 token A)))"
  by (auto simp: InitializeUser_def loadLocalUserInfo_def on_auth_def deliver_inv Let_def split: prod.splits sum.splits option.splits)

lemma initialize_gate:
  assumes "run_inv cd (sv_run A)" "InitializeUser K c c0 c1 token A = (A', r)"
  shows "may_start A' = (if token \<noteq> [] then r = None
     else case snd (RestoreSession K c c0 c1 (sv_auth A)) of Inr _ \<Rightarrow> True | Inl e \<Rightarrow> e \<noteq> SessionExpired \<and> may_start A)"
proof (cases "token = []")
  case False
  then show ?thesis
    using assms(2) by (auto simp: InitializeUser_def may_start_def canStartProxyWithStatus_def Startup_GetStatus_def SetStatus_def
        on_auth_def Let_def split: prod.splits sum.splits)
next
  case True
  obtain w q where w: "RestoreSession K c c0 c1 (sv_auth A) = (w, q)" by force
  note n = restore_notifies [OF w]
  have gate: "may_start (deliver now w A) = (q \<noteq> Inl SessionExpired \<and> may_start A)" for now
    using n locked_out_gate deliver_notified [OF assms(1), of w now] by (cases "q = Inl SessionExpired") (auto simp: deliver_silent)
  have keep: "may_start (A1\<lparr>sv_auth := v, sv_startup := SetFetchSuccess b (sv_startup A1)\<rparr>) = may_start A1" for b v A1
    by (simp add: may_start_def SetFetchSuccess_def Startup_GetStatus_def)
  have ready: "may_start (A1\<lparr>sv_startup := SetStatus now READY ss\<rparr>)"
    "may_start (A1\<lparr>sv_auth := v, sv_startup := SetStatus now READY ss\<rparr>)" for A1 now ss v
    by (simp_all add: may_start_def SetStatus_def Startup_GetStatus_def canStartProxyWithStatus_def)
  show ?thesis
    using assms(2) w True gate keep ready
    by (cases q) (auto simp: InitializeUser_def loadLocalUserInfo_def on_auth_def Let_def split: option.splits)
qed

lemma initial_gate:
  "canStartProxyWithStatus (snd (initial_status l c w)) \<longleftrightarrow>
     TrimSpace (launch_flag l) = [] \<and> snd (HasPersistedUserInfo c w) = Inr True"
  by (cases l)
    (auto simp: initial_status_def launch_flag_def determineInitialStartupStatus_def determineCoreInitialStatus_def
      canStartProxyWithStatus_def TrimSpace_def split: prod.splits sum.splits)

lemma launch_gate:
  assumes "store_ok st" "launch_user K l c c0 c1 (new_app st token profile d) = Some A"
  shows "run_inv cd (sv_run A) \<and> may_start A = logged_in_at_launch K l c c0 c1 (new_app st token profile d)"
proof -
  let ?A = "new_app st token profile d"
  obtain w ok where p: "persistence_ok l (ac_db c) (sv_auth ?A) = (w, ok)" by force
  obtain w1 status where i: "initial_status l (ac_db c) w = (w1, status)" by force
  let ?B = "?A\<lparr>sv_auth := w1, sv_startup := SetStatus (dc_now (ac_db c)) status (sv_startup ?A)\<rparr>"
  have B: "run_inv cd (sv_run ?B)" using assms(1) by (simp add: new_app_def run_inv_new)
  obtain A1 r where u: "InitializeUser K c c0 c1 (launch_flag l) ?B = (A1, r)" by force
  then have A: "A = A1" and r: "launch_flag l \<noteq> [] \<longrightarrow> r = None"
    using assms(2) p i by (auto simp: launch_user_def launch_flag_def split: if_splits option.splits launch.splits)
  have start: "may_start ?B = canStartProxyWithStatus status" by (simp add: may_start_def Startup_GetStatus_def SetStatus_def)
  have "TrimSpace [] = []" by code_simp
  then show ?thesis
    using initialize_inv [OF B, of K c c0 c1 "launch_flag l"] initialize_gate [OF B u] u A r start p i initial_gate [of l "ac_db c" w]
    by (auto simp: logged_in_at_launch_def Let_def split: sum.splits)
qed

section \<open>The server rejects a refresh token\<close>

text \<open>The requests to refresh that were sent.\<close>

definition asked :: "auth_world \<Rightarrow> string list" where
  "asked w = sent_tokens (au_events w)"

definition rejects :: "auth_codec \<Rightarrow> http_reply \<Rightarrow> bool" where
  "rejects K r \<longleftrightarrow>
     (\<exists>body envelope. r = Reply 401 body \<and> decode_error K body = Some envelope \<and> ae_Code envelope = 401
        \<and> (ToUpper (TrimSpace (ae_Reason envelope)) = ''REFRESH_TOKEN_INVALID''
           \<or> Contains (ToLower (TrimSpace (ae_Message envelope))) ''invalid refresh token''))"

lemma sent_tokens_append: "sent_tokens (xs @ ys) = sent_tokens xs @ sent_tokens ys"
  by (simp add: sent_tokens_def List.map_filter_def)

lemma asked_flags [notified_simps]:
  "asked (SetHasLocalUserInfo b w) = asked w" "asked (SetUsingDefaultConfig b w) = asked w"
  "asked (on_refresher i f w) = asked w" "asked (logged e w) = asked w @ sent_tokens [e]"
  "asked (startTokenRefresh w) = asked w"
  by (simp_all add: asked_def sent_tokens_append startTokenRefresh_def launch_refresher_def Let_def)

lemma asked_store:
  "LoadUserInfo c w = (w', r) \<Longrightarrow> asked w' = asked w"
  "GetCurrentUserInfoOrLoad c w = (w', q) \<Longrightarrow> asked w' = asked w"
  "save_session d i w = (w', e) \<Longrightarrow> asked w' = asked w"
  "GetUserProfileWithToken K d a w = (w', p) \<Longrightarrow> asked w' = asked w"
  by (auto simp: load_cases GetCurrentUserInfoOrLoad_def save_session_def save_cases GetUserProfileWithToken_def asked_def
      sent_tokens_append Let_def split: if_splits option.splits prod.splits sum.splits)

lemma refresh_rejected:
  assumes "RefreshSession K c0 c tok w = (w', r)" "rejects K (ac_reply c)" "asked w' \<noteq> asked w"
  shows "r = Inl SessionExpired"
proof -
  obtain w1 t where 1: "refresh_resolve c0 tok w = (w1, t)" by force
  obtain w2 ch where 2: "refresh_choose c t w1 = (w2, ch)" by force
  have w1: "asked w1 = asked w"
    using 1 by (auto simp: refresh_resolve_def Let_def split: if_splits prod.splits option.splits dest: asked_store)
  obtain body where "ac_reply c = Reply 401 body" "classifyRefreshSessionFailure K 401 body"
    using assms(2) by (auto simp: rejects_def classifyRefreshSessionFailure_def)
  then have finish: "snd (refresh_finish K c t' w2) = Inl SessionExpired" for t'
    by (simp add: refresh_finish_def read_body_def)
  have "\<exists>t'. ch = ChoiceSend t'"
    using assms(1,3) 1 2 w1
    by (cases ch) (auto simp: RefreshSession_def refresh_choose_def Let_def split: if_splits prod.splits sum.splits dest: asked_store)
  then show ?thesis using assms(1,3) 1 2 w1 finish by (auto simp: RefreshSession_def split: if_splits) (metis snd_conv)
qed

lemma restore_rejected:
  assumes "RestoreSession K c c0 c1 w = (w', r)" "rejects K (ac_reply c1)" "asked w' \<noteq> asked w"
  shows "r = Inl SessionExpired"
proof -
  obtain w1 l where 1: "LoadUserInfo (ac_db c) w = (w1, l)" by force
  show ?thesis
  proof (cases l)
    case (Inr u)
    obtain w2 q where 2: "RefreshSession K c0 c1 (ui_RefreshToken u) w1 = (w2, q)" by force
    have "asked w' = asked w2"
      using assms(1) 1 2 Inr
      by (auto simp: RestoreSession_def notified_simps Let_def fst_def split: sum.splits if_splits prod.splits
          dest!: asked_store)
    then have "q = Inl SessionExpired" using refresh_rejected [OF 2 assms(2)] assms(3) asked_store(1) [OF 1] by simp
    then show ?thesis using assms(1) 1 2 Inr by (simp add: RestoreSession_def)
  qed (use assms 1 in \<open>auto simp: RestoreSession_def dest: asked_store\<close>)
qed

lemma tick_rejected:
  assumes "rejects K (ac_reply c1)" "asked (loop_tick K c c0 c1 i w) \<noteq> asked w"
  shows "au_notified (loop_tick K c c0 c1 i w) \<noteq> au_notified w"
proof -
  have user: "asked v' \<noteq> asked v \<longrightarrow> au_notified v' \<noteq> au_notified v" if "refreshUserInfo K c c0 c1 v = (v', e)" for v v' e
  proof -
    obtain v1 q where 1: "GetCurrentUserInfoOrLoad (ac_db c) v = (v1, q)" by force
    show ?thesis
      using that 1 notified_store(2) [OF 1] asked_store(2) [OF 1] refresh_notifies [of K c0 c1 _ v1 v']
        refresh_rejected [of K c0 c1 _ v1 v', OF _ assms(1)]
      by (cases q) (auto simp: refreshUserInfo_def split: if_splits prod.splits sum.splits)
  qed
  show ?thesis
    using assms(2) user by (fastforce simp: loop_tick_def notified_simps split: if_splits prod.splits option.splits)
qed

text \<open>The answer to the request to refresh that an operation may send.\<close>

definition refresh_answer :: "app_op \<Rightarrow> http_reply option" where
  "refresh_answer op = (case op of
       AppRestore c c0 c1 \<Rightarrow> Some (ac_reply c1)
     | AppRefresh c0 c tok \<Rightarrow> Some (ac_reply c)
     | AppBackground c c0 c1 i \<Rightarrow> Some (ac_reply c1)
     | _ \<Rightarrow> None)"

lemma rejected_notifies:
  assumes "app_step K cd op A = (A', r)" "refresh_answer op = Some reply" "rejects K reply"
    and "asked (sv_auth A') \<noteq> asked (sv_auth A)"
  shows "au_notified (sv_auth A') \<noteq> au_notified (sv_auth A)"
proof (cases op)
  case (AppRestore c c0 c1)
  obtain w q where w: "RestoreSession K c c0 c1 (sv_auth A) = (w, q)" by force
  have "sv_auth A' = w" using assms(1) AppRestore w by (auto simp: Auth_RestoreSession_def Let_def split: sum.splits if_splits)
  then show ?thesis using restore_rejected [OF w] restore_notifies [OF w] assms(2-) AppRestore by (simp add: refresh_answer_def)
next
  case (AppRefresh c0 c tok)
  obtain w q where w: "RefreshSession K c0 c tok (sv_auth A) = (w, q)" by force
  have "sv_auth A' = w" using assms(1) AppRefresh w by (auto simp: Auth_RefreshSession_def Let_def split: sum.splits if_splits)
  then show ?thesis using refresh_rejected [OF w] refresh_notifies [OF w] assms(2-) AppRefresh by (simp add: refresh_answer_def)
next
  case (AppBackground c c0 c1 i)
  then show ?thesis using assms tick_rejected [of K c1 c c0 i "sv_auth A"] by (auto simp: background_refresh_def refresh_answer_def)
qed (use assms(2) in \<open>auto simp: refresh_answer_def\<close>)

section \<open>Properties\<close>

text \<open>
  C11. The proxy can be started by a logged-in user only. Each of the three programs decides at start,
  from the token on its command line and from the stored session, whether the user counts as logged
  in; a stored session that is there but cannot be restored, without having been found expired, counts.
  After any sequence of logins, logouts, restorations, refreshes, ticks and rounds of the background
  refresh loops, starts, stops and mode switches, one after the other, the startup state lets the
  service start exactly when the last thing that settled the question was that, or a successful login,
  restoration or refresh, and not a logout or a session found expired; while it does not, a start is
  refused and issues no command.
\<close>

theorem start_follows_login:
  assumes "codec_ok cd" "store_ok st" "launch_user K l c c0 c1 (new_app st token profile d) = Some A0"
    and "app_run K cd ops (A0, logged_in_at_launch K l c c0 c1 (new_app st token profile d)) = (A, logged_in)"
  shows "canStartProxyWithStatus (Startup_GetStatus (sv_startup A)) = logged_in
    \<and> (logged_in \<or> StartService (at_startup (sv_startup A) E) (sv_run A) = (sv_run A, failure ''activation_required''))"
proof -
  have "may_start A = logged_in"
    using app_run_inv [OF assms(1) _ _ assms(4)] launch_gate [OF assms(2,3), of cd] by simp
  then show ?thesis by (auto simp: may_start_def StartService_def at_startup_def)
qed

text \<open>
  C12. An expired session stops the proxy. After any such history, when a restoration, a refresh or a
  round of a background refresh loop sends a request to refresh and the server answers with status 401
  and an envelope of code 401 whose reason is REFRESH_TOKEN_INVALID or whose message says invalid
  refresh token, then afterwards no session is in memory, neither proxy runs, the service says so, and
  a start is refused.
\<close>

theorem expired_session_stops_service:
  assumes "codec_ok cd" "store_ok st" "launch_user K l c c0 c1 (new_app st token profile d) = Some A0"
    and "app_run K cd ops (A0, logged_in_at_launch K l c c0 c1 (new_app st token profile d)) = (A, logged_in)"
    and "app_step K cd op A = (A', r)" "asked (sv_auth A') \<noteq> asked (sv_auth A)"
    and "refresh_answer op = Some (Reply 401 body)" "decode_error K body = Some envelope" "ae_Code envelope = 401"
    and "ToUpper (TrimSpace (ae_Reason envelope)) = ''REFRESH_TOKEN_INVALID''
         \<or> Contains (ToLower (TrimSpace (ae_Message envelope))) ''invalid refresh token''"
  shows "us_current (sv_auth A') = None \<and> proxies (sv_run A') = (False, False) \<and> \<not> IsRunning (sv_run A')
    \<and> StartService (at_startup (sv_startup A') E) (sv_run A') = (sv_run A', failure ''activation_required'')"
proof -
  have inv: "run_inv cd (sv_run A)"
    using app_run_inv [OF assms(1) _ _ assms(4)] launch_gate [OF assms(2,3), of cd] by simp
  have "rejects K (Reply 401 body)" using assms(8-) by (auto simp: rejects_def)
  from rejected_notifies [OF assms(5,7) this assms(6)] have n: "locked_out A' \<and> us_current (sv_auth A') = None"
    using notified_step [OF inv assms(5)] by blast
  then have "\<not> may_start A'" using locked_out_gate by blast
  then show ?thesis using n by (simp add: locked_out_def IsRunning_def may_start_def StartService_def at_startup_def)
qed

section \<open>Examples\<close>

text \<open>The daemon starts without a session, the user logs in and starts the proxy, and the ticker fires.\<close>

definition expiring_codec :: auth_codec where
  "expiring_codec = sample_codec\<lparr>decode_error := (\<lambda>_. Some \<lparr>ae_Code = 401, ae_Message = [], ae_Reason = '' refresh_token_invalid''\<rparr>)\<rparr>"

definition expired_call :: auth_call where
  "expired_call = (sample_auth_call [])\<lparr>ac_reply := Reply 401 []\<rparr>"

definition sample_app_ops :: "app_op list" where
  "sample_app_ops = [AppLogin (sample_auth_call ''1'') ''u@example'' ''secret'' [], AppStart sample_run, AppFires 0]"

abbreviation sample_new :: app_state where "sample_new \<equiv> new_app GetRoutingApplyStore None None True"

abbreviation sample_launch :: "app_state option" where
  "sample_launch \<equiv> launch_user expiring_codec LaunchCore (sample_auth_call []) (sample_auth_call []) (sample_auth_call []) sample_new"

abbreviation sample_history :: "app_state \<times> bool" where
  "sample_history \<equiv> app_run expiring_codec byte_codec sample_app_ops
     (the sample_launch, logged_in_at_launch expiring_codec LaunchCore (sample_auth_call []) (sample_auth_call [])
        (sample_auth_call []) sample_new)"

definition sample_tick :: app_op where
  "sample_tick = AppBackground expired_call expired_call expired_call 0"

abbreviation sample_expired :: app_state where
  "sample_expired \<equiv> fst (app_step expiring_codec byte_codec sample_tick (fst sample_history))"

lemma sample_launched: "sample_launch = Some (the sample_launch)"
proof -
  have "sample_launch \<noteq> None" by code_simp
  then show ?thesis by simp
qed

lemma sample_app_runs: "proxies (sv_run (fst sample_history)) = (True, False)"
  by code_simp

lemma sample_app_logged_in: "snd sample_history"
  by code_simp

lemma sample_asked: "asked (sv_auth sample_expired) \<noteq> asked (sv_auth (fst sample_history))"
  by code_simp

theorem start_follows_login_witness:
  "canStartProxyWithStatus (Startup_GetStatus (sv_startup (fst sample_history))) \<and> proxies (sv_run (fst sample_history)) = (True, False)"
  using start_follows_login [OF byte_codec_ok fresh_store_ok sample_launched prod.collapse [symmetric], of sample_app_ops]
    sample_app_logged_in sample_app_runs by blast

theorem expired_session_stops_service_witness:
  "proxies (sv_run (fst sample_history)) = (True, False) \<and> proxies (sv_run sample_expired) = (False, False)
   \<and> us_current (sv_auth sample_expired) = None"
proof -
  have answer: "refresh_answer sample_tick = Some (Reply 401 [])" by (simp add: refresh_answer_def sample_tick_def expired_call_def)
  have decoded: "decode_error expiring_codec [] = Some \<lparr>ae_Code = 401, ae_Message = [], ae_Reason = '' refresh_token_invalid''\<rparr>"
    by (simp add: expiring_codec_def)
  have reason: "ToUpper (TrimSpace '' refresh_token_invalid'') = ''REFRESH_TOKEN_INVALID''" by code_simp
  show ?thesis
    using expired_session_stops_service
        [OF byte_codec_ok fresh_store_ok sample_launched prod.collapse [symmetric] prod.collapse [symmetric] sample_asked answer decoded]
      reason sample_app_runs by simp
qed

section \<open>What goes wrong\<close>

text \<open>Logging out leaves a running proxy running, and the flag that local user information exists set.\<close>

lemma logout_leaves_proxy:
  "sv_run (fst (LogoutUser c tok A)) = sv_run A \<and> au_hasLocal (sv_auth (fst (LogoutUser c tok A))) = au_hasLocal (sv_auth A)"
proof -
  have "au_hasLocal (fst (delete_session c w)) = au_hasLocal w" for w
    by (auto simp: delete_session_def delete_cases logged_def Let_def)
  moreover have "au_hasLocal (StopTokenRefresh w) = au_hasLocal w" for w
    by (auto simp: StopTokenRefresh_def on_refresher_def split: option.split)
  moreover have "au_hasLocal (fst (LogoutSession c tok w)) = au_hasLocal w" for w
    by (auto simp: LogoutSession_def refresh_resolve_def GetCurrentUserInfoOrLoad_def load_cases logged_def Let_def
        split: sum.splits prod.splits option.splits)
  ultimately show ?thesis by (simp add: LogoutUser_def Let_def)
qed

text \<open>A logout whose rows cannot be deleted keeps the session in memory and is reported as a success.\<close>

lemma failed_logout_keeps_session:
  assumes "us_db (sv_auth A) = Some True" "us_current (sv_auth A) = Some u" "\<not> dc_commits (ac_db c)"
  shows "us_current (sv_auth (fst (LogoutUser c tok A))) = Some u \<and> ar_status (snd (LogoutUser c tok A)) = ''success''"
proof -
  let ?w = "StopTokenRefresh (fst (LogoutSession c tok (sv_auth A)))"
  have "us_current ?w = Some u" "us_db ?w = Some True"
    using assms(1,2)
    by (auto simp: LogoutSession_def refresh_resolve_def GetCurrentUserInfoOrLoad_def GetCurrentUserInfo_def logged_def Let_def
        StopTokenRefresh_def on_refresher_def split: sum.splits option.splits)
  then show ?thesis
    using assms(3) by (simp add: LogoutUser_def delete_session_def delete_cases db_open_def Let_def)
qed

text \<open>
  Stored rows that cannot be read make the initialisation fail, but the status they gave before stays:
  the proxy may be started without a session.
\<close>

lemma unreadable_session_may_start:
  assumes "us_db (sv_auth A) = Some True" "us_token (sv_auth A) \<noteq> None" "dc_readsToken (ac_db c)" "\<not> dc_readsProfile (ac_db c)"
    and "ss_status (sv_startup A) = snd (determineCoreInitialStatus (ac_db c) (sv_auth A))"
    and "us_current (sv_auth A) = None"
  shows "may_start (fst (InitializeUser K c c0 c1 [] A)) \<and> us_current (sv_auth (fst (InitializeUser K c c0 c1 [] A))) = None"
proof -
  have status: "ss_status (sv_startup A) = READY"
    using assms(1-3,5) by (simp add: determineCoreInitialStatus_def HasPersistedUserInfo_def getAuthSessionDB_def Let_def)
  have "RestoreSession K c c0 c1 (sv_auth A) = ((sv_auth A)\<lparr>us_db := Some True\<rparr>, Inl (LoadFailed ReadError))"
    using assms(1-4) by (auto simp: RestoreSession_def load_cases db_open_def Let_def)
  then show ?thesis
    using status assms(6)
    by (simp add: InitializeUser_def loadLocalUserInfo_def deliver_def on_auth_def SetHasLocalUserInfo_def SetFetchSuccess_def
        may_start_def Startup_GetStatus_def canStartProxyWithStatus_def Let_def)
qed

end
