(* ===== verification/User_Center.thy ===== *)
theory User_Center
  imports Auth_Session
begin

text \<open>
  The client of the account server, \<^verbatim>\<open>src/processor/auth/user_center.go\<close> and \<^verbatim>\<open>dashboard.go\<close>: usage,
  API keys, redeem codes and dashboards. Every call resolves the access token of the session first.
  The JSON decoders are arguments; raw JSON is kept as text and amounts of money as bit patterns.
  The API keys come in pages, and how many there are is what the server says on each page; the loop is
  a partial function, whose value \<^const>\<open>None\<close> means that it never returns. The number of the page is a
  natural number where the code has a 64-bit integer. The text of a transport
  error is taken not to contain the words the code looks for.
\<close>

section \<open>Data\<close>

record UserUsageSummary =
  su_ActiveCount :: "64 word"
  su_TotalUsedUSD :: "64 word"
  su_Subscriptions :: "string list"

record APIKeyGroup =
  ag_ID :: "64 word"
  ag_Name :: string
  ag_Description :: string
  ag_Platform :: string
  ag_RateMultiplier :: "64 word"
  ag_ClaudeCodeOnly :: bool
  ag_AllowMessagesDispatch :: bool

record userAPIKeyListItem =
  il_ID :: "64 word"
  il_Key :: string
  il_Name :: string
  il_GroupID :: "(64 word) option"
  il_Status :: string
  il_Group :: "APIKeyGroup option"

record UserAPIKey =
  uk_ID :: "64 word"
  uk_Key :: string
  uk_Name :: string
  uk_GroupID :: "(64 word) option"
  uk_Status :: string
  uk_Provider :: string
  uk_Masked :: bool
  uk_SecretAvailable :: bool
  uk_Group :: "APIKeyGroup option"

record userAPIKeyListEnvelope =
  kl_Code :: int
  kl_Message :: string
  kl_Items :: "userAPIKeyListItem list"
  kl_Total :: int
  kl_Page :: int
  kl_PageSize :: int
  kl_Pages :: int

record center_codec =
  decode_summary :: "string \<Rightarrow> UserUsageSummary option"
  decode_progress :: "string \<Rightarrow> string list option"
  decode_groups :: "string \<Rightarrow> APIKeyGroup list option"
  decode_keys :: "string \<Rightarrow> userAPIKeyListEnvelope option"
  decode_data :: "string \<Rightarrow> string option"

datatype center_error =
    CallFailed auth_error | EmptyCode | KeysEndpointNotFound string string | KeysFailed string string

section \<open>Calls\<close>

definition resolveAuthTokenForEndpoint :: "auth_call \<Rightarrow> string \<Rightarrow> auth_world \<Rightarrow> auth_world \<times> (auth_error + string)" where
  "resolveAuthTokenForEndpoint c endpoint w =
     (case GetCurrentUserInfoOrLoad (ac_db c) w of
        (w1, None) \<Rightarrow> (w1, Inl NoSession)
      | (w1, Some current) \<Rightarrow>
          (w1, let token = TrimSpace (ui_AccessToken current) in if token = [] then Inl MissingAccess else Inr token))"

definition callUserCenterAPI :: "auth_call \<Rightarrow> string \<Rightarrow> auth_world \<Rightarrow> auth_world \<times> (auth_error + string)" where
  "callUserCenterAPI c endpoint w =
     (case resolveAuthTokenForEndpoint c endpoint w of
        (w1, Inl e) \<Rightarrow> (w1, Inl e)
      | (w1, Inr authToken) \<Rightarrow> (w1, callAuthenticatedAPI (ac_reply c)))"

text \<open>The steps the calls without a loop share: session, address, request, decoding.\<close>

definition center_get ::
  "(string \<Rightarrow> 'a option) \<Rightarrow> (Config \<Rightarrow> string) \<Rightarrow> auth_call \<Rightarrow> auth_world \<Rightarrow> auth_world \<times> (auth_error + 'a)" where
  "center_get dec getter c w =
     (case resolveAccessToken c w of
        (w1, Inl e) \<Rightarrow> (w1, Inl e)
      | (w1, Inr _) \<Rightarrow>
          (case built_url getter (ac_config c) of Inl e \<Rightarrow> (w1, Inl (UrlFailed e))
           | Inr url \<Rightarrow>
               (case callUserCenterAPI c url w1 of
                  (w2, Inl e) \<Rightarrow> (w2, Inl e)
                | (w2, Inr body) \<Rightarrow> (w2, case dec body of None \<Rightarrow> Inl ParseFailed | Some x \<Rightarrow> Inr x))))"

definition GetUserProfile :: "auth_codec \<Rightarrow> auth_call \<Rightarrow> auth_world \<Rightarrow> auth_world \<times> (auth_error + UserProfile)" where
  "GetUserProfile K c w =
     (case resolveAccessToken c w of
        (w1, Inl e) \<Rightarrow> (w1, Inl e) | (w1, Inr accessToken) \<Rightarrow> GetUserProfileWithToken K c accessToken w1)"

definition GetUserUsageSummary ::
  "center_codec \<Rightarrow> auth_call \<Rightarrow> auth_world \<Rightarrow> auth_world \<times> (auth_error + UserUsageSummary)" where
  "GetUserUsageSummary D c w = center_get (decode_summary D) GetSubscriptionsSummaryURL c w"

definition GetUserUsageProgress ::
  "center_codec \<Rightarrow> auth_call \<Rightarrow> auth_world \<Rightarrow> auth_world \<times> (auth_error + string list)" where
  "GetUserUsageProgress D c w = center_get (decode_progress D) GetSubscriptionsProgressURL c w"

definition RedeemCode :: "center_codec \<Rightarrow> auth_call \<Rightarrow> string \<Rightarrow> auth_world \<Rightarrow> auth_world \<times> (center_error + string)" where
  "RedeemCode D c code w =
     (if TrimSpace code = [] then (w, Inl EmptyCode)
      else case center_get (decode_data D) GetRedeemURL c w of
             (w1, Inl e) \<Rightarrow> (w1, Inl (CallFailed e)) | (w1, Inr d) \<Rightarrow> (w1, Inr d))"

text \<open>The text of an error as far as it matters.\<close>

definition error_text :: "string \<Rightarrow> auth_error \<Rightarrow> string" where
  "error_text endpoint e =
     (case e of BadStatus st body \<Rightarrow> ''api '' @ endpoint @ '' returned status '' @ digits_of st @ '': '' @ body | _ \<Rightarrow> [])"

definition isHTTP404Error :: "string \<Rightarrow> auth_error \<Rightarrow> bool" where
  "isHTTP404Error endpoint e = Contains (ToLower (error_text endpoint e)) ''status 404''"

definition GetAvailableAPIKeyGroups ::
  "center_codec \<Rightarrow> auth_call \<Rightarrow> auth_world \<Rightarrow> auth_world \<times> (auth_error + APIKeyGroup list)" where
  "GetAvailableAPIKeyGroups D c w =
     (case resolveAccessToken c w of
        (w1, Inl e) \<Rightarrow> (w1, Inl e)
      | (w1, Inr _) \<Rightarrow>
          (case built_url GetAvailableGroupsURL (ac_config c) of Inl e \<Rightarrow> (w1, Inl (UrlFailed e))
           | Inr groupsURL \<Rightarrow>
               (case callUserCenterAPI c groupsURL w1 of
                  (w2, Inl e) \<Rightarrow> (w2, if isHTTP404Error groupsURL e then Inr [] else Inl e)
                | (w2, Inr body) \<Rightarrow> (w2, case decode_groups D body of None \<Rightarrow> Inl ParseFailed | Some g \<Rightarrow> Inr g))))"

section \<open>Dashboards\<close>

text \<open>
  \<^verbatim>\<open>url.Parse\<close>, the replacement of path and query and the rendering of the address are one argument.
\<close>

definition getSub2APIURL ::
  "(string \<Rightarrow> string \<Rightarrow> string option) \<Rightarrow> Config option \<Rightarrow> string \<Rightarrow> auth_error + string" where
  "getSub2APIURL render globalCfg path =
     (case globalCfg of None \<Rightarrow> Inl (UrlFailed ConfigNotInitialized)
      | Some cfg \<Rightarrow>
          let baseURL = TrimSpace (APIBaseURL (Some cfg)) in
          if baseURL = [] then Inl (UrlFailed URLNotConfigured)
          else case render baseURL path of None \<Rightarrow> Inl (UrlFailed (InvalidURL baseURL)) | Some u \<Rightarrow> Inr u)"

definition fetchDashboardData ::
  "center_codec \<Rightarrow> (string \<Rightarrow> string \<Rightarrow> string option) \<Rightarrow> auth_call \<Rightarrow> string \<Rightarrow> auth_world \<Rightarrow> auth_world \<times> (auth_error + string)" where
  "fetchDashboardData D render c path w =
     (case getSub2APIURL render (ac_config c) path of Inl e \<Rightarrow> (w, Inl e)
      | Inr endpoint \<Rightarrow>
          (case callUserCenterAPI c endpoint w of
             (w1, Inl e) \<Rightarrow> (w1, Inl e)
           | (w1, Inr body) \<Rightarrow> (w1, case decode_data D body of None \<Rightarrow> Inl ParseFailed | Some d \<Rightarrow> Inr d)))"

definition GetDashboardStats where
  "GetDashboardStats D render c = fetchDashboardData D render c ''/api/v1/usage/dashboard/stats''"

definition GetDashboardTrend where
  "GetDashboardTrend D render c = fetchDashboardData D render c ''/api/v1/usage/dashboard/trend''"

definition GetDashboardModels where
  "GetDashboardModels D render c = fetchDashboardData D render c ''/api/v1/usage/dashboard/models''"

definition GetUsageRecords where
  "GetUsageRecords D render c = fetchDashboardData D render c ''/api/v1/usage''"

definition GetHealthScore where
  "GetHealthScore D render c = fetchDashboardData D render c ''/api/v1/admin/ops/dashboard/snapshot-v2''"

section \<open>API keys\<close>

text \<open>The ellipsis is the three bytes of its encoding.\<close>

definition ellipsis :: string where
  "ellipsis = [CHR 0xE2, CHR 0x80, CHR 0xA6]"

definition looksMaskedAPIKey :: "string \<Rightarrow> bool" where
  "looksMaskedAPIKey v =
     (let trimmed = TrimSpace v in
      trimmed \<noteq> [] \<and> (Contains trimmed ''***'' \<or> Contains trimmed ellipsis \<or> Contains trimmed ''...''))"

definition inferProviderFromAPIKeyMetadata :: "string \<Rightarrow> string \<Rightarrow> string" where
  "inferProviderFromAPIKeyMetadata name key =
     (let combined = ToLower (TrimSpace (name @ '' '' @ key)) in
      if Contains combined ''anthropic'' \<or> Contains combined ''claude'' then ''anthropic''
      else if Contains combined ''openai'' \<or> Contains combined ''gpt'' \<or> Contains combined ''codex'' then ''openai''
      else [])"

definition group_by_id :: "APIKeyGroup list \<Rightarrow> 64 word \<Rightarrow> APIKeyGroup option" where
  "group_by_id groupList = map_of (rev (map (\<lambda>g. (ag_ID g, g)) groupList))"

definition key_of_item :: "(64 word \<Rightarrow> APIKeyGroup option) \<Rightarrow> userAPIKeyListItem \<Rightarrow> UserAPIKey" where
  "key_of_item groupByID item =
     (let group = (case il_Group item of Some g \<Rightarrow> Some g
                   | None \<Rightarrow> (case il_GroupID item of None \<Rightarrow> None | Some i \<Rightarrow> groupByID i));
          keyValue = TrimSpace (il_Key item);
          platform = (case group of None \<Rightarrow> [] | Some g \<Rightarrow> ToLower (TrimSpace (ag_Platform g)));
          provider = (if platform = [] then inferProviderFromAPIKeyMetadata (il_Name item) keyValue else platform)
      in \<lparr>uk_ID = il_ID item, uk_Key = keyValue, uk_Name = TrimSpace (il_Name item), uk_GroupID = il_GroupID item,
          uk_Status = TrimSpace (il_Status item), uk_Provider = provider, uk_Masked = looksMaskedAPIKey keyValue,
          uk_SecretAvailable = (keyValue \<noteq> [] \<and> \<not> looksMaskedAPIKey keyValue), uk_Group = group\<rparr>)"

definition page_endpoint :: "string \<Rightarrow> nat \<Rightarrow> string" where
  "page_endpoint keysURL page =
     keysURL @ ''?page='' @ digits_of page @ ''&page_size=200&timezone=Asia%2FShanghai''"

definition buildAPIKeysEndpointNotFoundError :: "Config option \<Rightarrow> string \<Rightarrow> center_error" where
  "buildAPIKeysEndpointNotFoundError globalCfg endpoint =
     KeysEndpointNotFound (case globalCfg of None \<Rightarrow> [] | Some cfg \<Rightarrow> TrimSpace (APIBaseURL (Some cfg))) endpoint"

definition fetch_keys_page ::
  "center_codec \<Rightarrow> auth_call \<Rightarrow> string \<Rightarrow> auth_world \<Rightarrow> auth_world \<times> (center_error + userAPIKeyListEnvelope)" where
  "fetch_keys_page D c endpoint w =
     (case callUserCenterAPI c endpoint w of
        (w1, Inl e) \<Rightarrow>
          (w1, Inl (if isHTTP404Error endpoint e then buildAPIKeysEndpointNotFoundError (ac_config c) endpoint
                    else CallFailed e))
      | (w1, Inr body) \<Rightarrow>
          (w1, case decode_keys D body of None \<Rightarrow> Inl (CallFailed ParseFailed)
               | Some envelope \<Rightarrow>
                   if kl_Code envelope \<noteq> 0 \<and> TrimSpace (kl_Message envelope) \<noteq> []
                   then Inl (KeysFailed endpoint (TrimSpace (kl_Message envelope))) else Inr envelope))"

definition last_page :: "nat \<Rightarrow> userAPIKeyListEnvelope \<Rightarrow> bool" where
  "last_page page envelope \<longleftrightarrow> kl_Pages envelope \<le> 1 \<or> int page \<ge> kl_Pages envelope \<or> kl_Items envelope = []"

text \<open>\<open>calls\<close> gives the outcomes of the request for each page.\<close>

partial_function (option) keys_loop ::
  "center_codec \<Rightarrow> (nat \<Rightarrow> auth_call) \<Rightarrow> string \<Rightarrow> (64 word \<Rightarrow> APIKeyGroup option) \<Rightarrow> nat \<Rightarrow> UserAPIKey list \<Rightarrow> auth_world
     \<Rightarrow> (auth_world \<times> (center_error + UserAPIKey list)) option" where
  [code]: "keys_loop D calls keysURL groupByID page items w =
     (case fetch_keys_page D (calls page) (page_endpoint keysURL page) w of
        (w1, Inl e) \<Rightarrow> Some (w1, Inl e)
      | (w1, Inr envelope) \<Rightarrow>
          (if last_page page envelope then Some (w1, Inr (items @ map (key_of_item groupByID) (kl_Items envelope)))
           else keys_loop D calls keysURL groupByID (page + 1) (items @ map (key_of_item groupByID) (kl_Items envelope)) w1))"

definition GetUserAPIKeys ::
  "center_codec \<Rightarrow> auth_call \<Rightarrow> (nat \<Rightarrow> auth_call) \<Rightarrow> auth_world \<Rightarrow> (auth_world \<times> (center_error + UserAPIKey list)) option" where
  "GetUserAPIKeys D c calls w =
     (case resolveAccessToken c w of
        (w1, Inl e) \<Rightarrow> Some (w1, Inl (CallFailed e))
      | (w1, Inr _) \<Rightarrow>
          (case built_url GetUserAPIKeysURL (ac_config c) of Inl e \<Rightarrow> Some (w1, Inl (CallFailed (UrlFailed e)))
           | Inr keysURL \<Rightarrow>
               (case GetAvailableAPIKeyGroups D c w1 of
                  (w2, groups) \<Rightarrow>
                    let groupList = (case groups of Inl _ \<Rightarrow> [] | Inr gs \<Rightarrow> gs) in
                    case keys_loop D calls keysURL (group_by_id groupList) 1 [] w2 of
                      None \<Rightarrow> None
                    | Some (w3, Inl e) \<Rightarrow> Some (w3, Inl e)
                    | Some (w3, Inr items) \<Rightarrow>
                        Some (w3, case groups of
                                    Inl groupErr \<Rightarrow> if items = [] then Inl (CallFailed groupErr) else Inr items
                                  | Inr _ \<Rightarrow> Inr items))))"

section \<open>The pages of a session\<close>

text \<open>The answer for a page, and whether the loop ends with it.\<close>

definition page_answer :: "center_codec \<Rightarrow> (nat \<Rightarrow> auth_call) \<Rightarrow> string \<Rightarrow> auth_world \<Rightarrow> nat \<Rightarrow> center_error + userAPIKeyListEnvelope" where
  "page_answer D calls keysURL w n = snd (fetch_keys_page D (calls n) (page_endpoint keysURL n) w)"

definition ends_at :: "center_codec \<Rightarrow> (nat \<Rightarrow> auth_call) \<Rightarrow> string \<Rightarrow> auth_world \<Rightarrow> nat \<Rightarrow> bool" where
  "ends_at D calls keysURL w n = (case page_answer D calls keysURL w n of Inl _ \<Rightarrow> True
     | Inr envelope \<Rightarrow> kl_Items envelope = [] \<or> kl_Pages envelope \<le> 1 \<or> kl_Pages envelope \<le> int n)"

definition page_keys ::
  "center_codec \<Rightarrow> (nat \<Rightarrow> auth_call) \<Rightarrow> string \<Rightarrow> (64 word \<Rightarrow> APIKeyGroup option) \<Rightarrow> auth_world \<Rightarrow> nat \<Rightarrow> UserAPIKey list" where
  "page_keys D calls keysURL g w n =
     (case page_answer D calls keysURL w n of Inl _ \<Rightarrow> [] | Inr envelope \<Rightarrow> map (key_of_item g) (kl_Items envelope))"

lemma session_kept:
  "us_current w \<noteq> None \<Longrightarrow> fst (fetch_keys_page D c e w) = w"
  "us_current w \<noteq> None \<Longrightarrow> fst (resolveAccessToken c w) = w"
  "us_current w \<noteq> None \<Longrightarrow> fst (GetAvailableAPIKeyGroups D c w) = w"
  by (auto simp: fetch_keys_page_def callUserCenterAPI_def resolveAuthTokenForEndpoint_def resolveAccessToken_def
      GetAvailableAPIKeyGroups_def GetCurrentUserInfoOrLoad_def GetCurrentUserInfo_def split: sum.splits)

lemma keys_loop_unfold:
  assumes "us_current w \<noteq> None"
  shows "keys_loop D calls url g n items w =
     (case page_answer D calls url w n of Inl e \<Rightarrow> Some (w, Inl e)
      | Inr _ \<Rightarrow> if ends_at D calls url w n then Some (w, Inr (items @ page_keys D calls url g w n))
                 else keys_loop D calls url g (Suc n) (items @ page_keys D calls url g w n) w)"
proof -
  have "fetch_keys_page D (calls n) (page_endpoint url n) w = (w, page_answer D calls url w n)"
    using session_kept(1) [OF assms, of D "calls n" "page_endpoint url n"] by (metis page_answer_def prod.collapse)
  then show ?thesis
    by (subst keys_loop.simps) (auto simp: ends_at_def last_page_def page_keys_def split: sum.split)
qed

lemma keys_loop_until:
  assumes "us_current w \<noteq> None"
  shows "n \<le> m \<Longrightarrow> (\<And>k. n \<le> k \<Longrightarrow> k < m \<Longrightarrow> \<not> ends_at D calls url w k) \<Longrightarrow> ends_at D calls url w m \<Longrightarrow>
    keys_loop D calls url g n items w =
      Some (w, case page_answer D calls url w m of Inl e \<Rightarrow> Inl e
               | Inr _ \<Rightarrow> Inr (items @ concat (map (page_keys D calls url g w) [n ..< Suc m])))"
proof (induction "m - n" arbitrary: n items)
  case 0
  then have "n = m" by simp
  then show ?case
    using 0 by (subst keys_loop_unfold [OF assms]) (auto split: sum.split)
next
  case (Suc d)
  then have "n < m" "\<not> ends_at D calls url w n" by auto
  then obtain envelope where "page_answer D calls url w n = Inr envelope"
    by (auto simp: ends_at_def split: sum.splits)
  moreover have "[n ..< Suc m] = n # [Suc n ..< Suc m]" using \<open>n < m\<close> by (subst upt_conv_Cons) auto
  moreover have "keys_loop D calls url g (Suc n) (items @ page_keys D calls url g w n) w =
      Some (w, case page_answer D calls url w m of Inl e \<Rightarrow> Inl e
        | Inr _ \<Rightarrow> Inr ((items @ page_keys D calls url g w n) @ concat (map (page_keys D calls url g w) [Suc n ..< Suc m])))"
    using Suc.prems \<open>n < m\<close> Suc.hyps(2) by (intro Suc.hyps(1)) auto
  ultimately show ?case
    using \<open>\<not> ends_at D calls url w n\<close>
    by (subst keys_loop_unfold [OF assms]) (simp only: sum.case if_False concat.simps list.map append_assoc)
qed

lemma keys_loop_ends:
  assumes "keys_loop D calls url g n items w = Some r"
  shows "us_current w \<noteq> None \<longrightarrow> (\<exists>k\<ge>n. ends_at D calls url w k)"
  using _ assms
proof (rule keys_loop.raw_induct)
  fix rec :: "center_codec \<Rightarrow> (nat \<Rightarrow> auth_call) \<Rightarrow> string \<Rightarrow> (64 word \<Rightarrow> APIKeyGroup option) \<Rightarrow> nat \<Rightarrow> UserAPIKey list
      \<Rightarrow> auth_world \<Rightarrow> (auth_world \<times> (center_error + UserAPIKey list)) option" and D calls url g n items w r
  assume IH: "\<And>D calls url g n items w r. rec D calls url g n items w = Some r
      \<Longrightarrow> us_current w \<noteq> None \<longrightarrow> (\<exists>k\<ge>n. ends_at D calls url w k)"
    and body: "(case fetch_keys_page D (calls n) (page_endpoint url n) w of
        (w1, Inl e) \<Rightarrow> Some (w1, Inl e)
      | (w1, Inr envelope) \<Rightarrow>
          (if last_page n envelope then Some (w1, Inr (items @ map (key_of_item g) (kl_Items envelope)))
           else rec D calls url g (n + 1) (items @ map (key_of_item g) (kl_Items envelope)) w1)) = Some r"
  show "us_current w \<noteq> None \<longrightarrow> (\<exists>k\<ge>n. ends_at D calls url w k)"
  proof
    assume cur: "us_current w \<noteq> None"
    have "fetch_keys_page D (calls n) (page_endpoint url n) w = (w, page_answer D calls url w n)"
      using session_kept(1) [OF cur, of D "calls n" "page_endpoint url n"] by (metis page_answer_def prod.collapse)
    then have "ends_at D calls url w n \<or> (\<exists>items'. rec D calls url g (n + 1) items' w = Some r)"
      using body by (auto simp: ends_at_def last_page_def split: sum.splits if_splits)
    then show "\<exists>k\<ge>n. ends_at D calls url w k" using IH cur by (meson add_leD1 order_refl)
  qed
qed

section \<open>Properties\<close>

text \<open>
  C36. All API keys, or the error, or no answer at all. With a session in memory, an address and the list
  of groups, the call for the API keys returns exactly when some page ends the loop, which a page does
  that fails, is empty, or is the last by its own count of pages. It then returns the error of the
  first such page, or the keys of all pages up to it, each once and in order. A server that keeps
  announcing more pages makes it run for ever.
\<close>

theorem api_keys_pages:
  assumes "us_current w = Some u" "has_access u" "built_url GetUserAPIKeysURL (ac_config c) = Inr url"
    and "snd (GetAvailableAPIKeyGroups D c w) = Inr groups"
  shows "(GetUserAPIKeys D c calls w = None \<longleftrightarrow> (\<nexists>n. 1 \<le> n \<and> ends_at D calls url w n))
    \<and> (\<forall>n. 1 \<le> n \<and> ends_at D calls url w n \<and> (\<forall>m. 1 \<le> m \<and> m < n \<longrightarrow> \<not> ends_at D calls url w m) \<longrightarrow>
        GetUserAPIKeys D c calls w =
          Some (w, case page_answer D calls url w n of Inl e \<Rightarrow> Inl e
                   | Inr _ \<Rightarrow> Inr (concat (map (page_keys D calls url (group_by_id groups) w) [1 ..< Suc n]))))"
proof -
  let ?loop = "keys_loop D calls url (group_by_id groups) 1 [] w"
  have cur: "us_current w \<noteq> None" using assms(1) by simp
  have "resolveAccessToken c w = (w, Inr (TrimSpace (ui_AccessToken u)))"
    using assms(1,2) by (simp add: resolveAccessToken_def GetCurrentUserInfoOrLoad_def GetCurrentUserInfo_def has_access_def Let_def)
  moreover have "GetAvailableAPIKeyGroups D c w = (w, Inr groups)"
    using session_kept(3) [OF cur] assms(4) by (metis prod.collapse)
  ultimately have eq: "GetUserAPIKeys D c calls w = ?loop"
    using assms(3) by (auto simp: GetUserAPIKeys_def Let_def split: option.splits sum.splits)
  have least: "?loop \<noteq> None" if "1 \<le> n" "ends_at D calls url w n" for n
  proof -
    define P where "P k \<longleftrightarrow> 1 \<le> k \<and> ends_at D calls url w k" for k
    define k where "k = (LEAST k. P k)"
    have "P n" using that by (simp add: P_def)
    then have "P k" unfolding k_def by (rule LeastI)
    then have k: "1 \<le> k" "ends_at D calls url w k" by (auto simp: P_def)
    have "\<not> ends_at D calls url w m" if "1 \<le> m" "m < k" for m
      using not_less_Least [of m P] that by (simp add: k_def P_def)
    from keys_loop_until [OF cur k(1) this k(2)] show ?thesis by blast
  qed
  then have "?loop = None \<longleftrightarrow> (\<nexists>n. 1 \<le> n \<and> ends_at D calls url w n)"
    using keys_loop_ends [of D calls url "group_by_id groups" 1 "[]" w] cur by (cases ?loop) auto
  moreover have "?loop = Some (w, case page_answer D calls url w n of Inl e \<Rightarrow> Inl e
        | Inr _ \<Rightarrow> Inr ([] @ concat (map (page_keys D calls url (group_by_id groups) w) [1 ..< Suc n])))"
    if "1 \<le> n" "ends_at D calls url w n" "\<forall>m. 1 \<le> m \<and> m < n \<longrightarrow> \<not> ends_at D calls url w m" for n
    by (rule keys_loop_until [OF cur]) (use that in auto)
  ultimately show ?thesis unfolding eq append.left_neutral by blast
qed

definition sample_item :: "string \<Rightarrow> userAPIKeyListItem" where
  "sample_item key = \<lparr>il_ID = 1, il_Key = key, il_Name = ''Claude key'', il_GroupID = None, il_Status = ''active'', il_Group = None\<rparr>"

definition sample_center :: center_codec where
  "sample_center = \<lparr>decode_summary = (\<lambda>_. None), decode_progress = (\<lambda>_. None), decode_groups = (\<lambda>_. Some []),
     decode_keys = (\<lambda>b. Some \<lparr>kl_Code = 0, kl_Message = [], kl_Items = [sample_item (''sk-'' @ b)], kl_Total = 2, kl_Page = 1,
                                 kl_PageSize = 200, kl_Pages = 2\<rparr>),
     decode_data = Some\<rparr>"

definition sample_center_world :: auth_world where
  "sample_center_world = (fresh_process None None)\<lparr>us_current :=
     Some (session_of 0 sample_profile \<lparr>te_AccessToken = ''a'', te_RefreshToken = ''r'', te_ExpiresIn = 1, te_TokenType = []\<rparr>)\<rparr>"

definition sample_pages :: "nat \<Rightarrow> auth_call" where
  "sample_pages n = sample_auth_call (if n = 1 then ''one'' else ''two'')"

theorem api_keys_pages_witness:
  "\<exists>ks. GetUserAPIKeys sample_center (sample_auth_call []) sample_pages sample_center_world = Some (sample_center_world, Inr ks)
     \<and> map (\<lambda>k. (uk_Key k, uk_Provider k)) ks = [(''sk-one'', ''anthropic''), (''sk-two'', ''anthropic'')]"
proof -
  let ?url = "''https://api.example/api/v1/keys''" and ?w = sample_center_world
  obtain u where u: "us_current ?w = Some u" "has_access u"
    by (simp add: sample_center_world_def session_of_def has_access_def TrimSpace_def TrimFunc_def trim_left_def trim_right_def is_space_def)
  have url: "built_url GetUserAPIKeysURL (ac_config (sample_auth_call [])) = Inr ?url" by code_simp
  have "snd (GetAvailableAPIKeyGroups sample_center (sample_auth_call []) ?w) = Inr []" by code_simp
  note pages = api_keys_pages [OF u url this, of sample_pages]
  have "ends_at sample_center sample_pages ?url ?w 2" "\<not> ends_at sample_center sample_pages ?url ?w 1" by code_simp+
  then have "\<forall>m. 1 \<le> m \<and> m < 2 \<longrightarrow> \<not> ends_at sample_center sample_pages ?url ?w m"
    by (metis One_nat_def Suc_1 le_antisym less_Suc_eq_le)
  with pages \<open>ends_at sample_center sample_pages ?url ?w 2\<close>
  have "GetUserAPIKeys sample_center (sample_auth_call []) sample_pages ?w =
      Some (?w, case page_answer sample_center sample_pages ?url ?w 2 of Inl e \<Rightarrow> Inl e
        | Inr _ \<Rightarrow> Inr (concat (map (page_keys sample_center sample_pages ?url (group_by_id []) ?w) [1 ..< Suc 2])))"
    by (metis one_le_numeral)
  moreover have "\<not> isl (page_answer sample_center sample_pages ?url ?w 2)" by code_simp
  moreover have "map (\<lambda>k. (uk_Key k, uk_Provider k)) (concat (map (page_keys sample_center sample_pages ?url (group_by_id []) ?w) [1 ..< Suc 2]))
      = [(''sk-one'', ''anthropic''), (''sk-two'', ''anthropic'')]" by code_simp
  ultimately show ?thesis by (auto split: sum.splits)
qed

section \<open>What goes wrong\<close>

text \<open>A server that announces one more page on every page keeps the client asking for ever.\<close>

lemma endless_pages:
  assumes "us_current w \<noteq> None" "\<And>n. page_answer D calls url w n = Inr (envelope n)"
    and "\<And>n. kl_Pages (envelope n) = int n + 2 \<and> kl_Items (envelope n) \<noteq> []"
  shows "keys_loop D calls url g 1 [] w = None"
proof (rule ccontr)
  assume "keys_loop D calls url g 1 [] w \<noteq> None"
  then obtain r where "keys_loop D calls url g 1 [] w = Some r" by blast
  from keys_loop_ends [OF this] assms show False by (auto simp: ends_at_def)
qed

text \<open>A failure of any status whose body mentions status 404 passes for a missing endpoint: no groups, no error.\<close>

lemma error_text_hides_failure:
  "isHTTP404Error ''https://api.example/api/v1/groups/available'' (BadStatus 500 ''upstream: Status 404'')"
  by code_simp

end
