(* ===== verification/Dns_Resolver.thy ===== *)
theory Dns_Resolver
  imports Metadata Config_Types "HOL-Library.AList"
begin

text \<open>
  DNS resolution, \<^verbatim>\<open>src/processor/dns\<close>: the base resolver with its cache (\<^verbatim>\<open>resolver.go\<close>), the hybrid resolver
  (\<^verbatim>\<open>hybrid.go\<close>), the global instance (\<^verbatim>\<open>global.go\<close>) and the resolution of a connection's destination
  (\<^verbatim>\<open>bridge.go\<close>).

  What the resolver of the operating system answers is an argument of each call. A method of an
  embedded structure runs on that structure: \<^verbatim>\<open>lookup\<close> of the base resolver calls the lookup of the base
  resolver, whichever structure embeds it. The lookups through a dialer that the embedding structures
  declare are therefore never reached, and are left out.
\<close>

section \<open>Data\<close>

record DNSConfig =
  dg_Type :: string
  dg_PrimaryDNS :: string
  dg_FallbackDNS :: string
  dg_SystemDNSEnabled :: bool
  dg_Timeout :: duration
  dg_MaxTTL :: duration
  dg_CacheEnabled :: bool
  dg_PreloadEnabled :: bool
  dg_ConcurrentLimit :: int
  dg_RetryCount :: int
  dg_RetryDelay :: duration

definition DefaultDNSConfig :: DNSConfig where
  "DefaultDNSConfig = \<lparr>dg_Type = ''hybrid'', dg_PrimaryDNS = ''8.8.8.8:53'', dg_FallbackDNS = ''223.5.5.5:53'',
     dg_SystemDNSEnabled = True, dg_Timeout = 5 * second, dg_MaxTTL = 300 * second, dg_CacheEnabled = True,
     dg_PreloadEnabled = True, dg_ConcurrentLimit = 10, dg_RetryCount = 2, dg_RetryDelay = second div 2\<rparr>"

definition empty_dns_config :: DNSConfig where
  "empty_dns_config = \<lparr>dg_Type = [], dg_PrimaryDNS = [], dg_FallbackDNS = [], dg_SystemDNSEnabled = False, dg_Timeout = 0,
     dg_MaxTTL = 0, dg_CacheEnabled = False, dg_PreloadEnabled = False, dg_ConcurrentLimit = 0, dg_RetryCount = 0,
     dg_RetryDelay = 0\<rparr>"

datatype dns_error = SystemLookupFailed | NoAddresses string | EmptyDomain | AllResolversFailed string | PreloadFailed string

record cacheEntry =
  ce_ips :: "Addr list"
  ce_expiresAt :: time
  ce_source :: string

record BaseResolver =
  br_config :: DNSConfig
  br_cache :: "(string \<times> cacheEntry) list"
  br_hits :: uint64
  br_miss :: uint64
  br_closed :: bool

record ResolveResult =
  rr_IPs :: "Addr list"
  rr_TTL :: duration
  rr_Source :: string
  rr_Success :: bool
  rr_Error :: "dns_error option"

record PreloadResult =
  pl_Domain :: string
  pl_IP :: "Addr option"
  pl_Success :: bool
  pl_Error :: "dns_error option"

text \<open>One call: the time, and the answer of the system to the query for a name and a family.\<close>

record dns_call =
  dn_now :: time
  dn_answer :: "string \<Rightarrow> bool \<Rightarrow> Addr list option"

section \<open>Addresses\<close>

text \<open>\<^verbatim>\<open>net.ParseIP\<close>: an address without a zone.\<close>

definition ParseIP :: "string \<Rightarrow> Addr option" where
  "ParseIP s = (case ParseAddr s of Some (Addr6 w z) \<Rightarrow> if z = [] then Some (Addr6 w z) else None | a \<Rightarrow> a)"

text \<open>\<^verbatim>\<open>ip.To4() != nil\<close>.\<close>

definition is4 :: "Addr \<Rightarrow> bool" where
  "is4 a = (case Unmap a of Addr4 _ \<Rightarrow> True | _ \<Rightarrow> False)"

definition in_family :: "bool \<Rightarrow> Addr \<Rightarrow> bool" where
  "in_family preferIPv4 a = (if preferIPv4 then is4 a else \<not> is4 a \<and> a \<noteq> AddrZero)"

definition isIPAddress :: "string \<Rightarrow> bool" where
  "isIPAddress s \<longleftrightarrow> ParseIP s \<noteq> None"

section \<open>The base resolver\<close>

definition NewBaseResolver :: "DNSConfig option \<Rightarrow> BaseResolver" where
  "NewBaseResolver config =
     \<lparr>br_config = (case config of None \<Rightarrow> DefaultDNSConfig | Some c \<Rightarrow> c), br_cache = [], br_hits = 0, br_miss = 0,
      br_closed = False\<rparr>"

definition cache_key :: "string \<Rightarrow> bool \<Rightarrow> string" where
  "cache_key domain preferIPv4 = domain @ ''|'' @ (if preferIPv4 then ''true'' else ''false'')"

definition getCached :: "time \<Rightarrow> string \<Rightarrow> BaseResolver \<Rightarrow> cacheEntry option" where
  "getCached now key r =
     (case map_of (br_cache r) key of None \<Rightarrow> None
      | Some entry \<Rightarrow> if now > ce_expiresAt entry then None else Some entry)"

definition setCached :: "time \<Rightarrow> string \<Rightarrow> Addr list \<Rightarrow> duration \<Rightarrow> string \<Rightarrow> BaseResolver \<Rightarrow> BaseResolver" where
  "setCached now key ips ttl source r =
     r\<lparr>br_cache := AList.update key \<lparr>ce_ips = ips, ce_expiresAt = now + ttl, ce_source = source\<rparr> (br_cache r)\<rparr>"

definition performLookup :: "dns_call \<Rightarrow> string \<Rightarrow> bool \<Rightarrow> BaseResolver \<Rightarrow> dns_error + Addr list \<times> duration" where
  "performLookup c domain preferIPv4 r =
     (case dn_answer c domain preferIPv4 of None \<Rightarrow> Inl SystemLookupFailed
      | Some answered \<Rightarrow>
          let ips = filter (in_family preferIPv4) answered
          in if ips = [] then Inl (NoAddresses domain) else Inr (ips, dg_MaxTTL (br_config r)))"

definition Base_lookup :: "dns_call \<Rightarrow> string \<Rightarrow> bool \<Rightarrow> BaseResolver \<Rightarrow> BaseResolver \<times> (dns_error + Addr list)" where
  "Base_lookup c domain0 preferIPv4 r =
     (let domain = lower_trim domain0 in
      case ParseIP domain of Some ip \<Rightarrow> (r, Inr [ip])
      | None \<Rightarrow>
          let enabled = dg_CacheEnabled (br_config r); key = cache_key domain preferIPv4;
              cached = (if enabled then getCached (dn_now c) key r else None)
          in case cached of
               Some entry \<Rightarrow> (r\<lparr>br_hits := br_hits r + 1\<rparr>, Inr (ce_ips entry))
             | None \<Rightarrow>
                 let r1 = (if enabled then r\<lparr>br_miss := br_miss r + 1\<rparr> else r)
                 in case performLookup c domain preferIPv4 r1 of
                      Inl e \<Rightarrow> (r1, Inl e)
                    | Inr (ips, ttl) \<Rightarrow>
                        let life = (if ttl \<le> 0 \<or> ttl > dg_MaxTTL (br_config r) then dg_MaxTTL (br_config r) else ttl)
                        in (if enabled \<and> ips \<noteq> [] then setCached (dn_now c) key ips life ''base'' r1 else r1, Inr ips))"

definition LookupA :: "dns_call \<Rightarrow> string \<Rightarrow> BaseResolver \<Rightarrow> BaseResolver \<times> (dns_error + Addr list)" where
  "LookupA c domain r = Base_lookup c domain True r"

definition LookupAAAA :: "dns_call \<Rightarrow> string \<Rightarrow> BaseResolver \<Rightarrow> BaseResolver \<times> (dns_error + Addr list)" where
  "LookupAAAA c domain r = Base_lookup c domain False r"

definition found :: "BaseResolver \<Rightarrow> Addr list \<Rightarrow> ResolveResult" where
  "found r ips = \<lparr>rr_IPs = ips, rr_TTL = dg_MaxTTL (br_config r), rr_Source = ''unknown'', rr_Success = True, rr_Error = None\<rparr>"

definition Base_ResolveIP :: "dns_call \<Rightarrow> string \<Rightarrow> BaseResolver \<Rightarrow> BaseResolver \<times> ResolveResult" where
  "Base_ResolveIP c domain r =
     (case ParseIP domain of
        Some ip \<Rightarrow> (r, (found r [ip])\<lparr>rr_Source := ''direct''\<rparr>)
      | None \<Rightarrow>
          (case LookupA c domain r of (r1, a) \<Rightarrow>
             if (case a of Inl _ \<Rightarrow> False | Inr ips \<Rightarrow> ips \<noteq> []) then (r1, found r1 (projr a))
             else case LookupAAAA c domain r1 of (r2, b) \<Rightarrow>
                    if (case b of Inl _ \<Rightarrow> False | Inr ips \<Rightarrow> ips \<noteq> []) then (r2, found r2 (projr b))
                    else (r2, \<lparr>rr_IPs = [], rr_TTL = 0, rr_Source = ''unknown'', rr_Success = False,
                               rr_Error = Some (NoAddresses domain)\<rparr>)))"

definition SetTimeout :: "duration \<Rightarrow> BaseResolver \<Rightarrow> BaseResolver" where
  "SetTimeout timeout r = r\<lparr>br_config := (br_config r)\<lparr>dg_Timeout := timeout\<rparr>\<rparr>"

definition Base_ClearCache :: "BaseResolver \<Rightarrow> BaseResolver" where
  "Base_ClearCache r = r\<lparr>br_cache := [], br_hits := 0, br_miss := 0\<rparr>"

definition SetCacheEnabled :: "bool \<Rightarrow> BaseResolver \<Rightarrow> BaseResolver" where
  "SetCacheEnabled enabled r =
     (let r1 = r\<lparr>br_config := (br_config r)\<lparr>dg_CacheEnabled := enabled\<rparr>\<rparr> in if \<not> enabled then Base_ClearCache r1 else r1)"

text \<open>The number of entries, hits, misses, and the average remaining life; the hit rate is a quotient of them.\<close>

definition Base_GetCacheStats :: "time \<Rightarrow> BaseResolver \<Rightarrow> nat \<times> uint64 \<times> uint64 \<times> duration" where
  "Base_GetCacheStats now r =
     (let live = filter (\<lambda>(_, e). ce_expiresAt e > now) (br_cache r);
          totalTTL = sum_list (map (\<lambda>(_, e). ce_expiresAt e - now) live)
      in (length (br_cache r), br_hits r, br_miss r, if live = [] then 0 else totalTTL div int (length live)))"

definition cleanExpiredCache :: "time \<Rightarrow> BaseResolver \<Rightarrow> BaseResolver" where
  "cleanExpiredCache now r = r\<lparr>br_cache := filter (\<lambda>(_, e). \<not> now > ce_expiresAt e) (br_cache r)\<rparr>"

definition Base_Close :: "BaseResolver \<Rightarrow> BaseResolver" where
  "Base_Close r = r\<lparr>br_closed := True\<rparr>"

text \<open>The address a result is used with: the first of IPv4, or the first.\<close>

definition preferred :: "Addr list \<Rightarrow> Addr option" where
  "preferred ips = (case find is4 ips of Some ip \<Rightarrow> Some ip | None \<Rightarrow> (case ips of [] \<Rightarrow> None | ip # _ \<Rightarrow> Some ip))"

definition preload_one :: "dns_call \<Rightarrow> string \<Rightarrow> BaseResolver \<Rightarrow> BaseResolver \<times> PreloadResult" where
  "preload_one c d r =
     (case Base_ResolveIP c d r of (r1, result) \<Rightarrow>
        (r1, if rr_Success result \<and> rr_IPs result \<noteq> []
             then \<lparr>pl_Domain = d, pl_IP = preferred (rr_IPs result), pl_Success = True, pl_Error = None\<rparr>
             else \<lparr>pl_Domain = d, pl_IP = None, pl_Success = False, pl_Error = Some (PreloadFailed d)\<rparr>))"

text \<open>
  The domains are resolved by one goroutine each, at most as many at a time as the limit; the model
  takes them in the order of the list. With a limit of zero every goroutine waits for ever, with a
  negative one making the channel panics.
\<close>

datatype 'a outcome = Returns 'a | Hangs | Panics

fun preload_loop :: "(string \<Rightarrow> dns_call) \<Rightarrow> string list \<Rightarrow> BaseResolver \<Rightarrow> BaseResolver \<times> (string \<times> PreloadResult) list" where
  "preload_loop calls [] r = (r, [])"
| "preload_loop calls (d # ds) r =
     (case preload_one (calls d) d r of (r1, p) \<Rightarrow> (case preload_loop calls ds r1 of (r2, ps) \<Rightarrow> (r2, (d, p) # ps)))"

definition PreloadDomains ::
  "(string \<Rightarrow> dns_call) \<Rightarrow> string list \<Rightarrow> BaseResolver \<Rightarrow> (BaseResolver \<times> (string \<times> PreloadResult) list) outcome" where
  "PreloadDomains calls domains r =
     (let uniqueDomains = remdups (filter (\<lambda>d. d \<noteq> [] \<and> \<not> isIPAddress d) (map lower_trim domains));
          limit = dg_ConcurrentLimit (br_config r)
      in if limit < 0 then Panics
         else if limit = 0 \<and> uniqueDomains \<noteq> [] then Hangs
         else Returns (preload_loop calls uniqueDomains r))"

section \<open>The hybrid resolver\<close>

record 'd PrimaryResolver =
  pr_base :: BaseResolver
  pr_dialer :: "'d option"

definition NewPrimaryResolver :: "DNSConfig \<Rightarrow> 'd option \<Rightarrow> 'd PrimaryResolver" where
  "NewPrimaryResolver config dialer = \<lparr>pr_base = NewBaseResolver (Some config), pr_dialer = dialer\<rparr>"

record 'd HybridResolver =
  hr_base :: BaseResolver
  hr_primary :: "'d PrimaryResolver"
  hr_fallback :: "'d PrimaryResolver option"
  hr_system :: "BaseResolver option"

definition NewHybridResolver :: "DNSConfig \<Rightarrow> 'd option \<Rightarrow> 'd option \<Rightarrow> 'd HybridResolver" where
  "NewHybridResolver config primaryDialer fallbackDialer =
     (let shared = empty_dns_config\<lparr>dg_Timeout := dg_Timeout config, dg_MaxTTL := dg_MaxTTL config,
                                    dg_CacheEnabled := dg_CacheEnabled config\<rparr>
      in \<lparr>hr_base = NewBaseResolver (Some config),
          hr_primary = NewPrimaryResolver (shared\<lparr>dg_Type := ''primary'', dg_PrimaryDNS := dg_PrimaryDNS config\<rparr>) primaryDialer,
          hr_fallback = (if fallbackDialer = None then None
             else Some (NewPrimaryResolver (shared\<lparr>dg_Type := ''primary'', dg_PrimaryDNS := dg_FallbackDNS config\<rparr>) fallbackDialer)),
          hr_system = (if dg_SystemDNSEnabled config then Some (NewBaseResolver (Some (shared\<lparr>dg_Type := ''system''\<rparr>)))
                       else None)\<rparr>)"

definition normalizeDomainForResolution :: "string \<Rightarrow> string" where
  "normalizeDomainForResolution domain =
     (if domain = [] then []
      else let d = lower_trim domain in if HasSuffix d ''.'' then d else d @ ''.'')"

definition failed :: "dns_error \<Rightarrow> ResolveResult" where
  "failed e = \<lparr>rr_IPs = [], rr_TTL = 0, rr_Source = ''none'', rr_Success = False, rr_Error = Some e\<rparr>"

definition answers :: "ResolveResult \<Rightarrow> bool" where
  "answers result \<longleftrightarrow> rr_Success result \<and> rr_IPs result \<noteq> []"

definition ResolveWithFallback ::
  "dns_call \<Rightarrow> dns_call \<Rightarrow> dns_call \<Rightarrow> string \<Rightarrow> 'd HybridResolver \<Rightarrow> 'd HybridResolver \<times> ResolveResult" where
  "ResolveWithFallback c1 c2 c3 domain0 h =
     (let domain = normalizeDomainForResolution domain0 in
      if domain = [] then (h, failed EmptyDomain)
      else case ParseIP domain of
        Some ip \<Rightarrow> (h, (found (hr_base h) [ip])\<lparr>rr_Source := ''direct''\<rparr>)
      | None \<Rightarrow>
          let (b1, res1) = Base_ResolveIP c1 domain (pr_base (hr_primary h));
              h1 = h\<lparr>hr_primary := (hr_primary h)\<lparr>pr_base := b1\<rparr>\<rparr> in
          if answers res1 then (h1, res1\<lparr>rr_Source := ''primary''\<rparr>)
          else
            let (h2, res2) = (case hr_fallback h1 of None \<Rightarrow> (h1, failed EmptyDomain)
                 | Some p \<Rightarrow> (case Base_ResolveIP c2 domain (pr_base p) of (b2, res) \<Rightarrow>
                                (h1\<lparr>hr_fallback := Some (p\<lparr>pr_base := b2\<rparr>)\<rparr>, res))) in
            if answers res2 then (h2, res2\<lparr>rr_Source := ''fallback''\<rparr>)
            else
              let (h3, res3) = (case hr_system h2 of None \<Rightarrow> (h2, failed EmptyDomain)
                   | Some b \<Rightarrow> (case Base_ResolveIP c3 domain b of (b3, res) \<Rightarrow> (h2\<lparr>hr_system := Some b3\<rparr>, res))) in
              if answers res3 then (h3, res3\<lparr>rr_Source := ''system''\<rparr>)
              else (h3, failed (AllResolversFailed domain)))"

definition Hybrid_Close :: "'d HybridResolver \<Rightarrow> 'd HybridResolver" where
  "Hybrid_Close h =
     h\<lparr>hr_primary := (hr_primary h)\<lparr>pr_base := Base_Close (pr_base (hr_primary h))\<rparr>,
       hr_fallback := map_option (\<lambda>p. p\<lparr>pr_base := Base_Close (pr_base p)\<rparr>) (hr_fallback h),
       hr_system := map_option Base_Close (hr_system h), hr_base := Base_Close (hr_base h)\<rparr>"

section \<open>The global resolver and the destination of a connection\<close>

definition InitGlobalResolver ::
  "(string \<Rightarrow> duration option) \<Rightarrow> 'd option \<Rightarrow> 'd option \<Rightarrow> Config \<Rightarrow> 'd HybridResolver option \<Rightarrow> 'd HybridResolver option" where
  "InitGlobalResolver parse primaryProxy fallbackProxy cfg g =
     (let dnsCfg = EffectiveDNSPreResolution cfg in
      if \<not> dns_Enabled dnsCfg then g
      else Some (NewHybridResolver
             (empty_dns_config\<lparr>dg_Type := ''hybrid'', dg_PrimaryDNS := GetPrimaryDNS dnsCfg, dg_FallbackDNS := GetFallbackDNS dnsCfg,
                dg_SystemDNSEnabled := dns_SystemDNSFallback dnsCfg, dg_Timeout := GetTimeout parse dnsCfg,
                dg_MaxTTL := GetMaxCacheTTL parse dnsCfg, dg_CacheEnabled := dns_CacheResults dnsCfg\<rparr>)
             primaryProxy fallbackProxy))"

text \<open>The method a hybrid resolver inherits works on the resolver it embeds.\<close>

definition Hybrid_ResolveIP :: "dns_call \<Rightarrow> string \<Rightarrow> 'd HybridResolver \<Rightarrow> 'd HybridResolver \<times> ResolveResult" where
  "Hybrid_ResolveIP c domain h = (case Base_ResolveIP c domain (hr_base h) of (b, res) \<Rightarrow> (h\<lparr>hr_base := b\<rparr>, res))"

text \<open>\<^verbatim>\<open>netip.AddrFrom4\<close> of the four bytes, or \<^verbatim>\<open>netip.AddrFrom16\<close>.\<close>

definition addr_of_ip :: "Addr \<Rightarrow> Addr" where
  "addr_of_ip ip = (case Unmap ip of Addr4 w \<Rightarrow> Addr4 w | _ \<Rightarrow> (case ip of Addr6 w _ \<Rightarrow> Addr6 w [] | a \<Rightarrow> a))"

definition ResolveMetadataForProxy ::
  "dns_call \<Rightarrow> Metadata \<Rightarrow> 'd HybridResolver option \<Rightarrow> 'd HybridResolver option \<times> Metadata \<times> dns_error option" where
  "ResolveMetadataForProxy c metadata g =
     (case g of None \<Rightarrow> (g, metadata, None)
      | Some resolver \<Rightarrow>
          if IsValid (md_DstIP metadata) then (g, metadata, None)
          else if md_HostName metadata = [] then (g, metadata, None)
          else case Hybrid_ResolveIP c (md_HostName metadata) resolver of (h, result) \<Rightarrow>
                 (Some h,
                  if \<not> rr_Success result then (metadata, rr_Error result)
                  else case preferred (rr_IPs result) of None \<Rightarrow> (metadata, None)
                       | Some selectedIP \<Rightarrow> (metadata\<lparr>md_DstIP := addr_of_ip selectedIP\<rparr>, None)))"

section \<open>Where answers come from\<close>

text \<open>An answer the system gave in a call, cut down to a family.\<close>

definition answered :: "dns_call \<Rightarrow> string \<Rightarrow> bool \<Rightarrow> Addr list \<Rightarrow> bool" where
  "answered c domain preferIPv4 ips =
     (case dn_answer c domain preferIPv4 of None \<Rightarrow> False
      | Some all_ips \<Rightarrow> ips = filter (in_family preferIPv4) all_ips \<and> ips \<noteq> [])"

definition cached_from :: "dns_call set \<Rightarrow> duration \<Rightarrow> string \<Rightarrow> cacheEntry \<Rightarrow> bool" where
  "cached_from C maxTTL key e \<longleftrightarrow>
     (\<exists>c\<in>C. \<exists>domain v4. key = cache_key domain v4 \<and> answered c domain v4 (ce_ips e) \<and> ce_expiresAt e = dn_now c + maxTTL)"

definition cache_ok :: "dns_call set \<Rightarrow> BaseResolver \<Rightarrow> bool" where
  "cache_ok C r \<longleftrightarrow> (\<forall>(k, e)\<in>set (br_cache r). cached_from C (dg_MaxTTL (br_config r)) k e)"

lemma cache_key_inj: "cache_key d v = cache_key d' v' \<longleftrightarrow> d = d' \<and> v = v'"
proof
  assume eq: "cache_key d v = cache_key d' v'"
  then have "rev (cache_key d v) = rev (cache_key d' v')" by simp
  then show "d = d' \<and> v = v'" by (cases v; cases v') (simp_all add: cache_key_def)
qed simp

lemma cached_from_mono: "cached_from C m k e \<Longrightarrow> C \<subseteq> C' \<Longrightarrow> cached_from C' m k e"
  by (auto simp: cached_from_def)

lemma cache_ok_mono: "cache_ok C r \<Longrightarrow> C \<subseteq> C' \<Longrightarrow> cache_ok C' r"
  by (auto simp: cache_ok_def intro: cached_from_mono)

lemma cache_ok_insert: "cache_ok C r \<Longrightarrow> cache_ok (insert c C) r"
  by (rule cache_ok_mono) blast+

lemma set_update: "(k, e) \<in> set (AList.update a b xs) \<Longrightarrow> (k = a \<and> e = b) \<or> (k, e) \<in> set xs"
  by (induction xs) (auto split: if_splits)

lemma hit_from:
  assumes "getCached now (cache_key d v) r = Some e" "cache_ok C r"
  shows "\<exists>c'\<in>C. answered c' d v (ce_ips e) \<and> now - dn_now c' \<le> dg_MaxTTL (br_config r)"
proof -
  have e: "map_of (br_cache r) (cache_key d v) = Some e" "\<not> now > ce_expiresAt e"
    using assms(1) by (auto simp: getCached_def split: if_splits option.splits)
  then have "cached_from C (dg_MaxTTL (br_config r)) (cache_key d v) e"
    using assms(2) by (auto simp: cache_ok_def dest: map_of_SomeD)
  then show ?thesis using e(2) by (fastforce simp: cached_from_def cache_key_inj)
qed

lemma store_ok:
  assumes "cache_ok C r" "answered c d v ips" "m = dg_MaxTTL (br_config r)"
  shows "cache_ok (insert c C) (setCached (dn_now c) (cache_key d v) ips m src r)"
proof -
  have "cached_from (insert c C) m (cache_key d v) \<lparr>ce_ips = ips, ce_expiresAt = dn_now c + m, ce_source = src\<rparr>"
    using assms(2) by (auto simp: cached_from_def)
  then show ?thesis
    using cache_ok_insert [OF assms(1)] assms(3)
    by (auto simp: cache_ok_def setCached_def dest!: set_update)
qed

definition came_from :: "dns_call set \<Rightarrow> dns_call \<Rightarrow> duration \<Rightarrow> string \<Rightarrow> bool \<Rightarrow> Addr list \<Rightarrow> bool" where
  "came_from C c maxTTL d v ips \<longleftrightarrow>
     answered c d v ips \<or> (\<exists>c'\<in>C. answered c' d v ips \<and> dn_now c - dn_now c' \<le> maxTTL)"

lemma lookup_cases:
  assumes "Base_lookup c d v r = (r', a)" "cache_ok C r"
  shows "cache_ok (insert c C) r' \<and> dg_MaxTTL (br_config r') = dg_MaxTTL (br_config r)
    \<and> (ParseIP (lower_trim d) = None \<longrightarrow> \<not> isl a \<longrightarrow>
        came_from C c (dg_MaxTTL (br_config r)) (lower_trim d) v (projr a) \<and> projr a \<noteq> [])"
proof (cases "ParseIP (lower_trim d)")
  case (Some ip)
  then show ?thesis using assms cache_ok_insert by (auto simp: Base_lookup_def)
next
  case None
  let ?d = "lower_trim d" and ?on = "dg_CacheEnabled (br_config r)"
  let ?r1 = "if ?on then r\<lparr>br_miss := br_miss r + 1\<rparr> else r"
  have r1: "cache_ok C ?r1" "br_config ?r1 = br_config r" using assms(2) by (simp_all add: cache_ok_def)
  consider e where "?on" "getCached (dn_now c) (cache_key ?d v) r = Some e"
    | e where "(if ?on then getCached (dn_now c) (cache_key ?d v) r else None) = None" "performLookup c ?d v ?r1 = Inl e"
    | ips ttl where "(if ?on then getCached (dn_now c) (cache_key ?d v) r else None) = None" "performLookup c ?d v ?r1 = Inr (ips, ttl)"
    by (cases "performLookup c ?d v ?r1"; cases "if ?on then getCached (dn_now c) (cache_key ?d v) r else None")
      (auto split: if_splits)
  then show ?thesis
  proof cases
    case 1
    then have "r' = r\<lparr>br_hits := br_hits r + 1\<rparr>" "a = Inr (ce_ips e)" using assms(1) None by (simp_all add: Base_lookup_def Let_def)
    moreover have "answered c' ?d v (ce_ips e) \<Longrightarrow> ce_ips e \<noteq> []" for c' by (auto simp: answered_def split: option.splits)
    ultimately show ?thesis
      using hit_from [OF 1(2) assms(2)] cache_ok_insert [OF assms(2)] by (auto simp: cache_ok_def came_from_def)
  next
    case 2
    then have "r' = ?r1" "a = Inl e" using assms(1) None by (simp_all add: Base_lookup_def Let_def)
    then show ?thesis using r1 cache_ok_insert [OF r1(1)] by auto
  next
    case 3
    then have p: "answered c ?d v ips" "ttl = dg_MaxTTL (br_config r)" "ips \<noteq> []"
      by (auto simp: performLookup_def answered_def r1 Let_def split: option.splits if_splits)
    have "r' = (if ?on then setCached (dn_now c) (cache_key ?d v) ips (dg_MaxTTL (br_config r)) ''base'' ?r1 else ?r1)" "a = Inr ips"
      using assms(1) None 3 p by (auto simp: Base_lookup_def Let_def)
    then show ?thesis
      using store_ok [OF r1(1) p(1), of "dg_MaxTTL (br_config r)" "''base''"] cache_ok_insert [OF r1(1)] p r1(2)
      by (auto simp: setCached_def came_from_def)
  qed
qed

lemma resolve_cases:
  assumes "Base_ResolveIP c d r = (r', res)" "cache_ok C r"
  shows "cache_ok (insert c C) r' \<and> dg_MaxTTL (br_config r') = dg_MaxTTL (br_config r)
    \<and> (ParseIP d = None \<longrightarrow> ParseIP (lower_trim d) = None \<longrightarrow> rr_Success res \<longrightarrow>
        (\<exists>v. came_from C c (dg_MaxTTL (br_config r)) (lower_trim d) v (rr_IPs res)))"
proof -
  obtain r1 x where 1: "LookupA c d r = (r1, x)" by force
  obtain r2 y where 2: "LookupAAAA c d r1 = (r2, y)" by force
  note one = lookup_cases [OF 1 [unfolded LookupA_def] assms(2)]
  note two = lookup_cases [OF 2 [unfolded LookupAAAA_def] conjunct1 [OF one]]
  have "came_from (insert c C) c m e v ips \<Longrightarrow> came_from C c m e v ips" for m e v ips by (auto simp: came_from_def)
  then show ?thesis
    using assms 1 2 one two cache_ok_insert [OF assms(2)]
    by (auto simp: Base_ResolveIP_def found_def split: option.splits sum.splits if_splits) blast+
qed

section \<open>Histories\<close>

datatype dns_op =
    OpLookup dns_call string bool | OpResolveIP dns_call string | OpClean time | OpClear | OpCache bool | OpTimeout duration

fun dns_step :: "dns_op \<Rightarrow> BaseResolver \<Rightarrow> BaseResolver" where
  "dns_step (OpLookup c d v) r = fst (Base_lookup c d v r)"
| "dns_step (OpResolveIP c d) r = fst (Base_ResolveIP c d r)"
| "dns_step (OpClean now) r = cleanExpiredCache now r"
| "dns_step OpClear r = Base_ClearCache r"
| "dns_step (OpCache b) r = SetCacheEnabled b r"
| "dns_step (OpTimeout t) r = SetTimeout t r"

fun calls_of :: "dns_op \<Rightarrow> dns_call list" where
  "calls_of (OpLookup c d v) = [c]"
| "calls_of (OpResolveIP c d) = [c]"
| "calls_of _ = []"

lemma dns_step_ok:
  assumes "cache_ok C r"
  shows "cache_ok (set (calls_of op) \<union> C) (dns_step op r) \<and> dg_MaxTTL (br_config (dns_step op r)) = dg_MaxTTL (br_config r)"
proof (cases op)
  case (OpLookup c d v)
  then show ?thesis using lookup_cases [OF prod.collapse [symmetric] assms] by auto
next
  case (OpResolveIP c d)
  then show ?thesis using resolve_cases [OF prod.collapse [symmetric] assms] by auto
qed (use assms in \<open>auto simp: cache_ok_def cleanExpiredCache_def Base_ClearCache_def SetCacheEnabled_def SetTimeout_def Let_def\<close>)

lemma dns_run_ok:
  "cache_ok C r \<Longrightarrow> cache_ok (set (concat (map calls_of ops)) \<union> C) (fold dns_step ops r)
     \<and> dg_MaxTTL (br_config (fold dns_step ops r)) = dg_MaxTTL (br_config r)"
proof (induction ops arbitrary: C r)
  case (Cons op ops)
  then show ?case using Cons.IH [OF conjunct1 [OF dns_step_ok [OF Cons.prems, of op]]] dns_step_ok [OF Cons.prems, of op]
    by (simp add: Un_ac)
qed simp

section \<open>Properties\<close>

text \<open>
  C39. Resolved addresses are answers, and not stale ones. After any sequence of lookups, resolutions,
  cleanups and changes of the settings, what a resolver returns for a name is what the system answered
  to a query for that name, lower-cased and trimmed, cut down to one family and not empty: an answer
  of this very call, or of an earlier one not older than the configured maximal life.
\<close>

theorem dns_answers_fresh:
  assumes "fold dns_step ops (NewBaseResolver (Some cfg)) = r" "Base_ResolveIP c d r = (r', res)" "rr_Success res"
    and "ParseIP d = None" "ParseIP (lower_trim d) = None"
  shows "\<exists>c' v. answered c' (lower_trim d) v (rr_IPs res)
    \<and> (c' = c \<or> c' \<in> set (concat (map calls_of ops)) \<and> dn_now c - dn_now c' \<le> dg_MaxTTL cfg)"
proof -
  have "cache_ok {} (NewBaseResolver (Some cfg))" by (simp add: cache_ok_def NewBaseResolver_def)
  from dns_run_ok [OF this, of ops] have "cache_ok (set (concat (map calls_of ops))) r" "dg_MaxTTL (br_config r) = dg_MaxTTL cfg"
    using assms(1) by (auto simp: NewBaseResolver_def)
  then show ?thesis using resolve_cases [OF assms(2)] assms(3-5) by (fastforce simp: came_from_def)
qed

definition sample_dns :: "time \<Rightarrow> Addr list \<Rightarrow> dns_call" where
  "sample_dns now ips = \<lparr>dn_now = now, dn_answer = (\<lambda>d v. if d = ''ai.example'' \<and> v then Some ips else None)\<rparr>"

theorem dns_answers_fresh_witness:
  "\<exists>c' v. answered c' ''ai.example'' v [Addr4 1]
    \<and> (c' = sample_dns 9 [Addr4 2] \<or> c' \<in> set (concat (map calls_of [OpLookup (sample_dns 5 [Addr4 1]) '' AI.example'' True]))
        \<and> 9 - dn_now c' \<le> dg_MaxTTL DefaultDNSConfig)"
proof -
  let ?ops = "[OpLookup (sample_dns 5 [Addr4 1]) '' AI.example'' True]"
  let ?r = "fold dns_step ?ops (NewBaseResolver (Some DefaultDNSConfig))"
  let ?c = "sample_dns 9 [Addr4 2]"
  have low: "lower_trim ''ai.example'' = ''ai.example''" by code_simp
  have res: "rr_Success (snd (Base_ResolveIP ?c ''ai.example'' ?r))" "rr_IPs (snd (Base_ResolveIP ?c ''ai.example'' ?r)) = [Addr4 1]"
    by code_simp+
  have "ParseIP ''ai.example'' = None" by code_simp
  with dns_answers_fresh [OF refl prod.collapse [symmetric] res(1)] low
  have "\<exists>c' v. answered c' ''ai.example'' v [Addr4 1]
    \<and> (c' = ?c \<or> c' \<in> set (concat (map calls_of ?ops)) \<and> dn_now ?c - dn_now c' \<le> dg_MaxTTL DefaultDNSConfig)"
    unfolding res(2) by metis
  moreover have "dn_now ?c = 9" by (simp add: sample_dns_def)
  ultimately show ?thesis by simp
qed

section \<open>The destination of a connection\<close>

text \<open>Only a destination that is missing is filled in, from an address of the result, and nothing else changes.\<close>

lemma resolved_metadata:
  assumes "ResolveMetadataForProxy c m (Some h) = (g', m', e)"
  shows "m' = m \<or> (\<exists>ip\<in>set (rr_IPs (snd (Hybrid_ResolveIP c (md_HostName m) h))).
      m' = m\<lparr>md_DstIP := addr_of_ip ip\<rparr> \<and> \<not> IsValid (md_DstIP m) \<and> e = None)"
proof -
  have "ip \<in> set ips" if "preferred ips = Some ip" for ips ip
    using that by (auto simp: preferred_def find_Some_iff split: option.splits list.splits)
  then show ?thesis using assms by (auto simp: ResolveMetadataForProxy_def split: if_splits prod.splits option.splits)
qed

section \<open>What goes wrong\<close>

text \<open>
  No lookup goes through a dialer: the results are the same whatever dialers the resolver was made
  with, so every name is resolved by the system.
\<close>

lemma dialers_never_used:
  assumes "(f = None) = (f' = None)"
  shows "snd (ResolveWithFallback c1 c2 c3 d (NewHybridResolver cfg p f)) = snd (ResolveWithFallback c1 c2 c3 d (NewHybridResolver cfg p' f'))"
  using assms
  by (cases f; cases f'; cases "ParseIP (normalizeDomainForResolution d)"; cases "dg_SystemDNSEnabled cfg")
    (simp_all add: ResolveWithFallback_def NewHybridResolver_def NewPrimaryResolver_def Let_def case_prod_beta)

text \<open>The dot appended to every name hides an address: it is looked up as a name.\<close>

lemma unanswered:
  assumes "dn_answer c = (\<lambda>_ _. None)" "br_cache r = []" "ParseIP d = None" "ParseIP (lower_trim d) = None"
  shows "\<not> rr_Success (snd (Base_ResolveIP c d r))"
  using assms
  by (simp add: Base_ResolveIP_def LookupA_def LookupAAAA_def Base_lookup_def performLookup_def getCached_def Let_def)

lemma literal_not_recognised:
  assumes "dn_answer c = (\<lambda>_ _. None)"
  shows "ParseIP ''192.0.2.1'' \<noteq> None \<and> rr_Error (snd (ResolveWithFallback c c c ''192.0.2.1'' (NewHybridResolver cfg p f)))
     = Some (AllResolversFailed ''192.0.2.1.'')"
proof -
  have "ParseIP ''192.0.2.1'' \<noteq> None"
    by (simp add: ParseIP_def ParseAddr_def parseIPv4_def parse_octet_def all_digits_def is_digit_def)
  moreover have "normalizeDomainForResolution ''192.0.2.1'' = ''192.0.2.1.''" "lower_trim ''192.0.2.1.'' = ''192.0.2.1.''"
    by code_simp+
  moreover have "ParseIP ''192.0.2.1.'' = None" by (simp add: ParseIP_def ParseAddr_def parseIPv4_def)
  ultimately have lit: "ParseIP ''192.0.2.1'' \<noteq> None" "normalizeDomainForResolution ''192.0.2.1'' = ''192.0.2.1.''"
    "ParseIP ''192.0.2.1.'' = None" "lower_trim ''192.0.2.1.'' = ''192.0.2.1.''" by blast+
  have "\<not> answers (snd (Base_ResolveIP c ''192.0.2.1.'' r))" if "br_cache r = []" for r
    using unanswered [OF assms that] lit by (simp add: answers_def)
  moreover have "\<not> answers (failed e)" "br_cache (NewBaseResolver q) = []" for e q
    by (simp_all add: failed_def answers_def NewBaseResolver_def)
  ultimately have "snd (ResolveWithFallback c c c ''192.0.2.1'' (NewHybridResolver cfg p f)) = failed (AllResolversFailed ''192.0.2.1.'')"
    using lit
    by (cases f; cases "dg_SystemDNSEnabled cfg")
      (simp_all add: ResolveWithFallback_def NewHybridResolver_def NewPrimaryResolver_def Let_def case_prod_beta)
  then show ?thesis using lit by (simp add: failed_def)
qed

text \<open>A resolver made from the configuration has no limit set, and preloading with it never returns.\<close>

lemma preload_hangs:
  assumes "InitGlobalResolver parse p f cfg None = Some h" "d \<in> set domains" "lower_trim d \<noteq> []" "\<not> isIPAddress (lower_trim d)"
  shows "PreloadDomains calls domains (hr_base h) = Hangs"
proof -
  have "dg_ConcurrentLimit (br_config (hr_base h)) = 0"
    using assms(1) by (auto simp: InitGlobalResolver_def NewHybridResolver_def NewBaseResolver_def empty_dns_config_def Let_def split: if_splits)
  moreover have "filter (\<lambda>d. d \<noteq> [] \<and> \<not> isIPAddress d) (map lower_trim domains) \<noteq> []"
    using assms(2-4) by (auto simp: filter_empty_conv)
  ultimately show ?thesis by (simp add: PreloadDomains_def Let_def)
qed

end
