(* ===== verification/Effective_Config.thy ===== *)
theory Effective_Config
  imports Config_Store Config_Types
begin

text \<open>
  Changing the configuration at run time: \<^verbatim>\<open>src/app/http/services/customer_config_service.go\<close> and
  \<^verbatim>\<open>core_config_service.go\<close>, with \<^verbatim>\<open>SaveConfigToFile\<close> of \<^verbatim>\<open>src/processor/config/global.go\<close>. A payload is merged
  into the current configuration, validated, and committed through the coordinator of \<open>Apply_Store\<close>,
  which these services share with the one of \<open>Config_Store\<close>.

  JSON is a tree. Parsing and printing it, and reading a configuration from a tree or writing it to
  one, are arguments. The database and the files are those of \<open>Config_Store\<close>; the global configuration
  is set inside the database callback and is part of the world the callbacks act on.
\<close>

section \<open>JSON objects\<close>

datatype jtree = JNil | JScalar string | JArray "jtree list" | JMap "(string \<times> jtree) list"

text \<open>
  \<^verbatim>\<open>deepMergeJSONObjects\<close>; values are copied, which changes nothing here. A null in the patch is skipped.
\<close>

fun deepMergeJSONObjects :: "(string \<times> jtree) list \<Rightarrow> (string \<times> jtree) list \<Rightarrow> (string \<times> jtree) list" and
    merge_value :: "jtree option \<Rightarrow> jtree \<Rightarrow> jtree" where
  "deepMergeJSONObjects base [] = base"
| "deepMergeJSONObjects base ((key, v) # patch) =
     deepMergeJSONObjects (if v = JNil then base else AList.update key (merge_value (map_of base key) v) base) patch"
| "merge_value (Some (JMap base)) (JMap patch) = JMap (deepMergeJSONObjects base patch)"
| "merge_value _ v = v"

text \<open>What a JSON value gives as a map: null gives an empty one.\<close>

definition as_map :: "jtree \<Rightarrow> (string \<times> jtree) list option" where
  "as_map j = (case j of JMap m \<Rightarrow> Some m | JNil \<Rightarrow> Some [] | _ \<Rightarrow> None)"

record config_json =
  cx_parse :: "string \<Rightarrow> jtree option"
  cx_print :: "jtree \<Rightarrow> string"
  cx_indent :: "jtree \<Rightarrow> string"
  cx_decode :: "jtree \<Rightarrow> Config option"
  cx_encode :: "Config \<Rightarrow> jtree"

definition read_config :: "config_json \<Rightarrow> string \<Rightarrow> Config option" where
  "read_config J content = (case cx_parse J content of None \<Rightarrow> None | Some j \<Rightarrow> cx_decode J j)"

definition marshal_config :: "config_json \<Rightarrow> Config \<Rightarrow> string" where
  "marshal_config J cfg = cx_print J (cx_encode J cfg)"

section \<open>State\<close>

type_synonym effective_world = "Config option \<times> config_world"

record effective_state =
  ef_world :: effective_world
  ef_coordinator :: EffectiveConfigCommitCoordinator

record effective_call =
  el_call :: config_call
  el_uuid :: string
  el_env :: environment
  el_readable :: "string \<Rightarrow> bool"
  el_duration :: "string \<Rightarrow> duration option"

datatype effective_error =
    BodyEmpty | NotInitialized | InvalidJSON | PayloadRequired | KeyForbidden string | SectionNotObject
  | ConfigNotDecoded | ConfigInvalid Config_Types.config_error | ConfigCommitFailed commit_error | ContentNotDecoded
  | PathNotResolved | FileNotRead

definition customerConfigFilePath :: string where
  "customerConfigFilePath = ''~/.aliang/config.json''"

definition coreConfigFilePath :: string where
  "coreConfigFilePath = ''./config.json''"

section \<open>Payloads\<close>

definition validateEditableCustomerKeys :: "(string \<times> jtree) list \<Rightarrow> string option" where
  "validateEditableCustomerKeys rawRoot = find (\<lambda>k. k \<notin> {''proxy'', ''ai_rules'', ''proxy_rules''}) (map fst rawRoot)"

definition normalizeCustomerPayload :: "config_json \<Rightarrow> string \<Rightarrow> effective_error + (string \<times> jtree) list" where
  "normalizeCustomerPayload J payload =
     (case Option.bind (cx_parse J payload) as_map of None \<Rightarrow> Inl InvalidJSON
      | Some rawRoot \<Rightarrow>
          if rawRoot = [] then Inl PayloadRequired
          else case map_of rawRoot ''customer'' of
            Some rawCustomer \<Rightarrow>
              (case sort (filter (\<lambda>k. k \<noteq> ''customer'') (map fst rawRoot)) of
                 k # _ \<Rightarrow> Inl (KeyForbidden k)
               | [] \<Rightarrow> (case as_map rawCustomer of None \<Rightarrow> Inl SectionNotObject | Some m \<Rightarrow> Inr m))
          | None \<Rightarrow>
              (case validateEditableCustomerKeys rawRoot of Some k \<Rightarrow> Inl (KeyForbidden k) | None \<Rightarrow> Inr rawRoot))"

text \<open>The section is merged into the one of the current configuration; the rest of it is kept.\<close>

definition mergeCustomerPayload :: "config_json \<Rightarrow> Config option \<Rightarrow> string \<Rightarrow> effective_error + jtree \<times> Config" where
  "mergeCustomerPayload J baseCfg payload =
     (case baseCfg of None \<Rightarrow> Inl NotInitialized
      | Some cfg \<Rightarrow>
          (case normalizeCustomerPayload J payload of Inl e \<Rightarrow> Inl e
           | Inr customerPatch \<Rightarrow>
               (case as_map (cx_encode J cfg) of None \<Rightarrow> Inl ContentNotDecoded
                | Some root \<Rightarrow>
                    (case (case map_of root ''customer'' of None \<Rightarrow> Some [] | Some raw \<Rightarrow> as_map raw) of
                       None \<Rightarrow> Inl ContentNotDecoded
                     | Some currentCustomer \<Rightarrow>
                         let merged = JMap (AList.update ''customer'' (JMap (deepMergeJSONObjects currentCustomer customerPatch)) root)
                         in case cx_decode J merged of None \<Rightarrow> Inl ConfigNotDecoded | Some nextCfg \<Rightarrow> Inr (merged, nextCfg)))))"

definition normalizeCorePayload :: "config_json \<Rightarrow> string \<Rightarrow> effective_error + jtree" where
  "normalizeCorePayload J payload =
     (case Option.bind (cx_parse J payload) as_map of None \<Rightarrow> Inl InvalidJSON
      | Some rawRoot \<Rightarrow>
          if rawRoot = [] then Inl PayloadRequired
          else case map_of rawRoot ''core'' of
            Some rawCore \<Rightarrow>
              (case filter (\<lambda>k. k \<noteq> ''core'') (map fst rawRoot) of k # _ \<Rightarrow> Inl (KeyForbidden k) | [] \<Rightarrow> Inr rawCore)
          | None \<Rightarrow>
              (case find (\<lambda>k. k \<notin> {''engine'', ''aliangServer'', ''api_server''}) (map fst rawRoot) of
                 Some k \<Rightarrow> Inl (KeyForbidden k) | None \<Rightarrow> Inr (JMap rawRoot)))"

definition mergeCorePayload :: "config_json \<Rightarrow> Config option \<Rightarrow> string \<Rightarrow> effective_error + jtree \<times> Config" where
  "mergeCorePayload J baseCfg payload =
     (case baseCfg of None \<Rightarrow> Inl NotInitialized
      | Some cfg \<Rightarrow>
          (case normalizeCorePayload J payload of Inl e \<Rightarrow> Inl e
           | Inr coreRaw \<Rightarrow>
               (case as_map (cx_encode J cfg) of None \<Rightarrow> Inl ContentNotDecoded
                | Some root \<Rightarrow>
                    let merged = JMap (AList.update ''core'' coreRaw root)
                    in case cx_decode J merged of None \<Rightarrow> Inl ConfigNotDecoded | Some nextCfg \<Rightarrow> Inr (merged, nextCfg))))"

text \<open>The section of a configuration as it is shown; anything that is no object counts as empty.\<close>

definition extract_section :: "config_json \<Rightarrow> string \<Rightarrow> string \<Rightarrow> effective_error + (string \<times> jtree) list" where
  "extract_section J section_key content =
     (if TrimSpace content = [] then Inr []
      else case Option.bind (cx_parse J content) as_map of None \<Rightarrow> Inl ContentNotDecoded
           | Some root \<Rightarrow> Inr (case map_of root section_key of Some (JMap m) \<Rightarrow> m | _ \<Rightarrow> []))"

section \<open>Committing\<close>

definition SaveConfigToFile :: "config_json \<Rightarrow> config_call \<Rightarrow> Config \<Rightarrow> string \<Rightarrow> config_world \<Rightarrow> config_world \<times> bool" where
  "SaveConfigToFile J C cfg filePath w = writeConfigFile C filePath (cx_indent J (cx_encode J cfg)) w"

definition file_callback :: "config_json \<Rightarrow> effective_call \<Rightarrow> effective_world persist" where
  "file_callback J E x gw =
     (case gw of (g, w) \<Rightarrow>
        (case read_config J (ec_Content x) of None \<Rightarrow> (gw, False)
         | Some fileCfg \<Rightarrow>
             (case resolveServiceConfigPath (el_env E) (ec_FilePath x) of None \<Rightarrow> (gw, False)
              | Some path \<Rightarrow> (case SaveConfigToFile J (el_call E) fileCfg path w of (w1, ok) \<Rightarrow> ((g, w1), ok)))))"

definition db_callback :: "config_json \<Rightarrow> effective_call \<Rightarrow> effective_world persist" where
  "db_callback J E x gw =
     (case gw of (g, w) \<Rightarrow>
        (case SaveEffectiveConfigSnapshot (el_call E)
               \<lparr>es_Software = ec_Software x, es_ConfigUUID = ec_UUID x, es_ConfigName = ec_Name x,
                es_ConfigFilePath = ec_FilePath x, es_ConfigVersion = ec_Version x, es_ConfigFormat = ec_Format x,
                es_SnapshotJSON = ec_Content x\<rparr> w of
           (w1, False) \<Rightarrow> ((g, w1), False)
         | (w1, True) \<Rightarrow>
             (case read_config J (ec_Content x) of None \<Rightarrow> ((g, w1), False) | Some cfg \<Rightarrow> ((Some cfg, w1), True))))"

definition remove_effective :: "effective_call \<Rightarrow> string \<Rightarrow> effective_world \<Rightarrow> effective_world \<times> bool" where
  "remove_effective E path gw = (case gw of (g, w) \<Rightarrow> (case remove_config_file (el_call E) path w of (w1, ok) \<Rightarrow> ((g, w1), ok)))"

definition runtime_snapshot :: "effective_call \<Rightarrow> string \<Rightarrow> string \<Rightarrow> string \<Rightarrow> EffectiveConfigSnapshot" where
  "runtime_snapshot E name path content =
     \<lparr>ec_UUID = el_uuid E, ec_Software = ''runtime'', ec_Name = name, ec_FilePath = path, ec_Version = [],
      ec_Format = ''json'', ec_Content = content\<rparr>"

text \<open>The part the two services have in common once the payload is merged.\<close>

definition commit_update ::
  "config_json \<Rightarrow> effective_call \<Rightarrow> string \<Rightarrow> string \<Rightarrow> string \<Rightarrow> jtree \<times> Config \<Rightarrow> effective_state
     \<Rightarrow> effective_state \<times> (effective_error + uint64 \<times> (string \<times> jtree) list)" where
  "commit_update J E section_key name path mn S =
     (case mn of (merged, nextCfg) \<Rightarrow>
        (case Config_Validate (el_duration E) nextCfg of
           (_, Some e) \<Rightarrow> (S, Inl (ConfigInvalid e))
         | (valid, None) \<Rightarrow>
             (case Commit (remove_effective E) (Some (runtime_snapshot E name path (marshal_config J valid)))
                     (Some (file_callback J E)) (Some (db_callback J E)) (ef_coordinator S) (ef_world S) of
                (c, gw, Inl e) \<Rightarrow> (\<lparr>ef_world = gw, ef_coordinator = c\<rparr>, Inl (ConfigCommitFailed e))
              | (c, gw, Inr version) \<Rightarrow>
                  (\<lparr>ef_world = gw, ef_coordinator = c\<rparr>,
                   case extract_section J section_key (cx_print J merged) of Inl e \<Rightarrow> Inl e | Inr m \<Rightarrow> Inr (version, m)))))"

section \<open>The services\<close>

definition readConfigFromPath :: "config_json \<Rightarrow> effective_call \<Rightarrow> string \<Rightarrow> config_world \<Rightarrow> effective_error + Config option" where
  "readConfigFromPath J E path w =
     (case resolveServiceConfigPath (el_env E) path of None \<Rightarrow> Inl PathNotResolved
      | Some resolvedPath \<Rightarrow>
          (case cw_files w resolvedPath of None \<Rightarrow> Inr None
           | Some raw \<Rightarrow>
               if \<not> el_readable E resolvedPath then Inl FileNotRead
               else case read_config J raw of None \<Rightarrow> Inl ConfigNotDecoded | Some cfg \<Rightarrow> Inr (Some cfg)))"

definition bootstrapBaseConfigForCustomerUpdate :: Config where
  "bootstrapBaseConfigForCustomerUpdate =
     \<lparr>cfg_Core = Some \<lparr>co_Engine = None, co_AliangServer = None, co_APIServer = ''https://sub2api.liang.home''\<rparr>,
      cfg_Customer = Some \<lparr>cc_Proxy = None, cc_AIRules = [], cc_ProxyRules = []\<rparr>, customerUnknownFields = [],
      aiRuleUnknownFields = []\<rparr>"

definition customerUpdateBaseConfigCandidates :: "string list" where
  "customerUpdateBaseConfigCandidates = [''./config.json'', customerConfigFilePath]"

fun first_config :: "config_json \<Rightarrow> effective_call \<Rightarrow> config_world \<Rightarrow> string list \<Rightarrow> effective_error + Config option" where
  "first_config J E w [] = Inr None"
| "first_config J E w (path # paths) =
     (case readConfigFromPath J E path w of Inl e \<Rightarrow> Inl e
      | Inr (Some cfg) \<Rightarrow> Inr (Some cfg) | Inr None \<Rightarrow> first_config J E w paths)"

definition resolveBaseConfigForCustomerUpdate :: "config_json \<Rightarrow> effective_call \<Rightarrow> effective_state \<Rightarrow> effective_error + Config" where
  "resolveBaseConfigForCustomerUpdate J E S =
     (case ef_world S of (g, w) \<Rightarrow>
        (case g of Some globalCfg \<Rightarrow> Inr globalCfg
         | None \<Rightarrow>
             (case LastCommittedSnapshot (ef_coordinator S) of
                Some committed \<Rightarrow>
                  if TrimSpace (ec_Content committed) \<noteq> []
                  then (case read_config J (ec_Content committed) of None \<Rightarrow> Inl ContentNotDecoded | Some cfg \<Rightarrow> Inr cfg)
                  else (case first_config J E w customerUpdateBaseConfigCandidates of Inl e \<Rightarrow> Inl e
                        | Inr (Some cfg) \<Rightarrow> Inr cfg | Inr None \<Rightarrow> Inr bootstrapBaseConfigForCustomerUpdate)
              | None \<Rightarrow> (case first_config J E w customerUpdateBaseConfigCandidates of Inl e \<Rightarrow> Inl e
                        | Inr (Some cfg) \<Rightarrow> Inr cfg | Inr None \<Rightarrow> Inr bootstrapBaseConfigForCustomerUpdate))))"

definition UpdateCommittedCustomerConfig ::
  "config_json \<Rightarrow> effective_call \<Rightarrow> string \<Rightarrow> effective_state \<Rightarrow> effective_state \<times> (effective_error + uint64 \<times> (string \<times> jtree) list)" where
  "UpdateCommittedCustomerConfig J E payload S =
     (if payload = [] then (S, Inl BodyEmpty)
      else case resolveBaseConfigForCustomerUpdate J E S of Inl e \<Rightarrow> (S, Inl e)
      | Inr globalCfg \<Rightarrow>
          (case mergeCustomerPayload J (Some globalCfg) payload of Inl e \<Rightarrow> (S, Inl e)
           | Inr mn \<Rightarrow> commit_update J E ''customer'' ''customer-config'' customerConfigFilePath mn S))"

definition UpdateCommittedCoreConfig ::
  "config_json \<Rightarrow> effective_call \<Rightarrow> string \<Rightarrow> effective_state \<Rightarrow> effective_state \<times> (effective_error + uint64 \<times> (string \<times> jtree) list)" where
  "UpdateCommittedCoreConfig J E payload S =
     (if payload = [] then (S, Inl BodyEmpty)
      else case fst (ef_world S) of None \<Rightarrow> (S, Inl NotInitialized)
      | Some globalCfg \<Rightarrow>
          (case mergeCorePayload J (Some globalCfg) payload of Inl e \<Rightarrow> (S, Inl e)
           | Inr mn \<Rightarrow> commit_update J E ''core'' ''core-config'' coreConfigFilePath mn S))"

definition committed_section ::
  "config_json \<Rightarrow> string \<Rightarrow> effective_state \<Rightarrow> effective_error + (string \<times> jtree) list \<times> uint64" where
  "committed_section J section_key S =
     (let version = Version (ef_coordinator S);
          shown = (\<lambda>content. case extract_section J section_key content of Inl e \<Rightarrow> Inl e | Inr m \<Rightarrow> Inr (m, version));
          from_global = (case fst (ef_world S) of None \<Rightarrow> Inr ([], version) | Some cfg \<Rightarrow> shown (marshal_config J cfg))
      in case LastCommittedSnapshot (ef_coordinator S) of
           None \<Rightarrow> from_global
         | Some committed \<Rightarrow> if TrimSpace (ec_Content committed) = [] then from_global else shown (ec_Content committed))"

definition GetCommittedCustomerConfig :: "config_json \<Rightarrow> effective_state \<Rightarrow> effective_error + (string \<times> jtree) list \<times> uint64" where
  "GetCommittedCustomerConfig J S = committed_section J ''customer'' S"

definition GetCommittedCoreConfig :: "config_json \<Rightarrow> effective_state \<Rightarrow> effective_error + (string \<times> jtree) list \<times> uint64" where
  "GetCommittedCoreConfig J S = committed_section J ''core'' S"

section \<open>Merging\<close>

lemma merge_lookup:
  "distinct (map fst patch) \<Longrightarrow> map_of (deepMergeJSONObjects base patch) k =
     (case map_of patch k of None \<Rightarrow> map_of base k
      | Some v \<Rightarrow> if v = JNil then map_of base k else Some (merge_value (map_of base k) v))"
proof (induction patch arbitrary: base)
  case (Cons p patch)
  obtain key v where p: "p = (key, v)" by force
  have "map_of patch key = None" using Cons.prems p by (simp add: map_of_eq_None_iff)
  then show ?case using Cons p by (auto simp: update_conv split: option.splits)
qed simp

text \<open>A merge answers for every key of the section, and leaves every other section alone.\<close>

lemma customer_merge_exact:
  assumes "mergeCustomerPayload J (Some cfg) payload = Inr (merged, nextCfg)"
  shows "\<exists>root patch m section. as_map (cx_encode J cfg) = Some root \<and> normalizeCustomerPayload J payload = Inr patch
    \<and> merged = JMap m \<and> cx_decode J merged = Some nextCfg \<and> map_of m ''customer'' = Some (JMap section)
    \<and> (\<forall>k. k \<noteq> ''customer'' \<longrightarrow> map_of m k = map_of root k)
    \<and> (distinct (map fst patch) \<longrightarrow> (\<forall>k. map_of section k =
          (let before = (case map_of root ''customer'' of Some (JMap c) \<Rightarrow> map_of c k | _ \<Rightarrow> None) in
           case map_of patch k of None \<Rightarrow> before | Some v \<Rightarrow> if v = JNil then before else Some (merge_value before v))))"
proof -
  obtain root patch current where r: "as_map (cx_encode J cfg) = Some root" "normalizeCustomerPayload J payload = Inr patch"
    and cur: "(case map_of root ''customer'' of None \<Rightarrow> Some [] | Some raw \<Rightarrow> as_map raw) = Some current"
    and m: "merged = JMap (AList.update ''customer'' (JMap (deepMergeJSONObjects current patch)) root)"
      "cx_decode J merged = Some nextCfg"
    using assms by (auto simp: mergeCustomerPayload_def Let_def split: option.splits sum.splits)
  have before: "map_of current k = (case map_of root ''customer'' of Some (JMap c) \<Rightarrow> map_of c k | _ \<Rightarrow> None)" for k
    using cur by (auto simp: as_map_def split: option.splits jtree.splits)
  have "distinct (map fst patch) \<longrightarrow> (\<forall>k. map_of (deepMergeJSONObjects current patch) k =
      (let before = (case map_of root ''customer'' of Some (JMap c) \<Rightarrow> map_of c k | _ \<Rightarrow> None) in
       case map_of patch k of None \<Rightarrow> before | Some v \<Rightarrow> if v = JNil then before else Some (merge_value before v)))"
    unfolding before [symmetric] by (simp add: merge_lookup Let_def)
  then show ?thesis using r m by (simp add: update_conv)
qed

section \<open>Committing\<close>

lemma file_callback_frame:
  "file_callback J E x (g, w) = ((g', w'), ok) \<Longrightarrow> g' = g \<and> cw_snapshots w' = cw_snapshots w \<and> cw_rows w' = cw_rows w"
  by (auto simp: file_callback_def SaveConfigToFile_def writeConfigFile_def split: option.splits prod.splits if_splits)

lemma remove_effective_frame:
  "remove_effective E p (g, w) = ((g', w'), ok) \<Longrightarrow> g' = g \<and> cw_snapshots w' = cw_snapshots w \<and> cw_rows w' = cw_rows w"
  by (auto simp: remove_effective_def remove_config_file_def split: prod.splits if_splits)

lemma file_callback_ok:
  "file_callback J E x (g, w) = ((g', w'), True) \<Longrightarrow>
     \<exists>cfg path. read_config J (ec_Content x) = Some cfg \<and> resolveServiceConfigPath (el_env E) (ec_FilePath x) = Some path
       \<and> cw_files w' path = Some (cx_indent J (cx_encode J cfg))"
  by (auto simp: file_callback_def SaveConfigToFile_def writeConfigFile_def split: option.splits prod.splits if_splits)

text \<open>A failed commit leaves the configuration, the rows and the committed snapshot; a successful one sets them all.\<close>

definition unchanged :: "effective_state \<Rightarrow> effective_state \<Rightarrow> bool" where
  "unchanged S S' \<longleftrightarrow> fst (ef_world S') = fst (ef_world S) \<and> cw_snapshots (snd (ef_world S')) = cw_snapshots (snd (ef_world S))
     \<and> LastCommittedSnapshot (ef_coordinator S') = LastCommittedSnapshot (ef_coordinator S)
     \<and> Version (ef_coordinator S') = Version (ef_coordinator S)"

definition took_effect :: "config_json \<Rightarrow> effective_call \<Rightarrow> Config \<Rightarrow> string \<Rightarrow> effective_state \<Rightarrow> effective_state \<Rightarrow> bool" where
  "took_effect J E valid path S S' \<longleftrightarrow>
     (\<exists>cfg committed resolved. read_config J (marshal_config J valid) = Some cfg \<and> fst (ef_world S') = Some cfg
        \<and> LastCommittedSnapshot (ef_coordinator S') = Some committed \<and> ec_Content committed = marshal_config J valid
        \<and> ec_FilePath committed = path \<and> Version (ef_coordinator S') = Version (ef_coordinator S) + 1
        \<and> map es_SnapshotJSON (cw_snapshots (snd (ef_world S')))
            = map es_SnapshotJSON (cw_snapshots (snd (ef_world S))) @ [marshal_config J valid]
        \<and> resolveServiceConfigPath (el_env E) path = Some resolved
        \<and> cw_files (snd (ef_world S')) resolved = Some (cx_indent J (cx_encode J cfg)))"

lemma commit_failed:
  assumes "Commit (remove_effective E) (Some x) (Some (file_callback J E)) (Some (db_callback J E)) c (g, w) = (c', (g', w'), Inl e)"
  shows "g' = g \<and> cw_snapshots w' = cw_snapshots w \<and> cc_committed c' = cc_committed c \<and> cc_version c' = cc_version c"
proof -
  obtain g1 w1 ok where f: "file_callback J E x (g, w) = ((g1, w1), ok)" by (metis prod.exhaust)
  note F = file_callback_frame [OF f]
  show ?thesis
  proof (cases ok)
    case False
    then show ?thesis using assms f F by (auto simp: Commit_def Let_def)
  next
    case True
    then obtain cfg where "read_config J (ec_Content x) = Some cfg" using file_callback_ok f by (metis (full_types))
    then have db: "db_callback J E x (g1, w1) = ((g1, w1), False)"
      using assms f True by (auto simp: Commit_def db_callback_def SaveEffectiveConfigSnapshot_def Let_def split: if_splits)
    obtain g2 w2 restored where r: "rollbackFileToCommittedSnapshot (cc_committed c) (ec_FilePath x) (file_callback J E) (remove_effective E) (g1, w1)
        = ((g2, w2), restored)" by (metis prod.exhaust)
    then have "g2 = g1 \<and> cw_snapshots w2 = cw_snapshots w1"
      using file_callback_frame remove_effective_frame
      by (auto simp: rollbackFileToCommittedSnapshot_def split: option.splits if_splits dest!: file_callback_frame remove_effective_frame)
    then show ?thesis using assms f F db r True by (auto simp: Commit_def Let_def)
  qed
qed

lemma commit_succeeded:
  assumes "Commit (remove_effective E) (Some x) (Some (file_callback J E)) (Some (db_callback J E)) c (g, w) = (c', (g', w'), Inr v)"
  shows "\<exists>cfg path. read_config J (ec_Content x) = Some cfg \<and> resolveServiceConfigPath (el_env E) (ec_FilePath x) = Some path \<and> g' = Some cfg
    \<and> cw_files w' path = Some (cx_indent J (cx_encode J cfg)) \<and> map es_SnapshotJSON (cw_snapshots w') = map es_SnapshotJSON (cw_snapshots w) @ [ec_Content x]
    \<and> cc_committed c' = Some x \<and> cc_version c' = cc_version c + 1 \<and> v = cc_version c + 1"
proof -
  obtain g1 w1 ok where f: "file_callback J E x (g, w) = ((g1, w1), ok)" by (metis prod.exhaust)
  then have ok: ok using assms by (cases ok) (auto simp: Commit_def Let_def)
  with f have "file_callback J E x (g, w) = ((g1, w1), True)" by simp
  from file_callback_ok [OF this] obtain cfg path where read: "read_config J (ec_Content x) = Some cfg" "resolveServiceConfigPath (el_env E) (ec_FilePath x) = Some path"
    "cw_files w1 path = Some (cx_indent J (cx_encode J cfg))" by blast
  obtain g2 w2 stored where d: "db_callback J E x (g1, w1) = ((g2, w2), stored)" by (metis prod.exhaust)
  have stored using assms f ok d by (cases stored) (auto simp: Commit_def Let_def split: prod.splits)
  then have w2: "g2 = Some cfg" "cw_files w2 = cw_files w1"
    "map es_SnapshotJSON (cw_snapshots w2) = map es_SnapshotJSON (cw_snapshots w1) @ [ec_Content x]"
    using d read(1) by (auto simp: db_callback_def SaveEffectiveConfigSnapshot_def split: if_splits)
  moreover have "c' = c\<lparr>cc_active := Some x, cc_committed := Some x, cc_version := cc_version c + 1\<rparr>" "g' = g2" "w' = w2"
    "v = cc_version c + 1"
    using assms f ok d \<open>stored\<close> by (auto simp: Commit_def Let_def)
  ultimately show ?thesis using read file_callback_frame [OF f] by fastforce
qed

text \<open>The shared part of both services: a rejected or failed update changes nothing.\<close>

lemma commit_update_effect:
  assumes "\<forall>j. cx_parse J (cx_print J j) = Some j \<and> TrimSpace (cx_print J j) \<noteq> []"
    and "commit_update J E key name path (JMap m, nextCfg) S = (S', r)"
  shows "case r of Inl e \<Rightarrow> unchanged S S'
    | Inr (version, shown) \<Rightarrow> version = Version (ef_coordinator S')
        \<and> shown = (case map_of m key of Some (JMap x) \<Rightarrow> x | _ \<Rightarrow> [])
        \<and> (\<exists>valid. Config_Validate (el_duration E) nextCfg = (valid, None) \<and> took_effect J E valid path S S')"
proof -
  obtain valid problem where v: "Config_Validate (el_duration E) nextCfg = (valid, problem)" by force
  let ?x = "runtime_snapshot E name path (marshal_config J valid)"
  obtain g w where gw: "ef_world S = (g, w)" by force
  obtain c' g' w' q where k: "Commit (remove_effective E) (Some ?x) (Some (file_callback J E)) (Some (db_callback J E))
      (ef_coordinator S) (g, w) = (c', (g', w'), q)" by (metis prod.exhaust)
  have shown: "extract_section J key (cx_print J (JMap m)) = Inr (case map_of m key of Some (JMap x) \<Rightarrow> x | _ \<Rightarrow> [])"
    using assms(1) by (simp add: extract_section_def as_map_def)
  consider "problem \<noteq> None" | e where "problem = None" "q = Inl e" | n where "problem = None" "q = Inr n"
    by (cases q) auto
  then show ?thesis
  proof cases
    case 1
    then show ?thesis using assms(2) v by (auto simp: commit_update_def unchanged_def)
  next
    case (2 e)
    then show ?thesis using assms(2) v gw k commit_failed [of E ?x J "ef_coordinator S" g w c' g' w' e]
      by (auto simp: commit_update_def unchanged_def LastCommittedSnapshot_def Version_def)
  next
    case (3 n)
    then have "Commit (remove_effective E) (Some ?x) (Some (file_callback J E)) (Some (db_callback J E))
      (ef_coordinator S) (g, w) = (c', (g', w'), Inr n)" using k by simp
    from commit_succeeded [OF this] have "took_effect J E valid path S \<lparr>ef_world = (g', w'), ef_coordinator = c'\<rparr> \<and> n = cc_version c'"
      using gw by (auto simp: took_effect_def runtime_snapshot_def LastCommittedSnapshot_def Version_def)
    then show ?thesis using assms(2) v gw k 3 shown by (auto simp: commit_update_def Version_def)
  qed
qed

lemma core_update_effect:
  assumes "\<forall>j. cx_parse J (cx_print J j) = Some j \<and> TrimSpace (cx_print J j) \<noteq> []"
    and "UpdateCommittedCoreConfig J E payload S = (S', r)"
  shows "case r of Inl e \<Rightarrow> unchanged S S'
    | Inr (version, shown) \<Rightarrow> version = Version (ef_coordinator S')
        \<and> (\<exists>cfg coreRaw m nextCfg valid. fst (ef_world S) = Some cfg \<and> normalizeCorePayload J payload = Inr coreRaw
             \<and> mergeCorePayload J (Some cfg) payload = Inr (JMap m, nextCfg) \<and> map_of m ''core'' = Some coreRaw
             \<and> Config_Validate (el_duration E) nextCfg = (valid, None) \<and> took_effect J E valid coreConfigFilePath S S')"
proof (cases "\<exists>cfg mn. payload \<noteq> [] \<and> fst (ef_world S) = Some cfg \<and> mergeCorePayload J (Some cfg) payload = Inr mn")
  case True
  then obtain cfg coreRaw m nextCfg where m: "payload \<noteq> []" "fst (ef_world S) = Some cfg" "normalizeCorePayload J payload = Inr coreRaw"
    "mergeCorePayload J (Some cfg) payload = Inr (JMap m, nextCfg)" "map_of m ''core'' = Some coreRaw"
    by (fastforce simp: mergeCorePayload_def Let_def update_conv split: sum.splits option.splits)
  then have "commit_update J E ''core'' ''core-config'' coreConfigFilePath (JMap m, nextCfg) S = (S', r)"
    using assms(2) by (simp add: UpdateCommittedCoreConfig_def)
  from commit_update_effect [OF assms(1) this] m show ?thesis by (auto split: sum.splits)
next
  case False
  then show ?thesis
    using assms(2) by (auto simp: UpdateCommittedCoreConfig_def unchanged_def split: if_splits option.splits sum.splits)
qed

section \<open>Properties\<close>

text \<open>
  C17. An update of the customer section is all or nothing. On any error the configuration in use, the
  committed snapshot, its version and the stored snapshots are as before. On success the payload was
  merged key by key into the section of the configuration in use, a null changing nothing, every other section
  being kept; the result was validated; and from then on the configuration in use, the file, the newest stored
  snapshot and the committed one all hold it, under the next version. Assumed: parsing what was printed gives the
  tree back, and no printed tree is blank.
\<close>

theorem customer_update_effect:
  assumes "\<forall>j. cx_parse J (cx_print J j) = Some j \<and> TrimSpace (cx_print J j) \<noteq> []"
    and "UpdateCommittedCustomerConfig J E payload S = (S', r)"
  shows "case r of Inl e \<Rightarrow> unchanged S S'
    | Inr (version, shown) \<Rightarrow> version = Version (ef_coordinator S')
        \<and> (\<exists>cfg root patch m nextCfg valid. resolveBaseConfigForCustomerUpdate J E S = Inr cfg
             \<and> as_map (cx_encode J cfg) = Some root \<and> normalizeCustomerPayload J payload = Inr patch
             \<and> cx_decode J (JMap m) = Some nextCfg \<and> map_of m ''customer'' = Some (JMap shown)
             \<and> (\<forall>k. k \<noteq> ''customer'' \<longrightarrow> map_of m k = map_of root k)
             \<and> (distinct (map fst patch) \<longrightarrow> (\<forall>k. map_of shown k =
                  (let before = (case map_of root ''customer'' of Some (JMap c) \<Rightarrow> map_of c k | _ \<Rightarrow> None) in
                   case map_of patch k of None \<Rightarrow> before | Some v \<Rightarrow> if v = JNil then before else Some (merge_value before v))))
             \<and> Config_Validate (el_duration E) nextCfg = (valid, None)
             \<and> took_effect J E valid customerConfigFilePath S S')"
proof (cases "\<exists>cfg mn. payload \<noteq> [] \<and> resolveBaseConfigForCustomerUpdate J E S = Inr cfg
    \<and> mergeCustomerPayload J (Some cfg) payload = Inr mn")
  case True
  then obtain cfg merged nextCfg where c: "payload \<noteq> []" "resolveBaseConfigForCustomerUpdate J E S = Inr cfg"
    "mergeCustomerPayload J (Some cfg) payload = Inr (merged, nextCfg)" by force
  from customer_merge_exact [OF c(3)] obtain root patch m shown where
    m: "as_map (cx_encode J cfg) = Some root" "normalizeCustomerPayload J payload = Inr patch" "merged = JMap m"
    "cx_decode J (JMap m) = Some nextCfg" "map_of m ''customer'' = Some (JMap shown)"
    "\<forall>k. k \<noteq> ''customer'' \<longrightarrow> map_of m k = map_of root k"
    "distinct (map fst patch) \<longrightarrow> (\<forall>k. map_of shown k =
       (let before = (case map_of root ''customer'' of Some (JMap c) \<Rightarrow> map_of c k | _ \<Rightarrow> None) in
        case map_of patch k of None \<Rightarrow> before | Some v \<Rightarrow> if v = JNil then before else Some (merge_value before v)))"
    by blast
  have "commit_update J E ''customer'' ''customer-config'' customerConfigFilePath (JMap m, nextCfg) S = (S', r)"
    using assms(2) c m(3) by (simp add: UpdateCommittedCustomerConfig_def)
  from commit_update_effect [OF assms(1) this] show ?thesis
    using c(2) m by (cases r) (auto simp del: Let_def)
next
  case False
  then show ?thesis
    using assms(2) by (auto simp: UpdateCommittedCustomerConfig_def unchanged_def split: if_splits sum.splits)
qed

text \<open>A concrete notation: trees written in postfix, read back by a stack machine.\<close>

fun write_tree :: "jtree \<Rightarrow> string" where
  "write_tree JNil = ''n''"
| "write_tree (JScalar s) = ''e'' @ concat (map (\<lambda>c. [CHR ''c'', c]) s)"
| "write_tree (JArray xs) = ''a'' @ concat (map (\<lambda>x. write_tree x @ ''p'') xs)"
| "write_tree (JMap m) = ''m'' @ concat (map (\<lambda>(k, v). ''e'' @ concat (map (\<lambda>c. [CHR ''c'', c]) k) @ write_tree v @ ''k'') m)"

definition tree_step :: "char \<Rightarrow> jtree list \<Rightarrow> jtree list option" where
  "tree_step h st =
     (if h = CHR ''n'' then Some (JNil # st) else if h = CHR ''e'' then Some (JScalar [] # st)
      else if h = CHR ''a'' then Some (JArray [] # st) else if h = CHR ''m'' then Some (JMap [] # st)
      else if h = CHR ''p'' then (case st of x # JArray xs # st' \<Rightarrow> Some (JArray (xs @ [x]) # st') | _ \<Rightarrow> None)
      else if h = CHR ''k'' then (case st of v # JScalar k # JMap m # st' \<Rightarrow> Some (JMap (m @ [(k, v)]) # st') | _ \<Rightarrow> None)
      else None)"

definition tree_char :: "char \<Rightarrow> jtree list \<Rightarrow> jtree list option" where
  "tree_char c st = (case st of JScalar s # st' \<Rightarrow> Some (JScalar (s @ [c]) # st') | _ \<Rightarrow> None)"

fun read_tree :: "string \<Rightarrow> jtree list \<Rightarrow> jtree list option" where
  "read_tree [] st = Some st"
| "read_tree [h] st = tree_step h st"
| "read_tree (h # c # t) st =
     (if h = CHR ''c'' then Option.bind (tree_char c st) (read_tree t) else Option.bind (tree_step h st) (read_tree (c # t)))"

lemma read_tree_simps [simp]:
  "h \<noteq> CHR ''c'' \<Longrightarrow> read_tree (h # t) st = Option.bind (tree_step h st) (read_tree t)"
  "read_tree (CHR ''c'' # c # t) st = Option.bind (tree_char c st) (read_tree t)"
proof -
  show "h \<noteq> CHR ''c'' \<Longrightarrow> read_tree (h # t) st = Option.bind (tree_step h st) (read_tree t)"
    by (cases t; cases "tree_step h st") auto
qed simp

declare read_tree.simps(2,3) [simp del] tree_step_def [simp] tree_char_def [simp]

lemma read_chars:
  "read_tree (concat (map (\<lambda>c. [CHR ''c'', c]) s) @ t) (JScalar a # st) = read_tree t (JScalar (a @ s) # st)"
  by (induction s arbitrary: a) auto

lemma read_written: "read_tree (write_tree j @ t) st = read_tree t (j # st)"
proof (induction j arbitrary: t st)
  case (JScalar s)
  then show ?case using read_chars [of s t "[]"] by simp
next
  case (JArray xs)
  then have "read_tree (concat (map (\<lambda>x. write_tree x @ ''p'') xs) @ t) (JArray ys # st) = read_tree t (JArray (ys @ xs) # st)" for ys
    by (induction xs arbitrary: ys) auto
  from this [of "[]"] show ?case by simp
next
  case (JMap m)
  then have "\<And>v t st. v \<in> snd ` set m \<Longrightarrow> read_tree (write_tree v @ t) st = read_tree t (v # st)" by force
  then have "read_tree (concat (map (\<lambda>(k, v). ''e'' @ concat (map (\<lambda>c. [CHR ''c'', c]) k) @ write_tree v @ ''k'') m) @ t) (JMap l # st)
      = read_tree t (JMap (l @ m) # st)" for l
    by (induction m arbitrary: l) (auto simp: read_chars)
  from this [of "[]"] show ?case by simp
qed simp

definition sample_json :: config_json where
  "sample_json =
     \<lparr>cx_parse = (\<lambda>t. case read_tree t [] of Some [j] \<Rightarrow> Some j | _ \<Rightarrow> None), cx_print = write_tree, cx_indent = write_tree,
      cx_decode = (\<lambda>j. case j of
          JMap m \<Rightarrow> (case map_of m ''core'' of
             Some (JMap c) \<Rightarrow> (case map_of c ''api_server'' of
                Some (JScalar a) \<Rightarrow> Some (bootstrapBaseConfigForCustomerUpdate
                   \<lparr>cfg_Core := Some \<lparr>co_Engine = None, co_AliangServer = None, co_APIServer = a\<rparr>\<rparr>)
              | _ \<Rightarrow> None)
           | _ \<Rightarrow> None)
        | _ \<Rightarrow> None),
      cx_encode = (\<lambda>cfg. JMap [(''core'', JMap [(''api_server'', JScalar (APIBaseURL (Some cfg)))]), (''customer'', JMap [])])\<rparr>"

lemma nonspace_kept: "s \<noteq> [] \<Longrightarrow> \<not> is_space (hd s) \<Longrightarrow> TrimSpace s \<noteq> []"
  by (cases s) (auto simp: TrimSpace_def TrimFunc_def trim_left_def trim_right_def dropWhile_eq_Nil_conv)

lemma sample_json_laws: "cx_parse sample_json (cx_print sample_json j) = Some j \<and> TrimSpace (cx_print sample_json j) \<noteq> []"
proof -
  have "read_tree (write_tree j) [] = Some [j]" using read_written [of j "[]" "[]"] by simp
  moreover have "TrimSpace (write_tree j) \<noteq> []"
    using nonspace_kept [of "write_tree j"] by (cases j) (auto simp: is_space_def)
  ultimately show ?thesis by (simp add: sample_json_def)
qed

definition sample_effective_call :: effective_call where
  "sample_effective_call = \<lparr>el_call = sample_config_call, el_uuid = ''u'', el_env = \<lparr>ev_get = (\<lambda>v. if v = ''HOME'' then ''/home/u'' else []), ev_goos = Linux, ev_home = None\<rparr>,
     el_readable = (\<lambda>p. True), el_duration = (\<lambda>t. if t = ''10s'' then Some (10 * second) else None)\<rparr>"

definition fresh_effective_state :: effective_state where
  "fresh_effective_state = \<lparr>ef_world = (None, snd empty_config_state), ef_coordinator = GetEffectiveConfigCommitCoordinator\<rparr>"

definition sample_payload :: string where
  "sample_payload = write_tree (JMap [(''proxy_rules'', JArray [JScalar ''x''])])"

theorem customer_update_effect_witness:
  "let (S', r) = UpdateCommittedCustomerConfig sample_json sample_effective_call sample_payload fresh_effective_state in
     r = Inr (1, [(''proxy_rules'', JArray [JScalar ''x''])]) \<and> Version (ef_coordinator S') = 1
     \<and> (\<exists>valid. took_effect sample_json sample_effective_call valid customerConfigFilePath fresh_effective_state S')"
proof -
  obtain S' r where run: "UpdateCommittedCustomerConfig sample_json sample_effective_call sample_payload fresh_effective_state = (S', r)"
    by force
  have "snd (UpdateCommittedCustomerConfig sample_json sample_effective_call sample_payload fresh_effective_state)
      = Inr (1, [(''proxy_rules'', JArray [JScalar ''x''])])" by code_simp
  then have r: "r = Inr (1, [(''proxy_rules'', JArray [JScalar ''x''])])" using run by simp
  have "\<forall>j. cx_parse sample_json (cx_print sample_json j) = Some j \<and> TrimSpace (cx_print sample_json j) \<noteq> []"
    using sample_json_laws by blast
  from customer_update_effect [OF this run] r run show ?thesis by auto
qed

section \<open>Where the services meet\<close>

text \<open>
  The coordinator is shared with the service for other programs' configurations, but each service rolls back
  with its own file callback. When the last commit was another program's, a failed update writes that program's
  file anew as a configuration of this one, or, when its content is none, stops with its own rejected file in place.
\<close>

lemma rollback_rewrites_other_file:
  assumes "cc_committed c = Some other" "\<not> cl_snapshotOk (el_call E)" "read_config J (ec_Content x) = Some cfg"
    "resolveServiceConfigPath (el_env E) (ec_FilePath x) = Some path" "path \<noteq> []" "\<forall>p t. cl_fileOk (el_call E) p t"
    "resolveServiceConfigPath (el_env E) (ec_FilePath other) = Some theirs" "theirs \<noteq> []"
  shows "case Commit (remove_effective E) (Some x) (Some (file_callback J E)) (Some (db_callback J E)) c (g, w) of
    (c', (g', w'), r) \<Rightarrow>
      (case read_config J (ec_Content other) of
         Some theirCfg \<Rightarrow> r = Inl DBStage \<and> cw_files w' theirs = Some (cx_indent J (cx_encode J theirCfg))
       | None \<Rightarrow> r = Inl DBStageRollbackFailed \<and> cw_files w' path = Some (cx_indent J (cx_encode J cfg)))"
  using assms
  by (auto simp: Commit_def Let_def file_callback_def db_callback_def SaveConfigToFile_def writeConfigFile_def
      SaveEffectiveConfigSnapshot_def rollbackFileToCommittedSnapshot_def split: option.splits)

text \<open>Before the first commit the rollback removes the path as it was given; a path that had to be expanded keeps the rejected file.\<close>

lemma first_rollback_keeps_file:
  assumes "cc_committed c = None" "\<not> cl_snapshotOk (el_call E)" "read_config J (ec_Content x) = Some cfg"
    "resolveServiceConfigPath (el_env E) (ec_FilePath x) = Some path" "path \<noteq> []" "path \<noteq> ec_FilePath x" "\<forall>p t. cl_fileOk (el_call E) p t" "cl_removeOk (el_call E)"
  shows "case Commit (remove_effective E) (Some x) (Some (file_callback J E)) (Some (db_callback J E)) c (g, w) of
    (c', (g', w'), r) \<Rightarrow> r = Inl DBStage \<and> cw_files w' path = Some (cx_indent J (cx_encode J cfg))"
  using assms
  by (auto simp: Commit_def Let_def file_callback_def db_callback_def SaveConfigToFile_def writeConfigFile_def remove_effective_def
      remove_config_file_def SaveEffectiveConfigSnapshot_def rollbackFileToCommittedSnapshot_def split: option.splits)

text \<open>Whatever was committed last is what the customer section is read from, another program's configuration included.\<close>

lemma customer_section_of_other:
  assumes "LastCommittedSnapshot (ef_coordinator S) = Some other" "TrimSpace (ec_Content other) \<noteq> []"
    "cx_parse J (ec_Content other) = Some (JMap m)" "map_of m ''customer'' = None"
  shows "GetCommittedCustomerConfig J S = Inr ([], Version (ef_coordinator S))"
  using assms by (simp add: GetCommittedCustomerConfig_def committed_section_def extract_section_def as_map_def Let_def)

text \<open>
  A daemon keeps both logical paths in one file of its data directory. An interactive run keeps two: the core service writes the
  file of the working directory, the customer service the one of the user, and the former is the base of the
  next customer update of a process that has no configuration yet.
\<close>

lemma daemon_one_file:
  assumes "DetectMode (el_env E) = ModeDaemon"
  shows "resolveServiceConfigPath (el_env E) customerConfigFilePath = Some (RuntimeConfigPath (el_env E))
    \<and> resolveServiceConfigPath (el_env E) coreConfigFilePath = Some (RuntimeConfigPath (el_env E))"
proof -
  have "TrimSpace customerConfigFilePath = customerConfigFilePath" "filepath_Base customerConfigFilePath = ''config.json''"
    "TrimSpace coreConfigFilePath = coreConfigFilePath" "filepath_Base coreConfigFilePath = ''config.json''"
    by code_simp+
  moreover have "customerConfigFilePath \<noteq> []" "coreConfigFilePath \<noteq> []"
    by (simp_all add: customerConfigFilePath_def coreConfigFilePath_def)
  ultimately show ?thesis
    using assms by (simp add: resolveServiceConfigPath_def ResolveDefaultConfigPathForMode_def RuntimeConfigPath_def)
qed

lemma stale_base_wins:
  assumes "ef_world S = (None, w)" "LastCommittedSnapshot (ef_coordinator S) = None" "DetectMode (el_env E) = ModeInteractive"
    and "cw_files w ''config.json'' = Some raw" "el_readable E ''config.json''" "read_config J raw = Some cfg"
  shows "resolveBaseConfigForCustomerUpdate J E S = Inr cfg"
proof -
  have "resolveServiceConfigPath (el_env E) ''./config.json'' = Some (filepath_Clean ''./config.json'')"
    using assms(3) by (simp add: resolveServiceConfigPath_def ResolveDefaultConfigPathForMode_def) code_simp
  moreover have "filepath_Clean ''./config.json'' = ''config.json''" by code_simp
  ultimately show ?thesis
    using assms by (simp add: resolveBaseConfigForCustomerUpdate_def customerUpdateBaseConfigCandidates_def readConfigFromPath_def)
qed

end
