(* ===== verification/Spec2Isabelle.thy ===== *)
theory Spec2Isabelle
  imports Tcp_Connection Watcher_Conn Http_Stats Config_Store Relay Auth_Service User_Center Dns_Resolver Effective_Config
begin

text \<open>
  Verification of the Aliang client: routing, interception, configuration, session and statistics.

  \<^bold>\<open>The program.\<close> The client is a local gateway. Connections reach it through a TUN device or an HTTP
  proxy port; for each of them it decides whether the traffic goes to the Aliang server, to an
  upstream proxy of the customer, or directly to its destination, and for the AI domains it opens
  the TLS session, adds an authorization header to the requests and rewrites their host. A local
  service starts and stops the proxy, keeps the login of the user and the configurations, and counts
  what passes. The parts modelled here, and how they use each other, bottom up:

  \<^item> \<^verbatim>\<open>Prelude\<close>, \<^verbatim>\<open>Netip\<close>, \<^verbatim>\<open>Url\<close>, \<^verbatim>\<open>Incremental\<close>: the functions of the Go library the code uses
    (\<^verbatim>\<open>strings\<close>, \<^verbatim>\<open>strconv\<close>, \<^verbatim>\<open>bytes\<close>, \<^verbatim>\<open>encoding/binary\<close>, \<^verbatim>\<open>net/netip\<close>, \<^verbatim>\<open>net/url\<close>), byte accesses that can
    panic, and the contract of consumers of bytes that arrive in pieces.
  \<^item> \<^verbatim>\<open>Domain_Match\<close> (\<^verbatim>\<open>processor/rules/allowlist.go\<close>, \<^verbatim>\<open>matchDomain\<close> of the decision engine): the two
    domain matchers; they satisfy one locale of laws and agree with each other.
  \<^item> \<^verbatim>\<open>Routing_Rules\<close> (\<^verbatim>\<open>common/model/routing_config.go\<close>), \<^verbatim>\<open>Routing_Schema\<close>
    (\<^verbatim>\<open>processor/config/routing_schema.go\<close>), \<^verbatim>\<open>Config_Types\<close> (\<^verbatim>\<open>processor/config/types.go\<close>): the
    configuration, its normalisation and its validation.
  \<^item> \<^verbatim>\<open>Snapshot\<close> and \<^verbatim>\<open>Decision\<close> (\<^verbatim>\<open>processor/routing/snapshot.go\<close>, \<^verbatim>\<open>decision_engine.go\<close>): the three
    compilers of a rule table and the decision over it, down to the bits of a CIDR match.
  \<^item> \<^verbatim>\<open>Switch_Manager\<close> (\<^verbatim>\<open>processor/routing/switch_manager.go\<close>), \<^verbatim>\<open>Geoip\<close> (\<^verbatim>\<open>processor/geoip\<close> and
    \<^verbatim>\<open>processor/routing/cache.go\<close>), \<^verbatim>\<open>Apply_Store\<close> (\<^verbatim>\<open>routing_apply_state.go\<close>,
    \<^verbatim>\<open>runtime_commit_coordinator.go\<close>): the switches, the address database with its cache under
    concurrent callers, and the stores that make a new configuration active or leave the old one.
  \<^item> \<^verbatim>\<open>IP_Domain_Cache\<close> and \<^verbatim>\<open>Cache_Invariant\<close> (\<^verbatim>\<open>processor/cache/ipdomain.go\<close>): the LRU cache of domain
    bindings with its address index, on an explicit heap because entries are shared by key.
  \<^item> \<^verbatim>\<open>Metadata\<close> (\<^verbatim>\<open>inbound/tun/metadata\<close>) and \<^verbatim>\<open>Rule_Engine\<close> (\<^verbatim>\<open>processor/rules/engine.go\<close>): evaluation
    of a destination through cache, allowlist, GeoIP and snapshot.
  \<^item> \<^verbatim>\<open>SNI\<close> (\<^verbatim>\<open>processor/tls/tls_sni_helper.go\<close>), \<^verbatim>\<open>Registry\<close> (\<^verbatim>\<open>outbound/registry.go\<close>), \<^verbatim>\<open>Tcp_Route\<close>
    (\<^verbatim>\<open>processor/tcp/tls.go\<close>, \<^verbatim>\<open>route_override.go\<close>, \<^verbatim>\<open>types.go\<close>), \<^verbatim>\<open>Tcp_Handler\<close> and \<^verbatim>\<open>Tcp_Connection\<close>
    (\<^verbatim>\<open>processor/tcp/handler.go\<close>), \<^verbatim>\<open>Http_Host\<close> (the host of an HTTP request, \<^verbatim>\<open>handler.go\<close> and
    \<^verbatim>\<open>processor/watcher/aliang_http_host_rewrite.go\<close>): a TCP connection from its arrival to the end of
    its relay, on the TLS path and on the plain path.
  \<^item> \<^verbatim>\<open>Protocol_Sniff\<close>, \<^verbatim>\<open>Http1_Body\<close>, \<^verbatim>\<open>Http2_Frames\<close>, \<^verbatim>\<open>Http2_Conn\<close>, \<^verbatim>\<open>Watcher_Conn\<close>
    (\<^verbatim>\<open>processor/watcher\<close>): the connection wrapper that rewrites decrypted HTTP/1 and HTTP/2 requests
    while they stream through it.
  \<^item> \<^verbatim>\<open>Relay\<close> (\<^verbatim>\<open>processor/tcp/relay.go\<close>): the two copying goroutines of a connection with their counters and
    captures, and the tracker by which they tear it down.
  \<^item> \<^verbatim>\<open>Dns_Resolver\<close> (\<^verbatim>\<open>processor/dns\<close>): the caching resolver, the hybrid resolver over three of them, and
    the resolution of a destination.
  \<^item> \<^verbatim>\<open>Ring_Buffer\<close> (\<^verbatim>\<open>common/logger/buffer.go\<close>, \<^verbatim>\<open>processor/statistic/stats_cache.go\<close>), \<^verbatim>\<open>Traffic_Stats\<close>
    (\<^verbatim>\<open>tracker.go\<close>, \<^verbatim>\<open>manager.go\<close>), \<^verbatim>\<open>Request_Cache\<close> (\<^verbatim>\<open>http_request_cache.go\<close>), \<^verbatim>\<open>AI_Domains\<close>,
    \<^verbatim>\<open>AI_Activity\<close> and \<^verbatim>\<open>Http_Stats\<close> (\<^verbatim>\<open>http_stats_collector.go\<close>, \<^verbatim>\<open>domain_stats_tracker.go\<close>,
    \<^verbatim>\<open>token_counter.go\<close>), all of \<^verbatim>\<open>processor/statistic\<close>: what is counted, by connection, by domain and by
    AI provider.
  \<^item> \<^verbatim>\<open>Runtime_Path\<close> (\<^verbatim>\<open>internal/runtimepath\<close>), \<^verbatim>\<open>Config_Store\<close> (\<^verbatim>\<open>software_config_store.go\<close>,
    \<^verbatim>\<open>software_config_service.go\<close>) and \<^verbatim>\<open>Effective_Config\<close> (\<^verbatim>\<open>customer_config_service.go\<close>,
    \<^verbatim>\<open>core_config_service.go\<close>): the configurations of other programs, kept in a database and exchanged
    with the cloud, and the client's own, both committed through the coordinator of \<^verbatim>\<open>Apply_Store\<close>.
  \<^item> \<^verbatim>\<open>Url_Builder\<close>, \<^verbatim>\<open>Session_Store\<close>, \<^verbatim>\<open>Auth_Session\<close>, \<^verbatim>\<open>Session_Steps\<close>, \<^verbatim>\<open>User_Center\<close>
    (\<^verbatim>\<open>processor/auth\<close>, \<^verbatim>\<open>processor/config/url_builder.go\<close>) and \<^verbatim>\<open>Auth_Service\<close> (\<^verbatim>\<open>auth_service.go\<close>,
    \<^verbatim>\<open>auth_runtime_hooks.go\<close>, \<^verbatim>\<open>cmd/user_init.go\<close> and the beginnings of the programs in \<^verbatim>\<open>cmd\<close>): the
    session in memory and in the database, login, refresh and logout, the calls to the account server,
    and what they do to the proxy. \<^verbatim>\<open>Auth_Session\<close> has each call as it runs alone; \<^verbatim>\<open>Session_Steps\<close> splits
    the calls at every access to shared state, proves that the steps of a call run in a row are that
    call, and lets the goroutines interleave them in any order.
  \<^item> \<^verbatim>\<open>Software_Update\<close> (\<^verbatim>\<open>software_update_service.go\<close> and its store) and \<^verbatim>\<open>Run_Service\<close> (\<^verbatim>\<open>run.go\<close>,
    \<^verbatim>\<open>processor/runtime/startup_state.go\<close>): the update check and the start, stop and switch of the proxy
    with their rollback.

  \<^bold>\<open>How code becomes definitions.\<close> A struct is a record with the prefix of its type on the fields, an
  enum a datatype, a method a function that takes the receiver and returns the new one. A Go error
  is the left side of a sum. A panic is \<open>Inl ()\<close>: every slice and index of the parsers goes through
  \<open>byte_at\<close>, \<open>Uint16\<close>, \<open>Uint32\<close> and \<open>slice\<close>, which panic out of range, so that freedom from panics is
  a theorem. Counters keep their width as words. A map is an association list whose order stands
  for the unspecified iteration order of Go; where a result does not depend on it that is proved.
  Text functions agree with Go on ASCII; the one place where Unicode changes the outcome, the
  upper-casing of sniffed bytes, is written out. The network is a list of the results that the
  reads of a connection give. A database table is the list of its rows. The clock, fresh identifiers,
  the answers of servers and whether an access to a file or a table succeeds form one record per
  call, so that every failure is a case of every theorem; requests sent and commands issued are
  recorded in the state. Where goroutines interleave, an operation is split at its locks or atomic
  accesses and the pieces are steps of their own. Code outside the repository (HPACK and the frame writers of
  \<^verbatim>\<open>golang.org/x/net/http2\<close>, \<^verbatim>\<open>http.ReadRequest\<close>, JSON codecs, dialling, certificates, the MaxMind
  reader) is an argument of the definitions that use it.

  \<^bold>\<open>What is proved.\<close>

  \<^item> Decisions: first match over the compiled table, for each of the three compilers; the route
    the TCP handler takes for a domain, also when compilation fails; exactly when it fails.
  \<^item> Configuration: what an accepted configuration guarantees; applying and committing are atomic;
    the Aliang switch governs the decisions over every history of changes.
  \<^item> Caches: well-formedness over every history, refinement of an abstract LRU table, retention,
    soundness of the reverse lookup, transparency of the GeoIP cache for interleaved callers.
  \<^item> Connections: server name extraction never panics and is a left inverse of the ClientHello
    encoding; interception is confined to enabled AI domains; every relayed connection leaves
    through the egress its recorded route names; bindings are stored only after a successful relay;
    the plain path loses no byte.
  \<^item> Request rewriting: neither \<^verbatim>\<open>Read\<close> nor \<^verbatim>\<open>Write\<close> of the wrapper panics in calls that do not
    overlap; the output does not depend on how the input is cut, for HTTP/2 and for chunked bodies, by
    one locale interpreted twice; no header block that is parsed carries an authorization header the
    client supplied; other frames pass unchanged; connections that are
    not HTTP are delivered exactly; the writer of header blocks terminates exactly for a positive
    frame size.
  \<^item> Relay: each direction delivers what was read, counted to the byte, and under every interleaving
    the connections are closed once.
  \<^item> Names: an address the resolver returns is an answer of the system to that name, of this call or
    not older than the configured life.
  \<^item> Statistics: the bytes of every tracked connection are accounted for, requests are conserved by
    the collector, buffers and caches are bounded and refine their abstract logs.
  \<^item> Stored configurations: at most one per program is in use; activation and the update of the
    client's own configuration either change file, database and memory together or leave the old
    ones in use; after a pull the local rows agree with the cloud.
  \<^item> Session and service: a session that was saved survives a restart as long as no other save touches
    the tables; in every interleaving one refresh is under way at a time, and a refresh sends the token
    the last one stored, unless another goroutine put a session into memory since; a refresh token the
    server rejects stops the proxy; a start is admitted only to a user who counts as logged in, from
    the start of the program on; a failed switch restores the previous mode; the paging of API keys
    ends when the server announces a bound.

  The locales \<open>domain_matcher\<close>, \<open>versioned_store\<close>, \<open>switch_cell\<close>, \<open>name_table\<close>, \<open>incremental\<close> and
  \<open>bounded_log\<close> are the
  contracts that several components or operations share; each is interpreted on the definitions
  of the code.

  \<^bold>\<open>Loops.\<close> Every loop is a total function with a measure, except the writer of HTTP/2 header blocks
  and the loop over the pages of API keys, which may run for ever and are partial functions whose
  value \<^const>\<open>None\<close> means just that; no fuel is used. A read from a silent peer is the end of the list of reads.

  \<^bold>\<open>What goes wrong.\<close> Lemmas show the faults the modelling found: the TLS path panics without
  ClientHello bytes; turning the Aliang switch off can make every decision fail; bytes of a partly
  read hello are lost; two domains on one address share a route; a failed header block lets later
  requests through unfiltered; a frame size of zero makes the writer loop; short messages of other
  protocols are held back; negative chunk sizes are accepted. Of the session: a granted refresh
  whose storage fails loses the new tokens; a logout during a refresh is undone; concurrent starts
  leak a refresh loop; a load that overlaps a refresh brings the replaced token back; a failed logout keeps the session; a server can keep the paging going for ever.
  Of names: no lookup ever goes through the proxy's dialer, literals are looked up as names, and the
  preloading of the global resolver never returns. Of configurations: a rollback of one service
  rewrites the file of another, and a first rollback leaves an expanded path behind. Of the service: a
  stop can miss the running proxy, a late start report forgets a stop, and the update gate fails open.

  \<^bold>\<open>Not modelled.\<close> The TUN stack and the HTTP proxy listener (glue to gVisor and \<^verbatim>\<open>net/http\<close>), the dialers
  and their wire protocols, certificates and trust stores (crypto libraries and system commands),
  the HTTP handlers of the management API, the quick setup and the integration with the operating
  system (service managers, Windows drivers), the tray application, the branches for Windows of the
  paths, and the DNS lookups through a dialer, which are unreachable. Of the modelled files, log lines
  and the text that only feeds them are left out.
\<close>

end
